(* ===== verification/Peql_Prelude.thy ===== *)
theory Peql_Prelude
  imports Main "HOL-Library.Char_ord" "HOL-Library.List_Lexorder"
begin

text \<open>
  What every component of the model shares: the collections its automation is kept in, results
  (Rust's \<open>Result\<close> with the \<open>?\<close> operator), ordered maps (\<open>BTreeMap\<close>), and the few string
  operations of the standard library the source uses. A Rust \<open>String\<close> is a \<^typ>\<open>string\<close>: the
  list of its UTF-8 bytes, compared as Rust compares strings, byte by byte.
\<close>

named_theorems res_simps \<open>rewriting of results and of the question-mark operator\<close>
named_theorems bt_simps \<open>rewriting of ordered maps\<close>

section \<open>Results\<close>

text \<open>
  A fallible function returns \<open>Inl\<close> of its error or \<open>Inr\<close> of its value. \<open>and_then r f\<close> is
  \<open>let x = r?; f(x)\<close>.
\<close>

definition and_then :: "'e + 'a \<Rightarrow> ('a \<Rightarrow> 'e + 'b) \<Rightarrow> 'e + 'b" where
  "and_then r f = (case r of Inl e \<Rightarrow> Inl e | Inr x \<Rightarrow> f x)"

lemma and_then_Inl [simp, res_simps]: "and_then (Inl e) f = Inl e"
  by (simp add: and_then_def)

lemma and_then_Inr [simp, res_simps]: "and_then (Inr x) f = f x"
  by (simp add: and_then_def)

lemma and_then_eq_Inr [res_simps]:
  "and_then r f = Inr y \<longleftrightarrow> (\<exists>x. r = Inr x \<and> f x = Inr y)"
  by (cases r) auto

lemma and_then_eq_Inl [res_simps]:
  "and_then r f = Inl e \<longleftrightarrow> r = Inl e \<or> (\<exists>x. r = Inr x \<and> f x = Inl e)"
  by (cases r) auto

lemma and_then_cong [cong]:
  "r = s \<Longrightarrow> (\<And>x. s = Inr x \<Longrightarrow> f x = g x) \<Longrightarrow> and_then r f = and_then s g"
  by (cases s) auto

definition ok_or :: "'e \<Rightarrow> 'a option \<Rightarrow> 'e + 'a" where
  "ok_or e x = (case x of None \<Rightarrow> Inl e | Some a \<Rightarrow> Inr a)"

lemma ok_or_simps [simp, res_simps]:
  "ok_or e None = Inl e"
  "ok_or e (Some a) = Inr a"
  "ok_or e x = Inr a \<longleftrightarrow> x = Some a"
  "ok_or e x = Inl e' \<longleftrightarrow> x = None \<and> e' = e"
  by (auto simp: ok_or_def split: option.splits)

text \<open>\<open>collect::<Result<Vec<_>>>()\<close>: the first error, or every value in order.\<close>

fun map_res :: "('a \<Rightarrow> 'e + 'b) \<Rightarrow> 'a list \<Rightarrow> 'e + 'b list" where
  "map_res f [] = Inr []"
| "map_res f (x # xs) = and_then (f x) (\<lambda>y. and_then (map_res f xs) (\<lambda>ys. Inr (y # ys)))"

lemma map_res_Inr_iff:
  "map_res f xs = Inr ys \<longleftrightarrow> list_all2 (\<lambda>x y. f x = Inr y) xs ys"
  by (induction xs arbitrary: ys)
    (auto simp: and_then_eq_Inr list_all2_Cons1)

lemma map_res_length: "map_res f xs = Inr ys \<Longrightarrow> length ys = length xs"
  by (simp add: map_res_Inr_iff list_all2_lengthD)

lemma map_res_pure [simp]: "map_res (\<lambda>x. Inr (f x)) xs = Inr (map f xs)"
  by (induction xs) simp_all

lemma map_res_cong [fundef_cong]:
  "xs = ys \<Longrightarrow> (\<And>x. x \<in> set ys \<Longrightarrow> f x = g x) \<Longrightarrow> map_res f xs = map_res g ys"
  by (induction ys arbitrary: xs) auto

section \<open>Ordered maps\<close>

text \<open>
  A \<open>BTreeMap\<close> is the list of its entries in key order, as its iterators give them; \<open>map_of\<close> is
  \<open>get\<close>. \<open>bt_ok\<close> is the representation's invariant: keys strictly increasing.
\<close>

type_synonym ('k, 'v) btmap = "('k \<times> 'v) list"

definition bt_ok :: "('k::linorder, 'v) btmap \<Rightarrow> bool" where
  "bt_ok m \<longleftrightarrow> sorted_wrt (<) (map fst m)"

fun bt_insert :: "'k::linorder \<Rightarrow> 'v \<Rightarrow> ('k, 'v) btmap \<Rightarrow> ('k, 'v) btmap" where
  "bt_insert k v [] = [(k, v)]"
| "bt_insert k v (e # m) =
     (if k = fst e then (k, v) # m
      else if k < fst e then (k, v) # e # m
      else e # bt_insert k v m)"

definition bt_remove :: "'k \<Rightarrow> ('k, 'v) btmap \<Rightarrow> ('k, 'v) btmap" where
  "bt_remove k m = filter (\<lambda>e. fst e \<noteq> k) m"

text \<open>\<open>get(k).copied().unwrap_or(d)\<close>.\<close>

definition bt_get_or :: "'v \<Rightarrow> ('k, 'v) btmap \<Rightarrow> 'k \<Rightarrow> 'v" where
  "bt_get_or d m k = (case map_of m k of None \<Rightarrow> d | Some v \<Rightarrow> v)"

text \<open>\<open>*entry(k).or_insert(d) = f(old)\<close>.\<close>

definition bt_update :: "'v \<Rightarrow> ('v \<Rightarrow> 'v) \<Rightarrow> 'k::linorder \<Rightarrow> ('k, 'v) btmap \<Rightarrow> ('k, 'v) btmap" where
  "bt_update d f k m = bt_insert k (f (bt_get_or d m k)) m"

text \<open>\<open>collect()\<close> into a map: later entries replace earlier ones.\<close>

definition bt_of :: "('k::linorder \<times> 'v) list \<Rightarrow> ('k, 'v) btmap" where
  "bt_of es = fold (\<lambda>(k, v). bt_insert k v) es []"

lemma map_of_bt_insert [simp, bt_simps]: "map_of (bt_insert k v m) = (map_of m)(k \<mapsto> v)"
  by (induction m) (auto simp: fun_eq_iff)

lemma map_of_bt_remove [simp, bt_simps]: "map_of (bt_remove k m) = (map_of m)(k := None)"
  by (induction m) (auto simp: bt_remove_def fun_eq_iff)

lemma keys_bt_insert [simp]: "fst ` set (bt_insert k v m) = insert k (fst ` set m)"
  by (induction m) auto

lemma set_bt_insert_subset: "set (bt_insert k v m) \<subseteq> insert (k, v) (set m)"
  by (induction m) auto

lemma bt_ok_Nil [simp]: "bt_ok []"
  by (simp add: bt_ok_def)

lemma bt_ok_insert [simp, intro]: "bt_ok m \<Longrightarrow> bt_ok (bt_insert k v m)"
proof (induction m)
  case Nil
  then show ?case by (simp add: bt_ok_def)
next
  case (Cons e m)
  have keys: "set (map fst (bt_insert k v m)) = insert k (set (map fst m))"
    using keys_bt_insert [of k v m] by (simp only: set_map)
  from Cons.prems have "bt_ok m" and first: "\<forall>x \<in> set (map fst m). fst e < x"
    by (auto simp: bt_ok_def)
  then show ?case
    using Cons.IH keys by (auto simp: bt_ok_def simp del: set_map)
qed

lemma bt_ok_remove [simp, intro]: "bt_ok m \<Longrightarrow> bt_ok (bt_remove k m)"
  by (induction m) (auto simp: bt_ok_def bt_remove_def)

lemma bt_ok_distinct: "bt_ok m \<Longrightarrow> distinct (map fst m)"
  by (simp add: bt_ok_def strict_sorted_iff)

lemma bt_get_or_insert [simp, bt_simps]:
  "bt_get_or d (bt_insert k v m) k' = (if k' = k then v else bt_get_or d m k')"
  by (simp add: bt_get_or_def)

lemma bt_get_or_update [simp, bt_simps]:
  "bt_get_or d (bt_update d f k m) k' =
     (if k' = k then f (bt_get_or d m k) else bt_get_or d m k')"
  by (simp add: bt_update_def)

lemma bt_get_or_Nil [simp]: "bt_get_or d [] k = d"
  by (simp add: bt_get_or_def)

lemma bt_ok_update [simp, intro]: "bt_ok m \<Longrightarrow> bt_ok (bt_update d f k m)"
  by (simp add: bt_update_def)

lemma bt_ok_fold_insert: "bt_ok m \<Longrightarrow> bt_ok (fold (\<lambda>(k, v). bt_insert k v) es m)"
  by (induction es arbitrary: m) (auto split: prod.splits)

lemma bt_ok_of [simp, intro]: "bt_ok (bt_of es)"
  by (simp add: bt_of_def bt_ok_fold_insert)

lemma map_of_fold_insert:
  "map_of (fold (\<lambda>(k, v). bt_insert k v) es m) = map_of m ++ map_of (rev es)"
proof (induction es arbitrary: m)
  case Nil
  then show ?case by simp
next
  case (Cons e es)
  obtain k v where e: "e = (k, v)" by (cases e)
  have "fold (\<lambda>(k, v). bt_insert k v) (e # es) m = fold (\<lambda>(k, v). bt_insert k v) es (bt_insert k v m)"
    by (simp add: e)
  also have "map_of \<dots> = (map_of m)(k \<mapsto> v) ++ map_of (rev es)"
    by (simp only: Cons.IH map_of_bt_insert)
  finally show ?case
    by (auto simp: e fun_eq_iff map_add_def split: option.splits)
qed

lemma map_of_bt_of [simp, bt_simps]: "map_of (bt_of es) = map_of (rev es)"
  by (simp add: bt_of_def map_of_fold_insert)

lemma map_of_rev: "distinct (map fst es) \<Longrightarrow> map_of (rev es) = map_of es"
  by (subst map_of_inject_set) (auto simp: rev_map [symmetric])

lemma map_of_bt_of_distinct: "distinct (map fst es) \<Longrightarrow> map_of (bt_of es) = map_of es"
  by (simp add: map_of_rev)

section \<open>Strings and numbers as text\<close>

definition digit :: "nat \<Rightarrow> char" where
  "digit d = char_of (48 + d)"

fun show_nat :: "nat \<Rightarrow> string" where
  "show_nat n = (if n < 10 then [digit n] else show_nat (n div 10) @ [digit (n mod 10)])"

declare show_nat.simps [simp del]

definition show_int :: "int \<Rightarrow> string" where
  "show_int i = (if i < 0 then ''-'' @ show_nat (nat (- i)) else show_nat (nat i))"

text \<open>\<open>parts.join(sep)\<close>.\<close>

fun join :: "string \<Rightarrow> string list \<Rightarrow> string" where
  "join sep [] = []"
| "join sep [x] = x"
| "join sep (x # y # ys) = x @ sep @ join sep (y # ys)"

text \<open>\<open>s.replace('/', "__")\<close>: how a contract's name becomes a file name.\<close>

fun replace_slash :: "string \<Rightarrow> string" where
  "replace_slash [] = []"
| "replace_slash (c # cs) = (if c = CHR ''/'' then ''__'' @ replace_slash cs else c # replace_slash cs)"

text \<open>\<open>s.replace("__", "/")\<close>, leftmost matches first.\<close>

fun restore_slash :: "string \<Rightarrow> string" where
  "restore_slash (a # b # cs) =
     (if a = CHR ''_'' \<and> b = CHR ''_'' then CHR ''/'' # restore_slash cs else a # restore_slash (b # cs))"
| "restore_slash cs = cs"

lemma replace_slash_append: "replace_slash (xs @ ys) = replace_slash xs @ replace_slash ys"
  by (induction xs) auto

lemma replace_slash_no_slash [simp]: "CHR ''/'' \<notin> set (replace_slash s)"
  by (induction s) auto

lemma replace_slash_id: "CHR ''/'' \<notin> set s \<Longrightarrow> replace_slash s = s"
  by (induction s) auto

lemma hd_replace_slash:
  "s \<noteq> [] \<Longrightarrow> hd s \<noteq> CHR ''/'' \<Longrightarrow> hd (replace_slash s) = hd s \<and> replace_slash s \<noteq> []"
  by (cases s) auto

text \<open>A name without underscores survives the round trip through a file name.\<close>

lemma restore_replace_slash: "CHR ''_'' \<notin> set s \<Longrightarrow> restore_slash (replace_slash s) = s"
proof (induction s)
  case Nil
  then show ?case by simp
next
  case (Cons c s)
  then have IH: "restore_slash (replace_slash s) = s" by simp
  show ?case
  proof (cases "c = CHR ''/''")
    case True
    with IH show ?thesis by simp
  next
    case False
    with Cons.prems have "c \<noteq> CHR ''_''" by auto
    with IH False show ?thesis by (cases "replace_slash s") auto
  qed
qed

section \<open>Options and lists\<close>

text \<open>\<open>iter.sum::<Option<_>>()\<close>: nothing as soon as one summand is missing.\<close>

fun sum_opt :: "'a::comm_monoid_add option list \<Rightarrow> 'a option" where
  "sum_opt [] = Some 0"
| "sum_opt (None # xs) = None"
| "sum_opt (Some a # xs) = map_option ((+) a) (sum_opt xs)"

lemma sum_opt_append:
  "sum_opt (xs @ ys) =
     (case sum_opt xs of None \<Rightarrow> None | Some a \<Rightarrow> map_option ((+) a) (sum_opt ys))"
proof (induction xs rule: sum_opt.induct)
  case (3 a xs)
  then show ?case by (cases "sum_opt xs"; cases "sum_opt ys") (auto simp: add.assoc)
next
  case 1
  then show ?case by (cases "sum_opt ys") auto
qed simp

lemma sum_opt_Some_iff: "(\<exists>a. sum_opt xs = Some a) \<longleftrightarrow> None \<notin> set xs"
  by (induction xs rule: sum_opt.induct) auto

lemma sum_opt_map_Some: "sum_opt (map Some xs) = Some (sum_list xs)"
  by (induction xs) auto

lemma filter_partition_length:
  "length (filter P xs) + length (filter (\<lambda>x. \<not> P x) xs) = length xs"
  by (induction xs) auto

end
