(* ===== verification/Parcel_Types.thy ===== *)
theory Parcel_Types
  imports Peql_Prelude
begin

text \<open>
  The data that reaches the engine from outside: Arrow schemas and record batches, DataFusion
  expressions, and the compiled contracts of parcel. Only the fields and the alternatives the
  engine's source names are here; everything it never looks into is an opaque value. Arrow arrays
  are lists of cells, and the kernels the source calls on them are the list operations they are
  documented to be.
\<close>

section \<open>Arrow\<close>

datatype data_type =
    TBoolean | TUtf8 | TInt64 | TUInt64 | TFloat32 | TFloat64
  | TList data_type
  | TFixedSizeList data_type int
  | TOther string

datatype cell = CNull | CBool bool | CInt int | CStr string | CList "cell list"

record field =
  field_name :: string
  field_type :: data_type
  nullable :: bool

type_synonym schema = "field list"

text \<open>A record batch: a schema and one column of cells per field, all of \<open>num_rows\<close> cells.\<close>

record batch =
  batch_schema :: schema
  columns :: "cell list list"
  num_rows :: nat

definition batch_ok :: "batch \<Rightarrow> bool" where
  "batch_ok b \<longleftrightarrow> length (columns b) = length (batch_schema b)
     \<and> (\<forall>c \<in> set (columns b). length c = num_rows b)"

text \<open>\<open>column_by_name\<close>: the first column of that name, with its type.\<close>

fun named_column :: "string \<Rightarrow> schema \<Rightarrow> cell list list \<Rightarrow> (data_type \<times> cell list) option" where
  "named_column n (f # fs) (c # cs) =
     (if field_name f = n then Some (field_type f, c) else named_column n fs cs)"
| "named_column n _ _ = None"

definition column_by_name :: "batch \<Rightarrow> string \<Rightarrow> (data_type \<times> cell list) option" where
  "column_by_name b n = named_column n (batch_schema b) (columns b)"

lemma named_column_length:
  "named_column n fs cs = Some (t, c) \<Longrightarrow> c \<in> set cs"
  by (induction n fs cs rule: named_column.induct) (auto split: if_splits)

lemma column_by_name_length:
  "batch_ok b \<Longrightarrow> column_by_name b n = Some (t, c) \<Longrightarrow> length c = num_rows b"
  unfolding column_by_name_def batch_ok_def by (blast dest: named_column_length)

definition field_with_name :: "schema \<Rightarrow> string \<Rightarrow> field option" where
  "field_with_name s n = find (\<lambda>f. field_name f = n) s"

text \<open>The \<open>filter\<close> kernel: the cells where the mask is set.\<close>

definition mask_filter :: "bool list \<Rightarrow> 'a list \<Rightarrow> 'a list" where
  "mask_filter m xs = map snd (filter fst (zip m xs))"

lemma mask_filter_Nil [simp]: "mask_filter [] xs = []" "mask_filter m [] = []"
  by (simp_all add: mask_filter_def)

lemma mask_filter_Cons [simp]:
  "mask_filter (b # m) (x # xs) = (if b then x # mask_filter m xs else mask_filter m xs)"
  by (simp add: mask_filter_def)

lemma length_mask_filter: "length m = length xs \<Longrightarrow> length (mask_filter m xs) = count_list m True"
  by (induction m xs rule: list_induct2) auto

lemma mask_filter_replicate [simp]: "length xs = n \<Longrightarrow> mask_filter (replicate n True) xs = xs"
  by (induction xs arbitrary: n) auto

lemma mask_filter_partition:
  "length m = length xs \<Longrightarrow>
     length (mask_filter m xs) + length (mask_filter (map Not m) xs) = length xs"
  by (induction m xs rule: list_induct2) auto

lemma count_list_Not: "count_list (map Not m) True = count_list m False"
  by (induction m) auto

lemma count_list_bool: "count_list m True + count_list m False = length m"
  by (induction m) auto

section \<open>DataFusion expressions\<close>

text \<open>The alternatives of \<open>Expr\<close> the source names; every other one is \<open>OtherExpr\<close> of its kind
  and its parts.\<close>

datatype operator =
    Eq | NotEq | Lt | LtEq | Gt | GtEq | OpAnd | OpOr
  | IsDistinctFrom | IsNotDistinctFrom
  | OtherOp string

datatype unary_test =
    Negation | IsNull | IsNotNull | IsTrue | IsFalse | IsNotTrue | IsNotFalse
  | IsUnknown | IsNotUnknown

datatype expr =
    Column string
  | Literal cell
  | Test unary_test expr
  | TryCast expr data_type
  | Between expr expr expr
  | BinaryExpr expr operator expr
  | InList expr "expr list"
  | Like expr expr "char option"
  | Cast expr data_type
  | OtherExpr string "expr list"

section \<open>Compiled contracts\<close>

datatype assert_on_fail = AssertDrop | AssertDeny | AssertReport

datatype guarantee_on_fail = GuaranteeDeny | GuaranteeAnnotate

record flag =
  assert_id :: string
  flag_column :: string
  flag_expr :: expr
  flag_on_fail :: assert_on_fail

record derived =
  derived_column :: string
  derived_type :: data_type
  derived_expr :: expr

record guarantee_rule =
  g_id :: string
  g_on_fail :: guarantee_on_fail
  g_reads :: "string list"
  g_cel :: string

datatype column_stat = NullCount | NullRate | StatMin | StatMax | DistinctCount

datatype dataset_field =
    RowCount
  | AssertionPassRate string
  | ColumnField string column_stat
  | OtherField string
  | WrittenAt
  | ContractHash

datatype parcel_type =
    TyInt | TyUint | TyDouble | TyDecimal int | TyString | TyBool | TyTimestamp | TyOther string

record stat_rule =
  st_column :: string
  st_field :: dataset_field
  st_ty :: parcel_type

datatype source = ParquetSource string | IcebergSource "string list" string

record function_pin =
  pin_name :: string
  pin_hash :: string

text \<open>\<open>CompiledContract\<close>: the fields the engine reads.\<close>

record compiled_contract =
  cc_name :: string
  cc_version :: nat
  cc_owner :: "string option"
  contract_hash :: string
  compilation_hash :: string
  cc_flags :: "flag list"
  cc_derived :: "derived list"
  admits :: "(string \<times> expr) list"
  admits_stored :: "(string \<times> expr) list"
  projection :: "(string \<times> expr) list"
  projection_stored :: "(string \<times> expr) list"
  row_schema :: schema
  scan_schema :: schema
  exposed_schema :: schema
  cc_functions :: "function_pin list"
  decisions :: "string list"
  guarantees :: "guarantee_rule list"
  cc_source :: source
  partitioned_by :: "string list"

text \<open>How a write lays its files out: partition and cluster columns, columns with bloom filters.\<close>

record write_layout =
  partition_by :: "string list"
  cluster_by :: "string list"
  bloom :: "string list"

text \<open>\<open>Compilation\<close>: the contract with its validation plan and its write plan.\<close>

record compilation =
  contract :: compiled_contract
  val_stats :: "stat_rule list"
  val_asserts :: "string list"
  data_guarantees :: "string list"
  write_flags :: "flag list"
  write_derived :: "derived list"
  layout :: write_layout

text \<open>The caller of a query, as the embedding application authenticated them.\<close>

record caller =
  caller_id :: string
  tenant :: string
  purpose :: string
  caller_tier :: string
  caller_classification :: string
  caller_roles :: "string list"
  caller_clearance :: int
  caller_now :: int

section \<open>A concrete contract\<close>

text \<open>The contract the witnesses of the properties run on: one assert of each kind, one guarantee.\<close>

definition ex_contract :: compiled_contract where
  "ex_contract = \<lparr>cc_name = ''t/orders'', cc_version = 1, cc_owner = None,
     contract_hash = ''h1'', compilation_hash = ''k1'',
     cc_flags = [\<lparr>assert_id = ''a'', flag_column = ''fa'', flag_expr = Column ''x'', flag_on_fail = AssertDrop\<rparr>,
                 \<lparr>assert_id = ''b'', flag_column = ''fb'', flag_expr = Column ''x'', flag_on_fail = AssertDeny\<rparr>],
     cc_derived = [], admits = [], admits_stored = [],
     projection = [(''x'', Column ''x'')], projection_stored = [(''x'', Column ''x'')],
     row_schema = [\<lparr>field_name = ''x'', field_type = TInt64, nullable = True\<rparr>],
     scan_schema = [\<lparr>field_name = ''x'', field_type = TInt64, nullable = True\<rparr>],
     exposed_schema = [\<lparr>field_name = ''x'', field_type = TInt64, nullable = True\<rparr>],
     cc_functions = [], decisions = [],
     guarantees = [\<lparr>g_id = ''g'', g_on_fail = GuaranteeDeny, g_reads = [], g_cel = ''true''\<rparr>],
     cc_source = ParquetSource ''orders'', partitioned_by = []\<rparr>"

definition ex_compilation :: compilation where
  "ex_compilation = \<lparr>contract = ex_contract,
     val_stats = [\<lparr>st_column = ''x_null_rate'', st_field = ColumnField ''x'' NullRate, st_ty = TyDouble\<rparr>],
     val_asserts = [''a'', ''b''], data_guarantees = [''g''],
     write_flags = cc_flags ex_contract, write_derived = [],
     layout = \<lparr>partition_by = [], cluster_by = [], bloom = []\<rparr>\<rparr>"

lemmas ex_contract_simps = ex_contract_def ex_compilation_def

end
