(* ===== verification/Peql_Error.thy ===== *)
theory Peql_Error
  imports Peql_Prelude
begin

text \<open>
  Everything a call can refuse or fail with (\<open>src/error.rs\<close>): the error type, its text, which
  errors are refusals by policy, and the gRPC status the Flight service answers each with
  (\<open>status\<close> in \<open>src/flight.rs\<close>).
\<close>

text \<open>DataFusion's error, as far as the source tells its kinds apart.\<close>

datatype df_error = DfPlan string | DfSQL string | DfSchemaError string | DfOther string

fun df_text :: "df_error \<Rightarrow> string" where
  "df_text (DfPlan s) = s"
| "df_text (DfSQL s) = s"
| "df_text (DfSchemaError s) = s"
| "df_text (DfOther s) = s"

datatype peql_error =
    Compile "string list"
  | UnknownContract string
  | Denied string string
  | NotWritten string
  | NotServable string "string list"
  | Violated string "(string \<times> nat) list"
  | GuaranteeFailed string string
  | BudgetExhausted string
  | Refused string
  | Ungated string
  | Signing string
  | Invalid string
  | Conflict string
  | DataFusion df_error
  | Io string
  | IcebergError string

type_synonym 'a res = "peql_error + 'a"

text \<open>\<open>describe\<close> of \<open>src/violation.rs\<close>: \<open>rule (n rows), ...\<close>.\<close>

definition describe_violations :: "(string \<times> nat) list \<Rightarrow> string" where
  "describe_violations vs =
     join '', '' (map (\<lambda>(rule, n). rule @ '' ('' @ show_nat n @ '' row''
       @ (if n = 1 then '''' else ''s'') @ '')'') vs)"

fun error_text :: "peql_error \<Rightarrow> string" where
  "error_text (Compile ds) = ''contract does not compile:'' @ ''\<newline>''
     @ join ''\<newline>'' (map (\<lambda>d. ''  '' @ d) ds)"
| "error_text (UnknownContract n) = ''no contract named `'' @ n @ ''`''"
| "error_text (Denied c r) = ''denied by `'' @ c @ ''` rule `'' @ r @ ''`''"
| "error_text (NotWritten c) = ''`'' @ c @ ''` has no data yet; write to it first''"
| "error_text (NotServable c b) = ''`'' @ c @ ''` is not servable: '' @ join '', '' b"
| "error_text (Violated c vs) =
     ''`'' @ c @ ''` refused rows that break its rules: '' @ describe_violations vs"
| "error_text (GuaranteeFailed c r) = ''`'' @ c @ ''` guarantee `'' @ r @ ''` does not hold''"
| "error_text (BudgetExhausted b) = ''privacy budget `'' @ b @ ''` is exhausted for this caller''"
| "error_text (Refused v) = ''only queries are allowed: `'' @ v @ ''` is refused''"
| "error_text (Ungated c) =
     ''the plan for this query has no gate for `'' @ c @ ''`; it will not run''"
| "error_text (Signing e) = ''the envelope could not be signed: '' @ e"
| "error_text (Invalid s) = s"
| "error_text (Conflict s) = ''write conflict: '' @ s"
| "error_text (DataFusion e) = df_text e"
| "error_text (Io s) = s"
| "error_text (IcebergError s) = ''iceberg: '' @ s"

text \<open>\<open>is_refusal\<close>: refused by policy rather than failing.\<close>

fun is_refusal :: "peql_error \<Rightarrow> bool" where
  "is_refusal (Denied c r) = True"
| "is_refusal (NotServable c b) = True"
| "is_refusal (Violated c vs) = True"
| "is_refusal (GuaranteeFailed c r) = True"
| "is_refusal (BudgetExhausted b) = True"
| "is_refusal (Refused v) = True"
| "is_refusal (UnknownContract n) = True"
| "is_refusal e = False"

text \<open>\<open>From<RuntimeError>\<close>: parcel's runtime errors.\<close>

datatype runtime_error = RtDataFusion df_error | RtInvalid string

fun from_runtime :: "runtime_error \<Rightarrow> peql_error" where
  "from_runtime (RtDataFusion d) = DataFusion d"
| "from_runtime (RtInvalid s) = Invalid s"

text \<open>The gRPC status code of each error (\<open>status\<close> in \<open>src/flight.rs\<close>).\<close>

datatype grpc_code =
    NotFound | PermissionDenied | ResourceExhausted | FailedPrecondition
  | InvalidArgument | Unavailable | Aborted | Internal | Unauthenticated | AlreadyExists

fun status_code :: "peql_error \<Rightarrow> grpc_code" where
  "status_code (UnknownContract n) = NotFound"
| "status_code (Denied c r) = PermissionDenied"
| "status_code (Refused v) = PermissionDenied"
| "status_code (GuaranteeFailed c r) = PermissionDenied"
| "status_code (NotServable c b) = PermissionDenied"
| "status_code (Violated c vs) = PermissionDenied"
| "status_code (Ungated c) = PermissionDenied"
| "status_code (BudgetExhausted b) = ResourceExhausted"
| "status_code (NotWritten c) = FailedPrecondition"
| "status_code (Compile ds) = InvalidArgument"
| "status_code (Invalid s) = InvalidArgument"
| "status_code (Signing e) = Unavailable"
| "status_code (DataFusion (DfPlan s)) = InvalidArgument"
| "status_code (DataFusion (DfSQL s)) = InvalidArgument"
| "status_code (DataFusion (DfSchemaError s)) = InvalidArgument"
| "status_code (Conflict s) = Aborted"
| "status_code (DataFusion (DfOther s)) = Internal"
| "status_code (Io s) = Internal"
| "status_code (IcebergError s) = Internal"

text \<open>\<open>status\<close>: the code with the error's own words.\<close>

definition status :: "peql_error \<Rightarrow> grpc_code \<times> string" where
  "status e = (status_code e, error_text e)"

text \<open>
  Every refusal reaches a Flight client as one of three codes, none of which any failure of the
  server, of storage or of a signer has; the one other error with such a code is a plan without
  its gate.
\<close>

theorem refusal_codes:
  "is_refusal e \<longleftrightarrow>
     status_code e \<in> {NotFound, PermissionDenied, ResourceExhausted} \<and> (\<forall>c. e \<noteq> Ungated c)"
  by (cases e rule: status_code.cases) auto

end
