(* ===== verification/Violation.thy ===== *)
theory Violation
  imports Parcel_Types Peql_Error
begin

text \<open>
  What happens to rows that break a contract's row rules (\<open>src/violation.rs\<close>): the two modes and
  their parsers, which asserts a row can break, the counts of broken rules, and \<open>split\<close>, which
  parts a write's rows into those that pass every rule and those that break one.
\<close>

section \<open>Modes\<close>

datatype on_write_violation = WRefuse | WExclude | WWarn

datatype on_read_violation = RExclude | RRefuse

definition default_write_violation :: on_write_violation where
  "default_write_violation = WRefuse"

definition default_read_violation :: on_read_violation where
  "default_read_violation = RExclude"

definition parse_write_violation :: "string \<Rightarrow> on_write_violation res" where
  "parse_write_violation s =
     (if s = ''refuse'' then Inr WRefuse
      else if s = ''exclude'' then Inr WExclude
      else if s = ''warn'' then Inr WWarn
      else Inl (Invalid (''`'' @ s @
        ''` is not a write's on_violation: refuse, exclude or warn'')))"

definition parse_read_violation :: "string \<Rightarrow> on_read_violation res" where
  "parse_read_violation s =
     (if s = ''exclude'' then Inr RExclude
      else if s = ''refuse'' then Inr RRefuse
      else Inl (Invalid (''`'' @ s @
        ''` is not a read's on_violation: exclude or refuse'')))"

section \<open>The rules a row can break\<close>

definition enforced :: "assert_on_fail \<Rightarrow> bool" where
  "enforced f \<longleftrightarrow> (f = AssertDrop \<or> f = AssertDeny)"

definition enforced_flags :: "flag list \<Rightarrow> flag list" where
  "enforced_flags fs = filter (\<lambda>f. enforced (flag_on_fail f)) fs"

text \<open>\<open>broken\<close>: failure counts are \<open>i64\<close>, the counts reported \<open>u64\<close>; a count is converted only
  when it is positive, where the two agree.\<close>

definition broken :: "flag list \<Rightarrow> (string, int) btmap \<Rightarrow> (string \<times> nat) list" where
  "broken fs failures =
     List.map_filter (\<lambda>f. let n = bt_get_or 0 failures (assert_id f)
                     in if 0 < n then Some (assert_id f, nat n) else None)
       (enforced_flags fs)"

lemma broken_Nil [simp]: "broken [] failures = []"
  by (simp add: broken_def enforced_flags_def List.map_filter_simps)

lemma broken_Cons:
  "broken (f # fs) failures =
     (if enforced (flag_on_fail f) \<and> 0 < bt_get_or 0 failures (assert_id f)
      then (assert_id f, nat (bt_get_or 0 failures (assert_id f))) # broken fs failures
      else broken fs failures)"
  by (simp add: broken_def enforced_flags_def List.map_filter_simps Let_def)

lemma set_broken:
  "(rule, n) \<in> set (broken fs failures) \<longleftrightarrow>
     (\<exists>f \<in> set fs. enforced (flag_on_fail f) \<and> assert_id f = rule
        \<and> int n = bt_get_or 0 failures rule \<and> 0 < n)"
  by (induction fs) (auto simp: broken_Cons)

lemma broken_empty_iff:
  "broken fs failures = [] \<longleftrightarrow>
     (\<forall>f \<in> set fs. enforced (flag_on_fail f) \<longrightarrow> bt_get_or 0 failures (assert_id f) \<le> 0)"
  by (induction fs) (auto simp: broken_Cons)

section \<open>Splitting a write's rows\<close>

definition violations_column :: string where
  "violations_column = ''_violations''"

record split_result =
  passing :: "batch list"
  passing_rows :: nat
  breaking :: "batch option"
  counts :: "(string, nat) btmap"

text \<open>The mask of one rule over one batch: null counts as not passing.\<close>

definition flag_mask :: "batch \<Rightarrow> flag \<Rightarrow> bool list res" where
  "flag_mask b f =
     (case column_by_name b (flag_column f) of
        None \<Rightarrow> Inl (Invalid (''the written rows have no flag `'' @ flag_column f @ ''`''))
      | Some (ty, cs) \<Rightarrow>
          if ty \<noteq> TBoolean
          then Inl (Invalid (''the flag `'' @ flag_column f @ ''` is not boolean''))
          else Inr (map (\<lambda>c. c = CBool True) cs))"

text \<open>Count one rule's failures in one batch.\<close>

definition count_failed :: "flag \<times> bool list \<Rightarrow> (string, nat) btmap \<Rightarrow> (string, nat) btmap" where
  "count_failed p cnt =
     (let failed = length (snd p) - count_list (snd p) True
      in if 0 < failed then bt_update 0 (\<lambda>n. n + failed) (assert_id (fst p)) cnt else cnt)"

definition all_pass :: "nat \<Rightarrow> bool list list \<Rightarrow> bool list" where
  "all_pass n passes = foldl (map2 (\<and>)) (replicate n True) passes"

definition filter_batch :: "bool list \<Rightarrow> batch \<Rightarrow> batch" where
  "filter_batch m b = b\<lparr>columns := map (mask_filter m) (columns b), num_rows := count_list m True\<rparr>"

text \<open>The rules a row broke, in the contract's order.\<close>

definition row_reasons :: "flag list \<Rightarrow> bool list list \<Rightarrow> nat \<Rightarrow> cell" where
  "row_reasons fs passes row =
     CList (map (\<lambda>p. CStr (assert_id (fst p))) (filter (\<lambda>p. \<not> snd p ! row) (zip fs passes)))"

definition breaking_schema :: "schema \<Rightarrow> schema" where
  "breaking_schema rs =
     rs @ [\<lparr>field_name = violations_column, field_type = TList TUtf8, nullable = False\<rparr>]"

text \<open>\<open>RecordBatch::try_new\<close>: the columns are of the schema's types, one length, and hold no null
  where the schema has none.\<close>

definition try_new_batch :: "schema \<Rightarrow> (data_type \<times> cell list) list \<Rightarrow> batch res" where
  "try_new_batch s cs =
     (if length cs \<noteq> length s \<or> map fst cs \<noteq> map field_type s
         \<or> (\<exists>c \<in> set cs. length (snd c) \<noteq> (case cs of [] \<Rightarrow> 0 | c # _ \<Rightarrow> length (snd c)))
         \<or> (\<exists>p \<in> set (zip s cs). \<not> nullable (fst p) \<and> CNull \<in> set (snd (snd p)))
      then Inl (DataFusion (DfOther ''ArrowError''))
      else Inr \<lparr>batch_schema = s, columns = map snd cs,
             num_rows = (case cs of [] \<Rightarrow> 0 | c # _ \<Rightarrow> length (snd c))\<rparr>)"

definition breaking_columns ::
  "schema \<Rightarrow> bool list \<Rightarrow> batch \<Rightarrow> (data_type \<times> cell list) list res" where
  "breaking_columns rs failing b =
     map_res (\<lambda>f. case column_by_name b (field_name f) of
          None \<Rightarrow> Inl (Invalid (''the written rows have no column `'' @ field_name f @ ''`''))
        | Some (ty, cs) \<Rightarrow> Inr (ty, mask_filter failing cs)) rs"

text \<open>One turn of the loop over batches.\<close>

definition split_batch ::
  "flag list \<Rightarrow> schema \<Rightarrow> batch \<Rightarrow> split_result \<times> batch list \<Rightarrow> (split_result \<times> batch list) res" where
  "split_batch fs rs b st =
     (let (out, broken_rows) = st in
      and_then (map_res (flag_mask b) fs) (\<lambda>passes.
        let cnt = fold count_failed (zip fs passes) (counts out);
            all = all_pass (num_rows b) passes;
            kept = filter_batch all b;
            out' = out\<lparr>counts := cnt, passing_rows := passing_rows out + num_rows kept,
                       passing := passing out @ [kept]\<rparr>
        in if count_list all True = num_rows b then Inr (out', broken_rows)
           else let failing = map Not all in
             and_then (breaking_columns rs failing b) (\<lambda>cols.
               let reasons = map (row_reasons fs passes) (filter (\<lambda>row. failing ! row) [0..<num_rows b])
               in and_then (try_new_batch (breaking_schema rs) (cols @ [(TList TUtf8, reasons)]))
                    (\<lambda>nb. Inr (out', broken_rows @ [nb])))))"

fun split_batches ::
  "flag list \<Rightarrow> schema \<Rightarrow> batch list \<Rightarrow> split_result \<times> batch list \<Rightarrow> (split_result \<times> batch list) res" where
  "split_batches fs rs [] st = Inr st"
| "split_batches fs rs (b # bs) st = and_then (split_batch fs rs b st) (split_batches fs rs bs)"

text \<open>\<open>concat_batches\<close> of batches of one schema.\<close>

definition concat_batches :: "schema \<Rightarrow> batch list \<Rightarrow> batch" where
  "concat_batches s bs =
     \<lparr>batch_schema = s,
      columns = map (\<lambda>i. concat (map (\<lambda>b. columns b ! i) bs)) [0..<length s],
      num_rows = sum_list (map num_rows bs)\<rparr>"

definition split_rows :: "batch list \<Rightarrow> flag list \<Rightarrow> schema \<Rightarrow> split_result res" where
  "split_rows bs fs rs =
     (if field_with_name rs violations_column \<noteq> None
      then Inl (Invalid (''the contract has a column `'' @ violations_column @
             ''`, which names the rules a set-aside row broke''))
      else and_then (split_batches fs rs bs
             (\<lparr>passing = [], passing_rows = 0, breaking = None, counts = []\<rparr>, []))
        (\<lambda>(out, broken_rows).
           Inr (if broken_rows = [] then out
                else out\<lparr>breaking := Some (concat_batches (breaking_schema rs) broken_rows)\<rparr>)))"

section \<open>What a split does\<close>

text \<open>Whether a row of a batch passes every rule: each rule's flag column holds true there.\<close>

definition flag_true :: "batch \<Rightarrow> nat \<Rightarrow> flag \<Rightarrow> bool" where
  "flag_true b row f =
     (case column_by_name b (flag_column f) of Some (_, cs) \<Rightarrow> cs ! row = CBool True | None \<Rightarrow> False)"

definition row_passes :: "flag list \<Rightarrow> batch \<Rightarrow> nat \<Rightarrow> bool" where
  "row_passes fs b row = list_all (flag_true b row) fs"

definition failing_rows :: "batch \<Rightarrow> flag \<Rightarrow> nat" where
  "failing_rows b f = length (filter (\<lambda>row. \<not> flag_true b row f) [0..<num_rows b])"

lemma flag_mask_Inr:
  assumes "batch_ok b" and "flag_mask b f = Inr m"
  shows "m = map (\<lambda>row. flag_true b row f) [0..<num_rows b]"
proof -
  from assms(2) obtain cs where cs: "column_by_name b (flag_column f) = Some (TBoolean, cs)"
    and m: "m = map (\<lambda>c. c = CBool True) cs"
    by (auto simp: flag_mask_def split: option.splits if_splits)
  from column_by_name_length [OF assms(1) cs] have "length cs = num_rows b" .
  then show ?thesis by (auto simp: m flag_true_def cs intro: nth_equalityI)
qed

lemma flag_masks_Inr:
  "batch_ok b \<Longrightarrow> map_res (flag_mask b) fs = Inr passes \<Longrightarrow>
     passes = map (\<lambda>f. map (\<lambda>row. flag_true b row f) [0..<num_rows b]) fs"
  by (induction fs arbitrary: passes) (auto simp: and_then_eq_Inr dest: flag_mask_Inr)

lemma foldl_map2_and:
  "length acc = n \<Longrightarrow> \<forall>p \<in> set ps. length p = n \<Longrightarrow>
     foldl (map2 (\<and>)) acc ps = map (\<lambda>i. acc ! i \<and> (\<forall>p \<in> set ps. p ! i)) [0..<n]"
proof (induction ps arbitrary: acc)
  case Nil
  then show ?case using map_nth [of acc] by simp
next
  case (Cons p ps)
  then show ?case by (auto intro: nth_equalityI)
qed

lemma all_pass_rows:
  "all_pass (num_rows b) (map (\<lambda>f. map (\<lambda>row. flag_true b row f) [0..<num_rows b]) fs)
     = map (row_passes fs b) [0..<num_rows b]"
  by (auto simp: all_pass_def foldl_map2_and row_passes_def list_all_iff)

lemma count_list_map_upt: "count_list (map P [0..<n]) True = length (filter P [0..<n])"
  by (induction n) auto

lemma filter_nth_upt: "length m = n \<Longrightarrow> length (filter (\<lambda>i. m ! i) [0..<n]) = count_list m True"
proof -
  assume "length m = n"
  then have "m = map (\<lambda>i. m ! i) [0..<n]" by (metis map_nth)
  then show ?thesis by (metis count_list_map_upt)
qed

lemma length_filter_eq_iff: "length (filter P xs) = length xs \<longleftrightarrow> (\<forall>x \<in> set xs. P x)"
proof (induction xs)
  case Nil
  then show ?case by simp
next
  case (Cons x xs)
  have "length (filter P xs) \<noteq> Suc (length xs)"
    by (metis Suc_n_not_le_n length_filter_le)
  with Cons show ?case by auto
qed

lemma num_rows_filter_batch [simp]: "num_rows (filter_batch m b) = count_list m True"
  by (simp add: filter_batch_def)

lemma try_new_batch_rows:
  assumes "try_new_batch s cs = Inr nb" and "c \<in> set cs"
  shows "length (snd c) = num_rows nb"
  using assms by (auto simp: try_new_batch_def split: if_splits)

lemma try_new_batch_last: "try_new_batch s (cols @ [(t, xs)]) = Inr nb \<Longrightarrow> num_rows nb = length xs"
  using try_new_batch_rows [of s "cols @ [(t, xs)]" nb "(t, xs)"] by simp

lemma bt_get_or_count_failed:
  "bt_get_or 0 (count_failed p cnt) r =
     bt_get_or 0 cnt r
       + (if r = assert_id (fst p) then length (snd p) - count_list (snd p) True else 0)"
  by (auto simp: count_failed_def Let_def)

lemma bt_get_or_fold_count:
  "bt_get_or 0 (fold count_failed ps cnt) r =
     bt_get_or 0 cnt r
       + (\<Sum>p\<leftarrow>ps. if r = assert_id (fst p) then length (snd p) - count_list (snd p) True else 0)"
  by (induction ps arbitrary: cnt) (simp_all add: bt_get_or_count_failed)

definition broken_by :: "flag list \<Rightarrow> string \<Rightarrow> batch \<Rightarrow> nat" where
  "broken_by fs r b = (\<Sum>f\<leftarrow>fs. if r = assert_id f then failing_rows b f else 0)"

lemma failing_rows_mask:
  "length (map (\<lambda>row. flag_true b row f) [0..<num_rows b])
     - count_list (map (\<lambda>row. flag_true b row f) [0..<num_rows b]) True = failing_rows b f"
  using filter_partition_length [of "\<lambda>row. flag_true b row f" "[0..<num_rows b]"]
  by (simp add: count_list_map_upt failing_rows_def)

text \<open>One batch: the passing rows are kept, the counts grow by the failing rows of each rule, and
  the rows not kept make at most one batch of breaking rows.\<close>

lemma split_batch_cases:
  assumes ok: "batch_ok b" and run: "split_batch fs rs b (out, br) = Inr (out', br')"
  defines "rows \<equiv> [0..<num_rows b]"
  defines "passes \<equiv> map (\<lambda>f. map (\<lambda>row. flag_true b row f) rows) fs"
  defines "failing \<equiv> map Not (map (row_passes fs b) rows)"
  shows "out' = out\<lparr>counts := fold count_failed (zip fs passes) (counts out),
        passing_rows := passing_rows out + length (filter (row_passes fs b) rows),
        passing := passing out @ [filter_batch (map (row_passes fs b) rows) b]\<rparr>"
    and "length (filter (row_passes fs b) rows) = num_rows b \<and> br' = br
     \<or> (length (filter (row_passes fs b) rows) \<noteq> num_rows b
        \<and> (\<exists>cols nb. br' = br @ [nb] \<and> breaking_columns rs failing b = Inr cols
             \<and> try_new_batch (breaking_schema rs) (cols @ [(TList TUtf8,
                  map (row_reasons fs passes) (filter (\<lambda>row. failing ! row) rows))]) = Inr nb))"
proof -
  from run obtain ps where "map_res (flag_mask b) fs = Inr ps"
    by (auto simp: split_batch_def and_then_eq_Inr)
  with flag_masks_Inr [OF ok] have ps: "map_res (flag_mask b) fs = Inr passes"
    by (simp add: passes_def rows_def)
  have all: "all_pass (num_rows b) passes = map (row_passes fs b) rows"
    using all_pass_rows [of b fs] by (simp add: passes_def rows_def)
  have kept: "count_list (map (row_passes fs b) rows) True = length (filter (row_passes fs b) rows)"
    by (simp add: rows_def count_list_map_upt)
  note unfolded = run [unfolded split_batch_def prod.case ps and_then_Inr Let_def all
      num_rows_filter_batch kept, folded failing_def]
  show "out' = out\<lparr>counts := fold count_failed (zip fs passes) (counts out),
        passing_rows := passing_rows out + length (filter (row_passes fs b) rows),
        passing := passing out @ [filter_batch (map (row_passes fs b) rows) b]\<rparr>"
    using unfolded by (simp add: and_then_eq_Inr rows_def [symmetric] split: if_splits) auto
  show "length (filter (row_passes fs b) rows) = num_rows b \<and> br' = br
     \<or> (length (filter (row_passes fs b) rows) \<noteq> num_rows b
        \<and> (\<exists>cols nb. br' = br @ [nb] \<and> breaking_columns rs failing b = Inr cols
             \<and> try_new_batch (breaking_schema rs) (cols @ [(TList TUtf8,
                  map (row_reasons fs passes) (filter (\<lambda>row. failing ! row) rows))]) = Inr nb))"
    using unfolded
    by (cases "length (filter (row_passes fs b) rows) = num_rows b")
       (auto simp: and_then_eq_Inr rows_def)
qed

lemma failing_row_count:
  "length (filter (\<lambda>row. map Not (map P [0..<n]) ! row) [0..<n]) = n - length (filter P [0..<n])"
proof -
  have "length (filter (\<lambda>row. map Not (map P [0..<n]) ! row) [0..<n])
      = count_list (map Not (map P [0..<n])) True"
    by (rule filter_nth_upt) simp
  also have "\<dots> = n - count_list (map P [0..<n]) True"
    using count_list_bool [of "map P [0..<n]"] by (simp only: count_list_Not) simp
  finally show ?thesis by (simp add: count_list_map_upt)
qed

lemma sum_broken_by:
  "(\<Sum>p\<leftarrow>zip fs (map (\<lambda>f. map (\<lambda>row. flag_true b row f) [0..<num_rows b]) fs).
      if r = assert_id (fst p) then length (snd p) - count_list (snd p) True else 0)
   = broken_by fs r b"
  by (induction fs) (use failing_rows_mask [of b] in \<open>auto simp: broken_by_def\<close>)

text \<open>One batch: the passing rows are kept, the counts grow by the failing rows of each rule, and
  the rows not kept make at most one batch of breaking rows.\<close>

lemma split_batch_Inr:
  assumes ok: "batch_ok b" and run: "split_batch fs rs b (out, br) = Inr (out', br')"
  shows "passing out' = passing out @ [filter_batch (map (row_passes fs b) [0..<num_rows b]) b]"
    and "passing_rows out' = passing_rows out + length (filter (row_passes fs b) [0..<num_rows b])"
    and "bt_get_or 0 (counts out') r = bt_get_or 0 (counts out) r + broken_by fs r b"
    and "breaking out' = breaking out"
    and "passing_rows out' + sum_list (map num_rows br')
           = passing_rows out + sum_list (map num_rows br) + num_rows b"
    and "br' = br \<longleftrightarrow> (\<forall>row < num_rows b. row_passes fs b row)"
proof -
  note out' = split_batch_cases(1) [OF ok run] and br' = split_batch_cases(2) [OF ok run]
  show "passing out' = passing out @ [filter_batch (map (row_passes fs b) [0..<num_rows b]) b]"
    and pr: "passing_rows out' = passing_rows out + length (filter (row_passes fs b) [0..<num_rows b])"
    and "breaking out' = breaking out"
    by (simp_all add: out')
  show "bt_get_or 0 (counts out') r = bt_get_or 0 (counts out) r + broken_by fs r b"
    by (simp add: out' bt_get_or_fold_count sum_broken_by)
  have le: "length (filter (row_passes fs b) [0..<num_rows b]) \<le> num_rows b"
    using length_filter_le [of "row_passes fs b" "[0..<num_rows b]"] by simp
  have full: "length (filter (row_passes fs b) [0..<num_rows b]) = num_rows b
      \<longleftrightarrow> (\<forall>row < num_rows b. row_passes fs b row)"
    using length_filter_eq_iff [of "row_passes fs b" "[0..<num_rows b]"] by auto
  show "passing_rows out' + sum_list (map num_rows br')
           = passing_rows out + sum_list (map num_rows br) + num_rows b"
    using br'
  proof (elim disjE conjE exE)
    fix cols nb
    assume nb: "br' = br @ [nb]" and "try_new_batch (breaking_schema rs) (cols @ [(TList TUtf8,
         map (row_reasons fs (map (\<lambda>f. map (\<lambda>row. flag_true b row f) [0..<num_rows b]) fs))
           (filter (\<lambda>row. map Not (map (row_passes fs b) [0..<num_rows b]) ! row) [0..<num_rows b]))])
         = Inr nb"
    from try_new_batch_last [OF this(2)]
    have "num_rows nb = num_rows b - length (filter (row_passes fs b) [0..<num_rows b])"
      by (simp add: failing_row_count del: map_map)
    with nb pr le show ?thesis by simp
  qed (use pr in simp)
  show "br' = br \<longleftrightarrow> (\<forall>row < num_rows b. row_passes fs b row)"
    using br' full by auto
qed

text \<open>The reasons column: every row set aside carries the rules it fails, and at least one.\<close>

definition reasons_of :: "flag list \<Rightarrow> batch \<Rightarrow> nat \<Rightarrow> cell" where
  "reasons_of fs b row =
     CList (map (\<lambda>f. CStr (assert_id f)) (filter (\<lambda>f. \<not> flag_true b row f) fs))"

definition set_aside :: "flag list \<Rightarrow> batch \<Rightarrow> nat list" where
  "set_aside fs b = filter (\<lambda>row. \<not> row_passes fs b row) [0..<num_rows b]"

lemma row_reasons_eq:
  "row < n \<Longrightarrow> row_reasons fs (map (\<lambda>f. map (\<lambda>row. flag_true b row f) [0..<n]) fs) row
     = reasons_of fs b row"
  by (induction fs) (auto simp: row_reasons_def reasons_of_def)

lemma reasons_of_nonempty: "\<not> row_passes fs b row \<longleftrightarrow> reasons_of fs b row \<noteq> CList []"
  by (auto simp: row_passes_def reasons_of_def list_all_iff filter_empty_conv)

lemma failing_filter_eq: "filter (\<lambda>row. map Not (map P [0..<n]) ! row) [0..<n] = filter (\<lambda>row. \<not> P row) [0..<n]"
  by (rule filter_cong) auto

lemma split_batch_reasons:
  assumes ok: "batch_ok b" and run: "split_batch fs rs b (out, br) = Inr (out', br')"
  shows "concat (map (\<lambda>nb. columns nb ! length rs) br')
    = concat (map (\<lambda>nb. columns nb ! length rs) br) @ map (reasons_of fs b) (set_aside fs b)"
  using split_batch_cases(2) [OF ok run]
proof (elim disjE conjE exE)
  assume "length (filter (row_passes fs b) [0..<num_rows b]) = num_rows b" and "br' = br"
  then have "set_aside fs b = []"
    using length_filter_eq_iff [of "row_passes fs b" "[0..<num_rows b]"]
    by (auto simp: set_aside_def filter_empty_conv)
  with \<open>br' = br\<close> show ?thesis by simp
next
  fix cols nb
  assume br': "br' = br @ [nb]" and cols: "breaking_columns rs (map Not (map (row_passes fs b) [0..<num_rows b])) b = Inr cols"
    and nb: "try_new_batch (breaking_schema rs) (cols @ [(TList TUtf8,
         map (row_reasons fs (map (\<lambda>f. map (\<lambda>row. flag_true b row f) [0..<num_rows b]) fs))
           (filter (\<lambda>row. map Not (map (row_passes fs b) [0..<num_rows b]) ! row) [0..<num_rows b]))])
         = Inr nb"
  from cols have "length cols = length rs"
    unfolding breaking_columns_def by (rule map_res_length)
  with nb have "columns nb ! length rs
      = map (row_reasons fs (map (\<lambda>f. map (\<lambda>row. flag_true b row f) [0..<num_rows b]) fs)) (set_aside fs b)"
    unfolding failing_filter_eq set_aside_def
    by (auto simp: try_new_batch_def nth_append split: if_splits)
  also have "\<dots> = map (reasons_of fs b) (set_aside fs b)"
    by (auto simp: set_aside_def row_reasons_eq)
  finally show ?thesis by (simp add: br')
qed

text \<open>The loop over batches, and what all its turns together have done.\<close>

definition passing_of :: "flag list \<Rightarrow> batch \<Rightarrow> batch" where
  "passing_of fs b = filter_batch (map (row_passes fs b) [0..<num_rows b]) b"

definition passing_count :: "flag list \<Rightarrow> batch \<Rightarrow> nat" where
  "passing_count fs b = length (filter (row_passes fs b) [0..<num_rows b])"

definition split_done ::
  "flag list \<Rightarrow> schema \<Rightarrow> batch list \<Rightarrow> split_result \<times> batch list \<Rightarrow> split_result \<times> batch list \<Rightarrow> bool" where
  "split_done fs rs bs st st' \<longleftrightarrow>
     passing (fst st') = passing (fst st) @ map (passing_of fs) bs
   \<and> passing_rows (fst st') = passing_rows (fst st) + sum_list (map (passing_count fs) bs)
   \<and> (\<forall>r. bt_get_or 0 (counts (fst st')) r
          = bt_get_or 0 (counts (fst st)) r + sum_list (map (broken_by fs r) bs))
   \<and> breaking (fst st') = breaking (fst st)
   \<and> (\<exists>ext. snd st' = snd st @ ext
        \<and> sum_list (map (passing_count fs) bs) + sum_list (map num_rows ext) = sum_list (map num_rows bs)
        \<and> concat (map (\<lambda>nb. columns nb ! length rs) ext)
            = concat (map (\<lambda>b. map (reasons_of fs b) (set_aside fs b)) bs)
        \<and> (ext = [] \<longleftrightarrow> (\<forall>b \<in> set bs. \<forall>row < num_rows b. row_passes fs b row)))"

lemma split_batch_done:
  assumes "batch_ok b" and "split_batch fs rs b st = Inr st'"
  shows "split_done fs rs [b] st st'"
proof -
  obtain out br out' br' where st: "st = (out, br)" "st' = (out', br')" by (cases st; cases st')
  note run = assms(2) [unfolded st]
  obtain ext where "br' = br @ ext" using split_batch_cases(2) [OF assms(1) run] by auto
  then show ?thesis
    using split_batch_Inr [OF assms(1) run] split_batch_reasons [OF assms(1) run]
    by (simp add: split_done_def st passing_of_def passing_count_def)
qed

lemma split_done_refl: "split_done fs rs [] st st"
  by (simp add: split_done_def)

lemma split_done_trans:
  assumes "split_done fs rs bs st st'" and "split_done fs rs cs st' st''"
  shows "split_done fs rs (bs @ cs) st st''"
proof -
  from assms obtain e1 e2 where e: "snd st' = snd st @ e1" "snd st'' = snd st' @ e2"
    "sum_list (map (passing_count fs) bs) + sum_list (map num_rows e1) = sum_list (map num_rows bs)"
    "sum_list (map (passing_count fs) cs) + sum_list (map num_rows e2) = sum_list (map num_rows cs)"
    "concat (map (\<lambda>nb. columns nb ! length rs) e1)
       = concat (map (\<lambda>b. map (reasons_of fs b) (set_aside fs b)) bs)"
    "concat (map (\<lambda>nb. columns nb ! length rs) e2)
       = concat (map (\<lambda>b. map (reasons_of fs b) (set_aside fs b)) cs)"
    "e1 = [] \<longleftrightarrow> (\<forall>b \<in> set bs. \<forall>row < num_rows b. row_passes fs b row)"
    "e2 = [] \<longleftrightarrow> (\<forall>b \<in> set cs. \<forall>row < num_rows b. row_passes fs b row)"
    unfolding split_done_def by blast
  have "\<exists>ext. snd st'' = snd st @ ext
        \<and> sum_list (map (passing_count fs) (bs @ cs)) + sum_list (map num_rows ext)
            = sum_list (map num_rows (bs @ cs))
        \<and> concat (map (\<lambda>nb. columns nb ! length rs) ext)
            = concat (map (\<lambda>b. map (reasons_of fs b) (set_aside fs b)) (bs @ cs))
        \<and> (ext = [] \<longleftrightarrow> (\<forall>b \<in> set (bs @ cs). \<forall>row < num_rows b. row_passes fs b row))"
    by (rule exI [of _ "e1 @ e2"]) (use e in auto)
  moreover have "\<forall>r. bt_get_or 0 (counts (fst st'')) r
      = bt_get_or 0 (counts (fst st)) r + sum_list (map (broken_by fs r) (bs @ cs))"
    using assms by (simp add: split_done_def)
  ultimately show ?thesis
    using assms unfolding split_done_def by simp
qed

lemma split_batches_done:
  "\<forall>b \<in> set bs. batch_ok b \<Longrightarrow> split_batches fs rs bs st = Inr st' \<Longrightarrow> split_done fs rs bs st st'"
proof (induction bs arbitrary: st)
  case Nil
  then show ?case by (simp add: split_done_refl)
next
  case (Cons b bs)
  then obtain st1 where "split_batch fs rs b st = Inr st1" and "split_batches fs rs bs st1 = Inr st'"
    by (auto simp: and_then_eq_Inr)
  with Cons have "split_done fs rs [b] st st1" and "split_done fs rs bs st1 st'"
    by (auto intro: split_batch_done)
  from split_done_trans [OF this] show ?case by simp
qed

lemma split_rows_Inr:
  assumes "\<forall>b \<in> set bs. batch_ok b" and "split_rows bs fs rs = Inr out"
  obtains out1 br where
    "split_done fs rs bs (\<lparr>passing = [], passing_rows = 0, breaking = None, counts = []\<rparr>, []) (out1, br)"
    and "out = (if br = [] then out1
                else out1\<lparr>breaking := Some (concat_batches (breaking_schema rs) br)\<rparr>)"
proof -
  from assms(2) obtain st where
    run: "split_batches fs rs bs (\<lparr>passing = [], passing_rows = 0, breaking = None, counts = []\<rparr>, []) = Inr st"
    and out: "out = (if snd st = [] then fst st
      else (fst st)\<lparr>breaking := Some (concat_batches (breaking_schema rs) (snd st))\<rparr>)"
    by (auto simp: split_rows_def and_then_eq_Inr split: if_splits prod.splits)
  show thesis
    by (rule that [of "fst st" "snd st"])
      (use split_batches_done [OF assms(1) run] out in simp_all)
qed

section \<open>Properties\<close>

text \<open>
  A split loses no row and invents none: it keeps of every batch exactly the rows whose flag
  is true for every rule (a null flag does not pass), with all their columns and in their order;
  the rows kept and the rows set aside are together the rows it was given; and nothing is set
  aside exactly when every row passes.
\<close>

theorem split_rows_partitions:
  assumes "\<forall>b \<in> set bs. batch_ok b" and "split_rows bs fs rs = Inr out"
  shows "passing out = map (passing_of fs) bs
    \<and> passing_rows out = sum_list (map num_rows (passing out))
    \<and> passing_rows out + (case breaking out of None \<Rightarrow> 0 | Some nb \<Rightarrow> num_rows nb)
        = sum_list (map num_rows bs)
    \<and> (breaking out = None \<longleftrightarrow> (\<forall>b \<in> set bs. \<forall>row < num_rows b. row_passes fs b row))"
proof -
  obtain o1 br where dn:
    "split_done fs rs bs (\<lparr>passing = [], passing_rows = 0, breaking = None, counts = []\<rparr>, []) (o1, br)"
    and out: "out = (if br = [] then o1 else o1\<lparr>breaking := Some (concat_batches (breaking_schema rs) br)\<rparr>)"
    using split_rows_Inr [OF assms] .
  have "sum_list (map (passing_count fs) bs) = sum_list (map num_rows (map (passing_of fs) bs))"
    by (simp add: passing_of_def passing_count_def [abs_def] count_list_map_upt comp_def)
  with dn show ?thesis
    by (auto simp: split_done_def out concat_batches_def)
qed

text \<open>
  A split counts, for each rule, the rows that break it: a row that breaks two rules is counted
  under both.
\<close>

theorem split_rows_counts:
  assumes "\<forall>b \<in> set bs. batch_ok b" and "split_rows bs fs rs = Inr out"
  shows "bt_get_or 0 (counts out) r = sum_list (map (broken_by fs r) bs)"
proof -
  obtain o1 br where dn:
    "split_done fs rs bs (\<lparr>passing = [], passing_rows = 0, breaking = None, counts = []\<rparr>, []) (o1, br)"
    and out: "out = (if br = [] then o1 else o1\<lparr>breaking := Some (concat_batches (breaking_schema rs) br)\<rparr>)"
    using split_rows_Inr [OF assms] .
  then show ?thesis by (simp add: split_done_def)
qed

text \<open>
  Every row set aside carries, in the column after the row schema's, exactly the rules it
  fails, in the contract's order, and it fails at least one.
\<close>

theorem split_rows_reasons:
  assumes "\<forall>b \<in> set bs. batch_ok b" and "split_rows bs fs rs = Inr out" and "breaking out = Some nb"
  shows "columns nb ! length rs = concat (map (\<lambda>b. map (reasons_of fs b) (set_aside fs b)) bs)
    \<and> CList [] \<notin> set (columns nb ! length rs)"
proof -
  obtain o1 br where dn:
    "split_done fs rs bs (\<lparr>passing = [], passing_rows = 0, breaking = None, counts = []\<rparr>, []) (o1, br)"
    and out: "out = (if br = [] then o1 else o1\<lparr>breaking := Some (concat_batches (breaking_schema rs) br)\<rparr>)"
    using split_rows_Inr [OF assms(1,2)] .
  from dn have "breaking o1 = None" by (simp add: split_done_def)
  with assms(3) out have nb: "nb = concat_batches (breaking_schema rs) br" by (auto split: if_splits)
  have "columns nb ! length rs = concat (map (\<lambda>b. columns b ! length rs) br)"
    by (simp add: nb concat_batches_def breaking_schema_def nth_append)
  also have "\<dots> = concat (map (\<lambda>b. map (reasons_of fs b) (set_aside fs b)) bs)"
    using dn by (simp add: split_done_def)
  finally have eq: "columns nb ! length rs = concat (map (\<lambda>b. map (reasons_of fs b) (set_aside fs b)) bs)" .
  moreover have "CList [] \<notin> set (concat (map (\<lambda>b. map (reasons_of fs b) (set_aside fs b)) bs))"
    using reasons_of_nonempty [of fs] by (auto simp: set_aside_def)
  ultimately show ?thesis by simp
qed

section \<open>A concrete write\<close>

text \<open>Three rows under two rules: the second breaks both, the third one (with a null flag).\<close>

definition ex_flags :: "flag list" where
  "ex_flags = [\<lparr>assert_id = ''a'', flag_column = ''fa'', flag_expr = Column ''x'', flag_on_fail = AssertDrop\<rparr>,
               \<lparr>assert_id = ''b'', flag_column = ''fb'', flag_expr = Column ''x'', flag_on_fail = AssertDeny\<rparr>]"

definition ex_row_schema :: schema where
  "ex_row_schema = [\<lparr>field_name = ''x'', field_type = TInt64, nullable = True\<rparr>]"

definition ex_batch :: batch where
  "ex_batch = \<lparr>batch_schema = [\<lparr>field_name = ''x'', field_type = TInt64, nullable = True\<rparr>,
       \<lparr>field_name = ''fa'', field_type = TBoolean, nullable = True\<rparr>,
       \<lparr>field_name = ''fb'', field_type = TBoolean, nullable = True\<rparr>],
     columns = [[CInt 1, CInt 2, CInt 3], [CBool True, CBool False, CBool True],
                [CBool True, CBool False, CNull]],
     num_rows = 3\<rparr>"

definition ex_split :: split_result where
  "ex_split = \<lparr>passing = [ex_batch\<lparr>columns := [[CInt 1], [CBool True], [CBool True]], num_rows := 1\<rparr>],
     passing_rows = 1,
     breaking = Some \<lparr>batch_schema = breaking_schema ex_row_schema,
       columns = [[CInt 2, CInt 3], [CList [CStr ''a'', CStr ''b''], CList [CStr ''b'']]], num_rows = 2\<rparr>,
     counts = [(''a'', 1), (''b'', 2)]\<rparr>"

lemma ex_batch_ok: "\<forall>b \<in> set [ex_batch]. batch_ok b"
  by (simp add: ex_batch_def batch_ok_def)

lemma ex_split_run: "split_rows [ex_batch] ex_flags ex_row_schema = Inr ex_split"
  by code_simp

theorem split_rows_partitions_witness:
  "passing ex_split = map (passing_of ex_flags) [ex_batch]
    \<and> passing_rows ex_split = sum_list (map num_rows (passing ex_split))
    \<and> passing_rows ex_split + (case breaking ex_split of None \<Rightarrow> 0 | Some nb \<Rightarrow> num_rows nb)
        = sum_list (map num_rows [ex_batch])
    \<and> (breaking ex_split = None
         \<longleftrightarrow> (\<forall>b \<in> set [ex_batch]. \<forall>row < num_rows b. row_passes ex_flags b row))"
  by (rule split_rows_partitions [OF ex_batch_ok ex_split_run])

theorem split_rows_counts_witness:
  "bt_get_or 0 (counts ex_split) ''b'' = 2 \<and> sum_list (map (broken_by ex_flags ''b'') [ex_batch]) = 2"
  using split_rows_counts [OF ex_batch_ok ex_split_run, of "''b''"]
  by (simp add: ex_split_def bt_get_or_def)

theorem split_rows_reasons_witness:
  "concat (map (\<lambda>b. map (reasons_of ex_flags b) (set_aside ex_flags b)) [ex_batch])
     = [CList [CStr ''a'', CStr ''b''], CList [CStr ''b'']]"
  using split_rows_reasons [OF ex_batch_ok ex_split_run]
  by (simp add: ex_split_def ex_row_schema_def)

section \<open>A split always succeeds on the rows the write plan gives it\<close>

text \<open>
  The rows a write plan yields: every rule has its boolean flag column, and every column of the row
  schema is there with its type, with nulls only where the schema has them.
\<close>

definition splittable :: "flag list \<Rightarrow> schema \<Rightarrow> batch \<Rightarrow> bool" where
  "splittable fs rs b \<longleftrightarrow> batch_ok b
     \<and> list_all (\<lambda>f. case column_by_name b (flag_column f) of Some (t, cs) \<Rightarrow> t = TBoolean | None \<Rightarrow> False) fs
     \<and> list_all (\<lambda>f. case column_by_name b (field_name f) of
           Some (t, cs) \<Rightarrow> t = field_type f \<and> (nullable f \<or> CNull \<notin> set cs) | None \<Rightarrow> False) rs"

lemma map_res_total: "(\<And>x. x \<in> set xs \<Longrightarrow> \<exists>y. f x = Inr y) \<Longrightarrow> \<exists>ys. map_res f xs = Inr ys"
proof (induction xs)
  case (Cons x xs)
  then obtain y ys where "f x = Inr y" "map_res f xs = Inr ys" by force
  then show ?case by simp
qed simp

lemma set_mask_filter: "set (mask_filter m xs) \<subseteq> set xs"
  by (auto simp: mask_filter_def dest: set_zip_rightD)

lemma try_new_batch_total:
  assumes "map fst cs = map field_type s" and "\<forall>c \<in> set cs. length (snd c) = n"
    and "\<forall>p \<in> set (zip s cs). nullable (fst p) \<or> CNull \<notin> set (snd (snd p))"
  shows "\<exists>nb. try_new_batch s cs = Inr nb"
proof -
  have "length cs = length s" using assms(1) by (metis length_map)
  with assms show ?thesis by (cases cs) (auto simp: try_new_batch_def)
qed

lemma flag_masks_total: "splittable fs rs b \<Longrightarrow> \<exists>passes. map_res (flag_mask b) fs = Inr passes"
proof (rule map_res_total)
  fix f assume "splittable fs rs b" and "f \<in> set fs"
  then obtain cs where "column_by_name b (flag_column f) = Some (TBoolean, cs)"
    by (fastforce simp: splittable_def list_all_iff split: option.splits prod.splits)
  then show "\<exists>m. flag_mask b f = Inr m" by (simp add: flag_mask_def)
qed

lemma breaking_columns_total:
  assumes "splittable fs rs b" and "length failing = num_rows b"
  shows "\<exists>cols. breaking_columns rs failing b = Inr cols \<and> map fst cols = map field_type rs
    \<and> (\<forall>c \<in> set cols. length (snd c) = count_list failing True)
    \<and> (\<forall>p \<in> set (zip rs cols). nullable (fst p) \<or> CNull \<notin> set (snd (snd p)))"
proof -
  have "batch_ok b" using assms(1) by (simp add: splittable_def)
  define g where "g (f::field) = (case column_by_name b (field_name f) of
      Some (t, cs) \<Rightarrow> (t, mask_filter failing cs) | None \<Rightarrow> (TBoolean, []))" for f
  have col: "\<exists>cs. column_by_name b (field_name f) = Some (field_type f, cs)
      \<and> (nullable f \<or> CNull \<notin> set cs) \<and> length cs = num_rows b" if "f \<in> set rs" for f
    using assms(1) that column_by_name_length [OF \<open>batch_ok b\<close>]
    by (fastforce simp: splittable_def list_all_iff split: option.splits prod.splits)
  have g: "fst (g f) = field_type f" "length (snd (g f)) = count_list failing True"
    "nullable f \<or> CNull \<notin> set (snd (g f))" if "f \<in> set rs" for f
    using col [OF that] assms(2)
    by (auto simp: g_def length_mask_filter dest: set_mask_filter [THEN subsetD])
  have "breaking_columns rs failing b = map_res (\<lambda>f. Inr (g f)) rs"
    unfolding breaking_columns_def using col by (intro map_res_cong refl) (force simp: g_def)
  then have "breaking_columns rs failing b = Inr (map g rs)" by simp
  moreover have "p \<in> set (zip rs (map g rs)) \<Longrightarrow> fst p \<in> set rs \<and> snd p = g (fst p)" for p
    by (cases p) (auto simp: set_zip)
  ultimately show ?thesis using g by fastforce
qed

lemma split_batch_total:
  assumes "splittable fs rs b"
  shows "\<exists>st'. split_batch fs rs b st = Inr st'"
proof -
  have ok: "batch_ok b" using assms by (simp add: splittable_def)
  obtain out br where st: "st = (out, br)" by (cases st)
  obtain passes where p: "map_res (flag_mask b) fs = Inr passes" using flag_masks_total [OF assms] by auto
  define failing where "failing = map Not (all_pass (num_rows b) passes)"
  have len: "length failing = num_rows b"
    using all_pass_rows flag_masks_Inr [OF ok p] by (simp add: failing_def)
  obtain cols where c: "breaking_columns rs failing b = Inr cols" "map fst cols = map field_type rs"
    "\<forall>c \<in> set cols. length (snd c) = count_list failing True"
    "\<forall>p \<in> set (zip rs cols). nullable (fst p) \<or> CNull \<notin> set (snd (snd p))"
    using breaking_columns_total [OF assms len] by blast
  let ?rs = "map (row_reasons fs passes) (filter (\<lambda>row. failing ! row) [0..<num_rows b])"
  have lencols: "length cols = length rs" using c(2) by (metis length_map)
  have "\<exists>nb. try_new_batch (breaking_schema rs) (cols @ [(TList TUtf8, ?rs)]) = Inr nb"
  proof (rule try_new_batch_total [where n = "count_list failing True"])
    show "\<forall>c \<in> set (cols @ [(TList TUtf8, ?rs)]). length (snd c) = count_list failing True"
      using c(3) len by (auto simp: filter_nth_upt)
  qed (use c lencols in \<open>auto simp: breaking_schema_def row_reasons_def\<close>)
  then show ?thesis
    using p c(1) by (auto simp: split_batch_def st Let_def failing_def)
qed

text \<open>
  On the rows a write plan yields, the split never fails: the write goes on with a result.
\<close>

theorem split_rows_total:
  assumes "\<forall>b \<in> set bs. splittable fs rs b" and "field_with_name rs violations_column = None"
  shows "\<exists>out. split_rows bs fs rs = Inr out"
proof -
  have "\<exists>st'. split_batches fs rs bs st = Inr st'" for st
    using assms(1)
  proof (induction bs arbitrary: st)
    case (Cons b bs)
    then obtain st1 where "split_batch fs rs b st = Inr st1" using split_batch_total [of fs rs b st] by auto
    with Cons show ?case by simp
  qed simp
  then obtain st' where "split_batches fs rs bs
      (\<lparr>passing = [], passing_rows = 0, breaking = None, counts = []\<rparr>, []) = Inr st'" by blast
  then show ?thesis using assms(2) by (simp add: split_rows_def split: prod.splits)
qed

theorem split_rows_total_witness: "\<exists>out. split_rows [ex_batch] ex_flags ex_row_schema = Inr out"
proof (rule split_rows_total)
  have "batch_ok ex_batch" using ex_batch_ok by simp
  moreover have "column_by_name ex_batch ''fa'' = Some (TBoolean, [CBool True, CBool False, CBool True])"
    "column_by_name ex_batch ''fb'' = Some (TBoolean, [CBool True, CBool False, CNull])"
    "column_by_name ex_batch ''x'' = Some (TInt64, [CInt 1, CInt 2, CInt 3])"
    by code_simp+
  ultimately have "splittable ex_flags ex_row_schema ex_batch"
    by (simp add: splittable_def ex_flags_def ex_row_schema_def)
  then show "\<forall>b \<in> set [ex_batch]. splittable ex_flags ex_row_schema b" by simp
qed (simp add: ex_row_schema_def field_with_name_def violations_column_def)

end
