(* ===== verification/Manifest.thy ===== *)
theory Manifest
  imports Parcel_Types Peql_Error "HOL-Library.Multiset"
begin

text \<open>
  The dataset manifest (\<open>src/manifest.rs\<close>): what one contract knows about the data bound to it, the
  format it is recorded in, and the file it is kept in. Statistics are JSON values of type \<open>'j\<close>;
  \<open>sha256_hex\<close> and the JSON codec are other people's code and parameters here.
\<close>

section \<open>The record\<close>

record guarantee_check =
  holds :: bool
  check_snapshot :: "int option"
  decided_at :: int

datatype flag_status = AllPass | AllFail | Mixed

record file_entry =
  f_path :: string
  f_rows :: int
  f_bytes :: nat
  f_contract_hash :: string
  f_flags :: "(string, flag_status) btmap"
  f_null_counts :: "(string, int) btmap"
  f_sha256 :: string

record 'j manifest =
  m_contract :: string
  m_contract_hash :: string
  m_compilation_hash :: string
  m_written_at :: int
  m_row_count :: int
  m_failures :: "(string, int) btmap"
  m_valid :: bool
  m_breached :: "string list"
  m_guarantees :: "(string, guarantee_check) btmap"
  m_stats :: "(string, 'j) btmap"
  m_data_hash :: string
  m_row_schema :: schema
  m_files :: "file_entry list"
  m_snapshot :: "int option"

record table_stats_rec =
  ts_row_count :: int
  ts_null_counts :: "(string, int) btmap"

text \<open>\<open>Manifest::table_stats\<close>: nulls per column, for the columns every file counts nulls of.\<close>

definition column_nulls :: "file_entry list \<Rightarrow> string \<Rightarrow> int option" where
  "column_nulls fs column = sum_opt (map (\<lambda>f. map_of (f_null_counts f) column) fs)"

definition table_stats :: "'j manifest \<Rightarrow> string list \<Rightarrow> table_stats_rec" where
  "table_stats m cols =
     \<lparr>ts_row_count = m_row_count m,
      ts_null_counts = fold (\<lambda>column acc. case column_nulls (m_files m) column of
           Some n \<Rightarrow> bt_insert column n acc | None \<Rightarrow> acc) cols []\<rparr>"

text \<open>\<open>flags_current\<close>: every file was written under this contract hash, and there is one.\<close>

definition flags_current :: "'j manifest \<Rightarrow> string \<Rightarrow> bool" where
  "flags_current m h \<longleftrightarrow> m_files m \<noteq> [] \<and> list_all (\<lambda>f. f_contract_hash f = h) (m_files m)"

text \<open>\<open>data_hash\<close>: over \<open>path:sha256\<close> lines in path order. Rust's \<open>sort_by\<close> is stable, as
  \<^const>\<open>sort_key\<close> is.\<close>

definition hash_lines :: "file_entry list \<Rightarrow> string" where
  "hash_lines fs = concat (map (\<lambda>f. f_path f @ '':'' @ f_sha256 f @ ''\<newline>'') (sort_key f_path fs))"

definition data_hash :: "(string \<Rightarrow> string) \<Rightarrow> file_entry list \<Rightarrow> string" where
  "data_hash sha256_hex fs = sha256_hex (hash_lines fs)"

section \<open>Recording\<close>

definition manifest_dir :: string where
  "manifest_dir = ''_peql/manifests''"

definition facts_format :: nat where
  "facts_format = 3"

text \<open>
  The JSON library: bytes to a value and back, whether a value is an object, its \<open>format\<close> key read
  as an unsigned number, and the derived decoder of the facts.
\<close>

record ('v, 'a) facts_codec =
  to_vec :: "nat \<Rightarrow> 'a \<Rightarrow> string + string"
  from_slice :: "string \<Rightarrow> string + 'v"
  is_object :: "'v \<Rightarrow> bool"
  format_u64 :: "'v \<Rightarrow> nat option"
  from_value :: "'v \<Rightarrow> string + 'a"

definition encode :: "('v, 'a) facts_codec \<Rightarrow> 'a \<Rightarrow> string + string" where
  "encode J facts = to_vec J facts_format facts"

definition decode :: "('v, 'a) facts_codec \<Rightarrow> string \<Rightarrow> string + 'a option" where
  "decode J bytes =
     and_then (from_slice J bytes) (\<lambda>v.
       if \<not> is_object J v then Inl ''not a JSON object''
       else if format_u64 J v \<noteq> Some facts_format then Inr None
       else and_then (from_value J v) (\<lambda>a. Inr (Some a)))"

text \<open>What the JSON library documents of the round trip of a value it serialised: the object it
  wrote is read back with the format and the facts it was given.\<close>

definition codec_laws :: "('v, 'a) facts_codec \<Rightarrow> bool" where
  "codec_laws J \<longleftrightarrow> (\<forall>n a bytes. to_vec J n a = Inr bytes \<longrightarrow>
     (\<exists>v. from_slice J bytes = Inr v \<and> is_object J v \<and> format_u64 J v = Some n
        \<and> from_value J v = Inr a))"

section \<open>The file\<close>

text \<open>A directory tree: the bytes of the files that exist, or the error reading one gives.\<close>

datatype file_state = Bytes string | Unreadable string

type_synonym fs = "string \<rightharpoonup> file_state"

definition manifest_path :: "string \<Rightarrow> string \<Rightarrow> string" where
  "manifest_path root c = root @ ''/'' @ manifest_dir @ ''/'' @ replace_slash c @ ''.json''"

definition load_manifest ::
  "('v, 'j manifest) facts_codec \<Rightarrow> fs \<Rightarrow> string \<Rightarrow> string \<Rightarrow> 'j manifest option res" where
  "load_manifest J d root c =
     (let p = manifest_path root c in
      case d p of
        None \<Rightarrow> Inr None
      | Some (Unreadable e) \<Rightarrow> Inl (Io e)
      | Some (Bytes b) \<Rightarrow>
          (case decode J b of Inl e \<Rightarrow> Inl (Io (p @ '': '' @ e)) | Inr m \<Rightarrow> Inr m))"

text \<open>\<open>save\<close>, whose whole-file write either leaves the file as it was (its error) or replaces it
  (\<open>src/atomic.rs\<close>); \<open>w\<close> is what the write answers.\<close>

definition save_manifest ::
  "('v, 'j manifest) facts_codec \<Rightarrow> string option \<Rightarrow> fs \<Rightarrow> string \<Rightarrow> 'j manifest \<Rightarrow> fs res" where
  "save_manifest J w d root m =
     (case encode J m of
        Inl e \<Rightarrow> Inl (Io e)
      | Inr b \<Rightarrow> (case w of Some e \<Rightarrow> Inl (Io e)
                 | None \<Rightarrow> Inr (d(manifest_path root (m_contract m) \<mapsto> Bytes b))))"

definition remove_manifest :: "fs \<Rightarrow> string \<Rightarrow> string \<Rightarrow> fs" where
  "remove_manifest d root c = d(manifest_path root c := None)"

section \<open>Lemmas\<close>

lemma column_nulls_append:
  "column_nulls (xs @ ys) column =
     (case column_nulls xs column of None \<Rightarrow> None
      | Some a \<Rightarrow> map_option ((+) a) (column_nulls ys column))"
  by (simp add: column_nulls_def sum_opt_append split: option.splits)

lemma column_nulls_Some_iff:
  "(\<exists>n. column_nulls fs column = Some n) \<longleftrightarrow> (\<forall>f \<in> set fs. map_of (f_null_counts f) column \<noteq> None)"
  unfolding column_nulls_def sum_opt_Some_iff by (auto simp: image_iff) (metis not_None_eq)

lemma map_of_table_stats:
  "map_of (ts_null_counts (table_stats m cols)) column =
     (if column \<in> set cols then column_nulls (m_files m) column else None)"
proof -
  have "map_of (fold (\<lambda>column acc. case column_nulls (m_files m) column of
           Some n \<Rightarrow> bt_insert column n acc | None \<Rightarrow> acc) cols acc) column
      = (if column \<in> set cols \<and> column_nulls (m_files m) column \<noteq> None
         then column_nulls (m_files m) column else map_of acc column)" for acc
    by (induction cols arbitrary: acc) (auto split: option.splits)
  from this [of "[]"] show ?thesis by (auto simp: table_stats_def)
qed

lemma filter_the_one: "distinct zs \<Longrightarrow> a \<in> set zs \<Longrightarrow> filter (\<lambda>x. x = a) zs = [a]"
  by (induction zs) (auto simp: filter_empty_conv)

lemma sort_key_perm:
  assumes "mset xs = mset ys" and "distinct (map k xs)"
  shows "sort_key k xs = sort_key k ys"
proof -
  have set_eq: "set xs = set ys" using assms(1) by (rule mset_eq_setD)
  from assms have "distinct (map k ys)"
    by (metis mset_map mset_eq_imp_distinct_iff)
  with assms have "distinct xs" "distinct ys" "inj_on k (set xs)" by (auto simp: distinct_map)
  show ?thesis
  proof (rule properties_for_sort_key)
    show "mset (sort_key k ys) = mset xs" using assms(1) by simp
    show "sorted (map k (sort_key k ys))" by simp
    show "filter (\<lambda>x. k a = k x) (sort_key k ys) = filter (\<lambda>x. k a = k x) xs"
      if "a \<in> set (sort_key k ys)" for a
    proof -
      have one: "filter (\<lambda>x. k a = k x) zs = [a]" if "distinct zs" "set zs = set ys" for zs
      proof -
        have "filter (\<lambda>x. k a = k x) zs = filter (\<lambda>x. x = a) zs"
          using that \<open>a \<in> set (sort_key k ys)\<close> \<open>inj_on k (set xs)\<close> set_eq
          by (intro filter_cong) (auto dest: inj_onD)
        also have "\<dots> = [a]"
          using that \<open>a \<in> set (sort_key k ys)\<close> by (intro filter_the_one) simp_all
        finally show ?thesis .
      qed
      from one [of "sort_key k ys"] one [of xs] \<open>distinct xs\<close> \<open>distinct ys\<close> set_eq
      show ?thesis by simp
    qed
  qed
qed

section \<open>The lines of a data hash\<close>

lemma split_at_first:
  "u @ z # r = v @ z # s \<Longrightarrow> z \<notin> set u \<Longrightarrow> z \<notin> set v \<Longrightarrow> u = v \<and> r = s"
  by (induction u arbitrary: v; case_tac v) auto

lemma split_at_last:
  "p @ z # s = q @ z # t \<Longrightarrow> z \<notin> set s \<Longrightarrow> z \<notin> set t \<Longrightarrow> p = q \<and> s = t"
  using split_at_first [of "rev s" z "rev p" "rev t" "rev q"]
  by (metis rev.simps(2) rev_append rev_rev_ident set_rev append.assoc append_Cons append_Nil)

definition plain_entry :: "file_entry \<Rightarrow> bool" where
  "plain_entry f \<longleftrightarrow> CHR ''\<newline>'' \<notin> set (f_path f) \<and> CHR ''\<newline>'' \<notin> set (f_sha256 f)
     \<and> CHR '':'' \<notin> set (f_sha256 f)"

lemma hash_line_inj:
  assumes "plain_entry f" and "plain_entry g"
    and "f_path f @ '':'' @ f_sha256 f @ ''\<newline>'' @ r = f_path g @ '':'' @ f_sha256 g @ ''\<newline>'' @ s"
  shows "f_path f = f_path g \<and> f_sha256 f = f_sha256 g \<and> r = s"
proof -
  have "(f_path f @ '':'' @ f_sha256 f) @ CHR ''\<newline>'' # r = (f_path g @ '':'' @ f_sha256 g) @ CHR ''\<newline>'' # s"
    using assms(3) by simp
  then have eq: "f_path f @ CHR '':'' # f_sha256 f = f_path g @ CHR '':'' # f_sha256 g \<and> r = s"
    using split_at_first [of "f_path f @ '':'' @ f_sha256 f" "CHR ''\<newline>''" r
        "f_path g @ '':'' @ f_sha256 g" s] assms(1,2)
    by (simp add: plain_entry_def)
  then show ?thesis
    using split_at_last [of "f_path f" "CHR '':''" "f_sha256 f" "f_path g" "f_sha256 g"] assms(1,2)
    by (simp add: plain_entry_def)
qed

lemma hash_lines_list_inj:
  assumes "list_all plain_entry fs" and "list_all plain_entry gs"
    and "concat (map (\<lambda>f. f_path f @ '':'' @ f_sha256 f @ ''\<newline>'') fs)
       = concat (map (\<lambda>f. f_path f @ '':'' @ f_sha256 f @ ''\<newline>'') gs)"
  shows "map (\<lambda>f. (f_path f, f_sha256 f)) fs = map (\<lambda>f. (f_path f, f_sha256 f)) gs"
  using assms
proof (induction fs arbitrary: gs)
  case Nil
  then show ?case by (cases gs) auto
next
  case (Cons f fs)
  then obtain g gs' where gs: "gs = g # gs'" by (cases gs) auto
  from Cons.prems have "f_path f = f_path g \<and> f_sha256 f = f_sha256 g
     \<and> concat (map (\<lambda>f. f_path f @ '':'' @ f_sha256 f @ ''\<newline>'') fs)
       = concat (map (\<lambda>f. f_path f @ '':'' @ f_sha256 f @ ''\<newline>'') gs')"
    by (intro hash_line_inj) (simp_all add: gs)
  with Cons show ?case by (simp add: gs)
qed

lemma insort_key_map: "insort_key g (k x) (map k xs) = map k (insort_key (\<lambda>x. g (k x)) x xs)"
  by (induction xs) auto

lemma sort_key_map: "sort_key g (map k xs) = map k (sort_key (\<lambda>x. g (k x)) xs)"
  by (induction xs) (simp_all add: insort_key_map)

lemma saved_manifest_loads:
  assumes "codec_laws J" and "save_manifest J w d root m = Inr d'"
  shows "load_manifest J d' root c =
     (if replace_slash c = replace_slash (m_contract m) then Inr (Some m) else load_manifest J d root c)"
proof -
  obtain b where b: "encode J m = Inr b" and d': "d' = d(manifest_path root (m_contract m) \<mapsto> Bytes b)"
    using assms(2) by (auto simp: save_manifest_def split: sum.splits option.splits)
  have "decode J b = Inr (Some m)"
    using assms(1) b by (fastforce simp: codec_laws_def encode_def decode_def)
  then show ?thesis by (auto simp: load_manifest_def d' manifest_path_def Let_def)
qed

section \<open>Properties\<close>

text \<open>
  The data hash identifies the data and nothing else: for files of distinct paths (none with a
  line break, digests in hexadecimal) two lists of entries have one hash exactly when they have the
  same paths with the same digests, in whatever order they are listed, as long as the digest
  function does not collide on the two.
\<close>

theorem data_hash_identifies:
  assumes "list_all plain_entry fs" and "list_all plain_entry gs"
    and "distinct (map f_path fs)" and "distinct (map f_path gs)"
    and "H (hash_lines fs) = H (hash_lines gs) \<Longrightarrow> hash_lines fs = hash_lines gs"
  shows "data_hash H fs = data_hash H gs \<longleftrightarrow>
     mset (map (\<lambda>f. (f_path f, f_sha256 f)) fs) = mset (map (\<lambda>f. (f_path f, f_sha256 f)) gs)"
proof
  let ?k = "\<lambda>f. (f_path f, f_sha256 f)"
  assume "data_hash H fs = data_hash H gs"
  then have "hash_lines fs = hash_lines gs" using assms(5) by (simp add: data_hash_def)
  then have "map ?k (sort_key f_path fs) = map ?k (sort_key f_path gs)"
    using assms(1,2) by (intro hash_lines_list_inj) (auto simp: hash_lines_def list_all_iff)
  then have "mset (map ?k (sort_key f_path fs)) = mset (map ?k (sort_key f_path gs))" by simp
  then show "mset (map ?k fs) = mset (map ?k gs)" by simp
next
  let ?k = "\<lambda>f. (f_path f, f_sha256 f)"
  have lines: "hash_lines hs = concat (map (\<lambda>p. fst p @ '':'' @ snd p @ ''\<newline>'') (sort_key fst (map ?k hs)))" for hs
  proof -
    have "sort_key fst (map ?k hs) = map ?k (sort_key f_path hs)"
      by (simp add: sort_key_map)
    then show ?thesis by (simp add: hash_lines_def comp_def)
  qed
  assume "mset (map ?k fs) = mset (map ?k gs)"
  then have "sort_key fst (map ?k fs) = sort_key fst (map ?k gs)"
    using assms(3) by (intro sort_key_perm) (simp_all add: comp_def)
  then show "data_hash H fs = data_hash H gs" by (simp add: data_hash_def lines)
qed

text \<open>
  Facts written in the current format read back as they were, and bytes of any other format are
  no error but facts not recorded.
\<close>

theorem decode_encode:
  assumes "codec_laws J"
  shows "(encode J facts = Inr bytes \<longrightarrow> decode J bytes = Inr (Some facts))
    \<and> (to_vec J n facts = Inr bytes \<and> n \<noteq> facts_format \<longrightarrow> decode J bytes = Inr None)"
  using assms by (fastforce simp: codec_laws_def encode_def decode_def)

text \<open>
  A manifest saved is the manifest loaded next, and no other contract's manifest is touched,
  except one whose name becomes the same file name (\<open>a/b\<close> and \<open>a__b\<close>).
\<close>

theorem load_after_save:
  assumes "codec_laws J" and "save_manifest J w d root m = Inr d'"
  shows "load_manifest J d' root c =
     (if replace_slash c = replace_slash (m_contract m) then Inr (Some m) else load_manifest J d root c)"
  using assms by (rule saved_manifest_loads)

section \<open>A concrete codec and concrete files\<close>

text \<open>
  A codec over values that are the pair of a format and the facts, whose bytes say which of the two
  manifests below they hold.
\<close>

definition ex_manifest :: "string \<Rightarrow> nat manifest" where
  "ex_manifest c = \<lparr>m_contract = c, m_contract_hash = [], m_compilation_hash = [], m_written_at = 0,
     m_row_count = 0, m_failures = [], m_valid = True, m_breached = [], m_guarantees = [], m_stats = [],
     m_data_hash = [], m_row_schema = [], m_files = [], m_snapshot = None\<rparr>"

definition ex_codec :: "(nat \<times> nat manifest, nat manifest) facts_codec" where
  "ex_codec = \<lparr>to_vec = (\<lambda>n m. if m = ex_manifest (m_contract m) then Inr (replicate n CHR ''x'' @ CHR '':'' # m_contract m)
                       else Inl ''not serialisable''),
     from_slice = (\<lambda>b. Inr (length (takeWhile (\<lambda>c. c = CHR ''x'') b),
        ex_manifest (tl (dropWhile (\<lambda>c. c = CHR ''x'') b)))),
     is_object = (\<lambda>v. True), format_u64 = (\<lambda>v. Some (fst v)), from_value = (\<lambda>v. Inr (snd v))\<rparr>"

lemma ex_codec_laws: "codec_laws ex_codec"
proof -
  have "takeWhile (\<lambda>c. c = CHR ''x'') (replicate n CHR ''x'' @ CHR '':'' # s) = replicate n CHR ''x''"
    "dropWhile (\<lambda>c. c = CHR ''x'') (replicate n CHR ''x'' @ CHR '':'' # s) = CHR '':'' # s" for n s
    by (induction n) simp_all
  then show ?thesis by (auto simp: codec_laws_def ex_codec_def split: if_splits)
qed

definition ex_file :: "string \<Rightarrow> string \<Rightarrow> file_entry" where
  "ex_file p h = \<lparr>f_path = p, f_rows = 1, f_bytes = 1, f_contract_hash = [], f_flags = [],
     f_null_counts = [], f_sha256 = h\<rparr>"

theorem data_hash_identifies_witness:
  "data_hash (\<lambda>s. s) [ex_file ''b'' ''0a'', ex_file ''a'' ''0b'']
     = data_hash (\<lambda>s. s) [ex_file ''a'' ''0b'', ex_file ''b'' ''0a'']"
  by (subst data_hash_identifies) (simp_all add: plain_entry_def ex_file_def)

theorem decode_encode_witness:
  "decode ex_codec ''xxx:t/c'' = Inr (Some (ex_manifest ''t/c'')) \<and> decode ex_codec ''xx:t/c'' = Inr None"
proof -
  have "encode ex_codec (ex_manifest ''t/c'') = Inr ''xxx:t/c''"
    by (simp add: encode_def ex_codec_def ex_manifest_def facts_format_def numeral_eq_Suc)
  moreover have "to_vec ex_codec 2 (ex_manifest ''t/c'') = Inr ''xx:t/c''"
    by (simp add: ex_codec_def ex_manifest_def numeral_eq_Suc)
  ultimately show ?thesis
    using decode_encode [OF ex_codec_laws, where n = 2 and facts = "ex_manifest ''t/c''" and bytes = "''xx:t/c''"]
      decode_encode [OF ex_codec_laws, where n = 3 and facts = "ex_manifest ''t/c''" and bytes = "''xxx:t/c''"]
    by (simp add: facts_format_def)
qed

theorem load_after_save_witness:
  "\<exists>d'. save_manifest ex_codec None Map.empty ''r'' (ex_manifest ''t/c'') = Inr d'
     \<and> load_manifest ex_codec d' ''r'' ''t/c'' = Inr (Some (ex_manifest ''t/c''))
     \<and> load_manifest ex_codec d' ''r'' ''t__c'' = Inr (Some (ex_manifest ''t/c''))
     \<and> load_manifest ex_codec d' ''r'' ''t/d'' = Inr None"
proof -
  have "\<exists>d'. save_manifest ex_codec None Map.empty ''r'' (ex_manifest ''t/c'') = Inr d'"
    by (simp add: save_manifest_def encode_def ex_codec_def ex_manifest_def)
  then obtain d' where d': "save_manifest ex_codec None Map.empty ''r'' (ex_manifest ''t/c'') = Inr d'" ..
  have "load_manifest ex_codec Map.empty ''r'' ''t/d'' = Inr None"
    by (simp add: load_manifest_def Let_def)
  moreover have "m_contract (ex_manifest ''t/c'') = ''t/c''" by (simp add: ex_manifest_def)
  ultimately show ?thesis
    using d' load_after_save [OF ex_codec_laws d', of "''t/c''"] load_after_save [OF ex_codec_laws d', of "''t__c''"]
      load_after_save [OF ex_codec_laws d', of "''t/d''"] by simp
qed

end
