(* ===== verification/Float64.thy ===== *)
theory Float64
  imports Complex_Main Peql_Prelude "HOL-Library.Log_Nat"
begin

text \<open>
  Rust's \<open>f64\<close>: IEEE 754 binary64 with round to nearest, ties to even. A value is not-a-number,
  an infinity, or a rational; every arithmetic result is the exact rational result rounded by
  \<open>round64\<close>, so the model computes the value the machine computes, executably. The two zeros are
  one value here: no comparison the source makes tells them apart.
\<close>

datatype f64 = NaN | PInf | NInf | Fin rat

section \<open>Rounding\<close>

text \<open>The binade of a positive rational: the exponent of the greatest power of two below it.\<close>

definition lg2 :: "rat \<Rightarrow> int" where
  "lg2 x = (let pq = quotient_of x; e = bitlen (fst pq) - bitlen (snd pq)
            in if 2 powi e \<le> x then e else e - 1)"

definition round_even :: "rat \<Rightarrow> int" where
  "round_even x = (let f = \<lfloor>x\<rfloor>; r = x - of_int f
                   in if r < 1 / 2 then f else if 1 / 2 < r then f + 1
                      else if even f then f else f + 1)"

text \<open>The exponent of the last place: 52 bits below the leading one, subnormals below \<open>2^-1022\<close>.\<close>

definition ulp_exp :: "rat \<Rightarrow> int" where
  "ulp_exp x = max (lg2 \<bar>x\<bar> - 52) (-1074)"

definition rnd :: "rat \<Rightarrow> rat" where
  "rnd x = (if x = 0 then 0
            else of_int (round_even (x / 2 powi ulp_exp x)) * 2 powi ulp_exp x)"

definition round64 :: "rat \<Rightarrow> f64" where
  "round64 x = (let r = rnd x
                in if 2 ^ 1024 \<le> r then PInf else if r \<le> - (2 ^ 1024) then NInf else Fin r)"

lemma powi_two_pos [simp]: "(0::rat) < 2 powi e"
  by (simp add: power_int_def)

lemma powi_two_le: "a \<le> b \<Longrightarrow> (2::rat) powi a \<le> 2 powi b"
  by (rule power_int_increasing) simp_all

lemma powi_two_div: "b \<le> a \<Longrightarrow> (2::rat) powi a / 2 powi b = of_int (2 ^ nat (a - b))"
proof -
  assume "b \<le> a"
  have "(2::rat) powi a / 2 powi b = 2 powi (a - b)"
    by (simp add: power_int_diff)
  also have "\<dots> = 2 ^ nat (a - b)"
    using \<open>b \<le> a\<close> by (simp add: power_int_def)
  finally show ?thesis by simp
qed

lemma bitlen_bounds_rat:
  assumes "0 < (p::int)"
  shows "(2::rat) powi (bitlen p - 1) \<le> of_int p" and "of_int p < (2::rat) powi bitlen p"
proof -
  from assms have b: "2 ^ nat (bitlen p - 1) \<le> p" "p < 2 ^ nat (bitlen p)"
    using bitlen_bounds [OF assms] by auto
  have "1 \<le> bitlen p"
  proof (rule ccontr)
    assume "\<not> 1 \<le> bitlen p"
    then have "nat (bitlen p) = 0" by simp
    with b(2) have "p < 1" by simp
    with assms show False by simp
  qed
  from b(1) have "(of_int (2 ^ nat (bitlen p - 1)) :: rat) \<le> of_int p"
    by (simp only: of_int_le_iff)
  then show "(2::rat) powi (bitlen p - 1) \<le> of_int p"
    using \<open>1 \<le> bitlen p\<close> by (simp add: power_int_def)
  from b(2) have "(of_int p :: rat) < of_int (2 ^ nat (bitlen p))"
    by (simp only: of_int_less_iff)
  then show "of_int p < (2::rat) powi bitlen p"
    using \<open>1 \<le> bitlen p\<close> by (simp add: power_int_def)
qed

lemma lg2_bounds:
  assumes "0 < x"
  shows "2 powi lg2 x \<le> x" and "x < 2 powi (lg2 x + 1)"
proof -
  obtain p q where pq: "quotient_of x = (p, q)" by (cases "quotient_of x")
  have q: "0 < q" and x: "x = of_int p / of_int q"
    using quotient_of_denom_pos [OF pq] quotient_of_div [OF pq] by auto
  from assms x q have p: "0 < p" by (simp add: zero_less_divide_iff)
  let ?e = "bitlen p - bitlen q"
  note bp = bitlen_bounds_rat [OF p] and bq = bitlen_bounds_rat [OF q]
  have qpos: "(0::rat) < of_int q" using q by simp
  have "(2::rat) powi (?e - 1) = 2 powi (bitlen p - 1) / 2 powi bitlen q"
    by (simp add: power_int_diff)
  also have "\<dots> \<le> of_int p / of_int q"
    using bp(1) bq(2) qpos p by (intro frac_le) auto
  finally have low: "2 powi (?e - 1) \<le> x" by (simp add: x)
  have "of_int p / of_int q < (2::rat) powi bitlen p / 2 powi (bitlen q - 1)"
    using bp(2) bq(1) p by (intro frac_less) auto
  also have "\<dots> = 2 powi (?e + 1)"
    by (simp add: power_int_diff power_int_add)
  finally have high: "x < 2 powi (?e + 1)" by (simp add: x)
  show "2 powi lg2 x \<le> x"
    using low by (auto simp: lg2_def pq Let_def)
  show "x < 2 powi (lg2 x + 1)"
    using high by (auto simp: lg2_def pq Let_def not_le)
qed

lemma lg2_mono: "0 < x \<Longrightarrow> x \<le> y \<Longrightarrow> lg2 x \<le> lg2 y"
proof (rule ccontr)
  assume xy: "0 < x" "x \<le> y" and "\<not> lg2 x \<le> lg2 y"
  then have "lg2 y + 1 \<le> lg2 x" by simp
  then have "(2::rat) powi (lg2 y + 1) \<le> 2 powi lg2 x" by (rule powi_two_le)
  with lg2_bounds(1) [of x] lg2_bounds(2) [of y] xy show False by linarith
qed

lemma round_even_bounds: "\<lfloor>x\<rfloor> \<le> round_even x" "round_even x \<le> \<lfloor>x\<rfloor> + 1"
  by (auto simp: round_even_def Let_def)

lemma round_even_mono: "x \<le> y \<Longrightarrow> round_even x \<le> round_even y"
proof -
  assume "x \<le> y"
  then have "\<lfloor>x\<rfloor> \<le> \<lfloor>y\<rfloor>" by (rule floor_mono)
  show ?thesis
  proof (cases "\<lfloor>x\<rfloor> = \<lfloor>y\<rfloor>")
    case True
    with \<open>x \<le> y\<close> show ?thesis by (auto simp: round_even_def Let_def)
  next
    case False
    with \<open>\<lfloor>x\<rfloor> \<le> \<lfloor>y\<rfloor>\<close> have "\<lfloor>x\<rfloor> + 1 \<le> \<lfloor>y\<rfloor>" by simp
    with round_even_bounds [of x] round_even_bounds [of y] show ?thesis by linarith
  qed
qed

lemma round_even_of_int [simp]: "round_even (of_int n) = n"
  by (simp add: round_even_def)

lemma round_even_minus: "round_even (- x) = - round_even x"
proof (cases "x = of_int \<lfloor>x\<rfloor>")
  case True
  then obtain n where "x = of_int n" by blast
  then have "- x = of_int (- n)" by simp
  with \<open>x = of_int n\<close> show ?thesis by (simp only: round_even_of_int)
next
  case False
  then have "x \<notin> \<int>" by (auto elim!: Ints_cases)
  then have "\<lfloor>- x\<rfloor> = - \<lfloor>x\<rfloor> - 1"
    using False by (simp add: floor_minus ceiling_altdef)
  then show ?thesis by (auto simp: round_even_def Let_def)
qed

lemma rnd_0 [simp]: "rnd 0 = 0"
  by (simp add: rnd_def)

lemma rnd_minus: "rnd (- x) = - rnd x"
  by (simp add: rnd_def ulp_exp_def round_even_minus)

lemma rnd_nonneg: "0 \<le> x \<Longrightarrow> 0 \<le> rnd x"
proof -
  assume "0 \<le> x"
  then have "round_even 0 \<le> round_even (x / 2 powi ulp_exp x)"
    by (intro round_even_mono) (simp add: less_imp_le)
  moreover have "round_even 0 = 0" by (simp add: round_even_def)
  ultimately show ?thesis by (simp add: rnd_def less_imp_le)
qed

lemma rnd_le_power:
  assumes "x \<le> 2 powi e" and "ulp_exp x \<le> e"
  shows "rnd x \<le> 2 powi e"
proof (cases "x = 0")
  case True
  then show ?thesis by (simp add: less_imp_le)
next
  case False
  let ?u = "(2::rat) powi ulp_exp x"
  have "x / ?u \<le> 2 powi e / ?u"
    using assms(1) by (simp add: divide_right_mono less_imp_le)
  then have "round_even (x / ?u) \<le> round_even (2 powi e / ?u)" by (rule round_even_mono)
  then have "round_even (x / ?u) \<le> 2 ^ nat (e - ulp_exp x)"
    by (simp only: powi_two_div [OF assms(2)] round_even_of_int)
  then have "of_int (round_even (x / ?u)) \<le> (2::rat) powi e / ?u"
    unfolding powi_two_div [OF assms(2)] by (simp only: of_int_le_iff)
  then have "of_int (round_even (x / ?u)) * ?u \<le> 2 powi e"
    by (simp add: pos_le_divide_eq)
  with False show ?thesis by (simp add: rnd_def)
qed

lemma rnd_ge_power:
  assumes "2 powi e \<le> x" and "ulp_exp x \<le> e"
  shows "2 powi e \<le> rnd x"
proof -
  have "0 < x" using assms(1) powi_two_pos [of e] by linarith
  let ?u = "(2::rat) powi ulp_exp x"
  have "2 powi e / ?u \<le> x / ?u"
    using assms(1) by (simp add: divide_right_mono less_imp_le)
  then have "round_even (2 powi e / ?u) \<le> round_even (x / ?u)" by (rule round_even_mono)
  then have "2 ^ nat (e - ulp_exp x) \<le> round_even (x / ?u)"
    by (simp only: powi_two_div [OF assms(2)] round_even_of_int)
  then have "(2::rat) powi e / ?u \<le> of_int (round_even (x / ?u))"
    unfolding powi_two_div [OF assms(2)] by (simp only: of_int_le_iff)
  then have "2 powi e \<le> of_int (round_even (x / ?u)) * ?u"
    by (simp add: pos_divide_le_eq)
  with \<open>0 < x\<close> show ?thesis by (simp add: rnd_def)
qed

text \<open>Rounding is monotone: a sum that is exactly larger never rounds to something smaller.\<close>

lemma rnd_mono_pos:
  assumes "0 < x" and "x \<le> y"
  shows "rnd x \<le> rnd y"
proof (cases "ulp_exp x = ulp_exp y")
  case True
  have "x / 2 powi ulp_exp y \<le> y / 2 powi ulp_exp y"
    using assms(2) by (simp add: divide_right_mono less_imp_le)
  then have "round_even (x / 2 powi ulp_exp y) \<le> round_even (y / 2 powi ulp_exp y)"
    by (rule round_even_mono)
  with True assms show ?thesis
    by (simp add: rnd_def mult_right_mono less_imp_le)
next
  case False
  have "lg2 x \<le> lg2 y" using assms by (rule lg2_mono)
  with False assms have y: "ulp_exp y = lg2 y - 52" and "-1074 < lg2 y - 52" and lt: "lg2 x < lg2 y"
    by (auto simp: ulp_exp_def max_def split: if_splits)
  have xy: "x \<le> 2 powi lg2 y"
    using lg2_bounds(2) [OF assms(1)] powi_two_le [of "lg2 x + 1" "lg2 y"] lt by linarith
  have "ulp_exp x \<le> lg2 y"
    using lt \<open>-1074 < lg2 y - 52\<close> assms by (simp add: ulp_exp_def)
  with xy have "rnd x \<le> 2 powi lg2 y" by (rule rnd_le_power)
  also have "\<dots> \<le> rnd y"
    using lg2_bounds(1) [of y] assms y by (intro rnd_ge_power) auto
  finally show ?thesis .
qed

lemma rnd_mono: "x \<le> y \<Longrightarrow> rnd x \<le> rnd y"
proof -
  assume "x \<le> y"
  consider "0 < x" | "x \<le> 0" "0 \<le> y" | "y < 0" using \<open>x \<le> y\<close> by linarith
  then show ?thesis
  proof cases
    case 1
    then show ?thesis using \<open>x \<le> y\<close> by (rule rnd_mono_pos)
  next
    case 2
    then have "0 \<le> rnd (- x)" and "0 \<le> rnd y" by (auto intro: rnd_nonneg)
    then show ?thesis by (simp add: rnd_minus)
  next
    case 3
    then have "rnd (- y) \<le> rnd (- x)" using \<open>x \<le> y\<close> by (intro rnd_mono_pos) auto
    then show ?thesis by (simp add: rnd_minus)
  qed
qed

section \<open>Comparison and arithmetic\<close>

text \<open>\<open>a < b\<close>: false as soon as one side is not a number.\<close>

fun f64_lt :: "f64 \<Rightarrow> f64 \<Rightarrow> bool" where
  "f64_lt NaN b = False"
| "f64_lt a NaN = False"
| "f64_lt PInf b = False"
| "f64_lt a NInf = False"
| "f64_lt NInf b = True"
| "f64_lt a PInf = True"
| "f64_lt (Fin x) (Fin y) = (x < y)"

text \<open>\<open>partial_cmp\<close>'s answer that the two are equal (never for a not-a-number).\<close>

definition f64_eq :: "f64 \<Rightarrow> f64 \<Rightarrow> bool" where
  "f64_eq a b \<longleftrightarrow> a \<noteq> NaN \<and> a = b"

definition f64_le :: "f64 \<Rightarrow> f64 \<Rightarrow> bool" where
  "f64_le a b \<longleftrightarrow> f64_lt a b \<or> f64_eq a b"

fun f64_add :: "f64 \<Rightarrow> f64 \<Rightarrow> f64" where
  "f64_add NaN b = NaN"
| "f64_add a NaN = NaN"
| "f64_add PInf NInf = NaN"
| "f64_add NInf PInf = NaN"
| "f64_add PInf b = PInf"
| "f64_add NInf b = NInf"
| "f64_add a PInf = PInf"
| "f64_add a NInf = NInf"
| "f64_add (Fin x) (Fin y) = round64 (x + y)"

fun f64_neg :: "f64 \<Rightarrow> f64" where
  "f64_neg NaN = NaN"
| "f64_neg PInf = NInf"
| "f64_neg NInf = PInf"
| "f64_neg (Fin x) = Fin (- x)"

definition f64_sub :: "f64 \<Rightarrow> f64 \<Rightarrow> f64" where
  "f64_sub a b = f64_add a (f64_neg b)"

text \<open>The product, with the sign rules of the infinities; zero times an infinity is no number.\<close>

fun f64_mul :: "f64 \<Rightarrow> f64 \<Rightarrow> f64" where
  "f64_mul NaN b = NaN"
| "f64_mul a NaN = NaN"
| "f64_mul (Fin x) (Fin y) = round64 (x * y)"
| "f64_mul (Fin x) b = (if x = 0 then NaN else if 0 < x then b else f64_neg b)"
| "f64_mul a (Fin y) = (if y = 0 then NaN else if 0 < y then a else f64_neg a)"
| "f64_mul PInf b = b"
| "f64_mul NInf b = f64_neg b"

text \<open>The quotient. A zero divisor is the positive zero: the source divides by counts only.\<close>

fun f64_div :: "f64 \<Rightarrow> f64 \<Rightarrow> f64" where
  "f64_div NaN b = NaN"
| "f64_div a NaN = NaN"
| "f64_div (Fin x) (Fin y) =
     (if y = 0 then (if x = 0 then NaN else if 0 < x then PInf else NInf) else round64 (x / y))"
| "f64_div (Fin x) b = Fin 0"
| "f64_div a (Fin y) = (if 0 \<le> y then a else f64_neg a)"
| "f64_div a b = NaN"

text \<open>\<open>a.max(b)\<close>: a not-a-number gives way to the other side.\<close>

definition f64_max :: "f64 \<Rightarrow> f64 \<Rightarrow> f64" where
  "f64_max a b = (if a = NaN then b else if b = NaN then a else if f64_lt a b then b else a)"

text \<open>\<open>n as f64\<close>.\<close>

definition f64_of_int :: "int \<Rightarrow> f64" where
  "f64_of_int n = round64 (of_int n)"

text \<open>\<open>x.round() as i64\<close>: half away from zero, saturating, zero for a not-a-number.\<close>

definition round_away :: "rat \<Rightarrow> int" where
  "round_away x = (if 0 \<le> x then \<lfloor>x + 1 / 2\<rfloor> else - \<lfloor>- x + 1 / 2\<rfloor>)"

fun f64_round_i64 :: "f64 \<Rightarrow> int" where
  "f64_round_i64 NaN = 0"
| "f64_round_i64 PInf = 2 ^ 63 - 1"
| "f64_round_i64 NInf = - (2 ^ 63)"
| "f64_round_i64 (Fin x) = max (- (2 ^ 63)) (min (2 ^ 63 - 1) (round_away x))"

text \<open>The values a double can hold.\<close>

definition f64_ok :: "f64 \<Rightarrow> bool" where
  "f64_ok a = (case a of Fin x \<Rightarrow> rnd x = x \<and> \<bar>x\<bar> < 2 ^ 1024 | _ \<Rightarrow> True)"

section \<open>Laws\<close>

lemma f64_lt_irrefl [simp]: "\<not> f64_lt a a"
  by (cases a) auto

lemma f64_lt_trans: "f64_lt a b \<Longrightarrow> f64_lt b c \<Longrightarrow> f64_lt a c"
  by (cases a; cases b; cases c) auto

lemma f64_not_lt_NaN [simp]: "\<not> f64_lt a NaN"
  by (cases a) auto

lemma f64_add_NaN [simp]: "f64_add a NaN = NaN"
  by (cases a) auto

lemma f64_not_lt: "a \<noteq> NaN \<Longrightarrow> b \<noteq> NaN \<Longrightarrow> \<not> f64_lt a b \<longleftrightarrow> f64_le b a"
  by (cases a; cases b) (auto simp: f64_le_def f64_eq_def)

lemma f64_le_refl: "a \<noteq> NaN \<Longrightarrow> f64_le a a"
  by (simp add: f64_le_def f64_eq_def)

lemma f64_le_trans: "f64_le a b \<Longrightarrow> f64_le b c \<Longrightarrow> f64_le a c"
  by (auto simp: f64_le_def f64_eq_def intro: f64_lt_trans)

lemma f64_le_Fin [simp]: "f64_le (Fin x) (Fin y) \<longleftrightarrow> x \<le> y"
  by (auto simp: f64_le_def f64_eq_def)

lemma round64_mono: "x \<le> y \<Longrightarrow> f64_le (round64 x) (round64 y)"
  using rnd_mono [of x y] by (auto simp: round64_def Let_def f64_le_def f64_eq_def)

lemma round64_rep: "f64_ok (Fin x) \<Longrightarrow> round64 x = Fin x"
  by (auto simp: f64_ok_def round64_def)

lemma round64_not_NaN [simp]: "round64 x \<noteq> NaN"
  by (simp add: round64_def Let_def)

text \<open>
  Whole numbers below \<open>2^53\<close> are doubles: the counts the source converts are exact, and so are
  their sums and differences while they stay there.
\<close>

lemma lg2_less: "0 < x \<Longrightarrow> x < 2 powi e \<Longrightarrow> lg2 x < e"
proof (rule ccontr)
  assume x: "0 < x" "x < 2 powi e" and "\<not> lg2 x < e"
  then have "(2::rat) powi e \<le> 2 powi lg2 x" by (intro powi_two_le) simp
  with lg2_bounds(1) [of x] x show False by linarith
qed

lemma rnd_of_int:
  assumes "\<bar>n\<bar> < 2 ^ 53"
  shows "rnd (of_int n) = of_int n"
proof (cases "n = 0")
  case True
  then show ?thesis by simp
next
  case False
  have "(of_int \<bar>n\<bar> :: rat) < of_int (2 ^ 53)"
    using assms by (simp only: of_int_less_iff)
  then have "\<bar>of_int n\<bar> < (2::rat) powi 53"
    by (simp add: power_int_def)
  then have "lg2 \<bar>of_int n\<bar> < 53"
    using False by (intro lg2_less) auto
  then have u: "ulp_exp (of_int n) \<le> 0" by (simp add: ulp_exp_def)
  let ?u = "(2::rat) powi ulp_exp (of_int n)"
  have "1 / ?u = of_int (2 ^ nat (0 - ulp_exp (of_int n)))"
    using powi_two_div [OF u] by simp
  then have "of_int n / ?u = of_int (n * 2 ^ nat (0 - ulp_exp (of_int n)))"
    by (simp add: divide_inverse)
  then have "of_int (round_even (of_int n / ?u)) = of_int n / ?u"
    by (simp only: round_even_of_int)
  with False show ?thesis
    using powi_two_pos [of "ulp_exp (of_int n)"] by (simp add: rnd_def)
qed

lemma f64_ok_of_int: "\<bar>n\<bar> < 2 ^ 53 \<Longrightarrow> f64_ok (Fin (of_int n))"
proof -
  assume n: "\<bar>n\<bar> < 2 ^ 53"
  then have "(of_int \<bar>n\<bar> :: rat) < of_int (2 ^ 53)" by (simp only: of_int_less_iff)
  also have "\<dots> \<le> 2 ^ 1024" by simp
  finally show ?thesis using rnd_of_int [OF n] by (simp add: f64_ok_def)
qed

lemma round64_of_int: "\<bar>n\<bar> < 2 ^ 53 \<Longrightarrow> round64 (of_int n) = Fin (of_int n)"
  by (rule round64_rep [OF f64_ok_of_int])

lemma round64_numeral [simp]:
  "(numeral k :: int) < 2 ^ 53 \<Longrightarrow> round64 (numeral k) = Fin (numeral k)"
  "(numeral k :: int) < 2 ^ 53 \<Longrightarrow> round64 (- numeral k) = Fin (- numeral k)"
  using round64_of_int [of "numeral k"] round64_of_int [of "- numeral k"] by simp_all

lemma round64_0 [simp]: "round64 0 = Fin 0"
  using round64_of_int [of 0] by simp

lemma round64_1 [simp]: "round64 1 = Fin 1"
  using round64_of_int [of 1] by simp

lemma f64_ok_numeral [simp]:
  "(numeral k :: int) < 2 ^ 53 \<Longrightarrow> f64_ok (Fin (numeral k))"
  "f64_ok (Fin 0)" "f64_ok (Fin 1)"
  using f64_ok_of_int [of "numeral k"] f64_ok_of_int [of 0] f64_ok_of_int [of 1] by simp_all

lemma f64_of_int_exact: "\<bar>n\<bar> < 2 ^ 53 \<Longrightarrow> f64_of_int n = Fin (of_int n)"
  by (simp add: f64_of_int_def round64_of_int)

text \<open>The relative error of rounding a number of normal size is at most \<open>2^-53\<close>.\<close>

lemma round_even_error: "\<bar>of_int (round_even x) - x\<bar> \<le> 1 / 2"
proof -
  have "of_int \<lfloor>x\<rfloor> \<le> x" "x < of_int \<lfloor>x\<rfloor> + 1" by linarith+
  then show ?thesis by (auto simp: round_even_def Let_def)
qed

lemma rnd_error:
  assumes "2 powi (- 1022) \<le> x"
  shows "\<bar>rnd x - x\<bar> \<le> x / 2 ^ 53"
proof -
  have pos: "0 < x" using assms powi_two_pos [of "- 1022"] by linarith
  have "- 1022 \<le> lg2 x"
  proof (rule ccontr)
    assume "\<not> - 1022 \<le> lg2 x"
    then have "(2::rat) powi (lg2 x + 1) \<le> 2 powi (- 1022)" by (intro powi_two_le) simp
    with lg2_bounds(2) [OF pos] assms show False by linarith
  qed
  with pos have e: "ulp_exp x = lg2 x - 52" by (simp add: ulp_exp_def)
  let ?u = "(2::rat) powi ulp_exp x"
  have u: "?u \<le> x / 2 ^ 52"
    using lg2_bounds(1) [OF pos] unfolding e by (simp add: power_int_diff divide_right_mono)
  have "\<bar>rnd x - x\<bar> = \<bar>of_int (round_even (x / ?u)) - x / ?u\<bar> * ?u"
  proof -
    have "rnd x - x = (of_int (round_even (x / ?u)) - x / ?u) * ?u"
      using pos powi_two_pos [of "ulp_exp x"] by (simp add: rnd_def left_diff_distrib)
    then show ?thesis using powi_two_pos [of "ulp_exp x"] by (simp add: abs_mult)
  qed
  also have "\<dots> \<le> 1 / 2 * ?u"
    by (rule mult_right_mono [OF round_even_error]) (simp add: less_imp_le)
  also have "\<dots> \<le> x / 2 ^ 53" using u by simp
  finally show ?thesis .
qed

text \<open>A multiple of its own last place is a double already, and so is every rounded value.\<close>

lemma rnd_fix:
  assumes "y = of_int k * 2 powi u" and "ulp_exp y \<le> u"
  shows "rnd y = y"
proof (cases "y = 0")
  case True
  then show ?thesis by simp
next
  case False
  let ?w = "(2::rat) powi ulp_exp y"
  have "y / ?w = of_int (k * 2 ^ nat (u - ulp_exp y))"
    using powi_two_div [OF assms(2)]
    by (subst assms(1)) (simp add: times_divide_eq_right [symmetric] del: times_divide_eq_right)
  then have "of_int (round_even (y / ?w)) = y / ?w" by (simp only: round_even_of_int)
  with False show ?thesis using powi_two_pos [of "ulp_exp y"] by (simp add: rnd_def)
qed

lemma rnd_rnd_pos:
  assumes "0 < x"
  shows "rnd (rnd x) = rnd x"
proof (cases "rnd x = 0")
  case True
  then show ?thesis by simp
next
  case False
  define y u e where "y = rnd x" and "u = ulp_exp x" and "e = max (lg2 x + 1) (ulp_exp x)"
  have "0 < y" using rnd_nonneg [of x] assms False by (simp add: y_def)
  have y: "y = of_int (round_even (x / 2 powi u)) * 2 powi u"
    using assms by (simp add: y_def u_def rnd_def)
  have u: "u = max (lg2 x - 52) (- 1074)" using assms by (simp add: u_def ulp_exp_def)
  have "x \<le> 2 powi e"
    using lg2_bounds(2) [OF assms] powi_two_le [of "lg2 x + 1" e] unfolding e_def by linarith
  then have le: "y \<le> 2 powi e" unfolding y_def by (rule rnd_le_power) (simp add: e_def)
  show ?thesis
  proof (cases "y = 2 powi e")
    case True
    have "lg2 y < e + 1" using \<open>0 < y\<close> le powi_two_pos [of e] by (intro lg2_less) (auto simp: True power_int_add)
    then have "ulp_exp y \<le> e" using \<open>0 < y\<close> u by (auto simp: ulp_exp_def e_def u_def [symmetric])
    then have "rnd y = y" using True by (intro rnd_fix [of _ 1 e]) auto
    then show ?thesis by (simp add: y_def)
  next
    case False
    then have "lg2 y < e" using \<open>0 < y\<close> le by (intro lg2_less) auto
    then have "ulp_exp y \<le> u" using assms \<open>0 < y\<close> u by (auto simp: ulp_exp_def e_def u_def [symmetric])
    then have "rnd y = y" by (rule rnd_fix [OF y])
    then show ?thesis by (simp add: y_def)
  qed
qed

lemma rnd_rnd [simp]: "rnd (rnd x) = rnd x"
proof -
  consider "0 < x" | "x = 0" | "0 < - x" by linarith
  then show ?thesis
  proof cases
    case 3
    then show ?thesis using rnd_rnd_pos [of "- x"] by (simp add: rnd_minus)
  qed (simp_all add: rnd_rnd_pos)
qed

lemma round64_small: "\<bar>x\<bar> \<le> 2 ^ 1000 \<Longrightarrow> round64 x = Fin (rnd x)"
proof -
  assume x: "\<bar>x\<bar> \<le> 2 ^ 1000"
  have bound: "rnd y \<le> 2 powi 1000" if "0 < y" "y \<le> 2 ^ 1000" for y :: rat
  proof (rule rnd_le_power)
    show "y \<le> 2 powi 1000" using that by (simp add: power_int_def)
    have "(2::rat) ^ 1000 < 2 powi 1001" by (simp add: power_int_def)
    with that have "lg2 y < 1001" by (intro lg2_less) linarith+
    with that show "ulp_exp y \<le> 1000" by (simp add: ulp_exp_def)
  qed
  have "\<bar>rnd x\<bar> \<le> 2 powi 1000"
  proof (cases "x = 0")
    case True
    then show ?thesis by (simp add: less_imp_le)
  next
    case False
    then consider "0 < x" | "0 < - x" by linarith
    then show ?thesis
    proof cases
      case 1
      then show ?thesis using bound [of x] rnd_nonneg [of x] x by simp
    next
      case 2
      then show ?thesis using bound [of "- x"] rnd_nonneg [of "- x"] x by (simp add: rnd_minus)
    qed
  qed
  also have "(2::rat) powi 1000 < 2 ^ 1024" by (simp add: power_int_def)
  finally show ?thesis by (auto simp: round64_def Let_def)
qed

text \<open>Adding something that is not negative never makes a double smaller.\<close>

lemma f64_add_increasing:
  assumes "f64_ok a" "a \<noteq> NaN" "f64_le (Fin 0) e" and fits: "a \<noteq> NInf \<or> e \<noteq> PInf"
  shows "f64_le a (f64_add a e)"
proof (cases a)
  case a: (Fin x)
  show ?thesis
  proof (cases e)
    case (Fin y)
    with assms(3) have "x \<le> x + y" by simp
    then have "f64_le (round64 x) (round64 (x + y))" by (rule round64_mono)
    with a Fin assms(1) show ?thesis by (simp add: round64_rep)
  qed (use a assms(3) in \<open>auto simp: f64_le_def f64_eq_def\<close>)
qed (use assms(2,3) fits in \<open>cases e; auto simp: f64_le_def f64_eq_def\<close>)+

lemma f64_max_zero: "f64_le (Fin 0) (f64_max a (Fin 0))"
  by (cases a) (auto simp: f64_max_def f64_le_def f64_eq_def)

lemma round64_ok: "f64_ok (round64 x)"
  by (auto simp: round64_def f64_ok_def Let_def abs_less_iff not_le)

lemma f64_ok_simps [simp]: "f64_ok NaN" "f64_ok PInf" "f64_ok NInf"
  by (simp_all add: f64_ok_def)

lemma f64_add_ok [simp]: "f64_ok (f64_add a b)"
  by (cases a; cases b) (auto simp: round64_ok)

lemma f64_add_Fin_not_NaN: "a \<noteq> NaN \<Longrightarrow> f64_add a (Fin x) \<noteq> NaN"
  by (cases a) auto

lemma f64_le_not_NaN: "f64_le a b \<Longrightarrow> a \<noteq> NaN \<and> b \<noteq> NaN"
  by (cases a; cases b) (auto simp: f64_le_def f64_eq_def)

end
