(* ===== verification/Facts.thy ===== *)
theory Facts
  imports Manifest Violation Float64
begin

text \<open>
  What a write knows about the rows it wrote, and what the data is known to be after it
  (\<open>src/facts.rs\<close>): the verdict of a write, the rules data breaks, and \<open>after_write\<close>, which combines
  what was known before with the write's own facts without reading any other data.
\<close>

section \<open>The JSON values of statistics\<close>

text \<open>
  Statistics are JSON values of the library's type \<open>'j\<close>; the accessors the source calls, parcel's
  \<open>parse_decimal\<close> and the time library's parser are parameters.
\<close>

record 'j stat_api =
  is_null :: "'j \<Rightarrow> bool"
  as_i64 :: "'j \<Rightarrow> int option"
  as_u64 :: "'j \<Rightarrow> nat option"
  as_f64 :: "'j \<Rightarrow> f64 option"
  as_str :: "'j \<Rightarrow> string option"
  as_bool :: "'j \<Rightarrow> bool option"
  json_int :: "int \<Rightarrow> 'j"
  json_f64 :: "f64 \<Rightarrow> 'j"
  parse_decimal :: "string \<Rightarrow> int \<Rightarrow> int option"
  parse_rfc3339 :: "string \<Rightarrow> int option"

text \<open>
  What the JSON library documents of the numbers it makes: an integer of 64 bits, or a finite
  double, reads back as itself.
\<close>

definition stat_laws :: "'j stat_api \<Rightarrow> bool" where
  "stat_laws J \<longleftrightarrow>
     (\<forall>i. \<bar>i\<bar> < 2 ^ 63 \<longrightarrow> as_i64 J (json_int J i) = Some i)
   \<and> (\<forall>x. f64_ok (Fin x) \<longrightarrow> as_f64 J (json_f64 J (Fin x)) = Some (Fin x))"

section \<open>Verdicts\<close>

datatype written = Append | Overwrite | Rewrite

record 'j write_facts =
  wf_written :: written
  wf_facts :: "'j manifest"
  wf_removed :: "string list"

text \<open>\<open>parcel_runtime::plan::Verdict\<close>: what a run of a validation plan says.\<close>

record 'j verdict =
  v_row_count :: int
  v_failures :: "(string, int) btmap"
  v_valid :: bool
  v_breached :: "string list"
  v_guarantees :: "(string \<times> bool) list"
  v_stats :: "(string, 'j) btmap"

definition failed_asserts :: "compilation \<Rightarrow> (string, int) btmap \<Rightarrow> string list" where
  "failed_asserts c failures =
     map assert_id (filter (\<lambda>f. 0 < bt_get_or 0 failures (assert_id f))
       (filter (\<lambda>f. flag_on_fail f = AssertDeny) (cc_flags (contract c))))"

definition of_rows :: "compilation \<Rightarrow> 'j verdict \<Rightarrow> 'j verdict" where
  "of_rows c v =
     (let b = failed_asserts c (v_failures v)
      in v\<lparr>v_breached := b, v_valid := (b = []), v_guarantees := []\<rparr>)"

definition undecided :: "compilation \<Rightarrow> guarantee_rule \<Rightarrow> (string, 'j) btmap \<Rightarrow> bool" where
  "undecided c g stats =
     list_ex (\<lambda>r. r \<in> set (map st_column (val_stats c)) \<and> map_of stats r = None) (g_reads g)"

definition breached_rules ::
  "compilation \<Rightarrow> (string, int) btmap \<Rightarrow> (string, guarantee_check) btmap \<Rightarrow> string list" where
  "breached_rules c failures gchecks =
     failed_asserts c failures
     @ map g_id (filter (\<lambda>g. g_on_fail g = GuaranteeDeny
           \<and> (case map_of gchecks (g_id g) of None \<Rightarrow> False | Some k \<Rightarrow> \<not> holds k))
         (guarantees (contract c)))"

definition checks :: "'j verdict \<Rightarrow> int option \<Rightarrow> int \<Rightarrow> (string, guarantee_check) btmap" where
  "checks v snapshot decided =
     bt_of (map (\<lambda>(i, h). (i, \<lparr>holds = h, check_snapshot = snapshot, decided_at = decided\<rparr>))
       (v_guarantees v))"

section \<open>Combining statistics\<close>

datatype ordering = Less | Equal | Greater

definition cmp :: "'a::linorder \<Rightarrow> 'a \<Rightarrow> ordering" where
  "cmp x y = (if x < y then Less else if x = y then Equal else Greater)"

definition partial_cmp :: "f64 \<Rightarrow> f64 \<Rightarrow> ordering option" where
  "partial_cmp x y = (if f64_lt x y then Some Less else if f64_lt y x then Some Greater
                      else if f64_eq x y then Some Equal else None)"

definition opt2 :: "('a \<Rightarrow> 'a \<Rightarrow> 'b option) \<Rightarrow> 'a option \<Rightarrow> 'a option \<Rightarrow> 'b option" where
  "opt2 f x y = Option.bind x (\<lambda>a. Option.bind y (f a))"

text \<open>The order of two values of a statistic, when they have one.\<close>

definition stat_cmp :: "'j stat_api \<Rightarrow> parcel_type \<Rightarrow> 'j \<Rightarrow> 'j \<Rightarrow> ordering option" where
  "stat_cmp J ty x y =
     (case ty of
        TyInt \<Rightarrow> opt2 (\<lambda>a b. Some (cmp a b)) (as_i64 J x) (as_i64 J y)
      | TyUint \<Rightarrow> opt2 (\<lambda>a b. Some (cmp a b)) (as_u64 J x) (as_u64 J y)
      | TyDouble \<Rightarrow> opt2 partial_cmp (as_f64 J x) (as_f64 J y)
      | TyDecimal scale \<Rightarrow>
          opt2 (\<lambda>a b. Some (cmp a b)) (Option.bind (as_str J x) (\<lambda>s. parse_decimal J s scale))
            (Option.bind (as_str J y) (\<lambda>s. parse_decimal J s scale))
      | TyString \<Rightarrow> opt2 (\<lambda>a b. Some (cmp a b)) (as_str J x) (as_str J y)
      | TyBool \<Rightarrow> opt2 (\<lambda>a b. Some (cmp a b)) (as_bool J x) (as_bool J y)
      | TyTimestamp \<Rightarrow>
          opt2 (\<lambda>a b. Some (cmp a b)) (Option.bind (as_str J x) (parse_rfc3339 J))
            (Option.bind (as_str J y) (parse_rfc3339 J))
      | TyOther _ \<Rightarrow> None)"

definition extreme :: "'j stat_api \<Rightarrow> parcel_type \<Rightarrow> 'j \<Rightarrow> 'j \<Rightarrow> ordering \<Rightarrow> 'j option" where
  "extreme J ty x y want =
     (if is_null J x then Some y
      else if is_null J y then Some x
      else map_option (\<lambda>ord. if ord = want then x else y) (stat_cmp J ty x y))"

text \<open>A null rate back to a count of nulls.\<close>

definition nulls_of_rate :: "'j stat_api \<Rightarrow> 'j \<Rightarrow> int \<Rightarrow> int option" where
  "nulls_of_rate J rate rows =
     map_option (\<lambda>r. f64_round_i64 (f64_mul r (f64_of_int rows))) (as_f64 J rate)"

definition rate_of :: "int \<Rightarrow> int \<Rightarrow> f64" where
  "rate_of n rows = f64_div (f64_of_int n) (f64_of_int rows)"

definition combined_stat ::
  "'j stat_api \<Rightarrow> 'j manifest \<Rightarrow> 'j manifest \<Rightarrow> int \<Rightarrow> (string, int) btmap \<Rightarrow> stat_rule \<Rightarrow> 'j option" where
  "combined_stat J a b rows failures s =
     (let both = (\<lambda>f. opt2 f (map_of (m_stats a) (st_column s)) (map_of (m_stats b) (st_column s))) in
      case st_field s of
        RowCount \<Rightarrow> Some (json_int J rows)
      | AssertionPassRate assertion \<Rightarrow>
          Some (json_f64 J (if 0 < rows
            then f64_sub (Fin 1) (rate_of (bt_get_or 0 failures assertion) rows) else Fin 1))
      | ColumnField _ NullCount \<Rightarrow>
          both (\<lambda>x y. opt2 (\<lambda>i j. Some (json_int J (i + j))) (as_i64 J x) (as_i64 J y))
      | ColumnField _ NullRate \<Rightarrow>
          both (\<lambda>x y. opt2 (\<lambda>i j. Some (json_f64 J (if 0 < rows then rate_of (i + j) rows else Fin 0)))
            (nulls_of_rate J x (m_row_count a)) (nulls_of_rate J y (m_row_count b)))
      | ColumnField _ StatMin \<Rightarrow> both (\<lambda>x y. extreme J (st_ty s) x y Less)
      | ColumnField _ StatMax \<Rightarrow> both (\<lambda>x y. extreme J (st_ty s) x y Greater)
      | ColumnField _ DistinctCount \<Rightarrow> None
      | OtherField _ \<Rightarrow> None
      | WrittenAt \<Rightarrow> None
      | ContractHash \<Rightarrow> None)"

definition combined_stats ::
  "'j stat_api \<Rightarrow> compilation \<Rightarrow> 'j manifest \<Rightarrow> 'j manifest \<Rightarrow> int \<Rightarrow> (string, int) btmap
     \<Rightarrow> (string, 'j) btmap" where
  "combined_stats J c a b rows failures =
     fold (\<lambda>s out. case combined_stat J a b rows failures s of
             Some v \<Rightarrow> bt_insert (st_column s) v out | None \<Rightarrow> out) (val_stats c) []"

section \<open>After a write\<close>

definition same_compilation :: "compilation \<Rightarrow> 'j manifest \<Rightarrow> bool" where
  "same_compilation c m \<longleftrightarrow> m_compilation_hash m = compilation_hash (contract c)"

text \<open>\<open>let before = match (write.written, before)\<close>: what the write is combined with.\<close>

datatype 'j known = Unknown | Nothing | Known "'j manifest"

definition known_before ::
  "compilation \<Rightarrow> 'j manifest option \<Rightarrow> written \<Rightarrow> 'j known res" where
  "known_before c before w =
     (case (w, before) of
        (Overwrite, _) \<Rightarrow> Inr Nothing
      | (Append, None) \<Rightarrow> Inr Nothing
      | (Rewrite, None) \<Rightarrow> Inl (Invalid (''a rewrite under `'' @ cc_name (contract c)
           @ ''` replaced files of data that had none''))
      | (_, Some b) \<Rightarrow> Inr (if same_compilation c b then Known b else Unknown))"

definition appended ::
  "'j stat_api \<Rightarrow> compilation \<Rightarrow> 'j manifest \<Rightarrow> 'j manifest \<Rightarrow> int \<Rightarrow> 'j manifest" where
  "appended J c b w written_at =
     (let rows = m_row_count b + m_row_count w;
          failures = bt_of (map (\<lambda>a. (a, bt_get_or 0 (m_failures b) a + bt_get_or 0 (m_failures w) a))
                       (val_asserts c))
      in w\<lparr>m_written_at := written_at, m_row_count := rows, m_failures := failures,
           m_stats := combined_stats J c b w rows failures,
           m_files := m_files b @ m_files w, m_guarantees := m_guarantees b\<rparr>)"

definition rewritten ::
  "compilation \<Rightarrow> 'j manifest \<Rightarrow> 'j write_facts \<Rightarrow> 'j manifest res" where
  "rewritten c b write =
     (let w = wf_facts write; removed = remdups (wf_removed write);
          gone = filter (\<lambda>f. f_path f \<in> set removed) (m_files b);
          rows = sum_list (map f_rows gone)
      in if length gone \<noteq> length removed
         then Inl (Invalid (''a rewrite under `'' @ cc_name (contract c)
                @ ''` replaced files its facts do not list''))
         else if rows \<noteq> m_row_count w
         then Inl (Invalid (''a rewrite under `'' @ cc_name (contract c) @ ''` replaced files of ''
                @ show_int rows @ '' rows with '' @ show_int (m_row_count w) @ '' rows''))
         else Inr (b\<lparr>m_files := filter (\<lambda>f. f_path f \<notin> set removed) (m_files b) @ m_files w\<rparr>))"

text \<open>The last lines of \<open>after_write\<close>: what follows from the files and the failures.\<close>

definition finished ::
  "(string \<Rightarrow> string) \<Rightarrow> compilation \<Rightarrow> int option \<Rightarrow> 'j manifest \<Rightarrow> 'j manifest" where
  "finished H c snapshot m =
     (let files = sort_key f_path (m_files m);
          broke = breached_rules c (m_failures m) (m_guarantees m)
      in m\<lparr>m_files := files, m_data_hash := data_hash H files, m_snapshot := snapshot,
           m_breached := broke, m_valid := (broke = [])\<rparr>)"

definition after_write ::
  "(string \<Rightarrow> string) \<Rightarrow> 'j stat_api \<Rightarrow> compilation \<Rightarrow> 'j manifest option \<Rightarrow> 'j write_facts
     \<Rightarrow> int \<Rightarrow> int option \<Rightarrow> 'j manifest option res" where
  "after_write H J c before write written_at snapshot =
     (let w = wf_facts write in
      if \<not> same_compilation c w then Inr None
      else and_then (known_before c before (wf_written write)) (\<lambda>k.
        case k of
          Unknown \<Rightarrow> Inr None
        | Nothing \<Rightarrow> Inr (Some (finished H c snapshot (w\<lparr>m_written_at := written_at, m_guarantees := []\<rparr>)))
        | Known b \<Rightarrow>
            (if wf_written write = Rewrite
             then and_then (rewritten c b write) (\<lambda>m. Inr (Some (finished H c snapshot m)))
             else Inr (Some (finished H c snapshot (appended J c b w written_at))))))"

section \<open>Lemmas\<close>

lemma failed_asserts_empty_iff:
  "failed_asserts c failures = [] \<longleftrightarrow>
     (\<forall>f \<in> set (cc_flags (contract c)). flag_on_fail f = AssertDeny
        \<longrightarrow> bt_get_or 0 failures (assert_id f) \<le> 0)"
  by (auto simp: failed_asserts_def filter_empty_conv not_less)

text \<open>What a manifest of contract \<open>c\<close> keeps true of itself.\<close>

definition manifest_ok :: "(string \<Rightarrow> string) \<Rightarrow> compilation \<Rightarrow> 'j manifest \<Rightarrow> bool" where
  "manifest_ok H c m \<longleftrightarrow>
     same_compilation c m
   \<and> sorted (map f_path (m_files m))
   \<and> m_data_hash m = data_hash H (m_files m)
   \<and> m_row_count m = sum_list (map f_rows (m_files m))
   \<and> m_breached m = breached_rules c (m_failures m) (m_guarantees m)
   \<and> (m_valid m \<longleftrightarrow> m_breached m = [])"

text \<open>What the engine gives a write's own facts: its rows are those of the files it wrote.\<close>

definition rows_counted :: "'j manifest \<Rightarrow> bool" where
  "rows_counted m \<longleftrightarrow> m_row_count m = sum_list (map f_rows (m_files m))"

lemma sum_list_sort_key: "sum_list (map h (sort_key k xs)) = (sum_list (map h xs) :: int)"
proof -
  have "mset (map h (sort_key k xs)) = mset (map h xs)" by simp
  then show ?thesis by (metis sum_mset_sum_list)
qed

lemma data_hash_sorted: "data_hash H (sort_key f_path fs) = data_hash H fs"
  by (simp add: data_hash_def hash_lines_def sort_key_id_if_sorted)

lemma finished_ok:
  assumes "same_compilation c m" and "rows_counted m"
  shows "manifest_ok H c (finished H c snapshot m)"
  using assms
  by (simp add: manifest_ok_def finished_def Let_def same_compilation_def rows_counted_def
      sum_list_sort_key)

lemma finished_simps [simp]:
  "m_row_count (finished H c s m) = m_row_count m"
  "m_failures (finished H c s m) = m_failures m"
  "m_guarantees (finished H c s m) = m_guarantees m"
  "m_stats (finished H c s m) = m_stats m"
  "m_written_at (finished H c s m) = m_written_at m"
  "m_snapshot (finished H c s m) = s"
  "set (m_files (finished H c s m)) = set (m_files m)"
  by (simp_all add: finished_def Let_def)

lemma rewritten_Inr:
  assumes "rewritten c b write = Inr m" and "rows_counted b" and "rows_counted (wf_facts write)"
  shows "rows_counted m" and "m_row_count m = m_row_count b" and "m_failures m = m_failures b"
    and "m_guarantees m = m_guarantees b" and "m_stats m = m_stats b"
    and "m_compilation_hash m = m_compilation_hash b" and "m_written_at m = m_written_at b"
    and "m_files m = filter (\<lambda>f. f_path f \<notin> set (wf_removed write)) (m_files b) @ m_files (wf_facts write)"
proof -
  from assms(1) have m: "m = b\<lparr>m_files := filter (\<lambda>f. f_path f \<notin> set (wf_removed write)) (m_files b)
        @ m_files (wf_facts write)\<rparr>"
    and rows: "sum_list (map f_rows (filter (\<lambda>f. f_path f \<in> set (wf_removed write)) (m_files b)))
        = m_row_count (wf_facts write)"
    by (auto simp: rewritten_def Let_def split: if_splits)
  have "sum_list (map f_rows (filter (\<lambda>f. f_path f \<in> S) fs))
      + sum_list (map f_rows (filter (\<lambda>f. f_path f \<notin> S) fs)) = sum_list (map f_rows fs)" for S fs
    by (induction fs) auto
  from this [of "set (wf_removed write)" "m_files b"] show "rows_counted m"
    using assms(2,3) rows by (simp add: m rows_counted_def)
qed (use assms(1) in \<open>auto simp: rewritten_def Let_def split: if_splits\<close>)

lemma appended_counted:
  "rows_counted b \<Longrightarrow> rows_counted w \<Longrightarrow> rows_counted (appended J c b w t)"
  by (simp add: rows_counted_def appended_def Let_def)

lemma bt_get_or_of_map:
  "bt_get_or 0 (bt_of (map (\<lambda>a. (a, h a)) xs)) k = (if k \<in> set xs then h k else (0::int))"
proof -
  have "map_of (rev (map (\<lambda>a. (a, h a)) xs)) k = (if k \<in> set xs then Some (h k) else None)"
    by (auto simp: rev_map map_of_map_restrict restrict_map_def)
  then show ?thesis by (simp add: bt_get_or_def)
qed

text \<open>The result of a write, by its branches.\<close>

lemma after_write_Some_cases:
  assumes "after_write H J c before write t snapshot = Inr (Some m)"
  obtains
    (fresh) "wf_written write = Overwrite \<or> (wf_written write = Append \<and> before = None)"
      "m = finished H c snapshot ((wf_facts write)\<lparr>m_written_at := t, m_guarantees := []\<rparr>)"
  | (append) b where "wf_written write = Append" "before = Some b" "same_compilation c b"
      "m = finished H c snapshot (appended J c b (wf_facts write) t)"
  | (rewrite) b m' where "wf_written write = Rewrite" "before = Some b" "same_compilation c b"
      "rewritten c b write = Inr m'" "m = finished H c snapshot m'"
  using assms
  by (cases "wf_written write"; cases before)
     (auto simp: after_write_def known_before_def Let_def and_then_eq_Inr split: if_splits)

lemma after_write_same: "after_write H J c before write t s = Inr (Some m) \<Longrightarrow> same_compilation c (wf_facts write)"
  by (auto simp: after_write_def Let_def split: if_splits)

section \<open>Rates\<close>

text \<open>The rate of \<open>n\<close> nulls in \<open>r\<close> rows, as \<open>combined_stats\<close> states it.\<close>

definition null_rate :: "int \<Rightarrow> int \<Rightarrow> f64" where
  "null_rate n r = (if 0 < r then rate_of n r else Fin 0)"

lemma small_rat:
  assumes "0 \<le> n" and "n \<le> r" and "0 < r" and "r \<le> 2 ^ 49"
  shows "(of_int n / of_int r :: rat) \<le> 1" and "(0::rat) \<le> of_int n / of_int r"
    and "n \<noteq> 0 \<Longrightarrow> (2::rat) powi (- 49) \<le> of_int n / of_int r"
proof -
  have r: "(0::rat) < of_int r" using assms by simp
  show "(of_int n / of_int r :: rat) \<le> 1" and "(0::rat) \<le> of_int n / of_int r"
    using assms r by (auto simp: divide_le_eq)
  assume "n \<noteq> 0"
  with assms have "1 \<le> n" by simp
  have "(of_int r :: rat) \<le> of_int (2 ^ 49)" using assms(4) by (simp only: of_int_le_iff)
  then have "1 / (2 ^ 49 :: rat) \<le> 1 / of_int r" using r by (intro divide_left_mono) auto
  also have "\<dots> \<le> of_int n / of_int r" using r \<open>1 \<le> n\<close> by (intro divide_right_mono) auto
  finally show "(2::rat) powi (- 49) \<le> of_int n / of_int r"
    by (simp add: power_int_def power_one_over)
qed

lemma rate_of_Fin:
  assumes "0 \<le> n" and "n \<le> r" and "0 < r" and "r \<le> 2 ^ 49"
  shows "rate_of n r = Fin (rnd (of_int n / of_int r))"
proof -
  have "(of_int n / of_int r :: rat) \<le> 2 ^ 1000"
    using small_rat(1) [OF assms] by (rule order_trans) simp
  then have "round64 (of_int n / of_int r) = Fin (rnd (of_int n / of_int r))"
    using small_rat(2) [OF assms] by (intro round64_small) simp
  then show ?thesis using assms by (simp add: rate_of_def f64_of_int_exact)
qed

lemma rnd_le_one: "0 \<le> x \<Longrightarrow> x \<le> 1 \<Longrightarrow> rnd x \<le> 1"
  using rnd_mono [of x 1] rnd_of_int [of 1] by simp

text \<open>
  The count of nulls is recovered exactly from the rounded rate: two roundings of relative error
  \<open>2^-53\<close> move a count below \<open>2^49\<close> by less than a quarter.
\<close>

lemma nulls_recovered:
  assumes "0 \<le> n" and "n \<le> r" and "0 < r" and "r \<le> 2 ^ 49"
  shows "f64_round_i64 (f64_mul (rate_of n r) (f64_of_int r)) = n"
proof (cases "n = 0")
  case True
  moreover have "\<lfloor>1 / 2 :: rat\<rfloor> = 0" by (rule floor_unique) simp_all
  ultimately show ?thesis using assms by (simp add: rate_of_Fin f64_of_int_exact round_away_def)
next
  case False
  define x where "x = (of_int n / of_int r :: rat)"
  define q where "q = rnd x"
  define p where "p = rnd (q * of_int r)"
  have r: "(1::rat) \<le> of_int r" "(of_int r :: rat) \<le> 2 ^ 49"
  proof -
    show "(1::rat) \<le> of_int r" using assms by simp
    have "(of_int r :: rat) \<le> of_int (2 ^ 49)" using assms(4) by (simp only: of_int_le_iff)
    then show "(of_int r :: rat) \<le> 2 ^ 49" by simp
  qed
  have xr: "x * of_int r = of_int n" using assms by (simp add: x_def)
  have low: "(2::rat) powi (- 49) \<le> x" and x: "0 \<le> x" "x \<le> 1"
    using small_rat [OF assms] False by (simp_all add: x_def)
  have q_err: "\<bar>q - x\<bar> \<le> x / 2 ^ 53"
    unfolding q_def using low powi_two_le [of "- 1022" "- 49"] by (intro rnd_error) linarith
  have "\<bar>(q - x) * of_int r\<bar> \<le> x / 2 ^ 53 * of_int r"
    using q_err r by (simp add: abs_mult mult_right_mono)
  then have qr_err: "\<bar>q * of_int r - of_int n\<bar> \<le> of_int n / 2 ^ 53"
    using xr by (simp add: left_diff_distrib)
  have n: "(1::rat) \<le> of_int n" "(of_int n :: rat) \<le> 2 ^ 49"
    using assms False r(2) by (auto intro: order_trans [of _ "of_int r"])
  have half: "1 / 2 \<le> q * of_int r" and big: "q * of_int r \<le> 2 ^ 50"
    using abs_le_D1 [OF qr_err] abs_le_D2 [OF qr_err] n by simp_all
  have "(2::rat) powi (- 1022) \<le> 2 powi (- 1)" by (rule powi_two_le) simp
  then have "(2::rat) powi (- 1022) \<le> q * of_int r" using half by simp
  then have pq_err: "\<bar>p - q * of_int r\<bar> \<le> q * of_int r / 2 ^ 53"
    unfolding p_def by (rule rnd_error)
  have "q * of_int r / 2 ^ 53 \<le> 1 / 8" using big by simp
  moreover have "of_int n / (2::rat) ^ 53 \<le> 1 / 16" using n(2) by (simp add: divide_le_eq)
  ultimately have p_err: "\<bar>p - of_int n\<bar> \<le> 1 / 4" using pq_err qr_err by linarith
  then have "0 \<le> p" using n by linarith
  have floor: "\<lfloor>p + 1 / 2\<rfloor> = n" using p_err by (intro floor_unique) linarith+
  have "round64 (q * of_int r) = Fin p"
    unfolding p_def using half big by (intro round64_small) (auto intro: order_trans)
  moreover have "rate_of n r = Fin q"
    using rate_of_Fin [OF assms] by (simp add: q_def x_def)
  moreover have "n < 2 ^ 63 - 1" using assms by simp
  ultimately show ?thesis
    using assms \<open>0 \<le> p\<close> floor by (simp add: f64_of_int_exact round_away_def)
qed

section \<open>Properties\<close>

text \<open>
  C38. Every write that is combined leaves a manifest in order: its files in path order with the hash
  over them, its row count the sum of its files' rows, the rules it breaks those its failures and
  decisions say, and valid exactly when it breaks none.
\<close>

theorem after_write_manifest_ok:
  assumes "after_write H J c before write t snapshot = Inr (Some m)"
    and "\<And>b. before = Some b \<Longrightarrow> rows_counted b" and "rows_counted (wf_facts write)"
  shows "manifest_ok H c m"
  using assms(1)
proof (cases rule: after_write_Some_cases)
  case fresh
  then show ?thesis
    using assms(3) after_write_same [OF assms(1)]
    by (auto intro!: finished_ok simp: same_compilation_def rows_counted_def)
next
  case (append b)
  then show ?thesis
    using assms(2,3) after_write_same [OF assms(1)]
    by (auto intro!: finished_ok appended_counted simp: same_compilation_def)
      (simp add: appended_def Let_def)
next
  case (rewrite b m')
  then show ?thesis
    using assms(2,3) rewritten_Inr [OF rewrite(4)]
    by (auto intro!: finished_ok simp: same_compilation_def)
qed

text \<open>
  What a write does to what is known: an append adds its rows and, assert by assert, its failures,
  and carries every guarantee's last decision forward; an overwrite forgets all that was known; a
  rewrite changes nothing but the list of files.
\<close>

theorem after_write_effect:
  assumes "after_write H J c before write t snapshot = Inr (Some m)"
    and "\<And>b. before = Some b \<Longrightarrow> rows_counted b" and "rows_counted (wf_facts write)"
  shows "(wf_written write = Append \<and> before = Some b \<longrightarrow>
            m_row_count m = m_row_count b + m_row_count (wf_facts write)
          \<and> (\<forall>a \<in> set (val_asserts c). bt_get_or 0 (m_failures m) a
               = bt_get_or 0 (m_failures b) a + bt_get_or 0 (m_failures (wf_facts write)) a)
          \<and> m_guarantees m = m_guarantees b
          \<and> set (m_files m) = set (m_files b) \<union> set (m_files (wf_facts write)))
       \<and> (wf_written write = Overwrite \<longrightarrow>
            m_row_count m = m_row_count (wf_facts write) \<and> m_failures m = m_failures (wf_facts write)
          \<and> m_guarantees m = [] \<and> set (m_files m) = set (m_files (wf_facts write)))
       \<and> (wf_written write = Rewrite \<and> before = Some b \<longrightarrow>
            m_row_count m = m_row_count b \<and> m_failures m = m_failures b
          \<and> m_guarantees m = m_guarantees b \<and> m_stats m = m_stats b
          \<and> set (m_files m) = {f \<in> set (m_files b). f_path f \<notin> set (wf_removed write)}
              \<union> set (m_files (wf_facts write)))"
  using assms(1)
proof (cases rule: after_write_Some_cases)
  case fresh
  then show ?thesis by auto
next
  case (append b')
  then show ?thesis by (auto simp: appended_def Let_def bt_get_or_of_map)
next
  case (rewrite b' m')
  then show ?thesis using assms(2,3) rewritten_Inr [OF rewrite(4)] by auto
qed

text \<open>
  Only a rewrite can fail to be combined: appends and overwrites always give facts, or say that
  nothing is known because the contract was compiled differently on one of the two sides.
\<close>

theorem after_write_errors:
  "(\<exists>e. after_write H J c before write t snapshot = Inl e) \<longleftrightarrow>
     same_compilation c (wf_facts write) \<and> wf_written write = Rewrite
   \<and> (before = None \<or> (\<exists>b. before = Some b \<and> same_compilation c b
        \<and> (length (filter (\<lambda>f. f_path f \<in> set (wf_removed write)) (m_files b))
             \<noteq> card (set (wf_removed write))
           \<or> sum_list (map f_rows (filter (\<lambda>f. f_path f \<in> set (wf_removed write)) (m_files b)))
             \<noteq> m_row_count (wf_facts write))))"
  by (cases "wf_written write"; cases before)
     (auto simp: after_write_def known_before_def rewritten_def Let_def and_then_eq_Inl
        length_remdups_card_conv split: if_splits)

lemma null_rate_ok:
  assumes "0 \<le> n" "n \<le> r" "r \<le> 2 ^ 49"
  shows "\<exists>x. null_rate n r = Fin x \<and> f64_ok (Fin x)"
proof (cases "0 < r")
  case True
  have "0 \<le> rnd (of_int n / of_int r)" "rnd (of_int n / of_int r) \<le> 1"
    using small_rat(1,2) [OF assms(1,2) True assms(3)] by (auto intro: rnd_nonneg rnd_le_one)
  then have "\<bar>rnd (of_int n / of_int r)\<bar> < 2 ^ 1024" by (simp add: abs_le_iff)
  with True show ?thesis using rate_of_Fin [OF assms(1,2) True assms(3)]
    by (simp add: null_rate_def f64_ok_def)
qed (use f64_ok_numeral in \<open>auto simp: null_rate_def\<close>)

text \<open>
  C39. The null rate a write leaves behind is, bit for bit, the rate of the rows taken together: the
  counts behind the two rounded rates are recovered exactly, up to \<open>2^49\<close> rows.
\<close>

theorem combined_null_rate_exact:
  assumes "stat_laws J" and "st_field s = ColumnField column NullRate"
    and "map_of (m_stats a) (st_column s) = Some (json_f64 J (null_rate na (m_row_count a)))"
    and "map_of (m_stats b) (st_column s) = Some (json_f64 J (null_rate nb (m_row_count b)))"
    and "0 \<le> na" "na \<le> m_row_count a" "m_row_count a \<le> 2 ^ 49"
    and "0 \<le> nb" "nb \<le> m_row_count b" "m_row_count b \<le> 2 ^ 49"
    and "rows = m_row_count a + m_row_count b"
  shows "combined_stat J a b rows failures s = Some (json_f64 J (null_rate (na + nb) rows))"
proof -
  have recover: "nulls_of_rate J (json_f64 J (null_rate n r)) r = Some n"
    if nr: "0 \<le> n" "n \<le> r" "r \<le> 2 ^ 49" for n r
  proof -
    obtain x where x: "null_rate n r = Fin x" "f64_ok (Fin x)" using null_rate_ok [of n r] nr by blast
    with assms(1) have "nulls_of_rate J (json_f64 J (null_rate n r)) r
        = Some (f64_round_i64 (f64_mul (null_rate n r) (f64_of_int r)))"
      by (simp add: nulls_of_rate_def stat_laws_def)
    also have "f64_round_i64 (f64_mul (null_rate n r) (f64_of_int r)) = n"
    proof (cases "0 < r")
      case True
      then show ?thesis using nulls_recovered [OF nr(1,2) True nr(3)] by (simp add: null_rate_def)
    next
      case False
      moreover have "\<lfloor>1 / 2 :: rat\<rfloor> = 0" by (rule floor_unique) simp_all
      ultimately show ?thesis using nr by (simp add: null_rate_def f64_of_int_exact round_away_def)
    qed
    finally show ?thesis .
  qed
  show ?thesis
    using assms(2-) recover [of na "m_row_count a"] recover [of nb "m_row_count b"]
    by (simp add: combined_stat_def opt2_def null_rate_def)
qed

section \<open>Two concrete writes\<close>

text \<open>
  Ten rows, one of them breaking the deny-level assert; then four rows more, none of them breaking.
\<close>

datatype ex_json = JNull | JInt int | JF64 f64 | JStr string

definition ex_api :: "ex_json stat_api" where
  "ex_api = \<lparr>is_null = (\<lambda>j. j = JNull),
     as_i64 = (\<lambda>j. case j of JInt i \<Rightarrow> Some i | _ \<Rightarrow> None),
     as_u64 = (\<lambda>j. case j of JInt i \<Rightarrow> if 0 \<le> i then Some (nat i) else None | _ \<Rightarrow> None),
     as_f64 = (\<lambda>j. case j of JF64 x \<Rightarrow> Some x | JInt i \<Rightarrow> Some (f64_of_int i) | _ \<Rightarrow> None),
     as_str = (\<lambda>j. case j of JStr s \<Rightarrow> Some s | _ \<Rightarrow> None), as_bool = (\<lambda>j. None),
     json_int = JInt, json_f64 = JF64,
     parse_decimal = (\<lambda>s scale. None), parse_rfc3339 = (\<lambda>s. None)\<rparr>"

lemma ex_api_laws: "stat_laws ex_api"
  by (simp add: stat_laws_def ex_api_def)

definition ex_entry :: "string \<Rightarrow> int \<Rightarrow> file_entry" where
  "ex_entry p n = \<lparr>f_path = p, f_rows = n, f_bytes = 100, f_contract_hash = ''h1'',
     f_flags = [(''fa'', AllPass), (''fb'', Mixed)], f_null_counts = [(''x'', 0)], f_sha256 = p\<rparr>"

definition ex_facts :: "file_entry list \<Rightarrow> int \<Rightarrow> int \<Rightarrow> int \<Rightarrow> ex_json manifest" where
  "ex_facts fs rows failed nulls = \<lparr>m_contract = ''t/orders'', m_contract_hash = ''h1'',
     m_compilation_hash = ''k1'', m_written_at = 7, m_row_count = rows,
     m_failures = [(''a'', 0), (''b'', failed)], m_valid = (failed = 0), m_breached = [],
     m_guarantees = [], m_stats = [(''x_null_rate'', JF64 (null_rate nulls rows))],
     m_data_hash = '''', m_row_schema = [], m_files = fs, m_snapshot = None\<rparr>"

definition ex_before :: "ex_json manifest" where
  "ex_before = (ex_facts [ex_entry ''f1'' 10] 10 1 2)
     \<lparr>m_guarantees := [(''g'', \<lparr>holds = True, check_snapshot = None, decided_at = 5\<rparr>)]\<rparr>"

definition ex_append :: "ex_json write_facts" where
  "ex_append = \<lparr>wf_written = Append, wf_facts = ex_facts [ex_entry ''f0'' 4] 4 0 1, wf_removed = []\<rparr>"

definition ex_after :: "ex_json manifest" where
  "ex_after = finished (\<lambda>s. s) ex_compilation (Some 3)
     (appended ex_api ex_compilation ex_before (wf_facts ex_append) 9)"

lemma ex_append_run:
  "after_write (\<lambda>s. s) ex_api ex_compilation (Some ex_before) ex_append 9 (Some 3) = Inr (Some ex_after)"
  by (simp add: after_write_def known_before_def same_compilation_def ex_append_def ex_facts_def
      ex_before_def ex_contract_simps ex_after_def)

lemma ex_counted: "rows_counted ex_before" "rows_counted (wf_facts ex_append)"
  by (simp_all add: rows_counted_def ex_before_def ex_append_def ex_facts_def ex_entry_def)

theorem after_write_manifest_ok_witness: "manifest_ok (\<lambda>s. s) ex_compilation ex_after"
  using after_write_manifest_ok [OF ex_append_run] ex_counted by simp

theorem after_write_effect_witness:
  "m_row_count ex_after = 14 \<and> bt_get_or 0 (m_failures ex_after) ''b'' = 1
   \<and> m_guarantees ex_after = m_guarantees ex_before"
  using after_write_effect [OF ex_append_run, of ex_before] ex_counted
  by (simp add: ex_append_def ex_before_def ex_facts_def ex_contract_simps bt_get_or_def)

theorem combined_null_rate_exact_witness:
  "combined_stat ex_api ex_before (wf_facts ex_append) 14 []
     \<lparr>st_column = ''x_null_rate'', st_field = ColumnField ''x'' NullRate, st_ty = TyDouble\<rparr>
   = Some (JF64 (null_rate 3 14))"
  using combined_null_rate_exact [OF ex_api_laws,
      of "\<lparr>st_column = ''x_null_rate'', st_field = ColumnField ''x'' NullRate, st_ty = TyDouble\<rparr>" "''x''"
         ex_before 2 "wf_facts ex_append" 1 14 "[]"]
  by (simp add: ex_before_def ex_append_def ex_facts_def ex_api_def)

theorem after_write_errors_witness:
  "\<exists>e. after_write (\<lambda>s. s) ex_api ex_compilation (Some ex_before)
     (ex_append\<lparr>wf_written := Rewrite, wf_removed := [''f9'']\<rparr>) 9 None = Inl e"
  unfolding after_write_errors
  by (simp add: ex_append_def ex_before_def ex_facts_def ex_entry_def ex_contract_simps same_compilation_def)

end
