(* ===== verification/Budget.thy ===== *)
theory Budget
  imports Manifest Float64
begin

text \<open>
  The privacy budget ledger (\<open>src/budget.rs\<close>): epsilon spent per caller per named budget, with
  limits, in memory or in a JSON file. Every operation runs under the store's lock, so a history of a
  store is a sequence of operations. The JSON library and the outcome of the file's replacement are
  parameters.
\<close>

section \<open>The ledger\<close>

definition DEFAULT_LIMIT :: f64 where
  "DEFAULT_LIMIT = Fin 10"

text \<open>The literal \<open>1e-12\<close>: the double nearest to it.\<close>

definition slack :: f64 where
  "slack = round64 (1 / 10 ^ 12)"

record ledger =
  limits :: "(string, f64) btmap"
  spent :: "(string, f64) btmap"

record budget_store =
  bs_ledger :: ledger
  bs_file :: "string option"
  default_limit :: f64
  permissive :: bool

definition empty_ledger :: ledger where
  "empty_ledger = \<lparr>limits = [], spent = []\<rparr>"

definition default_store :: budget_store where
  "default_store = \<lparr>bs_ledger = empty_ledger, bs_file = None, default_limit = DEFAULT_LIMIT,
     permissive = False\<rparr>"

definition in_memory :: budget_store where
  "in_memory = default_store"

definition permissive_store :: budget_store where
  "permissive_store = default_store\<lparr>permissive := True\<rparr>"

text \<open>The key of one caller's spending from one budget: \<open>budget\u{1f}caller\<close>.\<close>

definition spent_key :: "string \<Rightarrow> string \<Rightarrow> string" where
  "spent_key caller budget = budget @ CHR 0x1F # caller"

definition limit_of :: "budget_store \<Rightarrow> string \<Rightarrow> f64" where
  "limit_of s budget = bt_get_or (default_limit s) (limits (bs_ledger s)) budget"

definition spent_of :: "budget_store \<Rightarrow> string \<Rightarrow> string \<Rightarrow> f64" where
  "spent_of s caller budget = bt_get_or (Fin 0) (spent (bs_ledger s)) (spent_key caller budget)"

section \<open>The file\<close>

record ledger_codec =
  to_string_pretty :: "ledger \<Rightarrow> string + string"
  from_str :: "string \<Rightarrow> string + ledger"

definition open_store :: "ledger_codec \<Rightarrow> fs \<Rightarrow> string \<Rightarrow> budget_store res" where
  "open_store J d path =
     (case d path of
        Some (Bytes t) \<Rightarrow>
          (case from_str J t of
             Inl e \<Rightarrow> Inl (Invalid (path @ '': '' @ e))
           | Inr l \<Rightarrow> Inr (default_store\<lparr>bs_ledger := l, bs_file := Some path\<rparr>))
      | None \<Rightarrow> Inr (default_store\<lparr>bs_file := Some path\<rparr>)
      | Some (Unreadable e) \<Rightarrow> Inl (Io e))"

text \<open>\<open>save\<close>; \<open>w\<close> is the error of the whole-file write, which then leaves the file as it was.\<close>

definition save_ledger ::
  "ledger_codec \<Rightarrow> string option \<Rightarrow> fs \<Rightarrow> budget_store \<Rightarrow> fs res" where
  "save_ledger J w d s =
     (case bs_file s of
        None \<Rightarrow> Inr d
      | Some path \<Rightarrow>
          (case to_string_pretty J (bs_ledger s) of
             Inl e \<Rightarrow> Inl (Invalid e)
           | Inr t \<Rightarrow> (case w of Some e \<Rightarrow> Inl (Io e) | None \<Rightarrow> Inr (d(path \<mapsto> Bytes t)))))"

section \<open>Operations\<close>

definition set_limit ::
  "ledger_codec \<Rightarrow> string option \<Rightarrow> fs \<Rightarrow> budget_store \<Rightarrow> string \<Rightarrow> f64 \<Rightarrow> budget_store \<times> fs res" where
  "set_limit J w d s budget epsilon =
     (let l = bs_ledger s;
          s' = s\<lparr>bs_ledger := l\<lparr>limits := bt_insert budget epsilon (limits l)\<rparr>\<rparr>
      in (s', save_ledger J w d s'))"

text \<open>The first charge the ledger refuses.\<close>

definition over_limit :: "budget_store \<Rightarrow> string \<Rightarrow> string \<times> f64 \<Rightarrow> bool" where
  "over_limit s caller charge =
     (case charge of (budget, epsilon) \<Rightarrow>
        \<not> permissive s
      \<and> f64_lt (f64_add (limit_of s budget) slack) (f64_add (spent_of s caller budget) epsilon))"

text \<open>One turn of the second loop: add the charge, and say what is left of its budget.\<close>

definition pay ::
  "string \<Rightarrow> string \<times> f64 \<Rightarrow> budget_store \<times> (string, f64) btmap \<Rightarrow> budget_store \<times> (string, f64) btmap" where
  "pay caller charge st =
     (case (charge, st) of ((budget, epsilon), (s, left)) \<Rightarrow>
        let total = f64_add (spent_of s caller budget) epsilon;
            l = bs_ledger s;
            s' = s\<lparr>bs_ledger := l\<lparr>spent := bt_insert (spent_key caller budget) total (spent l)\<rparr>\<rparr>
        in (s', bt_insert budget (f64_max (f64_sub (limit_of s budget) total) (Fin 0)) left))"

text \<open>
  \<open>charge_all\<close>: the store afterwards, and its answer with the disk. The ledger in memory stays
  charged when the file cannot be replaced.
\<close>

definition charge_all ::
  "ledger_codec \<Rightarrow> string option \<Rightarrow> fs \<Rightarrow> budget_store \<Rightarrow> string \<Rightarrow> (string \<times> f64) list
     \<Rightarrow> budget_store \<times> (fs \<times> (string, f64) btmap) res" where
  "charge_all J w d s caller charges =
     (case find (over_limit s caller) charges of
        Some (budget, _) \<Rightarrow> (s, Inl (BudgetExhausted budget))
      | None \<Rightarrow>
          (let (s', left) = fold (pay caller) charges (s, [])
           in (s', and_then (save_ledger J w d s') (\<lambda>d'. Inr (d', left)))))"

section \<open>Lemmas\<close>

text \<open>A budget's name has no unit separator, which keeps the keys of different budgets apart.\<close>

definition plain_budget :: "string \<Rightarrow> bool" where
  "plain_budget b \<longleftrightarrow> CHR 0x1F \<notin> set b"

lemma spent_key_inj:
  "plain_budget b \<Longrightarrow> plain_budget b' \<Longrightarrow>
     spent_key c b = spent_key c' b' \<longleftrightarrow> c = c' \<and> b = b'"
  using split_at_first [of b "CHR 0x1F" c b' c'] by (auto simp: spent_key_def plain_budget_def)

lemma pay_simps [simp]:
  "limit_of (fst (pay c ch st)) b = limit_of (fst st) b"
  "permissive (fst (pay c ch st)) = permissive (fst st)"
  "bs_file (fst (pay c ch st)) = bs_file (fst st)"
  "default_limit (fst (pay c ch st)) = default_limit (fst st)"
  by (auto simp: pay_def Let_def limit_of_def split: prod.splits)

lemma spent_pay:
  "plain_budget (fst ch) \<Longrightarrow> plain_budget b \<Longrightarrow>
     spent_of (fst (pay c ch st)) c' b
       = (if c' = c \<and> b = fst ch then f64_add (spent_of (fst st) c b) (snd ch) else spent_of (fst st) c' b)"
  by (cases ch; cases st) (auto simp: pay_def Let_def spent_of_def spent_key_inj)

lemma left_pay:
  "map_of (snd (pay c ch st)) b =
     (if b = fst ch
      then Some (f64_max (f64_sub (limit_of (fst st) b) (f64_add (spent_of (fst st) c b) (snd ch))) (Fin 0))
      else map_of (snd st) b)"
  by (cases ch; cases st) (auto simp: pay_def Let_def)

lemma fold_pay_simps [simp]:
  "limit_of (fst (fold (pay c) chs st)) b = limit_of (fst st) b"
  "permissive (fst (fold (pay c) chs st)) = permissive (fst st)"
  "bs_file (fst (fold (pay c) chs st)) = bs_file (fst st)"
  "default_limit (fst (fold (pay c) chs st)) = default_limit (fst st)"
  by (induction chs arbitrary: st) auto

text \<open>What paying a list of charges adds up to: the charges of one budget, one after another.\<close>

definition charged :: "(string \<times> f64) list \<Rightarrow> string \<Rightarrow> f64 \<Rightarrow> f64" where
  "charged chs b x = fold (\<lambda>ch acc. if fst ch = b then f64_add acc (snd ch) else acc) chs x"

lemma spent_fold_pay:
  "\<forall>ch \<in> set chs. plain_budget (fst ch) \<Longrightarrow> plain_budget b \<Longrightarrow>
     spent_of (fst (fold (pay c) chs st)) c' b
       = (if c' = c then charged chs b (spent_of (fst st) c b) else spent_of (fst st) c' b)"
  by (induction chs arbitrary: st) (auto simp: spent_pay charged_def)

lemma charged_none: "b \<notin> fst ` set chs \<Longrightarrow> charged chs b x = x"
  by (induction chs arbitrary: x) (auto simp: charged_def)

lemma charged_once:
  "distinct (map fst chs) \<Longrightarrow> (b, e) \<in> set chs \<Longrightarrow> charged chs b x = f64_add x e"
proof (induction chs arbitrary: x)
  case (Cons ch chs)
  show ?case
  proof (cases "fst ch = b")
    case True
    with Cons.prems have "ch = (b, e)" "b \<notin> fst ` set chs" by (auto simp: image_iff)
    then show ?thesis using charged_none [of b chs] by (simp add: charged_def)
  next
    case False
    with Cons.prems have "(b, e) \<in> set chs" by auto
    with False Cons show ?thesis by (simp add: charged_def)
  qed
qed simp

lemma charge_all_Inr:
  assumes "charge_all J w d s c chs = (s', Inr (d', left))"
  shows "find (over_limit s c) chs = None" and "s' = fst (fold (pay c) chs (s, []))"
    and "left = snd (fold (pay c) chs (s, []))" and "save_ledger J w d s' = Inr d'"
  using assms
  by (auto simp: charge_all_def and_then_eq_Inr split: option.splits prod.splits)

lemma charge_all_store:
  "find (over_limit s c) chs = None \<Longrightarrow>
     fst (charge_all J w d s c chs) = fst (fold (pay c) chs (s, []))"
  by (simp add: charge_all_def split: prod.splits)

lemma charge_all_refused:
  "find (over_limit s c) chs = Some (b, e) \<Longrightarrow>
     charge_all J w d s c chs = (s, Inl (BudgetExhausted b))"
by (simp add: charge_all_def)

text \<open>No budget a caller spends from is past its limit (and the rounding slack).\<close>

definition in_limits :: "budget_store \<Rightarrow> bool" where
  "in_limits s \<longleftrightarrow> (\<forall>b c. plain_budget b \<longrightarrow> f64_le (spent_of s c b) (f64_add (limit_of s b) slack))"

definition fair_charges :: "(string \<times> f64) list \<Rightarrow> bool" where
  "fair_charges chs \<longleftrightarrow> distinct (map fst chs)
     \<and> list_all (\<lambda>ch. plain_budget (fst ch) \<and> (case snd ch of Fin x \<Rightarrow> 0 \<le> x | _ \<Rightarrow> False)) chs"

lemma fair_charges_plain: "fair_charges chs \<Longrightarrow> \<forall>ch \<in> set chs. plain_budget (fst ch)"
  by (auto simp: fair_charges_def list_all_iff)

lemma in_limits_pays:
  assumes "in_limits s" and "\<not> permissive s" and "fair_charges chs"
    and "find (over_limit s c) chs = None"
  shows "in_limits (fst (fold (pay c) chs (s, [])))"
  unfolding in_limits_def
proof (intro allI impI)
  fix b c'
  assume b: "plain_budget b"
  show "f64_le (spent_of (fst (fold (pay c) chs (s, []))) c' b)
    (f64_add (limit_of (fst (fold (pay c) chs (s, []))) b) slack)"
  proof (cases "c' = c \<and> b \<in> fst ` set chs")
    case False
    then show ?thesis
      using assms(1) b spent_fold_pay [OF fair_charges_plain [OF assms(3)] b, of c "(s, [])" c']
      by (auto simp: in_limits_def charged_none)
  next
    case True
    then obtain e where e: "(b, e) \<in> set chs" by auto
    then obtain x where x: "e = Fin x"
      using assms(3) by (cases e) (auto simp: fair_charges_def list_all_iff)
    have le: "f64_le (spent_of s c b) (f64_add (limit_of s b) slack)"
      using assms(1) b by (auto simp: in_limits_def)
    have "\<not> over_limit s c (b, e)" using assms(4) e by (auto simp: find_None_iff)
    then have "\<not> f64_lt (f64_add (limit_of s b) slack) (f64_add (spent_of s c b) e)"
      using assms(2) by (simp add: over_limit_def)
    then have "f64_le (f64_add (spent_of s c b) e) (f64_add (limit_of s b) slack)"
      using f64_le_not_NaN [OF le] f64_add_Fin_not_NaN [of "spent_of s c b" x] x
      by (simp add: f64_not_lt)
    moreover have "distinct (map fst chs)" using assms(3) by (simp add: fair_charges_def)
    ultimately show ?thesis
      using True spent_fold_pay [OF fair_charges_plain [OF assms(3)] b, of c "(s, [])" c']
      by (simp add: charged_once [OF _ e])
  qed
qed

lemma left_fold_pay:
  assumes "distinct (map fst chs)" and "\<forall>ch \<in> set chs. plain_budget (fst ch)"
  shows "map_of (snd (fold (pay c) chs st)) b =
     (if b \<in> fst ` set chs
      then Some (f64_max (f64_sub (limit_of (fst st) b) (charged chs b (spent_of (fst st) c b))) (Fin 0))
      else map_of (snd st) b)"
  using assms
proof (induction chs arbitrary: st)
  case (Cons ch chs)
  then have IH: "map_of (snd (fold (pay c) chs (pay c ch st))) b =
     (if b \<in> fst ` set chs
      then Some (f64_max (f64_sub (limit_of (fst (pay c ch st)) b)
             (charged chs b (spent_of (fst (pay c ch st)) c b))) (Fin 0))
      else map_of (snd (pay c ch st)) b)" by auto
  show ?case
  proof (cases "b = fst ch")
    case True
    with Cons.prems have "b \<notin> fst ` set chs" by auto
    with True IH charged_none [of b chs] show ?thesis by (simp add: left_pay charged_def)
  next
    case False
    with Cons.prems have "b \<in> fst ` set chs \<Longrightarrow> plain_budget b" by auto
    with False IH Cons.prems show ?thesis by (auto simp: left_pay spent_pay charged_def)
  qed
qed simp

lemma in_limits_charge_all:
  assumes "in_limits s" and "\<not> permissive s" and "fair_charges chs"
  shows "in_limits (fst (charge_all J w d s c chs)) \<and> \<not> permissive (fst (charge_all J w d s c chs))"
proof (cases "find (over_limit s c) chs")
  case None
  then show ?thesis using in_limits_pays [OF assms None] assms(2) by (simp add: charge_all_store)
next
  case (Some ch)
  then show ?thesis using assms by (cases ch) (simp add: charge_all_refused)
qed

text \<open>A history of the store: one call after another, each with the outcome of its file write.\<close>

fun charge_run ::
  "ledger_codec \<Rightarrow> fs \<times> budget_store \<Rightarrow> (string option \<times> string \<times> (string \<times> f64) list) list
     \<Rightarrow> fs \<times> budget_store" where
  "charge_run J (d, s) [] = (d, s)"
| "charge_run J (d, s) ((w, c, chs) # calls) =
     (case charge_all J w d s c chs of
        (s', Inr (d', _)) \<Rightarrow> charge_run J (d', s') calls
      | (s', Inl _) \<Rightarrow> charge_run J (d, s') calls)"

lemma slack_bounds: "\<exists>q. slack = Fin q \<and> 0 \<le> q \<and> q \<le> 1"
proof -
  define e :: rat where "e = 1 / 10 ^ 12"
  have e: "0 \<le> e" "e \<le> 1" by (simp_all add: e_def)
  have "(1::rat) \<le> 2 ^ 1000" by simp
  then have "e \<le> 2 ^ 1000" using e(2) by (rule order_trans [rotated])
  then have "slack = Fin (rnd e)" unfolding slack_def e_def [symmetric] using e(1) by (intro round64_small) simp
  moreover have "rnd e \<le> 1" using rnd_mono [OF e(2)] rnd_of_int [of 1] by simp
  ultimately show ?thesis using rnd_nonneg [OF e(1)] by blast
qed

lemma slack_limit: "f64_le (f64_add (Fin 10) slack) (Fin 11)" "f64_le (Fin 10) (f64_add (Fin 10) slack)"
proof -
  obtain q where q: "slack = Fin q" "0 \<le> q" "q \<le> 1" using slack_bounds by blast
  show "f64_le (f64_add (Fin 10) slack) (Fin 11)" "f64_le (Fin 10) (f64_add (Fin 10) slack)"
    unfolding q(1) using round64_mono [of "10 + q" 11] round64_mono [of 10 "10 + q"] q(2,3) by simp_all
qed

text \<open>The values a JSON number can hold.\<close>

definition finite_ledger :: "ledger \<Rightarrow> bool" where
  "finite_ledger l \<longleftrightarrow>
     list_all (\<lambda>e. case snd e of Fin x \<Rightarrow> True | _ \<Rightarrow> False) (limits l @ spent l)"

text \<open>
  What the JSON library documents: finite numbers are read back as written; a not-a-number or an
  infinity is written as \<open>null\<close>, which is not read as a number.
\<close>

definition ledger_laws :: "ledger_codec \<Rightarrow> bool" where
  "ledger_laws J \<longleftrightarrow> (\<forall>l t. to_string_pretty J l = Inr t \<longrightarrow>
     (if finite_ledger l then from_str J t = Inr l else (\<exists>e. from_str J t = Inl e)))"

lemma save_ledger_file:
  "bs_file s = Some path \<Longrightarrow> save_ledger J w d s = Inr d' \<Longrightarrow>
     \<exists>t. to_string_pretty J (bs_ledger s) = Inr t \<and> d' = d(path \<mapsto> Bytes t)"
  by (auto simp: save_ledger_def split: sum.splits option.splits)

lemma open_saved:
  assumes "ledger_laws J" and "bs_file s = Some path" and "save_ledger J w d s = Inr d'"
  shows "if finite_ledger (bs_ledger s)
         then open_store J d' path = Inr (default_store\<lparr>bs_ledger := bs_ledger s, bs_file := Some path\<rparr>)
         else \<exists>e. open_store J d' path = Inl (Invalid e)"
proof -
  obtain t where t: "to_string_pretty J (bs_ledger s) = Inr t" "d' = d(path \<mapsto> Bytes t)"
    using save_ledger_file [OF assms(2,3)] by auto
  then have "if finite_ledger (bs_ledger s) then from_str J t = Inr (bs_ledger s)
      else (\<exists>e. from_str J t = Inl e)"
    using assms(1) by (simp add: ledger_laws_def)
  then show ?thesis by (auto simp: open_store_def t(2) split: if_splits)
qed

section \<open>Properties\<close>

text \<open>
  A charge is refused exactly when some budget's spending plus its charge passes the limit, with
  the first such budget, and then nothing is charged and nothing is written: all or none.
\<close>

theorem charge_all_refusal:
  "(\<exists>b. charge_all J w d s c chs = (s, Inl (BudgetExhausted b)) \<and> b \<in> fst ` set chs)
     \<longleftrightarrow> list_ex (over_limit s c) chs"
proof (cases "find (over_limit s c) chs")
  case None
  then have "snd (charge_all J w d s c chs) \<noteq> Inl (BudgetExhausted b)" for b
    by (auto simp: charge_all_def save_ledger_def and_then_eq_Inl split: option.splits prod.splits sum.splits)
  moreover have "\<not> list_ex (over_limit s c) chs" using None by (auto simp: find_None_iff list_ex_iff)
  ultimately show ?thesis by (metis snd_conv)
next
  case (Some ch)
  then have "ch \<in> set chs" "over_limit s c ch" by (auto simp: find_Some_iff)
  with Some show ?thesis by (cases ch) (force simp: charge_all_refused list_ex_iff)
qed

text \<open>
  A charge that is accepted adds exactly its epsilons to the caller's spending and nobody
  else's, and answers what is left of each budget, never less than nothing.
\<close>

theorem charge_all_effect:
  assumes "charge_all J w d s c chs = (s', Inr (d', left))" and "fair_charges chs" and "plain_budget b"
  shows "spent_of s' c' b =
      (if c' = c \<and> b \<in> fst ` set chs then f64_add (spent_of s c b) (the (map_of chs b)) else spent_of s c' b)
    \<and> map_of left b =
      (if b \<in> fst ` set chs then Some (f64_max (f64_sub (limit_of s b) (spent_of s' c b)) (Fin 0)) else None)
    \<and> limit_of s' b = limit_of s b"
proof -
  note run = charge_all_Inr [OF assms(1)] and plain = fair_charges_plain [OF assms(2)]
  have dist: "distinct (map fst chs)" using assms(2) by (simp add: fair_charges_def)
  have "charged chs b x = f64_add x (the (map_of chs b))" if b: "b \<in> fst ` set chs" for x
  proof -
    obtain e where "(b, e) \<in> set chs" using b by auto
    then show ?thesis using dist charged_once [OF dist] by (simp add: map_of_is_SomeI)
  qed
  then show ?thesis
    using run(2,3) spent_fold_pay [OF plain assms(3), of c "(s, [])"] left_fold_pay [OF dist plain, of c "(s, [])" b]
    by (simp add: charged_none)
qed

lemma charge_all_unsaved:
  assumes "charge_all J w d s c chs = (s', Inl e)" and "\<And>b. e \<noteq> BudgetExhausted b"
  shows "s' = fst (fold (pay c) chs (s, []))"
  using assms by (auto simp: charge_all_def split: option.splits prod.splits)

text \<open>
  A charge whose ledger cannot be written is an error, and the caller pays for the answer they do not get: in
  memory each epsilon stays charged, while the file has none of them.
\<close>

theorem unsaved_charges_stay_charged:
  assumes "charge_all J w d s c chs = (s', Inl e)" and "\<And>b. e \<noteq> BudgetExhausted b"
    and "fair_charges chs" and "(b, x) \<in> set chs"
  shows "spent_of s' c b = f64_add (spent_of s c b) x"
proof -
  have dist: "distinct (map fst chs)" using assms(3) by (simp add: fair_charges_def)
  note plain = fair_charges_plain [OF assms(3)]
  have "charged chs b y = f64_add y x" for y using charged_once [OF dist] assms(4) by simp
  moreover have "plain_budget b" using plain assms(4) by force
  ultimately show ?thesis
    using charge_all_unsaved [OF assms(1,2)] spent_fold_pay [OF plain, of b c "(s, [])"] by simp
qed

text \<open>
  C29. Whatever the sequence of queries, callers and failed disk writes, no caller's spending passes
  a budget's limit (by more than the rounding slack of \<open>1e-12\<close>), as long as a query names each budget
  once.
\<close>

theorem budgets_never_overspent:
  assumes "in_limits s" and "\<not> permissive s"
    and "\<forall>(w, c, chs) \<in> set calls. fair_charges chs"
    and "charge_run J (d, s) calls = (d', s')"
  shows "in_limits s'"
  using assms
proof (induction calls arbitrary: d s)
  case (Cons call calls)
  obtain w c chs where call: "call = (w, c, chs)" by (cases call)
  obtain s1 r where r: "charge_all J w d s c chs = (s1, r)" by (cases "charge_all J w d s c chs")
  have "in_limits s1 \<and> \<not> permissive s1"
    using in_limits_charge_all [of s chs J w d c] Cons.prems r by (simp add: call)
  then show ?case
    using Cons.IH Cons.prems by (auto simp: call r split: sum.splits prod.splits)
qed simp

text \<open>
  Two charges of one budget in one query are each checked against the ledger alone: a query may
  spend 12 of a budget of 10.
\<close>

theorem charge_all_overspends:
  "\<exists>s' d' left. charge_all J w d in_memory ''t/c'' [(''b'', Fin 6), (''b'', Fin 6)] = (s', Inr (d', left))
     \<and> spent_of s' ''t/c'' ''b'' = Fin 12
     \<and> f64_lt (f64_add (limit_of s' ''b'') slack) (spent_of s' ''t/c'' ''b'')"
proof -
  have le: "f64_le (Fin 6) (f64_add (Fin 10) slack)"
    using slack_limit(2) by (rule f64_le_trans [of _ "Fin 10", rotated]) simp
  have lt: "f64_lt (f64_add (Fin 10) slack) (Fin 12)"
    using slack_limit(1) by (cases "f64_add (Fin 10) slack") (auto simp: f64_le_def f64_eq_def)
  have "f64_add (Fin 10) slack \<noteq> NaN" using f64_le_not_NaN [OF le] by simp
  with le have "\<not> f64_lt (f64_add (Fin 10) slack) (Fin 6)" by (simp add: f64_not_lt)
  then have no: "\<not> over_limit in_memory ''t/c'' (''b'', Fin 6)"
    by (simp add: over_limit_def limit_of_def spent_of_def in_memory_def default_store_def
        DEFAULT_LIMIT_def empty_ledger_def)
  obtain s' left where st: "fold (pay ''t/c'') [(''b'', Fin 6), (''b'', Fin 6)] (in_memory, []) = (s', left)"
    by (cases "fold (pay ''t/c'') [(''b'', Fin 6), (''b'', Fin 6)] (in_memory, [])")
  then have s': "s' = fst (fold (pay ''t/c'') [(''b'', Fin 6), (''b'', Fin 6)] (in_memory, []))" by simp
  have after: "spent_of s' ''t/c'' ''b'' = Fin 12" "limit_of s' ''b'' = Fin 10" "bs_file s' = None"
    unfolding s' by (simp_all add: spent_pay plain_budget_def)
      (simp_all add: spent_of_def limit_of_def in_memory_def default_store_def empty_ledger_def DEFAULT_LIMIT_def)
  have "charge_all J w d in_memory ''t/c'' [(''b'', Fin 6), (''b'', Fin 6)] = (s', Inr (d, left))"
    using no st after(3) by (simp add: charge_all_def save_ledger_def)
  with after lt show ?thesis by (intro exI [of _ s'] exI [of _ d] exI [of _ left]) simp
qed

text \<open>
  Spending survives a restart: the store opened from the file after an accepted charge knows
  what was spent and the limits.
\<close>

theorem charge_all_persists:
  assumes "ledger_laws J" and "bs_file s = Some path"
    and "charge_all J w d s c chs = (s', Inr (d', left))" and "finite_ledger (bs_ledger s')"
  shows "\<exists>t. open_store J d' path = Inr t \<and> (\<forall>c b. spent_of t c b = spent_of s' c b)
     \<and> limits (bs_ledger t) = limits (bs_ledger s')"
proof -
  note run = charge_all_Inr [OF assms(3)]
  then have "bs_file s' = Some path" using assms(2) by simp
  from open_saved [OF assms(1) this run(4)] assms(4)
  have "open_store J d' path = Inr (default_store\<lparr>bs_ledger := bs_ledger s', bs_file := Some path\<rparr>)" by simp
  then show ?thesis by (simp add: spent_of_def)
qed

text \<open>
  A limit that is no finite number (the command line takes \<open>inf\<close> and \<open>nan\<close>) is saved, and the
  ledger can then never be opened again.
\<close>

theorem infinite_limit_locks_out:
  assumes "ledger_laws J" and "bs_file s = Some path" and "\<forall>x. limit \<noteq> Fin x"
    and "set_limit J w d s b limit = (s', Inr d')"
  shows "\<exists>e. open_store J d' path = Inl (Invalid e)"
proof -
  from assms(4) have s': "s' = s\<lparr>bs_ledger := (bs_ledger s)\<lparr>limits := bt_insert b limit (limits (bs_ledger s))\<rparr>\<rparr>"
    and save: "save_ledger J w d s' = Inr d'"
    by (auto simp: set_limit_def Let_def)
  have "(b, limit) \<in> set (limits (bs_ledger s'))"
    using map_of_SomeD [of "limits (bs_ledger s')" b limit] by (simp add: s')
  then have "\<not> finite_ledger (bs_ledger s')"
    using assms(3) by (cases limit) (force simp: finite_ledger_def list_all_iff)+
  moreover have "bs_file s' = Some path" using assms(2) by (simp add: s')
  ultimately show ?thesis using open_saved [OF assms(1) _ save] by simp
qed

section \<open>A concrete ledger\<close>

text \<open>A codec that knows two ledgers: one charge of six, and a limit that is infinite.\<close>

definition ex_spent :: ledger where
  "ex_spent = \<lparr>limits = [], spent = [(spent_key ''t/c'' ''b'', Fin 6)]\<rparr>"

definition ex_infinite :: ledger where
  "ex_infinite = \<lparr>limits = [(''b'', PInf)], spent = []\<rparr>"

definition ex_ledgers :: ledger_codec where
  "ex_ledgers = \<lparr>to_string_pretty = (\<lambda>l. if l = ex_spent then Inr ''1'' else if l = ex_infinite then Inr ''2''
       else Inl ''other''),
     from_str = (\<lambda>t. if t = ''1'' then Inr ex_spent else Inl ''null'')\<rparr>"

lemma ex_ledgers_laws: "ledger_laws ex_ledgers"
proof -
  have "ex_spent \<noteq> ex_infinite" by (simp add: ex_spent_def ex_infinite_def)
  moreover have "finite_ledger ex_spent" "\<not> finite_ledger ex_infinite"
    by (simp_all add: finite_ledger_def ex_spent_def ex_infinite_def)
  ultimately show ?thesis by (auto simp: ledger_laws_def ex_ledgers_def split: if_splits)
qed

definition ex_store :: budget_store where
  "ex_store = default_store\<lparr>bs_file := Some ''p''\<rparr>"

lemma fresh_not_over:
  assumes "default_limit s = Fin 10" and "bs_ledger s = empty_ledger"
  shows "\<not> over_limit s c (b, Fin 6)"
proof -
  have "f64_le (Fin 6) (f64_add (Fin 10) slack)"
    using slack_limit(2) by (rule f64_le_trans [of _ "Fin 10", rotated]) simp
  then have "\<not> f64_lt (f64_add (Fin 10) slack) (Fin 6)"
    using f64_le_not_NaN f64_not_lt by blast
  then show ?thesis using assms by (simp add: over_limit_def limit_of_def spent_of_def empty_ledger_def)
qed

definition ex_charged :: budget_store where
  "ex_charged = ex_store\<lparr>bs_ledger := ex_spent\<rparr>"

lemma ex_charge_run:
  "\<exists>d' left. charge_all ex_ledgers None Map.empty ex_store ''t/c'' [(''b'', Fin 6)] = (ex_charged, Inr (d', left))"
proof -
  have no: "\<not> over_limit ex_store ''t/c'' (''b'', Fin 6)"
    by (rule fresh_not_over) (simp_all add: ex_store_def default_store_def DEFAULT_LIMIT_def)
  have "fst (pay ''t/c'' (''b'', Fin 6) (ex_store, [])) = ex_charged"
    by (simp add: pay_def Let_def spent_of_def ex_store_def default_store_def empty_ledger_def ex_charged_def
        ex_spent_def)
  then obtain left where "pay ''t/c'' (''b'', Fin 6) (ex_store, []) = (ex_charged, left)"
    by (metis prod.collapse)
  with no show ?thesis
    by (simp add: charge_all_def save_ledger_def ex_charged_def ex_store_def ex_ledgers_def)
qed

lemma ex_fair: "fair_charges [(''b'', Fin 6)]"
  by (simp add: fair_charges_def plain_budget_def)

theorem charge_all_effect_witness:
  "spent_of ex_charged ''t/c'' ''b'' = Fin 6 \<and> spent_of ex_charged ''t/d'' ''b'' = Fin 0"
proof -
  obtain d' left where "charge_all ex_ledgers None Map.empty ex_store ''t/c'' [(''b'', Fin 6)] = (ex_charged, Inr (d', left))"
    using ex_charge_run by blast
  from charge_all_effect [OF this ex_fair, of "''b''" "''t/c''"] charge_all_effect [OF this ex_fair, of "''b''" "''t/d''"]
  show ?thesis
    by (simp add: plain_budget_def) (simp add: spent_of_def ex_store_def default_store_def empty_ledger_def)
qed

theorem budgets_never_overspent_witness:
  "in_limits (snd (charge_run ex_ledgers (Map.empty, in_memory)
     [(None, ''t/c'', [(''b'', Fin 6)]), (Some ''full'', ''t/c'', [(''b'', Fin 6)])]))"
proof (rule budgets_never_overspent [OF _ _ _ surjective_pairing])
  have "f64_le (Fin 0) (f64_add (Fin 10) slack)"
    using slack_limit(2) by (rule f64_le_trans [of _ "Fin 10", rotated]) simp
  then show "in_limits in_memory"
    by (simp add: in_limits_def spent_of_def limit_of_def in_memory_def default_store_def empty_ledger_def
        DEFAULT_LIMIT_def)
qed (simp_all add: in_memory_def default_store_def ex_fair)

theorem charge_all_persists_witness:
  "\<exists>d' left t. charge_all ex_ledgers None Map.empty ex_store ''t/c'' [(''b'', Fin 6)] = (ex_charged, Inr (d', left))
     \<and> open_store ex_ledgers d' ''p'' = Inr t \<and> spent_of t ''t/c'' ''b'' = Fin 6"
proof -
  obtain d' left where run:
    "charge_all ex_ledgers None Map.empty ex_store ''t/c'' [(''b'', Fin 6)] = (ex_charged, Inr (d', left))"
    using ex_charge_run by blast
  have "\<exists>t. open_store ex_ledgers d' ''p'' = Inr t \<and> (\<forall>c b. spent_of t c b = spent_of ex_charged c b)
     \<and> limits (bs_ledger t) = limits (bs_ledger ex_charged)"
    by (rule charge_all_persists [OF ex_ledgers_laws _ run])
      (simp_all add: ex_store_def ex_charged_def finite_ledger_def ex_spent_def)
  moreover have "spent_of ex_charged ''t/c'' ''b'' = Fin 6"
    by (simp add: spent_of_def ex_charged_def ex_spent_def bt_get_or_def)
  ultimately show ?thesis using run by auto
qed

theorem infinite_limit_locks_out_witness:
  "\<exists>s' d' e. set_limit ex_ledgers None Map.empty ex_store ''b'' PInf = (s', Inr d')
     \<and> open_store ex_ledgers d' ''p'' = Inl (Invalid e)"
proof -
  have "ex_infinite \<noteq> ex_spent" by (simp add: ex_spent_def ex_infinite_def)
  then have run: "set_limit ex_ledgers None Map.empty ex_store ''b'' PInf
      = (ex_store\<lparr>bs_ledger := ex_infinite\<rparr>, Inr [''p'' \<mapsto> Bytes ''2''])"
    by (simp add: set_limit_def Let_def save_ledger_def ex_store_def default_store_def empty_ledger_def
        ex_ledgers_def ex_infinite_def)
  have "\<exists>e. open_store ex_ledgers [''p'' \<mapsto> Bytes ''2''] ''p'' = Inl (Invalid e)"
    by (rule infinite_limit_locks_out [OF ex_ledgers_laws _ _ run]) (simp_all add: ex_store_def)
  with run show ?thesis by blast
qed

end
