(* ===== verification/Cache.thy ===== *)
theory Cache
  imports Peql_Prelude
begin

text \<open>
  The result cache (\<open>src/cache.rs\<close>): the key of an answer, and the operations of the store of answers.
  The LRU map is a library's; its operations are a parameter, with what the library documents of them
  as the predicate \<open>lru_laws\<close>. Every operation runs under the cache's lock. Times are in seconds.
\<close>

section \<open>Keys\<close>

record cache_key =
  digest :: string
  contracts :: "string list"

definition key_text :: "string \<Rightarrow> (string \<times> string) list \<Rightarrow> string" where
  "key_text sql parts =
     sql @ concat (map (\<lambda>(name, fingerprint). CHR 0x1E # name @ CHR 0x1F # fingerprint) parts)"

definition cache_key_new :: "(string \<Rightarrow> string) \<Rightarrow> string \<Rightarrow> (string \<times> string) list \<Rightarrow> cache_key" where
  "cache_key_new sha256_hex sql parts =
     \<lparr>digest = sha256_hex (key_text sql parts), contracts = map fst parts\<rparr>"

section \<open>State\<close>

record cache_config =
  max_entries :: nat
  max_bytes :: nat
  ttl_secs :: nat

definition default_config :: cache_config where
  "default_config = \<lparr>max_entries = 10000, max_bytes = 256 * 1024 * 1024, ttl_secs = 60\<rparr>"

record 'b entry =
  batches :: "'b list"
  bytes :: nat
  stored_at :: nat

text \<open>
  The library's map: a new one of a capacity, and its operations. \<open>iter\<close> lists the entries from the
  most to the least recently used.
\<close>

record ('l, 'b) lru_ops =
  lru_new :: "nat \<Rightarrow> 'l"
  lru_iter :: "'l \<Rightarrow> (cache_key \<times> 'b entry) list"
  lru_cap :: "'l \<Rightarrow> nat"
  lru_peek :: "'l \<Rightarrow> cache_key \<Rightarrow> 'b entry option"
  lru_get :: "'l \<Rightarrow> cache_key \<Rightarrow> 'b entry option \<times> 'l"
  lru_pop :: "'l \<Rightarrow> cache_key \<Rightarrow> 'b entry option \<times> 'l"
  lru_pop_lru :: "'l \<Rightarrow> (cache_key \<times> 'b entry) option \<times> 'l"
  lru_push :: "'l \<Rightarrow> cache_key \<Rightarrow> 'b entry \<Rightarrow> (cache_key \<times> 'b entry) option \<times> 'l"
  lru_clear :: "'l \<Rightarrow> 'l"

definition without :: "cache_key \<Rightarrow> (cache_key \<times> 'b entry) list \<Rightarrow> (cache_key \<times> 'b entry) list" where
  "without k es = filter (\<lambda>e. fst e \<noteq> k) es"

text \<open>
  What the library documents: an entry is found by its key; a lookup makes it the most recent;
  \<open>pop_lru\<close> takes the last entry; \<open>push\<close> answers the entry of the same key it replaces, or else the
  least recent one when the map is full.
\<close>

definition lru_laws :: "('l, 'b) lru_ops \<Rightarrow> bool" where
  "lru_laws L \<longleftrightarrow>
     (\<forall>n. lru_iter L (lru_new L n) = [] \<and> lru_cap L (lru_new L n) = n)
   \<and> (\<forall>l. distinct (map fst (lru_iter L l)) \<and> length (lru_iter L l) \<le> lru_cap L l)
   \<and> (\<forall>l k. lru_peek L l k = map_of (lru_iter L l) k)
   \<and> (\<forall>l k. fst (lru_get L l k) = map_of (lru_iter L l) k
        \<and> lru_cap L (snd (lru_get L l k)) = lru_cap L l
        \<and> lru_iter L (snd (lru_get L l k)) = (case map_of (lru_iter L l) k of
             None \<Rightarrow> lru_iter L l | Some e \<Rightarrow> (k, e) # without k (lru_iter L l)))
   \<and> (\<forall>l k. fst (lru_pop L l k) = map_of (lru_iter L l) k
        \<and> lru_cap L (snd (lru_pop L l k)) = lru_cap L l
        \<and> lru_iter L (snd (lru_pop L l k)) = without k (lru_iter L l))
   \<and> (\<forall>l. lru_cap L (snd (lru_pop_lru L l)) = lru_cap L l
        \<and> fst (lru_pop_lru L l) = (if lru_iter L l = [] then None else Some (last (lru_iter L l)))
        \<and> lru_iter L (snd (lru_pop_lru L l)) = butlast (lru_iter L l))
   \<and> (\<forall>l k e. 0 < lru_cap L l \<longrightarrow>
          lru_cap L (snd (lru_push L l k e)) = lru_cap L l
        \<and> fst (lru_push L l k e) = (case map_of (lru_iter L l) k of
             Some old \<Rightarrow> Some (k, old)
           | None \<Rightarrow> if length (lru_iter L l) < lru_cap L l then None else Some (last (lru_iter L l)))
        \<and> lru_iter L (snd (lru_push L l k e)) = (k, e) # (case map_of (lru_iter L l) k of
             Some old \<Rightarrow> without k (lru_iter L l)
           | None \<Rightarrow> if length (lru_iter L l) < lru_cap L l then lru_iter L l else butlast (lru_iter L l)))
   \<and> (\<forall>l. lru_iter L (lru_clear L l) = [] \<and> lru_cap L (lru_clear L l) = lru_cap L l)"

text \<open>\<open>total_bytes\<close> is an integer here, so that an underflow of the code's \<open>usize\<close> would show.\<close>

record 'l cache =
  lru :: 'l
  total_bytes :: int
  hits :: nat
  misses :: nat

record cache_stats =
  entry_count :: nat
  stat_bytes :: int
  stat_hits :: nat
  stat_misses :: nat

section \<open>Operations\<close>

definition cache_new :: "('l, 'b) lru_ops \<Rightarrow> cache_config \<Rightarrow> 'l cache" where
  "cache_new L cfg = \<lparr>lru = lru_new L (max (max_entries cfg) 1), total_bytes = 0, hits = 0, misses = 0\<rparr>"

text \<open>\<open>if let Some(e) = g.lru.pop(k) { g.total_bytes -= e.bytes }\<close>.\<close>

definition drop_key :: "('l, 'b) lru_ops \<Rightarrow> cache_key \<Rightarrow> 'l cache \<Rightarrow> 'l cache" where
  "drop_key L k g =
     (case lru_pop L (lru g) k of
        (Some e, l) \<Rightarrow> g\<lparr>lru := l, total_bytes := total_bytes g - int (bytes e)\<rparr>
      | (None, l) \<Rightarrow> g\<lparr>lru := l\<rparr>)"

definition cache_get ::
  "('l, 'b) lru_ops \<Rightarrow> cache_config \<Rightarrow> nat \<Rightarrow> cache_key \<Rightarrow> 'l cache \<Rightarrow> 'b list option \<times> 'l cache" where
  "cache_get L cfg now key g =
     (let expired = (case lru_peek L (lru g) key of
            None \<Rightarrow> False | Some e \<Rightarrow> ttl_secs cfg < now - stored_at e);
          g1 = (if expired then drop_key L key g else g)
      in case lru_get L (lru g1) key of
           (Some e, l) \<Rightarrow> (Some (batches e), g1\<lparr>lru := l, hits := hits g1 + 1\<rparr>)
         | (None, l) \<Rightarrow> (None, g1\<lparr>lru := l, misses := misses g1 + 1\<rparr>))"

text \<open>The loop that makes room. It may in principle not end, so its result is an option.\<close>

partial_function (option) make_room ::
  "('l, 'b) lru_ops \<Rightarrow> cache_config \<Rightarrow> nat \<Rightarrow> 'l cache \<Rightarrow> 'l cache option" where
  "make_room L cfg n g =
     (if int (max_bytes cfg) < total_bytes g + int n then
        (case lru_pop_lru L (lru g) of
           (Some (k, e), l) \<Rightarrow>
             make_room L cfg n (g\<lparr>lru := l, total_bytes := total_bytes g - int (bytes e)\<rparr>)
         | (None, l) \<Rightarrow> Some (g\<lparr>lru := l\<rparr>))
      else Some g)"

definition cache_put ::
  "('l, 'b) lru_ops \<Rightarrow> ('b \<Rightarrow> nat) \<Rightarrow> cache_config \<Rightarrow> nat \<Rightarrow> cache_key \<Rightarrow> 'b list \<Rightarrow> 'l cache
     \<Rightarrow> 'l cache option" where
  "cache_put L memory_size cfg now key bs g =
     (let n = sum_list (map memory_size bs) in
      if max_bytes cfg < n then Some g
      else Option.bind (make_room L cfg n g) (\<lambda>g1.
        let (old, l) = lru_push L (lru g1) key \<lparr>batches = bs, bytes = n, stored_at = now\<rparr>;
            t = (case old of Some (_, e) \<Rightarrow> total_bytes g1 - int (bytes e) | None \<Rightarrow> total_bytes g1)
        in Some (g1\<lparr>lru := l, total_bytes := t + int n\<rparr>)))"

definition invalidate_contract :: "('l, 'b) lru_ops \<Rightarrow> string \<Rightarrow> 'l cache \<Rightarrow> 'l cache" where
  "invalidate_contract L contract g =
     fold (drop_key L)
       (map fst (filter (\<lambda>(k, _). contract \<in> set (contracts k)) (lru_iter L (lru g)))) g"

definition invalidate_all :: "('l, 'b) lru_ops \<Rightarrow> 'l cache \<Rightarrow> 'l cache" where
  "invalidate_all L g = g\<lparr>lru := lru_clear L (lru g), total_bytes := 0\<rparr>"

definition cache_stats_of :: "('l, 'b) lru_ops \<Rightarrow> 'l cache \<Rightarrow> cache_stats" where
  "cache_stats_of L g = \<lparr>entry_count = length (lru_iter L (lru g)), stat_bytes = total_bytes g,
     stat_hits = hits g, stat_misses = misses g\<rparr>"

section \<open>Lemmas\<close>

definition size_of :: "(cache_key \<times> 'b entry) list \<Rightarrow> int" where
  "size_of es = sum_list (map (\<lambda>e. int (bytes (snd e))) es)"

lemma size_of_simps [simp]:
  "size_of [] = 0" "size_of (e # es) = int (bytes (snd e)) + size_of es"
  "size_of (xs @ ys) = size_of xs + size_of ys"
  by (simp_all add: size_of_def)

lemma size_of_nonneg [simp]: "0 \<le> size_of es"
  by (induction es) auto

lemma without_Cons [simp]: "without k (e # es) = (if fst e = k then without k es else e # without k es)"
  by (simp add: without_def)

lemma without_Nil [simp]: "without k [] = []"
  by (simp add: without_def)

lemma without_id: "k \<notin> fst ` set es \<Longrightarrow> without k es = es"
  by (induction es) auto

lemma size_of_without:
  "distinct (map fst es) \<Longrightarrow>
     size_of (without k es) = size_of es - (case map_of es k of None \<Rightarrow> 0 | Some e \<Rightarrow> int (bytes e))"
proof (induction es)
  case (Cons e es)
  then show ?case by (cases "map_of es k") (auto simp: without_id dest: map_of_SomeD)
qed simp

lemma size_of_last: "es \<noteq> [] \<Longrightarrow> size_of (butlast es) = size_of es - int (bytes (snd (last es)))"
  by (induction es rule: rev_induct) auto

lemma map_of_without [simp]: "map_of (without k es) k' = (if k' = k then None else map_of es k')"
  by (induction es) auto

text \<open>The invariant: the bytes counted are the bytes held, and both bounds of the configuration hold.\<close>

definition cache_ok :: "('l, 'b) lru_ops \<Rightarrow> cache_config \<Rightarrow> 'l cache \<Rightarrow> bool" where
  "cache_ok L cfg g \<longleftrightarrow>
     total_bytes g = size_of (lru_iter L (lru g))
   \<and> total_bytes g \<le> int (max_bytes cfg)
   \<and> lru_cap L (lru g) = max (max_entries cfg) 1"

lemma lru_lawsD:
  assumes "lru_laws L"
  shows "lru_iter L (lru_new L n) = []" "lru_cap L (lru_new L n) = n"
    and "distinct (map fst (lru_iter L l))" "length (lru_iter L l) \<le> lru_cap L l"
    and "lru_peek L l k = map_of (lru_iter L l) k"
    and "fst (lru_get L l k) = map_of (lru_iter L l) k" "lru_cap L (snd (lru_get L l k)) = lru_cap L l"
    and "lru_iter L (snd (lru_get L l k)) = (case map_of (lru_iter L l) k of
             None \<Rightarrow> lru_iter L l | Some e \<Rightarrow> (k, e) # without k (lru_iter L l))"
    and "fst (lru_pop L l k) = map_of (lru_iter L l) k" "lru_cap L (snd (lru_pop L l k)) = lru_cap L l"
    and "lru_iter L (snd (lru_pop L l k)) = without k (lru_iter L l)"
    and "lru_cap L (snd (lru_pop_lru L l)) = lru_cap L l"
    and "fst (lru_pop_lru L l) = (if lru_iter L l = [] then None else Some (last (lru_iter L l)))"
    and "lru_iter L (snd (lru_pop_lru L l)) = butlast (lru_iter L l)"
    and "lru_iter L (lru_clear L l) = []" "lru_cap L (lru_clear L l) = lru_cap L l"
  using assms unfolding lru_laws_def by auto

lemma lru_pushD:
  assumes "lru_laws L" and "0 < lru_cap L l"
  shows "lru_cap L (snd (lru_push L l k e)) = lru_cap L l"
    and "lru_iter L (snd (lru_push L l k e)) = (k, e) # (case map_of (lru_iter L l) k of
           Some old \<Rightarrow> without k (lru_iter L l)
         | None \<Rightarrow> if length (lru_iter L l) < lru_cap L l then lru_iter L l else butlast (lru_iter L l))"
    and "fst (lru_push L l k e) = (case map_of (lru_iter L l) k of
           Some old \<Rightarrow> Some (k, old)
         | None \<Rightarrow> if length (lru_iter L l) < lru_cap L l then None else Some (last (lru_iter L l)))"
  using assms unfolding lru_laws_def by simp_all

text \<open>\<open>drop_key\<close>, the one step every removal of an entry by its key takes.\<close>

lemma drop_key_effect:
  assumes "lru_laws L"
  shows "lru_iter L (lru (drop_key L k g)) = without k (lru_iter L (lru g))"
    and "lru_cap L (lru (drop_key L k g)) = lru_cap L (lru g)"
    and "total_bytes g = size_of (lru_iter L (lru g)) \<Longrightarrow>
           total_bytes (drop_key L k g) = size_of (lru_iter L (lru (drop_key L k g)))"
    and "total_bytes (drop_key L k g) \<le> total_bytes g"
proof -
  note laws = lru_lawsD [OF assms]
  obtain r l where rl: "lru_pop L (lru g) k = (r, l)" by (cases "lru_pop L (lru g) k")
  have r: "r = map_of (lru_iter L (lru g)) k" and l: "lru_iter L l = without k (lru_iter L (lru g))"
    "lru_cap L l = lru_cap L (lru g)"
    using laws(9,10,11) [of "lru g" k] by (simp_all add: rl)
  show iter: "lru_iter L (lru (drop_key L k g)) = without k (lru_iter L (lru g))"
    and "lru_cap L (lru (drop_key L k g)) = lru_cap L (lru g)"
    and "total_bytes (drop_key L k g) \<le> total_bytes g"
    by (simp_all add: drop_key_def rl l split: option.split)
  assume "total_bytes g = size_of (lru_iter L (lru g))"
  then show "total_bytes (drop_key L k g) = size_of (lru_iter L (lru (drop_key L k g)))"
    unfolding iter using laws(3) r
    by (cases r) (simp_all add: drop_key_def rl size_of_without)
qed

lemma drop_key_ok: "lru_laws L \<Longrightarrow> cache_ok L cfg g \<Longrightarrow> cache_ok L cfg (drop_key L k g)"
  using drop_key_effect [where L = L and k = k and g = g] unfolding cache_ok_def by linarith

definition fresh_or_dropped ::
  "('l, 'b) lru_ops \<Rightarrow> cache_config \<Rightarrow> nat \<Rightarrow> cache_key \<Rightarrow> 'l cache \<Rightarrow> 'l cache" where
  "fresh_or_dropped L cfg now key g =
     (if (case lru_peek L (lru g) key of None \<Rightarrow> False | Some e \<Rightarrow> ttl_secs cfg < now - stored_at e)
      then drop_key L key g else g)"

lemma cache_get_fresh:
  "cache_get L cfg now key g =
     (case lru_get L (lru (fresh_or_dropped L cfg now key g)) key of
        (Some e, l) \<Rightarrow> (Some (batches e), (fresh_or_dropped L cfg now key g)
           \<lparr>lru := l, hits := hits (fresh_or_dropped L cfg now key g) + 1\<rparr>)
      | (None, l) \<Rightarrow> (None, (fresh_or_dropped L cfg now key g)
           \<lparr>lru := l, misses := misses (fresh_or_dropped L cfg now key g) + 1\<rparr>))"
  unfolding cache_get_def fresh_or_dropped_def [symmetric] Let_def by (rule refl)

lemma lru_get_ok:
  assumes "lru_laws L" and "cache_ok L cfg g" and "lru_get L (lru g) key = (r, l)"
  shows "cache_ok L cfg (g\<lparr>lru := l, hits := h\<rparr>)" and "cache_ok L cfg (g\<lparr>lru := l, misses := m\<rparr>)"
    and "r = map_of (lru_iter L (lru g)) key"
proof -
  note laws = lru_lawsD [OF assms(1)]
  show r: "r = map_of (lru_iter L (lru g)) key" using laws(6) [of "lru g" key] by (simp add: assms(3))
  have "size_of (lru_iter L l) = size_of (lru_iter L (lru g))"
    using laws(8) [of "lru g" key] laws(3) [of "lru g"] by (auto simp: assms(3) size_of_without split: option.split)
  moreover have "lru_cap L l = lru_cap L (lru g)" using laws(7) [of "lru g" key] by (simp add: assms(3))
  ultimately show "cache_ok L cfg (g\<lparr>lru := l, hits := h\<rparr>)" "cache_ok L cfg (g\<lparr>lru := l, misses := m\<rparr>)"
    using assms(2) by (simp_all add: cache_ok_def)
qed

lemma cache_get_ok:
  assumes "lru_laws L" and "cache_ok L cfg g"
  shows "cache_ok L cfg (snd (cache_get L cfg now key g))"
proof -
  have ok: "cache_ok L cfg (fresh_or_dropped L cfg now key g)"
    using assms drop_key_ok [OF assms] by (simp add: fresh_or_dropped_def)
  obtain r l where rl: "lru_get L (lru (fresh_or_dropped L cfg now key g)) key = (r, l)"
    by (cases "lru_get L (lru (fresh_or_dropped L cfg now key g)) key")
  show ?thesis
    using lru_get_ok(1,2) [OF assms(1) ok rl] unfolding cache_get_fresh by (cases r) (simp_all add: rl)
qed

lemma invalidate_fold:
  assumes "lru_laws L"
  shows "lru_iter L (lru (fold (drop_key L) ks g)) = filter (\<lambda>e. fst e \<notin> set ks) (lru_iter L (lru g))"
    and "cache_ok L cfg g \<Longrightarrow> cache_ok L cfg (fold (drop_key L) ks g)"
proof (induction ks arbitrary: g)
  case (Cons k ks)
  {
    case 1
    have "filter (\<lambda>e. fst e \<notin> set ks) (without k es) = filter (\<lambda>e. fst e \<notin> set (k # ks)) es" for es :: "(cache_key \<times> 'b entry) list"
      unfolding without_def by (induction es) auto
    then show ?case using Cons.IH(1) [of "drop_key L k g"] by (simp add: drop_key_effect [OF assms])
  next
    case 2
    then show ?case using Cons.IH(2) [of "drop_key L k g"] drop_key_ok [OF assms] by simp
  }
qed simp_all

lemma make_room_effect:
  assumes "lru_laws L" and "total_bytes g = size_of (lru_iter L (lru g))" and "n \<le> max_bytes cfg"
  shows "\<exists>g'. make_room L cfg n g = Some g' \<and> total_bytes g' = size_of (lru_iter L (lru g'))
     \<and> total_bytes g' + int n \<le> int (max_bytes cfg) \<and> lru_cap L (lru g') = lru_cap L (lru g)"
  using assms(2)
proof (induction "length (lru_iter L (lru g))" arbitrary: g rule: less_induct)
  case less
  note laws = lru_lawsD [OF assms(1)]
  obtain r l where rl: "lru_pop_lru L (lru g) = (r, l)" by (cases "lru_pop_lru L (lru g)")
  show ?case
  proof (cases "int (max_bytes cfg) < total_bytes g + int n")
    case False
    then show ?thesis using less.prems by (subst make_room.simps) auto
  next
    case True
    then have "0 < total_bytes g" using assms(3) by linarith
    then have ne: "lru_iter L (lru g) \<noteq> []" using less.prems by auto
    obtain k e where ke: "last (lru_iter L (lru g)) = (k, e)" by (cases "last (lru_iter L (lru g))")
    have r: "r = Some (k, e)" and l: "lru_iter L l = butlast (lru_iter L (lru g))" "lru_cap L l = lru_cap L (lru g)"
      using laws(12,13,14) [of "lru g"] ne ke by (simp_all add: rl)
    let ?g = "g\<lparr>lru := l, total_bytes := total_bytes g - int (bytes e)\<rparr>"
    have "length (lru_iter L (lru ?g)) < length (lru_iter L (lru g))" using ne l by simp
    moreover have "total_bytes ?g = size_of (lru_iter L (lru ?g))"
      using less.prems ne ke l by (simp add: size_of_last)
    ultimately obtain g' where "make_room L cfg n ?g = Some g'"
      "total_bytes g' = size_of (lru_iter L (lru g'))" "total_bytes g' + int n \<le> int (max_bytes cfg)"
      "lru_cap L (lru g') = lru_cap L (lru ?g)"
      using less.hyps by blast
    then show ?thesis using True by (subst make_room.simps) (simp add: rl r l)
  qed
qed

lemma cache_put_effect:
  assumes "lru_laws L" and "cache_ok L cfg g"
  shows "\<exists>g'. cache_put L memory_size cfg now key bs g = Some g' \<and> cache_ok L cfg g'
     \<and> (sum_list (map memory_size bs) \<le> max_bytes cfg \<longrightarrow>
          map_of (lru_iter L (lru g')) key
            = Some \<lparr>batches = bs, bytes = sum_list (map memory_size bs), stored_at = now\<rparr>)"
proof (cases "max_bytes cfg < sum_list (map memory_size bs)")
  case True
  then show ?thesis using assms(2) by (simp add: cache_put_def Let_def)
next
  case False
  define n where "n = sum_list (map memory_size bs)"
  note laws = lru_lawsD [OF assms(1)]
  from False assms obtain g1 where g1: "make_room L cfg n g = Some g1"
    "total_bytes g1 = size_of (lru_iter L (lru g1))" "total_bytes g1 + int n \<le> int (max_bytes cfg)"
    "lru_cap L (lru g1) = lru_cap L (lru g)"
    using make_room_effect [OF assms(1), of g n cfg] by (auto simp: cache_ok_def n_def)
  have cap: "0 < lru_cap L (lru g1)" using assms(2) g1(4) by (simp add: cache_ok_def)
  let ?e = "\<lparr>batches = bs, bytes = n, stored_at = now\<rparr>"
  obtain r l where rl: "lru_push L (lru g1) key ?e = (r, l)" by (cases "lru_push L (lru g1) key ?e")
  note push = lru_pushD [OF assms(1) cap, of key ?e, unfolded rl fst_conv snd_conv]
  let ?t = "(case r of Some (_, e) \<Rightarrow> total_bytes g1 - int (bytes e) | None \<Rightarrow> total_bytes g1)"
  have put: "cache_put L memory_size cfg now key bs g = Some (g1\<lparr>lru := l, total_bytes := ?t + int n\<rparr>)"
    using False g1(1) rl by (simp add: cache_put_def Let_def n_def [symmetric])
  have size: "?t + int n = size_of (lru_iter L l)"
  proof (cases "map_of (lru_iter L (lru g1)) key")
    case None
    show ?thesis
    proof (cases "length (lru_iter L (lru g1)) < lru_cap L (lru g1)")
      case True
      then show ?thesis using None g1(2) push(2,3) by simp
    next
      case False
      with cap have "lru_iter L (lru g1) \<noteq> []" by auto
      then show ?thesis using None False g1(2) push(2,3) by (simp add: size_of_last split: prod.split)
    qed
  next
    case (Some old)
    then show ?thesis using g1(2) push(2,3) laws(3) [of "lru g1"] by (simp add: size_of_without)
  qed
  have "?t \<le> total_bytes g1" by (auto split: option.split)
  then show ?thesis
    using put size g1 push(1,2) assms(2) by (simp add: cache_ok_def n_def)
qed

section \<open>Every history of a cache\<close>

inductive cache_reachable ::
  "('l, 'b) lru_ops \<Rightarrow> ('b \<Rightarrow> nat) \<Rightarrow> cache_config \<Rightarrow> 'l cache \<Rightarrow> bool"
  for L :: "('l, 'b) lru_ops" and memory_size :: "'b \<Rightarrow> nat" and cfg :: cache_config where
  start: "cache_reachable L memory_size cfg (cache_new L cfg)"
| got: "cache_reachable L memory_size cfg g \<Longrightarrow>
    cache_reachable L memory_size cfg (snd (cache_get L cfg now key g))"
| stored: "cache_reachable L memory_size cfg g \<Longrightarrow> cache_put L memory_size cfg now key bs g = Some g' \<Longrightarrow>
    cache_reachable L memory_size cfg g'"
| dropped: "cache_reachable L memory_size cfg g \<Longrightarrow>
    cache_reachable L memory_size cfg (invalidate_contract L c g)"
| cleared: "cache_reachable L memory_size cfg g \<Longrightarrow> cache_reachable L memory_size cfg (invalidate_all L g)"

lemma reachable_ok:
  assumes "lru_laws L" and "cache_reachable L memory_size cfg g"
  shows "cache_ok L cfg g"
  using assms(2)
proof induction
  case start
  then show ?case using lru_lawsD(1,2) [OF assms(1)] by (simp add: cache_new_def cache_ok_def)
next
  case (got g now key)
  then show ?case using cache_get_ok [OF assms(1)] by blast
next
  case (stored g now key bs g')
  then show ?case using cache_put_effect [OF assms(1), of cfg g memory_size now key bs] by auto
next
  case (dropped g c)
  then show ?case using invalidate_fold(2) [OF assms(1)] by (simp add: invalidate_contract_def)
next
  case (cleared g)
  then show ?case using lru_lawsD(15,16) [OF assms(1)] by (simp add: invalidate_all_def cache_ok_def)
qed

lemma cache_get_result:
  assumes "lru_laws L"
  shows "fst (cache_get L cfg now key g) =
     (case map_of (lru_iter L (lru g)) key of
        Some e \<Rightarrow> if ttl_secs cfg < now - stored_at e then None else Some (batches e)
      | None \<Rightarrow> None)"
proof -
  note laws = lru_lawsD [OF assms]
  obtain r l where rl: "lru_get L (lru (fresh_or_dropped L cfg now key g)) key = (r, l)"
    by (cases "lru_get L (lru (fresh_or_dropped L cfg now key g)) key")
  have "r = map_of (lru_iter L (lru (fresh_or_dropped L cfg now key g))) key"
    using laws(6) [of "lru (fresh_or_dropped L cfg now key g)" key] by (simp add: rl)
  then have "r = (case map_of (lru_iter L (lru g)) key of
        Some e \<Rightarrow> if ttl_secs cfg < now - stored_at e then None else Some e | None \<Rightarrow> None)"
    by (simp add: fresh_or_dropped_def laws(5) drop_key_effect(1) [OF assms] split: option.split)
  moreover have "fst (cache_get L cfg now key g) = map_option batches r"
    by (cases r) (simp_all add: cache_get_fresh rl)
  ultimately show ?thesis by (simp split: option.split)
qed

lemma invalidate_iter:
  assumes "lru_laws L"
  shows "lru_iter L (lru (invalidate_contract L c g))
     = filter (\<lambda>e. c \<notin> set (contracts (fst e))) (lru_iter L (lru g))"
  unfolding invalidate_contract_def invalidate_fold(1) [OF assms]
  by (rule filter_cong) (auto simp: image_iff)

text \<open>The text under a key's digest is read back: its query and its parts.\<close>

definition plain_text :: "string \<Rightarrow> bool" where
  "plain_text s \<longleftrightarrow> CHR 0x1E \<notin> set s \<and> CHR 0x1F \<notin> set s"

lemma split_first: "u @ z # r = v @ z # s \<Longrightarrow> z \<notin> set u \<Longrightarrow> z \<notin> set v \<Longrightarrow> u = v \<and> r = s"
  by (induction u arbitrary: v; case_tac v) auto

lemma key_text_inj:
  assumes "plain_text sql" "plain_text sql'"
    and "\<forall>(n, f) \<in> set parts. plain_text n \<and> plain_text f"
    and "\<forall>(n, f) \<in> set parts'. plain_text n \<and> plain_text f"
    and "key_text sql parts = key_text sql' parts'"
  shows "sql = sql' \<and> parts = parts'"
  using assms
proof (induction parts arbitrary: sql sql' parts')
  case Nil
  show ?case
  proof (cases parts')
    case (Cons p ps)
    with Nil have "CHR 0x1E \<in> set sql" by (cases p) (auto simp: key_text_def)
    with Nil show ?thesis by (simp add: plain_text_def)
  qed (use Nil in \<open>simp add: key_text_def\<close>)
next
  case (Cons p parts)
  obtain n f where p: "p = (n, f)" by (cases p)
  show ?case
  proof (cases parts')
    case Nil
    with Cons.prems p have "CHR 0x1E \<in> set sql'" by (auto simp: key_text_def)
    with Cons.prems show ?thesis by (simp add: plain_text_def)
  next
    case (Cons p' ps')
    obtain n' f' where p': "p' = (n', f')" by (cases p')
    have "sql @ CHR 0x1E # n @ CHR 0x1F # key_text f parts = sql' @ CHR 0x1E # n' @ CHR 0x1F # key_text f' ps'"
      using Cons.prems(5) by (simp add: key_text_def p p' local.Cons)
    then have "sql = sql'" "n @ CHR 0x1F # key_text f parts = n' @ CHR 0x1F # key_text f' ps'"
      using split_first [of sql "CHR 0x1E" "n @ CHR 0x1F # key_text f parts" sql'
          "n' @ CHR 0x1F # key_text f' ps'"] Cons.prems(1,2)
      by (simp_all add: plain_text_def)
    moreover from this(2) have "n = n'" "key_text f parts = key_text f' ps'"
      using split_first [of n "CHR 0x1F" "key_text f parts" n' "key_text f' ps'"] Cons.prems(3,4)
      by (simp_all add: plain_text_def p p' local.Cons)
    ultimately show ?thesis
      using Cons.IH [of f f' ps'] Cons.prems by (auto simp: p p' local.Cons)
  qed
qed

section \<open>Properties\<close>

text \<open>
  C35. Whatever happened to the cache, the bytes it counts are the bytes it holds, it stays within its
  two bounds, and storing an answer always ends.
\<close>

theorem cache_always_bounded:
  assumes "lru_laws L" and "cache_reachable L memory_size cfg g"
  shows "total_bytes g = size_of (lru_iter L (lru g)) \<and> total_bytes g \<le> int (max_bytes cfg)
     \<and> length (lru_iter L (lru g)) \<le> max (max_entries cfg) 1
     \<and> (\<exists>g'. cache_put L memory_size cfg now key bs g = Some g')"
  using reachable_ok [OF assms] lru_lawsD(4) [OF assms(1), of "lru g"]
    cache_put_effect [OF assms(1), of cfg g memory_size now key bs]
  by (auto simp: cache_ok_def)

text \<open>
  An answer is served exactly when it is held under its key and not older than the time to live;
  and an answer that fits is served as it was stored, until then.
\<close>

theorem cache_serves:
  assumes "lru_laws L" and "cache_reachable L memory_size cfg g"
  shows "(fst (cache_get L cfg now key g) = Some b \<longleftrightarrow>
       (\<exists>e. map_of (lru_iter L (lru g)) key = Some e \<and> batches e = b \<and> now - stored_at e \<le> ttl_secs cfg))
   \<and> (cache_put L memory_size cfg t key bs g = Some g' \<and> sum_list (map memory_size bs) \<le> max_bytes cfg
        \<and> now - t \<le> ttl_secs cfg \<longrightarrow> fst (cache_get L cfg now key g') = Some bs)"
  using cache_put_effect [OF assms(1) reachable_ok [OF assms], of memory_size t key bs]
  by (auto simp: cache_get_result [OF assms(1)] split: option.split)

text \<open>
  Once a contract is invalidated no answer that read it is served, and every other answer is still
  held.
\<close>

theorem invalidated_not_served:
  assumes "lru_laws L"
  shows "map_of (lru_iter L (lru (invalidate_contract L c g))) key
       = (if c \<in> set (contracts key) then None else map_of (lru_iter L (lru g)) key)
     \<and> (c \<in> set (contracts key) \<longrightarrow> fst (cache_get L cfg now key (invalidate_contract L c g)) = None)"
proof -
  have "map_of (filter (\<lambda>e. c \<notin> set (contracts (fst e))) es) key
      = (if c \<in> set (contracts key) then None else map_of es key)" for es :: "(cache_key \<times> 'b entry) list"
    by (induction es) auto
  then show ?thesis by (simp add: invalidate_iter [OF assms] cache_get_result [OF assms])
qed

text \<open>
  Two queries share a key only when their text and, contract by contract, every fingerprint are the
  same (the digest function not colliding on the two, and neither text holding the two separators).
\<close>

theorem cache_key_identifies:
  assumes "plain_text sql" "plain_text sql'"
    and "\<forall>(n, f) \<in> set parts. plain_text n \<and> plain_text f"
    and "\<forall>(n, f) \<in> set parts'. plain_text n \<and> plain_text f"
    and "H (key_text sql parts) = H (key_text sql' parts') \<Longrightarrow> key_text sql parts = key_text sql' parts'"
  shows "cache_key_new H sql parts = cache_key_new H sql' parts' \<longleftrightarrow> sql = sql' \<and> parts = parts'"
  using assms(5) key_text_inj [OF assms(1-4)] by (auto simp: cache_key_new_def)

section \<open>A concrete map\<close>

text \<open>The library's map as a list of entries, most recent first, with its capacity.\<close>

typedef 'b ex_lru = "{(c, es). distinct (map fst es) \<and> length es \<le> c} :: (nat \<times> (cache_key \<times> 'b entry) list) set"
  by (rule exI [of _ "(0, [])"]) simp

setup_lifting type_definition_ex_lru

lift_definition ex_new :: "nat \<Rightarrow> 'b ex_lru" is "\<lambda>n. (n, [])" by simp

lift_definition ex_iter :: "'b ex_lru \<Rightarrow> (cache_key \<times> 'b entry) list" is snd .

lift_definition ex_cap :: "'b ex_lru \<Rightarrow> nat" is fst .

lemma distinct_without: "distinct (map fst es) \<Longrightarrow> distinct (map fst (without k es))"
  unfolding without_def by (rule distinct_map_filter)

lemma length_without: "length (without k es) \<le> length es"
  by (simp add: without_def)

lemma length_without_less: "map_of es k = Some e \<Longrightarrow> length (without k es) < length es"
  by (induction es) (auto simp: less_Suc_eq_le length_without)

lemma without_no_key [simp]: "k \<notin> fst ` set (without k es)"
  by (auto simp: without_def)

definition touch_list ::
  "(cache_key \<times> 'b entry) list \<Rightarrow> cache_key \<Rightarrow> (cache_key \<times> 'b entry) list" where
  "touch_list es k = (case map_of es k of None \<Rightarrow> es | Some e \<Rightarrow> (k, e) # without k es)"

definition add_list ::
  "nat \<Rightarrow> (cache_key \<times> 'b entry) list \<Rightarrow> cache_key \<Rightarrow> 'b entry \<Rightarrow> (cache_key \<times> 'b entry) list" where
  "add_list c es k e = (if c = 0 then es else (k, e) # (case map_of es k of
        Some old \<Rightarrow> without k es
      | None \<Rightarrow> if length es < c then es else butlast es))"

lemma touch_list_ok:
  assumes "distinct (map fst es)"
  shows "distinct (map fst (touch_list es k))" and "length (touch_list es k) \<le> length es"
  using assms length_without_less [of es k] without_no_key [of k es]
  by (cases "map_of es k"; simp add: touch_list_def distinct_without Suc_le_eq)+

lemma add_list_ok:
  assumes "distinct (map fst es)" and "length es \<le> c"
  shows "distinct (map fst (add_list c es k e))" and "length (add_list c es k e) \<le> c"
proof -
  have "distinct (map fst (add_list c es k e)) \<and> length (add_list c es k e) \<le> c"
  proof (cases "map_of es k")
    case None
    then have "k \<notin> fst ` set es" by (simp add: map_of_eq_None_iff)
    then have "k \<notin> fst ` set (butlast es)" by (auto dest: in_set_butlastD)
    with \<open>k \<notin> fst ` set es\<close> None assms show ?thesis
      by (auto simp: add_list_def map_butlast distinct_butlast)
  next
    case (Some old)
    then show ?thesis
      using assms length_without_less [OF Some] without_no_key [of k es]
      by (simp add: add_list_def distinct_without)
  qed
  then show "distinct (map fst (add_list c es k e))" "length (add_list c es k e) \<le> c" by simp_all
qed

lift_definition ex_touch :: "'b ex_lru \<Rightarrow> cache_key \<Rightarrow> 'b ex_lru" is "\<lambda>(c, es) k. (c, touch_list es k)"
  subgoal for p by (cases p) (auto simp: touch_list_ok intro: le_trans [OF touch_list_ok(2)])
  done

lift_definition ex_remove :: "'b ex_lru \<Rightarrow> cache_key \<Rightarrow> 'b ex_lru" is "\<lambda>(c, es) k. (c, without k es)"
  subgoal for p by (cases p) (auto simp: distinct_without intro: le_trans [OF length_without])
  done

lift_definition ex_remove_last :: "'b ex_lru \<Rightarrow> 'b ex_lru" is "\<lambda>(c, es). (c, butlast es)"
  by (auto simp: map_butlast distinct_butlast)

lift_definition ex_add :: "'b ex_lru \<Rightarrow> cache_key \<Rightarrow> 'b entry \<Rightarrow> 'b ex_lru" is
  "\<lambda>(c, es) k e. (c, add_list c es k e)"
  subgoal for p by (cases p) (simp add: add_list_ok)
  done

definition ex_lru_ops :: "('b ex_lru, 'b) lru_ops" where
  "ex_lru_ops = \<lparr>lru_new = ex_new, lru_iter = ex_iter, lru_cap = ex_cap,
     lru_peek = (\<lambda>l k. map_of (ex_iter l) k),
     lru_get = (\<lambda>l k. (map_of (ex_iter l) k, ex_touch l k)),
     lru_pop = (\<lambda>l k. (map_of (ex_iter l) k, ex_remove l k)),
     lru_pop_lru = (\<lambda>l. (if ex_iter l = [] then None else Some (last (ex_iter l)), ex_remove_last l)),
     lru_push = (\<lambda>l k e. (case map_of (ex_iter l) k of
           Some old \<Rightarrow> Some (k, old)
         | None \<Rightarrow> if length (ex_iter l) < ex_cap l then None else Some (last (ex_iter l)), ex_add l k e)),
     lru_clear = (\<lambda>l. ex_new (ex_cap l))\<rparr>"

lemma ex_lru_inv: "distinct (map fst (ex_iter l))" "length (ex_iter l) \<le> ex_cap l"
  by (transfer; auto)+

lemma ex_touch_iter: "ex_iter (ex_touch l k) = touch_list (ex_iter l) k" "ex_cap (ex_touch l k) = ex_cap l"
  by (transfer; auto)+

lemma ex_remove_iter: "ex_iter (ex_remove l k) = without k (ex_iter l)" "ex_cap (ex_remove l k) = ex_cap l"
  by (transfer; auto)+

lemma ex_remove_last_iter:
  "ex_iter (ex_remove_last l) = butlast (ex_iter l)" "ex_cap (ex_remove_last l) = ex_cap l"
  by (transfer; auto)+

lemma ex_add_iter: "ex_iter (ex_add l k e) = add_list (ex_cap l) (ex_iter l) k e" "ex_cap (ex_add l k e) = ex_cap l"
  by (transfer; auto)+

lemma ex_new_iter: "ex_iter (ex_new n) = []" "ex_cap (ex_new n) = n"
  by (transfer; simp)+

lemma ex_lru_laws: "lru_laws ex_lru_ops"
  unfolding lru_laws_def
  by (intro conjI allI impI)
    (simp_all add: ex_lru_ops_def ex_new_iter ex_lru_inv ex_touch_iter ex_remove_iter ex_remove_last_iter
      ex_add_iter touch_list_def add_list_def split: option.split)

definition ex_config :: cache_config where
  "ex_config = \<lparr>max_entries = 1, max_bytes = 10, ttl_secs = 60\<rparr>"

abbreviation ex_key :: cache_key where
  "ex_key \<equiv> \<lparr>digest = ''d'', contracts = [''t/c'']\<rparr>"

lemma ex_put: "\<exists>g'. cache_put ex_lru_ops (\<lambda>n. n) ex_config 0 ex_key [3, 4] (cache_new ex_lru_ops ex_config) = Some g'"
  using cache_put_effect [OF ex_lru_laws reachable_ok [OF ex_lru_laws start]] by blast

theorem cache_always_bounded_witness:
  "\<exists>g. cache_reachable ex_lru_ops (\<lambda>n. n) ex_config g \<and> map_of (lru_iter ex_lru_ops (lru g)) ex_key \<noteq> None
     \<and> total_bytes g \<le> 10 \<and> length (lru_iter ex_lru_ops (lru g)) \<le> 1"
proof -
  obtain g where g: "cache_put ex_lru_ops (\<lambda>n. n) ex_config 0 ex_key [3, 4] (cache_new ex_lru_ops ex_config) = Some g"
    using ex_put by blast
  have reach: "cache_reachable ex_lru_ops (\<lambda>n. n) ex_config g" by (rule stored [OF start g])
  have "map_of (lru_iter ex_lru_ops (lru g)) ex_key \<noteq> None"
    using cache_put_effect [OF ex_lru_laws reachable_ok [OF ex_lru_laws start], where memory_size = "\<lambda>n. n" and now = 0 and key = ex_key and bs = "[3, 4]" and cfg = ex_config] g
    by (auto simp: ex_config_def)
  with reach cache_always_bounded [OF ex_lru_laws reach] show ?thesis
    by (auto simp: ex_config_def)
qed

theorem cache_serves_witness:
  "\<exists>g. fst (cache_get ex_lru_ops ex_config 60 ex_key g) = Some [3, 4 :: nat]"
proof -
  obtain g where g: "cache_put ex_lru_ops (\<lambda>n. n) ex_config 0 ex_key [3, 4] (cache_new ex_lru_ops ex_config) = Some g"
    using ex_put by blast
  have "fst (cache_get ex_lru_ops ex_config 60 ex_key g) = Some [3, 4 :: nat]"
    using cache_serves [OF ex_lru_laws start [where memory_size = "\<lambda>n. n" and cfg = ex_config],
        of 60 ex_key "[3, 4]" 0 "[3, 4]" g] g
    by (simp add: ex_config_def)
  then show ?thesis by blast
qed

theorem invalidated_not_served_witness:
  "fst (cache_get ex_lru_ops ex_config 1 ex_key 
     (invalidate_contract ex_lru_ops ''t/c'' (cache_new (ex_lru_ops :: (nat ex_lru, nat) lru_ops) ex_config))) = None"
  by (rule invalidated_not_served [OF ex_lru_laws, THEN conjunct2, THEN mp]) simp

theorem cache_key_identifies_witness:
  "cache_key_new (\<lambda>s. s) ''select'' [(''t/c'', ''1'')] \<noteq> cache_key_new (\<lambda>s. s) ''select'' [(''t/c'', ''2'')]"
  by (subst cache_key_identifies) (simp_all add: plain_text_def)

end
