(* ===== verification/Plans.thy ===== *)
theory Plans
  imports Parcel_Types Peql_Error
begin

text \<open>
  DataFusion's plans as far as the source looks into them. A logical plan is a tree of nodes; a filter
  also holds the plans of the subqueries in its predicate. A physical plan is a tree of operators, of
  which the source knows its own two.
\<close>

datatype plan_kind = KExplain | KAnalyze | KDdl | KDml | KStatement | KOther string

text \<open>\<open>LGate\<close> is the source's \<open>Gate\<close> extension node; every node the source does not name is
  \<open>LOther\<close> with its inputs.\<close>

datatype lplan =
    LFilter expr "lplan list" lplan
  | LGate (gate_contract: string) (gate_hash: string) (gate_input: lplan)
  | LScan string
  | LOther plan_kind "expr list" "lplan list"

text \<open>\<open>GateExec\<close>, \<open>ScanExec\<close>, and every other operator with its children.\<close>

datatype pplan =
    PGate string string pplan
  | PScan string pplan
  | PNode string "pplan list"

text \<open>A stream of record batches: what it yields, in order, an error being an item.\<close>

type_synonym stream = "(df_error + batch) list"

definition stream_rows :: "stream \<Rightarrow> nat" where
  "stream_rows s = sum_list (map (\<lambda>x. case x of Inl _ \<Rightarrow> 0 | Inr b \<Rightarrow> num_rows b) s)"

lemma stream_rows_simps [simp]:
  "stream_rows [] = 0" "stream_rows (Inl e # s) = stream_rows s"
  "stream_rows (Inr b # s) = num_rows b + stream_rows s"
  "stream_rows (s @ t) = stream_rows s + stream_rows t"
  by (simp_all add: stream_rows_def)

end
