(* ===== verification/Guard.thy ===== *)
theory Guard
  imports Plans
begin

text \<open>
  The checks of a caller's statement (\<open>src/guard.rs\<close>): exactly one query, checked on the parsed
  statements before planning and on the plan after it. The SQL parser, the text it prints of a
  statement and DataFusion's own plan check are parameters; the text scanning is modelled on the bytes
  of the UTF-8 string.
\<close>

section \<open>Scanning the text\<close>

text \<open>
  \<open>trim_start\<close>: the characters Unicode calls white space, by their UTF-8 bytes.
\<close>

abbreviation byte :: "char \<Rightarrow> nat" where
  "byte c \<equiv> of_char c"

definition ascii_space :: "char \<Rightarrow> bool" where
  "ascii_space c \<longleftrightarrow> c = CHR '' '' \<or> (0x09 \<le> byte c \<and> byte c \<le> 0x0D)"

definition wide_spaces :: "string list" where
  "wide_spaces = [CHR 0xE1, CHR 0x9A, CHR 0x80]
     # map (\<lambda>n. [CHR 0xE2, CHR 0x80, char_of n]) ([0x80..<0x8B :: nat] @ [0xA8, 0xA9, 0xAF])
     @ [[CHR 0xE2, CHR 0x81, CHR 0x9F], [CHR 0xE3, CHR 0x80, CHR 0x80]]"

text \<open>The bytes of the white space a text starts with: none, or one character's.\<close>

definition space_len :: "string \<Rightarrow> nat" where
  "space_len s =
     (case s of
        [] \<Rightarrow> 0
      | a # _ \<Rightarrow>
          if ascii_space a then 1
          else if take 2 s = [CHR 0xC2, CHR 0x85] \<or> take 2 s = [CHR 0xC2, CHR 0xA0] then 2
          else if take 3 s \<in> set wide_spaces then 3
          else 0)"

function trim_start :: "string \<Rightarrow> string" where
  "trim_start s = (if space_len s = 0 then s else trim_start (drop (space_len s) s))"
  by auto
termination
proof (relation "measure length")
  fix s assume len: "space_len s \<noteq> 0"
  then have "s \<noteq> []" by (auto simp: space_len_def)
  with len show "(drop (space_len s) s, s) \<in> measure length" by simp
qed simp

declare trim_start.simps [simp del]

text \<open>The rest of a line comment: what follows the first line break, or nothing.\<close>

fun after_newline :: "string \<Rightarrow> string" where
  "after_newline [] = []"
| "after_newline (c # s) = (if c = CHR ''\<newline>'' then s else after_newline s)"

text \<open>The rest of a block comment \<open>depth\<close> comments deep; they nest.\<close>

fun after_comment :: "nat \<Rightarrow> string \<Rightarrow> string" where
  "after_comment 0 s = s"
| "after_comment (Suc d) [] = []"
| "after_comment (Suc d) [a] = []"
| "after_comment (Suc d) (a # b # s) =
     (if a = CHR ''/'' \<and> b = CHR ''*'' then after_comment (Suc (Suc d)) s
      else if a = CHR ''*'' \<and> b = CHR ''/'' then after_comment d s
      else after_comment (Suc d) (b # s))"

lemma trim_start_length: "length (trim_start s) \<le> length s"
proof (induction s rule: trim_start.induct)
  case (1 s)
  then show ?case by (subst trim_start.simps) (auto intro: le_trans)
qed

lemma trim_start_none: "space_len s = 0 \<Longrightarrow> trim_start s = s"
  by (simp add: trim_start.simps)

lemma after_newline_length: "length (after_newline s) \<le> length s"
  by (induction s) auto

lemma after_comment_length: "length (after_comment d s) \<le> length s"
  by (induction d s rule: after_comment.induct) auto

text \<open>The loop that removes leading comments.\<close>

function skip_comments :: "string \<Rightarrow> string" where
  "skip_comments s =
     (case s of
        a # b # r \<Rightarrow>
          if a = CHR ''-'' \<and> b = CHR ''-'' then skip_comments (trim_start (after_newline r))
          else if a = CHR ''/'' \<and> b = CHR ''*'' then skip_comments (trim_start (after_comment 1 r))
          else s
      | _ \<Rightarrow> s)"
  by auto
termination
proof (relation "measure length")
  fix s x b and a :: char and r :: string
  assume "s = a # x" "x = b # r"
  moreover have "length (trim_start (after_newline r)) \<le> length r"
    "length (trim_start (after_comment 1 r)) \<le> length r"
    using trim_start_length after_newline_length after_comment_length le_trans by blast+
  ultimately show "(trim_start (after_newline r), s) \<in> measure length"
    "(trim_start (after_comment 1 r), s) \<in> measure length"
    by simp_all
qed simp

declare skip_comments.simps [simp del]

definition is_alpha :: "char \<Rightarrow> bool" where
  "is_alpha c \<longleftrightarrow> (65 \<le> byte c \<and> byte c \<le> 90) \<or> (97 \<le> byte c \<and> byte c \<le> 122)"

definition to_upper :: "char \<Rightarrow> char" where
  "to_upper c = (if 97 \<le> byte c \<and> byte c \<le> 122 then char_of (byte c - 32) else c)"

definition first_keyword :: "string \<Rightarrow> string" where
  "first_keyword sql = map to_upper (takeWhile is_alpha (skip_comments (trim_start sql)))"

section \<open>The checks\<close>

text \<open>A parsed statement, as the source tells them apart; one of SQL's own carries what it prints.\<close>

datatype statement = SqlQuery | SqlStatement string | Explain | CreateExternalTable | CopyTo | OtherStatement

definition REFUSED_VERBS :: "string list" where
  "REFUSED_VERBS = [''INSTALL'', ''LOAD'', ''ATTACH'', ''DETACH'', ''COPY'', ''CREATE'', ''DROP'', ''INSERT'',
     ''UPDATE'', ''DELETE'', ''ALTER'', ''SET'', ''EXPLAIN'', ''PRAGMA'']"

definition statement_verb :: "string \<Rightarrow> string" where
  "statement_verb text =
     (let verb = first_keyword text in if verb = [] then ''statement'' else verb)"

definition check_sql :: "(string \<Rightarrow> statement list option) \<Rightarrow> string \<Rightarrow> unit res" where
  "check_sql parse_sql sql =
     (case parse_sql sql of
        None \<Rightarrow>
          (let verb = first_keyword sql in
           if verb \<in> set REFUSED_VERBS then Inl (Refused verb)
           else Inl (Invalid (''cannot parse the query: '' @ sql)))
      | Some [s] \<Rightarrow>
          (case s of
             SqlQuery \<Rightarrow> Inr ()
           | SqlStatement text \<Rightarrow> Inl (Refused (statement_verb text))
           | Explain \<Rightarrow> Inl (Refused ''EXPLAIN'')
           | CreateExternalTable \<Rightarrow> Inl (Refused ''CREATE EXTERNAL TABLE'')
           | CopyTo \<Rightarrow> Inl (Refused ''COPY'')
           | OtherStatement \<Rightarrow> Inl (Refused (first_keyword sql)))
      | Some _ \<Rightarrow> Inl (Refused ''multiple statements''))"

text \<open>\<open>plan.exists\<close>: some node of the plan, subqueries aside.\<close>

fun plan_exists :: "(lplan \<Rightarrow> bool) \<Rightarrow> lplan \<Rightarrow> bool" where
  "plan_exists P (LFilter e subs i) = (P (LFilter e subs i) \<or> plan_exists P i)"
| "plan_exists P (LGate c h i) = (P (LGate c h i) \<or> plan_exists P i)"
| "plan_exists P (LScan c) = P (LScan c)"
| "plan_exists P (LOther k es ps) = (P (LOther k es ps) \<or> list_ex (plan_exists P) ps)"

fun is_explain :: "lplan \<Rightarrow> bool" where
  "is_explain (LOther KExplain es ps) = True"
| "is_explain (LOther KAnalyze es ps) = True"
| "is_explain _ = False"

definition check_plan :: "(lplan \<Rightarrow> bool) \<Rightarrow> lplan \<Rightarrow> unit res" where
  "check_plan verify_plan plan =
     (if \<not> verify_plan plan then Inl (Refused ''a statement that is not a query'')
      else if plan_exists is_explain plan then Inl (Refused ''EXPLAIN'')
      else Inr ())"

text \<open>
  What DataFusion documents of \<open>verify_plan\<close> with nothing but queries allowed: a plan it accepts has
  no data definition, no data manipulation and no statement node anywhere.
\<close>

fun nodes :: "lplan \<Rightarrow> lplan list" where
  "nodes (LFilter e subs i) = LFilter e subs i # concat (map nodes subs) @ nodes i"
| "nodes (LGate c h i) = LGate c h i # nodes i"
| "nodes (LScan c) = [LScan c]"
| "nodes (LOther k es ps) = LOther k es ps # concat (map nodes ps)"

fun is_statement :: "lplan \<Rightarrow> bool" where
  "is_statement (LOther k es ps) = (k = KDdl \<or> k = KDml \<or> k = KStatement)"
| "is_statement _ = False"

definition verify_laws :: "(lplan \<Rightarrow> bool) \<Rightarrow> bool" where
  "verify_laws verify_plan \<longleftrightarrow>
     (\<forall>p. verify_plan p \<longrightarrow> (\<forall>n \<in> set (nodes p). \<not> is_statement n))"

section \<open>Lemmas\<close>

text \<open>A well-formed block comment's inside, \<open>d\<close> comments deep, up to its own closing mark.\<close>

lemma after_newline_line: "CHR ''\<newline>'' \<notin> set l \<Longrightarrow> after_newline (l @ CHR ''\<newline>'' # s) = s"
  by (induction l) auto

inductive comment_body :: "string \<Rightarrow> bool" where
  empty: "comment_body []"
| char: "comment_body s \<Longrightarrow> c \<noteq> CHR ''/'' \<Longrightarrow> c \<noteq> CHR ''*'' \<Longrightarrow> comment_body (c # s)"
| nested: "comment_body s \<Longrightarrow> comment_body t \<Longrightarrow> comment_body (''/*'' @ s @ ''*/'' @ t)"

lemma after_comment_body:
  "comment_body s \<Longrightarrow> after_comment (Suc d) (s @ CHR ''*'' # CHR ''/'' # r) = after_comment d r"
proof (induction s arbitrary: d r rule: comment_body.induct)
  case (char s c)
  have "after_comment (Suc d) (c # x # xs) = after_comment (Suc d) (x # xs)" for x xs
    using char by simp
  then show ?case using char.IH char.hyps by (cases s) simp_all
next
  case (nested s t)
  have "after_comment (Suc (Suc d)) (s @ ''*/'' @ t @ CHR ''*'' # CHR ''/'' # r)
      = after_comment (Suc d) (t @ CHR ''*'' # CHR ''/'' # r)"
    using nested.IH(1) [of "Suc d" "t @ CHR ''*'' # CHR ''/'' # r"] by simp
  then show ?case using nested.IH(2) by simp
qed simp

lemma plan_exists_nodes: "plan_exists P p \<Longrightarrow> \<exists>n \<in> set (nodes p). P n"
proof (induction p)
  case (LOther k es ps)
  then show ?case by (fastforce simp: list_ex_iff)
qed auto

section \<open>Properties\<close>

text \<open>
  A statement passes exactly when it parses to a single query: nothing else, and no number of
  statements but one, reaches planning.
\<close>

theorem check_sql_exact:
  "check_sql parse_sql sql = Inr () \<longleftrightarrow> parse_sql sql = Some [SqlQuery]"
  by (auto simp: check_sql_def Let_def split: option.splits list.splits statement.splits)

text \<open>
  Comments do not hide a refused verb from the error a caller gets: leading line comments and
  (nested) block comments leave the first keyword as it is.
\<close>

theorem first_keyword_behind_comments:
  "(CHR ''\<newline>'' \<notin> set l \<longrightarrow> first_keyword (''--'' @ l @ CHR ''\<newline>'' # sql) = first_keyword sql)
   \<and> (comment_body c \<longrightarrow> first_keyword (''/*'' @ c @ ''*/'' @ sql) = first_keyword sql)"
proof (intro conjI impI)
  assume l: "CHR ''\<newline>'' \<notin> set l"
  have "trim_start (''--'' @ x) = ''--'' @ x" for x
    by (rule trim_start_none) (simp add: space_len_def ascii_space_def wide_spaces_def image_iff)
  then show "first_keyword (''--'' @ l @ CHR ''\<newline>'' # sql) = first_keyword sql"
    using after_newline_line [OF l] by (simp add: first_keyword_def skip_comments.simps [of "CHR ''-'' # _"])
next
  assume c: "comment_body c"
  have "trim_start (''/*'' @ x) = ''/*'' @ x" for x
    by (rule trim_start_none) (simp add: space_len_def ascii_space_def wide_spaces_def image_iff)
  then show "first_keyword (''/*'' @ c @ ''*/'' @ sql) = first_keyword sql"
    using after_comment_body [OF c, of 0] by (simp add: first_keyword_def skip_comments.simps [of "CHR ''/'' # _"])
qed

text \<open>
  A plan that passes the second check has no statement node anywhere, subqueries included, and no
  \<open>EXPLAIN\<close> among its nodes.
\<close>

theorem check_plan_reads_only:
  assumes "verify_laws verify_plan" and "check_plan verify_plan p = Inr ()"
  shows "(\<forall>n \<in> set (nodes p). \<not> is_statement n) \<and> \<not> plan_exists is_explain p"
  using assms by (auto simp: verify_laws_def check_plan_def split: if_splits)

theorem first_keyword_behind_comments_witness:
  "first_keyword (''/*'' @ '' /* drop */ '' @ ''*/'' @ ''Insert into t'') = ''INSERT''"
proof -
  have "comment_body '' drop ''" by (intro comment_body.intros) simp_all
  moreover have "comment_body '' ''" by (intro comment_body.intros) simp_all
  ultimately have "comment_body '' /* drop */ ''"
    using comment_body.char [OF comment_body.nested, of "'' drop ''" "'' ''" "CHR '' ''"] by simp
  then have "first_keyword (''/*'' @ '' /* drop */ '' @ ''*/'' @ ''Insert into t'') = first_keyword ''Insert into t''"
    using first_keyword_behind_comments [where l = "[]"] by blast
  also have "\<dots> = ''INSERT''" by code_simp
  finally show ?thesis .
qed

theorem check_plan_reads_only_witness:
  "check_plan (\<lambda>p. \<forall>n \<in> set (nodes p). \<not> is_statement n) (LFilter (Column ''x'') [] (LScan ''t/c'')) = Inr ()
   \<and> \<not> plan_exists is_explain (LFilter (Column ''x'') [] (LScan ''t/c''))"
proof -
  have run: "check_plan (\<lambda>p. \<forall>n \<in> set (nodes p). \<not> is_statement n) (LFilter (Column ''x'') [] (LScan ''t/c'')) = Inr ()"
    by (simp add: check_plan_def)
  from check_plan_reads_only [OF _ run] run show ?thesis by (simp add: verify_laws_def)
qed

end
