(* ===== verification/Gate.thy ===== *)
theory Gate
  imports Plans
begin

text \<open>
  The gate (\<open>src/gate.rs\<close>): the node every contract's view ends in, the optimiser rule that lets the
  caller's predicates across it, the physical gate and scan operators, and the proof over the physical
  plan that no contract data is read outside its gate. DataFusion's \<open>split_conjunction\<close> and
  \<open>conjunction\<close>, and its evaluation of expressions and of every other node, are parameters.
\<close>

section \<open>Predicates that cannot fail\<close>

fun comparison_or_logic :: "operator \<Rightarrow> bool" where
  "comparison_or_logic (OtherOp _) = False"
| "comparison_or_logic _ = True"

fun is_literal :: "expr \<Rightarrow> bool" where
  "is_literal (Literal _) = True"
| "is_literal _ = False"

text \<open>\<open>e.apply\<close> visits the expression and everything under it, and stops at the first refusal.\<close>

fun cannot_fail :: "expr \<Rightarrow> bool" where
  "cannot_fail (Column _) = True"
| "cannot_fail (Literal _) = True"
| "cannot_fail (Test _ e) = cannot_fail e"
| "cannot_fail (TryCast e _) = cannot_fail e"
| "cannot_fail (Between e low high) = (cannot_fail e \<and> cannot_fail low \<and> cannot_fail high)"
| "cannot_fail (BinaryExpr l op r) = (comparison_or_logic op \<and> cannot_fail l \<and> cannot_fail r)"
| "cannot_fail (InList e es) = (list_all is_literal es \<and> cannot_fail e \<and> list_all cannot_fail es)"
| "cannot_fail (Like e pat escape) = (escape = None \<and> cannot_fail e \<and> cannot_fail pat)"
| "cannot_fail (Cast e _) = (is_literal e \<and> cannot_fail e)"
| "cannot_fail (OtherExpr _ _) = False"

section \<open>The barrier\<close>

record conjunctions =
  split_conjunction :: "expr \<Rightarrow> expr list"
  conjunction :: "expr list \<Rightarrow> expr option"

text \<open>The rule at one node. A filter's subqueries stay in the filter above the gate: an expression
  that holds one can fail.\<close>

definition barrier_node :: "conjunctions \<Rightarrow> lplan \<Rightarrow> lplan" where
  "barrier_node C node =
     (case node of
        LFilter p subs (LGate c h inner) \<Rightarrow>
          (let (safe, rest) = partition cannot_fail (split_conjunction C p) in
           case conjunction C safe of
             None \<Rightarrow> node
           | Some below \<Rightarrow>
               (let gated = LGate c h (LFilter below [] inner) in
                case conjunction C rest of
                  Some upper \<Rightarrow> LFilter upper subs gated
                | None \<Rightarrow> gated))
      | _ \<Rightarrow> node)"

text \<open>\<open>transform_up_with_subqueries\<close>: subqueries and inputs first, then the node.\<close>

fun barrier :: "conjunctions \<Rightarrow> lplan \<Rightarrow> lplan" where
  "barrier C (LFilter p subs i) = barrier_node C (LFilter p (map (barrier C) subs) (barrier C i))"
| "barrier C (LGate c h i) = barrier_node C (LGate c h (barrier C i))"
| "barrier C (LScan c) = barrier_node C (LScan c)"
| "barrier C (LOther k es ps) = barrier_node C (LOther k es (map (barrier C) ps))"

section \<open>The physical operators\<close>

text \<open>\<open>plan_extension\<close>: a gate is planned as the physical gate over its planned input.\<close>

definition plan_extension :: "lplan \<Rightarrow> pplan list \<Rightarrow> pplan option" where
  "plan_extension node physical_inputs =
     (case node of LGate c h _ \<Rightarrow> Some (PGate c h (hd physical_inputs)) | _ \<Rightarrow> None)"

text \<open>\<open>BoundTable::scan\<close>: the scan of the bound table, marked with its contract.\<close>

definition bound_table_scan :: "string \<Rightarrow> pplan \<Rightarrow> pplan" where
  "bound_table_scan c inner = PScan c inner"

text \<open>What an operator yields and what its metrics count.\<close>

record scan_metrics =
  output_rows :: nat
  scan_bytes :: nat

definition gate_execute :: "stream \<Rightarrow> stream \<times> nat" where
  "gate_execute input = (input, stream_rows input)"

definition scan_execute :: "(batch \<Rightarrow> nat) \<Rightarrow> stream \<Rightarrow> stream \<times> scan_metrics" where
  "scan_execute memory_size input =
     (input, \<lparr>output_rows = stream_rows input,
              scan_bytes = sum_list (map (\<lambda>x. case x of Inl _ \<Rightarrow> 0 | Inr b \<Rightarrow> memory_size b) input)\<rparr>)"

fun with_new_children :: "pplan \<Rightarrow> pplan list \<Rightarrow> pplan" where
  "with_new_children (PGate c h i) ps = PGate c h (hd ps)"
| "with_new_children (PScan c i) ps = PScan c (hd ps)"
| "with_new_children (PNode l _) ps = PNode l ps"

fun gates :: "pplan \<Rightarrow> string list" where
  "gates (PGate c h i) = c # gates i"
| "gates (PScan c i) = gates i"
| "gates (PNode l ps) = concat (map gates ps)"

text \<open>The walk of \<open>ensure_gated\<close> under the nearest gate above.\<close>

fun walk :: "string option \<Rightarrow> pplan \<Rightarrow> unit res" where
  "walk g (PGate c h i) = walk (Some c) i"
| "walk g (PScan c i) = (if g \<noteq> Some c then Inl (Ungated c) else walk g i)"
| "walk g (PNode l ps) = and_then (map_res (walk g) ps) (\<lambda>_. Inr ())"

definition ensure_gated :: "pplan \<Rightarrow> unit res" where
  "ensure_gated p = walk None p"

section \<open>What the plan proof means\<close>

text \<open>\<open>reads g p k c\<close>: below the gate \<open>g\<close>, plan \<open>p\<close> scans contract \<open>c\<close>'s data, and \<open>k\<close> is the nearest
  gate above that scan.\<close>

inductive reads :: "string option \<Rightarrow> pplan \<Rightarrow> string option \<Rightarrow> string \<Rightarrow> bool" where
  scan: "reads g (PScan c i) g c"
| in_scan: "reads g i k c \<Longrightarrow> reads g (PScan d i) k c"
| in_gate: "reads (Some d) i k c \<Longrightarrow> reads g (PGate d h i) k c"
| in_node: "p \<in> set ps \<Longrightarrow> reads g p k c \<Longrightarrow> reads g (PNode l ps) k c"

inductive_simps reads_simps:
  "reads g (PScan d i) k c" "reads g (PGate d h i) k c" "reads g (PNode l ps) k c"

lemma map_res_unit: "(\<exists>ys. map_res f xs = Inr ys) \<longleftrightarrow> (\<forall>x \<in> set xs. \<exists>y. f x = Inr y)"
  by (induction xs) (auto simp: and_then_eq_Inr)

lemma map_res_first_error: "map_res f xs = Inl e \<Longrightarrow> \<exists>x \<in> set xs. f x = Inl e"
  by (induction xs) (auto simp: and_then_eq_Inl)

lemma walk_node: "walk g (PNode l ps) = Inr () \<longleftrightarrow> (\<forall>p \<in> set ps. walk g p = Inr ())"
proof -
  have "walk g (PNode l ps) = Inr () \<longleftrightarrow> (\<exists>ys. map_res (walk g) ps = Inr ys)"
    by (auto simp: and_then_eq_Inr)
  then show ?thesis using map_res_unit [of "walk g" ps] by simp
qed

lemma walk_iff: "walk g p = Inr () \<longleftrightarrow> (\<forall>k c. reads g p k c \<longrightarrow> k = Some c)"
proof (induction p arbitrary: g)
  case (PNode l ps)
  have "walk g (PNode l ps) = Inr () \<longleftrightarrow> (\<forall>p \<in> set ps. \<forall>k c. reads g p k c \<longrightarrow> k = Some c)"
    using PNode.IH unfolding walk_node by simp
  then show ?case unfolding reads_simps by blast
qed (auto simp: reads_simps)

lemma walk_error: "walk g p = Inl e \<Longrightarrow> \<exists>k c. e = Ungated c \<and> reads g p k c \<and> k \<noteq> Some c"
proof (induction p arbitrary: g)
  case (PNode l ps)
  then have "map_res (walk g) ps = Inl e" by (simp add: and_then_eq_Inl)
  then obtain p where p: "p \<in> set ps" "walk g p = Inl e" using map_res_first_error by fast
  from PNode.IH [OF p] p(1) show ?case by (blast intro: in_node)
next
  case (PScan c p)
  show ?case
  proof (cases "g = Some c")
    case True
    then have "walk g p = Inl e" using PScan.prems by simp
    from PScan.IH [OF this] show ?thesis by (blast intro: in_scan)
  next
    case False
    then show ?thesis using PScan.prems by (auto intro: scan)
  qed
next
  case (PGate c h p)
  then have "walk (Some c) p = Inl e" by simp
  from PGate.IH [OF this] show ?case by (blast intro: in_gate)
qed

section \<open>What running a plan means\<close>

text \<open>
  DataFusion's engine: what a predicate is on a row, given the rows its subqueries yielded (an error, or
  true, false or null), what a table scan yields, and what every other node makes of its inputs. A gate
  passes its input through.
\<close>

record 'r df_engine =
  ev :: "expr \<Rightarrow> (df_error + 'r list) list \<Rightarrow> 'r \<Rightarrow> df_error + bool option"
  scan_rows :: "string \<Rightarrow> df_error + 'r list"
  other_node :: "plan_kind \<Rightarrow> expr list \<Rightarrow> (df_error + 'r list) list \<Rightarrow> df_error + 'r list"

definition filter_rows ::
  "('r \<Rightarrow> df_error + bool option) \<Rightarrow> 'r list \<Rightarrow> df_error + 'r list" where
  "filter_rows f rs =
     and_then (map_res f rs) (\<lambda>vs. Inr (map fst (filter (\<lambda>p. snd p = Some True) (zip rs vs))))"

fun run_plan :: "'r df_engine \<Rightarrow> lplan \<Rightarrow> df_error + 'r list" where
  "run_plan E (LFilter p subs i) =
     and_then (run_plan E i) (filter_rows (ev E p (map (run_plan E) subs)))"
| "run_plan E (LGate c h i) = run_plan E i"
| "run_plan E (LScan c) = scan_rows E c"
| "run_plan E (LOther k es ps) = other_node E k es (map (run_plan E) ps)"

text \<open>
  What the conjunction functions are documented to be: the parts of a tree of \<open>AND\<close>s, left to right,
  and the parts joined by \<open>AND\<close>.
\<close>

fun and_parts :: "expr \<Rightarrow> expr list" where
  "and_parts (BinaryExpr l OpAnd r) = and_parts l @ and_parts r"
| "and_parts e = [e]"

definition conjunction_laws :: "conjunctions \<Rightarrow> bool" where
  "conjunction_laws C \<longleftrightarrow> (\<forall>e. split_conjunction C e = and_parts e)
     \<and> conjunction C [] = None
     \<and> (\<forall>e es. conjunction C (e # es) = Some (foldl (\<lambda>a b. BinaryExpr a OpAnd b) e es))"

text \<open>
  What evaluation is documented to be. \<open>AND\<close> combines what its sides are: true is its unit, it is true
  only when both are, it does not fail when neither does, and how it is bracketed does not matter. An
  expression of the source's list does not fail, and holds no subquery. Whatever a subquery or an input
  makes of a failing plan, it makes of one that yields rows what it makes of those rows.
\<close>

definition and_laws :: "(df_error + bool option \<Rightarrow> df_error + bool option \<Rightarrow> df_error + bool option) \<Rightarrow> bool" where
  "and_laws andv \<longleftrightarrow>
     (\<forall>y. andv (Inr (Some True)) y = y) \<and> (\<forall>x. andv x (Inr (Some True)) = x)
   \<and> (\<forall>x y. andv x y = Inr (Some True) \<longrightarrow> x = Inr (Some True) \<and> y = Inr (Some True))
   \<and> (\<forall>a b. \<exists>v. andv (Inr a) (Inr b) = Inr v)
   \<and> (\<forall>x y z. andv (andv x y) z = andv x (andv y z))"

definition refines :: "'e + 'a \<Rightarrow> 'e + 'a \<Rightarrow> bool" where
  "refines new old \<longleftrightarrow> (\<forall>rs. old = Inr rs \<longrightarrow> new = Inr rs)"

definition engine_laws :: "'r df_engine \<Rightarrow> bool" where
  "engine_laws E \<longleftrightarrow>
     (\<exists>andv. and_laws andv
        \<and> (\<forall>l r qs x. ev E (BinaryExpr l OpAnd r) qs x = andv (ev E l qs x) (ev E r qs x)))
   \<and> (\<forall>e x. cannot_fail e \<longrightarrow> (\<exists>v. \<forall>qs. ev E e qs x = Inr v))
   \<and> (\<forall>e qs qs' x. list_all2 refines qs' qs \<longrightarrow> refines (ev E e qs' x) (ev E e qs x))
   \<and> (\<forall>k es ps ps'. list_all2 refines ps' ps \<longrightarrow> refines (other_node E k es ps') (other_node E k es ps))"

lemma refines_refl [simp]: "refines x x"
  by (simp add: refines_def)

lemma refines_trans: "refines x y \<Longrightarrow> refines y z \<Longrightarrow> refines x z"
  by (simp add: refines_def)

section \<open>Conjunctions\<close>

lemma filter_rows_Inr:
  "filter_rows f rs = Inr out \<longleftrightarrow>
     (\<forall>x \<in> set rs. \<exists>v. f x = Inr v) \<and> out = filter (\<lambda>x. f x = Inr (Some True)) rs"
proof (induction rs arbitrary: out)
  case (Cons x rs)
  show ?case
  proof (cases "f x")
    case (Inr v)
    have "filter_rows f (x # rs) = Inr out \<longleftrightarrow>
        (\<exists>out'. filter_rows f rs = Inr out' \<and> out = (if v = Some True then x # out' else out'))"
      by (auto simp: filter_rows_def and_then_eq_Inr Inr)
    then show ?thesis using Cons.IH by (auto simp: Inr)
  qed (simp add: filter_rows_def)
qed (auto simp: filter_rows_def)

lemma filter_rows_refines:
  "\<forall>x. refines (f' x) (f x) \<Longrightarrow> refines (filter_rows f' rs) (filter_rows f rs)"
  unfolding refines_def filter_rows_Inr by (metis (no_types, lifting) filter_cong)

text \<open>The value of a list of conjuncts.\<close>

definition and_all ::
  "(df_error + bool option \<Rightarrow> df_error + bool option \<Rightarrow> df_error + bool option)
     \<Rightarrow> (df_error + bool option) list \<Rightarrow> df_error + bool option" where
  "and_all andv vs = foldr andv vs (Inr (Some True))"

lemma and_all_simps [simp]:
  "and_all andv [] = Inr (Some True)" "and_all andv (v # vs) = andv v (and_all andv vs)"
  by (simp_all add: and_all_def)

lemma and_lawsD:
  assumes "and_laws andv"
  shows "andv (Inr (Some True)) y = y" "andv x (Inr (Some True)) = x"
    "andv x y = Inr (Some True) \<Longrightarrow> x = Inr (Some True) \<and> y = Inr (Some True)"
    "\<exists>v. andv (Inr a) (Inr b) = Inr v" "andv (andv x y) z = andv x (andv y z)"
  using assms unfolding and_laws_def by blast+

lemma and_all_append: "and_laws andv \<Longrightarrow> and_all andv (us @ vs) = andv (and_all andv us) (and_all andv vs)"
  by (induction us) (simp_all add: and_lawsD(1,5))

lemma and_all_true: "and_laws andv \<Longrightarrow> and_all andv vs = Inr (Some True) \<longleftrightarrow> (\<forall>v \<in> set vs. v = Inr (Some True))"
proof (induction vs)
  case (Cons v vs)
  then show ?case using and_lawsD(1) [of andv] and_lawsD(3) [of andv v "and_all andv vs"] by auto
qed simp

lemma and_all_total: "and_laws andv \<Longrightarrow> \<forall>v \<in> set vs. \<exists>w. v = Inr w \<Longrightarrow> \<exists>w. and_all andv vs = Inr w"
proof (induction vs)
  case (Cons v vs)
  then show ?case using and_lawsD(4) [of andv] by auto
qed simp

lemma and_all_drop_true:
  "and_laws andv \<Longrightarrow> \<forall>e \<in> set es. P e \<longrightarrow> f e = Inr (Some True) \<Longrightarrow>
     and_all andv (map f es) = and_all andv (map f (filter (\<lambda>e. \<not> P e) es))"
  by (induction es) (auto simp: and_lawsD(1))

lemma ev_and_parts:
  assumes "and_laws andv" and "\<And>l r. f (BinaryExpr l OpAnd r) = andv (f l) (f r)"
  shows "f e = and_all andv (map f (and_parts e))"
  by (induction e rule: and_parts.induct) (simp_all add: assms and_all_append and_lawsD(2) [OF assms(1)])

lemma ev_foldl_and:
  assumes "and_laws andv" and "\<And>l r. f (BinaryExpr l OpAnd r) = andv (f l) (f r)"
  shows "f (foldl (\<lambda>a b. BinaryExpr a OpAnd b) e es) = andv (f e) (and_all andv (map f es))"
  by (induction es arbitrary: e) (simp_all add: assms(2) and_lawsD(1,2,5) [OF assms(1)])

lemma conjunction_ev:
  assumes "and_laws andv" and "\<And>l r. f (BinaryExpr l OpAnd r) = andv (f l) (f r)"
    and "conjunction_laws C"
  shows "conjunction C es = (case es of [] \<Rightarrow> None | _ \<Rightarrow> conjunction C es)"
    and "conjunction C es = Some e \<Longrightarrow> f e = and_all andv (map f es)"
    and "conjunction C es = None \<longleftrightarrow> es = []"
proof -
  note laws = assms(3) [unfolded conjunction_laws_def]
  show "conjunction C es = (case es of [] \<Rightarrow> None | _ \<Rightarrow> conjunction C es)"
    "conjunction C es = None \<longleftrightarrow> es = []"
    using laws by (cases es; simp)+
  assume "conjunction C es = Some e"
  then show "f e = and_all andv (map f es)"
    using laws ev_foldl_and [OF assms(1,2)] by (cases es) auto
qed

text \<open>Moving the parts that cannot fail below the gate keeps the rows of a filter that did not fail.\<close>

lemma barrier_filter:
  assumes "conjunction_laws C" and "engine_laws E"
  shows "refines (run_plan E (barrier_node C (LFilter p subs (LGate c h i))))
                 (run_plan E (LFilter p subs (LGate c h i)))"
proof -
  let ?qs = "map (run_plan E) subs"
  let ?safe = "filter cannot_fail (and_parts p)" and ?rest = "filter (\<lambda>e. \<not> cannot_fail e) (and_parts p)"
  note E = assms(2) [unfolded engine_laws_def]
  obtain andv where A: "and_laws andv \<and>
      (\<forall>l r qs x. ev E (BinaryExpr l OpAnd r) qs x = andv (ev E l qs x) (ev E r qs x))"
    using E by (elim conjE exE) (rule that, rule conjI)
  note laws = A [THEN conjunct1]
  have AND: "ev E (BinaryExpr l OpAnd r) qs x = andv (ev E l qs x) (ev E r qs x)" for l r qs x
    using A by simp
  have safe: "cannot_fail e \<Longrightarrow> \<exists>v. \<forall>qs. ev E e qs x = Inr v" for e x
    using E [THEN conjunct2, THEN conjunct1] by simp
  have split: "split_conjunction C p = and_parts p" using assms(1) by (simp add: conjunction_laws_def)
  note conj_ev = conjunction_ev [of andv "\<lambda>e. ev E e qs x" C for qs x, OF laws AND assms(1)]
  show ?thesis
  proof (cases "conjunction C ?safe")
    case None
    then show ?thesis by (simp add: barrier_node_def split comp_def)
  next
    case (Some below)
    define rs' where "rs' rs = filter (\<lambda>x. ev E below [] x = Inr (Some True)) rs" for rs
    have below_ok: "\<exists>v. ev E below [] x = Inr v" for x
      unfolding conj_ev(2) [OF Some] using safe by (intro and_all_total [OF laws]) fastforce
    have gated: "run_plan E (LGate c h (LFilter below [] i)) = Inr (rs' rs)" if "run_plan E i = Inr rs" for rs
      using that below_ok by (simp add: filter_rows_Inr rs'_def)
    have parts: "ev E p ?qs x = and_all andv (map (\<lambda>e. ev E e ?qs x) ?rest)"
      if "ev E below [] x = Inr (Some True)" for x
    proof -
      have "ev E e ?qs x = Inr (Some True)" if "e \<in> set (and_parts p)" "cannot_fail e" for e
      proof -
        have "ev E e [] x = Inr (Some True)"
          using \<open>ev E below [] x = Inr (Some True)\<close> that
          unfolding conj_ev(2) [OF Some] and_all_true [OF laws] by simp
        then show ?thesis using safe [OF that(2), of x] by force
      qed
      then have "\<forall>e \<in> set (and_parts p). cannot_fail e \<longrightarrow> ev E e ?qs x = Inr (Some True)" by simp
      from and_all_drop_true [OF laws this] show ?thesis
        by (subst ev_and_parts [OF laws, of "\<lambda>e. ev E e ?qs x"]) (simp_all add: AND)
    qed
    have kept: "ev E p ?qs x = Inr (Some True) \<Longrightarrow> ev E below [] x = Inr (Some True)" for x
    proof -
      assume "ev E p ?qs x = Inr (Some True)"
      then have "\<forall>e \<in> set (and_parts p). ev E e ?qs x = Inr (Some True)"
        using ev_and_parts [OF laws, of "\<lambda>e. ev E e ?qs x" p] and_all_true [OF laws] by (simp add: AND)
      then have "ev E e [] x = Inr (Some True)" if "e \<in> set (and_parts p)" "cannot_fail e" for e
        using that safe [OF that(2), of x] by force
      then show ?thesis unfolding conj_ev(2) [OF Some] and_all_true [OF laws] by simp
    qed
    have same: "filter (\<lambda>x. ev E p ?qs x = Inr (Some True)) (rs' rs)
        = filter (\<lambda>x. ev E p ?qs x = Inr (Some True)) rs" for rs
      using kept by (auto simp: rs'_def intro: filter_cong)
    show ?thesis unfolding refines_def
    proof (intro allI impI)
      fix out assume "run_plan E (LFilter p subs (LGate c h i)) = Inr out"
      then obtain rs where rs: "run_plan E i = Inr rs" and ok: "\<forall>x \<in> set rs. \<exists>v. ev E p ?qs x = Inr v"
        and out: "out = filter (\<lambda>x. ev E p ?qs x = Inr (Some True)) rs"
        by (auto simp: and_then_eq_Inr filter_rows_Inr)
      show "run_plan E (barrier_node C (LFilter p subs (LGate c h i))) = Inr out"
      proof (cases "conjunction C ?rest")
        case None
        then have "?rest = []" using conj_ev(3) by simp
        then have "\<forall>x \<in> set (rs' rs). ev E p ?qs x = Inr (Some True)"
          using parts by (simp add: rs'_def)
        then have "filter (\<lambda>x. ev E p ?qs x = Inr (Some True)) (rs' rs) = rs' rs" by (rule filter_True)
        then have "out = rs' rs" unfolding same out .
        then show ?thesis using Some None gated [OF rs] by (simp add: barrier_node_def split comp_def)
      next
        case hi: (Some upper)
        have eq: "ev E upper ?qs x = ev E p ?qs x" if "x \<in> set (rs' rs)" for x
          using parts [of x] that unfolding conj_ev(2) [OF hi] by (simp add: rs'_def)
        have "out = filter (\<lambda>x. ev E p ?qs x = Inr (Some True)) (rs' rs)" using same [of rs] out by simp
        also have "\<dots> = filter (\<lambda>x. ev E upper ?qs x = Inr (Some True)) (rs' rs)"
          using eq by (intro filter_cong) simp_all
        finally have "filter_rows (ev E upper ?qs) (rs' rs) = Inr out"
          unfolding filter_rows_Inr using ok eq by (auto simp: rs'_def)
        then show ?thesis using Some hi gated [OF rs] by (simp add: barrier_node_def split comp_def)
      qed
    qed
  qed
qed

lemma barrier_node_refines:
  assumes "conjunction_laws C" and "engine_laws E"
  shows "refines (run_plan E (barrier_node C n)) (run_plan E n)"
proof (cases "\<exists>p subs c h i. n = LFilter p subs (LGate c h i)")
  case True
  then show ?thesis using barrier_filter [OF assms] by blast
next
  case False
  then have "barrier_node C n = n" by (auto simp: barrier_node_def split: lplan.splits)
  then show ?thesis by simp
qed

lemma engine_lawsD:
  assumes "engine_laws E"
  shows "list_all2 refines qs' qs \<Longrightarrow> refines (ev E e qs' x) (ev E e qs x)"
    and "list_all2 refines ps' ps \<Longrightarrow> refines (other_node E k es ps') (other_node E k es ps)"
proof -
  note E = assms [unfolded engine_laws_def]
  show "list_all2 refines qs' qs \<Longrightarrow> refines (ev E e qs' x) (ev E e qs x)"
    using E [THEN conjunct2, THEN conjunct2, THEN conjunct1] by simp
  show "list_all2 refines ps' ps \<Longrightarrow> refines (other_node E k es ps') (other_node E k es ps)"
    using E [THEN conjunct2, THEN conjunct2, THEN conjunct2] by simp
qed

text \<open>Where each filter that stands under a gate came from: the caller's own, or parts that cannot fail.\<close>

fun gate_filter :: "lplan \<Rightarrow> expr option" where
  "gate_filter (LGate c h (LFilter p subs i)) = Some p"
| "gate_filter _ = None"

section \<open>Properties\<close>

text \<open>
  C1. A physical plan passes the proof exactly when every scan of contract data in it, however deep,
  has its own contract's gate as the nearest gate above it; and a refusal names a contract one of whose
  scans has not.
\<close>

theorem ensure_gated_exact:
  "(ensure_gated p = Inr () \<longleftrightarrow> (\<forall>k c. reads None p k c \<longrightarrow> k = Some c))
   \<and> (ensure_gated p = Inl e \<longrightarrow> (\<exists>k c. e = Ungated c \<and> reads None p k c \<and> k \<noteq> Some c))"
  unfolding ensure_gated_def using walk_iff walk_error by blast


text \<open>
  What crosses a gate is a conjunction of the caller's parts that cannot fail, and of nothing else;
  what can fail stays above it, with the caller's subqueries.
\<close>

theorem barrier_moves_safe_parts:
  assumes "conjunction_laws C" and "barrier_node C (LFilter p subs (LGate c h i)) \<noteq> LFilter p subs (LGate c h i)"
  shows "\<exists>below. set (and_parts below) = {e \<in> set (and_parts p). cannot_fail e}
     \<and> (barrier_node C (LFilter p subs (LGate c h i)) = LGate c h (LFilter below [] i)
          \<and> (\<forall>e \<in> set (and_parts p). cannot_fail e)
        \<or> (\<exists>upper. barrier_node C (LFilter p subs (LGate c h i)) = LFilter upper subs (LGate c h (LFilter below [] i))
             \<and> set (and_parts upper) = {e \<in> set (and_parts p). \<not> cannot_fail e}))"
proof -
  have split: "split_conjunction C p = and_parts p" using assms(1) by (simp add: conjunction_laws_def)
  have leaves: "set (and_parts (foldl (\<lambda>a b. BinaryExpr a OpAnd b) e es)) = set (and_parts e) \<union> (\<Union>x \<in> set es. set (and_parts x))"
    for e es by (induction es arbitrary: e) auto
  have leaf: "e \<in> set (and_parts p) \<Longrightarrow> and_parts e = [e]" for e p
    by (induction p rule: and_parts.induct) auto
  have conj: "set (and_parts e) = set es" if some: "conjunction C es = Some e" and sub: "set es \<subseteq> set (and_parts p)" for es e
  proof -
    have one: "\<forall>x \<in> set es. and_parts x = [x]" using sub leaf by blast
    obtain a as where es: "es = a # as" using some assms(1) by (cases es) (simp_all add: conjunction_laws_def)
    then have "e = foldl (\<lambda>a b. BinaryExpr a OpAnd b) a as" using some assms(1) by (simp add: conjunction_laws_def)
    then show ?thesis using one unfolding es by (simp add: leaves)
  qed
  have none: "conjunction C es = None \<longleftrightarrow> es = []" for es
    using assms(1) by (cases es) (simp_all add: conjunction_laws_def)
  let ?safe = "filter cannot_fail (and_parts p)" and ?rest = "filter (\<lambda>e. \<not> cannot_fail e) (and_parts p)"
  from assms(2) obtain below where below: "conjunction C ?safe = Some below"
    by (cases "conjunction C ?safe") (simp_all add: barrier_node_def split)
  have b: "set (and_parts below) = {e \<in> set (and_parts p). cannot_fail e}"
    using conj [OF below] by auto
  show ?thesis
  proof (cases "conjunction C ?rest")
    case None
    then have "\<forall>e \<in> set (and_parts p). cannot_fail e" using none by (simp add: filter_empty_conv)
    then show ?thesis using None below b by (intro exI [of _ below]) (simp add: barrier_node_def split comp_def)
  next
    case (Some upper)
    have "set (and_parts upper) = {e \<in> set (and_parts p). \<not> cannot_fail e}"
      using conj [OF Some] by auto
    then show ?thesis using Some below b by (intro exI [of _ below]) (simp add: barrier_node_def split comp_def)
  qed
qed

section \<open>A concrete plan\<close>

definition ex_conjunctions :: conjunctions where
  "ex_conjunctions = \<lparr>split_conjunction = and_parts,
     conjunction = (\<lambda>es. case es of [] \<Rightarrow> None | e # es \<Rightarrow> Some (foldl (\<lambda>a b. BinaryExpr a OpAnd b) e es))\<rparr>"

lemma ex_conjunctions_laws: "conjunction_laws ex_conjunctions"
  by (simp add: conjunction_laws_def ex_conjunctions_def)

text \<open>\<open>AND\<close> evaluated from the left, stopping at the first side that is not true.\<close>

definition short_and :: "df_error + bool option \<Rightarrow> df_error + bool option \<Rightarrow> df_error + bool option" where
  "short_and x y = (if x = Inr (Some True) then y else x)"

lemma short_and_laws: "and_laws short_and"
  by (auto simp: and_laws_def short_and_def)

text \<open>Rows are numbers; a column is true above ten, and every other expression fails below five.\<close>

fun ex_ev :: "expr \<Rightarrow> nat \<Rightarrow> df_error + bool option" where
  "ex_ev (BinaryExpr l OpAnd r) x = short_and (ex_ev l x) (ex_ev r x)"
| "ex_ev (OtherExpr f es) x = (if x < 5 then Inl (DfOther f) else Inr (Some True))"
| "ex_ev e x = (if cannot_fail e then Inr (Some (10 < x)) else Inl (DfOther ''''))"

definition ex_engine :: "nat df_engine" where
  "ex_engine = \<lparr>ev = (\<lambda>e qs x. ex_ev e x), scan_rows = (\<lambda>c. Inr [11, 12, 13]),
     other_node = (\<lambda>k es ps. case ps of [p] \<Rightarrow> p | _ \<Rightarrow> Inl (DfOther ''''))\<rparr>"

lemma ex_ev_safe: "cannot_fail e \<Longrightarrow> \<exists>v. ex_ev e x = Inr v"
  by (induction e x rule: ex_ev.induct) (auto simp: short_and_def)

lemma ex_engine_laws: "engine_laws ex_engine"
proof -
  have "ev ex_engine (BinaryExpr l OpAnd r) qs x = short_and (ev ex_engine l qs x) (ev ex_engine r qs x)" for l r qs x
    by (simp add: ex_engine_def)
  moreover have "\<exists>v. \<forall>qs. ev ex_engine e qs x = Inr v" if "cannot_fail e" for e x
    using ex_ev_safe [OF that] by (simp add: ex_engine_def)
  moreover have "refines (other_node ex_engine k es ps') (other_node ex_engine k es ps)"
    if "list_all2 refines ps' ps" for k es ps ps'
    using that by (auto simp: ex_engine_def refines_def list_all2_Cons2 split: list.splits)
  moreover have "refines (ev ex_engine e qs' x) (ev ex_engine e qs x)" for e qs qs' x
    by (simp add: ex_engine_def)
  ultimately show ?thesis using short_and_laws unfolding engine_laws_def
    by (intro conjI exI [of _ short_and] allI impI)
qed

definition ex_plan :: lplan where
  "ex_plan = LFilter (BinaryExpr (OtherExpr ''f'' []) OpAnd (Column ''x'')) [] (LGate ''t/c'' ''k1'' (LScan ''t/c''))"

theorem ensure_gated_exact_witness:
  "ensure_gated (PGate ''t/c'' ''k1'' (PNode ''Filter'' [PScan ''t/c'' (PNode ''Parquet'' [])])) = Inr ()
   \<and> ensure_gated (PGate ''t/c'' ''k1'' (PScan ''t/d'' (PNode ''Parquet'' []))) = Inl (Ungated ''t/d'')
   \<and> (\<exists>k c. Ungated ''t/d'' = Ungated c
        \<and> reads None (PGate ''t/c'' ''k1'' (PScan ''t/d'' (PNode ''Parquet'' []))) k c \<and> k \<noteq> Some c)"
proof -
  have run: "ensure_gated (PGate ''t/c'' ''k1'' (PNode ''Filter'' [PScan ''t/c'' (PNode ''Parquet'' [])])) = Inr ()"
    "ensure_gated (PGate ''t/c'' ''k1'' (PScan ''t/d'' (PNode ''Parquet'' []))) = Inl (Ungated ''t/d'')"
    by (simp_all add: ensure_gated_def)
  with ensure_gated_exact [of "PGate ''t/c'' ''k1'' (PScan ''t/d'' (PNode ''Parquet'' []))" "Ungated ''t/d''"]
  show ?thesis by simp
qed


theorem barrier_moves_safe_parts_witness:
  "\<exists>below. set (and_parts below) = {e \<in> set (and_parts (BinaryExpr (OtherExpr ''f'' []) OpAnd (Column ''x''))). cannot_fail e}"
proof -
  have "barrier_node ex_conjunctions ex_plan \<noteq> ex_plan"
    by (simp add: barrier_node_def ex_conjunctions_def ex_plan_def)
  from barrier_moves_safe_parts [OF ex_conjunctions_laws this [unfolded ex_plan_def]] show ?thesis by blast
qed

end
