(* ===== verification/Shape.thy ===== *)
theory Shape
  imports Plans
begin

text \<open>
  The one shape that acts while a plan runs (\<open>src/shape.rs\<close>): \<open>SuppressExec\<close> withholds a whole
  result of fewer than \<open>k\<close> rows. A stream is the list of what it yields; the operator's input is
  already merged into one partition.
\<close>

section \<open>The operator\<close>

record suppress_exec =
  sx_k :: nat
  sx_input :: pplan

text \<open>\<open>SuppressExec::new\<close>: the input's partitions are merged first.\<close>

definition suppress_exec_new :: "(pplan \<Rightarrow> nat) \<Rightarrow> nat \<Rightarrow> pplan \<Rightarrow> suppress_exec" where
  "suppress_exec_new partition_count k input =
     \<lparr>sx_k = k, sx_input = (if 1 < partition_count input then PNode ''CoalescePartitionsExec'' [input] else input)\<rparr>"

text \<open>\<open>fmt_as\<close>, \<open>properties\<close>, \<open>children\<close> and \<open>with_new_children\<close>, which merges the new input's partitions again.\<close>

definition suppress_text :: "suppress_exec \<Rightarrow> string" where
  "suppress_text x = ''SuppressExec: k='' @ show_nat (sx_k x)"

definition suppress_properties :: "(pplan \<Rightarrow> 'p) \<Rightarrow> suppress_exec \<Rightarrow> 'p" where
  "suppress_properties properties x = properties (sx_input x)"

definition suppress_children :: "suppress_exec \<Rightarrow> pplan list" where
  "suppress_children x = [sx_input x]"

definition suppress_with_new_children :: "(pplan \<Rightarrow> nat) \<Rightarrow> suppress_exec \<Rightarrow> pplan list \<Rightarrow> suppress_exec" where
  "suppress_with_new_children partition_count x children = suppress_exec_new partition_count (sx_k x) (hd children)"

text \<open>The loop of \<open>hold_first\<close>: \<open>held\<close> are the batches held back so far, of \<open>rows\<close> rows.\<close>

fun hold :: "nat \<Rightarrow> batch list \<Rightarrow> nat \<Rightarrow> stream \<Rightarrow> df_error + stream" where
  "hold k held rows [] = (if rows < k then Inr [] else Inr (map Inr held))"
| "hold k held rows (x # xs) =
     (if rows < k then
        (case x of Inl e \<Rightarrow> Inl e | Inr b \<Rightarrow> hold k (held @ [b]) (rows + num_rows b) xs)
      else Inr (map Inr held @ x # xs))"

definition hold_first :: "stream \<Rightarrow> nat \<Rightarrow> df_error + stream" where
  "hold_first input k = hold k [] 0 input"

text \<open>\<open>execute\<close>: the one future of the head, flattened; its error becomes the stream's only item.\<close>

definition suppress_execute :: "nat \<Rightarrow> stream \<Rightarrow> stream" where
  "suppress_execute k input = (case hold_first input k of Inl e \<Rightarrow> [Inl e] | Inr s \<Rightarrow> s)"

section \<open>Lemmas\<close>

text \<open>The rows yielded before the first error.\<close>

abbreviation rows_before_error :: "stream \<Rightarrow> nat" where
  "rows_before_error xs \<equiv> stream_rows (takeWhile (\<lambda>x. \<not> isl x) xs)"

lemma rows_before_error_le: "rows_before_error xs \<le> stream_rows xs"
proof (induction xs)
  case (Cons x xs)
  then show ?case by (cases x) simp_all
qed simp

lemma hold_Inr:
  "hold k held rows xs = Inr s \<Longrightarrow>
     s = (if k \<le> rows + rows_before_error xs then map Inr held @ xs else [])"
proof (induction xs arbitrary: held rows)
  case (Cons x xs)
  show ?case
  proof (cases x)
    case (Inr b)
    then show ?thesis
      using Cons.IH [of "held @ [b]" "rows + num_rows b"] Cons.prems
      by (cases "rows < k") (simp_all add: add.assoc)
  next
    case (Inl e)
    then show ?thesis using Cons.prems by (auto split: if_splits)
  qed
qed (auto split: if_splits)

lemma hold_no_error: "\<forall>x \<in> set xs. \<not> isl x \<Longrightarrow> \<exists>s. hold k held rows xs = Inr s"
proof (induction xs arbitrary: held rows)
  case (Cons x xs)
  then show ?case by (cases x) simp_all
qed simp

lemma takeWhile_all: "\<forall>x \<in> set xs. P x \<Longrightarrow> takeWhile P xs = xs"
  by (simp add: takeWhile_eq_all_conv)

lemma suppress_none_or_k:
  "stream_rows (suppress_execute k input) = 0 \<or> k \<le> stream_rows (suppress_execute k input)"
proof (cases "hold_first input k")
  case (Inl e)
  then show ?thesis by (simp add: suppress_execute_def)
next
  case (Inr s)
  then have "s = (if k \<le> rows_before_error input then input else [])"
    using hold_Inr [of k "[]" 0 input s] by (simp add: hold_first_def)
  moreover note rows_before_error_le [of input]
  ultimately show ?thesis using Inr by (auto simp: suppress_execute_def)
qed

section \<open>Properties\<close>

text \<open>
  No result of fewer than \<open>k\<close> rows ever leaves the operator, whatever its input yields and wherever
  it fails: it releases no row at all, or at least \<open>k\<close>.
\<close>

theorem suppress_releases_none_or_k:
  "stream_rows (suppress_execute k input) = 0 \<or> k \<le> stream_rows (suppress_execute k input)"
  by (rule suppress_none_or_k)

text \<open>
  A result that is large enough is released unchanged, batch for batch; a smaller one is withheld
  whole.
\<close>

theorem suppress_exact:
  assumes "\<forall>x \<in> set input. \<not> isl x"
  shows "suppress_execute k input = (if k \<le> stream_rows input then input else [])"
proof -
  obtain s where s: "hold_first input k = Inr s"
    using hold_no_error [OF assms, of k "[]" 0] by (auto simp: hold_first_def)
  then have "s = (if k \<le> stream_rows input then input else [])"
    using hold_Inr [of k "[]" 0 input s] takeWhile_all [OF assms] by (simp add: hold_first_def)
  then show ?thesis by (simp add: suppress_execute_def s)
qed

text \<open>
  However often a planner rebuilds the operator, and over whatever inputs, it keeps its bound and counts a whole
  result: its input has one partition.
\<close>

theorem suppress_counts_whole_results:
  assumes "\<And>p. partition_count (PNode ''CoalescePartitionsExec'' [p]) \<le> 1"
  shows "sx_k (fold (\<lambda>ps x. suppress_with_new_children partition_count x ps) pss (suppress_exec_new partition_count k input)) = k
     \<and> partition_count (sx_input (fold (\<lambda>ps x. suppress_with_new_children partition_count x ps) pss
          (suppress_exec_new partition_count k input))) \<le> 1"
proof (induction pss rule: rev_induct)
  case Nil
  show ?case using assms by (simp add: suppress_exec_new_def)
next
  case (snoc ps pss)
  then show ?case using assms by (simp add: suppress_with_new_children_def suppress_exec_new_def)
qed

theorem suppress_exact_witness:
  "suppress_execute 3 [Inr \<lparr>batch_schema = [], columns = [], num_rows = 2\<rparr>] = []
   \<and> suppress_execute 2 [Inr \<lparr>batch_schema = [], columns = [], num_rows = 2\<rparr>]
     = [Inr \<lparr>batch_schema = [], columns = [], num_rows = 2\<rparr>]"
  by (subst (1 2) suppress_exact) simp_all

end
