(* ===== verification/Store.thy ===== *)
theory Store
  imports Manifest
begin

text \<open>
  The contract store (\<open>src/store.rs\<close>): compiled contracts by name and version, who each is published
  to, in memory and in a directory. The interface every engine uses is the locale \<open>contract_store\<close>,
  interpreted on both stores. JSON, parcel's compiled form and the outcome of disk writes are
  parameters; versions are \<open>u32\<close> values.
\<close>

section \<open>What is stored\<close>

definition PUBLIC :: string where
  "PUBLIC = ''public''"

record contract_doc =
  doc_contract :: string
  doc_text :: string

record fn_manifest =
  fm_name :: string
  fm_signature :: string

record bundled_function =
  bf_owner :: string
  bf_manifest :: fn_manifest
  bf_module :: string

record registered =
  r_doc :: contract_doc
  r_schema :: schema
  r_functions :: "bundled_function list"
  r_compilation :: compilation

definition reg_name :: "registered \<Rightarrow> string" where
  "reg_name r = cc_name (contract (r_compilation r))"

definition reg_version :: "registered \<Rightarrow> nat" where
  "reg_version r = cc_version (contract (r_compilation r))"

definition reg_owner :: "registered \<Rightarrow> string option" where
  "reg_owner r = cc_owner (contract (r_compilation r))"

text \<open>The compiled form, the record kept of a contract, and the audiences, as bytes.\<close>

type_synonym stored_contract = "contract_doc \<times> bundled_function list \<times> string"

record store_codec =
  comp_to_bytes :: "compilation \<Rightarrow> string + string"
  comp_from_bytes :: "string \<Rightarrow> string + compilation"
  from_utf8 :: "string \<Rightarrow> string + string"
  contract_to_json :: "stored_contract \<Rightarrow> string + string"
  contract_from_json :: "string \<Rightarrow> string + stored_contract"
  names_to_json :: "string set \<Rightarrow> string + string"
  names_from_json :: "string \<Rightarrow> string + string set"

definition from_compiled ::
  "store_codec \<Rightarrow> contract_doc \<Rightarrow> string \<Rightarrow> bundled_function list \<Rightarrow> registered res" where
  "from_compiled J doc compiled fns =
     (case comp_from_bytes J compiled of
        Inl e \<Rightarrow> Inl (Invalid e)
      | Inr c \<Rightarrow>
          if cc_name (contract c) \<noteq> doc_contract doc
          then Inl (Invalid (''the compiled contract is `'' @ cc_name (contract c) @ ''`; its document is `''
                 @ doc_contract doc @ ''`''))
          else Inr \<lparr>r_doc = doc, r_schema = row_schema (contract c), r_functions = fns, r_compilation = c\<rparr>)"

record stale_bundle =
  stale_path :: string
  stale_name :: string
  stale_version :: "nat option"
  stale_cause :: string

definition stale_text :: "stale_bundle \<Rightarrow> string" where
  "stale_text s = stale_path s @ '': '' @ stale_cause s"

section \<open>In memory\<close>

record contents =
  versions :: "(string, (nat, registered) btmap) btmap"
  audience_sets :: "(string, string set) btmap"

definition empty_contents :: contents where
  "empty_contents = \<lparr>versions = [], audience_sets = []\<rparr>"

definition mem_put :: "registered \<Rightarrow> contents \<Rightarrow> contents" where
  "mem_put c g = g\<lparr>versions := bt_update [] (bt_insert (reg_version c) c) (reg_name c) (versions g)\<rparr>"

definition newest :: "(nat, registered) btmap \<Rightarrow> registered option" where
  "newest vs = (if vs = [] then None else Some (snd (last vs)))"

definition mem_current :: "contents \<Rightarrow> string \<Rightarrow> registered option" where
  "mem_current g name = Option.bind (map_of (versions g) name) newest"

definition mem_version :: "contents \<Rightarrow> string \<Rightarrow> nat \<Rightarrow> registered option" where
  "mem_version g name v = Option.bind (map_of (versions g) name) (\<lambda>vs. map_of vs v)"

definition mem_list :: "contents \<Rightarrow> registered list" where
  "mem_list g = List.map_filter (\<lambda>e. newest (snd e)) (versions g)"

definition mem_audiences :: "contents \<Rightarrow> string \<Rightarrow> string set" where
  "mem_audiences g name = bt_get_or {} (audience_sets g) name"

definition mem_publish :: "string \<Rightarrow> string \<Rightarrow> contents \<Rightarrow> contents" where
  "mem_publish name audience g = g\<lparr>audience_sets := bt_update {} (insert audience) name (audience_sets g)\<rparr>"

definition mem_unpublish :: "string \<Rightarrow> string \<Rightarrow> contents \<Rightarrow> contents" where
  "mem_unpublish name audience g =
     (case map_of (audience_sets g) name of
        None \<Rightarrow> g
      | Some a \<Rightarrow> g\<lparr>audience_sets := bt_insert name (a - {audience}) (audience_sets g)\<rparr>)"

text \<open>The store's operations as the trait declares them: the state after, and the result.\<close>

definition memory_put :: "registered \<Rightarrow> contents \<Rightarrow> contents \<times> unit res" where
  "memory_put c g = (mem_put c g, Inr ())"

definition memory_publish :: "string \<Rightarrow> string \<Rightarrow> contents \<Rightarrow> contents \<times> unit res" where
  "memory_publish name audience g = (mem_publish name audience g, Inr ())"

definition memory_unpublish :: "string \<Rightarrow> string \<Rightarrow> contents \<Rightarrow> contents \<times> unit res" where
  "memory_unpublish name audience g = (mem_unpublish name audience g, Inr ())"

section \<open>On disk\<close>

text \<open>The directory \<open><root>/_peql/contracts\<close>: contract directories by name, files by name.\<close>

type_synonym store_dir = "(string, (string, file_state) btmap) btmap"

definition STORED :: string where
  "STORED = ''.peql.json''"

definition ends_with :: "string \<Rightarrow> string \<Rightarrow> bool" where
  "ends_with suffix s \<longleftrightarrow> length suffix \<le> length s \<and> drop (length s - length suffix) s = suffix"

definition strip_suffix :: "string \<Rightarrow> string \<Rightarrow> string option" where
  "strip_suffix suffix s = (if ends_with suffix s then Some (take (length s - length suffix) s) else None)"

definition strip_prefix_char :: "char \<Rightarrow> string \<Rightarrow> string option" where
  "strip_prefix_char c s = (case s of a # t \<Rightarrow> if a = c then Some t else None | [] \<Rightarrow> None)"

text \<open>\<open>parse::<u32>()\<close>: an optional plus sign, then digits, of a value below \<open>2^32\<close>.\<close>

definition is_digit :: "char \<Rightarrow> bool" where
  "is_digit c \<longleftrightarrow> 48 \<le> (of_char c :: nat) \<and> of_char c \<le> (57 :: nat)"

definition digits_value :: "string \<Rightarrow> nat" where
  "digits_value s = foldl (\<lambda>acc c. acc * 10 + (of_char c - 48)) 0 s"

definition parse_u32 :: "string \<Rightarrow> nat option" where
  "parse_u32 s =
     (let ds = (case s of c # t \<Rightarrow> if c = CHR ''+'' then t else s | [] \<Rightarrow> s) in
      if ds \<noteq> [] \<and> list_all is_digit ds \<and> digits_value ds < 2 ^ 32 then Some (digits_value ds) else None)"

definition file_version :: "string \<Rightarrow> nat option" where
  "file_version file =
     Option.bind (strip_suffix STORED file) (\<lambda>s. Option.bind (strip_prefix_char CHR ''v'' s) parse_u32)"

text \<open>\<open>format!("v{:010}{STORED}", version)\<close>.\<close>

definition pad10 :: "nat \<Rightarrow> string" where
  "pad10 n = replicate (10 - length (show_nat n)) CHR ''0'' @ show_nat n"

definition version_file :: "nat \<Rightarrow> string" where
  "version_file v = CHR ''v'' # pad10 v @ STORED"

definition decode_dir :: "string \<Rightarrow> string" where
  "decode_dir dirname = restore_slash dirname"

definition load_contract :: "store_codec \<Rightarrow> file_state \<Rightarrow> string + registered" where
  "load_contract J f =
     (case f of
        Unreadable e \<Rightarrow> Inl e
      | Bytes b \<Rightarrow>
          and_then (contract_from_json J b) (\<lambda>(doc, fns, compiled).
            case from_compiled J doc compiled fns of Inl e \<Rightarrow> Inl (error_text e) | Inr r \<Rightarrow> Inr r))"

record dir_store =
  ds_dir :: store_dir
  ds_memory :: contents
  ds_stale :: "stale_bundle list"

definition contract_path :: "string \<Rightarrow> string \<Rightarrow> string" where
  "contract_path dirname file = dirname @ ''/'' @ file"

text \<open>One file, then one contract's directory, of the loop of \<open>open\<close>.\<close>

definition open_file ::
  "store_codec \<Rightarrow> string \<Rightarrow> string \<times> file_state \<Rightarrow> contents \<times> stale_bundle list \<Rightarrow> contents \<times> stale_bundle list" where
  "open_file J dirname e st =
     (case (e, st) of ((file, f), (mem, stale)) \<Rightarrow>
        (case load_contract J f of
           Inr r \<Rightarrow> (mem_put r mem, stale)
         | Inl cause \<Rightarrow> (mem, stale @ [\<lparr>stale_path = contract_path dirname file, stale_name = decode_dir dirname,
               stale_version = file_version file, stale_cause = cause\<rparr>])))"

definition open_published ::
  "store_codec \<Rightarrow> string \<Rightarrow> (string, file_state) btmap \<Rightarrow> contents \<Rightarrow> contents res" where
  "open_published J dirname files mem =
     (case map_of files ''published.json'' of
        None \<Rightarrow> Inr mem
      | Some (Unreadable e) \<Rightarrow> Inl (Io e)
      | Some (Bytes b) \<Rightarrow>
          (case names_from_json J b of
             Inl e \<Rightarrow> Inl (Invalid (contract_path dirname ''published.json'' @ '': '' @ e))
           | Inr names \<Rightarrow> Inr (mem\<lparr>audience_sets :=
               (if names = {} then audience_sets mem
                else bt_update {} (\<lambda>a. a \<union> names) (decode_dir dirname) (audience_sets mem))\<rparr>)))"

fun open_dirs ::
  "store_codec \<Rightarrow> store_dir \<Rightarrow> contents \<times> stale_bundle list \<Rightarrow> (contents \<times> stale_bundle list) res" where
  "open_dirs J [] st = Inr st"
| "open_dirs J ((dirname, files) # dirs) st =
     (let (mem, stale) = fold (open_file J dirname) (filter (\<lambda>e. ends_with STORED (fst e)) files) st
      in and_then (open_published J dirname files mem) (\<lambda>mem'. open_dirs J dirs (mem', stale)))"

definition dir_open :: "store_codec \<Rightarrow> store_dir \<Rightarrow> dir_store res" where
  "dir_open J d =
     and_then (open_dirs J d (empty_contents, []))
       (\<lambda>(mem, stale). Inr \<lparr>ds_dir = d, ds_memory = mem, ds_stale = stale\<rparr>)"

definition write_file :: "string \<Rightarrow> string \<Rightarrow> string \<Rightarrow> store_dir \<Rightarrow> store_dir" where
  "write_file dirname file b d = bt_update [] (bt_insert file (Bytes b)) dirname d"

text \<open>\<open>put\<close>; \<open>w\<close> is the error of the whole-file write, which then changes no file. The contract's
  directory is made first.\<close>

definition dir_put ::
  "store_codec \<Rightarrow> string option \<Rightarrow> registered \<Rightarrow> dir_store \<Rightarrow> dir_store \<times> unit res" where
  "dir_put J w c s =
     (let dirname = replace_slash (reg_name c);
          file = version_file (reg_version c);
          s0 = s\<lparr>ds_dir := bt_update [] (\<lambda>fs. fs) dirname (ds_dir s)\<rparr>;
          json = and_then (comp_to_bytes J (r_compilation c)) (\<lambda>compiled.
            and_then (case from_utf8 J compiled of Inl e \<Rightarrow> Inl (''the compiled contract: '' @ e) | Inr t \<Rightarrow> Inr t)
              (\<lambda>text. contract_to_json J (r_doc c, r_functions c, text)))
      in case json of
           Inl e \<Rightarrow> (s0, Inl (Invalid e))
         | Inr b \<Rightarrow>
             (case w of
                Some e \<Rightarrow> (s0, Inl (Io e))
              | None \<Rightarrow> (s0\<lparr>ds_dir := write_file dirname file b (ds_dir s0),
                    ds_stale := filter (\<lambda>x. stale_path x \<noteq> contract_path dirname file) (ds_stale s),
                    ds_memory := mem_put c (ds_memory s)\<rparr>, Inr ())))"

text \<open>
  A plain \<open>std::fs::write\<close> that fails may leave the file as it was, or truncated: \<open>left\<close> are the bytes
  it then holds.
\<close>

datatype write_outcome = Saved | Failed (write_error: string) (left: "string option")

definition plain_write ::
  "write_outcome \<Rightarrow> string \<Rightarrow> string \<Rightarrow> string \<Rightarrow> store_dir \<Rightarrow> store_dir \<times> unit res" where
  "plain_write w dirname file b d =
     (case w of
        Saved \<Rightarrow> (write_file dirname file b d, Inr ())
      | Failed e None \<Rightarrow> (d, Inl (Io e))
      | Failed e (Some l) \<Rightarrow> (write_file dirname file l d, Inl (Io e)))"

definition save_audiences ::
  "store_codec \<Rightarrow> write_outcome \<Rightarrow> string \<Rightarrow> dir_store \<Rightarrow> dir_store \<times> unit res" where
  "save_audiences J w name s =
     (let dirname = replace_slash name;
          s0 = s\<lparr>ds_dir := bt_update [] (\<lambda>fs. fs) dirname (ds_dir s)\<rparr>
      in case names_to_json J (mem_audiences (ds_memory s) name) of
           Inl e \<Rightarrow> (s0, Inl (Invalid e))
         | Inr b \<Rightarrow>
             (let (d, r) = plain_write w dirname ''published.json'' b (ds_dir s0)
              in (s0\<lparr>ds_dir := d\<rparr>, r)))"

definition dir_publish ::
  "store_codec \<Rightarrow> write_outcome \<Rightarrow> string \<Rightarrow> string \<Rightarrow> dir_store \<Rightarrow> dir_store \<times> unit res" where
  "dir_publish J w name audience s =
     save_audiences J w name (s\<lparr>ds_memory := mem_publish name audience (ds_memory s)\<rparr>)"

definition dir_unpublish ::
  "store_codec \<Rightarrow> write_outcome \<Rightarrow> string \<Rightarrow> string \<Rightarrow> dir_store \<Rightarrow> dir_store \<times> unit res" where
  "dir_unpublish J w name audience s =
     save_audiences J w name (s\<lparr>ds_memory := mem_unpublish name audience (ds_memory s)\<rparr>)"

section \<open>The interface\<close>

text \<open>
  What an engine relies on. A version is put over the same version only, nothing else changes; the
  current version is the greatest; publishing and unpublishing change one audience of one contract,
  whatever they answer. \<open>ok\<close> is the store's own invariant.
\<close>

locale contract_store =
  fixes put :: "registered \<Rightarrow> 's \<Rightarrow> 's \<times> unit res"
    and current :: "'s \<Rightarrow> string \<Rightarrow> registered option"
    and version :: "'s \<Rightarrow> string \<Rightarrow> nat \<Rightarrow> registered option"
    and listed :: "'s \<Rightarrow> registered list"
    and audiences :: "'s \<Rightarrow> string \<Rightarrow> string set"
    and publish :: "string \<Rightarrow> string \<Rightarrow> 's \<Rightarrow> 's \<times> unit res"
    and unpublish :: "string \<Rightarrow> string \<Rightarrow> 's \<Rightarrow> 's \<times> unit res"
    and ok :: "'s \<Rightarrow> bool"
  assumes put_ok: "ok s \<Longrightarrow> ok (fst (put c s))"
    and publish_ok: "ok s \<Longrightarrow> ok (fst (publish n a s))"
    and unpublish_ok: "ok s \<Longrightarrow> ok (fst (unpublish n a s))"
    and put_version: "ok s \<Longrightarrow> put c s = (s', Inr ()) \<Longrightarrow>
      version s' n v = (if n = reg_name c \<and> v = reg_version c then Some c else version s n v)"
    and put_failed: "put c s = (s', Inl e) \<Longrightarrow> version s' n v = version s n v"
    and put_audiences: "audiences (fst (put c s)) n = audiences s n"
    and publish_version: "version (fst (publish m a s)) n v = version s n v"
    and publish_audiences: "audiences (fst (publish m a s)) n = (if n = m then insert a (audiences s n) else audiences s n)"
    and unpublish_version: "version (fst (unpublish m a s)) n v = version s n v"
    and unpublish_audiences: "audiences (fst (unpublish m a s)) n = (if n = m then audiences s n - {a} else audiences s n)"
    and version_at: "ok s \<Longrightarrow> version s n v = Some c \<Longrightarrow> reg_name c = n \<and> reg_version c = v"
    and current_greatest: "ok s \<Longrightarrow> current s n = Some c \<longleftrightarrow>
      (\<exists>v. version s n v = Some c \<and> (\<forall>u d. version s n u = Some d \<longrightarrow> u \<le> v))"
    and current_exists: "ok s \<Longrightarrow> version s n v \<noteq> None \<Longrightarrow> current s n \<noteq> None"
    and listed_current: "ok s \<Longrightarrow> c \<in> set (listed s) \<longleftrightarrow> current s (reg_name c) = Some c"
begin

text \<open>Who sees a contract's current version: its owner, those it is published to, everyone if public.\<close>

definition sees :: "'s \<Rightarrow> string \<Rightarrow> string \<Rightarrow> bool" where
  "sees s t n \<longleftrightarrow> (\<exists>c. current s n = Some c
     \<and> (reg_owner c = Some t \<or> t \<in> audiences s n \<or> PUBLIC \<in> audiences s n))"

lemma put_current:
  assumes "ok s" and "put c s = (s', Inr ())"
  shows "current s' (reg_name c) =
     (case current s (reg_name c) of
        Some d \<Rightarrow> if reg_version c < reg_version d then Some d else Some c | None \<Rightarrow> Some c)"
proof -
  have ok': "ok s'" using put_ok [OF assms(1), of c] assms(2) by simp
  note ver = put_version [OF assms]
  show ?thesis
  proof (cases "current s (reg_name c)")
    case None
    then have "version s (reg_name c) v = None" for v using current_exists [OF assms(1)] by blast
    then have "current s' (reg_name c) = Some c"
      unfolding current_greatest [OF ok'] by (auto simp: ver)
    then show ?thesis using None by simp
  next
    case (Some d)
    then have d: "version s (reg_name c) (reg_version d) = Some d"
      and max: "\<And>u e. version s (reg_name c) u = Some e \<Longrightarrow> u \<le> reg_version d"
      using current_greatest [OF assms(1)] version_at [OF assms(1)] by blast+
    show ?thesis
    proof (cases "reg_version c < reg_version d")
      case True
      then have "current s' (reg_name c) = Some d"
        unfolding current_greatest [OF ok'] using d max
        by (intro exI [of _ "reg_version d"]) (auto simp: ver split: if_splits)
      then show ?thesis using Some True by simp
    next
      case False
      then have "current s' (reg_name c) = Some c"
        unfolding current_greatest [OF ok'] using max
        by (intro exI [of _ "reg_version c"]) (fastforce simp: ver split: if_splits)
      then show ?thesis using Some False by simp
    qed
  qed
qed

lemma put_other: "ok s \<Longrightarrow> put c s = (s', Inr ()) \<Longrightarrow> n \<noteq> reg_name c \<Longrightarrow> current s' n = current s n"
proof -
  assume a: "ok s" "put c s = (s', Inr ())" "n \<noteq> reg_name c"
  then have "ok s'" using put_ok [of s c] by simp
  have "current s' n = Some d \<longleftrightarrow> current s n = Some d" for d
    unfolding current_greatest [OF a(1)] current_greatest [OF \<open>ok s'\<close>]
    using put_version [OF a(1,2)] a(3) by simp
  then show "current s' n = current s n" by (metis not_Some_eq)
qed

lemma audience_current:
  assumes "ok s" and "ok s'" and "\<And>n v. version s' n v = version s n v"
  shows "current s' n = current s n"
proof -
  have "current s' n = Some d \<longleftrightarrow> current s n = Some d" for d
    unfolding current_greatest [OF assms(1)] current_greatest [OF assms(2)] by (simp add: assms(3))
  then show ?thesis by (metis not_Some_eq)
qed

lemma sees_publish:
  assumes "ok s"
  shows "sees (fst (publish m a s)) t n \<longleftrightarrow> sees s t n \<or> (n = m \<and> (a = t \<or> a = PUBLIC) \<and> current s n \<noteq> None)"
proof -
  have "current (fst (publish m a s)) n = current s n"
    by (rule audience_current [OF assms publish_ok [OF assms]]) (rule publish_version)
  then show ?thesis by (auto simp: sees_def publish_audiences)
qed

lemma sees_unpublish:
  assumes "ok s" and "sees (fst (unpublish m a s)) t n"
  shows "sees s t n"
proof -
  have "current (fst (unpublish m a s)) n = current s n"
    by (rule audience_current [OF assms(1) unpublish_ok [OF assms(1)]]) (rule unpublish_version)
  then show ?thesis using assms(2) by (auto simp: sees_def unpublish_audiences split: if_splits)
qed

end

section \<open>The store in memory keeps the contract\<close>

definition contents_ok :: "contents \<Rightarrow> bool" where
  "contents_ok g \<longleftrightarrow> bt_ok (versions g)
     \<and> (\<forall>n vs. map_of (versions g) n = Some vs \<longrightarrow>
          bt_ok vs \<and> (\<forall>v c. map_of vs v = Some c \<longrightarrow> reg_name c = n \<and> reg_version c = v))"

lemma newest_iff:
  assumes "bt_ok vs"
  shows "newest vs = Some c \<longleftrightarrow>
     (\<exists>v. map_of vs v = Some c \<and> (\<forall>u d. map_of vs u = Some d \<longrightarrow> u \<le> v))"
proof (cases "vs = []")
  case False
  have dist: "distinct (map fst vs)" using assms by (rule bt_ok_distinct)
  obtain v d where last: "last vs = (v, d)" by (cases "last vs")
  then have vd: "(v, d) \<in> set vs" using False last_in_set by metis
  have max: "u \<le> v" if "(u, e) \<in> set vs" for u e
  proof -
    obtain xs where xs: "vs = xs @ [(v, d)]" using False last append_butlast_last_id by metis
    then have "sorted_wrt (<) (map fst xs @ [v])" using assms by (simp add: bt_ok_def)
    then have "\<forall>x \<in> set (map fst xs). x < v" by (simp add: sorted_wrt_append)
    with that xs show ?thesis by force
  qed
  have "newest vs = Some d" using False by (simp add: newest_def last)
  then show ?thesis
    using dist vd max by (auto simp: order_antisym dest: max)
      (metis dist map_of_eq_Some_iff max order_antisym option.inject)+
qed (simp add: newest_def)

lemma contents_ok_empty: "contents_ok empty_contents"
  by (simp add: contents_ok_def empty_contents_def)

lemma mem_put_ok: "contents_ok g \<Longrightarrow> contents_ok (mem_put c g)"
  by (auto simp: contents_ok_def mem_put_def bt_update_def bt_get_or_def split: option.splits)

lemma mem_publish_ok [simp]: "contents_ok (mem_publish n a g) = contents_ok g"
  by (simp add: contents_ok_def mem_publish_def)

lemma mem_unpublish_ok [simp]: "contents_ok (mem_unpublish n a g) = contents_ok g"
  by (simp add: contents_ok_def mem_unpublish_def split: option.split)

lemma mem_version_put:
  "mem_version (mem_put c g) n v =
     (if n = reg_name c \<and> v = reg_version c then Some c else mem_version g n v)"
  by (auto simp: mem_version_def mem_put_def bt_update_def bt_get_or_def split: option.split)

lemma mem_audiences_simps [simp]:
  "mem_audiences (mem_put c g) n = mem_audiences g n"
  "mem_audiences (mem_publish m a g) n = (if n = m then insert a (mem_audiences g n) else mem_audiences g n)"
  "mem_audiences (mem_unpublish m a g) n = (if n = m then mem_audiences g n - {a} else mem_audiences g n)"
proof -
  show "mem_audiences (mem_put c g) n = mem_audiences g n"
    "mem_audiences (mem_publish m a g) n = (if n = m then insert a (mem_audiences g n) else mem_audiences g n)"
    by (simp_all add: mem_audiences_def mem_put_def mem_publish_def)
  show "mem_audiences (mem_unpublish m a g) n = (if n = m then mem_audiences g n - {a} else mem_audiences g n)"
    by (cases "map_of (audience_sets g) m") (simp_all add: mem_audiences_def mem_unpublish_def, simp_all add: bt_get_or_def)
qed

lemma mem_version_simps [simp]:
  "mem_version (mem_publish m a g) n v = mem_version g n v"
  "mem_version (mem_unpublish m a g) n v = mem_version g n v"
  by (auto simp: mem_version_def mem_publish_def mem_unpublish_def split: option.split)

lemma mem_version_at: "contents_ok g \<Longrightarrow> mem_version g n v = Some c \<Longrightarrow> reg_name c = n \<and> reg_version c = v"
  by (auto simp: contents_ok_def mem_version_def bind_eq_Some_conv)

lemma mem_current_greatest:
  assumes "contents_ok g"
  shows "mem_current g n = Some c \<longleftrightarrow>
      (\<exists>v. mem_version g n v = Some c \<and> (\<forall>u d. mem_version g n u = Some d \<longrightarrow> u \<le> v))"
proof (cases "map_of (versions g) n")
  case (Some vs)
  then have "bt_ok vs" using assms by (simp add: contents_ok_def)
  then show ?thesis using Some by (simp add: mem_current_def mem_version_def newest_iff)
qed (simp add: mem_current_def mem_version_def)

lemma mem_current_exists: "mem_version g n v = Some c \<Longrightarrow> \<exists>d. mem_current g n = Some d"
proof -
  assume "mem_version g n v = Some c"
  then obtain vs where "map_of (versions g) n = Some vs" "map_of vs v = Some c"
    by (auto simp: mem_version_def bind_eq_Some_conv)
  then show ?thesis by (cases vs) (simp_all add: mem_current_def newest_def)
qed

lemma in_map_filter: "y \<in> set (List.map_filter f xs) \<longleftrightarrow> (\<exists>x \<in> set xs. f x = Some y)"
  by (induction xs) (auto simp: List.map_filter_simps split: option.splits)

lemma mem_listed:
  assumes "contents_ok g"
  shows "c \<in> set (mem_list g) \<longleftrightarrow> mem_current g (reg_name c) = Some c"
proof -
  have dist: "distinct (map fst (versions g))" using assms by (simp add: contents_ok_def bt_ok_distinct)
  have "c \<in> set (mem_list g) \<longleftrightarrow> (\<exists>n vs. map_of (versions g) n = Some vs \<and> newest vs = Some c)"
    using dist by (force simp: mem_list_def in_map_filter map_of_eq_Some_iff)
  moreover have "reg_name c = n" if "map_of (versions g) n = Some vs" "newest vs = Some c" for n vs
    using that assms newest_iff [of vs c] by (auto simp: contents_ok_def)
  ultimately show ?thesis by (auto simp: mem_current_def bind_eq_Some_conv)
qed

interpretation mem: contract_store memory_put mem_current mem_version mem_list mem_audiences
  memory_publish memory_unpublish contents_ok
proof unfold_locales
  show "contents_ok s \<Longrightarrow> c \<in> set (mem_list s) \<longleftrightarrow> mem_current s (reg_name c) = Some c" for s c
    by (rule mem_listed)
  show "contents_ok s \<Longrightarrow> mem_current s n = Some c \<longleftrightarrow>
      (\<exists>v. mem_version s n v = Some c \<and> (\<forall>u d. mem_version s n u = Some d \<longrightarrow> u \<le> v))" for s n c
    by (rule mem_current_greatest)
qed (auto simp: memory_put_def memory_publish_def memory_unpublish_def mem_put_ok mem_version_put
    dest: mem_version_at mem_current_exists)

section \<open>The store on disk keeps it too\<close>

lemma save_audiences_memory [simp]: "ds_memory (fst (save_audiences J w n s)) = ds_memory s"
  by (simp add: save_audiences_def Let_def split: sum.split prod.split)

lemma dir_put_memory:
  "ds_memory (fst (dir_put J w c s)) =
     (case snd (dir_put J w c s) of Inr _ \<Rightarrow> mem_put c (ds_memory s) | Inl _ \<Rightarrow> ds_memory s)"
  by (simp add: dir_put_def Let_def split: sum.split option.split)

lemma dir_publish_memory [simp]:
  "ds_memory (fst (dir_publish J w n a s)) = mem_publish n a (ds_memory s)"
  "ds_memory (fst (dir_unpublish J w n a s)) = mem_unpublish n a (ds_memory s)"
  by (simp_all add: dir_publish_def dir_unpublish_def)

interpretation disk: contract_store "dir_put J w" "\<lambda>s. mem_current (ds_memory s)" "\<lambda>s. mem_version (ds_memory s)"
  "\<lambda>s. mem_list (ds_memory s)" "\<lambda>s. mem_audiences (ds_memory s)" "dir_publish J w'" "dir_unpublish J w'"
  "\<lambda>s. contents_ok (ds_memory s)"
  for J w w'
proof unfold_locales
  show "contents_ok (ds_memory (fst (dir_put J w c s)))" if "contents_ok (ds_memory s)" for s c
    using that by (simp add: dir_put_memory mem_put_ok split: sum.split)
  show "mem_version (ds_memory s') n v =
      (if n = reg_name c \<and> v = reg_version c then Some c else mem_version (ds_memory s) n v)"
    if "dir_put J w c s = (s', Inr ())" for s c s' n v
    using that dir_put_memory [of J w c s] by (simp add: mem_version_put)
  show "mem_version (ds_memory s') n v = mem_version (ds_memory s) n v"
    if "dir_put J w c s = (s', Inl e)" for s c s' n v e
    using that dir_put_memory [of J w c s] by simp
  show "mem_audiences (ds_memory (fst (dir_put J w c s))) n = mem_audiences (ds_memory s) n" for c s n
    by (simp add: dir_put_memory split: sum.split)
  show "contents_ok (ds_memory s) \<Longrightarrow> c \<in> set (mem_list (ds_memory s))
      \<longleftrightarrow> mem_current (ds_memory s) (reg_name c) = Some c" for s c
    by (rule mem_listed)
  show "contents_ok (ds_memory s) \<Longrightarrow> mem_current (ds_memory s) n = Some c \<longleftrightarrow>
      (\<exists>v. mem_version (ds_memory s) n v = Some c \<and> (\<forall>u d. mem_version (ds_memory s) n u = Some d \<longrightarrow> u \<le> v))"
    for s n c by (rule mem_current_greatest)
qed (auto dest: mem_version_at mem_current_exists)

section \<open>What a reopened store knows\<close>

text \<open>What the JSON library and parcel document of their round trips, and UTF-8 of JSON text.\<close>

definition store_laws :: "store_codec \<Rightarrow> bool" where
  "store_laws J \<longleftrightarrow>
     (\<forall>c b. comp_to_bytes J c = Inr b \<longrightarrow> from_utf8 J b = Inr b \<and> comp_from_bytes J b = Inr c)
   \<and> (\<forall>x t. contract_to_json J x = Inr t \<longrightarrow> contract_from_json J t = Inr x)
   \<and> (\<forall>a t. names_to_json J a = Inr t \<longrightarrow> names_from_json J t = Inr a)"

text \<open>A registered contract as it is made: its document and schema are its compilation's.\<close>

definition reg_ok :: "registered \<Rightarrow> bool" where
  "reg_ok r \<longleftrightarrow> doc_contract (r_doc r) = reg_name r
     \<and> r_schema r = row_schema (contract (r_compilation r)) \<and> reg_version r < 2 ^ 32"

definition plain_name :: "string \<Rightarrow> bool" where
  "plain_name n \<longleftrightarrow> CHR ''_'' \<notin> set n"

definition file_at :: "store_dir \<Rightarrow> string \<Rightarrow> string \<Rightarrow> file_state option" where
  "file_at d dirname file = Option.bind (map_of d dirname) (\<lambda>fs. map_of fs file)"

lemma digits_value_snoc: "digits_value (s @ [c]) = digits_value s * 10 + (of_char c - 48)"
  by (simp add: digits_value_def)

lemma digit_char: "d < 10 \<Longrightarrow> of_char (digit d) = 48 + d" "d < 10 \<Longrightarrow> is_digit (digit d)"
  by (simp_all add: digit_def is_digit_def)

lemma show_nat_digits: "digits_value (show_nat n) = n \<and> list_all is_digit (show_nat n) \<and> show_nat n \<noteq> []"
proof (induction n rule: show_nat.induct)
  case (1 n)
  show ?case
  proof (cases "n < 10")
    case True
    then show ?thesis by (subst (1 2 3) show_nat.simps) (simp add: digits_value_def digit_char)
  next
    case False
    then show ?thesis using 1 by (subst (1 2 3) show_nat.simps) (simp add: digits_value_snoc digit_char)
  qed
qed

lemma digits_value_zeros: "digits_value (replicate k CHR ''0'' @ s) = digits_value s"
proof (induction k)
  case (Suc k)
  then show ?case by (simp add: digits_value_def)
qed simp

lemma pad10_parse: "n < 2 ^ 32 \<Longrightarrow> parse_u32 (pad10 n) = Some n"
proof -
  assume n: "n < 2 ^ 32"
  have digits: "list_all is_digit (pad10 n)" "pad10 n \<noteq> []" "digits_value (pad10 n) = n"
    using show_nat_digits [of n]
    by (simp_all add: pad10_def digits_value_zeros) (simp add: list_all_iff is_digit_def)
  then obtain c t where ct: "pad10 n = c # t" by (cases "pad10 n") auto
  have "c \<noteq> CHR ''+''" using digits(1) by (auto simp: ct is_digit_def)
  then show ?thesis using digits n by (simp add: parse_u32_def ct Let_def)
qed

lemma ends_with_append: "ends_with s (t @ s)"
  by (simp add: ends_with_def)

lemma file_version_version_file: "v < 2 ^ 32 \<Longrightarrow> file_version (version_file v) = Some v"
proof -
  assume v: "v < 2 ^ 32"
  have "strip_suffix STORED ((CHR ''v'' # pad10 v) @ STORED) = Some (CHR ''v'' # pad10 v)"
    unfolding strip_suffix_def if_P [OF ends_with_append] by simp
  then show ?thesis using pad10_parse [OF v] by (simp add: file_version_def version_file_def strip_prefix_char_def)
qed

lemma version_file_stored: "ends_with STORED (version_file v)"
proof -
  have "ends_with STORED ((CHR ''v'' # pad10 v) @ STORED)" by (rule ends_with_append)
  then show ?thesis by (simp add: version_file_def)
qed

lemma published_not_stored: "\<not> ends_with STORED ''published.json''"
  by (simp add: ends_with_def STORED_def)

lemma load_put:
  assumes "store_laws J" and "reg_ok c"
    and "comp_to_bytes J (r_compilation c) = Inr b" and "from_utf8 J b = Inr u"
    and "contract_to_json J (r_doc c, r_functions c, u) = Inr t"
  shows "load_contract J (Bytes t) = Inr c"
proof -
  have "u = b" "comp_from_bytes J b = Inr (r_compilation c)"
    "contract_from_json J t = Inr (r_doc c, r_functions c, u)"
    using assms unfolding store_laws_def by force+
  then show ?thesis using assms(2)
    by (simp add: load_contract_def from_compiled_def reg_ok_def reg_name_def)
qed

text \<open>
  The disk holds what the memory holds: every contract file is the version it names in memory, each
  version of the memory has its file, and each audience file is the audience of its contract.
\<close>

definition synced :: "store_codec \<Rightarrow> store_dir \<Rightarrow> contents \<Rightarrow> bool" where
  "synced J d g \<longleftrightarrow> bt_ok d \<and> (\<forall>dirname files. map_of d dirname = Some files \<longrightarrow> bt_ok files)
   \<and> (\<forall>dirname file f. file_at d dirname file = Some f \<and> ends_with STORED file \<longrightarrow>
        (\<exists>r. load_contract J f = Inr r \<and> dirname = replace_slash (reg_name r) \<and> file = version_file (reg_version r)
          \<and> mem_version g (reg_name r) (reg_version r) = Some r))
   \<and> (\<forall>n v r. mem_version g n v = Some r \<longrightarrow> plain_name n \<and> v < 2 ^ 32
        \<and> (\<exists>f. file_at d (replace_slash n) (version_file v) = Some f \<and> load_contract J f = Inr r))
   \<and> (\<forall>dirname f. file_at d dirname ''published.json'' = Some f \<longrightarrow>
        (\<exists>n b. plain_name n \<and> dirname = replace_slash n \<and> f = Bytes b \<and> names_from_json J b = Inr (mem_audiences g n)))
   \<and> (\<forall>n. mem_audiences g n \<noteq> {} \<longrightarrow> plain_name n \<and> file_at d (replace_slash n) ''published.json'' \<noteq> None)"

lemma synced_empty: "synced J [] empty_contents"
  by (simp add: synced_def file_at_def mem_version_def empty_contents_def mem_audiences_def)

lemma file_at_write:
  "file_at (write_file dirname file b d) dn f
     = (if dn = dirname \<and> f = file then Some (Bytes b) else file_at d dn f)"
  by (auto simp: file_at_def write_file_def bt_update_def bt_get_or_def split: option.split)

lemma file_at_mkdir: "file_at (bt_update [] (\<lambda>fs. fs) dirname d) dn f = file_at d dn f"
  by (auto simp: file_at_def bt_update_def bt_get_or_def split: option.split)

lemma dirs_ok_write:
  "bt_ok d \<and> (\<forall>dn files. map_of d dn = Some files \<longrightarrow> bt_ok files) \<Longrightarrow>
   bt_ok (write_file dirname file b d)
     \<and> (\<forall>dn files. map_of (write_file dirname file b d) dn = Some files \<longrightarrow> bt_ok files)"
  by (auto simp: write_file_def bt_update_def bt_get_or_def split: option.splits if_splits)

lemma dirs_ok_mkdir:
  "bt_ok d \<and> (\<forall>dn files. map_of d dn = Some files \<longrightarrow> bt_ok files) \<Longrightarrow>
   bt_ok (bt_update [] (\<lambda>fs. fs) dirname d)
     \<and> (\<forall>dn files. map_of (bt_update [] (\<lambda>fs. fs) dirname d) dn = Some files \<longrightarrow> bt_ok files)"
  by (auto simp: bt_update_def bt_get_or_def split: option.splits if_splits)

lemma plain_replace_inj: "plain_name a \<Longrightarrow> plain_name b \<Longrightarrow> replace_slash a = replace_slash b \<Longrightarrow> a = b"
  using restore_replace_slash unfolding plain_name_def by metis

lemma version_file_inj: "v < 2 ^ 32 \<Longrightarrow> u < 2 ^ 32 \<Longrightarrow> version_file v = version_file u \<Longrightarrow> v = u"
  using file_version_version_file by (metis option.inject)

lemma version_file_not_published: "version_file v \<noteq> ''published.json''"
  by (simp add: version_file_def)

lemma dir_put_Inr:
  assumes "dir_put J w c s = (s', Inr ())"
  obtains b u t where "comp_to_bytes J (r_compilation c) = Inr b" "from_utf8 J b = Inr u"
    "contract_to_json J (r_doc c, r_functions c, u) = Inr t"
    "ds_dir s' = write_file (replace_slash (reg_name c)) (version_file (reg_version c)) t
        (bt_update [] (\<lambda>fs. fs) (replace_slash (reg_name c)) (ds_dir s))"
    "ds_memory s' = mem_put c (ds_memory s)"
proof -
  from assms obtain t where t: "and_then (comp_to_bytes J (r_compilation c)) (\<lambda>compiled.
            and_then (case from_utf8 J compiled of Inl e \<Rightarrow> Inl (''the compiled contract: '' @ e) | Inr t \<Rightarrow> Inr t)
              (\<lambda>text. contract_to_json J (r_doc c, r_functions c, text))) = Inr t" and "w = None"
    by (auto simp: dir_put_def Let_def split: sum.splits option.splits)
  from t obtain b where b: "comp_to_bytes J (r_compilation c) = Inr b"
    and rest: "and_then (case from_utf8 J b of Inl e \<Rightarrow> Inl (''the compiled contract: '' @ e) | Inr t \<Rightarrow> Inr t)
              (\<lambda>text. contract_to_json J (r_doc c, r_functions c, text)) = Inr t"
    unfolding and_then_eq_Inr by blast
  then obtain u where "from_utf8 J b = Inr u" "contract_to_json J (r_doc c, r_functions c, u) = Inr t"
    by (cases "from_utf8 J b") simp_all
  then show thesis using that b assms t \<open>w = None\<close> by (auto simp: dir_put_def Let_def)
qed

lemma synced_put:
  assumes "store_laws J" and "synced J (ds_dir s) (ds_memory s)" and "reg_ok c" and "plain_name (reg_name c)"
    and "dir_put J w c s = (s', Inr ())"
  shows "synced J (ds_dir s') (ds_memory s')"
proof -
  obtain b u t where json: "comp_to_bytes J (r_compilation c) = Inr b" "from_utf8 J b = Inr u"
    "contract_to_json J (r_doc c, r_functions c, u) = Inr t"
    and d: "ds_dir s' = write_file (replace_slash (reg_name c)) (version_file (reg_version c)) t
        (bt_update [] (\<lambda>fs. fs) (replace_slash (reg_name c)) (ds_dir s))"
    and m: "ds_memory s' = mem_put c (ds_memory s)"
    using dir_put_Inr [OF assms(5)] .
  note load = load_put [OF assms(1,3) json]
  have at: "file_at (ds_dir s') dn f = (if dn = replace_slash (reg_name c) \<and> f = version_file (reg_version c)
      then Some (Bytes t) else file_at (ds_dir s) dn f)" for dn f
    by (simp add: d file_at_write file_at_mkdir)
  have v: "reg_version c < 2 ^ 32" using assms(3) by (simp add: reg_ok_def)
  note S = assms(2) [unfolded synced_def]
  show ?thesis unfolding synced_def m mem_audiences_simps
  proof (intro conjI)
    show "bt_ok (ds_dir s')" "\<forall>dirname files. map_of (ds_dir s') dirname = Some files \<longrightarrow> bt_ok files"
      using dirs_ok_write [OF dirs_ok_mkdir [of "ds_dir s" "replace_slash (reg_name c)"],
          of "replace_slash (reg_name c)" "version_file (reg_version c)" t] S unfolding d by blast+
    show "\<forall>dirname file f. file_at (ds_dir s') dirname file = Some f \<and> ends_with STORED file \<longrightarrow>
        (\<exists>r. load_contract J f = Inr r \<and> dirname = replace_slash (reg_name r) \<and> file = version_file (reg_version r)
          \<and> mem_version (mem_put c (ds_memory s)) (reg_name r) (reg_version r) = Some r)"
      using load S by (auto simp: at mem_version_put) (metis+)?
    show "\<forall>n v r. mem_version (mem_put c (ds_memory s)) n v = Some r \<longrightarrow> plain_name n \<and> v < 2 ^ 32
        \<and> (\<exists>f. file_at (ds_dir s') (replace_slash n) (version_file v) = Some f \<and> load_contract J f = Inr r)"
    proof (intro allI impI)
      fix n u r
      assume r: "mem_version (mem_put c (ds_memory s)) n u = Some r"
      show "plain_name n \<and> u < 2 ^ 32
        \<and> (\<exists>f. file_at (ds_dir s') (replace_slash n) (version_file u) = Some f \<and> load_contract J f = Inr r)"
      proof (cases "n = reg_name c \<and> u = reg_version c")
        case True
        then show ?thesis using r load assms(4) v by (simp add: at mem_version_put)
      next
        case False
        then have old: "mem_version (ds_memory s) n u = Some r" using r by (auto simp: mem_version_put split: if_splits)
        then have "plain_name n" "u < 2 ^ 32" using S by blast+
        then have not: "\<not> (replace_slash n = replace_slash (reg_name c) \<and> version_file u = version_file (reg_version c))"
          using False plain_replace_inj [OF _ assms(4)] version_file_inj [OF _ v] by blast
        have "file_at (ds_dir s') (replace_slash n) (version_file u)
            = file_at (ds_dir s) (replace_slash n) (version_file u)"
          unfolding at by (rule if_not_P [OF not])
        then show ?thesis using old S by metis
      qed
    qed
    show "\<forall>dirname f. file_at (ds_dir s') dirname ''published.json'' = Some f \<longrightarrow>
        (\<exists>n b. plain_name n \<and> dirname = replace_slash n \<and> f = Bytes b
           \<and> names_from_json J b = Inr (mem_audiences (ds_memory s) n))"
      using S version_file_not_published [of "reg_version c"] by (simp add: at)
    show "\<forall>n. mem_audiences (ds_memory s) n \<noteq> {} \<longrightarrow>
        plain_name n \<and> file_at (ds_dir s') (replace_slash n) ''published.json'' \<noteq> None"
      using S version_file_not_published [of "reg_version c"] by (simp add: at)
  qed
qed

lemma save_audiences_Inr:
  assumes "save_audiences J w n s = (s', Inr ())"
  obtains b where "names_to_json J (mem_audiences (ds_memory s) n) = Inr b"
    "ds_dir s' = write_file (replace_slash n) ''published.json'' b (bt_update [] (\<lambda>fs. fs) (replace_slash n) (ds_dir s))"
    "ds_memory s' = ds_memory s"
  using assms
  by (auto simp: save_audiences_def plain_write_def Let_def split: sum.splits write_outcome.splits option.splits)

text \<open>After the audiences of one contract changed in memory, saving them brings the disk in step.\<close>

lemma synced_save:
  assumes "store_laws J" and "synced J (ds_dir s) g" and "plain_name n"
    and "\<And>m v. mem_version (ds_memory s) m v = mem_version g m v"
    and "\<And>m. m \<noteq> n \<Longrightarrow> mem_audiences (ds_memory s) m = mem_audiences g m"
    and "save_audiences J w n s = (s', Inr ())"
  shows "synced J (ds_dir s') (ds_memory s')"
proof -
  obtain b where b: "names_to_json J (mem_audiences (ds_memory s) n) = Inr b"
    and d: "ds_dir s' = write_file (replace_slash n) ''published.json'' b (bt_update [] (\<lambda>fs. fs) (replace_slash n) (ds_dir s))"
    and m: "ds_memory s' = ds_memory s"
    using save_audiences_Inr [OF assms(6)] .
  have names: "names_from_json J b = Inr (mem_audiences (ds_memory s) n)"
    using assms(1) b unfolding store_laws_def by blast
  have at: "file_at (ds_dir s') dn f = (if dn = replace_slash n \<and> f = ''published.json''
      then Some (Bytes b) else file_at (ds_dir s) dn f)" for dn f
    by (simp add: d file_at_write file_at_mkdir)
  note S = assms(2) [unfolded synced_def]
  show ?thesis unfolding synced_def m
  proof (intro conjI)
    show "bt_ok (ds_dir s')" "\<forall>dirname files. map_of (ds_dir s') dirname = Some files \<longrightarrow> bt_ok files"
      using dirs_ok_write [OF dirs_ok_mkdir [of "ds_dir s" "replace_slash n"],
          of "replace_slash n" "''published.json''" b] S unfolding d by blast+
    show "\<forall>dirname file f. file_at (ds_dir s') dirname file = Some f \<and> ends_with STORED file \<longrightarrow>
        (\<exists>r. load_contract J f = Inr r \<and> dirname = replace_slash (reg_name r) \<and> file = version_file (reg_version r)
          \<and> mem_version (ds_memory s) (reg_name r) (reg_version r) = Some r)"
      unfolding assms(4) using S published_not_stored by (simp add: at)
    show "\<forall>m v r. mem_version (ds_memory s) m v = Some r \<longrightarrow> plain_name m \<and> v < 2 ^ 32
        \<and> (\<exists>f. file_at (ds_dir s') (replace_slash m) (version_file v) = Some f \<and> load_contract J f = Inr r)"
      unfolding assms(4) using S version_file_not_published by (simp add: at)
    show "\<forall>dirname f. file_at (ds_dir s') dirname ''published.json'' = Some f \<longrightarrow>
        (\<exists>m b. plain_name m \<and> dirname = replace_slash m \<and> f = Bytes b
           \<and> names_from_json J b = Inr (mem_audiences (ds_memory s) m))"
    proof (intro allI impI)
      fix dirname f
      assume f: "file_at (ds_dir s') dirname ''published.json'' = Some f"
      show "\<exists>m b. plain_name m \<and> dirname = replace_slash m \<and> f = Bytes b
           \<and> names_from_json J b = Inr (mem_audiences (ds_memory s) m)"
      proof (cases "dirname = replace_slash n")
        case True
        then show ?thesis using f names assms(3) by (auto simp: at)
      next
        case False
        then obtain m b' where "plain_name m" "dirname = replace_slash m" "f = Bytes b'"
          "names_from_json J b' = Inr (mem_audiences g m)"
          using f S by (simp add: at) blast
        then show ?thesis using False assms(5) by metis
      qed
    qed
    show "\<forall>m. mem_audiences (ds_memory s) m \<noteq> {} \<longrightarrow>
        plain_name m \<and> file_at (ds_dir s') (replace_slash m) ''published.json'' \<noteq> None"
    proof (intro allI impI)
      fix m assume ne: "mem_audiences (ds_memory s) m \<noteq> {}"
      show "plain_name m \<and> file_at (ds_dir s') (replace_slash m) ''published.json'' \<noteq> None"
      proof (cases "m = n")
        case False
        then have "mem_audiences g m \<noteq> {}" using ne assms(5) by simp
        then show ?thesis using S by (simp add: at)
      qed (simp add: at assms(3))
    qed
  qed
qed

section \<open>Opening what is in step\<close>

text \<open>Loading files that are all versions of one memory loads just those versions.\<close>

lemma open_files:
  assumes "\<forall>(file, f) \<in> set es. \<exists>r. load_contract J f = Inr r \<and> M (reg_name r) (reg_version r) = Some r"
  shows "\<exists>mem'. fold (open_file J dirname) es (mem, stale) = (mem', stale)
    \<and> (\<forall>n. mem_audiences mem' n = mem_audiences mem n)
    \<and> (\<forall>n v. mem_version mem' n v =
      (if \<exists>(file, f) \<in> set es. \<exists>r. load_contract J f = Inr r \<and> reg_name r = n \<and> reg_version r = v
       then M n v else mem_version mem n v))"
  using assms
proof (induction es arbitrary: mem)
  case (Cons e es)
  obtain fname f where e: "e = (fname, f)" by (cases e)
  obtain r where r: "load_contract J f = Inr r" "M (reg_name r) (reg_version r) = Some r"
    using Cons.prems by (auto simp: e)
  obtain mem' where mem': "fold (open_file J dirname) es (mem_put r mem, stale) = (mem', stale)"
    "\<forall>n. mem_audiences mem' n = mem_audiences (mem_put r mem) n"
    "\<forall>n v. mem_version mem' n v =
      (if \<exists>(file, f) \<in> set es. \<exists>r. load_contract J f = Inr r \<and> reg_name r = n \<and> reg_version r = v
       then M n v else mem_version (mem_put r mem) n v)"
    using Cons.IH [of "mem_put r mem"] Cons.prems by auto
  have "mem_version mem' n v =
      (if \<exists>(file, f) \<in> set (e # es). \<exists>r. load_contract J f = Inr r \<and> reg_name r = n \<and> reg_version r = v
       then M n v else mem_version mem n v)" for n v
    using mem'(3) r by (auto simp: e mem_version_put)
  moreover have "open_file J dirname e (mem, stale) = (mem_put r mem, stale)"
    by (simp add: e open_file_def r)
  ultimately show ?case using mem'(1,2) by (intro exI [of _ mem']) simp
qed simp

lemma open_published_effect:
  assumes "\<And>f. map_of files ''published.json'' = Some f \<Longrightarrow>
      \<exists>n b. plain_name n \<and> dirname = replace_slash n \<and> f = Bytes b \<and> names_from_json J b = Inr (A n)"
  shows "\<exists>mem'. open_published J dirname files mem = Inr mem'
     \<and> (\<forall>n v. mem_version mem' n v = mem_version mem n v)
     \<and> (\<forall>n. mem_audiences mem' n = mem_audiences mem n
          \<union> (if map_of files ''published.json'' \<noteq> None \<and> plain_name n \<and> dirname = replace_slash n then A n else {}))"
proof (cases "map_of files ''published.json''")
  case None
  then show ?thesis by (simp add: open_published_def)
next
  case (Some f)
  then obtain n b where n: "plain_name n" "dirname = replace_slash n" "f = Bytes b" "names_from_json J b = Inr (A n)"
    using assms by blast
  have dec: "decode_dir (replace_slash n) = n"
    using n(1) by (simp add: decode_dir_def plain_name_def restore_replace_slash)
  have same: "plain_name m \<and> replace_slash n = replace_slash m \<longleftrightarrow> m = n" for m
    using plain_replace_inj [OF n(1)] n(1) by metis
  show ?thesis
    using Some n same
    by (auto simp: open_published_def dec mem_version_def mem_audiences_def)
qed

definition holds_version :: "store_codec \<Rightarrow> (string, file_state) btmap \<Rightarrow> string \<Rightarrow> nat \<Rightarrow> bool" where
  "holds_version J files n v \<longleftrightarrow> (\<exists>(file, f) \<in> set files. ends_with STORED file
     \<and> (\<exists>r. load_contract J f = Inr r \<and> reg_name r = n \<and> reg_version r = v))"

lemma holds_version_filter:
  "(\<exists>(file, f) \<in> set (filter (\<lambda>e. ends_with STORED (fst e)) files).
      \<exists>r. load_contract J f = Inr r \<and> reg_name r = n \<and> reg_version r = v) \<longleftrightarrow> holds_version J files n v"
  by (auto simp: holds_version_def)

lemma open_dirs_effect:
  assumes "distinct (map fst d)"
    and "\<And>dirname files. (dirname, files) \<in> set d \<Longrightarrow> bt_ok files
      \<and> (\<forall>(file, f) \<in> set files. ends_with STORED file \<longrightarrow>
           (\<exists>r. load_contract J f = Inr r \<and> M (reg_name r) (reg_version r) = Some r))
      \<and> (\<forall>f. map_of files ''published.json'' = Some f \<longrightarrow>
           (\<exists>n b. plain_name n \<and> dirname = replace_slash n \<and> f = Bytes b \<and> names_from_json J b = Inr (A n)))"
  shows "\<exists>mem'. open_dirs J d (mem, stale) = Inr (mem', stale)
     \<and> (\<forall>n v. mem_version mem' n v =
          (if \<exists>(dirname, files) \<in> set d. holds_version J files n v
           then M n v else mem_version mem n v))
     \<and> (\<forall>n. mem_audiences mem' n = mem_audiences mem n
          \<union> (if plain_name n \<and> (\<exists>files. (replace_slash n, files) \<in> set d \<and> map_of files ''published.json'' \<noteq> None)
             then A n else {}))"
  using assms
proof (induction d arbitrary: mem)
  case Nil
  then show ?case by simp
next
  case (Cons e d)
  obtain dirname files where e: "e = (dirname, files)" by (cases e)
  let ?es = "filter (\<lambda>e. ends_with STORED (fst e)) files"
  have head: "\<forall>(file, f) \<in> set ?es. \<exists>r. load_contract J f = Inr r \<and> M (reg_name r) (reg_version r) = Some r"
    and pub: "\<And>f. map_of files ''published.json'' = Some f \<Longrightarrow>
      \<exists>n b. plain_name n \<and> dirname = replace_slash n \<and> f = Bytes b \<and> names_from_json J b = Inr (A n)"
    using Cons.prems(2) [of dirname files] by (auto simp: e)
  obtain m1 where m1: "fold (open_file J dirname) ?es (mem, stale) = (m1, stale)"
    "\<forall>n. mem_audiences m1 n = mem_audiences mem n"
    "\<forall>n v. mem_version m1 n v =
      (if holds_version J files n v then M n v else mem_version mem n v)"
    using open_files [OF head] unfolding holds_version_filter by blast
  obtain m2 where m2: "open_published J dirname files m1 = Inr m2"
    "\<forall>n v. mem_version m2 n v = mem_version m1 n v"
    "\<forall>n. mem_audiences m2 n = mem_audiences m1 n
          \<union> (if map_of files ''published.json'' \<noteq> None \<and> plain_name n \<and> dirname = replace_slash n then A n else {})"
    using open_published_effect [OF pub, where mem = m1] by blast
  have IH: "\<exists>mem'. open_dirs J d (m2, stale) = Inr (mem', stale)
     \<and> (\<forall>n v. mem_version mem' n v =
          (if \<exists>(dirname, files) \<in> set d. holds_version J files n v
           then M n v else mem_version m2 n v))
     \<and> (\<forall>n. mem_audiences mem' n = mem_audiences m2 n
          \<union> (if plain_name n \<and> (\<exists>files. (replace_slash n, files) \<in> set d \<and> map_of files ''published.json'' \<noteq> None)
             then A n else {}))"
    by (rule Cons.IH, use Cons.prems(1) in simp, rule Cons.prems(2), simp)
  obtain m3 where m3: "open_dirs J d (m2, stale) = Inr (m3, stale)"
    "\<forall>n v. mem_version m3 n v =
          (if \<exists>(dirname, files) \<in> set d. holds_version J files n v
           then M n v else mem_version m2 n v)"
    "\<forall>n. mem_audiences m3 n = mem_audiences m2 n
          \<union> (if plain_name n \<and> (\<exists>files. (replace_slash n, files) \<in> set d \<and> map_of files ''published.json'' \<noteq> None)
             then A n else {})"
    using IH by blast
  have run: "open_dirs J (e # d) (mem, stale) = Inr (m3, stale)"
    using m1(1) m2(1) m3(1) by (simp add: e)
  have "mem_version m3 n v =
          (if \<exists>(dirname, files) \<in> set (e # d). holds_version J files n v
           then M n v else mem_version mem n v)" for n v
    using m3(2) m2(2) m1(3) by (auto simp: e)
  moreover have "mem_audiences m3 n = mem_audiences mem n
          \<union> (if plain_name n \<and> (\<exists>files. (replace_slash n, files) \<in> set (e # d) \<and> map_of files ''published.json'' \<noteq> None)
             then A n else {})" for n
    using m3(3) m2(3) m1(2) by (auto simp: e)
  ultimately show ?case using run by blast
qed

lemma reopen_synced:
  assumes "synced J d g"
  shows "\<exists>t. dir_open J d = Inr t \<and> ds_stale t = []
     \<and> (\<forall>n v. mem_version (ds_memory t) n v = mem_version g n v)
     \<and> (\<forall>n. mem_audiences (ds_memory t) n = mem_audiences g n)"
proof -
  note S = assms [unfolded synced_def]
  have dist: "distinct (map fst d)" using S by (simp add: bt_ok_distinct)
  have files_at: "file_at d dirname fname = Some f"
    if "(dirname, files) \<in> set d" "(fname, f) \<in> set files" for dirname files fname f
  proof -
    have "map_of d dirname = Some files" using that(1) dist by simp
    moreover from this have "distinct (map fst files)" using S bt_ok_distinct by blast
    ultimately show ?thesis using that(2) by (simp add: file_at_def)
  qed
  have at_files: "\<exists>files. (dirname, files) \<in> set d \<and> map_of files fname = Some f"
    if "file_at d dirname fname = Some f" for dirname fname f
    using that by (auto simp: file_at_def bind_eq_Some_conv dest: map_of_SomeD)
  have "\<exists>mem'. open_dirs J d (empty_contents, []) = Inr (mem', [])
     \<and> (\<forall>n v. mem_version mem' n v =
          (if \<exists>(dirname, files) \<in> set d. holds_version J files n v
           then mem_version g n v else mem_version empty_contents n v))
     \<and> (\<forall>n. mem_audiences mem' n = mem_audiences empty_contents n
          \<union> (if plain_name n \<and> (\<exists>files. (replace_slash n, files) \<in> set d \<and> map_of files ''published.json'' \<noteq> None)
             then mem_audiences g n else {}))"
  proof (rule open_dirs_effect [OF dist])
    fix dirname files
    assume d: "(dirname, files) \<in> set d"
    then have m: "map_of d dirname = Some files" using dist by simp
    show "bt_ok files
      \<and> (\<forall>(file, f) \<in> set files. ends_with STORED file \<longrightarrow>
           (\<exists>r. load_contract J f = Inr r \<and> mem_version g (reg_name r) (reg_version r) = Some r))
      \<and> (\<forall>f. map_of files ''published.json'' = Some f \<longrightarrow>
           (\<exists>n b. plain_name n \<and> dirname = replace_slash n \<and> f = Bytes b \<and> names_from_json J b = Inr (mem_audiences g n)))"
    proof (intro conjI)
      show "bt_ok files" using S m by blast
      show "\<forall>(file, f) \<in> set files. ends_with STORED file \<longrightarrow>
           (\<exists>r. load_contract J f = Inr r \<and> mem_version g (reg_name r) (reg_version r) = Some r)"
        using files_at [OF d] S by blast
      have "file_at d dirname ''published.json'' = map_of files ''published.json''"
        by (simp add: file_at_def m)
      then show "\<forall>f. map_of files ''published.json'' = Some f \<longrightarrow>
           (\<exists>n b. plain_name n \<and> dirname = replace_slash n \<and> f = Bytes b \<and> names_from_json J b = Inr (mem_audiences g n))"
        using S by simp
    qed
  qed
  then obtain mem' where run: "open_dirs J d (empty_contents, []) = Inr (mem', [])"
    and ver: "\<And>n v. mem_version mem' n v =
          (if \<exists>(dirname, files) \<in> set d. holds_version J files n v
           then mem_version g n v else mem_version empty_contents n v)"
    and aud: "\<And>n. mem_audiences mem' n = mem_audiences empty_contents n
          \<union> (if plain_name n \<and> (\<exists>files. (replace_slash n, files) \<in> set d \<and> map_of files ''published.json'' \<noteq> None)
             then mem_audiences g n else {})" by blast
  have "mem_version mem' n v = mem_version g n v" for n v
  proof (cases "mem_version g n v")
    case None
    then show ?thesis by (simp add: ver) (simp add: mem_version_def empty_contents_def)
  next
    case (Some r)
    then obtain f where f: "file_at d (replace_slash n) (version_file v) = Some f" "load_contract J f = Inr r"
      using S by blast
    have "\<exists>files. (replace_slash n, files) \<in> set d \<and> (version_file v, f) \<in> set files"
      using at_files [OF f(1)] by (blast dest: map_of_SomeD)
    moreover have "reg_name r = n \<and> reg_version r = v"
    proof -
      obtain r' where "load_contract J f = Inr r'" "replace_slash n = replace_slash (reg_name r')"
        "version_file v = version_file (reg_version r')" "mem_version g (reg_name r') (reg_version r') = Some r'"
        using S f(1) version_file_stored [of v] by metis
      then have "r' = r" using f(2) by simp
      have "plain_name n" "v < 2 ^ 32" using S Some by blast+
      moreover have "plain_name (reg_name r)" "reg_version r < 2 ^ 32"
        using S \<open>mem_version g (reg_name r') (reg_version r') = Some r'\<close> \<open>r' = r\<close> by blast+
      ultimately show ?thesis
        using \<open>replace_slash n = replace_slash (reg_name r')\<close> \<open>version_file v = version_file (reg_version r')\<close>
          \<open>r' = r\<close> plain_replace_inj version_file_inj by blast
    qed
    ultimately have "\<exists>(dirname, files) \<in> set d. holds_version J files n v"
      using f(2) version_file_stored [of v] unfolding holds_version_def by fast
    then show ?thesis by (simp only: ver if_P)
  qed
  moreover have "mem_audiences mem' n = mem_audiences g n" for n
  proof (cases "mem_audiences g n = {}")
    case True
    then show ?thesis by (simp add: aud) (simp add: mem_audiences_def empty_contents_def)
  next
    case False
    then have "plain_name n" "\<exists>f. file_at d (replace_slash n) ''published.json'' = Some f"
      using S by blast+
    then have "plain_name n \<and> (\<exists>files. (replace_slash n, files) \<in> set d \<and> map_of files ''published.json'' \<noteq> None)"
      using at_files by fastforce
    then show ?thesis by (simp add: aud) (simp add: mem_audiences_def empty_contents_def)
  qed
  ultimately show ?thesis using run by (simp add: dir_open_def)
qed

section \<open>Properties\<close>

text \<open>The history of a directory store: what was put and published in it, each step successful.\<close>

inductive dir_history :: "store_codec \<Rightarrow> dir_store \<Rightarrow> bool" for J :: store_codec where
  opened: "dir_history J \<lparr>ds_dir = [], ds_memory = empty_contents, ds_stale = []\<rparr>"
| put: "dir_history J s \<Longrightarrow> reg_ok c \<Longrightarrow> plain_name (reg_name c) \<Longrightarrow>
    dir_put J w c s = (s', Inr ()) \<Longrightarrow> dir_history J s'"
| published: "dir_history J s \<Longrightarrow> plain_name n \<Longrightarrow> dir_publish J w' n a s = (s', Inr ()) \<Longrightarrow> dir_history J s'"
| unpublished: "dir_history J s \<Longrightarrow> plain_name n \<Longrightarrow> dir_unpublish J w' n a s = (s', Inr ()) \<Longrightarrow> dir_history J s'"

lemma history_synced:
  assumes "store_laws J" and "dir_history J s"
  shows "synced J (ds_dir s) (ds_memory s)"
  using assms(2)
proof induction
  case opened
  then show ?case by (simp add: synced_empty)
next
  case (put s c w s')
  then show ?case using synced_put [OF assms(1)] by blast
next
  case (published s n w' a s')
  then show ?case
    by (intro synced_save [OF assms(1), of "s\<lparr>ds_memory := mem_publish n a (ds_memory s)\<rparr>" "ds_memory s" n w'])
      (simp_all add: dir_publish_def)
next
  case (unpublished s n w' a s')
  then show ?case
    by (intro synced_save [OF assms(1), of "s\<lparr>ds_memory := mem_unpublish n a (ds_memory s)\<rparr>" "ds_memory s" n w'])
      (simp_all add: dir_unpublish_def)
qed


text \<open>
  Registering a version of a contract on disk makes it the current one unless a later version is
  registered, and changes no other contract's current version and no audience.
\<close>

theorem dir_put_current:
  assumes "contents_ok (ds_memory s)" and "dir_put J w c s = (s', Inr ())"
  shows "mem_current (ds_memory s') (reg_name c) =
      (case mem_current (ds_memory s) (reg_name c) of
         Some d \<Rightarrow> if reg_version c < reg_version d then Some d else Some c | None \<Rightarrow> Some c)
    \<and> (n \<noteq> reg_name c \<longrightarrow> mem_current (ds_memory s') n = mem_current (ds_memory s) n)
    \<and> mem_audiences (ds_memory s') n = mem_audiences (ds_memory s) n"
  using disk.put_current [OF assms] disk.put_other [OF assms, of n] disk.put_audiences [of J w c s n] assms(2)
  by simp

text \<open>
  Publishing shows a contract to exactly the tenant named, or to everyone when the audience is
  public; withdrawing shows it to nobody new, even when the disk write fails.
\<close>

theorem dir_publish_visibility:
  assumes "contents_ok (ds_memory s)"
  shows "(disk.sees (fst (dir_publish J w m a s)) t n \<longleftrightarrow>
      disk.sees s t n \<or> (n = m \<and> (a = t \<or> a = PUBLIC) \<and> mem_current (ds_memory s) n \<noteq> None))
   \<and> (disk.sees (fst (dir_unpublish J w m a s)) t n \<longrightarrow> disk.sees s t n)"
  using disk.sees_publish [OF assms, of J w m a t n] disk.sees_unpublish [OF assms, of J w m a t n] by blast

text \<open>
  A contract with two underscores in its name is published under another name once the store is
  opened again: publishing \<open>a__b\<close> to a tenant publishes \<open>a/b\<close> to them, and no longer \<open>a__b\<close>.
\<close>

theorem underscores_move_audience:
  assumes "store_laws J"
    and "dir_publish J Saved ''a__b'' t \<lparr>ds_dir = [], ds_memory = empty_contents, ds_stale = []\<rparr> = (s, Inr ())"
  shows "\<exists>u. dir_open J (ds_dir s) = Inr u
     \<and> mem_audiences (ds_memory u) ''a/b'' = {t} \<and> mem_audiences (ds_memory u) ''a__b'' = {}"
proof -
  let ?s = "\<lparr>ds_dir = [], ds_memory = mem_publish ''a__b'' t empty_contents, ds_stale = []\<rparr>"
  have "save_audiences J Saved ''a__b'' ?s = (s, Inr ())" using assms(2) by (simp add: dir_publish_def)
  then obtain b where b: "names_to_json J (mem_audiences (ds_memory ?s) ''a__b'') = Inr b"
    "ds_dir s = write_file (replace_slash ''a__b'') ''published.json'' b
       (bt_update [] (\<lambda>fs. fs) (replace_slash ''a__b'') (ds_dir ?s))"
    using save_audiences_Inr by metis
  have "mem_audiences empty_contents m = {}" for m by (simp add: mem_audiences_def empty_contents_def)
  then have "mem_audiences (ds_memory ?s) ''a__b'' = {t}" by simp
  then have names: "names_from_json J b = Inr {t}" using b(1) assms(1) by (simp add: store_laws_def)
  have dir: "ds_dir s = [(''a__b'', [(''published.json'', Bytes b)])]"
    by (simp add: b(2) write_file_def bt_update_def bt_get_or_def)
  show ?thesis
    by (simp add: dir_open_def dir published_not_stored open_published_def names decode_dir_def
        mem_audiences_def empty_contents_def)
qed

text \<open>
  The file of audiences is written in place: a write that fails halfway leaves bytes that are not
  the JSON of a set, and the whole store, every contract in it, can then not be opened.
\<close>

theorem failed_publish_locks_store:
  assumes "names_from_json J half = Inl e" 
    and "names_to_json J (insert a (mem_audiences (ds_memory s) n)) = Inr b"
    and "ds_dir s = []"
  shows "\<exists>s'. dir_publish J (Failed ''full'' (Some half)) n a s = (s', Inl (Io ''full''))
     \<and> (\<exists>x. dir_open J (ds_dir s') = Inl (Invalid x))"
  using assms
  by (simp add: dir_publish_def save_audiences_def plain_write_def Let_def write_file_def bt_update_def
      bt_get_or_def dir_open_def open_published_def contract_path_def published_not_stored)

section \<open>A concrete store\<close>

definition ex_registered :: registered where
  "ex_registered = \<lparr>r_doc = \<lparr>doc_contract = ''t/orders'', doc_text = ''d''\<rparr>, r_schema = row_schema ex_contract,
     r_functions = [], r_compilation = ex_compilation\<rparr>"

text \<open>A codec that knows the one contract above and two sets of names.\<close>

definition ex_store_codec :: store_codec where
  "ex_store_codec = \<lparr>comp_to_bytes = (\<lambda>c. if c = ex_compilation then Inr ''c'' else Inl ''other''),
     comp_from_bytes = (\<lambda>b. if b = ''c'' then Inr ex_compilation else Inl ''other''),
     from_utf8 = Inr,
     contract_to_json = (\<lambda>x. if x = (r_doc ex_registered, [], ''c'') then Inr ''j'' else Inl ''other''),
     contract_from_json = (\<lambda>b. if b = ''j'' then Inr (r_doc ex_registered, [], ''c'') else Inl ''other''),
     names_to_json = (\<lambda>a. if a = {} then Inr ''e'' else if a = {''u''} then Inr ''n'' else Inl ''other''),
     names_from_json = (\<lambda>b. if b = ''e'' then Inr {} else if b = ''n'' then Inr {''u''} else Inl ''other'')\<rparr>"

lemma ex_store_laws: "store_laws ex_store_codec"
  by (auto simp: store_laws_def ex_store_codec_def split: if_splits)

abbreviation ex_empty_store :: dir_store where
  "ex_empty_store \<equiv> \<lparr>ds_dir = [], ds_memory = empty_contents, ds_stale = []\<rparr>"

lemma ex_reg_simps:
  "reg_name ex_registered = ''t/orders''" "reg_version ex_registered = 1" "reg_ok ex_registered"
  by (simp_all add: reg_name_def reg_version_def reg_ok_def ex_registered_def ex_contract_simps)

lemma mem_audiences_empty: "mem_audiences empty_contents n = {}"
  by (simp add: mem_audiences_def empty_contents_def)

lemma ex_dir_put: "\<exists>s. dir_put ex_store_codec None ex_registered ex_empty_store = (s, Inr ())"
  by (simp add: dir_put_def Let_def ex_store_codec_def ex_registered_def)

lemma ex_dir_publish:
  "mem_audiences (ds_memory s) n = {} \<Longrightarrow> \<exists>s'. dir_publish ex_store_codec Saved n ''u'' s = (s', Inr ())"
  by (simp add: dir_publish_def save_audiences_def plain_write_def Let_def ex_store_codec_def)


theorem dir_put_current_witness:
  "\<exists>s. dir_put ex_store_codec None ex_registered ex_empty_store = (s, Inr ())
     \<and> mem_current (ds_memory s) ''t/orders'' = Some ex_registered"
proof -
  obtain s where s: "dir_put ex_store_codec None ex_registered ex_empty_store = (s, Inr ())"
    using ex_dir_put by blast
  have "mem_current (ds_memory s) (reg_name ex_registered) = Some ex_registered"
    using dir_put_current [OF _ s, THEN conjunct1] contents_ok_empty
    by (simp only: dir_store.simps) (simp add: mem_current_def empty_contents_def)
  with s show ?thesis by (simp add: ex_reg_simps)
qed

theorem dir_publish_visibility_witness:
  "\<not> disk.sees (fst (dir_publish ex_store_codec Saved ''t/orders'' ''u'' ex_empty_store)) ''u'' ''t/orders''"
  using dir_publish_visibility [of ex_empty_store ex_store_codec Saved "''t/orders''" "''u''" "''u''" "''t/orders''"]
    contents_ok_empty
  by (simp add: mem_current_def empty_contents_def disk.sees_def)

theorem underscores_move_audience_witness:
  "\<exists>s u. dir_publish ex_store_codec Saved ''a__b'' ''u'' ex_empty_store = (s, Inr ())
     \<and> dir_open ex_store_codec (ds_dir s) = Inr u \<and> mem_audiences (ds_memory u) ''a/b'' = {''u''}"
proof -
  have "mem_audiences (ds_memory ex_empty_store) ''a__b'' = {}" by (simp add: mem_audiences_empty)
  from ex_dir_publish [OF this]
  obtain s where s: "dir_publish ex_store_codec Saved ''a__b'' ''u'' ex_empty_store = (s, Inr ())" ..
  from underscores_move_audience [OF ex_store_laws s]
  obtain u where "dir_open ex_store_codec (ds_dir s) = Inr u" "mem_audiences (ds_memory u) ''a/b'' = {''u''}" by blast
  with s show ?thesis by (intro exI [of _ s] exI [of _ u] conjI)
qed

theorem failed_publish_locks_store_witness:
  "\<exists>s' x. dir_publish ex_store_codec (Failed ''full'' (Some ''half'')) ''t/orders'' ''u'' ex_empty_store = (s', Inl (Io ''full''))
     \<and> dir_open ex_store_codec (ds_dir s') = Inl (Invalid x)"
proof -
  have "\<exists>s'. dir_publish ex_store_codec (Failed ''full'' (Some ''half'')) ''t/orders'' ''u'' ex_empty_store = (s', Inl (Io ''full''))
     \<and> (\<exists>x. dir_open ex_store_codec (ds_dir s') = Inl (Invalid x))"
    by (intro failed_publish_locks_store [where b = "''n''" and e = "''other''"])
      (simp_all add: ex_store_codec_def mem_audiences_empty)
  then show ?thesis by blast
qed

end
