(* ===== verification/Query_Audit.thy ===== *)
theory Query_Audit
  imports Manifest Float64
begin

text \<open>
  The audit log (\<open>src/audit.rs\<close>): one record per query. The interface is the locale \<open>audit_log\<close>,
  interpreted on the log in memory and on the log of JSON lines in a file. JSON and the outcome of a
  disk write are parameters; both logs record under a lock.
\<close>

section \<open>Records\<close>

datatype audit_outcome = Answered | Planned | RefusedFor string | FailedWith string

record audit_record =
  a_id :: string
  a_at :: int
  a_caller_id :: string
  a_tenant :: string
  a_purpose :: string
  a_sql_sha256 :: string
  a_contracts :: "string list"
  a_outcome :: audit_outcome
  a_rows :: nat
  a_elapsed_ms :: nat
  a_charges :: "(string \<times> f64) list"

section \<open>The interface\<close>

text \<open>\<open>logged s\<close> is what the log holds; recording adds one record at the end, or fails.\<close>

locale audit_log =
  fixes add_record :: "audit_record \<Rightarrow> 's \<Rightarrow> 's \<times> unit res"
    and logged :: "'s \<Rightarrow> 'x list"
    and entry_of :: "audit_record \<Rightarrow> 'x"
    and ok :: "'s \<Rightarrow> bool"
  assumes recorded: "ok s \<Longrightarrow> add_record r s = (s', Inr ()) \<Longrightarrow> ok s' \<and> logged s' = logged s @ [entry_of r]"
begin

text \<open>A run of queries, each recorded.\<close>

fun record_all :: "audit_record list \<Rightarrow> 's \<Rightarrow> 's \<times> unit res" where
  "record_all [] s = (s, Inr ())"
| "record_all (r # rs) s =
     (case add_record r s of (s', Inr _) \<Rightarrow> record_all rs s' | (s', Inl e) \<Rightarrow> (s', Inl e))"

lemma record_all_logged:
  "ok s \<Longrightarrow> record_all rs s = (s', Inr ()) \<Longrightarrow> ok s' \<and> logged s' = logged s @ map entry_of rs"
proof (induction rs arbitrary: s)
  case (Cons r rs)
  then obtain s1 where "add_record r s = (s1, Inr ())" "record_all rs s1 = (s', Inr ())"
    by (auto split: prod.splits sum.splits)
  with Cons recorded [of s r s1] show ?case by auto
qed simp

end

section \<open>In memory\<close>

definition memory_record :: "audit_record \<Rightarrow> audit_record list \<Rightarrow> audit_record list \<times> unit res" where
  "memory_record r records = (records @ [r], Inr ())"

interpretation mem_log: audit_log memory_record "\<lambda>s. s" "\<lambda>r. r" "\<lambda>s. True"
  by unfold_locales (auto simp: memory_record_def)

section \<open>Lines of a file\<close>

text \<open>
  What appending may do: the directory cannot be made, the file not opened, or the write fails having
  appended some of the bytes.
\<close>

datatype append_outcome = Appended | NoDirectory string | NoFile string | Partly string nat

definition jsonl_record ::
  "(audit_record \<Rightarrow> string + string) \<Rightarrow> append_outcome \<Rightarrow> audit_record \<Rightarrow> string \<Rightarrow> string \<times> unit res" where
  "jsonl_record to_string w r file =
     (case w of
        NoDirectory e \<Rightarrow> (file, Inl (Io e))
      | NoFile e \<Rightarrow> (file, Inl (Io e))
      | _ \<Rightarrow>
          (case to_string r of
             Inl e \<Rightarrow> (file, Inl (Io e))
           | Inr line \<Rightarrow>
               (case w of
                  Partly e n \<Rightarrow> (file @ take n (line @ ''\<newline>''), Inl (Io e))
                | _ \<Rightarrow> (file @ line @ ''\<newline>'', Inr ()))))"

text \<open>The lines of a file, each ended by a line break; what follows the last break is not a line.\<close>

fun file_lines :: "string \<Rightarrow> string \<Rightarrow> string list" where
  "file_lines acc [] = []"
| "file_lines acc (c # s) = (if c = CHR ''\<newline>'' then acc # file_lines [] s else file_lines (acc @ [c]) s)"

definition whole_lines :: "string \<Rightarrow> bool" where
  "whole_lines s \<longleftrightarrow> s = [] \<or> last s = CHR ''\<newline>''"

text \<open>The JSON library writes no line break inside a value; the text of a record, where it has one.\<close>

definition line_laws :: "(audit_record \<Rightarrow> string + string) \<Rightarrow> bool" where
  "line_laws to_string \<longleftrightarrow> (\<forall>r t. to_string r = Inr t \<longrightarrow> CHR ''\<newline>'' \<notin> set t)"

definition text_of :: "(audit_record \<Rightarrow> string + string) \<Rightarrow> audit_record \<Rightarrow> string" where
  "text_of to_string r = (case to_string r of Inr t \<Rightarrow> t | Inl _ \<Rightarrow> [])"

lemma file_lines_append:
  "whole_lines s \<Longrightarrow> file_lines acc (s @ t) = (if s = [] then file_lines acc t else file_lines acc s @ file_lines [] t)"
proof (induction s arbitrary: acc)
  case (Cons c s)
  then have "s = [] \<Longrightarrow> c = CHR ''\<newline>''" "s \<noteq> [] \<Longrightarrow> whole_lines s" by (auto simp: whole_lines_def)
  with Cons.IH show ?case by (cases "s = []") auto
qed simp

lemma file_lines_line: "CHR ''\<newline>'' \<notin> set t \<Longrightarrow> file_lines acc (t @ ''\<newline>'') = [acc @ t]"
  by (induction t arbitrary: acc) auto

interpretation jsonl: audit_log "jsonl_record to_string w" "file_lines []" "text_of to_string"
  "\<lambda>s. whole_lines s \<and> line_laws to_string" for to_string w
proof
  fix s r s'
  assume s: "whole_lines s \<and> line_laws to_string" and run: "jsonl_record to_string w r s = (s', Inr ())"
  then obtain t where t: "to_string r = Inr t" "s' = s @ t @ ''\<newline>''"
    by (auto simp: jsonl_record_def split: append_outcome.splits sum.splits)
  with s have nl: "CHR ''\<newline>'' \<notin> set t" by (simp add: line_laws_def)
  have "file_lines [] s' = file_lines [] s @ [t]"
    using s file_lines_append [of s "[]" "t @ ''\<newline>''"] file_lines_line [OF nl, of "[]"] by (auto simp: t(2))
  then show "(whole_lines s' \<and> line_laws to_string) \<and> file_lines [] s' = file_lines [] s @ [text_of to_string r]"
    using s t by (simp add: whole_lines_def text_of_def)
qed

section \<open>Properties\<close>

text \<open>
  After any run of queries that were all recorded, the file of the log has one line per query more,
  its JSON, in the order they were asked; what was logged before is unchanged.
\<close>

theorem jsonl_log_complete:
  assumes "line_laws to_string" and "whole_lines s"
    and "jsonl.record_all to_string Appended rs s = (s', Inr ())"
  shows "file_lines [] s' = file_lines [] s @ map (text_of to_string) rs"
  using jsonl.record_all_logged [OF _ assms(3)] assms(1,2) by blast

definition ex_audit :: "string \<Rightarrow> audit_record" where
  "ex_audit i = \<lparr>a_id = i, a_at = 0, a_caller_id = ''alice'', a_tenant = ''t'', a_purpose = ''p'',
     a_sql_sha256 = ''h'', a_contracts = [], a_outcome = Answered, a_rows = 1, a_elapsed_ms = 1, a_charges = []\<rparr>"

theorem jsonl_log_complete_witness:
  "\<exists>s'. jsonl.record_all (\<lambda>r. if CHR ''\<newline>'' \<in> set (a_id r) then Inl ''bad'' else Inr (a_id r)) Appended
      [ex_audit ''1'', ex_audit ''2''] ''0\<newline>'' = (s', Inr ())
     \<and> file_lines [] s' = [''0'', ''1'', ''2'']"
proof -
  let ?f = "\<lambda>r. if CHR ''\<newline>'' \<in> set (a_id r) then Inl ''bad'' else Inr (a_id (r :: audit_record)) :: string + string"
  have run: "jsonl.record_all ?f Appended [ex_audit ''1'', ex_audit ''2''] ''0\<newline>''
      = (''0\<newline>1\<newline>2\<newline>'', Inr ())"
    by (simp add: jsonl_record_def ex_audit_def)
  have "file_lines [] ''0\<newline>1\<newline>2\<newline>'' = file_lines [] ''0\<newline>'' @ map (text_of ?f) [ex_audit ''1'', ex_audit ''2'']"
    by (rule jsonl_log_complete [OF _ _ run]) (auto simp: line_laws_def whole_lines_def split: if_splits)
  with run show ?thesis by (simp add: text_of_def ex_audit_def)
qed

end
