(* ===== verification/Atomic.thy ===== *)
theory Atomic
  imports Store
begin

text \<open>
  Whole-file writes (\<open>src/atomic.rs\<close>): a temporary file of the writer's own, renamed into place. The
  disk is a map from paths to the bytes a file holds now. Several writers, in several processes, run
  at once; each of their steps on the disk is one step here, a write of the temporary file being any
  number of them, and a writer may fail or stop for good at any of them.
\<close>

section \<open>Temporary files\<close>

text \<open>The last component of a path, and the path with another one in its place.\<close>

definition dir_part :: "string \<Rightarrow> string" where
  "dir_part p = rev (dropWhile (\<lambda>c. c \<noteq> CHR ''/'') (rev p))"

definition file_part :: "string \<Rightarrow> string" where
  "file_part p = rev (takeWhile (\<lambda>c. c \<noteq> CHR ''/'') (rev p))"

definition tmp_path :: "string \<Rightarrow> nat \<Rightarrow> nat \<Rightarrow> string" where
  "tmp_path p pid n =
     dir_part p @ ''.'' @ file_part p @ ''.'' @ show_nat pid @ ''.'' @ show_nat n @ ''.tmp''"

record writer =
  target :: string
  payload :: string
  process_id :: nat
  write_number :: nat

definition tmp_of :: "writer \<Rightarrow> string" where
  "tmp_of w = tmp_path (target w) (process_id w) (write_number w)"

section \<open>Steps\<close>

datatype phase = Starting | Writing nat | Complete | Renamed | Gone

type_synonym disk = "string \<rightharpoonup> string"

record system =
  disk :: disk
  phase_of :: "nat \<Rightarrow> phase"

definition set_phase :: "nat \<Rightarrow> phase \<Rightarrow> system \<Rightarrow> system" where
  "set_phase i p s = s\<lparr>phase_of := (phase_of s)(i := p)\<rparr>"

text \<open>
  One writer's next step: make the file, write more bytes, have written all of them, rename it, or fail
  (a failed rename removes the temporary file, when it can).
\<close>

inductive write_step :: "(nat \<Rightarrow> writer) \<Rightarrow> system \<Rightarrow> system \<Rightarrow> bool" for ws :: "nat \<Rightarrow> writer" where
  create: "phase_of s i = Starting \<Longrightarrow>
    write_step ws s (set_phase i (Writing 0) (s\<lparr>disk := (disk s)(tmp_of (ws i) \<mapsto> [])\<rparr>))"
| more: "phase_of s i = Writing k \<Longrightarrow> k \<le> k' \<Longrightarrow> k' \<le> length (payload (ws i)) \<Longrightarrow>
    write_step ws s (set_phase i (Writing k') (s\<lparr>disk := (disk s)(tmp_of (ws i) \<mapsto> take k' (payload (ws i)))\<rparr>))"
| written: "phase_of s i = Writing (length (payload (ws i))) \<Longrightarrow> write_step ws s (set_phase i Complete s)"
| rename: "phase_of s i = Complete \<Longrightarrow> disk s (tmp_of (ws i)) = Some b \<Longrightarrow>
    write_step ws s (set_phase i Renamed
      (s\<lparr>disk := ((disk s)(target (ws i) \<mapsto> b))(tmp_of (ws i) := None)\<rparr>))"
| rename_failed: "phase_of s i = Complete \<Longrightarrow>
    write_step ws s (set_phase i Gone (s\<lparr>disk := (disk s)(tmp_of (ws i) := None)\<rparr>))"
| stopped: "phase_of s i \<noteq> Renamed \<Longrightarrow> write_step ws s (set_phase i Gone s)"

inductive_cases write_stepE: "write_step ws s s'"

inductive runs :: "(nat \<Rightarrow> writer) \<Rightarrow> disk \<Rightarrow> system \<Rightarrow> bool" for ws :: "nat \<Rightarrow> writer" and d :: disk where
  start: "runs ws d \<lparr>disk = d, phase_of = (\<lambda>i. Starting)\<rparr>"
| step: "runs ws d s \<Longrightarrow> write_step ws s s' \<Longrightarrow> runs ws d s'"

section \<open>Temporary names are the writer's own\<close>

lemma no_dot_show_nat: "CHR ''.'' \<notin> set (show_nat n)" "CHR ''/'' \<notin> set (show_nat n)"
  using show_nat_digits [of n] by (auto simp: list_all_iff is_digit_def)

lemma show_nat_inj: "show_nat m = show_nat n \<Longrightarrow> m = n"
  using show_nat_digits by metis

lemma tmp_path_inj:
  assumes "tmp_path p a m = tmp_path q b n"
  shows "a = b \<and> m = n"
proof -
  have "(dir_part p @ ''.'' @ file_part p @ ''.'' @ show_nat a) @ CHR ''.'' # show_nat m
      = (dir_part q @ ''.'' @ file_part q @ ''.'' @ show_nat b) @ CHR ''.'' # show_nat n"
    using assms by (simp add: tmp_path_def)
  then have eq: "dir_part p @ ''.'' @ file_part p @ ''.'' @ show_nat a
      = dir_part q @ ''.'' @ file_part q @ ''.'' @ show_nat b \<and> show_nat m = show_nat n"
    by (rule split_at_last) (rule no_dot_show_nat)+
  then have "(dir_part p @ ''.'' @ file_part p) @ CHR ''.'' # show_nat a
      = (dir_part q @ ''.'' @ file_part q) @ CHR ''.'' # show_nat b" by simp
  then have "show_nat a = show_nat b"
    using split_at_last [OF _ no_dot_show_nat(1) no_dot_show_nat(1)] by blast
  with eq show ?thesis using show_nat_inj by blast
qed

lemma tmp_of_ends: "ends_with ''.tmp'' (tmp_of w)"
  using ends_with_append [of "''.tmp''" "dir_part (target w) @ ''.'' @ file_part (target w) @ ''.'' @
    show_nat (process_id w) @ ''.'' @ show_nat (write_number w)"]
  by (simp add: tmp_of_def tmp_path_def)

text \<open>
  What the operating system and the counter guarantee: no two running writers share a process number
  and a write number. No file written this way is itself named like a temporary file.
\<close>

definition own_names :: "(nat \<Rightarrow> writer) \<Rightarrow> bool" where
  "own_names ws \<longleftrightarrow> (\<forall>i j. process_id (ws i) = process_id (ws j) \<and> write_number (ws i) = write_number (ws j) \<longrightarrow> i = j)
     \<and> (\<forall>i. \<not> ends_with ''.tmp'' (target (ws i)))"

lemma tmp_of_own:
  assumes "own_names ws"
  shows "tmp_of (ws i) = tmp_of (ws j) \<longleftrightarrow> i = j" and "tmp_of (ws i) \<noteq> target (ws j)"
  using assms tmp_path_inj tmp_of_ends unfolding own_names_def tmp_of_def by metis+

section \<open>The invariant\<close>

definition system_ok :: "(nat \<Rightarrow> writer) \<Rightarrow> disk \<Rightarrow> system \<Rightarrow> bool" where
  "system_ok ws d s \<longleftrightarrow>
     (\<forall>i. case phase_of s i of
        Writing k \<Rightarrow> disk s (tmp_of (ws i)) = Some (take k (payload (ws i)))
      | Complete \<Rightarrow> disk s (tmp_of (ws i)) = Some (payload (ws i))
      | _ \<Rightarrow> True)
   \<and> (\<forall>p. \<not> ends_with ''.tmp'' p \<longrightarrow>
        disk s p = d p \<or> (\<exists>i. target (ws i) = p \<and> phase_of s i = Renamed \<and> disk s p = Some (payload (ws i))))"

lemma system_okI:
  assumes "\<And>i. case phase_of s i of
        Writing k \<Rightarrow> disk s (tmp_of (ws i)) = Some (take k (payload (ws i)))
      | Complete \<Rightarrow> disk s (tmp_of (ws i)) = Some (payload (ws i))
      | _ \<Rightarrow> True"
    and "\<And>p. \<not> ends_with ''.tmp'' p \<Longrightarrow>
        disk s p = d p \<or> (\<exists>i. target (ws i) = p \<and> phase_of s i = Renamed \<and> disk s p = Some (payload (ws i)))"
  shows "system_ok ws d s"
  using assms by (simp add: system_ok_def)

lemma system_okD:
  assumes "system_ok ws d s"
  shows "phase_of s i = Writing k \<Longrightarrow> disk s (tmp_of (ws i)) = Some (take k (payload (ws i)))"
    and "phase_of s i = Complete \<Longrightarrow> disk s (tmp_of (ws i)) = Some (payload (ws i))"
    and "\<not> ends_with ''.tmp'' p \<Longrightarrow>
        disk s p = d p \<or> (\<exists>i. target (ws i) = p \<and> phase_of s i = Renamed \<and> disk s p = Some (payload (ws i)))"
proof -
  have ph: "case phase_of s i of
        Writing k \<Rightarrow> disk s (tmp_of (ws i)) = Some (take k (payload (ws i)))
      | Complete \<Rightarrow> disk s (tmp_of (ws i)) = Some (payload (ws i))
      | _ \<Rightarrow> True" using assms by (simp add: system_ok_def)
  show "phase_of s i = Writing k \<Longrightarrow> disk s (tmp_of (ws i)) = Some (take k (payload (ws i)))"
    "phase_of s i = Complete \<Longrightarrow> disk s (tmp_of (ws i)) = Some (payload (ws i))"
    using ph by simp_all
  show "\<not> ends_with ''.tmp'' p \<Longrightarrow>
        disk s p = d p \<or> (\<exists>i. target (ws i) = p \<and> phase_of s i = Renamed \<and> disk s p = Some (payload (ws i)))"
    using assms by (simp add: system_ok_def)
qed

text \<open>A step that touches one writer's temporary file, or none, and renames nothing.\<close>

lemma system_ok_tmp:
  assumes "own_names ws" and "system_ok ws d s" and "phase_of s i \<noteq> Renamed" and "p \<noteq> Renamed"
    and "case p of Writing k \<Rightarrow> x = Some (take k (payload (ws i)))
      | Complete \<Rightarrow> x = Some (payload (ws i)) | _ \<Rightarrow> True"
  shows "system_ok ws d (set_phase i p (s\<lparr>disk := (disk s)(tmp_of (ws i) := x)\<rparr>))"
proof (rule system_okI)
  let ?s = "set_phase i p (s\<lparr>disk := (disk s)(tmp_of (ws i) := x)\<rparr>)"
  fix j
  show "case phase_of ?s j of
        Writing k \<Rightarrow> disk ?s (tmp_of (ws j)) = Some (take k (payload (ws j)))
      | Complete \<Rightarrow> disk ?s (tmp_of (ws j)) = Some (payload (ws j))
      | _ \<Rightarrow> True"
    using assms(5) system_okD(1,2) [OF assms(2)] tmp_of_own(1) [OF assms(1), of j i]
    by (auto simp: set_phase_def split: phase.split)
next
  let ?s = "set_phase i p (s\<lparr>disk := (disk s)(tmp_of (ws i) := x)\<rparr>)"
  fix q assume q: "\<not> ends_with ''.tmp'' q"
  then have tmp: "q \<noteq> tmp_of (ws i)" using tmp_of_ends by blast
  from system_okD(3) [OF assms(2) q] show "disk ?s q = d q
      \<or> (\<exists>j. target (ws j) = q \<and> phase_of ?s j = Renamed \<and> disk ?s q = Some (payload (ws j)))"
  proof
    assume "\<exists>j. target (ws j) = q \<and> phase_of s j = Renamed \<and> disk s q = Some (payload (ws j))"
    then obtain j where j: "target (ws j) = q" "phase_of s j = Renamed" "disk s q = Some (payload (ws j))"
      by blast
    then have "j \<noteq> i" using assms(3) by auto
    with j tmp show ?thesis by (auto simp: set_phase_def intro!: exI [of _ j])
  qed (use tmp in \<open>simp add: set_phase_def\<close>)
qed

lemma system_ok_step:
  assumes "own_names ws" and "system_ok ws d s" and "write_step ws s s'"
  shows "system_ok ws d s'"
  using assms(3)
proof cases
  case (create i)
  then show ?thesis using system_ok_tmp [OF assms(1,2), of i "Writing 0" "Some []"] by simp
next
  case (more i k k')
  then show ?thesis
    using system_ok_tmp [OF assms(1,2), of i "Writing k'" "Some (take k' (payload (ws i)))"] by simp
next
  case (written i)
  have "s\<lparr>disk := (disk s)(tmp_of (ws i) := disk s (tmp_of (ws i)))\<rparr> = s" by simp
  then show ?thesis
    using written system_okD(1) [OF assms(2) written(2)]
      system_ok_tmp [OF assms(1,2), of i Complete "disk s (tmp_of (ws i))"] by simp
next
  case (rename_failed i)
  then show ?thesis using system_ok_tmp [OF assms(1,2), of i Gone None] by simp
next
  case (stopped i)
  have "s\<lparr>disk := (disk s)(tmp_of (ws i) := disk s (tmp_of (ws i)))\<rparr> = s" by simp
  then show ?thesis
    using stopped system_ok_tmp [OF assms(1,2), of i Gone "disk s (tmp_of (ws i))"] by simp
next
  case (rename i b)
  have b: "b = payload (ws i)" using rename(2,3) system_okD(2) [OF assms(2)] by simp
  show ?thesis unfolding rename(1)
  proof (rule system_okI)
    let ?s = "set_phase i Renamed (s\<lparr>disk := ((disk s)(target (ws i) \<mapsto> b))(tmp_of (ws i) := None)\<rparr>)"
    fix j
    show "case phase_of ?s j of
        Writing k \<Rightarrow> disk ?s (tmp_of (ws j)) = Some (take k (payload (ws j)))
      | Complete \<Rightarrow> disk ?s (tmp_of (ws j)) = Some (payload (ws j))
      | _ \<Rightarrow> True"
      using system_okD(1,2) [OF assms(2)] tmp_of_own(1) [OF assms(1), of j i] tmp_of_own(2) [OF assms(1), of j i]
      by (auto simp: set_phase_def split: phase.split)
  next
    let ?s = "set_phase i Renamed (s\<lparr>disk := ((disk s)(target (ws i) \<mapsto> b))(tmp_of (ws i) := None)\<rparr>)"
    fix q assume q: "\<not> ends_with ''.tmp'' q"
    then have tmp: "q \<noteq> tmp_of (ws i)" using tmp_of_ends by blast
    show "disk ?s q = d q
      \<or> (\<exists>j. target (ws j) = q \<and> phase_of ?s j = Renamed \<and> disk ?s q = Some (payload (ws j)))"
    proof (cases "q = target (ws i)")
      case True
      then show ?thesis using b tmp by (auto simp: set_phase_def intro!: exI [of _ i])
    next
      case False
      with system_okD(3) [OF assms(2) q] tmp show ?thesis
        using rename(2) by (auto simp: set_phase_def)
    qed
  qed
qed

section \<open>Properties\<close>

text \<open>
  A reader never sees half of a file: at every moment of every interleaving of any number of
  writers, failures and stops included, each file holds what it held at the start, or the whole of the
  bytes one of its writers was given.
\<close>

theorem no_half_written_file:
  assumes "own_names ws" and "runs ws d s" and "\<not> ends_with ''.tmp'' p"
  shows "disk s p = d p \<or> (\<exists>i. target (ws i) = p \<and> disk s p = Some (payload (ws i)))"
proof -
  have "system_ok ws d s"
    using assms(2)
  proof induction
    case start
    then show ?case by (simp add: system_ok_def)
  next
    case (step s s')
    then show ?case using system_ok_step [OF assms(1)] by blast
  qed
  from system_okD(3) [OF this assms(3)] show ?thesis by blast
qed


definition ex_writers :: "nat \<Rightarrow> writer" where
  "ex_writers i = \<lparr>target = ''d/m.json'', payload = show_nat i, process_id = 7, write_number = i\<rparr>"

lemma ex_writers_own: "own_names ex_writers"
  by (simp add: own_names_def ex_writers_def ends_with_def)


theorem no_half_written_file_witness:
  "\<exists>s. runs ex_writers Map.empty s \<and> phase_of s 3 = Writing 0
     \<and> (disk s ''d/m.json'' = None \<or> (\<exists>i. disk s ''d/m.json'' = Some (show_nat i)))"
proof -
  let ?s = "set_phase 3 (Writing 0) (\<lparr>disk = Map.empty, phase_of = (\<lambda>i. Starting)\<rparr>
      \<lparr>disk := (disk \<lparr>disk = Map.empty, phase_of = (\<lambda>i. Starting)\<rparr>)(tmp_of (ex_writers 3) \<mapsto> [])\<rparr>)"
  have "runs ex_writers Map.empty ?s" by (rule runs.step [OF runs.start write_step.create]) simp
  from this no_half_written_file [OF ex_writers_own this, of "''d/m.json''"]
  show ?thesis by (intro exI [of _ ?s]) (auto simp: ex_writers_def ends_with_def set_phase_def)
qed

end
