(* ===== verification/Envelope.thy ===== *)
theory Envelope
  imports Query_Audit Guard Budget
begin

text \<open>
  What a caller learns besides the rows (\<open>src/envelope.rs\<close>), and the signer of it at the other end of a
  socket (\<open>src/signer.rs\<close>). The Arrow IPC writer, sha256, JSON and what the peer of a connection does
  are parameters.
\<close>

section \<open>The envelope\<close>

record resolution =
  rs_contract :: string
  rs_version :: nat
  rs_contract_hash :: string
  rs_compilation_hash :: string
  rs_decisions :: "string list"
  rs_annotations :: "string list"
  rs_shapes :: "string list"
  rs_flags_materialised :: bool
  rs_snapshot_id :: "int option"
  rs_excluded :: "(string, nat) btmap"

record scan_stats =
  rows_scanned :: nat
  rows_released :: nat
  scanned_bytes :: nat
  bytes_read :: nat
  files_pruned :: nat
  row_groups_pruned :: nat

definition no_scan :: scan_stats where
  "no_scan = \<lparr>rows_scanned = 0, rows_released = 0, scanned_bytes = 0, bytes_read = 0,
     files_pruned = 0, row_groups_pruned = 0\<rparr>"

record attestation =
  query_sha256 :: string
  result_sha256 :: string
  at_time :: int

record asker =
  asker_id :: string
  asker_tenant :: string
  asker_purpose :: string

record envelope =
  en_caller :: asker
  en_contracts :: "resolution list"
  en_rows :: nat
  en_suppress_k :: "nat option"
  en_charges :: "(string, f64) btmap"
  en_budgets :: "(string, f64) btmap"
  en_scan :: scan_stats
  en_attestation :: attestation
  en_audit_id :: string
  en_cached :: bool

definition asker_of :: "caller \<Rightarrow> asker" where
  "asker_of c = \<lparr>asker_id = caller_id c, asker_tenant = tenant c, asker_purpose = purpose c\<rparr>"

text \<open>\<open>ipc_bytes\<close>: one stream of the batches, under the first one's schema; nothing for no batches.\<close>

definition ipc_bytes :: "(schema \<Rightarrow> batch list \<Rightarrow> string) \<Rightarrow> batch list \<Rightarrow> string" where
  "ipc_bytes stream_writer bs =
     (case bs of [] \<Rightarrow> [] | first # _ \<Rightarrow> stream_writer (batch_schema first) bs)"

definition attestation_of ::
  "(string \<Rightarrow> string) \<Rightarrow> (schema \<Rightarrow> batch list \<Rightarrow> string) \<Rightarrow> int \<Rightarrow> string \<Rightarrow> batch list \<Rightarrow> attestation" where
  "attestation_of H stream_writer now sql bs =
     \<lparr>query_sha256 = H sql, result_sha256 = H (ipc_bytes stream_writer bs), at_time = now\<rparr>"

text \<open>\<open>name@version#compilation_hash\<close>, as the audit log names contracts.\<close>

definition contract_ids :: "resolution list \<Rightarrow> string list" where
  "contract_ids rs = map (\<lambda>c. rs_contract c @ ''@'' @ show_nat (rs_version c) @ ''#'' @ rs_compilation_hash c) rs"

section \<open>What the scans read\<close>

text \<open>
  A plan that ran: what each operator is to the walk, its metrics when it keeps any, and its children.
\<close>

datatype metric = Count string nat | Pruning string nat | OtherMetric

record plan_metrics =
  metric_rows :: "nat option"
  sum_by_name :: "string \<Rightarrow> nat option"
  metric_values :: "metric list"

datatype operator_kind = ScanExec | GateExec | OtherExec

datatype ran = Ran operator_kind "plan_metrics option" "ran list"

definition SCAN_BYTES :: string where
  "SCAN_BYTES = ''scan_bytes''"

definition or_zero :: "nat option \<Rightarrow> nat" where
  "or_zero x = (case x of None \<Rightarrow> 0 | Some n \<Rightarrow> n)"

definition add_metric :: "metric \<Rightarrow> scan_stats \<Rightarrow> scan_stats" where
  "add_metric v s =
     (case v of
        Count name n \<Rightarrow> if name = ''bytes_scanned'' then s\<lparr>bytes_read := bytes_read s + n\<rparr> else s
      | Pruning name n \<Rightarrow>
          if name = ''files_ranges_pruned_statistics'' then s\<lparr>files_pruned := files_pruned s + n\<rparr>
          else if name = ''row_groups_pruned_statistics'' \<or> name = ''row_groups_pruned_bloom_filter''
          then s\<lparr>row_groups_pruned := row_groups_pruned s + n\<rparr>
          else s
      | OtherMetric \<Rightarrow> s)"

definition add_metrics :: "operator_kind \<Rightarrow> plan_metrics option \<Rightarrow> scan_stats \<Rightarrow> scan_stats" where
  "add_metrics op metrics s =
     (case metrics of
        None \<Rightarrow> s
      | Some m \<Rightarrow>
          (case op of
             ScanExec \<Rightarrow> s\<lparr>rows_scanned := rows_scanned s + or_zero (metric_rows m),
                           scanned_bytes := scanned_bytes s + or_zero (sum_by_name m SCAN_BYTES)\<rparr>
           | GateExec \<Rightarrow> s\<lparr>rows_released := rows_released s + or_zero (metric_rows m)\<rparr>
           | OtherExec \<Rightarrow> fold add_metric (metric_values m) s))"

fun scan_walk :: "ran \<Rightarrow> scan_stats \<Rightarrow> scan_stats" where
  "scan_walk (Ran op metrics children) s = fold scan_walk children (add_metrics op metrics s)"

definition from_plan :: "ran \<Rightarrow> scan_stats" where
  "from_plan p = scan_walk p no_scan"

text \<open>Every operator of a plan, in the order of the walk.\<close>

fun operators :: "ran \<Rightarrow> (operator_kind \<times> plan_metrics option) list" where
  "operators (Ran op metrics children) = (op, metrics) # concat (map operators children)"

lemma scan_walk_operators: "scan_walk p s = fold (\<lambda>(op, m). add_metrics op m) (operators p) s"
proof (induction p arbitrary: s)
  case (Ran op metrics children)
  then have "fold scan_walk children s = fold (\<lambda>(op, m). add_metrics op m) (concat (map operators children)) s" for s
    by (induction children arbitrary: s) auto
  then show ?case by simp
qed

definition rows_of :: "operator_kind \<Rightarrow> (operator_kind \<times> plan_metrics option) list \<Rightarrow> nat" where
  "rows_of k ops = sum_list (map (\<lambda>(op, m). if op = k then or_zero (Option.bind m metric_rows) else 0) ops)"

lemma add_metric_rows [simp]:
  "rows_scanned (add_metric v s) = rows_scanned s" "rows_released (add_metric v s) = rows_released s"
  by (auto simp: add_metric_def split: metric.split)

lemma fold_add_metric_rows [simp]:
  "rows_scanned (fold add_metric vs s) = rows_scanned s" "rows_released (fold add_metric vs s) = rows_released s"
  by (induction vs arbitrary: s) auto

lemma add_metrics_rows:
  "rows_scanned (add_metrics op m s) = rows_scanned s + (if op = ScanExec then or_zero (Option.bind m metric_rows) else 0)"
  "rows_released (add_metrics op m s) = rows_released s + (if op = GateExec then or_zero (Option.bind m metric_rows) else 0)"
  by (auto simp: add_metrics_def or_zero_def split: option.splits operator_kind.splits)

lemma fold_add_metrics_rows:
  "rows_scanned (fold (\<lambda>(op, m). add_metrics op m) ops s) = rows_scanned s + rows_of ScanExec ops"
  "rows_released (fold (\<lambda>(op, m). add_metrics op m) ops s) = rows_released s + rows_of GateExec ops"
  by (induction ops arbitrary: s) (auto simp: rows_of_def add_metrics_rows split: prod.splits)

text \<open>
  The statistics of an answer count the rows of every scan and of every gate of its plan, wherever
  it stands in the tree, once, and of no other operator.
\<close>

theorem scan_stats_count_rows:
  "rows_scanned (from_plan p) = rows_of ScanExec (operators p)
   \<and> rows_released (from_plan p) = rows_of GateExec (operators p)"
  unfolding from_plan_def scan_walk_operators fold_add_metrics_rows by (simp add: no_scan_def)

section \<open>The signer's answer\<close>

definition MAX_ANSWER :: nat where
  "MAX_ANSWER = 2 ^ 20"

record answer =
  jws :: "string option"
  answer_error :: "string option"

text \<open>
  What the peer of one connection does: whether it is reached, takes the line and the flush, the bytes it
  sends before it closes, or before reading it fails, and whether all of it ends in time.
\<close>

record peer =
  connect_error :: "string option"
  send_error :: "string option"
  flush_error :: "string option"
  reply :: string
  reply_error :: "string option"
  in_time :: bool

record signer_codec =
  envelope_json :: "envelope \<Rightarrow> string + string"
  answer_from_json :: "string \<Rightarrow> string + answer"
  valid_utf8 :: "string \<Rightarrow> bool"

text \<open>\<open>read_line\<close> through \<open>take\<close>: the first line with its line break, or all there is of it within the
  limit.\<close>

definition read_line :: "(string \<Rightarrow> bool) \<Rightarrow> peer \<Rightarrow> string + string" where
  "read_line utf8 p =
     (let avail = take MAX_ANSWER (reply p);
          l = takeWhile (\<lambda>c. c \<noteq> CHR ''\<newline>'') avail;
          whole = (if length l < length avail then l @ ''\<newline>'' else l)
      in if length l = length avail \<and> length (reply p) < MAX_ANSWER \<and> reply_error p \<noteq> None
         then Inl (the (reply_error p))
         else if utf8 whole then Inr whole else Inl ''stream did not contain valid UTF-8'')"

text \<open>The bytes of the white space a text ends with, and \<open>trim_end\<close>.\<close>

definition end_space_len :: "string \<Rightarrow> nat" where
  "end_space_len s =
     (case rev s of
        [] \<Rightarrow> 0
      | a # r \<Rightarrow>
          if ascii_space a then 1
          else if rev (take 2 (rev s)) \<in> {[CHR 0xC2, CHR 0x85], [CHR 0xC2, CHR 0xA0]} then 2
          else if rev (take 3 (rev s)) \<in> set wide_spaces then 3
          else 0)"

function trim_end :: "string \<Rightarrow> string" where
  "trim_end s = (if end_space_len s = 0 then s else trim_end (take (length s - end_space_len s) s))"
  by auto
termination
proof (relation "measure length")
  fix s assume len: "end_space_len s \<noteq> 0"
  then have "s \<noteq> []" by (auto simp: end_space_len_def)
  with len show "(take (length s - end_space_len s) s, s) \<in> measure length" by (cases s) auto
qed simp

declare trim_end.simps [simp del]

definition read_answer :: "signer_codec \<Rightarrow> string \<Rightarrow> string + string" where
  "read_answer J l =
     (if l = [] \<or> last l \<noteq> CHR ''\<newline>''
      then Inl ''the signer closed the connection without a whole answer''
      else case answer_from_json J (trim_end l) of
             Inl e \<Rightarrow> Inl (''the signer's answer is not JSON: '' @ e)
           | Inr a \<Rightarrow>
               (case (jws a, answer_error a) of
                  (_, Some e) \<Rightarrow> Inl (''the signer refused: '' @ e)
                | (Some j, None) \<Rightarrow>
                    if j \<noteq> [] then Inr j else Inl ''the signer answered with neither a signature nor an error''
                | (None, None) \<Rightarrow> Inl ''the signer answered with neither a signature nor an error''))"

definition exchange :: "signer_codec \<Rightarrow> peer \<Rightarrow> string + string" where
  "exchange J p =
     (case connect_error p of
        Some e \<Rightarrow> Inl (''connect to the signer: '' @ e)
      | None \<Rightarrow>
          (case send_error p of
             Some e \<Rightarrow> Inl (''send to the signer: '' @ e)
           | None \<Rightarrow>
               (case flush_error p of
                  Some e \<Rightarrow> Inl (''send to the signer: '' @ e)
                | None \<Rightarrow>
                    (case read_line (valid_utf8 J) p of
                       Inl e \<Rightarrow> Inl (''read from the signer: '' @ e)
                     | Inr l \<Rightarrow> read_answer J l))))"

text \<open>\<open>sign\<close>: what the peer was sent, and the answer. \<open>timeout\<close> is the text of the limit.\<close>

definition sign_envelope :: "signer_codec \<Rightarrow> string \<Rightarrow> (string \<Rightarrow> peer) \<Rightarrow> envelope \<Rightarrow> string + string" where
  "sign_envelope J timeout peer_of env =
     and_then (envelope_json J env) (\<lambda>json.
       let p = peer_of (json @ ''\<newline>'') in
       if in_time p then exchange J p
       else Inl (''the signer did not answer within '' @ timeout))"

lemma read_line_whole:
  assumes "read_line utf8 p = Inr l" and "l \<noteq> []" and "last l = CHR ''\<newline>''"
  shows "\<exists>t rest. CHR ''\<newline>'' \<notin> set t \<and> l = t @ ''\<newline>'' \<and> reply p = l @ rest \<and> length l \<le> MAX_ANSWER"
proof -
  let ?avail = "take MAX_ANSWER (reply p)"
  let ?t = "takeWhile (\<lambda>c. c \<noteq> CHR ''\<newline>'') ?avail"
  have nl: "CHR ''\<newline>'' \<notin> set ?t" using set_takeWhileD by fastforce
  have "length ?t < length ?avail"
  proof (rule ccontr)
    assume "\<not> length ?t < length ?avail"
    then have "l = ?t" using assms(1) by (auto simp: read_line_def Let_def split: if_splits)
    then show False using assms(2,3) nl last_in_set by metis
  qed
  moreover from this have l: "l = ?t @ ''\<newline>''"
    using assms(1) by (auto simp: read_line_def Let_def split: if_splits)
  moreover have "?avail = ?t @ dropWhile (\<lambda>c. c \<noteq> CHR ''\<newline>'') ?avail" by simp
  ultimately obtain c r where r: "dropWhile (\<lambda>c. c \<noteq> CHR ''\<newline>'') ?avail = c # r"
    by (cases "dropWhile (\<lambda>c. c \<noteq> CHR ''\<newline>'') ?avail") (metis append_Nil2 less_irrefl, auto)
  then have "c = CHR ''\<newline>''" using hd_dropWhile [of "\<lambda>c. c \<noteq> CHR ''\<newline>''" ?avail] by auto
  with r have avail: "?avail = l @ r" by (metis l append.assoc append_Cons append_Nil takeWhile_dropWhile_id)
  moreover have "reply p = ?avail @ drop MAX_ANSWER (reply p)" by simp
  ultimately have "reply p = l @ (r @ drop MAX_ANSWER (reply p))" by (metis append.assoc)
  moreover have "length l \<le> MAX_ANSWER" using arg_cong [OF avail, of length] by simp
  ultimately show ?thesis using nl l by blast
qed

text \<open>
  A signature is only ever what the signer answered: the first line it sent, whole and within the
  limit, in time, as JSON with no error and a signature that is not empty.
\<close>

theorem signature_is_the_signers:
  assumes "sign_envelope J timeout peer_of env = Inr j"
  shows "\<exists>json t rest a. envelope_json J env = Inr json \<and> in_time (peer_of (json @ ''\<newline>''))
     \<and> CHR ''\<newline>'' \<notin> set t \<and> length t < MAX_ANSWER \<and> reply (peer_of (json @ ''\<newline>'')) = t @ ''\<newline>'' @ rest
     \<and> answer_from_json J (trim_end (t @ ''\<newline>'')) = Inr a \<and> jws a = Some j \<and> answer_error a = None \<and> j \<noteq> []"
proof -
  from assms obtain json where json: "envelope_json J env = Inr json"
    and it: "in_time (peer_of (json @ ''\<newline>''))" and ex: "exchange J (peer_of (json @ ''\<newline>'')) = Inr j"
    by (auto simp: sign_envelope_def and_then_eq_Inr Let_def split: if_splits)
  then obtain l where l: "read_line (valid_utf8 J) (peer_of (json @ ''\<newline>'')) = Inr l" "read_answer J l = Inr j"
    by (auto simp: exchange_def split: option.splits sum.splits)
  from l(2) obtain a where a: "l \<noteq> []" "last l = CHR ''\<newline>''" "answer_from_json J (trim_end l) = Inr a"
    "jws a = Some j" "answer_error a = None" "j \<noteq> []"
    by (auto simp: read_answer_def split: if_splits sum.splits option.splits)
  from read_line_whole [OF l(1) a(1,2)] obtain t rest where
    "CHR ''\<newline>'' \<notin> set t" "l = t @ ''\<newline>''" "reply (peer_of (json @ ''\<newline>'')) = l @ rest" "length l \<le> MAX_ANSWER"
    by blast
  with json it a show ?thesis by (intro exI [of _ json] exI [of _ t] exI [of _ rest] exI [of _ a]) simp
qed

definition ex_signer_codec :: signer_codec where
  "ex_signer_codec = \<lparr>envelope_json = (\<lambda>e. Inr (en_audit_id e)),
     answer_from_json = (\<lambda>s. Inr \<lparr>jws = Some s, answer_error = None\<rparr>), valid_utf8 = (\<lambda>s. True)\<rparr>"

definition ex_envelope :: envelope where
  "ex_envelope = \<lparr>en_caller = \<lparr>asker_id = ''a'', asker_tenant = ''t'', asker_purpose = ''p''\<rparr>, en_contracts = [],
     en_rows = 0, en_suppress_k = None, en_charges = [], en_budgets = [], en_scan = no_scan,
     en_attestation = \<lparr>query_sha256 = [], result_sha256 = [], at_time = 0\<rparr>, en_audit_id = ''7'', en_cached = False\<rparr>"

theorem signature_is_the_signers_witness:
  "\<exists>t rest. reply \<lparr>connect_error = None, send_error = None, flush_error = None, reply = ''s\<newline>z'',
     reply_error = None, in_time = True\<rparr> = t @ ''\<newline>'' @ rest \<and> trim_end (t @ ''\<newline>'') = ''s''"
proof -
  let ?p = "\<lparr>connect_error = None, send_error = None, flush_error = None, reply = ''s\<newline>z'',
     reply_error = None, in_time = True\<rparr>"
  have "trim_end ''s\<newline>'' = ''s''"
    by (simp add: trim_end.simps [of "''s\<newline>''"] trim_end.simps [of "''s''"] end_space_len_def ascii_space_def wide_spaces_def)
  moreover have "read_line (\<lambda>s. True) ?p = Inr ''s\<newline>''"
    by (simp add: read_line_def MAX_ANSWER_def)
  ultimately have "sign_envelope ex_signer_codec ''10s'' (\<lambda>l. ?p) ex_envelope = Inr ''s''"
    by (simp add: sign_envelope_def exchange_def read_answer_def ex_signer_codec_def)
  from signature_is_the_signers [OF this] show ?thesis
    by (auto simp: ex_signer_codec_def)
qed

end
