(* ===== verification/Binding.thy ===== *)
theory Binding
  imports Manifest
begin

text \<open>
  Where a contract's data is (\<open>src/binding.rs\<close>, \<open>src/object_binding.rs\<close>): the resolvers from a binding
  to a location, the listing of the data files there, and what a file's footer says of it. Directory
  trees and object stores are values; the encoding of object paths, canonical paths and DataFusion's
  parsing of URLs are parameters.
\<close>

section \<open>Paths\<close>

fun split_on :: "char \<Rightarrow> string \<Rightarrow> string list" where
  "split_on c [] = [[]]"
| "split_on c (x # xs) = (if x = c then [] # split_on c xs else (x # hd (split_on c xs)) # tl (split_on c xs))"

fun split_url :: "string \<Rightarrow> (string \<times> string) option" where
  "split_url [] = None"
| "split_url (c # s) =
     (if take 3 (c # s) = ''://'' then Some ([], drop 2 s) else map_option (\<lambda>(a, b). (c # a, b)) (split_url s))"

definition strip_prefix :: "string \<Rightarrow> string \<Rightarrow> string option" where
  "strip_prefix p s = (if take (length p) s = p then Some (drop (length p) s) else None)"

text \<open>\<open>trim_start_matches("file://")\<close>.\<close>

function trim_file :: "string \<Rightarrow> string" where
  "trim_file s = (if take 7 s = ''file://'' then trim_file (drop 7 s) else s)"
  by auto
termination
proof (relation "measure length")
  fix s :: string assume "take 7 s = ''file://''"
  then have "length (take 7 s) = 7" by simp
  then show "(drop 7 s, s) \<in> measure length" by (cases s) auto
qed simp

declare trim_file.simps [simp del]

definition is_absolute :: "string \<Rightarrow> bool" where
  "is_absolute p \<longleftrightarrow> p \<noteq> [] \<and> hd p = CHR ''/''"

definition path_join :: "string \<Rightarrow> string \<Rightarrow> string" where
  "path_join base p =
     (if is_absolute p then p
      else if base = [] \<or> last base = CHR ''/'' then base @ p else base @ ''/'' @ p)"

text \<open>The extension of a file's name on the local disk, and of an object's name: the first needs
  something before the dot, the second something after it.\<close>

definition after_dot :: "string \<Rightarrow> (string \<times> string) option" where
  "after_dot n = (if CHR ''.'' \<in> set n
     then Some (rev (tl (dropWhile (\<lambda>c. c \<noteq> CHR ''.'') (rev n))), rev (takeWhile (\<lambda>c. c \<noteq> CHR ''.'') (rev n)))
     else None)"

definition extension :: "string \<Rightarrow> string option" where
  "extension n = (case after_dot n of None \<Rightarrow> None | Some (stem, e) \<Rightarrow> if stem = [] then None else Some e)"

definition object_extension :: "string list \<Rightarrow> string option" where
  "object_extension p = (if p = [] then None else
     case after_dot (last p) of None \<Rightarrow> None | Some (_, e) \<Rightarrow> if e = [] then None else Some e)"

section \<open>Locations\<close>

record object_location =
  store_url :: string
  obj_path :: "string list"

datatype location = Local string | ObjectAt object_location | IcebergAt string

definition obj_single_file :: "object_location \<Rightarrow> bool" where
  "obj_single_file o1 \<longleftrightarrow> object_extension (obj_path o1) = Some ''parquet''"

definition obj_url :: "object_location \<Rightarrow> bool \<Rightarrow> string" where
  "obj_url o1 dir =
     (let s = store_url o1 @ join ''/'' (obj_path o1)
      in if dir \<and> (s = [] \<or> last s \<noteq> CHR ''/'') then s @ ''/'' else s)"

text \<open>\<open>is_file\<close> is the disk's answer for a local path.\<close>

definition is_single_file :: "(string \<Rightarrow> bool) \<Rightarrow> location \<Rightarrow> bool" where
  "is_single_file is_file l =
     (case l of
        Local p \<Rightarrow> is_file p \<or> extension (last (split_on CHR ''/'' p)) = Some ''parquet''
      | ObjectAt o1 \<Rightarrow> obj_single_file o1
      | IcebergAt _ \<Rightarrow> False)"

definition location_key :: "(string \<Rightarrow> string + string) \<Rightarrow> location \<Rightarrow> string res" where
  "location_key canonicalize l =
     (case l of
        Local p \<Rightarrow> (case canonicalize p of Inl e \<Rightarrow> Inl (Io e) | Inr c \<Rightarrow> Inr c)
      | ObjectAt o1 \<Rightarrow> Inr (obj_url o1 True)
      | IcebergAt k \<Rightarrow> Inr (''iceberg:'' @ k))"

definition source_text :: "source \<Rightarrow> string" where
  "source_text s = (case s of ParquetSource p \<Rightarrow> p | IcebergSource ns t \<Rightarrow> join ''.'' (ns @ [t]))"

definition unresolved :: "compiled_contract \<Rightarrow> peql_error" where
  "unresolved c = Invalid
     (case cc_source c of
        IcebergSource ns t \<Rightarrow> ''`'' @ cc_name c @ ''` is bound to the Iceberg table `'' @ source_text (cc_source c)
          @ ''` (`binding: {iceberg: '' @ source_text (cc_source c) @ ''}`), and this engine has no Iceberg catalog''
      | ParquetSource path \<Rightarrow> ''`'' @ cc_name c @ ''` is bound to `binding: {parquet: '' @ path
          @ ''}`, which this engine's bindings do not reach'')"

section \<open>Resolvers\<close>

definition local_root :: "string \<Rightarrow> compiled_contract \<Rightarrow> string option" where
  "local_root base c =
     (case cc_source c of
        ParquetSource raw \<Rightarrow> (let p = trim_file raw in Some (if is_absolute p then p else path_join base p))
      | IcebergSource _ _ \<Rightarrow> None)"

definition local_location :: "string \<Rightarrow> compiled_contract \<Rightarrow> location option" where
  "local_location base c = map_option Local (local_root base c)"

text \<open>The library's object paths: a path's parts from its text, and the encoding of one part.\<close>

record path_api =
  path_from :: "string \<Rightarrow> string list"
  path_part :: "string \<Rightarrow> string"

record object_store_parquet =
  os_url :: string
  os_prefix :: "string list"

definition object_store_new ::
  "path_api \<Rightarrow> (string \<Rightarrow> df_error + string) \<Rightarrow> string \<Rightarrow> object_store_parquet res" where
  "object_store_new P parse_url base =
     (case split_url base of
        None \<Rightarrow> Inl (Invalid (''`'' @ base @ ''` is not a store URL''))
      | Some (scheme, rest) \<Rightarrow>
          (let bucket = takeWhile (\<lambda>c. c \<noteq> CHR ''/'') rest;
               prefix = tl (dropWhile (\<lambda>c. c \<noteq> CHR ''/'') rest)
           in if bucket = [] then Inl (Invalid (''`'' @ base @ ''` names no bucket''))
              else case parse_url (scheme @ ''://'' @ bucket) of
                     Inl e \<Rightarrow> Inl (DataFusion e)
                   | Inr u \<Rightarrow> Inr \<lparr>os_url = u, os_prefix = path_from P prefix\<rparr>))"

text \<open>The loop over the parts of a relative binding.\<close>

fun join_parts :: "path_api \<Rightarrow> string list \<Rightarrow> string list \<Rightarrow> string list option" where
  "join_parts P p [] = Some p"
| "join_parts P p (part # parts) = (if part = ''..'' then None else join_parts P (p @ [path_part P part]) parts)"

definition object_location_of ::
  "path_api \<Rightarrow> object_store_parquet \<Rightarrow> compiled_contract \<Rightarrow> object_location option" where
  "object_location_of P s c =
     (case cc_source c of
        IcebergSource _ _ \<Rightarrow> None
      | ParquetSource raw \<Rightarrow>
          map_option (\<lambda>p. \<lparr>store_url = os_url s, obj_path = p\<rparr>)
            (case split_url raw of
               Some _ \<Rightarrow> map_option (path_from P) (strip_prefix (os_url s) raw)
             | None \<Rightarrow> join_parts P (os_prefix s)
                 (filter (\<lambda>x. x \<noteq> [] \<and> x \<noteq> ''.'') (split_on CHR ''/'' raw))))"

section \<open>Data files on the local disk\<close>

text \<open>A directory tree: files, directories by name, and directories that cannot be listed.\<close>

datatype 'f tree = File 'f | Dir "(string \<times> 'f tree) list" | Locked string

text \<open>The walk: each file with its path's components, \<open>_peql\<close> directories left out.\<close>

fun walk_tree :: "string list \<Rightarrow> 'f tree \<Rightarrow> string + (string list \<times> 'f) list" where
  "walk_tree at (File f) = Inr (if extension (last at) = Some ''parquet'' then [(at, f)] else [])"
| "walk_tree at (Locked e) = Inl e"
| "walk_tree at (Dir es) =
     map_sum id concat (map_res (\<lambda>(n, t).
       case t of
         File f \<Rightarrow> walk_tree (at @ [n]) t
       | _ \<Rightarrow> if n = ''_peql'' then Inr [] else walk_tree (at @ [n]) t) es)"

definition list_files :: "'f tree option \<Rightarrow> (string list \<times> 'f) list res" where
  "list_files root =
     (case root of
        None \<Rightarrow> Inr []
      | Some (File f) \<Rightarrow> Inr [([], f)]
      | Some t \<Rightarrow> (case walk_tree [] t of Inl e \<Rightarrow> Inl (Io e) | Inr fs \<Rightarrow> Inr (sort_key fst fs)))"

definition relative_path :: "string list \<Rightarrow> string" where
  "relative_path components = join ''/'' components"

section \<open>Footers\<close>

text \<open>A column chunk's statistics: the bounds of a boolean column when it has them, and the nulls.\<close>

record chunk_stats =
  bool_bounds :: "(bool option \<times> bool option) option"
  null_count :: "nat option"

record footer =
  ft_rows :: int
  ft_key_values :: "(string \<times> string option) list option"
  ft_columns :: "(string \<times> nat) list"
  ft_row_groups :: "chunk_stats option list list"

definition CONTRACT_HASH_KEY :: string where
  "CONTRACT_HASH_KEY = ''parcel.contract_hash''"

definition CONTRACT_NAME_KEY :: string where
  "CONTRACT_NAME_KEY = ''parcel.contract''"

definition stamped_hash :: "footer \<Rightarrow> string" where
  "stamped_hash m =
     (case Option.bind (Option.bind (ft_key_values m) (\<lambda>kv. find (\<lambda>k. fst k = CONTRACT_HASH_KEY) kv)) snd of
        None \<Rightarrow> [] | Some h \<Rightarrow> h)"

text \<open>Whether some row of a flag may be true, and whether some may be false, over the row groups.\<close>

definition flag_any :: "nat \<Rightarrow> chunk_stats option list \<Rightarrow> bool \<times> bool \<Rightarrow> bool \<times> bool" where
  "flag_any idx rg st =
     (case Option.bind (rg ! idx) bool_bounds of
        Some (mx, mn) \<Rightarrow> (fst st \<or> mx = Some True, snd st \<or> mn = Some False)
      | None \<Rightarrow> (True, True))"

definition flag_status_of :: "chunk_stats option list list \<Rightarrow> nat \<Rightarrow> flag_status" where
  "flag_status_of rgs idx =
     (case fold (flag_any idx) rgs (False, False) of
        (True, False) \<Rightarrow> AllPass
      | (False, True) \<Rightarrow> AllFail
      | _ \<Rightarrow> Mixed)"

fun column_index :: "string \<Rightarrow> (string \<times> nat) list \<Rightarrow> nat option" where
  "column_index n [] = None"
| "column_index n (c # cs) = (if fst c = n then Some 0 else map_option Suc (column_index n cs))"

definition footer_flags :: "footer \<Rightarrow> string list \<Rightarrow> (string, flag_status) btmap" where
  "footer_flags m flag_columns =
     fold (\<lambda>flag acc. case column_index flag (ft_columns m) of
         None \<Rightarrow> acc | Some idx \<Rightarrow> bt_insert flag (flag_status_of (ft_row_groups m) idx) acc) flag_columns []"

definition nulls_at :: "footer \<Rightarrow> nat \<Rightarrow> nat option" where
  "nulls_at m i = sum_opt (map (\<lambda>rg. Option.bind (rg ! i) null_count) (ft_row_groups m))"

definition footer_nulls :: "footer \<Rightarrow> (string, int) btmap" where
  "footer_nulls m =
     fold (\<lambda>i acc. if snd (ft_columns m ! i) \<noteq> 1 then acc
         else case nulls_at m i of None \<Rightarrow> acc | Some n \<Rightarrow> bt_insert (fst (ft_columns m ! i)) (int n) acc)
       [0..<length (ft_columns m)] []"

definition entry_from_footer :: "string \<Rightarrow> nat \<Rightarrow> footer \<Rightarrow> string list \<Rightarrow> string \<Rightarrow> file_entry" where
  "entry_from_footer path n m flag_columns sha =
     \<lparr>f_path = path, f_rows = ft_rows m, f_bytes = n, f_contract_hash = stamped_hash m,
      f_flags = footer_flags m flag_columns, f_null_counts = footer_nulls m, f_sha256 = sha\<rparr>"

text \<open>One file on the disk: what opening it as Parquet gives, its bytes and their number.\<close>

record data_file =
  df_footer :: "string + footer"
  df_bytes :: string

definition file_entry_of ::
  "(string \<Rightarrow> string) \<Rightarrow> string \<Rightarrow> string list \<Rightarrow> string list \<times> data_file \<Rightarrow> file_entry res" where
  "file_entry_of H dir flag_columns pf =
     (case pf of (path, f) \<Rightarrow>
        (case df_footer f of
           Inl e \<Rightarrow> Inl (Invalid (join ''/'' (dir # path) @ '': '' @ e))
         | Inr m \<Rightarrow> Inr (entry_from_footer (relative_path path) (length (df_bytes f)) m flag_columns (H (df_bytes f)))))"

section \<open>Object stores\<close>

text \<open>A store: its objects by path, in path order. Listing gives the objects below a prefix.\<close>

type_synonym 'f objects = "(string list, 'f) btmap"

definition below :: "string list \<Rightarrow> string list \<Rightarrow> bool" where
  "below prefix p \<longleftrightarrow> length prefix < length p \<and> take (length prefix) p = prefix"

definition obj_list_files :: "'f objects \<Rightarrow> object_location \<Rightarrow> (string list \<times> 'f) list" where
  "obj_list_files s l =
     (if obj_single_file l then (case map_of s (obj_path l) of None \<Rightarrow> [] | Some f \<Rightarrow> [(obj_path l, f)])
      else sort_key fst (filter (\<lambda>(p, f). below (obj_path l) p \<and> object_extension p = Some ''parquet''
             \<and> ''_peql'' \<notin> set p) s))"

definition obj_relative :: "object_location \<Rightarrow> string list \<Rightarrow> string" where
  "obj_relative l p =
     (if take (length (obj_path l)) p = obj_path l \<and> \<not> obj_single_file l
      then join ''/'' (drop (length (obj_path l)) p) else if p = [] then [] else last p)"

definition obj_manifest_path :: "path_api \<Rightarrow> object_location \<Rightarrow> string \<Rightarrow> string list" where
  "obj_manifest_path P l c =
     obj_path l @ map (path_part P) (split_on CHR ''/'' manifest_dir) @ [path_part P (replace_slash c @ ''.json'')]"

text \<open>Deleting and putting, one object at a time; \<open>err\<close> is what the store answers for an object.\<close>

fun obj_remove :: "(string list \<Rightarrow> df_error option) \<Rightarrow> string list list \<Rightarrow> 'f objects \<Rightarrow> 'f objects \<times> unit res" where
  "obj_remove err [] s = (s, Inr ())"
| "obj_remove err (p # ps) s =
     (case err p of Some e \<Rightarrow> (s, Inl (DataFusion e)) | None \<Rightarrow> obj_remove err ps (bt_remove p s))"

definition remove_files ::
  "(string list \<Rightarrow> df_error option) \<Rightarrow> object_location \<Rightarrow> 'f objects \<Rightarrow> 'f objects \<times> unit res" where
  "remove_files err l s = obj_remove err (map fst (obj_list_files s l)) s"

fun upload ::
  "path_api \<Rightarrow> (string list \<Rightarrow> df_error option) \<Rightarrow> object_location \<Rightarrow> (string list \<times> 'f) list \<Rightarrow> 'f objects
     \<Rightarrow> 'f objects \<times> unit res" where
  "upload P err l [] s = (s, Inr ())"
| "upload P err l ((path, f) # fs) s =
     (let to = obj_path l @ map (path_part P) path in
      case err to of Some e \<Rightarrow> (s, Inl (DataFusion e)) | None \<Rightarrow> upload P err l fs (bt_insert to f s))"

section \<open>Properties\<close>

lemma join_parts_prefix: "join_parts P p parts = Some q \<Longrightarrow> take (length p) q = p \<and> length p \<le> length q"
proof (induction parts arbitrary: p)
  case (Cons part parts)
  then have "take (length (p @ [path_part P part])) q = p @ [path_part P part]" "length p < length q"
    by (auto split: if_splits dest: Cons.IH)
  then have "take (length p) (take (Suc (length p)) q) = p" by simp
  then show ?case using \<open>length p < length q\<close> by (simp add: min_def)
qed simp

text \<open>
  A relative binding of an object store's contract stays under the prefix the resolver was made for:
  no binding, however it is spelled, reaches another prefix without naming the store.
\<close>

theorem relative_binding_confined:
  assumes "object_location_of P s c = Some l" and "cc_source c = ParquetSource raw" and "split_url raw = None"
  shows "store_url l = os_url s \<and> take (length (os_prefix s)) (obj_path l) = os_prefix s"
  using assms join_parts_prefix [of P "os_prefix s"] by (auto simp: object_location_of_def)

definition ex_path_api :: path_api where
  "ex_path_api = \<lparr>path_from = (\<lambda>s. filter (\<lambda>x. x \<noteq> []) (split_on CHR ''/'' s)), path_part = (\<lambda>s. s)\<rparr>"

theorem relative_binding_confined_witness:
  "\<exists>l. object_location_of ex_path_api \<lparr>os_url = ''s3://lake/'', os_prefix = [''tenant-a'']\<rparr>
       (ex_contract\<lparr>cc_source := ParquetSource ''./orders//2024''\<rparr>) = Some l
     \<and> take 1 (obj_path l) = [''tenant-a'']"
proof -
  let ?s = "\<lparr>os_url = ''s3://lake/'', os_prefix = [''tenant-a'']\<rparr>"
  let ?c = "ex_contract\<lparr>cc_source := ParquetSource ''./orders//2024''\<rparr>"
  have "object_location_of ex_path_api ?s ?c
      = Some \<lparr>store_url = ''s3://lake/'', obj_path = [''tenant-a'', ''orders'', ''2024'']\<rparr>" (is "_ = Some ?l")
    by (simp add: object_location_of_def ex_path_api_def)
  from relative_binding_confined [OF this, of "''./orders//2024''"] this show ?thesis by simp
qed

text \<open>The file at a path of a tree, and the directories a path leads through.\<close>

fun file_at :: "'f tree \<Rightarrow> string list \<Rightarrow> 'f \<Rightarrow> bool" where
  "file_at (File f) p g \<longleftrightarrow> p = [] \<and> f = g"
| "file_at (Locked e) p g \<longleftrightarrow> False"
| "file_at (Dir es) p g \<longleftrightarrow> (\<exists>(n, t) \<in> set es. p \<noteq> [] \<and> hd p = n \<and> file_at t (tl p) g)"

lemma map_res_concat:
  "map_res g xs = Inr fss \<Longrightarrow> y \<in> set (concat fss) \<longleftrightarrow> (\<exists>x \<in> set xs. \<exists>ys. g x = Inr ys \<and> y \<in> set ys)"
  by (induction xs arbitrary: fss) (auto simp: and_then_eq_Inr)

lemma map_res_all: "map_res g xs = Inr fss \<Longrightarrow> x \<in> set xs \<Longrightarrow> \<exists>ys. g x = Inr ys"
  by (induction xs arbitrary: fss) (auto simp: and_then_eq_Inr)

definition found :: "string list \<Rightarrow> 'f tree \<Rightarrow> string list \<times> 'f \<Rightarrow> bool" where
  "found at t e \<longleftrightarrow> (\<exists>p f. e = (at @ p, f) \<and> file_at t p f \<and> extension (last (at @ p)) = Some ''parquet''
     \<and> ''_peql'' \<notin> set (butlast p))"

lemma file_at_not_file: "file_at t p f \<Longrightarrow> \<forall>g. t \<noteq> File g \<Longrightarrow> p \<noteq> []"
  by (cases t) auto

lemma found_Dir:
  "found at (Dir es) e \<longleftrightarrow>
     (\<exists>(n, t) \<in> set es. ((\<exists>f. t = File f) \<or> n \<noteq> ''_peql'') \<and> found (at @ [n]) t e)"
proof -
  have "found at (Dir es) e \<longleftrightarrow> (\<exists>(n, t) \<in> set es. \<exists>p f. e = (at @ n # p, f) \<and> file_at t p f
      \<and> extension (last (at @ n # p)) = Some ''parquet'' \<and> ''_peql'' \<notin> set (butlast (n # p)))"
    (is "?l \<longleftrightarrow> ?r")
  proof
    assume ?l
    then obtain p f n t where e: "e = (at @ p, f)" "extension (last (at @ p)) = Some ''parquet''"
      "''_peql'' \<notin> set (butlast p)" and t: "(n, t) \<in> set es" "p \<noteq> []" "hd p = n" "file_at t (tl p) f"
      by (auto simp: found_def)
    then have "p = n # tl p" by (cases p) simp_all
    then obtain q where q: "p = n # q" by blast
    have "e = (at @ n # q, f) \<and> file_at t q f \<and> extension (last (at @ n # q)) = Some ''parquet''
        \<and> ''_peql'' \<notin> set (butlast (n # q))"
      using e t(4) unfolding q by simp
    then show ?r using t(1) by blast
  next
    assume ?r
    then obtain n t p f where t: "(n, t) \<in> set es" "e = (at @ n # p, f)" "file_at t p f"
      "extension (last (at @ n # p)) = Some ''parquet''" "''_peql'' \<notin> set (butlast (n # p))" by blast
    have "file_at (Dir es) (n # p) f" using t(1,3) by auto
    with t show ?l unfolding found_def by blast
  qed
  also have "\<dots> \<longleftrightarrow> (\<exists>(n, t) \<in> set es. ((\<exists>f. t = File f) \<or> n \<noteq> ''_peql'') \<and> found (at @ [n]) t e)"
  proof (rule bex_cong [OF refl])
    fix x assume "x \<in> set es"
    obtain n t where x: "x = (n, t)" by (cases x)
    let ?ok = "(\<exists>f. t = File f) \<or> n \<noteq> ''_peql''"
    have eq: "file_at t p f \<and> ''_peql'' \<notin> set (butlast (n # p))
        \<longleftrightarrow> ?ok \<and> file_at t p f \<and> ''_peql'' \<notin> set (butlast p)" for p f
      using file_at_not_file [of t p f] by (cases t; cases p) auto
    have "(\<exists>p f. e = (at @ n # p, f) \<and> file_at t p f \<and> extension (last (at @ n # p)) = Some ''parquet''
          \<and> ''_peql'' \<notin> set (butlast (n # p))) \<longleftrightarrow> ?ok \<and> found (at @ [n]) t e" (is "?l \<longleftrightarrow> ?r")
    proof
      assume ?l
      then obtain p f where e: "e = (at @ n # p, f)" "extension (last (at @ n # p)) = Some ''parquet''"
        and pf: "file_at t p f \<and> ''_peql'' \<notin> set (butlast (n # p))" by metis
      from e iffD1 [OF eq pf] show ?r unfolding found_def by (intro conjI exI [of _ p] exI [of _ f]) simp_all
    next
      assume r: ?r
      then obtain p f where e: "e = (at @ n # p, f)" "extension (last (at @ n # p)) = Some ''parquet''"
        and pf: "file_at t p f" "''_peql'' \<notin> set (butlast p)" by (auto simp: found_def)
      from r pf have "file_at t p f \<and> ''_peql'' \<notin> set (butlast (n # p))" unfolding eq by blast
      with e show ?l by blast
    qed
    then show "(case x of (n, t) \<Rightarrow> \<exists>p f. e = (at @ n # p, f) \<and> file_at t p f
          \<and> extension (last (at @ n # p)) = Some ''parquet'' \<and> ''_peql'' \<notin> set (butlast (n # p)))
        \<longleftrightarrow> (case x of (n, t) \<Rightarrow> ((\<exists>f. t = File f) \<or> n \<noteq> ''_peql'') \<and> found (at @ [n]) t e)"
      unfolding x prod.case .
  qed
  finally show ?thesis .
qed

lemma walk_tree_files: "walk_tree at t = Inr fs \<Longrightarrow> e \<in> set fs \<longleftrightarrow> found at t e"
proof (induction at t arbitrary: fs rule: walk_tree.induct)
  case (1 at f)
  then show ?case by (auto simp: found_def)
next
  case (2 at e)
  then show ?case by simp
next
  case (3 at es)
  let ?g = "\<lambda>(n, t). case t of File f \<Rightarrow> walk_tree (at @ [n]) t
      | _ \<Rightarrow> if n = ''_peql'' then Inr [] else walk_tree (at @ [n]) t"
  from "3.prems" obtain fss where fss: "map_res ?g es = Inr fss" "fs = concat fss"
    by (cases "map_res ?g es") auto
  have "e \<in> set fs \<longleftrightarrow> (\<exists>x \<in> set es. \<exists>ys. ?g x = Inr ys \<and> e \<in> set ys)"
    unfolding fss(2) by (rule map_res_concat [OF fss(1)])
  also have "\<dots> \<longleftrightarrow> (\<exists>(n, t) \<in> set es. ((\<exists>f. t = File f) \<or> n \<noteq> ''_peql'') \<and> found (at @ [n]) t e)"
  proof (rule bex_cong [OF refl])
    fix x assume x: "x \<in> set es"
    obtain n t where nt: "x = (n, t)" by (cases x)
    obtain ys where ys: "?g x = Inr ys" using map_res_all [OF fss(1) x] by blast
    have "e \<in> set ys \<longleftrightarrow> ((\<exists>f. t = File f) \<or> n \<noteq> ''_peql'') \<and> found (at @ [n]) t e"
    proof (cases t)
      case (File f)
      then show ?thesis using ys "3.IH"(1) [OF x nt [symmetric], of f ys] by (simp add: nt)
    next
      case (Dir ds)
      then show ?thesis using ys "3.IH"(2) [OF x nt [symmetric], of ds ys] by (auto simp: nt split: if_splits)
    next
      case (Locked m)
      then show ?thesis using ys "3.IH"(3) [OF x nt [symmetric], of m ys] by (auto simp: nt found_def split: if_splits)
    qed
    then show "(\<exists>ys. ?g x = Inr ys \<and> e \<in> set ys)
        \<longleftrightarrow> (case x of (n, t) \<Rightarrow> ((\<exists>f. t = File f) \<or> n \<noteq> ''_peql'') \<and> found (at @ [n]) t e)"
      using ys by (simp add: nt)
  qed
  finally show ?case by (simp add: found_Dir)
qed

text \<open>
  A directory's data files are the Parquet files in it, at any depth, in path order, except those in
  a directory named \<open>_peql\<close>: neither a write's staged files nor the manifests are ever data.
\<close>

theorem list_files_exact:
  assumes "list_files (Some (Dir es)) = Inr fs"
  shows "sorted (map fst fs)
     \<and> ((p, f) \<in> set fs \<longleftrightarrow> file_at (Dir es) p f \<and> extension (last p) = Some ''parquet''
           \<and> ''_peql'' \<notin> set (butlast p))"
proof -
  from assms obtain gs where gs: "walk_tree [] (Dir es) = Inr gs" and fs: "fs = sort_key fst gs"
    by (cases "walk_tree [] (Dir es)") (simp_all add: list_files_def)
  have "(p, f) \<in> set fs \<longleftrightarrow> found [] (Dir es) (p, f)"
    using walk_tree_files [OF gs, of "(p, f)"] by (simp add: fs)
  then show ?thesis by (auto simp: found_def fs)
qed

definition ex_tree :: "nat tree" where
  "ex_tree = Dir [(''b.parquet'', File 2), (''_peql'', Dir [(''c.parquet'', File 3)]),
     (''a'', Dir [(''d.parquet'', File 4), (''e.json'', File 5)])]"

lemma ex_tree_files: "list_files (Some ex_tree) = Inr [([''a'', ''d.parquet''], 4), ([''b.parquet''], 2)]"
  by code_simp

theorem list_files_exact_witness:
  "([''_peql'', ''c.parquet''], 3) \<notin> set [([''a'', ''d.parquet''], 4), ([''b.parquet''], 2 :: nat)]
   \<and> file_at ex_tree [''a'', ''d.parquet''] 4"
  using list_files_exact [OF ex_tree_files [unfolded ex_tree_def], of "[''_peql'', ''c.parquet'']" 3]
    list_files_exact [OF ex_tree_files [unfolded ex_tree_def], of "[''a'', ''d.parquet'']" 4]
  by (simp add: ex_tree_def)

text \<open>
  What Parquet documents of the bounds of a boolean column: a value above the maximum or below the minimum
  does not occur, and a column with a value has both.
\<close>

definition bounds_true :: "bool option \<times> bool option \<Rightarrow> bool list \<Rightarrow> bool" where
  "bounds_true b vs \<longleftrightarrow> (vs = [] \<or> (fst b \<noteq> None \<and> snd b \<noteq> None))
     \<and> (\<forall>v \<in> set vs. (\<forall>m. fst b = Some m \<longrightarrow> v \<le> m) \<and> (\<forall>m. snd b = Some m \<longrightarrow> m \<le> v))"

lemma fold_flag_any:
  "fold (flag_any idx) rgs st =
     (fst st \<or> (\<exists>rg \<in> set rgs. case Option.bind (rg ! idx) bool_bounds of
         Some (mx, mn) \<Rightarrow> mx = Some True | None \<Rightarrow> True),
      snd st \<or> (\<exists>rg \<in> set rgs. case Option.bind (rg ! idx) bool_bounds of
         Some (mx, mn) \<Rightarrow> mn = Some False | None \<Rightarrow> True))"
  by (induction rgs arbitrary: st) (auto simp: flag_any_def split: option.splits prod.splits)

text \<open>
  A flag recorded as passing for a whole file is true in every row of it, and one recorded as failing
  is false in every row: the footer's bounds alone decide it, and anything unknown is recorded as mixed.
\<close>

theorem flag_status_sound:
  assumes "list_all2 (\<lambda>rg vs. \<forall>b. Option.bind (rg ! idx) bool_bounds = Some b \<longrightarrow> bounds_true b vs) rgs values"
  shows "(flag_status_of rgs idx = AllPass \<longrightarrow> (\<forall>vs \<in> set values. \<forall>v \<in> set vs. v))
    \<and> (flag_status_of rgs idx = AllFail \<longrightarrow> (\<forall>vs \<in> set values. \<forall>v \<in> set vs. \<not> v))"
proof -
  have bounds: "\<exists>rg \<in> set rgs. \<forall>b. Option.bind (rg ! idx) bool_bounds = Some b \<longrightarrow> bounds_true b vs"
    if "vs \<in> set values" for vs
  proof -
    from that obtain i where i: "i < length values" "vs = values ! i" by (auto simp: in_set_conv_nth)
    with assms show ?thesis by (intro bexI [of _ "rgs ! i"]) (auto simp: list_all2_conv_all_nth)
  qed
  show ?thesis
  proof (intro conjI impI ballI)
    fix vs v assume st: "flag_status_of rgs idx = AllPass" and vs: "vs \<in> set values" and v: "v \<in> set vs"
    from bounds [OF vs] obtain rg where rg: "rg \<in> set rgs"
      "\<And>b. Option.bind (rg ! idx) bool_bounds = Some b \<Longrightarrow> bounds_true b vs" by blast
    from st rg(1) obtain mx mn where b: "Option.bind (rg ! idx) bool_bounds = Some (mx, mn)" "mn \<noteq> Some False"
      by (fastforce simp: flag_status_of_def fold_flag_any split: if_splits bool.splits option.splits prod.splits)
    then show v using rg(2) [OF b(1)] v by (auto simp: bounds_true_def)
  next
    fix vs v assume st: "flag_status_of rgs idx = AllFail" and vs: "vs \<in> set values" and v: "v \<in> set vs"
    from bounds [OF vs] obtain rg where rg: "rg \<in> set rgs"
      "\<And>b. Option.bind (rg ! idx) bool_bounds = Some b \<Longrightarrow> bounds_true b vs" by blast
    from st rg(1) obtain mx mn where b: "Option.bind (rg ! idx) bool_bounds = Some (mx, mn)" "mx \<noteq> Some True"
      by (fastforce simp: flag_status_of_def fold_flag_any split: if_splits bool.splits option.splits prod.splits)
    then show "\<not> v" using rg(2) [OF b(1)] v by (auto simp: bounds_true_def)
  qed
qed

theorem flag_status_sound_witness:
  "flag_status_of [[Some \<lparr>bool_bounds = Some (Some True, Some True), null_count = Some 0\<rparr>]] 0 = AllPass
   \<and> (\<forall>vs \<in> set [[True, True]]. \<forall>v \<in> set vs. v)"
  using flag_status_sound [of 0 "[[Some \<lparr>bool_bounds = Some (Some True, Some True), null_count = Some 0\<rparr>]]" "[[True, True]]"]
  by (simp add: bounds_true_def flag_status_of_def flag_any_def)

end
