(* ===== verification/Resolve.thy ===== *)
theory Resolve
  imports Store Facts Envelope Gate Binding
begin

text \<open>
  What one caller may see and do (the resolution half of \<open>src/engine.rs\<close>): visibility, the right to
  write, the decision over one contract, and the plan that stands in for it. What parcel's runtime
  decides of a rule is a parameter.
\<close>

section \<open>Parcel's runtime\<close>

record shape_rule =
  sh_id :: string
  sh_rule :: string

text \<open>What a guarantee's expression is evaluated in.\<close>

record 'j cel_scope =
  sc_caller :: caller
  sc_compilation :: compilation
  sc_stats :: "(string, 'j) btmap"
  sc_written_at :: int
  sc_contract_hash :: string
  sc_pins :: "function_pin list"

record 'j runtime =
  verify_pins :: "function_pin list \<Rightarrow> runtime_error + unit"
  refusal :: "compiled_contract \<Rightarrow> caller \<Rightarrow> runtime_error + string option"
  active_shapes :: "compiled_contract \<Rightarrow> caller \<Rightarrow> runtime_error + shape_rule list"
  eval_bool :: "string \<Rightarrow> 'j cel_scope \<Rightarrow> string + bool"
  param_values :: "compiled_contract \<Rightarrow> caller \<Rightarrow> runtime_error + (string \<times> string) list option"
  enrich_plan :: "lplan \<Rightarrow> compiled_contract \<Rightarrow> df_error + lplan"
  resolve_plan :: "lplan \<Rightarrow> df_error + lplan"
  with_params :: "lplan \<Rightarrow> (string \<times> string) list option \<Rightarrow> df_error + lplan"

text \<open>The question-mark operator on parcel's results and on DataFusion's.\<close>

definition rt :: "runtime_error + 'a \<Rightarrow> 'a res" where
  "rt r = (case r of Inl e \<Rightarrow> Inl (from_runtime e) | Inr x \<Rightarrow> Inr x)"

definition df :: "df_error + 'a \<Rightarrow> 'a res" where
  "df r = (case r of Inl e \<Rightarrow> Inl (DataFusion e) | Inr x \<Rightarrow> Inr x)"

lemma rt_simps [simp, res_simps]: "rt (Inl e) = Inl (from_runtime e)" "rt (Inr x) = Inr x"
  "rt r = Inr x \<longleftrightarrow> r = Inr x"
  by (auto simp: rt_def split: sum.splits)

lemma df_simps [simp, res_simps]: "df (Inl e) = Inl (DataFusion e)" "df (Inr x) = Inr x"
  "df r = Inr x \<longleftrightarrow> r = Inr x"
  by (auto simp: df_def split: sum.splits)

section \<open>Who sees a contract\<close>

definition visible :: "contents \<Rightarrow> string \<Rightarrow> caller \<Rightarrow> registered res" where
  "visible g name who =
     (case mem_current g name of
        None \<Rightarrow> Inl (UnknownContract name)
      | Some r \<Rightarrow>
          (let ok = (case reg_owner r of
                 None \<Rightarrow> True
               | Some owner \<Rightarrow>
                   if owner = tenant who then True
                   else PUBLIC \<in> mem_audiences g name \<or> tenant who \<in> mem_audiences g name)
           in if ok then Inr r else Inl (UnknownContract name)))"

definition authorize_write :: "contents \<Rightarrow> string \<Rightarrow> caller \<Rightarrow> unit res" where
  "authorize_write g name who =
     and_then (visible g name who) (\<lambda>reg.
       case reg_owner reg of
         Some owner \<Rightarrow> if owner \<noteq> tenant who then Inl (Denied name ''writes are the owner's'') else Inr ()
       | None \<Rightarrow> Inr ())"

definition describe :: "'j runtime \<Rightarrow> contents \<Rightarrow> string \<Rightarrow> caller \<Rightarrow> schema res" where
  "describe R g name who =
     and_then (visible g name who) (\<lambda>reg.
       let cc = contract (r_compilation reg) in
       and_then (rt (refusal R cc who)) (\<lambda>r.
         case r of Some rule \<Rightarrow> Inl (Denied (cc_name cc) rule) | None \<Rightarrow> Inr (exposed_schema cc)))"

definition list_for :: "contents \<Rightarrow> caller \<Rightarrow> registered list" where
  "list_for g who = filter (\<lambda>r. \<not> isl (visible g (reg_name r) who)) (mem_list g)"

text \<open>The current version, for an operator.\<close>

definition get_contract :: "contents \<Rightarrow> string \<Rightarrow> registered res" where
  "get_contract g name = ok_or (UnknownContract name) (mem_current g name)"

section \<open>Where a contract's data comes from\<close>

text \<open>A table bound in place of files is named here by a text of its own.\<close>

datatype bound = BoundTable string | BoundFiles location

definition bound_to ::
  "(string \<rightharpoonup> string) \<Rightarrow> (compiled_contract \<Rightarrow> location option) \<Rightarrow> registered \<Rightarrow> bound res" where
  "bound_to tables location reg =
     (case tables (reg_name reg) of
        Some t \<Rightarrow> Inr (BoundTable t)
      | None \<Rightarrow>
          (let cc = contract (r_compilation reg) in
           ok_or (unresolved cc) (map_option BoundFiles (location cc))))"

section \<open>The decision over one contract\<close>

definition scope_of :: "compilation \<Rightarrow> caller \<Rightarrow> 'j manifest \<Rightarrow> 'j cel_scope" where
  "scope_of c who m =
     \<lparr>sc_caller = who, sc_compilation = c, sc_stats = m_stats m, sc_written_at = m_written_at m,
      sc_contract_hash = m_contract_hash m, sc_pins = cc_functions (contract c)\<rparr>"

text \<open>Whether one guarantee holds for this read.\<close>

definition guarantee_holds ::
  "'j runtime \<Rightarrow> compilation \<Rightarrow> caller \<Rightarrow> 'j manifest \<Rightarrow> guarantee_rule \<Rightarrow> bool res" where
  "guarantee_holds R c who m g =
     (if g_id g \<in> set (data_guarantees c)
      then Inr (case map_of (m_guarantees m) (g_id g) of None \<Rightarrow> True | Some k \<Rightarrow> holds k)
      else if undecided c g (m_stats m) then Inr True
      else (case eval_bool R (g_cel g) (scope_of c who m) of Inl e \<Rightarrow> Inl (Invalid e) | Inr b \<Rightarrow> Inr b))"

text \<open>The loop over the guarantees: the annotations, or the first denial.\<close>

fun check_guarantees ::
  "'j runtime \<Rightarrow> compilation \<Rightarrow> caller \<Rightarrow> 'j manifest \<Rightarrow> guarantee_rule list \<Rightarrow> string list \<Rightarrow> string list res" where
  "check_guarantees R c who m [] annotations = Inr annotations"
| "check_guarantees R c who m (g # gs) annotations =
     and_then (guarantee_holds R c who m g) (\<lambda>h.
       if h then check_guarantees R c who m gs annotations
       else (case g_on_fail g of
               GuaranteeDeny \<Rightarrow> Inl (GuaranteeFailed (cc_name (contract c)) (g_id g))
             | GuaranteeAnnotate \<Rightarrow> check_guarantees R c who m gs (annotations @ [g_id g])))"

text \<open>The facts of the data admit the read: its deny guarantees, then its broken rules.\<close>

definition servable :: "compiled_contract \<Rightarrow> 'j manifest \<Rightarrow> on_read_violation \<Rightarrow> unit res" where
  "servable cc m on_violation =
     (let gs = filter (\<lambda>b. list_ex (\<lambda>g. g_id g = b) (guarantees cc)) (m_breached m);
          broke = broken (cc_flags cc) (m_failures m)
      in if gs \<noteq> [] then Inl (NotServable (cc_name cc) gs)
         else if on_violation = RRefuse \<and> broke \<noteq> [] then Inl (Violated (cc_name cc) broke)
         else Inr ())"

definition resolution_of ::
  "compiled_contract \<Rightarrow> 'j manifest \<Rightarrow> string list \<Rightarrow> shape_rule list \<Rightarrow> bool \<Rightarrow> resolution" where
  "resolution_of cc m annotations shapes stored =
     \<lparr>rs_contract = cc_name cc, rs_version = cc_version cc, rs_contract_hash = contract_hash cc,
      rs_compilation_hash = compilation_hash cc, rs_decisions = decisions cc,
      rs_annotations = annotations, rs_shapes = map sh_id shapes,
      rs_flags_materialised = stored, rs_snapshot_id = m_snapshot m,
      rs_excluded = bt_of (broken (cc_flags cc) (m_failures m))\<rparr>"

definition resolve_with ::
  "'j runtime \<Rightarrow> contents \<Rightarrow> (registered \<Rightarrow> bound res) \<Rightarrow> bool \<Rightarrow> string \<Rightarrow> caller \<Rightarrow> on_read_violation
     \<Rightarrow> 'j manifest option res \<Rightarrow> (resolution \<times> 'j manifest) res" where
  "resolve_with R g bnd use_stored name who on_violation manifest =
     and_then (visible g name who) (\<lambda>reg.
       let c = r_compilation reg; cc = contract c in
       and_then (rt (verify_pins R (cc_functions cc))) (\<lambda>_.
       and_then (rt (refusal R cc who)) (\<lambda>r.
       case r of Some rule \<Rightarrow> Inl (Denied (cc_name cc) rule) | None \<Rightarrow>
       and_then manifest (\<lambda>mo.
       case mo of None \<Rightarrow> Inl (NotWritten (cc_name cc)) | Some m \<Rightarrow>
       and_then (servable cc m on_violation) (\<lambda>_.
       and_then (check_guarantees R c who m (guarantees cc) []) (\<lambda>annotations.
       and_then (rt (active_shapes R cc who)) (\<lambda>shapes.
       and_then (bnd reg) (\<lambda>b.
         let stored = ((\<exists>l. b = BoundFiles l) \<and> use_stored \<and> flags_current m (contract_hash cc)) in
         Inr (resolution_of cc m annotations shapes stored, m)))))))))"

section \<open>The plan that stands in for a contract\<close>

definition filter_of :: "expr list \<Rightarrow> expr option" where
  "filter_of es = (case es of [] \<Rightarrow> None | e # es \<Rightarrow> Some (foldl (\<lambda>a b. BinaryExpr a OpAnd b) e es))"

definition view_filters :: "compiled_contract \<Rightarrow> bool \<Rightarrow> expr list" where
  "view_filters cc stored =
     map snd (if stored then admits_stored cc else admits cc)
     @ map (\<lambda>f. if stored then Column (flag_column f) else flag_expr f) (enforced_flags (cc_flags cc))"

text \<open>\<open>e.alias(n)\<close>: DataFusion's own node of the expression and its name.\<close>

definition aliased :: "string \<Rightarrow> expr \<Rightarrow> expr" where
  "aliased n e = OtherExpr (''AS '' @ n) [e]"

definition view_projection :: "compiled_contract \<Rightarrow> bool \<Rightarrow> expr list" where
  "view_projection cc stored = map (\<lambda>(n, e). aliased n e) (if stored then projection_stored cc else projection cc)"

definition view_filtered :: "compiled_contract \<Rightarrow> bool \<Rightarrow> lplan \<Rightarrow> lplan" where
  "view_filtered cc stored scan =
     (case filter_of (view_filters cc stored) of Some f \<Rightarrow> LFilter f [] scan | None \<Rightarrow> scan)"

text \<open>\<open>provider\<close> is whether the data can be opened as a table; \<open>LScan\<close> is the scan of it, named by
  the contract, which \<open>BoundTable\<close> marks it with.\<close>

definition contract_view ::
  "'j runtime \<Rightarrow> contents \<Rightarrow> (registered \<Rightarrow> bound res) \<Rightarrow> (bound \<Rightarrow> compiled_contract \<Rightarrow> bool \<Rightarrow> int option \<Rightarrow> unit res)
     \<Rightarrow> string \<Rightarrow> caller \<Rightarrow> resolution \<Rightarrow> lplan res" where
  "contract_view R g bnd provider name who rs =
     and_then (visible g name who) (\<lambda>reg.
       let cc = contract (r_compilation reg); stored = rs_flags_materialised rs in
       and_then (bnd reg) (\<lambda>b.
       and_then (provider b cc stored (rs_snapshot_id rs)) (\<lambda>_.
       let scan = LScan (cc_name cc) in
       and_then (df (if stored then Inr scan else enrich_plan R scan cc)) (\<lambda>scan.
       let plan = LOther (KOther ''Projection'') (view_projection cc stored) [view_filtered cc stored scan] in
       and_then (df (resolve_plan R plan)) (\<lambda>plan.
       and_then (rt (param_values R cc who)) (\<lambda>ps.
       and_then (df (with_params R plan ps)) (\<lambda>plan.
         Inr (LGate (cc_name cc) (compilation_hash cc) plan))))))))"

section \<open>Properties\<close>

lemma visible_Inr:
  "visible g name who = Inr r \<longleftrightarrow> mem_current g name = Some r
     \<and> (reg_owner r = None \<or> reg_owner r = Some (tenant who)
        \<or> PUBLIC \<in> mem_audiences g name \<or> tenant who \<in> mem_audiences g name)"
  by (auto simp: visible_def Let_def split: option.splits if_splits)

lemma visible_Inl: "visible g name who = Inl e \<Longrightarrow> e = UnknownContract name"
  by (auto simp: visible_def Let_def split: option.splits if_splits)

lemma get_of_visible: "visible g name who = Inr r \<Longrightarrow> get_contract g name = Inr r"
  by (simp add: visible_Inr get_contract_def)

text \<open>
  C30. A contract a caller may not see is to that caller a contract that does not exist: every operation
  answers what it answers for a name nobody registered, and it is in no list of theirs.
\<close>

theorem invisible_is_unknown:
  assumes "mem_current g name = Some r" and "reg_owner r = Some t" and "t \<noteq> tenant who"
    and "PUBLIC \<notin> mem_audiences g name" and "tenant who \<notin> mem_audiences g name"
  shows "visible g name who = visible empty_contents name who
     \<and> authorize_write g name who = authorize_write empty_contents name who
     \<and> describe R g name who = describe R empty_contents name who
     \<and> resolve_with R g bnd u name who v m = resolve_with R empty_contents bnd u name who v m
     \<and> contract_view R g bnd p name who rs = contract_view R empty_contents bnd p name who rs
     \<and> name \<notin> reg_name ` set (list_for g who)"
proof -
  have v: "visible g name who = Inl (UnknownContract name)"
    using assms by (auto simp: visible_def)
  moreover have "visible empty_contents name who = Inl (UnknownContract name)"
    by (simp add: visible_def mem_current_def empty_contents_def)
  ultimately show ?thesis
    by (auto simp: authorize_write_def describe_def resolve_with_def contract_view_def list_for_def)
qed

lemma check_guarantees_Inr:
  "check_guarantees R c who m gs acc = Inr as \<Longrightarrow>
     (\<forall>g \<in> set gs. guarantee_holds R c who m g = Inr True
        \<or> (guarantee_holds R c who m g = Inr False \<and> g_on_fail g = GuaranteeAnnotate))
   \<and> as = acc @ map g_id (filter (\<lambda>g. guarantee_holds R c who m g = Inr False) gs)"
proof (induction gs arbitrary: acc)
  case (Cons g gs)
  then obtain h where h: "guarantee_holds R c who m g = Inr h" by (auto simp: and_then_eq_Inr)
  show ?case
  proof (cases h)
    case True
    then show ?thesis using Cons h by auto
  next
    case False
    then have "g_on_fail g = GuaranteeAnnotate" "check_guarantees R c who m gs (acc @ [g_id g]) = Inr as"
      using Cons.prems h by (auto split: guarantee_on_fail.splits)
    with Cons.IH [OF this(2)] h False show ?thesis by simp
  qed
qed simp

lemma servable_Inr:
  "servable cc m v = Inr () \<longleftrightarrow>
     (\<forall>b \<in> set (m_breached m). \<forall>g \<in> set (guarantees cc). g_id g \<noteq> b)
   \<and> (v = RRefuse \<longrightarrow> broken (cc_flags cc) (m_failures m) = [])"
  by (auto simp: servable_def Let_def filter_empty_conv list_ex_iff)

text \<open>
  C31. Whoever resolves a contract was admitted by every gate before it: the contract is visible to them,
  its pinned functions are in place, its decide rules do not refuse them, no guarantee that denies is
  recorded as breached or fails now, under refuse no rule is broken, and the resolution names exactly the
  guarantees that failed, the rows left out, and the version and hashes the decision is about.
\<close>

theorem resolved_was_admitted:
  assumes "resolve_with R g bnd u name who v manifest = Inr (rs, m)"
  shows "\<exists>reg. visible g name who = Inr reg \<and> manifest = Inr (Some m)
     \<and> verify_pins R (cc_functions (contract (r_compilation reg))) = Inr ()
     \<and> refusal R (contract (r_compilation reg)) who = Inr None
     \<and> (\<forall>gr \<in> set (guarantees (contract (r_compilation reg))). g_id gr \<notin> set (m_breached m)
          \<and> (g_on_fail gr = GuaranteeDeny \<longrightarrow> guarantee_holds R (r_compilation reg) who m gr = Inr True))
     \<and> (v = RRefuse \<longrightarrow> broken (cc_flags (contract (r_compilation reg))) (m_failures m) = [])
     \<and> rs_annotations rs = map g_id (filter (\<lambda>gr. guarantee_holds R (r_compilation reg) who m gr = Inr False)
          (guarantees (contract (r_compilation reg))))
     \<and> rs_excluded rs = bt_of (broken (cc_flags (contract (r_compilation reg))) (m_failures m))
     \<and> rs_contract rs = reg_name reg \<and> rs_version rs = reg_version reg
     \<and> rs_compilation_hash rs = compilation_hash (contract (r_compilation reg))
     \<and> rs_snapshot_id rs = m_snapshot m
     \<and> (rs_flags_materialised rs \<longrightarrow> flags_current m (contract_hash (contract (r_compilation reg))))"
proof -
  from assms obtain reg where reg: "visible g name who = Inr reg" by (auto simp: resolve_with_def and_then_eq_Inr)
  let ?c = "r_compilation reg" and ?cc = "contract (r_compilation reg)"
  from assms reg obtain as shapes b where
    r: "verify_pins R (cc_functions ?cc) = Inr ()" "refusal R ?cc who = Inr None" "manifest = Inr (Some m)"
    and s: "servable ?cc m v = Inr ()" and as: "check_guarantees R ?c who m (guarantees ?cc) [] = Inr as"
    and rs: "rs = resolution_of ?cc m as shapes
       ((\<exists>l. b = BoundFiles l) \<and> u \<and> flags_current m (contract_hash ?cc))"
    unfolding resolve_with_def by (auto simp: and_then_eq_Inr Let_def split: option.splits)
  note ann = check_guarantees_Inr [OF as]
  have "guarantee_holds R ?c who m gr = Inr True"
    if "gr \<in> set (guarantees ?cc)" "g_on_fail gr = GuaranteeDeny" for gr
    using ann that by auto
  with reg r s [unfolded servable_Inr] ann show ?thesis
    by (intro exI [of _ reg]) (auto simp: rs resolution_of_def reg_name_def reg_version_def)
qed

text \<open>
  A write is a contract's owner's alone: whoever may write under a contract with an owner is that
  owner, and whoever may write may see it.
\<close>

theorem only_owner_writes:
  "authorize_write g name who = Inr () \<longleftrightarrow>
     (\<exists>r. mem_current g name = Some r \<and> (reg_owner r = None \<or> reg_owner r = Some (tenant who)))"
proof -
  have "authorize_write g name who = Inr () \<longleftrightarrow>
      (\<exists>r. visible g name who = Inr r \<and> (reg_owner r = None \<or> reg_owner r = Some (tenant who)))"
    unfolding authorize_write_def and_then_eq_Inr by (intro ex_cong1) (auto split: option.split)
  then show ?thesis by (auto simp: visible_Inr)
qed


section \<open>A concrete decision\<close>

definition ex_runtime :: "ex_json runtime" where
  "ex_runtime = \<lparr>verify_pins = (\<lambda>ps. Inr ()), refusal = (\<lambda>c w. Inr None), active_shapes = (\<lambda>c w. Inr []),
     eval_bool = (\<lambda>s x. Inr (s = ''true'')), param_values = (\<lambda>c w. Inr None),
     enrich_plan = (\<lambda>p c. Inr p), resolve_plan = Inr, with_params = (\<lambda>p ps. Inr p)\<rparr>"

lemma ex_rt_simps:
  "verify_pins ex_runtime ps = Inr ()" "refusal ex_runtime c w = Inr None" "active_shapes ex_runtime c w = Inr []"
  "param_values ex_runtime c w = Inr None" "enrich_plan ex_runtime p c = Inr p" "resolve_plan ex_runtime p = Inr p"
  "with_params ex_runtime p q = Inr p"
  by (simp_all add: ex_runtime_def)

definition ex_caller :: caller where
  "ex_caller = \<lparr>caller_id = ''alice'', tenant = ''u'', purpose = ''research'', caller_tier = [], caller_classification = [],
     caller_roles = [], caller_clearance = 0, caller_now = 0\<rparr>"

definition ex_contents :: contents where
  "ex_contents = mem_put ex_registered empty_contents"

lemma ex_contents_current: "mem_current ex_contents ''t/orders'' = Some ex_registered"
  by (simp add: ex_contents_def mem_current_def mem_put_def newest_def empty_contents_def bt_update_def
      bt_get_or_def ex_reg_simps)

definition ex_servable :: "ex_json manifest" where
  "ex_servable = ex_before\<lparr>m_breached := []\<rparr>"

lemma ex_visible: "visible ex_contents ''t/orders'' ex_caller = Inr ex_registered"
  unfolding visible_Inr ex_contents_current
  by (simp add: reg_owner_def ex_registered_def ex_contract_simps)

lemma ex_is_servable: "servable ex_contract ex_servable RExclude = Inr ()"
  by (simp add: servable_Inr ex_servable_def)

lemma ex_holds: "check_guarantees ex_runtime ex_compilation w ex_servable (guarantees ex_contract) [] = Inr []"
  by (simp add: guarantee_holds_def ex_contract_simps ex_servable_def ex_before_def)

lemma ex_resolves:
  "\<exists>rs. resolve_with ex_runtime ex_contents (\<lambda>r. Inr (BoundTable ''t'')) True ''t/orders'' ex_caller RExclude
     (Inr (Some ex_servable)) = Inr (rs, ex_servable)"
proof -
  have c: "r_compilation ex_registered = ex_compilation" "contract ex_compilation = ex_contract"
    by (simp_all add: ex_registered_def ex_compilation_def)
  show ?thesis
    unfolding resolve_with_def ex_visible and_then_Inr Let_def c ex_rt_simps rt_simps option.case
      ex_is_servable ex_holds
    by blast
qed

theorem resolved_was_admitted_witness:
  "guarantee_holds ex_runtime ex_compilation ex_caller ex_servable (hd (guarantees ex_contract)) = Inr True"
proof -
  from ex_resolves obtain rs where
    "resolve_with ex_runtime ex_contents (\<lambda>r. Inr (BoundTable ''t'')) True ''t/orders'' ex_caller RExclude
     (Inr (Some ex_servable)) = Inr (rs, ex_servable)" by blast
  from resolved_was_admitted [OF this] obtain reg where
    reg: "visible ex_contents ''t/orders'' ex_caller = Inr reg" and
    gs: "\<forall>gr \<in> set (guarantees (contract (r_compilation reg))). g_on_fail gr = GuaranteeDeny \<longrightarrow>
       guarantee_holds ex_runtime (r_compilation reg) ex_caller ex_servable gr = Inr True"
    by - (elim exE conjE, rule that, assumption, simp)
  then have "reg = ex_registered" by (simp add: ex_visible)
  then have "r_compilation reg = ex_compilation" "guarantees (contract (r_compilation reg)) = guarantees ex_contract"
    by (simp_all add: ex_registered_def ex_compilation_def)
  with gs show ?thesis by (simp add: ex_contract_def)
qed

theorem invisible_is_unknown_witness:
  "visible (mem_put (ex_registered\<lparr>r_compilation := ex_compilation\<lparr>contract := ex_contract\<lparr>cc_owner := Some ''t''\<rparr>\<rparr>\<rparr>)
      empty_contents) ''t/orders'' ex_caller = visible empty_contents ''t/orders'' ex_caller"
  (is "visible (mem_put ?r empty_contents) _ _ = _")
proof -
  have "mem_current (mem_put ?r empty_contents) ''t/orders'' = Some ?r"
    by (simp add: mem_current_def mem_put_def newest_def empty_contents_def bt_update_def bt_get_or_def
        reg_name_def ex_contract_simps)
  from invisible_is_unknown [OF this, of "''t''" ex_caller ex_runtime] show ?thesis
    by (simp add: reg_owner_def ex_caller_def mem_audiences_def mem_put_def empty_contents_def)
qed


end
