(* ===== verification/Snapshots.thy ===== *)
theory Snapshots
  imports Facts Store
begin

text \<open>
  The facts of a table with snapshots (\<open>iceberg_facts\<close> of \<open>src/engine.rs\<close>, and the facts of
  \<open>src/iceberg_table.rs\<close>): what is recorded of a snapshot, and what follows for one that has nothing
  recorded from the facts of the writes that made it. Files the table's \<open>FileIO\<close> reaches are a map from
  paths; JSON, digests and the parsing of times are parameters.
\<close>

section \<open>Tables and their files\<close>

text \<open>Columns of a table's schema, by id. A manifest list names a snapshot's manifests with what it counts
  of them; a manifest lists data files.\<close>

datatype ice_type =
    IPrimitive string
  | IList ice_field
  | IMap ice_field ice_field
  | IStruct "ice_field list"
and ice_field = IceField (if_id: int) (if_name: string) (if_required: bool) (if_type: ice_type)

record manifest_file =
  mf_path :: string
  mf_is_data :: bool
  mf_added_by :: int
  mf_added_files :: "nat option"
  mf_existing_files :: "nat option"
  mf_added_rows :: "nat option"
  mf_existing_rows :: "nat option"

record snapshot =
  sn_parent :: "int option"
  sn_time_ms :: int
  sn_operation :: string
  sn_properties :: "(string, string) btmap"
  sn_manifests :: "manifest_file list"

text \<open>How often a commit is tried again, and how long it waits, in nanoseconds.\<close>

record commit_retry =
  cr_retries :: nat
  cr_min_wait :: nat
  cr_max_wait :: nat
  cr_total :: nat

record ice_table =
  it_ident :: string
  it_location :: string
  it_current :: "int option"
  it_snapshots :: "(int, snapshot) btmap"
  it_uuid :: string
  it_format :: nat
  it_schema_id :: int
  it_schema :: "ice_field list"
  it_spec :: int
  it_retry :: "commit_retry res"

definition SUMMARY_WRITE_ID :: string where
  "SUMMARY_WRITE_ID = ''peql.write-id''"

definition sn_write_id :: "snapshot \<Rightarrow> string option" where
  "sn_write_id s = map_of (sn_properties s) SUMMARY_WRITE_ID"

definition trim_slashes :: "string \<Rightarrow> string" where
  "trim_slashes s = rev (dropWhile (\<lambda>c. c = CHR ''/'') (rev s))"

definition FACTS_DIR :: string where
  "FACTS_DIR = ''metadata/peql''"

definition WRITES_DIR :: string where
  "WRITES_DIR = ''metadata/peql/writes''"

definition facts_path :: "ice_table \<Rightarrow> int \<Rightarrow> string \<Rightarrow> string" where
  "facts_path t s c =
     trim_slashes (it_location t) @ ''/'' @ FACTS_DIR @ ''/'' @ show_int s @ ''/'' @ replace_slash c @ ''.json''"

definition write_facts_path :: "ice_table \<Rightarrow> string \<Rightarrow> string \<Rightarrow> string" where
  "write_facts_path t w c =
     trim_slashes (it_location t) @ ''/'' @ WRITES_DIR @ ''/'' @ w @ ''/'' @ replace_slash c @ ''.json''"

definition show_snapshot :: "int option \<Rightarrow> string" where
  "show_snapshot s = (case s of None \<Rightarrow> ''None'' | Some i \<Rightarrow> ''Some('' @ show_int i @ '')'')"

section \<open>Recorded facts\<close>

definition load_facts ::
  "('v, 'j manifest) facts_codec \<Rightarrow> fs \<Rightarrow> ice_table \<Rightarrow> int \<Rightarrow> string \<Rightarrow> 'j manifest option res" where
  "load_facts J d t s c =
     (let p = facts_path t s c in
      case d p of
        None \<Rightarrow> Inr None
      | Some (Unreadable e) \<Rightarrow> Inl (IcebergError e)
      | Some (Bytes b) \<Rightarrow>
          (case decode J b of
             Inl e \<Rightarrow> Inl (Invalid (''facts of `'' @ c @ ''` for snapshot '' @ show_int s @ '' of '' @ it_ident t
                 @ '' ('' @ p @ ''): '' @ e))
           | Inr None \<Rightarrow> Inr None
           | Inr (Some m) \<Rightarrow>
               if m_snapshot m \<noteq> Some s
               then Inl (Invalid (''the facts of `'' @ c @ ''` filed under snapshot '' @ show_int s @ '' of ''
                 @ it_ident t @ '' describe snapshot '' @ show_snapshot (m_snapshot m)))
               else Inr (Some m)))"

text \<open>\<open>w\<close> is the error of the write, which then changes nothing.\<close>

definition save_facts ::
  "('v, 'j manifest) facts_codec \<Rightarrow> string option \<Rightarrow> fs \<Rightarrow> ice_table \<Rightarrow> 'j manifest \<Rightarrow> fs \<times> unit res" where
  "save_facts J w d t m =
     (case m_snapshot m of
        None \<Rightarrow> (d, Inl (Invalid (''the facts of `'' @ m_contract m @ ''` name no snapshot'')))
      | Some s \<Rightarrow>
          (case encode J m of
             Inl e \<Rightarrow> (d, Inl (Invalid (''facts: '' @ e)))
           | Inr b \<Rightarrow> (case w of
                 Some e \<Rightarrow> (d, Inl (IcebergError e))
               | None \<Rightarrow> (d(facts_path t s (m_contract m) \<mapsto> Bytes b), Inr ()))))"

definition load_write_facts ::
  "('v, 'j write_facts) facts_codec \<Rightarrow> fs \<Rightarrow> ice_table \<Rightarrow> int \<Rightarrow> string \<Rightarrow> 'j write_facts option res" where
  "load_write_facts J d t s c =
     (case map_of (it_snapshots t) s of
        None \<Rightarrow> Inl (Invalid (it_ident t @ '' has no snapshot '' @ show_int s))
      | Some snap \<Rightarrow>
          (case sn_write_id snap of
             None \<Rightarrow> Inr None
           | Some w \<Rightarrow>
               (let p = write_facts_path t w c in
                case d p of
                  None \<Rightarrow> Inr None
                | Some (Unreadable e) \<Rightarrow> Inl (IcebergError e)
                | Some (Bytes b) \<Rightarrow>
                    (case decode J b of
                       Inl e \<Rightarrow> Inl (Invalid (''facts of `'' @ c @ ''` for write '' @ w @ '' of '' @ it_ident t
                          @ '' ('' @ p @ ''): '' @ e))
                     | Inr x \<Rightarrow> Inr x))))"

section \<open>What a snapshot's data is known to be\<close>

text \<open>What the computation uses of the outside: the two codecs, digests, statistics, times.\<close>

record ('v, 'w, 'j) facts_env =
  fe_facts :: "('v, 'j manifest) facts_codec"
  fe_writes :: "('w, 'j write_facts) facts_codec"
  fe_sha :: "string \<Rightarrow> string"
  fe_stats :: "'j stat_api"
  fe_time :: "int \<Rightarrow> int option"

text \<open>
  The walk back from a snapshot: the writes without recorded facts, the newest first, and the recorded
  facts it ended at. No result when a snapshot is gone or was not written here. The snapshots' parents are
  the table's, so the walk is a partial function.
\<close>

partial_function (option) walk_back ::
  "('v, 'w, 'j) facts_env \<Rightarrow> fs \<Rightarrow> ice_table \<Rightarrow> string \<Rightarrow> int option \<Rightarrow> (int \<times> int \<times> 'j write_facts) list
     \<Rightarrow> ((int \<times> int \<times> 'j write_facts) list \<times> 'j manifest option) option res option" where
  "walk_back E d t c here writes =
     (case here of
        None \<Rightarrow> Some (Inr (Some (writes, None)))
      | Some s \<Rightarrow>
          (case map_of (it_snapshots t) s of
             None \<Rightarrow> Some (Inr None)
           | Some snap \<Rightarrow>
               (case load_facts (fe_facts E) d t s c of
                  Inl e \<Rightarrow> Some (Inl e)
                | Inr (Some m) \<Rightarrow> Some (Inr (Some (writes, Some m)))
                | Inr None \<Rightarrow>
                    (case load_write_facts (fe_writes E) d t s c of
                       Inl e \<Rightarrow> Some (Inl e)
                     | Inr None \<Rightarrow> Some (Inr None)
                     | Inr (Some w) \<Rightarrow>
                         (case fe_time E (sn_time_ms snap) of
                            None \<Rightarrow> Some (Inl (Invalid (''snapshot '' @ show_int s @ '' of '' @ it_ident t @ '' has no time'')))
                          | Some time \<Rightarrow>
                              if wf_written w = Overwrite then Some (Inr (Some (writes @ [(s, time, w)], None)))
                              else walk_back E d t c (sn_parent snap) (writes @ [(s, time, w)]))))))"

text \<open>The walk forward: the facts after each write, recorded as they are found. \<open>err\<close> is what the
  store answers a write of the facts of a snapshot.\<close>

fun walk_forward ::
  "('v, 'w, 'j) facts_env \<Rightarrow> (int \<Rightarrow> string option) \<Rightarrow> ice_table \<Rightarrow> compilation \<Rightarrow> (int \<times> int \<times> 'j write_facts) list
     \<Rightarrow> 'j manifest option \<Rightarrow> fs \<Rightarrow> fs \<times> 'j manifest option res" where
  "walk_forward E err t c [] known d = (d, Inr known)"
| "walk_forward E err t c ((s, time, w) # ws) known d =
     (case after_write (fe_sha E) (fe_stats E) c known w time (Some s) of
        Inl e \<Rightarrow> (d, Inl e)
      | Inr None \<Rightarrow> (d, Inr None)
      | Inr (Some m) \<Rightarrow>
          (case save_facts (fe_facts E) (err s) d t m of
             (d', Inl e) \<Rightarrow> (d', Inl e)
           | (d', Inr _) \<Rightarrow> walk_forward E err t c ws (Some m) d'))"

definition iceberg_facts ::
  "('v, 'w, 'j) facts_env \<Rightarrow> (int \<Rightarrow> string option) \<Rightarrow> ice_table \<Rightarrow> int \<Rightarrow> registered \<Rightarrow> fs
     \<Rightarrow> (fs \<times> 'j manifest option res) option" where
  "iceberg_facts E err t s reg d =
     map_option (\<lambda>r. case r of
         Inl e \<Rightarrow> (d, Inl e)
       | Inr None \<Rightarrow> (d, Inr None)
       | Inr (Some (writes, known)) \<Rightarrow> walk_forward E err t (r_compilation reg) (rev writes) known d)
     (walk_back E d t (reg_name reg) (Some s) [])"

section \<open>What it means\<close>

text \<open>
  The facts of a snapshot: those recorded, or else its write's combined with its parent's. A write that
  replaced the data, or made the first snapshot, is combined with nothing.
\<close>

inductive known_facts :: "('v, 'w, 'j) facts_env \<Rightarrow> fs \<Rightarrow> ice_table \<Rightarrow> registered \<Rightarrow> int \<Rightarrow> 'j manifest \<Rightarrow> bool"
  for E :: "('v, 'w, 'j) facts_env" and d :: fs and t :: ice_table and reg :: registered where
  recorded: "map_of (it_snapshots t) s = Some snap \<Longrightarrow> load_facts (fe_facts E) d t s (reg_name reg) = Inr (Some m) \<Longrightarrow>
     known_facts E d t reg s m"
| first_write: "map_of (it_snapshots t) s = Some snap \<Longrightarrow> load_facts (fe_facts E) d t s (reg_name reg) = Inr None \<Longrightarrow>
     load_write_facts (fe_writes E) d t s (reg_name reg) = Inr (Some w) \<Longrightarrow> fe_time E (sn_time_ms snap) = Some time \<Longrightarrow>
     wf_written w = Overwrite \<or> sn_parent snap = None \<Longrightarrow>
     after_write (fe_sha E) (fe_stats E) (r_compilation reg) None w time (Some s) = Inr (Some m) \<Longrightarrow>
     known_facts E d t reg s m"
| later_write: "map_of (it_snapshots t) s = Some snap \<Longrightarrow> load_facts (fe_facts E) d t s (reg_name reg) = Inr None \<Longrightarrow>
     load_write_facts (fe_writes E) d t s (reg_name reg) = Inr (Some w) \<Longrightarrow> fe_time E (sn_time_ms snap) = Some time \<Longrightarrow>
     wf_written w \<noteq> Overwrite \<Longrightarrow> sn_parent snap = Some p \<Longrightarrow> known_facts E d t reg p b \<Longrightarrow>
     after_write (fe_sha E) (fe_stats E) (r_compilation reg) (Some b) w time (Some s) = Inr (Some m) \<Longrightarrow>
     known_facts E d t reg s m"

inductive_cases known_factsE: "known_facts E d t reg s m"

text \<open>The combination alone, without the recording.\<close>

fun combine ::
  "('v, 'w, 'j) facts_env \<Rightarrow> compilation \<Rightarrow> (int \<times> int \<times> 'j write_facts) list \<Rightarrow> 'j manifest option
     \<Rightarrow> 'j manifest option res" where
  "combine E c [] known = Inr known"
| "combine E c ((s, time, w) # ws) known =
     (case after_write (fe_sha E) (fe_stats E) c known w time (Some s) of
        Inl e \<Rightarrow> Inl e | Inr None \<Rightarrow> Inr None | Inr (Some m) \<Rightarrow> combine E c ws (Some m))"

lemma combine_append:
  "combine E c (xs @ ys) known =
     (case combine E c xs known of
        Inl e \<Rightarrow> Inl e
      | Inr k \<Rightarrow> if xs \<noteq> [] \<and> k = None then Inr None else combine E c ys k)"
proof (induction xs arbitrary: known)
  case (Cons x xs)
  obtain s time w where x: "x = (s, time, w)" by (cases x)
  show ?case
  proof (cases "after_write (fe_sha E) (fe_stats E) c known w time (Some s)")
    case (Inr mo)
    then show ?thesis
    proof (cases mo)
      case (Some m)
      then show ?thesis using Inr Cons.IH [of "Some m"]
        by (cases xs) (auto simp: x split: sum.splits option.splits)
    qed (simp add: x)
  qed (simp add: x)
qed (simp split: option.split)

lemma walk_forward_combine:
  "walk_forward E err t c ws known d = (d', Inr r) \<Longrightarrow> combine E c ws known = Inr r"
proof (induction ws arbitrary: known d)
  case (Cons x ws)
  obtain s time w where x: "x = (s, time, w)" by (cases x)
  with Cons show ?case by (auto split: sum.splits option.splits prod.splits)
qed simp

text \<open>What the walk back collects, combined forward, is what the facts are.\<close>

definition collected ::
  "('v, 'w, 'j) facts_env \<Rightarrow> fs \<Rightarrow> ice_table \<Rightarrow> registered \<Rightarrow> int option \<Rightarrow> (int \<times> int \<times> 'j write_facts) list
     \<Rightarrow> 'j manifest option \<Rightarrow> bool" where
  "collected E d t reg here ws known \<longleftrightarrow>
     (case here of
        None \<Rightarrow> ws = [] \<and> known = None
      | Some s \<Rightarrow> (ws \<noteq> [] \<or> known \<noteq> None)
          \<and> (\<forall>m. combine E (r_compilation reg) (rev ws) known = Inr (Some m) \<longrightarrow> known_facts E d t reg s m))"

lemma collected_recorded:
  "map_of (it_snapshots t) s = Some snap \<Longrightarrow> load_facts (fe_facts E) d t s (reg_name reg) = Inr (Some m) \<Longrightarrow>
     collected E d t reg (Some s) [] (Some m)"
  by (auto simp: collected_def intro: known_facts.recorded)

lemma collected_overwrite:
  assumes "map_of (it_snapshots t) s = Some snap" "load_facts (fe_facts E) d t s (reg_name reg) = Inr None"
    "load_write_facts (fe_writes E) d t s (reg_name reg) = Inr (Some w)" "fe_time E (sn_time_ms snap) = Some time"
    "wf_written w = Overwrite"
  shows "collected E d t reg (Some s) [(s, time, w)] None"
  using known_facts.first_write [OF assms(1-4)] assms(5)
  by (auto simp: collected_def split: sum.splits option.splits)

lemma collected_write:
  assumes s: "map_of (it_snapshots t) s = Some snap" "load_facts (fe_facts E) d t s (reg_name reg) = Inr None"
    "load_write_facts (fe_writes E) d t s (reg_name reg) = Inr (Some w)" "fe_time E (sn_time_ms snap) = Some time"
    and w: "wf_written w \<noteq> Overwrite" and before: "collected E d t reg (sn_parent snap) ws known"
  shows "collected E d t reg (Some s) ((s, time, w) # ws) known"
proof -
  have "known_facts E d t reg s m"
    if run: "combine E (r_compilation reg) (rev ws @ [(s, time, w)]) known = Inr (Some m)" for m
  proof -
    from run obtain k where k: "combine E (r_compilation reg) (rev ws) known = Inr k"
      and more: "\<not> (ws \<noteq> [] \<and> k = None)"
      and last: "combine E (r_compilation reg) [(s, time, w)] k = Inr (Some m)"
      by (auto simp: combine_append split: sum.splits if_splits)
    from last have step: "after_write (fe_sha E) (fe_stats E) (r_compilation reg) k w time (Some s) = Inr (Some m)"
      by (auto split: sum.splits option.splits)
    show ?thesis
    proof (cases "sn_parent snap")
      case None
      with before k have "k = None" by (simp add: collected_def)
      with step None show ?thesis using known_facts.first_write [OF s] by simp
    next
      case (Some p)
      with before have ne: "ws \<noteq> [] \<or> known \<noteq> None"
        and all: "\<And>m. combine E (r_compilation reg) (rev ws) known = Inr (Some m) \<Longrightarrow> known_facts E d t reg p m"
        by (simp_all add: collected_def)
      from ne more k obtain b where b: "k = Some b" by (cases k; cases ws) auto
      with k all have "known_facts E d t reg p b" by simp
      with step b Some w show ?thesis using known_facts.later_write [OF s] by simp
    qed
  qed
  then show ?thesis by (simp add: collected_def)
qed

lemma walk_back_sound:
  assumes "walk_back E d t (reg_name reg) here writes = Some (Inr (Some (all, known)))"
  shows "\<exists>ws. all = writes @ ws \<and> collected E d t reg here ws known"
proof -
  have "\<forall>reg all known. c = reg_name reg \<longrightarrow> r = Inr (Some (all, known)) \<longrightarrow>
      (\<exists>ws. all = writes @ ws \<and> collected E d t reg here ws known)"
    if "walk_back E d t c here writes = Some r" for c r
  proof (rule walk_back.raw_induct [where P = "\<lambda>E d t c here writes r. \<forall>reg all known. c = reg_name reg \<longrightarrow>
        r = Inr (Some (all, known)) \<longrightarrow> (\<exists>ws. all = writes @ ws \<and> collected E d t reg here ws known)", OF _ that],
      goal_cases)
    case (1 walk_back E d t c here writes r)
    note IH = this(1) and run = this(2)
    show ?case
    proof (intro allI impI)
      fix reg all known
      assume c: "c = reg_name reg" and r: "r = Inr (Some (all, known))"
      show "\<exists>ws. all = writes @ ws \<and> collected E d t reg here ws known"
      proof (cases here)
        case None
        with run r show ?thesis by (auto simp: collected_def)
      next
        case (Some s)
        from run r Some obtain snap where snap: "map_of (it_snapshots t) s = Some snap"
          by (auto split: option.splits)
        show ?thesis
        proof (cases "load_facts (fe_facts E) d t s c")
          case (Inl e)
          with run r Some snap show ?thesis by simp
        next
          case (Inr mo)
          note load = this
          show ?thesis
          proof (cases mo)
            case (Some m)
            with run r \<open>here = Some s\<close> snap load have "all = writes \<and> known = Some m" by simp
            then show ?thesis
              using collected_recorded [OF snap load [unfolded Some c]] \<open>here = Some s\<close> by simp
          next
            case None
            note none = load [unfolded None c]
            from run r \<open>here = Some s\<close> snap load None obtain w time where
              w: "load_write_facts (fe_writes E) d t s c = Inr (Some w)" "fe_time E (sn_time_ms snap) = Some time"
              by (auto split: sum.splits option.splits)
            show ?thesis
            proof (cases "wf_written w = Overwrite")
              case True
              with run r \<open>here = Some s\<close> snap load None w have "all = writes @ [(s, time, w)] \<and> known = None" by simp
              then show ?thesis
                using collected_overwrite [OF snap none w(1) [unfolded c] w(2) True] \<open>here = Some s\<close> by blast
            next
              case False
              with run r \<open>here = Some s\<close> snap load None w
              have "walk_back E d t c (sn_parent snap) (writes @ [(s, time, w)]) = Some (Inr (Some (all, known)))"
                by simp
              from IH [OF this] c obtain ws where
                ws: "all = (writes @ [(s, time, w)]) @ ws" "collected E d t reg (sn_parent snap) ws known" by blast
              then show ?thesis
                using collected_write [OF snap none w(1) [unfolded c] w(2) False ws(2)] \<open>here = Some s\<close>
                by (intro exI [of _ "(s, time, w) # ws"]) simp
            qed
          qed
        qed
      qed
    qed
  qed
  with assms show ?thesis by blast
qed

section \<open>The computation gives the facts\<close>

lemma walk_back_complete:
  "known_facts E d t reg s m \<Longrightarrow>
     \<exists>ws known. walk_back E d t (reg_name reg) (Some s) writes = Some (Inr (Some (writes @ ws, known)))
       \<and> combine E (r_compilation reg) (rev ws) known = Inr (Some m)"
proof (induction arbitrary: writes rule: known_facts.induct)
  case (recorded s snap m)
  then show ?case by (subst walk_back.simps) auto
next
  case (first_write s snap w time m)
  then show ?case
  proof (cases "wf_written w = Overwrite")
    case True
    with first_write show ?thesis by (subst walk_back.simps) auto
  next
    case False
    with first_write have "walk_back E d t (reg_name reg) (Some s) writes = Some (Inr (Some (writes @ [(s, time, w)], None)))"
      by (subst walk_back.simps) (simp add: walk_back.simps [of _ _ _ _ None])
    with first_write show ?thesis by (intro exI [of _ "[(s, time, w)]"] exI [of _ None]) simp
  qed
next
  case (later_write s snap w time p b m)
  from later_write.IH [of "writes @ [(s, time, w)]"] obtain ws known where
    ws: "walk_back E d t (reg_name reg) (Some p) (writes @ [(s, time, w)])
        = Some (Inr (Some ((writes @ [(s, time, w)]) @ ws, known)))"
      "combine E (r_compilation reg) (rev ws) known = Inr (Some b)" by blast
  then have "walk_back E d t (reg_name reg) (Some s) writes = Some (Inr (Some (writes @ (s, time, w) # ws, known)))"
    using later_write by (subst walk_back.simps) simp
  moreover have "combine E (r_compilation reg) (rev ((s, time, w) # ws)) known = Inr (Some m)"
    using ws(2) later_write by (simp add: combine_append)
  ultimately show ?case by blast
qed

lemma after_write_snapshot: "after_write H J c before write time snapshot = Inr (Some m) \<Longrightarrow> m_snapshot m = snapshot"
  by (erule after_write_Some_cases) simp_all

lemma walk_forward_complete:
  assumes "\<And>x. \<exists>b. encode (fe_facts E) x = Inr b"
  shows "combine E c ws known = Inr (Some m) \<Longrightarrow> \<exists>d'. walk_forward E (\<lambda>s. None) t c ws known d = (d', Inr (Some m))"
proof (induction ws arbitrary: known d)
  case (Cons x ws)
  obtain s time w where x: "x = (s, time, w)" by (cases x)
  from Cons.prems obtain m1 where m1:
    "after_write (fe_sha E) (fe_stats E) c known w time (Some s) = Inr (Some m1)" "combine E c ws (Some m1) = Inr (Some m)"
    by (auto simp: x split: sum.splits option.splits)
  obtain b where "encode (fe_facts E) m1 = Inr b" using assms by blast
  then have "save_facts (fe_facts E) None d t m1 = (d(facts_path t s (m_contract m1) \<mapsto> Bytes b), Inr ())"
    using after_write_snapshot [OF m1(1)] by (simp add: save_facts_def)
  with m1(1) Cons.IH [OF m1(2)] show ?case by (simp add: x)
qed simp

lemma save_facts_loads:
  assumes "codec_laws J" and "save_facts J e d t m = (d', Inr ())" and "m_snapshot m = Some s"
  shows "load_facts J d' t s (m_contract m) = Inr (Some m)"
proof -
  obtain b where b: "encode J m = Inr b" and d': "d' = d(facts_path t s (m_contract m) \<mapsto> Bytes b)"
    using assms(2,3) by (auto simp: save_facts_def split: sum.splits option.splits)
  have "decode J b = Inr (Some m)"
    using assms(1) b by (fastforce simp: codec_laws_def encode_def decode_def)
  then show ?thesis by (simp add: load_facts_def d' assms(3))
qed

lemma walk_forward_recorded:
  assumes "codec_laws (fe_facts E)"
    and "walk_forward E err t c ws known d = (d', Inr (Some m))" and "ws \<noteq> []"
  shows "load_facts (fe_facts E) d' t (fst (last ws)) (m_contract m) = Inr (Some m)"
  using assms(2,3)
proof (induction ws arbitrary: known d)
  case (Cons x ws)
  obtain s time w where x: "x = (s, time, w)" by (cases x)
  from Cons.prems obtain m1 d1 where m1:
    "after_write (fe_sha E) (fe_stats E) c known w time (Some s) = Inr (Some m1)"
    "save_facts (fe_facts E) (err s) d t m1 = (d1, Inr ())" "walk_forward E err t c ws (Some m1) d1 = (d', Inr (Some m))"
    by (auto simp: x split: sum.splits option.splits prod.splits)
  show ?case
  proof (cases "ws = []")
    case True
    with m1(3) have "m = m1 \<and> d' = d1" by simp
    then show ?thesis
      using save_facts_loads [OF assms(1) m1(2) after_write_snapshot [OF m1(1)]] True by (simp add: x)
  next
    case False
    with Cons.IH [OF m1(3)] show ?thesis by simp
  qed
qed simp

lemma iceberg_facts_Some:
  assumes "iceberg_facts E err t s reg d = Some (d', Inr (Some m))"
  obtains writes known where
    "walk_back E d t (reg_name reg) (Some s) [] = Some (Inr (Some (writes, known)))"
    "walk_forward E err t (r_compilation reg) (rev writes) known d = (d', Inr (Some m))"
proof -
  from assms obtain r where r: "walk_back E d t (reg_name reg) (Some s) [] = Some r"
    by (auto simp: iceberg_facts_def)
  with assms that show ?thesis
    by (cases r; cases "projr r") (auto simp: iceberg_facts_def)
qed

lemma iceberg_facts_sound:
  assumes "iceberg_facts E err t s reg d = Some (d', Inr (Some m))"
  shows "known_facts E d t reg s m"
proof -
  from assms obtain writes known where
    wb: "walk_back E d t (reg_name reg) (Some s) [] = Some (Inr (Some (writes, known)))" and
    wf: "walk_forward E err t (r_compilation reg) (rev writes) known d = (d', Inr (Some m))"
    by (rule iceberg_facts_Some)
  from walk_back_sound [OF wb] walk_forward_combine [OF wf] show ?thesis
    by (auto simp: collected_def)
qed

lemma known_facts_snapshot: "known_facts E d t reg s m \<Longrightarrow> m_snapshot m = Some s"
  by (erule known_factsE)
    (auto simp: load_facts_def Let_def after_write_snapshot split: option.splits file_state.splits sum.splits if_splits)

section \<open>Properties\<close>

text \<open>
  C33. What the engine answers for a snapshot are its facts, whichever of them were recorded: those
  recorded, or its write's combined with its parent's, back to a write that replaced the data or made the
  first snapshot. And whenever a snapshot has such facts, and the store takes what is written to it, the
  engine finds them.
\<close>

theorem iceberg_facts_refine:
  "(iceberg_facts E err t s reg d = Some (d', Inr (Some m)) \<longrightarrow> known_facts E d t reg s m)
   \<and> (known_facts E d t reg s m \<longrightarrow> (\<forall>x. \<exists>b. encode (fe_facts E) x = Inr b) \<longrightarrow>
        (\<exists>d'. iceberg_facts E (\<lambda>s. None) t s reg d = Some (d', Inr (Some m))))"
proof (intro conjI impI)
  assume "iceberg_facts E err t s reg d = Some (d', Inr (Some m))"
  then show "known_facts E d t reg s m" by (rule iceberg_facts_sound)
next
  assume "known_facts E d t reg s m" and enc: "\<forall>x. \<exists>b. encode (fe_facts E) x = Inr b"
  from walk_back_complete [OF this(1), of "[]"] obtain ws known where
    wb: "walk_back E d t (reg_name reg) (Some s) [] = Some (Inr (Some (ws, known)))" and
    c: "combine E (r_compilation reg) (rev ws) known = Inr (Some m)" by auto
  from walk_forward_complete [OF _ c, of t d] enc obtain d' where
    "walk_forward E (\<lambda>s. None) t (r_compilation reg) (rev ws) known d = (d', Inr (Some m))" by blast
  with wb show "\<exists>d'. iceberg_facts E (\<lambda>s. None) t s reg d = Some (d', Inr (Some m))"
    by (simp add: iceberg_facts_def)
qed

lemma walk_back_first:
  assumes "walk_back E d t c (Some s) [] = Some (Inr (Some (writes, known)))"
  shows "map_of (it_snapshots t) s \<noteq> None
     \<and> (if writes = [] then \<exists>m. known = Some m \<and> load_facts (fe_facts E) d t s c = Inr (Some m) else fst (hd writes) = s)"
proof -
  have grow: "\<exists>ws. all = xs @ ws" if "walk_back E d t c here xs = Some (Inr (Some (all, k)))" for here xs all k
  proof -
    have "\<forall>all known. r = Inr (Some (all, known)) \<longrightarrow> (\<exists>ws. all = xs @ ws)"
      if "walk_back E d t c here xs = Some r" for r
    proof (rule walk_back.raw_induct [where P = "\<lambda>E d t c here writes r. \<forall>all known.
          r = Inr (Some (all, known)) \<longrightarrow> (\<exists>ws. all = writes @ ws)", OF _ that], goal_cases)
      case (1 walk_back E d t c here writes r)
      then show ?case by (fastforce split: option.splits sum.splits if_splits)
    qed
    with that show ?thesis by blast
  qed
  from assms obtain snap where snap: "map_of (it_snapshots t) s = Some snap"
    by (subst (asm) walk_back.simps) (auto split: option.splits)
  show ?thesis
  proof (cases "load_facts (fe_facts E) d t s c")
    case (Inr mo)
    show ?thesis
    proof (cases mo)
      case (Some m)
      with Inr snap assms show ?thesis by (subst (asm) walk_back.simps) (auto dest: sym)
    next
      case None
      with Inr snap assms obtain w time where
        "(writes = [(s, time, w)] \<and> known = None)
         \<or> walk_back E d t c (sn_parent snap) [(s, time, w)] = Some (Inr (Some (writes, known)))"
        by (subst (asm) walk_back.simps) (auto split: option.splits sum.splits if_splits)
      with grow [of "sn_parent snap" "[(s, time, w)]"] snap show ?thesis by auto
    qed
  qed (use snap assms in \<open>subst (asm) walk_back.simps, simp\<close>)
qed

text \<open>
  Facts found are recorded: the next time the same snapshot is asked for, by whoever, they are read
  and nothing is computed or written again.
\<close>

theorem iceberg_facts_recorded:
  assumes "codec_laws (fe_facts E)" and "iceberg_facts E err t s reg d = Some (d', Inr (Some m))"
    and "m_contract m = reg_name reg"
  shows "load_facts (fe_facts E) d' t s (reg_name reg) = Inr (Some m)
     \<and> iceberg_facts E err' t s reg d' = Some (d', Inr (Some m))"
proof -
  obtain writes known where
    wb: "walk_back E d t (reg_name reg) (Some s) [] = Some (Inr (Some (writes, known)))" and
    wf: "walk_forward E err t (r_compilation reg) (rev writes) known d = (d', Inr (Some m))"
    using assms(2) by (rule iceberg_facts_Some)
  note first = walk_back_first [OF wb]
  have load: "load_facts (fe_facts E) d' t s (reg_name reg) = Inr (Some m)"
  proof (cases "writes = []")
    case True
    with wf first show ?thesis by auto
  next
    case False
    with walk_forward_recorded [OF assms(1) wf] first show ?thesis
      by (simp add: assms(3) last_rev)
  qed
  from first obtain snap where "map_of (it_snapshots t) s = Some snap" by auto
  with load have "walk_back E d' t (reg_name reg) (Some s) [] = Some (Inr (Some ([], Some m)))"
    by (subst walk_back.simps) simp
  with load show ?thesis by (simp add: iceberg_facts_def)
qed

text \<open>
  C34. The search ends for every table whose snapshots do not descend from themselves: whatever is recorded
  or damaged, the engine answers facts, that none are known, or an error.
\<close>

theorem iceberg_facts_ends:
  assumes "\<And>s snap p. map_of (it_snapshots t) s = Some snap \<Longrightarrow> sn_parent snap = Some p \<Longrightarrow> (age p :: nat) < age s"
  shows "\<exists>r. iceberg_facts E err t s reg d = Some r"
proof -
  have "\<exists>r. walk_back E d t c here writes = Some r" for c here writes
  proof (induction "case here of None \<Rightarrow> 0 | Some s \<Rightarrow> Suc (age s)" arbitrary: here writes rule: less_induct)
    case less
    show ?case
    proof (cases here)
      case None
      then show ?thesis by (subst walk_back.simps) simp
    next
      case (Some s)
      show ?thesis
      proof (cases "map_of (it_snapshots t) s")
        case None
        then show ?thesis using Some by (subst walk_back.simps) simp
      next
        case (Some snap)
        have "(case sn_parent snap of None \<Rightarrow> 0 | Some s \<Rightarrow> Suc (age s)) < (case here of None \<Rightarrow> 0 | Some s \<Rightarrow> Suc (age s))"
          using assms [OF Some] \<open>here = Some s\<close> by (cases "sn_parent snap") auto
        note next_one = less.hyps [OF this]
        show ?thesis using \<open>here = Some s\<close> Some
          by (subst walk_back.simps) (auto split: sum.split option.split intro: next_one)
      qed
    qed
  qed
  from this [of "reg_name reg" "Some s" "[]"] show ?thesis by (auto simp: iceberg_facts_def)
qed

section \<open>A concrete table\<close>

text \<open>One snapshot, written here, nothing recorded of it.\<close>

definition ex_snapshot :: snapshot where
  "ex_snapshot = \<lparr>sn_parent = None, sn_time_ms = 9, sn_operation = ''append'',
     sn_properties = [(''peql.write-id'', ''w'')], sn_manifests = []\<rparr>"

definition ex_table :: ice_table where
  "ex_table = \<lparr>it_ident = ''lake.orders'', it_location = ''/lake/orders/'', it_current = Some 1,
     it_snapshots = [(1, ex_snapshot)], it_uuid = ''u'', it_format = 2, it_schema_id = 0, it_schema = [],
     it_spec = 0, it_retry = Inr \<lparr>cr_retries = 4, cr_min_wait = 0, cr_max_wait = 0, cr_total = 0\<rparr>\<rparr>"

lemma ex_snapshot_simps [simp]:
  "sn_parent ex_snapshot = None" "sn_time_ms ex_snapshot = 9" "sn_write_id ex_snapshot = Some ''w''"
  by (simp_all add: ex_snapshot_def sn_write_id_def SUMMARY_WRITE_ID_def)

definition ex_first :: "ex_json manifest" where
  "ex_first = finished (\<lambda>s. s) ex_compilation (Some 1) ((wf_facts ex_append)\<lparr>m_written_at := 9, m_guarantees := []\<rparr>)"

definition ex_facts_env :: "(nat \<Rightarrow> ex_json manifest \<Rightarrow> string + string) \<Rightarrow> (unit, unit, ex_json) facts_env" where
  "ex_facts_env enc = \<lparr>
     fe_facts = \<lparr>to_vec = enc, from_slice = (\<lambda>b. Inr ()), is_object = (\<lambda>v. True),
       format_u64 = (\<lambda>v. Some 3), from_value = (\<lambda>v. Inr ex_first)\<rparr>,
     fe_writes = \<lparr>to_vec = (\<lambda>n a. Inr []), from_slice = (\<lambda>b. Inr ()), is_object = (\<lambda>v. True),
       format_u64 = (\<lambda>v. Some 3), from_value = (\<lambda>v. Inr ex_append)\<rparr>,
     fe_sha = (\<lambda>s. s), fe_stats = ex_api, fe_time = Some\<rparr>"

definition ex_lake :: fs where
  "ex_lake = [''/lake/orders/metadata/peql/writes/w/t__orders.json'' \<mapsto> Bytes ''w'']"

lemma ex_first_run:
  "after_write (\<lambda>s. s) ex_api ex_compilation None ex_append 9 (Some 1) = Inr (Some ex_first)"
  by (simp add: after_write_def known_before_def same_compilation_def ex_append_def ex_facts_def
      ex_contract_simps ex_first_def)

lemma ex_lake_paths:
  "write_facts_path ex_table ''w'' ''t/orders'' = ''/lake/orders/metadata/peql/writes/w/t__orders.json''"
  "facts_path ex_table 1 ''t/orders'' = ''/lake/orders/metadata/peql/1/t__orders.json''"
  by code_simp+

lemma ex_env_simps:
  "fe_sha (ex_facts_env enc) = (\<lambda>s. s)" "fe_stats (ex_facts_env enc) = ex_api" "fe_time (ex_facts_env enc) = Some"
  "map_of (it_snapshots ex_table) 1 = Some ex_snapshot"
  "r_compilation ex_registered = ex_compilation" "wf_written ex_append = Append"
  by (simp_all add: ex_facts_env_def ex_table_def ex_registered_def ex_append_def)

lemma ex_writes_codec:
  "from_slice (fe_writes (ex_facts_env enc)) b = Inr ()" "is_object (fe_writes (ex_facts_env enc)) v"
  "format_u64 (fe_writes (ex_facts_env enc)) v = Some facts_format"
  "from_value (fe_writes (ex_facts_env enc)) v = Inr ex_append"
  by (simp_all add: ex_facts_env_def facts_format_def)

lemma ex_decodes: "decode (fe_writes (ex_facts_env enc)) b = Inr (Some ex_append)"
  unfolding decode_def ex_writes_codec and_then_Inr by (simp add: ex_writes_codec)

lemma ex_lake_write: "load_write_facts (fe_writes (ex_facts_env enc)) ex_lake ex_table 1 ''t/orders'' = Inr (Some ex_append)"
  by (simp add: load_write_facts_def ex_env_simps ex_lake_paths ex_decodes) (simp add: ex_lake_def ex_decodes)

lemma ex_lake_facts: "load_facts (fe_facts (ex_facts_env enc)) ex_lake ex_table 1 ''t/orders'' = Inr None"
  by (simp add: load_facts_def ex_lake_paths ex_lake_def)

lemma ex_known: "known_facts (ex_facts_env enc) ex_lake ex_table ex_registered 1 ex_first"
  by (rule known_facts.first_write [where w = ex_append and time = 9
      and snap = ex_snapshot])
    (simp_all add: ex_lake_write ex_lake_facts ex_reg_simps ex_first_run ex_env_simps)

theorem iceberg_facts_refine_witness:
  "\<exists>d'. iceberg_facts (ex_facts_env (\<lambda>n a. Inr ''x'')) (\<lambda>s. None) ex_table 1 ex_registered ex_lake = Some (d', Inr (Some ex_first))
     \<and> known_facts (ex_facts_env (\<lambda>n a. Inr ''x'')) ex_lake ex_table ex_registered 1 ex_first"
proof -
  let ?E = "ex_facts_env (\<lambda>n a. Inr ''x'')"
  have "\<forall>x. \<exists>b. encode (fe_facts ?E) x = Inr b" by (simp add: encode_def ex_facts_env_def)
  with iceberg_facts_refine [of ?E "\<lambda>s. None" ex_table 1 ex_registered ex_lake _ ex_first] ex_known [of "\<lambda>n a. Inr ''x''"]
  show ?thesis by blast
qed

definition ex_enc :: "nat \<Rightarrow> ex_json manifest \<Rightarrow> string + string" where
  "ex_enc n a = (if a = ex_first \<and> n = 3 then Inr ''j'' else Inl ''other'')"

lemma ex_enc_laws: "codec_laws (fe_facts (ex_facts_env ex_enc))"
  by (auto simp: codec_laws_def ex_facts_env_def ex_enc_def split: if_splits)

lemma ex_first_contract: "m_contract ex_first = ''t/orders''"
  by (simp add: ex_first_def ex_append_def ex_facts_def finished_def Let_def)

lemma ex_facts_run:
  "\<exists>d'. iceberg_facts (ex_facts_env ex_enc) (\<lambda>s. None) ex_table 1 ex_registered ex_lake = Some (d', Inr (Some ex_first))"
proof -
  let ?E = "ex_facts_env ex_enc"
  have wb: "walk_back ?E ex_lake ex_table ''t/orders'' (Some 1) []
      = Some (Inr (Some ([(1, 9, ex_append)], None)))"
    by (subst walk_back.simps) (simp add: ex_lake_facts ex_lake_write ex_env_simps walk_back.simps [of _ _ _ _ None])
  have "encode (fe_facts ?E) ex_first = Inr ''j''"
    by (simp add: encode_def ex_facts_env_def ex_enc_def facts_format_def)
  then show ?thesis
    using wb ex_first_run after_write_snapshot [OF ex_first_run]
    by (simp add: iceberg_facts_def ex_reg_simps save_facts_def ex_env_simps)
qed

theorem iceberg_facts_recorded_witness:
  "\<exists>d'. iceberg_facts (ex_facts_env ex_enc) (\<lambda>s. Some ''full'') ex_table 1 ex_registered d' = Some (d', Inr (Some ex_first))"
proof -
  let ?E = "ex_facts_env ex_enc"
  from ex_facts_run obtain d' where run: "iceberg_facts ?E (\<lambda>s. None) ex_table 1 ex_registered ex_lake = Some (d', Inr (Some ex_first))" ..
  from iceberg_facts_recorded [OF ex_enc_laws run, of "\<lambda>s. Some ''full''"] show ?thesis
    by (auto simp: ex_first_contract ex_reg_simps)
qed

theorem iceberg_facts_ends_witness:
  "\<exists>r. iceberg_facts (ex_facts_env ex_enc) (\<lambda>s. None) ex_table 1 ex_registered Map.empty = Some r"
  by (rule iceberg_facts_ends [of _ nat]) (auto simp: ex_table_def split: if_splits)

end
