(* ===== verification/Vector.thy ===== *)
theory Vector
  imports Resolve
begin

text \<open>
  Similarity search over a contract's view (\<open>src/vector.rs\<close>): the table function \<open>vector_search\<close> expanded
  into a subquery over the contract, and the distance it orders by. The SQL parser's tree is what its
  visitor meets, in order; its rendering, the parsing of floating-point literals, their rounding to single
  precision and square roots are parameters.
\<close>

section \<open>What the visitor meets\<close>

datatype sql_expr = Ident string | SingleQuoted string | Number string | Minus sql_expr | ArrayOf "sql_expr list" | OtherSql

datatype fn_arg = Positional sql_expr | OtherArg

text \<open>A query with the names of its common table expressions, or a table factor called with arguments:
  its name, whether it has any modifier, its arguments.\<close>

datatype visited = Ctes "string list" | TableCall string bool "fn_arg list"

record sql_api =
  visit_sql :: "string \<Rightarrow> string + visited list"
  parse_query :: "string \<Rightarrow> string option"
  render :: "string \<Rightarrow> string list \<Rightarrow> string"
  parse_f64 :: "string \<Rightarrow> f64 option"
  as_f32 :: "f64 \<Rightarrow> f64"
  sqrt64 :: "f64 \<Rightarrow> f64"

section \<open>Searches\<close>

datatype metric_kind = Cosine | Euclidean | Dot

record search =
  se_table :: string
  se_column :: string
  se_vector :: "f64 list"
  se_metric :: metric_kind
  se_function :: string

definition invalid :: "string \<Rightarrow> peql_error" where
  "invalid message = Invalid (''vector_search: '' @ message)"

definition quoted :: "string \<Rightarrow> string" where
  "quoted name = CHR 0x22 # concat (map (\<lambda>c. if c = CHR 0x22 then [c, c] else [c]) name) @ [CHR 0x22]"

definition name_text :: "sql_expr \<Rightarrow> string res" where
  "name_text e =
     (case e of
        Ident s \<Rightarrow> Inr s
      | SingleQuoted s \<Rightarrow> Inr s
      | _ \<Rightarrow> Inl (invalid ''table, column and metric must be names or string literals''))"

definition finite64 :: "f64 \<Rightarrow> bool" where
  "finite64 x \<longleftrightarrow> (\<exists>q. x = Fin q)"

lemma finite64_simps [simp, code]:
  "finite64 (Fin q) = True" "finite64 NaN = False" "finite64 PInf = False" "finite64 NInf = False"
  by (simp_all add: finite64_def)

definition finite_or :: "f64 option \<Rightarrow> f64 res" where
  "finite_or v = (case v of
       Some x \<Rightarrow> if finite64 x then Inr x else Inl (invalid ''query vector must contain finite numbers'')
     | None \<Rightarrow> Inl (invalid ''query vector must contain finite numbers''))"

fun number :: "sql_api \<Rightarrow> sql_expr \<Rightarrow> f64 res" where
  "number S (Number n) = finite_or (parse_f64 S n)"
| "number S (Minus e) = and_then (number S e) (\<lambda>x. finite_or (Some (f64_neg x)))"
| "number S e = finite_or None"

definition element :: "sql_api \<Rightarrow> sql_expr \<Rightarrow> f64 res" where
  "element S e = and_then (number S e) (\<lambda>x.
     if finite64 (as_f32 S x) then Inr (as_f32 S x) else Inl (invalid ''query vector values must fit float32''))"

definition parse_usize :: "string \<Rightarrow> nat option" where
  "parse_usize s =
     (let ds = (case s of c # t \<Rightarrow> if c = CHR ''+'' then t else s | [] \<Rightarrow> s) in
      if ds \<noteq> [] \<and> list_all is_digit ds \<and> digits_value ds < 2 ^ 64 then Some (digits_value ds) else None)"

definition limit_k :: "sql_expr \<Rightarrow> nat res" where
  "limit_k e =
     (case Option.bind (case e of Number n \<Rightarrow> parse_usize n | _ \<Rightarrow> None) (\<lambda>k. if 0 < k then Some k else None) of
        Some k \<Rightarrow> Inr k
      | None \<Rightarrow> Inl (invalid ''k must be a positive integer''))"

definition metric_named :: "string \<Rightarrow> metric_kind res" where
  "metric_named s =
     (if s = ''cosine'' then Inr Cosine
      else if s = ''euclidean'' then Inr Euclidean
      else if s = ''dot'' then Inr Dot
      else Inl (invalid ''metric must be cosine, euclidean or dot''))"

definition search_query :: "search \<Rightarrow> nat \<Rightarrow> string" where
  "search_query s k =
     (let score = se_function s @ ''('' @ quoted (se_column s) @ '')'' in
      ''SELECT *, '' @ score @ '' AS distance FROM '' @ quoted (se_table s) @ '' WHERE '' @ score
        @ '' IS NOT NULL ORDER BY distance ASC LIMIT '' @ show_nat k)"

section \<open>Expansion\<close>

text \<open>One call of the table function: the search, and the text of the subquery it becomes. \<open>n\<close> searches
  came before it.\<close>

definition distance_name :: "nat \<Rightarrow> string" where
  "distance_name n = ''__peql_vector_distance_'' @ show_nat n"

definition one_search :: "sql_api \<Rightarrow> nat \<Rightarrow> bool \<Rightarrow> fn_arg list \<Rightarrow> (search \<times> string) res" where
  "one_search S n modifiers args =
     (if modifiers then Inl (invalid ''table modifiers are not supported'')
      else and_then (map_res (\<lambda>a. case a of Positional e \<Rightarrow> Inr e
               | OtherArg \<Rightarrow> Inl (invalid ''five positional literal arguments are required'')) args) (\<lambda>es.
      case es of
        [e0, e1, e2, e3, e4] \<Rightarrow>
          and_then (name_text e0) (\<lambda>table.
          and_then (name_text e1) (\<lambda>column.
          and_then (case e2 of ArrayOf xs \<Rightarrow> Inr xs | _ \<Rightarrow> Inl (invalid ''query_vector must be an array literal'')) (\<lambda>xs.
          and_then (map_res (element S) xs) (\<lambda>vector.
          and_then (if vector = [] then Inl (invalid ''query vector dimension must be positive'') else Inr ()) (\<lambda>_.
          and_then (limit_k e3) (\<lambda>k.
          and_then (and_then (name_text e4) metric_named) (\<lambda>metric.
          if metric = Cosine \<and> list_all (\<lambda>x. f64_eq x (Fin 0)) vector
          then Inl (invalid ''cosine query vector must have nonzero norm'')
          else
            (let s = \<lparr>se_table = table, se_column = column, se_vector = vector, se_metric = metric,
                   se_function = distance_name n\<rparr>;
                 q = search_query s k
             in case parse_query S q of Some e \<Rightarrow> Inl (invalid e) | None \<Rightarrow> Inr (s, q)))))))))
      | _ \<Rightarrow> Inl (invalid ''five arguments are required: table, column, query_vector, k, metric'')))"

definition to_lower :: "string \<Rightarrow> string" where
  "to_lower = map (\<lambda>c. if 65 \<le> (of_char c :: nat) \<and> of_char c \<le> (90 :: nat) then char_of ((of_char c :: nat) + 32) else c)"

fun visit_all ::
  "sql_api \<Rightarrow> visited list \<Rightarrow> (search \<times> string) list \<times> string list \<Rightarrow> ((search \<times> string) list \<times> string list) res" where
  "visit_all S [] st = Inr st"
| "visit_all S (Ctes names # vs) (ss, ctes) = visit_all S vs (ss, ctes @ map to_lower names)"
| "visit_all S (TableCall name modifiers args # vs) (ss, ctes) =
     (if to_lower name \<noteq> ''vector_search'' then visit_all S vs (ss, ctes)
      else and_then (one_search S (length ss) modifiers args) (\<lambda>s. visit_all S vs (ss @ [s], ctes)))"

definition expand :: "sql_api \<Rightarrow> string \<Rightarrow> (string \<times> search list) res" where
  "expand S sql =
     (case visit_sql S sql of
        Inl e \<Rightarrow> Inl (invalid e)
      | Inr vs \<Rightarrow>
          and_then (visit_all S vs ([], [])) (\<lambda>(ss, ctes).
            if list_ex (\<lambda>(s, q). to_lower (se_table s) \<in> set ctes) ss
            then Inl (invalid ''a CTE cannot shadow a vector_search contract target'')
            else Inr (if ss = [] then sql else render S sql (map snd ss), map fst ss)))"

section \<open>The distance\<close>

text \<open>The checks of the function made for a search over the contract's exposed columns.\<close>

definition search_udf :: "search \<Rightarrow> schema \<Rightarrow> unit res" where
  "search_udf s schema =
     (if field_with_name schema ''distance'' \<noteq> None
      then Inl (invalid ''contract already exposes the reserved result column distance'')
      else case field_with_name schema (se_column s) of
        None \<Rightarrow> Inl (invalid ''embedding column is not exposed by the contract'')
      | Some f \<Rightarrow>
          (case field_type f of
             TFixedSizeList el dimension \<Rightarrow>
               if dimension \<le> 0 \<or> el \<noteq> TFloat32
               then Inl (invalid ''embedding column must have positive dimension and float32 elements'')
               else if nat dimension \<noteq> length (se_vector s)
               then Inl (invalid (''query dimension '' @ show_nat (length (se_vector s))
                   @ '' does not match column dimension '' @ show_int dimension))
               else Inr ()
           | _ \<Rightarrow> Inl (invalid ''embedding column must be fixed_size_list<float32, N>'')))"

text \<open>The sums of one row: the scalar product, both squared norms and the squared distance.\<close>

record row_sums =
  sum_dot :: f64
  sum_left :: f64
  sum_right :: f64
  sum_squared :: f64

definition add_pair :: "f64 \<times> f64 \<Rightarrow> row_sums \<Rightarrow> row_sums" where
  "add_pair p s =
     (let (a, b) = p; d = f64_sub a b in
      \<lparr>sum_dot = f64_add (sum_dot s) (f64_mul a b), sum_left = f64_add (sum_left s) (f64_mul a a),
       sum_right = f64_add (sum_right s) (f64_mul b b), sum_squared = f64_add (sum_squared s) (f64_mul d d)\<rparr>)"

definition sums_of :: "f64 list \<Rightarrow> f64 list \<Rightarrow> row_sums" where
  "sums_of vector query =
     fold add_pair (zip vector query) \<lparr>sum_dot = Fin 0, sum_left = Fin 0, sum_right = Fin 0, sum_squared = Fin 0\<rparr>"

definition clamp_one :: "f64 \<Rightarrow> f64" where
  "clamp_one x = (if f64_lt x (Fin (- 1)) then Fin (- 1) else if f64_lt (Fin 1) x then Fin 1 else x)"

text \<open>One row: nothing for a null row, or one with a null or a value that is not finite.\<close>

definition distance :: "sql_api \<Rightarrow> metric_kind \<Rightarrow> f64 list \<Rightarrow> f64 option list option \<Rightarrow> f64 option" where
  "distance S metric query row =
     (case row of
        None \<Rightarrow> None
      | Some cells \<Rightarrow>
          if None \<in> set cells \<or> \<not> list_all (\<lambda>c. finite64 (the c)) cells then None
          else
            (let s = sums_of (map the cells) query in
             case metric of
               Euclidean \<Rightarrow> Some (sqrt64 S (sum_squared s))
             | Dot \<Rightarrow> Some (f64_neg (sum_dot s))
             | Cosine \<Rightarrow>
                 if f64_lt (Fin 0) (sum_left s)
                 then Some (f64_sub (Fin 1)
                    (clamp_one (f64_div (sum_dot s) (sqrt64 S (f64_mul (sum_left s) (sum_right s))))))
                 else None))"

section \<open>Properties\<close>

definition search_ok :: "search \<Rightarrow> bool" where
  "search_ok s \<longleftrightarrow> se_vector s \<noteq> [] \<and> (\<forall>x \<in> set (se_vector s). finite64 x)
     \<and> (se_metric s = Cosine \<longrightarrow> (\<exists>x \<in> set (se_vector s). \<not> f64_eq x (Fin 0)))"

lemma element_finite: "element S e = Inr x \<Longrightarrow> finite64 x"
  by (auto simp: element_def and_then_eq_Inr split: if_splits)

lemma map_res_finite: "map_res (element S) es = Inr xs \<Longrightarrow> x \<in> set xs \<Longrightarrow> finite64 x"
  by (induction es arbitrary: xs) (auto simp: and_then_eq_Inr element_finite)

lemma one_search_ok:
  assumes "one_search S n modifiers args = Inr (s, q)"
  shows "search_ok s \<and> se_function s = distance_name n"
proof -
  from assms obtain es where "one_search S n modifiers args = Inr (s, q)"
    "map_res (\<lambda>a. case a of Positional e \<Rightarrow> Inr e
       | OtherArg \<Rightarrow> Inl (invalid ''five positional literal arguments are required'')) args = Inr es"
    by (auto simp: one_search_def and_then_eq_Inr split: if_splits)
  with assms show ?thesis
    by (auto simp: one_search_def and_then_eq_Inr search_ok_def list_all_iff map_res_finite Let_def
      split: if_splits list.splits option.splits sql_expr.splits)
qed

lemma visit_all_ok:
  "visit_all S vs (ss, ctes) = Inr (ss', ctes') \<Longrightarrow>
     \<exists>new. ss' = ss @ new \<and> (\<forall>(s, q) \<in> set new. search_ok s)
       \<and> map (se_function \<circ> fst) new = map (\<lambda>i. distance_name i) [length ss..<length ss + length new]
       \<and> set ctes' = set ctes \<union> to_lower ` (\<Union>v \<in> set vs. case v of Ctes ns \<Rightarrow> set ns | _ \<Rightarrow> {})"
proof (induction vs arbitrary: ss ctes)
  case (Cons v vs)
  show ?case
  proof (cases v)
    case (Ctes names)
    with Cons.prems have "visit_all S vs (ss, ctes @ map to_lower names) = Inr (ss', ctes')" by simp
    from Cons.IH [OF this] obtain new where new: "ss' = ss @ new" "\<forall>(s, q) \<in> set new. search_ok s"
      "map (se_function \<circ> fst) new = map (\<lambda>i. distance_name i) [length ss..<length ss + length new]"
      "set ctes' = set (ctes @ map to_lower names) \<union> to_lower ` (\<Union>v \<in> set vs. case v of Ctes ns \<Rightarrow> set ns | _ \<Rightarrow> {})"
      by blast
    then show ?thesis by (intro exI [of _ new]) (auto simp: Ctes comp_def)
  next
    case (TableCall name modifiers args)
    show ?thesis
    proof (cases "to_lower name = ''vector_search''")
      case False
      with Cons.prems TableCall have "visit_all S vs (ss, ctes) = Inr (ss', ctes')" by simp
      from Cons.IH [OF this] show ?thesis by (simp add: TableCall)
    next
      case True
      with Cons.prems TableCall obtain s q where one: "one_search S (length ss) modifiers args = Inr (s, q)"
        and rest: "visit_all S vs (ss @ [(s, q)], ctes) = Inr (ss', ctes')"
        by (auto simp: and_then_eq_Inr)
      from Cons.IH [OF rest] obtain new where new: "ss' = (ss @ [(s, q)]) @ new" "\<forall>(s, q) \<in> set new. search_ok s"
        "map (se_function \<circ> fst) new
          = map (\<lambda>i. distance_name i) [Suc (length ss)..<Suc (length ss) + length new]"
        "set ctes' = set ctes \<union> to_lower ` (\<Union>v \<in> set vs. case v of Ctes ns \<Rightarrow> set ns | _ \<Rightarrow> {})"
        by (auto simp: comp_def simp del: upt_Suc)
      have "[length ss..<length ss + length ((s, q) # new)] = length ss # [Suc (length ss)..<Suc (length ss) + length new]"
        by (simp add: upt_conv_Cons del: upt_Suc)
      with new one_search_ok [OF one] show ?thesis
        by (intro exI [of _ "(s, q) # new"]) (simp add: TableCall comp_def del: upt_Suc)
    qed
  qed
qed simp

text \<open>
  Every search of an expanded statement ranks by a vector that is not empty, all of whose values are
  finite, and not all zero for the cosine; its function has a name of its own; and no common table
  expression of the statement stands in the way of the contract it searches.
\<close>

theorem expanded_searches_ok:
  assumes "expand S sql = Inr (sql', searches)"
  shows "(\<forall>s \<in> set searches. search_ok s)
     \<and> map se_function searches = map (\<lambda>i. distance_name i) [0..<length searches]
     \<and> (\<forall>vs ns n. visit_sql S sql = Inr vs \<longrightarrow> Ctes ns \<in> set vs \<longrightarrow> n \<in> set ns \<longrightarrow>
          (\<forall>s \<in> set searches. to_lower (se_table s) \<noteq> to_lower n))"
proof -
  from assms obtain vs ss ctes where vs: "visit_sql S sql = Inr vs"
    and run: "visit_all S vs ([], []) = Inr (ss, ctes)"
    and no: "\<not> list_ex (\<lambda>(s, q). to_lower (se_table s) \<in> set ctes) ss" and searches: "searches = map fst ss"
    by (auto simp: expand_def and_then_eq_Inr split: sum.splits if_splits)
  from visit_all_ok [OF run] have ok: "\<forall>(s, q) \<in> set ss. search_ok s"
    "map (se_function \<circ> fst) ss = map (\<lambda>i. distance_name i) [0..<length ss]"
    "set ctes = to_lower ` (\<Union>v \<in> set vs. case v of Ctes ns \<Rightarrow> set ns | _ \<Rightarrow> {})"
    by auto
  have "to_lower n \<in> set ctes" if "Ctes ns \<in> set vs" "n \<in> set ns" for ns n
    unfolding ok(3) using that by force
  with no ok(1,2) show ?thesis by (fastforce simp: searches vs list_ex_iff)
qed

definition ex_sql_api :: sql_api where
  "ex_sql_api = \<lparr>visit_sql = (\<lambda>s. Inr [Ctes [''c''], TableCall ''Vector_Search'' False
       (map Positional [Ident ''t/docs'', Ident ''v'', ArrayOf [Number ''1'', Minus (Number ''2'')], Number ''5'', SingleQuoted ''dot''])]),
     parse_query = (\<lambda>q. None), render = (\<lambda>s qs. concat qs), parse_f64 = (\<lambda>n. Some (Fin (if n = ''1'' then 1 else 2))),
     as_f32 = (\<lambda>x. x), sqrt64 = (\<lambda>x. x)\<rparr>"

lemma ex_evaluated:
  "to_lower ''Vector_Search'' = ''vector_search''" "to_lower ''t/docs'' = ''t/docs''" "to_lower ''c'' = ''c''"
  "is_digit CHR ''5''" "digits_value ''5'' = 5"
  by code_simp+

lemma ex_expand:
  "case expand ex_sql_api ''q'' of
     Inl e \<Rightarrow> False
   | Inr (sql', ss) \<Rightarrow> ss = [\<lparr>se_table = ''t/docs'', se_column = ''v'', se_vector = [Fin 1, Fin (- 2)],
       se_metric = Dot, se_function = distance_name 0\<rparr>]"
  by (simp add: ex_sql_api_def expand_def one_search_def name_text_def limit_k_def parse_usize_def element_def
      finite_or_def metric_named_def ex_evaluated list_ex_iff Let_def)

theorem expanded_searches_ok_witness:
  "search_ok \<lparr>se_table = ''t/docs'', se_column = ''v'', se_vector = [Fin 1, Fin (- 2)],
     se_metric = Dot, se_function = distance_name 0\<rparr>"
proof -
  from ex_expand obtain sql' where run: "expand ex_sql_api ''q'' = Inr (sql', [\<lparr>se_table = ''t/docs'', se_column = ''v'',
     se_vector = [Fin 1, Fin (- 2)], se_metric = Dot, se_function = distance_name 0\<rparr>])"
    by (auto split: sum.splits)
  from expanded_searches_ok [OF this] show ?thesis by simp
qed

text \<open>
  A function is made only for a column the contract exposes to the caller, of vectors of single
  precision of the query's own length, and only when its result column hides none of the contract's.
\<close>

theorem search_udf_exact:
  "search_udf s schema = Inr () \<longleftrightarrow>
     field_with_name schema ''distance'' = None
   \<and> (\<exists>f. field_with_name schema (se_column s) = Some f
        \<and> field_type f = TFixedSizeList TFloat32 (int (length (se_vector s))) \<and> se_vector s \<noteq> [])"
proof (cases "field_with_name schema (se_column s)")
  case (Some f)
  then show ?thesis
    by (cases "field_type f") (auto simp: search_udf_def)
qed (simp add: search_udf_def)

end
