(* ===== verification/Engine_State.thy ===== *)
theory Engine_State
  imports Resolve Snapshots Cache Vector
begin

text \<open>
  What an engine keeps and reaches (\<open>Engine\<close> of \<open>src/engine.rs\<close>), and how its operations are written: a
  step from a world to a world and a result. No result at all is an operation that does not end. The
  contracts are not part of the world: no operation on data changes them, and each is given those it may
  see. Everything the engine calls outside the source is a field of \<open>host\<close>.
\<close>

section \<open>The world\<close>

text \<open>\<open>w_others\<close> is what other writers will do to the catalog's tables: before each call of the catalog
  that a write makes, the next of them happens.\<close>

record ('j, 'l) world =
  w_fs :: fs
  w_trees :: "string \<rightharpoonup> data_file tree"
  w_objects :: "string \<Rightarrow> data_file objects"
  w_catalog :: "string \<Rightarrow> ice_table option res"
  table_manifests :: "string \<rightharpoonup> 'j manifest"
  object_manifests :: "string \<rightharpoonup> 'j manifest"
  iceberg_manifests :: "string \<rightharpoonup> 'j manifest"
  w_budgets :: budget_store
  w_cache :: "'l cache option"
  w_audit :: "audit_record list"
  w_others :: "((string \<Rightarrow> ice_table option res) \<Rightarrow> string \<Rightarrow> ice_table option res) list"

section \<open>Steps\<close>

type_synonym ('s, 'a) step = "'s \<Rightarrow> ('s \<times> 'a res) option"

definition give :: "'a \<Rightarrow> ('s, 'a) step" where
  "give x = (\<lambda>s. Some (s, Inr x))"

definition stop :: "peql_error \<Rightarrow> ('s, 'a) step" where
  "stop e = (\<lambda>s. Some (s, Inl e))"

text \<open>\<open>let x = m?; f(x)\<close>.\<close>

definition then_do :: "('s, 'a) step \<Rightarrow> ('a \<Rightarrow> ('s, 'b) step) \<Rightarrow> ('s, 'b) step" where
  "then_do m f = (\<lambda>s. case m s of
       None \<Rightarrow> None
     | Some (s', Inl e) \<Rightarrow> Some (s', Inl e)
     | Some (s', Inr x) \<Rightarrow> f x s')"

text \<open>A result that changes nothing, a look at the world, a change of it.\<close>

definition lift :: "'a res \<Rightarrow> ('s, 'a) step" where
  "lift r = (\<lambda>s. Some (s, r))"

definition look :: "('s \<Rightarrow> 'a) \<Rightarrow> ('s, 'a) step" where
  "look f = (\<lambda>s. Some (s, Inr (f s)))"

definition look_res :: "('s \<Rightarrow> 'a res) \<Rightarrow> ('s, 'a) step" where
  "look_res f = (\<lambda>s. Some (s, f s))"

definition change :: "('s \<Rightarrow> 's) \<Rightarrow> ('s, unit) step" where
  "change f = (\<lambda>s. Some (f s, Inr ()))"

fun do_all :: "('a \<Rightarrow> ('s, unit) step) \<Rightarrow> 'a list \<Rightarrow> ('s, unit) step" where
  "do_all f [] = give ()"
| "do_all f (x # xs) = then_do (f x) (\<lambda>_. do_all f xs)"

fun map_do :: "('a \<Rightarrow> ('s, 'b) step) \<Rightarrow> 'a list \<Rightarrow> ('s, 'b list) step" where
  "map_do f [] = give []"
| "map_do f (x # xs) = then_do (f x) (\<lambda>y. then_do (map_do f xs) (\<lambda>ys. give (y # ys)))"

text \<open>A step's result as a value, whatever it is.\<close>

definition as_value :: "('s, 'a) step \<Rightarrow> ('s, 'a res) step" where
  "as_value m = (\<lambda>s. map_option (\<lambda>(s', r). (s', Inr r)) (m s))"

named_theorems step_simps \<open>running steps\<close>

lemma then_do_Inr [step_simps]:
  "then_do m f s = Some (s', Inr y) \<longleftrightarrow> (\<exists>s1 x. m s = Some (s1, Inr x) \<and> f x s1 = Some (s', Inr y))"
  by (auto simp: then_do_def split: option.splits sum.splits prod.splits)

lemma then_do_Inl [step_simps]:
  "then_do m f s = Some (s', Inl e) \<longleftrightarrow>
     m s = Some (s', Inl e) \<or> (\<exists>s1 x. m s = Some (s1, Inr x) \<and> f x s1 = Some (s', Inl e))"
  by (auto simp: then_do_def split: option.splits sum.splits prod.splits)

lemma step_runs [step_simps]:
  "give x s = Some (s', r) \<longleftrightarrow> s' = s \<and> r = Inr x"
  "stop e s = Some (s', r) \<longleftrightarrow> s' = s \<and> r = Inl e"
  "lift q s = Some (s', r) \<longleftrightarrow> s' = s \<and> r = q"
  "look f s = Some (s', r) \<longleftrightarrow> s' = s \<and> r = Inr (f s)"
  "look_res g s = Some (s', r) \<longleftrightarrow> s' = s \<and> r = g s"
  "change h s = Some (s', u) \<longleftrightarrow> s' = h s \<and> u = Inr ()"
  by (auto simp: give_def stop_def lift_def look_def look_res_def change_def)

lemma then_do_give [simp]: "then_do (give x) f = f x" "then_do (stop e) f = stop e"
  by (simp_all add: then_do_def give_def stop_def fun_eq_iff)

lemma then_do_run:
  "m s = Some (s1, Inr x) \<Longrightarrow> then_do m f s = f x s1"
  "m s = Some (s1, Inl e) \<Longrightarrow> then_do m f s = Some (s1, Inl e)"
  by (simp_all add: then_do_def)

lemma then_look: "then_do (look f) k s = k (f s) s"
  by (simp add: then_do_def look_def)

text \<open>Two steps that begin alike go on alike when what follows does, for what the beginning can give.\<close>

lemma then_do_eq:
  "m = m' \<Longrightarrow> (\<And>x s s1. m' s = Some (s1, Inr x) \<Longrightarrow> f x = f' x) \<Longrightarrow> then_do m f = then_do m' f'"
  by (auto simp: then_do_def fun_eq_iff split: option.splits sum.splits)

text \<open>What a step leaves alone: \<open>keeps f m\<close> when no run of \<open>m\<close> changes \<open>f\<close> of the world.\<close>

definition keeps :: "('s \<Rightarrow> 'v) \<Rightarrow> ('s, 'a) step \<Rightarrow> bool" where
  "keeps f m \<longleftrightarrow> (\<forall>s s' r. m s = Some (s', r) \<longrightarrow> f s' = f s)"

named_theorems keeps_intros \<open>what steps leave alone\<close>

lemma keeps_basic [keeps_intros]:
  "keeps f (give x)" "keeps f (stop e)" "keeps f (lift r)" "keeps f (look g)" "keeps f (look_res h)"
  by (simp_all add: keeps_def step_simps)

lemma keeps_then_do [keeps_intros]:
  assumes "keeps f m" and "\<And>x. keeps f (k x)"
  shows "keeps f (then_do m k)"
  unfolding keeps_def
proof (intro allI impI)
  fix s s' r assume run: "then_do m k s = Some (s', r)"
  then obtain s1 q where m: "m s = Some (s1, q)" by (auto simp: then_do_def split: option.splits)
  then have "f s1 = f s" using assms(1) by (simp add: keeps_def)
  moreover have "f s' = f s1"
  proof (cases q)
    case (Inl e)
    with run m show ?thesis by (simp add: then_do_def)
  next
    case (Inr x)
    with run m assms(2) show ?thesis by (auto simp: then_do_def keeps_def)
  qed
  ultimately show "f s' = f s" by simp
qed

lemma keeps_change [keeps_intros]: "(\<And>s. f (h s) = f s) \<Longrightarrow> keeps f (change h)"
  by (simp add: keeps_def step_simps)

lemma keeps_do_all [keeps_intros]: "(\<And>x. keeps f (g x)) \<Longrightarrow> keeps f (do_all g xs)"
  by (induction xs) (auto intro!: keeps_intros)

lemma keeps_map_do [keeps_intros]: "(\<And>x. keeps f (g x)) \<Longrightarrow> keeps f (map_do g xs)"
  by (induction xs) (auto intro!: keeps_intros)

lemma keeps_as_value [keeps_intros]: "keeps f m \<Longrightarrow> keeps f (as_value m)"
  by (auto simp: keeps_def as_value_def)

lemma keepsD: "keeps f m \<Longrightarrow> m s = Some (s', r) \<Longrightarrow> f s' = f s"
  by (auto simp: keeps_def)

lemma keeps_if [keeps_intros]: "(b \<Longrightarrow> keeps f m) \<Longrightarrow> (\<not> b \<Longrightarrow> keeps f k) \<Longrightarrow> keeps f (if b then m else k)"
  by simp

text \<open>What follows a step whatever its result, as the audit of a query does; when it fails, its error is
  the result.\<close>

definition finally_do :: "('s, 'a) step \<Rightarrow> ('a res \<Rightarrow> ('s, unit) step) \<Rightarrow> ('s, 'a) step" where
  "finally_do m f = (\<lambda>s. case m s of
       None \<Rightarrow> None
     | Some (s1, r) \<Rightarrow> (case f r s1 of
           None \<Rightarrow> None
         | Some (s2, Inl e) \<Rightarrow> Some (s2, Inl e)
         | Some (s2, Inr _) \<Rightarrow> Some (s2, r)))"

lemma keeps_finally_do [keeps_intros]:
  assumes "keeps f m" and "\<And>r. keeps f (k r)"
  shows "keeps f (finally_do m k)"
  using assms by (fastforce simp: keeps_def finally_do_def split: option.splits sum.splits prod.splits)

lemma finally_do_Some:
  assumes "finally_do m f s = Some (s', r)"
  obtains s1 q u where "m s = Some (s1, q)" and "f q s1 = Some (s', u)"
    and "r = (case u of Inl e \<Rightarrow> Inl e | Inr _ \<Rightarrow> q)"
  using assms by (auto simp: finally_do_def split: option.splits sum.splits)

text \<open>What a step gives when it gives a value: \<open>yields P m\<close> when every value \<open>m\<close> gives has \<open>P\<close>.\<close>

definition yields :: "('a \<Rightarrow> bool) \<Rightarrow> ('s, 'a) step \<Rightarrow> bool" where
  "yields P m \<longleftrightarrow> (\<forall>s s' x. m s = Some (s', Inr x) \<longrightarrow> P x)"

named_theorems yields_intros \<open>what steps give\<close>

lemma yields_basic [yields_intros]:
  "P x \<Longrightarrow> yields P (give x)" "yields P (stop e)"
  "(\<And>x. r = Inr x \<Longrightarrow> P x) \<Longrightarrow> yields P (lift r)" "(\<And>s. P (g s)) \<Longrightarrow> yields P (look g)"
  "(\<And>s x. h s = Inr x \<Longrightarrow> P x) \<Longrightarrow> yields P (look_res h)"
  by (simp_all add: yields_def step_simps)

lemma yields_then_do:
  assumes "\<And>x s s'. m s = Some (s', Inr x) \<Longrightarrow> yields P (f x)"
  shows "yields P (then_do m f)"
  using assms by (auto simp: yields_def then_do_Inr)

lemma yields_then_lift [yields_intros]:
  assumes "\<And>x. r = Inr x \<Longrightarrow> yields P (f x)"
  shows "yields P (then_do (lift r) f)"
  using assms by (auto simp: yields_def step_simps)

lemma yields_if [yields_intros]: "(b \<Longrightarrow> yields P m) \<Longrightarrow> (\<not> b \<Longrightarrow> yields P k) \<Longrightarrow> yields P (if b then m else k)"
  by simp

lemma yieldsD: "yields P m \<Longrightarrow> m s = Some (s', Inr x) \<Longrightarrow> P x"
  by (auto simp: yields_def)

text \<open>A step's value and the world after it, from worlds that have \<open>P\<close>.\<close>

definition triple :: "('s \<Rightarrow> bool) \<Rightarrow> ('s, 'a) step \<Rightarrow> ('a \<Rightarrow> 's \<Rightarrow> bool) \<Rightarrow> bool" where
  "triple P m Q \<longleftrightarrow> (\<forall>s s' x. P s \<longrightarrow> m s = Some (s', Inr x) \<longrightarrow> Q x s')"

named_theorems triple_intros \<open>what steps do from where\<close>

lemma triple_basic [triple_intros]:
  "(\<And>s. P s \<Longrightarrow> Q x s) \<Longrightarrow> triple P (give x) Q" "triple P (stop e) Q"
  "(\<And>x s. P s \<Longrightarrow> r = Inr x \<Longrightarrow> Q x s) \<Longrightarrow> triple P (lift r) Q"
  "(\<And>s. P s \<Longrightarrow> Q (g s) s) \<Longrightarrow> triple P (look g) Q"
  "(\<And>x s. P s \<Longrightarrow> h s = Inr x \<Longrightarrow> Q x s) \<Longrightarrow> triple P (look_res h) Q"
  by (simp_all add: triple_def step_simps)

lemma triple_change [triple_intros]: "(\<And>s. P s \<Longrightarrow> Q () (c s)) \<Longrightarrow> triple P (change c) Q"
  by (simp add: triple_def step_simps)

lemma triple_then_do: "triple P m R \<Longrightarrow> (\<And>x. triple (R x) (f x) Q) \<Longrightarrow> triple P (then_do m f) Q"
  unfolding triple_def then_do_Inr by blast

lemma triple_if [triple_intros]: "(b \<Longrightarrow> triple P m Q) \<Longrightarrow> (\<not> b \<Longrightarrow> triple P k Q) \<Longrightarrow> triple P (if b then m else k) Q"
  by simp

lemma triple_weaken: "triple P m Q \<Longrightarrow> (\<And>s. P' s \<Longrightarrow> P s) \<Longrightarrow> (\<And>x s. Q x s \<Longrightarrow> Q' x s) \<Longrightarrow> triple P' m Q'"
  unfolding triple_def by blast

lemma tripleD: "triple P m Q \<Longrightarrow> m s = Some (s', Inr x) \<Longrightarrow> P s \<Longrightarrow> Q x s'"
  by (auto simp: triple_def)

lemma triple_do_all: "(\<And>x. triple P (f x) (\<lambda>_. P)) \<Longrightarrow> triple P (do_all f xs) (\<lambda>_. P)"
  by (induction xs) (auto intro: triple_basic triple_then_do)

lemma triple_pre: "(\<And>s. P s \<Longrightarrow> b) \<Longrightarrow> (b \<Longrightarrow> triple P m Q) \<Longrightarrow> triple P m Q"
  by (auto simp: triple_def)

section \<open>Everything outside the source\<close>

record table_ref =
  tr_table :: string
  tr_schema :: "string option"
  tr_text :: string

text \<open>The session a query is planned and run in: the partitions it plans for when they are given, the rule
  added to DataFusion's optimizer, the planner added to its own, and what is registered in it.\<close>

record session =
  ss_partitions :: "nat option"
  ss_rule :: "lplan \<Rightarrow> lplan"
  ss_planner :: "lplan \<Rightarrow> pplan list \<Rightarrow> pplan option"
  ss_tables :: "(table_ref \<times> lplan) list"
  ss_udfs :: "search list"

record shaped =
  sp_plan :: lplan
  sp_charges :: "(string \<times> f64) list"
  sp_suppress_k :: "nat option"
  sp_has_aggregate :: bool

record ('v, 'w, 'j, 'l) host =
  h_facts :: "('v, 'w, 'j) facts_env"
  h_runtime :: "'j runtime"
  h_paths :: path_api
  h_ledger :: ledger_codec
  h_lru :: "('l, batch) lru_ops"
  h_cache_config :: cache_config
  h_memory_size :: "batch \<Rightarrow> nat"
  h_tables :: "string \<rightharpoonup> string"
  h_location :: "compiled_contract \<Rightarrow> location option"
  h_use_stored :: bool
  h_frozen :: "(string, int) btmap"
  h_provider :: "bound \<Rightarrow> compiled_contract \<Rightarrow> bool \<Rightarrow> int option \<Rightarrow> unit res"
  h_validation_plan :: "compilation \<Rightarrow> lplan"
  h_validate :: "compilation \<Rightarrow> lplan \<Rightarrow> bound \<Rightarrow> int option \<Rightarrow> ('j, 'l) world \<Rightarrow> runtime_error + 'j verdict"
  h_collect_table :: "string \<Rightarrow> df_error + batch list"
  h_ipc :: "schema \<Rightarrow> batch list \<Rightarrow> string"
  h_snapshot_entries :: "ice_table \<Rightarrow> int \<Rightarrow> string list \<Rightarrow> file_entry list res"
  h_write_error :: "string \<Rightarrow> string option"
  h_now :: int
  h_secs :: nat
  h_elapsed_ms :: nat
  h_uuid :: string
  h_debug :: "string \<Rightarrow> string"
  h_sql :: sql_api
  h_conjunctions :: conjunctions
  h_parse_sql :: "string \<Rightarrow> statement list option"
  h_table_refs :: "string \<Rightarrow> df_error + table_ref list"
  h_logical_plan :: "session \<Rightarrow> string \<Rightarrow> df_error + lplan"
  h_verify_plan :: "lplan \<Rightarrow> bool"
  h_optimize :: "session \<Rightarrow> lplan \<Rightarrow> df_error + lplan"
  h_apply_shapes :: "lplan \<Rightarrow> lplan \<Rightarrow> shape_rule list \<Rightarrow> runtime_error + shaped"
  h_plan_schema :: "lplan \<Rightarrow> schema"
  h_physical :: "session \<Rightarrow> lplan \<Rightarrow> df_error + pplan"
  h_partitions :: "pplan \<Rightarrow> nat"
  h_stream :: "session \<Rightarrow> pplan \<Rightarrow> ('j, 'l) world \<Rightarrow> df_error + stream"
  h_physical_schema :: "pplan \<Rightarrow> schema"
  h_metrics :: "session \<Rightarrow> pplan \<Rightarrow> ('j, 'l) world \<Rightarrow> ran"
  h_display :: "pplan \<Rightarrow> string"
  h_signer :: "(envelope \<Rightarrow> string + string) option"
  h_audit_error :: "audit_record \<Rightarrow> peql_error option"
  h_spool_error :: "string option"
  h_spool_write :: "batch list \<Rightarrow> df_error option"
  h_spool_finish :: "batch list \<Rightarrow> peql_error option"

text \<open>The result of a part of the world that answers like a Rust function of its own.\<close>

definition on_fs :: "(fs \<Rightarrow> fs \<times> 'a res) \<Rightarrow> (('j, 'l) world, 'a) step" where
  "on_fs f = (\<lambda>w. case f (w_fs w) of (d, r) \<Rightarrow> Some (w\<lparr>w_fs := d\<rparr>, r))"

lemma keeps_on_fs [keeps_intros]: "(\<And>w d. f (w\<lparr>w_fs := d\<rparr>) = f w) \<Longrightarrow> keeps f (on_fs g)"
  by (auto simp: keeps_def on_fs_def split: prod.splits)

text \<open>Steps that change nothing, and those of the disk, by the side of their result.\<close>

lemma step_sides:
  "lift q s = Some (s', Inr x) \<longleftrightarrow> s' = s \<and> q = Inr x" "lift q s = Some (s', Inl e) \<longleftrightarrow> s' = s \<and> q = Inl e"
  "look_res g s = Some (s', Inr x) \<longleftrightarrow> s' = s \<and> g s = Inr x" "look_res g s = Some (s', Inl e) \<longleftrightarrow> s' = s \<and> g s = Inl e"
  "on_fs f w = Some (w', Inr y) \<longleftrightarrow> (\<exists>d. f (w_fs w) = (d, Inr y) \<and> w' = w\<lparr>w_fs := d\<rparr>)"
  by (auto simp: lift_def look_res_def on_fs_def split: prod.splits)

end
