(* ===== verification/Dataset.thy ===== *)
theory Dataset
  imports Engine_State
begin

text \<open>
  What an engine knows about a contract's data (the bindings, manifests and validation of
  \<open>src/engine.rs\<close>): reading the facts that are recorded, making them when there are none, and validating
  the whole of the data. The contracts \<open>g\<close> are given; everything else is the world's.
\<close>

section \<open>Reading what is recorded\<close>

definition no_snapshots :: "string \<Rightarrow> peql_error" where
  "no_snapshots name = Invalid (''`'' @ name @ ''` is not bound to a table with snapshots; only an Iceberg ''
     @ ''binding is read as of one'')"

definition host_bound :: "('v, 'w, 'j, 'l) host \<Rightarrow> registered \<Rightarrow> bound res" where
  "host_bound H = bound_to (h_tables H) (h_location H)"

definition object_manifest_key :: "('v, 'w, 'j, 'l) host \<Rightarrow> object_location \<Rightarrow> string \<Rightarrow> string" where
  "object_manifest_key H l c = store_url l @ join ''/'' (obj_manifest_path (h_paths H) l c)"

definition load_object_manifest ::
  "('v, 'w, 'j, 'l) host \<Rightarrow> object_location \<Rightarrow> string \<Rightarrow> fs \<Rightarrow> 'j manifest option res" where
  "load_object_manifest H l c d =
     (let p = object_manifest_key H l c in
      case d p of
        None \<Rightarrow> Inr None
      | Some (Unreadable e) \<Rightarrow> Inl (DataFusion (DfOther e))
      | Some (Bytes b) \<Rightarrow>
          (case decode (fe_facts (h_facts H)) b of
             Inl e \<Rightarrow> Inl (Invalid (''manifest of `'' @ c @ ''` ('' @ join ''/'' (obj_manifest_path (h_paths H) l c)
                @ ''): '' @ e))
           | Inr m \<Rightarrow> Inr m))"

definition save_object_manifest ::
  "('v, 'w, 'j, 'l) host \<Rightarrow> object_location \<Rightarrow> 'j manifest \<Rightarrow> fs \<Rightarrow> fs \<times> unit res" where
  "save_object_manifest H l m d =
     (let p = object_manifest_key H l (m_contract m) in
      case encode (fe_facts (h_facts H)) m of
        Inl e \<Rightarrow> (d, Inl (Invalid (''manifest: '' @ e)))
      | Inr b \<Rightarrow> (case h_write_error H p of
            Some e \<Rightarrow> (d, Inl (DataFusion (DfOther e))) | None \<Rightarrow> (d(p \<mapsto> Bytes b), Inr ())))"

definition save_local_manifest ::
  "('v, 'w, 'j, 'l) host \<Rightarrow> string \<Rightarrow> 'j manifest \<Rightarrow> fs \<Rightarrow> fs \<times> unit res" where
  "save_local_manifest H dir m d =
     (case save_manifest (fe_facts (h_facts H)) (h_write_error H (manifest_path dir (m_contract m))) d dir m of
        Inl e \<Rightarrow> (d, Inl e) | Inr d' \<Rightarrow> (d', Inr ()))"

definition engine_manifest ::
  "('v, 'w, 'j, 'l) host \<Rightarrow> contents \<Rightarrow> string \<Rightarrow> ('j, 'l) world \<Rightarrow> 'j manifest option res" where
  "engine_manifest H g name w =
     and_then (get_contract g name) (\<lambda>reg.
     and_then (host_bound H reg) (\<lambda>b.
       case b of
         BoundTable _ \<Rightarrow> Inr (table_manifests w name)
       | BoundFiles (Local dir) \<Rightarrow> load_manifest (fe_facts (h_facts H)) (w_fs w) dir name
       | BoundFiles (ObjectAt _) \<Rightarrow> Inr (object_manifests w name)
       | BoundFiles (IcebergAt _) \<Rightarrow> Inr (iceberg_manifests w name)))"

definition engine_location :: "('v, 'w, 'j, 'l) host \<Rightarrow> contents \<Rightarrow> string \<Rightarrow> location option res" where
  "engine_location H g name =
     and_then (get_contract g name) (\<lambda>reg.
     and_then (host_bound H reg) (\<lambda>b.
       case b of BoundTable _ \<Rightarrow> Inr None | BoundFiles l \<Rightarrow> Inr (Some l)))"

text \<open>The facts of one snapshot, from what is recorded or the writes since; they are then recorded.\<close>

definition engine_facts ::
  "('v, 'w, 'j, 'l) host \<Rightarrow> ice_table \<Rightarrow> int \<Rightarrow> registered \<Rightarrow> (('j, 'l) world, 'j manifest option) step" where
  "engine_facts H t s reg =
     (\<lambda>w. map_option (\<lambda>(d, r). (w\<lparr>w_fs := d\<rparr>, r))
        (iceberg_facts (h_facts H) (\<lambda>s. h_write_error H (facts_path t s (reg_name reg))) t s reg (w_fs w)))"

text \<open>A contract's Iceberg table and the snapshot named, or its current one.\<close>

definition iceberg_snapshot :: "string \<Rightarrow> string \<Rightarrow> int option \<Rightarrow> ('j, 'l) world \<Rightarrow> (ice_table \<times> int) res" where
  "iceberg_snapshot k name s w =
     and_then (w_catalog w k) (\<lambda>to.
     and_then (ok_or (NotWritten name) to) (\<lambda>t.
       case s of
         Some s \<Rightarrow>
           if map_of (it_snapshots t) s = None
           then Inl (Invalid (it_ident t @ '' has no snapshot '' @ show_int s)) else Inr (t, s)
       | None \<Rightarrow> and_then (ok_or (NotWritten name) (it_current t)) (\<lambda>s. Inr (t, s))))"

definition manifest_as_of ::
  "('v, 'w, 'j, 'l) host \<Rightarrow> contents \<Rightarrow> string \<Rightarrow> int \<Rightarrow> (('j, 'l) world, 'j manifest option) step" where
  "manifest_as_of H g name s =
     then_do (lift (get_contract g name)) (\<lambda>reg.
     then_do (lift (host_bound H reg)) (\<lambda>b.
       case b of
         BoundFiles (IcebergAt k) \<Rightarrow>
           then_do (look_res (\<lambda>w. w_catalog w k)) (\<lambda>to.
             case to of
               None \<Rightarrow> stop (NotWritten name)
             | Some t \<Rightarrow>
                 if map_of (it_snapshots t) s = None
                 then stop (Invalid (it_ident t @ '' has no snapshot '' @ show_int s))
                 else engine_facts H t s reg)
       | _ \<Rightarrow> stop (no_snapshots name)))"

section \<open>Validating the whole of the data\<close>

record 'j data_verdict =
  dv_verdict :: "'j verdict"
  dv_data_hash :: string
  dv_snapshot :: "int option"

definition flag_columns :: "compiled_contract \<Rightarrow> string list" where
  "flag_columns cc = map flag_column (cc_flags cc)"

abbreviation sha256 :: "('v, 'w, 'j, 'l) host \<Rightarrow> string \<Rightarrow> string" where
  "sha256 H \<equiv> fe_sha (h_facts H)"

text \<open>The entries of every file a location holds.\<close>

definition local_entries ::
  "('v, 'w, 'j, 'l) host \<Rightarrow> string \<Rightarrow> string list \<Rightarrow> (('j, 'l) world, file_entry list) step" where
  "local_entries H dir flags =
     look_res (\<lambda>w. and_then (list_files (w_trees w dir)) (map_res (file_entry_of (sha256 H) dir flags)))"

definition object_entries ::
  "('v, 'w, 'j, 'l) host \<Rightarrow> object_location \<Rightarrow> string list \<Rightarrow> (('j, 'l) world, file_entry list) step" where
  "object_entries H l flags =
     look_res (\<lambda>w. map_res (\<lambda>(p, f). case df_footer f of
            Inl e \<Rightarrow> Inl (Invalid (join ''/'' p @ '': '' @ e))
          | Inr m \<Rightarrow> Inr (entry_from_footer (obj_relative l p) (length (df_bytes f)) m flags (sha256 H (df_bytes f))))
        (obj_list_files (w_objects w (store_url l)) l))"

definition validate_in ::
  "('v, 'w, 'j, 'l) host \<Rightarrow> compilation \<Rightarrow> lplan \<Rightarrow> bound \<Rightarrow> int option \<Rightarrow> (('j, 'l) world, 'j verdict) step" where
  "validate_in H c plan b s =
     then_do (lift (h_provider H b (contract c) False s)) (\<lambda>_.
       look_res (\<lambda>w. rt (h_validate H c plan b s w)))"

definition whole ::
  "('v, 'w, 'j, 'l) host \<Rightarrow> contents \<Rightarrow> string \<Rightarrow> lplan \<Rightarrow> int option
     \<Rightarrow> (('j, 'l) world, 'j data_verdict \<times> file_entry list) step" where
  "whole H g name plan s =
     then_do (lift (get_contract g name)) (\<lambda>reg.
     let c = r_compilation reg; flags = flag_columns (contract c) in
     then_do (lift (host_bound H reg)) (\<lambda>b.
       case b of
         BoundFiles (IcebergAt k) \<Rightarrow>
           then_do (look_res (iceberg_snapshot k name s)) (\<lambda>(t, sn).
           then_do (validate_in H c plan b (Some sn)) (\<lambda>v.
           then_do (lift (h_snapshot_entries H t sn flags)) (\<lambda>entries.
             give (\<lparr>dv_verdict = v, dv_data_hash = data_hash (sha256 H) entries, dv_snapshot = Some sn\<rparr>, entries))))
       | _ \<Rightarrow>
           if s \<noteq> None then stop (no_snapshots name)
           else then_do (validate_in H c plan b None) (\<lambda>v.
             case b of
               BoundTable t \<Rightarrow>
                 then_do (lift (df (h_collect_table H t))) (\<lambda>bs.
                   give (\<lparr>dv_verdict = v, dv_data_hash = sha256 H (ipc_bytes (h_ipc H) bs), dv_snapshot = None\<rparr>, []))
             | BoundFiles (Local dir) \<Rightarrow>
                 then_do (local_entries H dir flags) (\<lambda>es.
                   give (\<lparr>dv_verdict = v, dv_data_hash = data_hash (sha256 H) es, dv_snapshot = None\<rparr>, es))
             | BoundFiles (ObjectAt l) \<Rightarrow>
                 then_do (object_entries H l flags) (\<lambda>es.
                   give (\<lparr>dv_verdict = v, dv_data_hash = data_hash (sha256 H) es, dv_snapshot = None\<rparr>, es))
             | BoundFiles (IcebergAt _) \<Rightarrow> stop (no_snapshots name))))"

definition validated_manifest ::
  "compiled_contract \<Rightarrow> 'j data_verdict \<Rightarrow> file_entry list \<Rightarrow> int \<Rightarrow> int \<Rightarrow> int option \<Rightarrow> 'j manifest" where
  "validated_manifest cc v files written_at now s =
     \<lparr>m_contract = cc_name cc, m_contract_hash = contract_hash cc, m_compilation_hash = compilation_hash cc,
      m_written_at = written_at, m_row_count = v_row_count (dv_verdict v), m_failures = v_failures (dv_verdict v),
      m_valid = v_valid (dv_verdict v), m_breached = v_breached (dv_verdict v),
      m_guarantees = checks (dv_verdict v) s now, m_stats = v_stats (dv_verdict v),
      m_data_hash = dv_data_hash v, m_row_schema = row_schema cc, m_files = files, m_snapshot = s\<rparr>"

text \<open>Recording the facts of a validation where the contract's data is.\<close>

definition record_facts ::
  "('v, 'w, 'j, 'l) host \<Rightarrow> string \<Rightarrow> location \<Rightarrow> 'j data_verdict \<Rightarrow> 'j manifest \<Rightarrow> (('j, 'l) world, unit) step" where
  "record_facts H name l v m =
     (case l of
        Local dir \<Rightarrow> on_fs (save_local_manifest H dir m)
      | ObjectAt ol \<Rightarrow>
          then_do (on_fs (save_object_manifest H ol m)) (\<lambda>_.
            change (\<lambda>w. w\<lparr>object_manifests := (object_manifests w)(name \<mapsto> m)\<rparr>))
      | IcebergAt k \<Rightarrow>
          then_do (look_res (iceberg_snapshot k name (dv_snapshot v))) (\<lambda>(t, sn).
          then_do (on_fs (\<lambda>d. save_facts (fe_facts (h_facts H))
              (h_write_error H (facts_path t sn (m_contract m))) d t m)) (\<lambda>_.
            if it_current t = Some sn
            then change (\<lambda>w. w\<lparr>iceberg_manifests := (iceberg_manifests w)(name \<mapsto> m)\<rparr>)
            else give ())))"

definition refresh ::
  "('v, 'w, 'j, 'l) host \<Rightarrow> contents \<Rightarrow> string \<Rightarrow> int \<Rightarrow> int option
     \<Rightarrow> (('j, 'l) world, 'j data_verdict \<times> 'j manifest) step" where
  "refresh H g name written_at s =
     then_do (lift (get_contract g name)) (\<lambda>reg.
     let c = r_compilation reg in
     then_do (lift (host_bound H reg)) (\<lambda>b.
       case b of
         BoundTable _ \<Rightarrow> stop (Invalid (''`'' @ name @ ''` has no files''))
       | BoundFiles l \<Rightarrow>
           then_do (whole H g name (h_validation_plan H c) s) (\<lambda>(v, files).
             let m = validated_manifest (contract c) v files written_at (h_now H) (dv_snapshot v) in
             then_do (record_facts H name l v m) (\<lambda>_. give (v, m)))))"

definition engine_validate ::
  "('v, 'w, 'j, 'l) host \<Rightarrow> contents \<Rightarrow> string \<Rightarrow> (('j, 'l) world, 'j data_verdict) step" where
  "engine_validate H g name =
     then_do (lift (get_contract g name)) (\<lambda>reg.
     then_do (lift (host_bound H reg)) (\<lambda>b.
       case b of
         BoundFiles _ \<Rightarrow> then_do (refresh H g name (h_now H) None) (\<lambda>(v, m). give v)
       | BoundTable _ \<Rightarrow>
           (let c = r_compilation reg in
            then_do (whole H g name (h_validation_plan H c) None) (\<lambda>(v, files).
            then_do (change (\<lambda>w. w\<lparr>table_manifests := (table_manifests w)
                (name \<mapsto> validated_manifest (contract c) v [] (h_now H) (h_now H) None)\<rparr>)) (\<lambda>_. give v)))))"

definition validate_with ::
  "('v, 'w, 'j, 'l) host \<Rightarrow> contents \<Rightarrow> string \<Rightarrow> lplan \<Rightarrow> int option \<Rightarrow> (('j, 'l) world, 'j data_verdict) step" where
  "validate_with H g name plan s = then_do (whole H g name plan s) (\<lambda>(v, files). give v)"

section \<open>Making facts when there are none\<close>

definition ensure_manifest ::
  "('v, 'w, 'j, 'l) host \<Rightarrow> contents \<Rightarrow> string \<Rightarrow> (('j, 'l) world, unit) step" where
  "ensure_manifest H g name =
     then_do (lift (get_contract g name)) (\<lambda>reg.
     then_do (lift (host_bound H reg)) (\<lambda>b.
       case b of
         BoundTable _ \<Rightarrow> give ()
       | BoundFiles (Local dir) \<Rightarrow>
           then_do (look_res (\<lambda>w. load_manifest (fe_facts (h_facts H)) (w_fs w) dir name)) (\<lambda>mo.
           if mo \<noteq> None then give ()
           else then_do (look_res (\<lambda>w. list_files (w_trees w dir))) (\<lambda>fs.
             if fs = [] then give ()
             else then_do (refresh H g name (h_now H) None) (\<lambda>_. give ())))
       | BoundFiles (ObjectAt l) \<Rightarrow>
           then_do (look_res (\<lambda>w. load_object_manifest H l name (w_fs w))) (\<lambda>mo.
             case mo of
               Some m \<Rightarrow> change (\<lambda>w. w\<lparr>object_manifests := (object_manifests w)(name \<mapsto> m)\<rparr>)
             | None \<Rightarrow>
                 then_do (look (\<lambda>w. obj_list_files (w_objects w (store_url l)) l)) (\<lambda>fs.
                   if fs = [] then give ()
                   else then_do (refresh H g name (h_now H) None) (\<lambda>_. give ())))
       | BoundFiles (IcebergAt k) \<Rightarrow>
           then_do (look_res (\<lambda>w. w_catalog w k)) (\<lambda>to.
             case Option.bind to (\<lambda>t. map_option (Pair t) (it_current t)) of
               None \<Rightarrow> change (\<lambda>w. w\<lparr>iceberg_manifests := (iceberg_manifests w)(name := None)\<rparr>)
             | Some (t, s) \<Rightarrow>
                 then_do (engine_facts H t s reg) (\<lambda>mo.
                   case mo of
                     Some m \<Rightarrow> change (\<lambda>w. w\<lparr>iceberg_manifests := (iceberg_manifests w)(name \<mapsto> m)\<rparr>)
                   | None \<Rightarrow> then_do (refresh H g name (h_now H) (Some s)) (\<lambda>_. give ())))))"

definition ensure_manifest_as_of ::
  "('v, 'w, 'j, 'l) host \<Rightarrow> contents \<Rightarrow> string \<Rightarrow> int \<Rightarrow> (('j, 'l) world, 'j manifest) step" where
  "ensure_manifest_as_of H g name s =
     then_do (manifest_as_of H g name s) (\<lambda>mo.
       case mo of
         Some m \<Rightarrow> give m
       | None \<Rightarrow> then_do (refresh H g name (h_now H) (Some s)) (\<lambda>(v, m). give m))"

end
