(* ===== verification/Query.thy ===== *)
theory Query
  imports Dataset Shape
begin

text \<open>
  Asking an engine (the query half of \<open>src/engine.rs\<close>): resolving every contract a statement names,
  planning it with their shapes, proving the plan gated, charging its budgets, running it, and what is
  recorded of it. DataFusion's planner and its execution are parameters.
\<close>

section \<open>One contract of a statement\<close>

definition engine_resolve ::
  "('v, 'w, 'j, 'l) host \<Rightarrow> contents \<Rightarrow> string \<Rightarrow> caller \<Rightarrow> on_read_violation
     \<Rightarrow> (('j, 'l) world, resolution \<times> 'j manifest) step" where
  "engine_resolve H g name who v =
     look_res (\<lambda>w. resolve_with (h_runtime H) g (host_bound H) (h_use_stored H) name who v (engine_manifest H g name w))"

text \<open>The data of a contract opened as a table: an Iceberg table's at the snapshot that was resolved.\<close>

definition open_data ::
  "('v, 'w, 'j, 'l) host \<Rightarrow> string \<Rightarrow> ('j, 'l) world \<Rightarrow> bound \<Rightarrow> compiled_contract \<Rightarrow> bool \<Rightarrow> int option \<Rightarrow> unit res" where
  "open_data H name w b cc stored s =
     (case b of
        BoundFiles (IcebergAt k) \<Rightarrow>
          and_then (iceberg_snapshot k name s w) (\<lambda>(t, sn). h_provider H b cc stored (Some sn))
      | _ \<Rightarrow> h_provider H b cc stored s)"

definition engine_view ::
  "('v, 'w, 'j, 'l) host \<Rightarrow> contents \<Rightarrow> string \<Rightarrow> caller \<Rightarrow> resolution \<Rightarrow> (('j, 'l) world, lplan) step" where
  "engine_view H g name who rs =
     look_res (\<lambda>w. contract_view (h_runtime H) g (host_bound H) (open_data H name w) name who rs)"

text \<open>The \<open>Debug\<close> text of a list of strings, of a list of pairs of them, of an optional number.\<close>

definition debug_strings :: "(string \<Rightarrow> string) \<Rightarrow> string list \<Rightarrow> string" where
  "debug_strings dbg xs = ''['' @ join '', '' (map dbg xs) @ '']''"

definition debug_pairs :: "(string \<Rightarrow> string) \<Rightarrow> (string \<times> string) list \<Rightarrow> string" where
  "debug_pairs dbg xs = ''['' @ join '', '' (map (\<lambda>(k, v). ''('' @ dbg k @ '', '' @ dbg v @ '')'') xs) @ '']''"

definition debug_snapshot :: "int option \<Rightarrow> string" where
  "debug_snapshot s = (case s of None \<Rightarrow> ''None'' | Some i \<Rightarrow> ''Some('' @ show_int i @ '')'')"

definition params_fingerprint :: "('v, 'w, 'j, 'l) host \<Rightarrow> compiled_contract \<Rightarrow> caller \<Rightarrow> string res" where
  "params_fingerprint H cc who =
     and_then (rt (param_values (h_runtime H) cc who)) (\<lambda>ps.
       Inr (case ps of None \<Rightarrow> [] | Some kv \<Rightarrow> debug_pairs (h_debug H) (sort_key fst (sort_key snd kv))))"

definition fingerprint_of ::
  "('v, 'w, 'j, 'l) host \<Rightarrow> resolution \<Rightarrow> string \<Rightarrow> 'j manifest \<Rightarrow> string" where
  "fingerprint_of H rs params m =
     join ''|'' [rs_compilation_hash rs, params, debug_strings (h_debug H) (rs_shapes rs), m_data_hash m,
       show_int (m_written_at m), debug_snapshot (m_snapshot m)]"

section \<open>Preparing a statement\<close>

record gathered =
  ga_resolutions :: "resolution list"
  ga_active :: "shape_rule list"
  ga_fingerprints :: "(string \<times> string) list"
  ga_tables :: "(table_ref \<times> lplan) list"

definition resolved :: "gathered \<Rightarrow> string \<Rightarrow> bool" where
  "resolved acc name \<longleftrightarrow> list_ex (\<lambda>r. rs_contract r = name) (ga_resolutions acc)"

text \<open>The facts a contract is resolved with: those of the snapshot named by the read or frozen by the
  engine, or those of its data now, made when there are none.\<close>

definition resolve_ref ::
  "('v, 'w, 'j, 'l) host \<Rightarrow> contents \<Rightarrow> caller \<Rightarrow> (string, int) btmap \<Rightarrow> on_read_violation \<Rightarrow> string
     \<Rightarrow> (('j, 'l) world, resolution \<times> 'j manifest) step" where
  "resolve_ref H g who as_of v name =
     (case (case map_of as_of name of Some s \<Rightarrow> Some s | None \<Rightarrow> map_of (h_frozen H) name) of
        None \<Rightarrow> then_do (ensure_manifest H g name) (\<lambda>_. engine_resolve H g name who v)
      | Some s \<Rightarrow>
          then_do (ensure_manifest_as_of H g name s) (\<lambda>pinned.
            lift (resolve_with (h_runtime H) g (host_bound H) (h_use_stored H) name who v (Inr (Some pinned)))))"

definition one_ref ::
  "('v, 'w, 'j, 'l) host \<Rightarrow> contents \<Rightarrow> caller \<Rightarrow> (string, int) btmap \<Rightarrow> on_read_violation \<Rightarrow> table_ref
     \<Rightarrow> gathered \<Rightarrow> (('j, 'l) world, gathered) step" where
  "one_ref H g who as_of v t acc =
     (let name = tr_table t in
      if resolved acc name then give acc
      else if tr_schema t \<noteq> None then stop (UnknownContract (tr_text t))
      else
        then_do (lift (visible g name who)) (\<lambda>_.
        then_do (resolve_ref H g who as_of v name) (\<lambda>(rs, m).
        then_do (engine_view H g name who rs) (\<lambda>view.
        then_do (lift (get_contract g name)) (\<lambda>reg.
        let cc = contract (r_compilation reg) in
        then_do (lift (rt (active_shapes (h_runtime H) cc who))) (\<lambda>shapes.
        then_do (lift (params_fingerprint H cc who)) (\<lambda>ps.
          give \<lparr>ga_resolutions = ga_resolutions acc @ [rs], ga_active = ga_active acc @ shapes,
                ga_fingerprints = ga_fingerprints acc @ [(name, fingerprint_of H rs ps m)],
                ga_tables = ga_tables acc @ [(t, view)]\<rparr>)))))))"

fun gather ::
  "('v, 'w, 'j, 'l) host \<Rightarrow> contents \<Rightarrow> caller \<Rightarrow> (string, int) btmap \<Rightarrow> on_read_violation \<Rightarrow> table_ref list
     \<Rightarrow> gathered \<Rightarrow> (('j, 'l) world, gathered) step" where
  "gather H g who as_of v [] acc = give acc"
| "gather H g who as_of v (t # ts) acc = then_do (one_ref H g who as_of v t acc) (gather H g who as_of v ts)"

definition check_as_of :: "(string, int) btmap \<Rightarrow> gathered \<Rightarrow> unit res" where
  "check_as_of as_of acc =
     (case find (\<lambda>(named, s). \<not> resolved acc named) as_of of
        Some (named, s) \<Rightarrow> Inl (Invalid (''the read names a snapshot of `'' @ named @ ''`, which the query does not read''))
      | None \<Rightarrow> Inr ())"

definition check_search :: "('v, 'w, 'j, 'l) host \<Rightarrow> contents \<Rightarrow> caller \<Rightarrow> gathered \<Rightarrow> search \<Rightarrow> unit res" where
  "check_search H g who acc s =
     (if \<not> resolved acc (se_table s) then Inl (UnknownContract (se_table s))
      else and_then (describe (h_runtime H) g (se_table s) who) (\<lambda>schema. search_udf s schema))"

definition config_for :: "nat option \<Rightarrow> nat option" where
  "config_for partitions = map_option (max 1) partitions"

definition session_for :: "('v, 'w, 'j, 'l) host \<Rightarrow> nat option \<Rightarrow> session" where
  "session_for H partitions =
     \<lparr>ss_partitions = config_for partitions, ss_rule = barrier (h_conjunctions H), ss_planner = plan_extension,
      ss_tables = [], ss_udfs = []\<rparr>"

record prepared =
  pr_key :: cache_key
  pr_session :: session
  pr_plan :: lplan
  pr_resolutions :: "resolution list"
  pr_charges :: "(string \<times> f64) list"
  pr_suppress_k :: "nat option"
  pr_has_aggregate :: bool

text \<open>What is left once every contract is resolved, which changes nothing.\<close>

definition shape_query ::
  "('v, 'w, 'j, 'l) host \<Rightarrow> contents \<Rightarrow> string \<Rightarrow> caller \<Rightarrow> nat option \<Rightarrow> (string, int) btmap
     \<Rightarrow> string \<Rightarrow> search list \<Rightarrow> gathered \<Rightarrow> prepared res" where
  "shape_query H g sql who partitions as_of expanded searches acc =
     and_then (check_as_of as_of acc) (\<lambda>_.
     and_then (map_res (check_search H g who acc) searches) (\<lambda>_.
     let ss = (session_for H partitions)\<lparr>ss_tables := ga_tables acc, ss_udfs := searches\<rparr> in
     and_then (df (h_logical_plan H ss expanded)) (\<lambda>plan.
     and_then (check_plan (h_verify_plan H) plan) (\<lambda>_.
     and_then (df (h_optimize H ss plan)) (\<lambda>optimized.
     and_then (rt (h_apply_shapes H plan optimized (ga_active acc))) (\<lambda>shaped.
       Inr \<lparr>pr_key = cache_key_new (sha256 H) sql (ga_fingerprints acc), pr_session = ss, pr_plan = sp_plan shaped,
            pr_resolutions = ga_resolutions acc, pr_charges = sp_charges shaped,
            pr_suppress_k = sp_suppress_k shaped, pr_has_aggregate = sp_has_aggregate shaped\<rparr>))))))"

definition no_refs :: gathered where
  "no_refs = \<lparr>ga_resolutions = [], ga_active = [], ga_fingerprints = [], ga_tables = []\<rparr>"

definition prepare ::
  "('v, 'w, 'j, 'l) host \<Rightarrow> contents \<Rightarrow> string \<Rightarrow> caller \<Rightarrow> nat option \<Rightarrow> (string, int) btmap \<Rightarrow> on_read_violation
     \<Rightarrow> (('j, 'l) world, prepared) step" where
  "prepare H g sql who partitions as_of v =
     then_do (lift (check_sql (h_parse_sql H) sql)) (\<lambda>_.
     then_do (lift (expand (h_sql H) sql)) (\<lambda>(expanded, searches).
     then_do (lift (df (h_table_refs H expanded))) (\<lambda>refs.
     then_do (gather H g who as_of v refs no_refs) (\<lambda>acc.
       lift (shape_query H g sql who partitions as_of expanded searches acc)))))"

section \<open>The plan that runs\<close>

datatype plan_to_run = Bare pplan | Suppressed suppress_exec

fun as_pplan :: "plan_to_run \<Rightarrow> pplan" where
  "as_pplan (Bare p) = p"
| "as_pplan (Suppressed x) = PNode ''SuppressExec'' [sx_input x]"

definition physical :: "('v, 'w, 'j, 'l) host \<Rightarrow> prepared \<Rightarrow> plan_to_run res" where
  "physical H p =
     and_then (df (h_physical H (pr_session p) (pr_plan p))) (\<lambda>plan.
       let plan = (case (pr_suppress_k p, pr_has_aggregate p) of
             (Some k, False) \<Rightarrow> Suppressed (suppress_exec_new (h_partitions H) k plan)
           | _ \<Rightarrow> Bare plan)
       in and_then (ensure_gated (as_pplan plan)) (\<lambda>_. Inr plan))"

record planned =
  pl_session :: session
  pl_plan :: plan_to_run
  pl_contracts :: "resolution list"
  pl_suppress_k :: "nat option"
  pl_charges :: "(string, f64) btmap"
  pl_budgets :: "(string, f64) btmap"

definition caller_key :: "caller \<Rightarrow> string" where
  "caller_key who = tenant who @ ''/'' @ caller_id who"

definition charge ::
  "('v, 'w, 'j, 'l) host \<Rightarrow> string \<Rightarrow> (string \<times> f64) list \<Rightarrow> (('j, 'l) world, (string, f64) btmap) step" where
  "charge H key charges =
     (\<lambda>w. case charge_all (h_ledger H) (Option.bind (bs_file (w_budgets w)) (h_write_error H)) (w_fs w) (w_budgets w) key charges of
        (s, Inl e) \<Rightarrow> Some (w\<lparr>w_budgets := s\<rparr>, Inl e)
      | (s, Inr (d, remaining)) \<Rightarrow> Some (w\<lparr>w_budgets := s, w_fs := d\<rparr>, Inr remaining))"

definition sum_charges :: "(string \<times> f64) list \<Rightarrow> (string, f64) btmap" where
  "sum_charges charges = fold (\<lambda>(budget, epsilon). bt_update (Fin 0) (\<lambda>x. f64_add x epsilon) budget) charges []"

definition plan_once ::
  "('v, 'w, 'j, 'l) host \<Rightarrow> prepared \<Rightarrow> caller \<Rightarrow> (('j, 'l) world, planned) step" where
  "plan_once H p who =
     then_do (lift (physical H p)) (\<lambda>plan.
     then_do (if pr_charges p = [] then give [] else charge H (caller_key who) (pr_charges p)) (\<lambda>budgets.
       give \<lparr>pl_session = pr_session p, pl_plan = plan, pl_contracts = pr_resolutions p,
             pl_suppress_k = pr_suppress_k p, pl_charges = sum_charges (pr_charges p), pl_budgets = budgets\<rparr>))"

text \<open>The stream a plan yields, and all of its batches.\<close>

definition execute ::
  "('v, 'w, 'j, 'l) host \<Rightarrow> session \<Rightarrow> plan_to_run \<Rightarrow> ('j, 'l) world \<Rightarrow> df_error + stream" where
  "execute H ss p w =
     (case p of
        Bare p \<Rightarrow> h_stream H ss p w
      | Suppressed x \<Rightarrow> map_sum id (suppress_execute (sx_k x)) (h_stream H ss (sx_input x) w))"

fun collect_stream :: "stream \<Rightarrow> df_error + batch list" where
  "collect_stream [] = Inr []"
| "collect_stream (Inl e # xs) = Inl e"
| "collect_stream (Inr b # xs) = map_sum id ((#) b) (collect_stream xs)"

definition collect ::
  "('v, 'w, 'j, 'l) host \<Rightarrow> session \<Rightarrow> plan_to_run \<Rightarrow> ('j, 'l) world \<Rightarrow> batch list res" where
  "collect H ss p w = and_then (df (execute H ss p w)) (\<lambda>xs. df (collect_stream xs))"

section \<open>Answers\<close>

record query_result =
  qr_schema :: schema
  qr_batches :: "batch list"
  qr_envelope :: envelope
  qr_signature :: "string option"

definition engine_sign :: "('v, 'w, 'j, 'l) host \<Rightarrow> envelope \<Rightarrow> string option res" where
  "engine_sign H env =
     (case h_signer H of
        None \<Rightarrow> Inr None
      | Some s \<Rightarrow> (case s env of Inl e \<Rightarrow> Inl (Signing e) | Inr j \<Rightarrow> Inr (Some j)))"

definition cache_look ::
  "('v, 'w, 'j, 'l) host \<Rightarrow> cache_key \<Rightarrow> (('j, 'l) world, batch list option) step" where
  "cache_look H key =
     (\<lambda>w. case w_cache w of
        None \<Rightarrow> Some (w, Inr None)
      | Some c \<Rightarrow> (case cache_get (h_lru H) (h_cache_config H) (h_secs H) key c of
            (bs, c') \<Rightarrow> Some (w\<lparr>w_cache := Some c'\<rparr>, Inr bs)))"

definition cache_keep ::
  "('v, 'w, 'j, 'l) host \<Rightarrow> cache_key \<Rightarrow> batch list \<Rightarrow> (('j, 'l) world, unit) step" where
  "cache_keep H key bs =
     (\<lambda>w. case w_cache w of
        None \<Rightarrow> Some (w, Inr ())
      | Some c \<Rightarrow> map_option (\<lambda>c'. (w\<lparr>w_cache := Some c'\<rparr>, Inr ()))
            (cache_put (h_lru H) (h_memory_size H) (h_cache_config H) (h_secs H) key bs c))"

abbreviation total_rows :: "batch list \<Rightarrow> nat" where
  "total_rows bs \<equiv> sum_list (map num_rows bs)"

definition cached_answer ::
  "('v, 'w, 'j, 'l) host \<Rightarrow> string \<Rightarrow> caller \<Rightarrow> string \<Rightarrow> prepared \<Rightarrow> batch list \<Rightarrow> query_result res" where
  "cached_answer H sql who audit_id p bs =
     (let env = \<lparr>en_caller = asker_of who, en_contracts = pr_resolutions p, en_rows = total_rows bs,
           en_suppress_k = pr_suppress_k p, en_charges = [], en_budgets = [], en_scan = no_scan,
           en_attestation = attestation_of (sha256 H) (h_ipc H) (h_now H) sql bs, en_audit_id = audit_id,
           en_cached = True\<rparr>
      in and_then (engine_sign H env) (\<lambda>signature.
           Inr \<lparr>qr_schema = (case bs of b # _ \<Rightarrow> batch_schema b | [] \<Rightarrow> h_plan_schema H (pr_plan p)),
                qr_batches = bs, qr_envelope = env, qr_signature = signature\<rparr>))"

definition fresh_answer ::
  "('v, 'w, 'j, 'l) host \<Rightarrow> string \<Rightarrow> caller \<Rightarrow> string \<Rightarrow> planned \<Rightarrow> batch list \<Rightarrow> ('j, 'l) world \<Rightarrow> query_result res" where
  "fresh_answer H sql who audit_id pl bs w =
     (let plan = as_pplan (pl_plan pl);
          env = \<lparr>en_caller = asker_of who, en_contracts = pl_contracts pl, en_rows = total_rows bs,
           en_suppress_k = pl_suppress_k pl, en_charges = pl_charges pl, en_budgets = pl_budgets pl,
           en_scan = from_plan (h_metrics H (pl_session pl) plan w),
           en_attestation = attestation_of (sha256 H) (h_ipc H) (h_now H) sql bs, en_audit_id = audit_id,
           en_cached = False\<rparr>
      in and_then (engine_sign H env) (\<lambda>signature.
           Inr \<lparr>qr_schema = h_physical_schema H plan, qr_batches = bs, qr_envelope = env, qr_signature = signature\<rparr>))"

definition run ::
  "('v, 'w, 'j, 'l) host \<Rightarrow> contents \<Rightarrow> string \<Rightarrow> caller \<Rightarrow> string \<Rightarrow> (string, int) btmap \<Rightarrow> on_read_violation
     \<Rightarrow> (('j, 'l) world, query_result) step" where
  "run H g sql who audit_id as_of v =
     then_do (prepare H g sql who None as_of v) (\<lambda>p.
     then_do (cache_look H (pr_key p)) (\<lambda>hit.
       case hit of
         Some bs \<Rightarrow> lift (cached_answer H sql who audit_id p bs)
       | None \<Rightarrow>
           then_do (plan_once H p who) (\<lambda>pl.
           then_do (look_res (collect H (pl_session pl) (pl_plan pl))) (\<lambda>bs.
           then_do (cache_keep H (pr_key p) bs) (\<lambda>_.
             look_res (fresh_answer H sql who audit_id pl bs))))))"

section \<open>The audit of a query\<close>

definition contract_ids :: "resolution list \<Rightarrow> string list" where
  "contract_ids rss =
     map (\<lambda>c. rs_contract c @ ''@'' @ show_nat (rs_version c) @ ''#'' @ rs_compilation_hash c) rss"

definition audit ::
  "('v, 'w, 'j, 'l) host \<Rightarrow> string \<Rightarrow> string \<Rightarrow> caller \<Rightarrow> audit_outcome \<Rightarrow> nat \<Rightarrow> (string, f64) btmap \<Rightarrow> string list
     \<Rightarrow> (('j, 'l) world, unit) step" where
  "audit H audit_id sql who outcome rows charges ids =
     (let r = \<lparr>a_id = audit_id, a_at = h_now H, a_caller_id = caller_id who, a_tenant = tenant who,
           a_purpose = purpose who, a_sql_sha256 = sha256 H sql, a_contracts = ids, a_outcome = outcome,
           a_rows = rows, a_elapsed_ms = h_elapsed_ms H, a_charges = charges\<rparr>
      in case h_audit_error H r of
           Some e \<Rightarrow> stop e
         | None \<Rightarrow> change (\<lambda>w. w\<lparr>w_audit := w_audit w @ [r]\<rparr>))"

text \<open>The outcome of an error.\<close>

definition failure_outcome :: "peql_error \<Rightarrow> audit_outcome" where
  "failure_outcome e = (if is_refusal e then RefusedFor (error_text e) else FailedWith (error_text e))"

definition audit_answer ::
  "('v, 'w, 'j, 'l) host \<Rightarrow> string \<Rightarrow> string \<Rightarrow> caller \<Rightarrow> query_result res \<Rightarrow> (('j, 'l) world, unit) step" where
  "audit_answer H audit_id sql who out =
     (case out of
        Inr r \<Rightarrow> audit H audit_id sql who Answered (en_rows (qr_envelope r)) (en_charges (qr_envelope r))
            (contract_ids (en_contracts (qr_envelope r)))
      | Inl e \<Rightarrow> audit H audit_id sql who (failure_outcome e) 0 [] [])"

definition audit_plan ::
  "('v, 'w, 'j, 'l) host \<Rightarrow> string \<Rightarrow> string \<Rightarrow> caller \<Rightarrow> planned res \<Rightarrow> (('j, 'l) world, unit) step" where
  "audit_plan H audit_id sql who out =
     (case out of
        Inr p \<Rightarrow> audit H audit_id sql who Planned 0 (pl_charges p) (contract_ids (pl_contracts p))
      | Inl e \<Rightarrow> audit H audit_id sql who (failure_outcome e) 0 [] [])"

section \<open>What an engine is asked\<close>

definition query_as_of ::
  "('v, 'w, 'j, 'l) host \<Rightarrow> contents \<Rightarrow> string \<Rightarrow> caller \<Rightarrow> (string, int) btmap \<Rightarrow> on_read_violation
     \<Rightarrow> (('j, 'l) world, query_result) step" where
  "query_as_of H g sql who as_of v =
     finally_do (run H g sql who (h_uuid H) as_of v) (audit_answer H (h_uuid H) sql who)"

definition query :: "('v, 'w, 'j, 'l) host \<Rightarrow> contents \<Rightarrow> string \<Rightarrow> caller \<Rightarrow> (('j, 'l) world, query_result) step" where
  "query H g sql who = query_as_of H g sql who [] RExclude"

definition plan_as_of ::
  "('v, 'w, 'j, 'l) host \<Rightarrow> contents \<Rightarrow> string \<Rightarrow> caller \<Rightarrow> nat option \<Rightarrow> (string, int) btmap \<Rightarrow> on_read_violation
     \<Rightarrow> (('j, 'l) world, planned) step" where
  "plan_as_of H g sql who partitions as_of v =
     finally_do (then_do (prepare H g sql who partitions as_of v) (\<lambda>p. plan_once H p who))
       (audit_plan H (h_uuid H) sql who)"

definition plan_for ::
  "('v, 'w, 'j, 'l) host \<Rightarrow> contents \<Rightarrow> string \<Rightarrow> caller \<Rightarrow> nat option \<Rightarrow> on_read_violation
     \<Rightarrow> (('j, 'l) world, planned) step" where
  "plan_for H g sql who partitions v = plan_as_of H g sql who partitions [] v"

definition select_all :: "string \<Rightarrow> string" where
  "select_all name = ''SELECT * FROM '' @ quoted name"

definition view_for ::
  "('v, 'w, 'j, 'l) host \<Rightarrow> contents \<Rightarrow> string \<Rightarrow> caller \<Rightarrow> nat option \<Rightarrow> on_read_violation
     \<Rightarrow> (('j, 'l) world, planned) step" where
  "view_for H g name who partitions v = plan_for H g (select_all name) who partitions v"

definition view_as_of ::
  "('v, 'w, 'j, 'l) host \<Rightarrow> contents \<Rightarrow> string \<Rightarrow> caller \<Rightarrow> int \<Rightarrow> nat option \<Rightarrow> on_read_violation
     \<Rightarrow> (('j, 'l) world, planned) step" where
  "view_as_of H g name who s partitions v = plan_as_of H g (select_all name) who partitions [(name, s)] v"

record checked =
  ck_schema :: schema
  ck_contracts :: "resolution list"

text \<open>A check that fails is audited as the query would be; one that passes is not.\<close>

definition check ::
  "('v, 'w, 'j, 'l) host \<Rightarrow> contents \<Rightarrow> string \<Rightarrow> caller \<Rightarrow> on_read_violation \<Rightarrow> (('j, 'l) world, checked) step" where
  "check H g sql who v =
     finally_do
       (then_do (prepare H g sql who None [] v) (\<lambda>p.
          give \<lparr>ck_schema = h_plan_schema H (pr_plan p), ck_contracts = pr_resolutions p\<rparr>))
       (\<lambda>out. case out of
          Inr _ \<Rightarrow> give ()
        | Inl e \<Rightarrow> audit H (h_uuid H) sql who (failure_outcome e) 0 [] [])"

definition explain :: "('v, 'w, 'j, 'l) host \<Rightarrow> contents \<Rightarrow> string \<Rightarrow> caller \<Rightarrow> (('j, 'l) world, string) step" where
  "explain H g sql who =
     then_do (prepare H g sql who None [] RExclude) (\<lambda>p.
     then_do (lift (physical H p)) (\<lambda>plan. give (h_display H (as_pplan plan))))"

section \<open>Answers through a file\<close>

text \<open>\<open>spool\<close>: the answer of the Flight service, written to a temporary file, hashed there and read back
  from it. The file's batches are \<open>None\<close> when nothing was written.\<close>

record spool_result =
  so_schema :: schema
  so_batches :: "batch list option"
  so_envelope :: envelope
  so_signature :: "string option"

definition spool_answer ::
  "('v, 'w, 'j, 'l) host \<Rightarrow> string \<Rightarrow> caller \<Rightarrow> string \<Rightarrow> planned \<Rightarrow> batch list \<Rightarrow> ('j, 'l) world \<Rightarrow> spool_result res" where
  "spool_answer H sql who audit_id pl bs w =
     (let plan = as_pplan (pl_plan pl);
          text = (case bs of [] \<Rightarrow> [] | b # _ \<Rightarrow> h_ipc H (batch_schema b) bs);
          env = \<lparr>en_caller = asker_of who, en_contracts = pl_contracts pl, en_rows = total_rows bs,
           en_suppress_k = pl_suppress_k pl, en_charges = pl_charges pl, en_budgets = pl_budgets pl,
           en_scan = from_plan (h_metrics H (pl_session pl) plan w),
           en_attestation = \<lparr>query_sha256 = sha256 H sql, result_sha256 = sha256 H text, at_time = h_now H\<rparr>,
           en_audit_id = audit_id, en_cached = False\<rparr>
      in and_then (engine_sign H env) (\<lambda>signature.
           Inr \<lparr>so_schema = h_physical_schema H plan, so_batches = (if text = [] then None else Some bs),
                so_envelope = env, so_signature = signature\<rparr>))"

text \<open>The loop over the stream: each batch is written as it comes; then the file is finished and hashed.\<close>

fun spool_stream :: "('v, 'w, 'j, 'l) host \<Rightarrow> batch list \<Rightarrow> stream \<Rightarrow> batch list res" where
  "spool_stream H acc [] = (case h_spool_finish H acc of Some e \<Rightarrow> Inl e | None \<Rightarrow> Inr acc)"
| "spool_stream H acc (Inl e # xs) = Inl (DataFusion e)"
| "spool_stream H acc (Inr b # xs) =
     (case h_spool_write H (acc @ [b]) of Some e \<Rightarrow> Inl (DataFusion e) | None \<Rightarrow> spool_stream H (acc @ [b]) xs)"

definition spool ::
  "('v, 'w, 'j, 'l) host \<Rightarrow> contents \<Rightarrow> string \<Rightarrow> caller \<Rightarrow> string \<Rightarrow> on_read_violation
     \<Rightarrow> (('j, 'l) world, spool_result) step" where
  "spool H g sql who audit_id v =
     then_do (prepare H g sql who None [] v) (\<lambda>p.
     then_do (plan_once H p who) (\<lambda>pl.
     then_do (lift (case h_spool_error H of Some e \<Rightarrow> Inl (Io e) | None \<Rightarrow> Inr ())) (\<lambda>_.
     then_do (look_res (\<lambda>w. and_then (df (execute H (pl_session pl) (pl_plan pl) w)) (spool_stream H []))) (\<lambda>bs.
       look_res (spool_answer H sql who audit_id pl bs)))))"

definition query_spooled ::
  "('v, 'w, 'j, 'l) host \<Rightarrow> contents \<Rightarrow> string \<Rightarrow> caller \<Rightarrow> on_read_violation
     \<Rightarrow> (('j, 'l) world, spool_result) step" where
  "query_spooled H g sql who v =
     finally_do (spool H g sql who (h_uuid H) v)
       (\<lambda>out. case out of
          Inr r \<Rightarrow> audit H (h_uuid H) sql who Answered (en_rows (so_envelope r)) (en_charges (so_envelope r))
            (contract_ids (en_contracts (so_envelope r)))
        | Inl e \<Rightarrow> audit H (h_uuid H) sql who (failure_outcome e) 0 [] [])"

end
