(* ===== verification/Dataset_Facts.thy ===== *)
theory Dataset_Facts
  imports Dataset
begin

text \<open>
  What is known of a contract's data after a validation, and when nothing is: the facts a read is decided
  by are those of the last validation, wherever they are kept.
\<close>

section \<open>Lemmas\<close>

lemma iceberg_snapshot_Inr:
  "iceberg_snapshot k name so w = Inr (t, s) \<Longrightarrow>
     w_catalog w k = Inr (Some t) \<and> (so = Some s \<or> so = None \<and> it_current t = Some s)"
  by (cases so) (auto simp: iceberg_snapshot_def and_then_eq_Inr ok_or_def split: if_splits option.split_asm)

lemma whole_Inr:
  assumes "whole H g name plan s w = Some (w', Inr (v, es))" and "get_contract g name = Inr reg"
    and "host_bound H reg = Inr b"
  shows "w' = w \<and> (case b of
       BoundFiles (IcebergAt k) \<Rightarrow> \<exists>t sn. iceberg_snapshot k name s w = Inr (t, sn) \<and> dv_snapshot v = Some sn
     | _ \<Rightarrow> s = None \<and> dv_snapshot v = None)"
proof (cases b)
  case (BoundTable x)
  with assms show ?thesis
    by (auto simp: whole_def Let_def then_do_Inr step_sides validate_in_def step_runs(1,2) split: if_splits)
next
  case (BoundFiles l)
  show ?thesis
  proof (cases l)
    case (Local dir)
    with assms BoundFiles show ?thesis
      by (auto simp: whole_def Let_def then_do_Inr step_sides validate_in_def local_entries_def step_runs(1,2) split: if_splits)
  next
    case (ObjectAt ol)
    with assms BoundFiles show ?thesis
      by (auto simp: whole_def Let_def then_do_Inr step_sides validate_in_def object_entries_def step_runs(1,2) split: if_splits)
  next
    case (IcebergAt k)
    with assms(1) BoundFiles assms(2,3) obtain t sn where
      "iceberg_snapshot k name s w = Inr (t, sn)" "w' = w" "dv_snapshot v = Some sn"
      by (auto simp: whole_def Let_def then_do_Inr step_sides validate_in_def step_runs(1,2) split: prod.splits)
    with IcebergAt BoundFiles show ?thesis by simp
  qed
qed

lemma refresh_Inr:
  assumes "refresh H g name t s w = Some (w', Inr (v, m))" and "get_contract g name = Inr reg"
    and "host_bound H reg = Inr b"
  obtains l es where "b = BoundFiles l"
    and "whole H g name (h_validation_plan H (r_compilation reg)) s w = Some (w, Inr (v, es))"
    and "m = validated_manifest (contract (r_compilation reg)) v es t (h_now H) (dv_snapshot v)"
    and "record_facts H name l v m w = Some (w', Inr ())"
proof (cases b)
  case (BoundTable x)
  with assms show ?thesis by (simp add: refresh_def then_do_def lift_def stop_def)
next
  case (BoundFiles l)
  from assms(1) obtain w1 es where
    who: "whole H g name (h_validation_plan H (r_compilation reg)) s w = Some (w1, Inr (v, es))"
    and m: "m = validated_manifest (contract (r_compilation reg)) v es t (h_now H) (dv_snapshot v)"
    and rec: "record_facts H name l v m w1 = Some (w', Inr ())"
    using assms(2,3) BoundFiles by (auto simp: refresh_def Let_def then_do_Inr step_sides step_runs(1,2))
  from whole_Inr [OF who assms(2,3)] have "w1 = w" by simp
  with that [OF BoundFiles] who m rec show ?thesis by simp
qed

lemma validated_manifest_simps [simp]:
  "m_snapshot (validated_manifest cc v es t n s) = s" "m_contract (validated_manifest cc v es t n s) = cc_name cc"
  by (simp_all add: validated_manifest_def)

text \<open>Recorded facts are the facts read next, where the data is.\<close>

lemma recorded_facts_read:
  assumes rec: "record_facts H name l v m w = Some (w', Inr ())" and laws: "codec_laws (fe_facts (h_facts H))"
    and reg: "get_contract g name = Inr reg" and b: "host_bound H reg = Inr (BoundFiles l)" and m: "m_contract m = name"
    and current: "\<And>k t s. l = IcebergAt k \<Longrightarrow> iceberg_snapshot k name (dv_snapshot v) w = Inr (t, s) \<Longrightarrow> it_current t = Some s"
  shows "engine_manifest H g name w' = Inr (Some m)"
proof (cases l)
  case (Local dir)
  with rec obtain d where d: "save_local_manifest H dir m (w_fs w) = (d, Inr ())" and w': "w' = w\<lparr>w_fs := d\<rparr>"
    by (auto simp: record_facts_def step_sides)
  from d have "save_manifest (fe_facts (h_facts H)) (h_write_error H (manifest_path dir (m_contract m))) (w_fs w) dir m = Inr d"
    by (simp add: save_local_manifest_def split: sum.splits)
  from saved_manifest_loads [OF laws this, of name] reg b Local m w' show ?thesis by (simp add: engine_manifest_def)
next
  case (ObjectAt ol)
  with rec obtain d where "w' = w\<lparr>w_fs := d, object_manifests := (object_manifests w)(name \<mapsto> m)\<rparr>"
    by (auto simp: record_facts_def then_do_Inr step_sides step_runs)
  with reg b ObjectAt show ?thesis by (simp add: engine_manifest_def)
next
  case (IcebergAt k)
  with rec obtain t sn d where sn: "iceberg_snapshot k name (dv_snapshot v) w = Inr (t, sn)"
    and fin: "(if it_current t = Some sn then change (\<lambda>w. w\<lparr>iceberg_manifests := (iceberg_manifests w)(name \<mapsto> m)\<rparr>) else give ())
        (w\<lparr>w_fs := d\<rparr>) = Some (w', Inr ())"
    by (auto simp: record_facts_def then_do_Inr step_sides split: prod.splits)
  from fin current [OF IcebergAt sn] have "w' = w\<lparr>w_fs := d, iceberg_manifests := (iceberg_manifests w)(name \<mapsto> m)\<rparr>"
    by (simp add: step_runs)
  with reg b IcebergAt show ?thesis by (simp add: engine_manifest_def)
qed

text \<open>The facts a validation makes are those of the snapshot asked for.\<close>

lemma refresh_snapshot:
  assumes "refresh H g name t (Some sn) w = Some (w', Inr (v, m))" and "get_contract g name = Inr reg"
    and "host_bound H reg = Inr b"
  shows "m_snapshot m = Some sn"
  using assms
proof (rule refresh_Inr)
  fix l es
  assume l: "b = BoundFiles l" and who: "whole H g name (h_validation_plan H (r_compilation reg)) (Some sn) w = Some (w, Inr (v, es))"
    and m: "m = validated_manifest (contract (r_compilation reg)) v es t (h_now H) (dv_snapshot v)"
  from whole_Inr [OF who assms(2,3)] have "dv_snapshot v = Some sn"
    by (cases b; cases l) (auto simp: l dest!: iceberg_snapshot_Inr)
  with m show ?thesis by simp
qed

section \<open>Properties\<close>

text \<open>
  The facts a validation made are the facts the next read is decided by: after \<open>validate\<close>, wherever the
  contract's data and facts are kept, the engine knows the contract's data by a manifest that holds the
  verdict it answered, under the contract's present rules.
\<close>

theorem validated_is_known:
  assumes "engine_validate H g name w = Some (w', Inr v)" and "codec_laws (fe_facts (h_facts H))"
    and "get_contract g name = Inr reg" and "cc_name (contract (r_compilation reg)) = name"
  shows "\<exists>m. engine_manifest H g name w' = Inr (Some m) \<and> m_row_count m = v_row_count (dv_verdict v)
     \<and> m_failures m = v_failures (dv_verdict v) \<and> m_breached m = v_breached (dv_verdict v)
     \<and> m_valid m = v_valid (dv_verdict v) \<and> m_data_hash m = dv_data_hash v \<and> m_snapshot m = dv_snapshot v
     \<and> m_contract_hash m = contract_hash (contract (r_compilation reg))"
proof -
  from assms(1,3) obtain b where b: "host_bound H reg = Inr b"
    by (auto simp: engine_validate_def then_do_Inr step_sides)
  show ?thesis
  proof (cases b)
    case (BoundTable x)
    with assms(1,3) b obtain es w1 where
      who: "whole H g name (h_validation_plan H (r_compilation reg)) None w = Some (w1, Inr (v, es))"
      and w': "w' = w1\<lparr>table_manifests := (table_manifests w1)
        (name \<mapsto> validated_manifest (contract (r_compilation reg)) v [] (h_now H) (h_now H) None)\<rparr>"
      by (auto simp: engine_validate_def Let_def then_do_Inr step_sides step_runs)
    from whole_Inr [OF who assms(3) b] BoundTable have "dv_snapshot v = None" by simp
    with w' assms(3) b BoundTable show ?thesis by (simp add: engine_manifest_def validated_manifest_def)
  next
    case (BoundFiles l)
    with assms(1,3) b obtain m where re: "refresh H g name (h_now H) None w = Some (w', Inr (v, m))"
      by (auto simp: engine_validate_def then_do_Inr step_sides step_runs(1,2))
    from re assms(3) b obtain l' es where l': "b = BoundFiles l'"
      and who: "whole H g name (h_validation_plan H (r_compilation reg)) None w = Some (w, Inr (v, es))"
      and m: "m = validated_manifest (contract (r_compilation reg)) v es (h_now H) (h_now H) (dv_snapshot v)"
      and rec: "record_facts H name l' v m w = Some (w', Inr ())" by (rule refresh_Inr)
    have "engine_manifest H g name w' = Inr (Some m)"
    proof (rule recorded_facts_read [OF rec assms(2,3)])
      fix k t s assume k: "l' = IcebergAt k" and sn: "iceberg_snapshot k name (dv_snapshot v) w = Inr (t, s)"
      with whole_Inr [OF who assms(3) b] l' obtain t' sn' where
        "iceberg_snapshot k name None w = Inr (t', sn')" "dv_snapshot v = Some sn'" by auto
      with sn show "it_current t = Some s" by (auto dest!: iceberg_snapshot_Inr)
    qed (use b l' m assms(4) in simp_all)
    with m show ?thesis by (simp add: validated_manifest_def)
  qed
qed

text \<open>
  Facts are missing only where data is: once \<open>ensure_manifest\<close> has returned, a contract bound to files
  whose data the engine does not know has no data file, or no table, or a table without a snapshot.
\<close>

theorem ensured_data_is_known:
  assumes "ensure_manifest H g name w = Some (w', Inr ())" and "engine_manifest H g name w' = Inr None"
    and "codec_laws (fe_facts (h_facts H))" and "get_contract g name = Inr reg"
    and "cc_name (contract (r_compilation reg)) = name" and "host_bound H reg = Inr (BoundFiles l)"
  shows "case l of
      Local dir \<Rightarrow> list_files (w_trees w dir) = Inr []
    | ObjectAt ol \<Rightarrow> obj_list_files (w_objects w (store_url ol)) ol = []
    | IcebergAt k \<Rightarrow> w_catalog w k = Inr None \<or> (\<exists>t. w_catalog w k = Inr (Some t) \<and> it_current t = None)"
proof -
  have no_refresh: False if re: "refresh H g name t so w1 = Some (w', Inr (v, m))"
    and so: "\<And>k t s s'. l = IcebergAt k \<Longrightarrow> iceberg_snapshot k name so w1 = Inr (t, s) \<Longrightarrow> it_current t = Some s"
    for t so w1 v m
  proof -
    from re assms(4,6) obtain l' es where l': "BoundFiles l = BoundFiles l'"
      and who: "whole H g name (h_validation_plan H (r_compilation reg)) so w1 = Some (w1, Inr (v, es))"
      and m: "m = validated_manifest (contract (r_compilation reg)) v es t (h_now H) (dv_snapshot v)"
      and rec: "record_facts H name l' v m w1 = Some (w', Inr ())" by (rule refresh_Inr)
    have "engine_manifest H g name w' = Inr (Some m)"
    proof (rule recorded_facts_read [OF rec assms(3,4)])
      fix k t s assume k: "l' = IcebergAt k" and sn: "iceberg_snapshot k name (dv_snapshot v) w1 = Inr (t, s)"
      with whole_Inr [OF who assms(4,6)] l' obtain t' sn' where
        t': "iceberg_snapshot k name so w1 = Inr (t', sn')" "dv_snapshot v = Some sn'" by auto
      with so [OF _ t'(1)] k l' sn show "it_current t = Some s" by (auto dest!: iceberg_snapshot_Inr)
    qed (use assms(5,6) l' m in simp_all)
    with assms(2) show False by simp
  qed
  show ?thesis
  proof (cases l)
    case (Local dir)
    with assms(1,2,4,6) no_refresh show ?thesis
      by (auto simp: ensure_manifest_def then_do_Inr step_sides step_runs(1,2) engine_manifest_def split: if_splits)
  next
    case (ObjectAt ol)
    with assms(1,2,4,6) no_refresh show ?thesis
      by (auto simp: ensure_manifest_def then_do_Inr step_sides step_runs(1,2,4,6) engine_manifest_def
        split: if_splits option.split_asm)
  next
    case (IcebergAt k)
    show ?thesis
    proof (rule ccontr)
      assume none: "\<not> ?thesis"
      from assms(1,4,6) IcebergAt obtain to where "w_catalog w k = Inr to"
        by (auto simp: ensure_manifest_def then_do_Inr step_sides)
      with none IcebergAt obtain t s where t: "w_catalog w k = Inr (Some t)" "it_current t = Some s"
        by (cases to) auto
      with assms(1,4,6) IcebergAt obtain w1 mo where ef: "engine_facts H t s reg w = Some (w1, Inr mo)"
        and rest: "(case mo of Some m \<Rightarrow> change (\<lambda>w. w\<lparr>iceberg_manifests := (iceberg_manifests w)(name \<mapsto> m)\<rparr>)
          | None \<Rightarrow> then_do (refresh H g name (h_now H) (Some s)) (\<lambda>_. give ())) w1 = Some (w', Inr ())"
        by (auto simp: ensure_manifest_def then_do_Inr step_sides)
      from ef have w1: "w_catalog w1 = w_catalog w" by (auto simp: engine_facts_def)
      show False
      proof (cases mo)
        case None
        with rest obtain v m where re: "refresh H g name (h_now H) (Some s) w1 = Some (w', Inr (v, m))"
          by (auto simp: then_do_Inr step_runs(1))
        from re show False
        proof (rule no_refresh)
          fix k' t' s' assume "l = IcebergAt k'" "iceberg_snapshot k' name (Some s) w1 = Inr (t', s')"
          with t w1 IcebergAt show "it_current t' = Some s'" by (auto dest: iceberg_snapshot_Inr)
        qed
      next
        case (Some m)
        with rest assms(2,4,6) IcebergAt show False by (auto simp: engine_manifest_def step_runs)
      qed
    qed
  qed
qed

text \<open>
  In an object store the facts outlive the data: when a contract's files and recorded facts are both
  gone from the store, \<open>ensure_manifest\<close> changes nothing, and the engine goes on knowing the data by the
  facts it last read, where the other bindings know that there is no data.
\<close>

theorem object_facts_outlive_data:
  assumes "get_contract g name = Inr reg" and "host_bound H reg = Inr (BoundFiles (ObjectAt ol))"
    and "load_object_manifest H ol name (w_fs w) = Inr None" and "obj_list_files (w_objects w (store_url ol)) ol = []"
  shows "ensure_manifest H g name w = Some (w, Inr ()) \<and> engine_manifest H g name w = Inr (object_manifests w name)"
  using assms
  by (simp_all add: ensure_manifest_def engine_manifest_def then_do_def lift_def look_res_def look_def give_def)

end
