(* ===== verification/Query_Safety.thy ===== *)
theory Query_Safety
  imports Query Dataset_Facts
begin

text \<open>
  What asking an engine may and may not do: whose contracts an answer depends on, what is charged and
  when, what is recorded, and what a withheld result releases. First, what each operation leaves alone.
\<close>

section \<open>What is left alone\<close>

definition beside_facts :: "(('j, 'l) world \<Rightarrow> 'a) \<Rightarrow> bool" where
  "beside_facts f \<longleftrightarrow> (\<forall>w d. f (w\<lparr>w_fs := d\<rparr>) = f w) \<and> (\<forall>w m. f (w\<lparr>table_manifests := m\<rparr>) = f w)
     \<and> (\<forall>w m. f (w\<lparr>object_manifests := m\<rparr>) = f w) \<and> (\<forall>w m. f (w\<lparr>iceberg_manifests := m\<rparr>) = f w)"

lemma beside_factsD:
  assumes "beside_facts f"
  shows "f (w\<lparr>w_fs := d\<rparr>) = f w" "f (w\<lparr>table_manifests := m\<rparr>) = f w"
    "f (w\<lparr>object_manifests := m\<rparr>) = f w" "f (w\<lparr>iceberg_manifests := m\<rparr>) = f w"
  using assms by (simp_all add: beside_facts_def)

lemma beside_facts_simps [simp]: "beside_facts w_budgets" "beside_facts w_audit" "beside_facts w_cache"
  by (simp_all add: beside_facts_def)

lemma keeps_engine_facts [keeps_intros]: "beside_facts f \<Longrightarrow> keeps f (engine_facts H t s reg)"
  by (auto simp: keeps_def engine_facts_def beside_factsD)

lemma keeps_on_facts [keeps_intros]: "beside_facts f \<Longrightarrow> keeps f (on_fs h)"
  by (auto simp: keeps_def on_fs_def beside_factsD split: prod.splits)

lemma keeps_change_facts [keeps_intros]:
  assumes "beside_facts f"
  shows "keeps f (change (\<lambda>w. w\<lparr>table_manifests := m w\<rparr>))" "keeps f (change (\<lambda>w. w\<lparr>object_manifests := m w\<rparr>))"
    "keeps f (change (\<lambda>w. w\<lparr>iceberg_manifests := m w\<rparr>))"
  by (simp_all add: keeps_def step_simps beside_factsD [OF assms])

lemma keeps_let [keeps_intros]: "keeps f (k x) \<Longrightarrow> keeps f (Let x k)"
  by simp

lemma keeps_cases [keeps_intros]:
  "(o' = None \<Longrightarrow> keeps f a) \<Longrightarrow> (\<And>y. o' = Some y \<Longrightarrow> keeps f (b y)) \<Longrightarrow> keeps f (case o' of None \<Rightarrow> a | Some y \<Rightarrow> b y)"
  "(\<And>y z. p = (y, z) \<Longrightarrow> keeps f (c y z)) \<Longrightarrow> keeps f (case p of (y, z) \<Rightarrow> c y z)"
  "(\<And>t. bd = BoundTable t \<Longrightarrow> keeps f (d t)) \<Longrightarrow> (\<And>l. bd = BoundFiles l \<Longrightarrow> keeps f (e l))
     \<Longrightarrow> keeps f (case bd of BoundTable t \<Rightarrow> d t | BoundFiles l \<Rightarrow> e l)"
  "(\<And>x. l' = Local x \<Longrightarrow> keeps f (g x)) \<Longrightarrow> (\<And>x. l' = ObjectAt x \<Longrightarrow> keeps f (h x)) \<Longrightarrow> (\<And>x. l' = IcebergAt x \<Longrightarrow> keeps f (i x))
     \<Longrightarrow> keeps f (case l' of Local x \<Rightarrow> g x | ObjectAt x \<Rightarrow> h x | IcebergAt x \<Rightarrow> i x)"
  "(\<And>x. r = Inl x \<Longrightarrow> keeps f (j x)) \<Longrightarrow> (\<And>x. r = Inr x \<Longrightarrow> keeps f (k x)) \<Longrightarrow> keeps f (case r of Inl x \<Rightarrow> j x | Inr x \<Rightarrow> k x)"
  by (simp_all split: option.split prod.split bound.split location.split sum.split)

lemma keeps_whole [keeps_intros]: "keeps f (whole H g name plan s)"
  unfolding whole_def validate_in_def local_entries_def object_entries_def by (intro keeps_intros)

lemma keeps_refresh [keeps_intros]: "beside_facts f \<Longrightarrow> keeps f (refresh H g name t s)"
  unfolding refresh_def record_facts_def by (intro keeps_intros)

lemma keeps_ensure_manifest [keeps_intros]: "beside_facts f \<Longrightarrow> keeps f (ensure_manifest H g name)"
  unfolding ensure_manifest_def by (intro keeps_intros)

lemma keeps_ensure_manifest_as_of [keeps_intros]: "beside_facts f \<Longrightarrow> keeps f (ensure_manifest_as_of H g name s)"
  unfolding ensure_manifest_as_of_def manifest_as_of_def by (intro keeps_intros)

lemma keeps_one_ref [keeps_intros]: "beside_facts f \<Longrightarrow> keeps f (one_ref H g who as_of v t acc)"
  unfolding one_ref_def resolve_ref_def engine_resolve_def engine_view_def by (intro keeps_intros)

lemma keeps_gather [keeps_intros]: "beside_facts f \<Longrightarrow> keeps f (gather H g who as_of v ts acc)"
  by (induction ts arbitrary: acc) (auto intro!: keeps_intros)

lemma keeps_prepare [keeps_intros]: "beside_facts f \<Longrightarrow> keeps f (prepare H g sql who n as_of v)"
  unfolding prepare_def by (intro keeps_intros)

section \<open>Whose contracts an answer depends on\<close>

text \<open>Two stores that show the caller the same contracts.\<close>

definition same_view :: "contents \<Rightarrow> contents \<Rightarrow> caller \<Rightarrow> bool" where
  "same_view g g' who \<longleftrightarrow> (\<forall>n. visible g n who = visible g' n who)"

lemma same_viewD: "same_view g g' who \<Longrightarrow> visible g n who = visible g' n who"
  by (simp add: same_view_def)

text \<open>The operations on one contract's data look its name up and nothing else.\<close>

lemma same_contract:
  assumes "get_contract g name = get_contract g' name"
  shows "engine_manifest H g name = engine_manifest H g' name"
    and "manifest_as_of H g name sn = manifest_as_of H g' name sn"
    and "whole H g name plan s = whole H g' name plan s"
    and "refresh H g name t s = refresh H g' name t s"
proof -
  show whole: "whole H g name plan s = whole H g' name plan s" for plan s
    unfolding whole_def assms ..
  show "engine_manifest H g name = engine_manifest H g' name"
    unfolding engine_manifest_def assms ..
  show "manifest_as_of H g name sn = manifest_as_of H g' name sn"
    unfolding manifest_as_of_def assms ..
  show "refresh H g name t s = refresh H g' name t s"
    unfolding refresh_def assms whole ..
qed

lemma same_facts:
  assumes "get_contract g name = get_contract g' name"
  shows "ensure_manifest H g name = ensure_manifest H g' name"
    and "ensure_manifest_as_of H g name s = ensure_manifest_as_of H g' name s"
  unfolding ensure_manifest_def ensure_manifest_as_of_def assms same_contract [OF assms] by (rule refl)+

lemma same_resolve:
  assumes "same_view g g' who"
  shows "resolve_with R g bnd u name who v m = resolve_with R g' bnd u name who v m"
    and "contract_view R g bnd p name who rs = contract_view R g' bnd p name who rs"
    and "describe R g name who = describe R g' name who"
  unfolding resolve_with_def contract_view_def describe_def same_viewD [OF assms] by (rule refl)+

lemma same_one_ref:
  assumes "same_view g g' who"
  shows "one_ref H g who as_of v t acc = one_ref H g' who as_of v t acc"
proof (cases "visible g (tr_table t) who")
  case (Inl e)
  with same_viewD [OF assms] have "visible g' (tr_table t) who = Inl e" by simp
  with Inl show ?thesis by (simp add: one_ref_def Let_def lift_def then_do_def)
next
  case (Inr r)
  with same_viewD [OF assms] have "visible g' (tr_table t) who = Inr r" by simp
  then have get: "get_contract g (tr_table t) = get_contract g' (tr_table t)"
    using get_of_visible Inr by metis
  show ?thesis
    unfolding one_ref_def resolve_ref_def engine_resolve_def engine_view_def Let_def same_viewD [OF assms]
      same_facts [OF get] same_contract [OF get] same_resolve [OF assms] get ..
qed

lemma same_prepare:
  assumes "same_view g g' who"
  shows "prepare H g sql who n as_of v = prepare H g' sql who n as_of v"
proof -
  have "gather H g who as_of v ts acc = gather H g' who as_of v ts acc" for ts acc
    by (induction ts arbitrary: acc) (auto simp: same_one_ref [OF assms] intro!: then_do_eq)
  moreover have "check_search H g who acc = check_search H g' who acc" for acc
    by (simp add: fun_eq_iff check_search_def same_resolve [OF assms])
  ultimately show ?thesis by (simp add: prepare_def shape_query_def)
qed

text \<open>
  C6. A contract a caller may not see has no influence on anything they ask: over two stores that show them
  the same contracts, every query, plan, check, explanation and spooled answer is the same, errors, charges,
  audit records and everything the engine keeps included.
\<close>

theorem hidden_contracts_do_not_matter:
  assumes "\<forall>n. visible g n who = visible g' n who"
  shows "query_as_of H g sql who as_of v = query_as_of H g' sql who as_of v
     \<and> plan_as_of H g sql who n as_of v = plan_as_of H g' sql who n as_of v
     \<and> check H g sql who v = check H g' sql who v
     \<and> explain H g sql who = explain H g' sql who
     \<and> query_spooled H g sql who v = query_spooled H g' sql who v"
  by (simp add: query_as_of_def run_def plan_as_of_def check_def explain_def query_spooled_def spool_def
    same_prepare [OF assms [folded same_view_def]])

section \<open>How an answer comes about\<close>

lemma run_Inr:
  assumes "run H g sql who i as_of v w = Some (w', Inr x)"
  obtains (cached) w1 p bs where "prepare H g sql who None as_of v w = Some (w1, Inr p)"
      and "cache_look H (pr_key p) w1 = Some (w', Inr (Some bs))" and "cached_answer H sql who i p bs = Inr x"
  | (fresh) w1 p w2 w3 pl bs where "prepare H g sql who None as_of v w = Some (w1, Inr p)"
      and "cache_look H (pr_key p) w1 = Some (w2, Inr None)" and "plan_once H p who w2 = Some (w3, Inr pl)"
      and "collect H (pl_session pl) (pl_plan pl) w3 = Inr bs" and "cache_keep H (pr_key p) bs w3 = Some (w', Inr ())"
      and "fresh_answer H sql who i pl bs w' = Inr x"
proof -
  from assms obtain w1 p w2 hit where p: "prepare H g sql who None as_of v w = Some (w1, Inr p)"
    and hit: "cache_look H (pr_key p) w1 = Some (w2, Inr hit)"
    and rest: "(case hit of Some bs \<Rightarrow> lift (cached_answer H sql who i p bs)
       | None \<Rightarrow> then_do (plan_once H p who) (\<lambda>pl.
           then_do (look_res (collect H (pl_session pl) (pl_plan pl))) (\<lambda>bs.
           then_do (cache_keep H (pr_key p) bs) (\<lambda>_. look_res (fresh_answer H sql who i pl bs))))) w2 = Some (w', Inr x)"
    unfolding run_def then_do_Inr by blast
  show ?thesis
  proof (cases hit)
    case (Some bs)
    with rest hit show ?thesis by (intro cached [OF p]) (auto simp: step_sides)
  next
    case None
    with rest obtain w3 pl bs where "plan_once H p who w2 = Some (w3, Inr pl)"
      "collect H (pl_session pl) (pl_plan pl) w3 = Inr bs" "cache_keep H (pr_key p) bs w3 = Some (w', Inr ())"
      "fresh_answer H sql who i pl bs w' = Inr x"
      by (auto simp: then_do_Inr step_sides)
    with hit None show ?thesis by (intro fresh [OF p]) auto
  qed
qed

lemma cache_steps_succeed:
  "cache_look H k w \<noteq> Some (w', Inl e)" "cache_keep H k bs w \<noteq> Some (w', Inl e)"
  by (auto simp: cache_look_def cache_keep_def split: option.splits prod.splits)

lemma late_errors:
  "collect H ss p w = Inl e \<Longrightarrow> \<exists>d. e = DataFusion d"
  "fresh_answer H sql who i pl bs w = Inl e \<Longrightarrow> \<exists>t. e = Signing t"
  "cached_answer H sql who i p' bs = Inl e \<Longrightarrow> \<exists>t. e = Signing t"
  by (auto simp: collect_def df_def fresh_answer_def cached_answer_def engine_sign_def Let_def and_then_eq_Inl
    split: option.splits sum.splits)

lemma run_Inl:
  assumes "run H g sql who i as_of v w = Some (w', Inl e)"
  obtains (prepare) "prepare H g sql who None as_of v w = Some (w', Inl e)"
  | (plan) w1 p w2 where "prepare H g sql who None as_of v w = Some (w1, Inr p)"
      and "cache_look H (pr_key p) w1 = Some (w2, Inr None)" and "plan_once H p who w2 = Some (w', Inl e)"
  | (late) w1 p where "prepare H g sql who None as_of v w = Some (w1, Inr p)"
      and "(\<exists>d. e = DataFusion d) \<or> (\<exists>t. e = Signing t)"
proof (cases "prepare H g sql who None as_of v w = Some (w', Inl e)")
  case False
  with assms obtain w1 p w2 hit where p: "prepare H g sql who None as_of v w = Some (w1, Inr p)"
    and hit: "cache_look H (pr_key p) w1 = Some (w2, Inr hit)"
    and rest: "(case hit of Some bs \<Rightarrow> lift (cached_answer H sql who i p bs)
       | None \<Rightarrow> then_do (plan_once H p who) (\<lambda>pl.
           then_do (look_res (collect H (pl_session pl) (pl_plan pl))) (\<lambda>bs.
           then_do (cache_keep H (pr_key p) bs) (\<lambda>_. look_res (fresh_answer H sql who i pl bs))))) w2 = Some (w', Inl e)"
    unfolding run_def then_do_Inl using cache_steps_succeed(1) by blast
  show ?thesis
  proof (cases "hit = None \<and> plan_once H p who w2 = Some (w', Inl e)")
    case True
    with hit show ?thesis by (intro plan [OF p]) auto
  next
    case False
    with rest have "(\<exists>d. e = DataFusion d) \<or> (\<exists>t. e = Signing t)"
      by (cases hit) (auto simp: then_do_Inl step_sides cache_steps_succeed dest: late_errors)
    then show ?thesis by (rule late [OF p])
  qed
qed (rule prepare)

lemma plan_once_Inr:
  assumes "plan_once H p who w = Some (w', Inr pl)"
  shows "physical H p = Inr (pl_plan pl) \<and> pl_session pl = pr_session p \<and> pl_contracts pl = pr_resolutions p
     \<and> pl_suppress_k pl = pr_suppress_k p \<and> pl_charges pl = sum_charges (pr_charges p)
     \<and> (if pr_charges p = [] then w' = w \<and> pl_budgets pl = []
         else charge H (caller_key who) (pr_charges p) w = Some (w', Inr (pl_budgets pl)))"
proof -
  from assms obtain plan budgets where phys: "physical H p = Inr plan"
    and ch: "(if pr_charges p = [] then give [] else charge H (caller_key who) (pr_charges p)) w = Some (w', Inr budgets)"
    and pl: "pl = \<lparr>pl_session = pr_session p, pl_plan = plan, pl_contracts = pr_resolutions p,
             pl_suppress_k = pr_suppress_k p, pl_charges = sum_charges (pr_charges p), pl_budgets = budgets\<rparr>"
    unfolding plan_once_def then_do_Inr step_sides step_runs(1) by blast
  then show ?thesis by (auto simp: pl step_runs)
qed

lemma charge_all_refused_unchanged:
  assumes "charge_all J err d s c chs = (s', Inl e)" and "is_refusal e"
  shows "s' = s"
proof (cases "find (over_limit s c) chs")
  case None
  have "\<not> is_refusal e'" if "save_ledger J err d s1 = Inl e'" for s1 e'
    using that by (auto simp: save_ledger_def split: option.splits sum.splits)
  with assms None show ?thesis
    by (auto simp: charge_all_def and_then_eq_Inl split: prod.splits)
next
  case (Some ch)
  with assms show ?thesis by (cases ch) (auto simp: charge_all_refused)
qed

lemma charge_Inr:
  assumes "charge H key cs w = Some (w', Inr remaining)"
  shows "\<exists>d. charge_all (h_ledger H) (Option.bind (bs_file (w_budgets w)) (h_write_error H)) (w_fs w) (w_budgets w) key cs
      = (w_budgets w', Inr (d, remaining)) \<and> w' = w\<lparr>w_budgets := w_budgets w', w_fs := d\<rparr>"
  using assms
  by (cases "charge_all (h_ledger H) (Option.bind (bs_file (w_budgets w)) (h_write_error H)) (w_fs w) (w_budgets w) key cs")
    (auto simp: charge_def split: sum.splits)

lemma charge_Inl:
  assumes "charge H key cs w = Some (w', Inl e)"
  shows "charge_all (h_ledger H) (Option.bind (bs_file (w_budgets w)) (h_write_error H)) (w_fs w) (w_budgets w) key cs
      = (w_budgets w', Inl e) \<and> w' = w\<lparr>w_budgets := w_budgets w'\<rparr>"
  using assms
  by (cases "charge_all (h_ledger H) (Option.bind (bs_file (w_budgets w)) (h_write_error H)) (w_fs w) (w_budgets w) key cs")
    (auto simp: charge_def split: sum.splits)

lemma keeps_charge [keeps_intros]: "keeps w_audit (charge H key cs)" "keeps w_cache (charge H key cs)"
  unfolding keeps_def charge_def by (simp_all split: prod.split sum.split)

lemma keeps_plan_once [keeps_intros]: "keeps w_audit (plan_once H p who)"
  unfolding plan_once_def by (intro keeps_intros)

lemma keeps_cache_steps [keeps_intros]:
  "keeps w_audit (cache_look H k)" "keeps w_audit (cache_keep H k bs)"
  "keeps w_budgets (cache_look H k)" "keeps w_budgets (cache_keep H k bs)"
  unfolding keeps_def cache_look_def cache_keep_def by (auto split: option.split prod.split)

lemma keeps_audit [keeps_intros]: "keeps w_budgets (audit H i sql who out n cs ids)" "keeps w_cache (audit H i sql who out n cs ids)"
  unfolding audit_def by (auto intro!: keeps_intros split: option.splits simp: Let_def)

lemma keeps_run: "keeps w_audit (run H g sql who i as_of v)"
  unfolding run_def by (intro keeps_intros beside_facts_simps)

lemma plan_once_Inl:
  assumes "plan_once H p who w = Some (w', Inl e)"
  shows "w' = w \<and> physical H p = Inl e \<or> charge H (caller_key who) (pr_charges p) w = Some (w', Inl e)"
  using assms unfolding plan_once_def then_do_Inl step_sides step_runs(1)
  by (auto simp: step_runs split: if_splits)

lemma audit_Some:
  assumes "audit H i sql who out n cs ids w = Some (w', u)"
  obtains r where "a_id r = i" "a_caller_id r = caller_id who" "a_tenant r = tenant who" "a_purpose r = purpose who"
      "a_sql_sha256 r = sha256 H sql" "a_outcome r = out" "a_rows r = n" "a_charges r = cs" "a_contracts r = ids"
    and "(\<exists>e. h_audit_error H r = Some e \<and> w' = w \<and> u = Inl e)
      \<or> (h_audit_error H r = None \<and> w' = w\<lparr>w_audit := w_audit w @ [r]\<rparr> \<and> u = Inr ())"
proof -
  define r where "r = \<lparr>a_id = i, a_at = h_now H, a_caller_id = caller_id who, a_tenant = tenant who,
    a_purpose = purpose who, a_sql_sha256 = sha256 H sql, a_contracts = ids, a_outcome = out,
    a_rows = n, a_elapsed_ms = h_elapsed_ms H, a_charges = cs\<rparr>"
  have "(case h_audit_error H r of Some e \<Rightarrow> stop e | None \<Rightarrow> change (\<lambda>w. w\<lparr>w_audit := w_audit w @ [r]\<rparr>)) w = Some (w', u)"
    using assms by (simp only: audit_def Let_def r_def)
  then have "(\<exists>e. h_audit_error H r = Some e \<and> w' = w \<and> u = Inl e)
      \<or> (h_audit_error H r = None \<and> w' = w\<lparr>w_audit := w_audit w @ [r]\<rparr> \<and> u = Inr ())"
    by (cases "h_audit_error H r") (simp_all add: step_runs)
  then show ?thesis by (intro that [of r]) (simp_all add: r_def)
qed

text \<open>A query, taken apart: its run, and the audit of it.\<close>

lemma query_parts:
  assumes "query_as_of H g sql who as_of v w = Some (w', r)"
  obtains w1 q u where "run H g sql who (h_uuid H) as_of v w = Some (w1, q)"
    and "audit_answer H (h_uuid H) sql who q w1 = Some (w', u)"
    and "w_budgets w' = w_budgets w1" and "w_audit w1 = w_audit w" and "r = (case u of Inl e \<Rightarrow> Inl e | Inr _ \<Rightarrow> q)"
proof -
  from assms obtain w1 q u where run: "run H g sql who (h_uuid H) as_of v w = Some (w1, q)"
    and au: "audit_answer H (h_uuid H) sql who q w1 = Some (w', u)" and r: "r = (case u of Inl e \<Rightarrow> Inl e | Inr _ \<Rightarrow> q)"
    unfolding query_as_of_def by (rule finally_do_Some)
  have "keeps w_budgets (audit_answer H (h_uuid H) sql who q)"
    unfolding audit_answer_def by (cases q) (auto intro!: keeps_intros)
  from keepsD [OF this au] keepsD [OF keeps_run run] show ?thesis by (intro that [OF run au _ _ r]) simp_all
qed

lemma answer_parts:
  assumes "query_as_of H g sql who as_of v w = Some (w', Inr x)"
  obtains w1 where "run H g sql who (h_uuid H) as_of v w = Some (w1, Inr x)"
    and "audit_answer H (h_uuid H) sql who (Inr x) w1 = Some (w', Inr ())"
    and "w_budgets w' = w_budgets w1" and "w_audit w1 = w_audit w"
proof -
  from assms obtain w1 q u where q: "run H g sql who (h_uuid H) as_of v w = Some (w1, q)"
    "audit_answer H (h_uuid H) sql who q w1 = Some (w', u)" "w_budgets w' = w_budgets w1" "w_audit w1 = w_audit w"
    and r: "Inr x = (case u of Inl e \<Rightarrow> Inl e | Inr _ \<Rightarrow> q)"
    by (rule query_parts)
  from r obtain "u = Inr ()" "q = Inr x" by (cases u) simp_all
  with q show ?thesis by (intro that [of w1]) simp_all
qed

lemma run_envelope:
  assumes "run H g sql who i as_of v w = Some (w', Inr x)"
  shows "en_rows (qr_envelope x) = total_rows (qr_batches x) \<and> en_audit_id (qr_envelope x) = i
     \<and> en_caller (qr_envelope x) = asker_of who
     \<and> en_attestation (qr_envelope x) = attestation_of (sha256 H) (h_ipc H) (h_now H) sql (qr_batches x)"
  using assms
  by (cases rule: run_Inr) (auto simp: cached_answer_def fresh_answer_def Let_def and_then_eq_Inr)

text \<open>
  C7. Every answer is recorded before it is given: one record, with the answer's own id, its caller, the
  hash of its statement, its rows, its charges and its contracts. A query that fails is recorded with its
  error, released nothing and charged nothing in the record; only when the log itself fails is there no
  record, and then there is no answer.
\<close>

theorem every_query_is_audited:
  assumes "query_as_of H g sql who as_of v w = Some (w', r)"
  shows "case r of
      Inr x \<Rightarrow> (\<exists>rec. w_audit w' = w_audit w @ [rec] \<and> a_id rec = en_audit_id (qr_envelope x)
        \<and> a_caller_id rec = caller_id who \<and> a_tenant rec = tenant who \<and> a_purpose rec = purpose who
        \<and> a_sql_sha256 rec = query_sha256 (en_attestation (qr_envelope x)) \<and> a_outcome rec = Answered
        \<and> a_rows rec = total_rows (qr_batches x) \<and> a_charges rec = en_charges (qr_envelope x)
        \<and> a_contracts rec = contract_ids (en_contracts (qr_envelope x)))
    | Inl e \<Rightarrow> (\<exists>rec. a_sql_sha256 rec = sha256 H sql \<and> a_caller_id rec = caller_id who \<and>
        (w_audit w' = w_audit w @ [rec] \<and> a_outcome rec = failure_outcome e \<and> a_rows rec = 0 \<and> a_charges rec = []
         \<or> w_audit w' = w_audit w \<and> h_audit_error H rec = Some e))"
proof -
  from assms obtain w1 q u where run: "run H g sql who (h_uuid H) as_of v w = Some (w1, q)"
    and au: "audit_answer H (h_uuid H) sql who q w1 = Some (w', u)" and log: "w_audit w1 = w_audit w"
    and r: "r = (case u of Inl e \<Rightarrow> Inl e | Inr _ \<Rightarrow> q)"
    by (rule query_parts)
  show ?thesis
  proof (cases q)
    case (Inr x)
    with run have x: "en_rows (qr_envelope x) = total_rows (qr_batches x)" "en_audit_id (qr_envelope x) = h_uuid H"
      "query_sha256 (en_attestation (qr_envelope x)) = sha256 H sql"
      using run_envelope [of H g sql who "h_uuid H" as_of v w w1 x] by (simp_all add: attestation_of_def)
    from au [unfolded Inr audit_answer_def] obtain rec where rec: "a_id rec = h_uuid H" "a_caller_id rec = caller_id who"
      "a_tenant rec = tenant who" "a_purpose rec = purpose who" "a_sql_sha256 rec = sha256 H sql" "a_outcome rec = Answered"
      "a_rows rec = en_rows (qr_envelope x)" "a_charges rec = en_charges (qr_envelope x)"
      "a_contracts rec = contract_ids (en_contracts (qr_envelope x))"
      and out: "(\<exists>e. h_audit_error H rec = Some e \<and> w' = w1 \<and> u = Inl e)
        \<or> (h_audit_error H rec = None \<and> w' = w1\<lparr>w_audit := w_audit w1 @ [rec]\<rparr> \<and> u = Inr ())"
      by (auto elim: audit_Some)
    from out show ?thesis
    proof
      assume "\<exists>e. h_audit_error H rec = Some e \<and> w' = w1 \<and> u = Inl e"
      then obtain e where "h_audit_error H rec = Some e" "w' = w1" "u = Inl e" by blast
      with r log rec(2,5) show ?thesis by simp blast
    next
      assume "h_audit_error H rec = None \<and> w' = w1\<lparr>w_audit := w_audit w1 @ [rec]\<rparr> \<and> u = Inr ()"
      with r Inr log have "r = Inr x" "w_audit w' = w_audit w @ [rec]" by simp_all
      with rec x show ?thesis by simp
    qed
  next
    case (Inl e)
    from au [unfolded Inl audit_answer_def] obtain rec where rec: "a_caller_id rec = caller_id who"
      "a_sql_sha256 rec = sha256 H sql" "a_outcome rec = failure_outcome e" "a_rows rec = 0" "a_charges rec = []"
      and out: "(\<exists>e. h_audit_error H rec = Some e \<and> w' = w1 \<and> u = Inl e)
        \<or> (h_audit_error H rec = None \<and> w' = w1\<lparr>w_audit := w_audit w1 @ [rec]\<rparr> \<and> u = Inr ())"
      by (auto elim: audit_Some)
    from out show ?thesis
    proof
      assume "\<exists>e. h_audit_error H rec = Some e \<and> w' = w1 \<and> u = Inl e"
      then obtain e where "h_audit_error H rec = Some e" "w' = w1" "u = Inl e" by blast
      with r log rec(1,2) show ?thesis by simp blast
    next
      assume "h_audit_error H rec = None \<and> w' = w1\<lparr>w_audit := w_audit w1 @ [rec]\<rparr> \<and> u = Inr ()"
      with r Inl log rec have "r = Inl e" "w_audit w' = w_audit w @ [rec]" by simp_all
      with rec show ?thesis by auto
    qed
  qed
qed

text \<open>A fresh answer, taken apart.\<close>

lemma fresh_answer_parts:
  assumes "query_as_of H g sql who as_of v w = Some (w', Inr x)" and "\<not> en_cached (qr_envelope x)"
  obtains w1 p w2 w3 pl where "prepare H g sql who None as_of v w = Some (w1, Inr p)"
    and "w_budgets w1 = w_budgets w" and "w_budgets w2 = w_budgets w" and "plan_once H p who w2 = Some (w3, Inr pl)"
    and "w_budgets w' = w_budgets w3" and "collect H (pl_session pl) (pl_plan pl) w3 = Inr (qr_batches x)"
    and "en_contracts (qr_envelope x) = pl_contracts pl" and "en_charges (qr_envelope x) = pl_charges pl"
    and "en_budgets (qr_envelope x) = pl_budgets pl" and "en_suppress_k (qr_envelope x) = pl_suppress_k pl"
proof -
  from assms(1) obtain w4 where run: "run H g sql who (h_uuid H) as_of v w = Some (w4, Inr x)"
    and w': "w_budgets w' = w_budgets w4" by (rule answer_parts)
  from run show ?thesis
  proof (cases rule: run_Inr)
    case (cached w1 p bs)
    with assms(2) show ?thesis by (auto simp: cached_answer_def Let_def and_then_eq_Inr)
  next
    case (fresh w1 p w2 w3 pl bs)
    then have x: "qr_batches x = bs" "en_contracts (qr_envelope x) = pl_contracts pl"
      "en_charges (qr_envelope x) = pl_charges pl" "en_budgets (qr_envelope x) = pl_budgets pl"
      "en_suppress_k (qr_envelope x) = pl_suppress_k pl"
      by (auto simp: fresh_answer_def Let_def and_then_eq_Inr)
    have b1: "w_budgets w1 = w_budgets w" using keepsD [OF keeps_prepare fresh(1), of w_budgets] by simp
    have b2: "w_budgets w2 = w_budgets w1" using keepsD [OF keeps_cache_steps(3) fresh(2)] .
    have b4: "w_budgets w4 = w_budgets w3" using keepsD [OF keeps_cache_steps(4) fresh(5)] .
    show ?thesis by (rule that [OF fresh(1) b1 _ fresh(3)]) (use x b1 b2 b4 w' fresh(4) in simp_all)
  qed
qed

lemma physical_gated:
  assumes "physical H p = Inr plan"
  shows "ensure_gated (as_pplan plan) = Inr ()"
  using assms by (auto simp: physical_def Let_def and_then_eq_Inr)

text \<open>
  C5. No row is read outside its contract's gate: the batches of an answer that is not from the cache are
  those of a plan in which every scan of a contract's data is under that contract's gate, whatever the
  planner made of the statement, the shapes and the suppression around it.
\<close>

theorem answers_come_through_gates:
  assumes "query_as_of H g sql who as_of v w = Some (w', Inr x)" and "\<not> en_cached (qr_envelope x)"
  shows "\<exists>ss plan w1. collect H ss plan w1 = Inr (qr_batches x)
     \<and> (\<forall>k c. reads None (as_pplan plan) k c \<longrightarrow> k = Some c)"
proof -
  from assms obtain p w2 w3 pl where pl: "plan_once H p who w2 = Some (w3, Inr pl)"
    and batches: "collect H (pl_session pl) (pl_plan pl) w3 = Inr (qr_batches x)"
    by (rule fresh_answer_parts)
  have "ensure_gated (as_pplan (pl_plan pl)) = Inr ()"
    using plan_once_Inr [OF pl] by (intro physical_gated) blast
  then have "\<forall>k c. reads None (as_pplan (pl_plan pl)) k c \<longrightarrow> k = Some c"
    by (simp add: ensure_gated_def walk_iff)
  with batches show ?thesis by blast
qed

text \<open>
  C15. An answer is paid for exactly once: one from the cache charges nothing, and any other has charged
  its caller, together and in the ledger that is left, the charges of the statement's shapes, which its
  envelope sums up by budget with what is left of each.
\<close>

theorem answers_are_paid_for:
  assumes "query_as_of H g sql who as_of v w = Some (w', Inr x)"
  shows "if en_cached (qr_envelope x) then w_budgets w' = w_budgets w \<and> en_charges (qr_envelope x) = []
     else \<exists>w1 p. prepare H g sql who None as_of v w = Some (w1, Inr p)
        \<and> en_charges (qr_envelope x) = sum_charges (pr_charges p)
        \<and> (if pr_charges p = [] then w_budgets w' = w_budgets w
           else \<exists>err d d'. charge_all (h_ledger H) err d (w_budgets w) (caller_key who) (pr_charges p)
                = (w_budgets w', Inr (d', en_budgets (qr_envelope x))))"
proof (cases "en_cached (qr_envelope x)")
  case True
  from assms obtain w1 where run: "run H g sql who (h_uuid H) as_of v w = Some (w1, Inr x)"
    and w': "w_budgets w' = w_budgets w1" by (rule answer_parts)
  from run show ?thesis
  proof (cases rule: run_Inr)
    case (cached w2 p bs)
    have "w_budgets w2 = w_budgets w" using keepsD [OF keeps_prepare cached(1), of w_budgets] by simp
    moreover have "w_budgets w1 = w_budgets w2" using keepsD [OF keeps_cache_steps(3) cached(2)] .
    moreover have "en_charges (qr_envelope x) = []"
      using cached(3) by (auto simp: cached_answer_def Let_def and_then_eq_Inr)
    ultimately show ?thesis using True w' by simp
  next
    case (fresh w2 p w3 w4 pl bs)
    with True show ?thesis by (auto simp: fresh_answer_def Let_def and_then_eq_Inr)
  qed
next
  case False
  with assms obtain w1 p w2 w3 pl where prep: "prepare H g sql who None as_of v w = Some (w1, Inr p)"
    and w2: "w_budgets w2 = w_budgets w" and pl: "plan_once H p who w2 = Some (w3, Inr pl)"
    and w': "w_budgets w' = w_budgets w3" and en: "en_charges (qr_envelope x) = pl_charges pl"
      "en_budgets (qr_envelope x) = pl_budgets pl"
    by (rule fresh_answer_parts)
  note parts = plan_once_Inr [OF pl]
  have "if pr_charges p = [] then w_budgets w' = w_budgets w
     else \<exists>err d d'. charge_all (h_ledger H) err d (w_budgets w) (caller_key who) (pr_charges p)
        = (w_budgets w', Inr (d', en_budgets (qr_envelope x)))"
  proof (cases "pr_charges p = []")
    case True
    with parts w2 w' show ?thesis by simp
  next
    case False
    with parts have "charge H (caller_key who) (pr_charges p) w2 = Some (w3, Inr (pl_budgets pl))" by simp
    from charge_Inr [OF this] obtain d where "charge_all (h_ledger H) (Option.bind (bs_file (w_budgets w2)) (h_write_error H))
        (w_fs w2) (w_budgets w2) (caller_key who) (pr_charges p) = (w_budgets w3, Inr (d, pl_budgets pl))" by blast
    with False w2 w' en show ?thesis by auto
  qed
  with prep en parts show ?thesis using False by auto
qed

text \<open>
  C26. A refusal is free: a query that is refused, at whatever point, charges no budget of anybody. The
  audit log fails with errors that are no refusals.
\<close>

theorem refused_charges_nothing:
  assumes "query_as_of H g sql who as_of v w = Some (w', Inl e)" and "is_refusal e"
    and "\<forall>r e'. h_audit_error H r = Some e' \<longrightarrow> \<not> is_refusal e'"
  shows "w_budgets w' = w_budgets w"
proof -
  from assms(1) obtain w1 q u where run: "run H g sql who (h_uuid H) as_of v w = Some (w1, q)"
    and au: "audit_answer H (h_uuid H) sql who q w1 = Some (w', u)" and w': "w_budgets w' = w_budgets w1"
    and r: "Inl e = (case u of Inl e \<Rightarrow> Inl e | Inr _ \<Rightarrow> q)"
    by (rule query_parts)
  have "u = Inr ()"
  proof (cases u)
    case (Inl e')
    have "\<exists>rec. h_audit_error H rec = Some e'"
      using au unfolding Inl audit_answer_def by (auto split: sum.splits elim: audit_Some)
    with assms(2,3) r Inl show ?thesis by auto
  qed simp
  with r run have "run H g sql who (h_uuid H) as_of v w = Some (w1, Inl e)" by simp
  then have "w_budgets w1 = w_budgets w"
  proof (cases rule: run_Inl)
    case prepare
    then show ?thesis using keepsD [OF keeps_prepare prepare, of w_budgets] by simp
  next
    case (plan w2 p w3)
    have "w_budgets w2 = w_budgets w" using keepsD [OF keeps_prepare plan(1), of w_budgets] by simp
    moreover have "w_budgets w3 = w_budgets w2" using keepsD [OF keeps_cache_steps(3) plan(2)] .
    moreover have "w_budgets w1 = w_budgets w3"
      using plan_once_Inl [OF plan(3)] charge_Inl charge_all_refused_unchanged assms(2) by metis
    ultimately show ?thesis by simp
  next
    case (late w2 p)
    with assms(2) show ?thesis by auto
  qed
  with w' show ?thesis by simp
qed

section \<open>Suppression\<close>

lemma collect_stream_Inr: "collect_stream xs = Inr bs \<Longrightarrow> xs = map Inr bs"
proof (induction xs arbitrary: bs)
  case (Cons x xs)
  then show ?case by (cases x; cases "collect_stream xs") auto
qed simp

lemma physical_suppressed:
  "physical H p = Inr plan \<Longrightarrow> pr_suppress_k p = Some k \<Longrightarrow> \<not> pr_has_aggregate p \<Longrightarrow>
     \<exists>q. plan = Suppressed (suppress_exec_new (h_partitions H) k q)"
  by (auto simp: physical_def Let_def and_then_eq_Inr)

lemma stream_rows_map: "stream_rows (map Inr bs) = total_rows bs"
  by (induction bs) simp_all

text \<open>
  C27. A result of fewer rows than a contract's threshold leaves the engine as no row at all: an answer that
  is not from the cache, to a statement without an aggregate under a suppression of \<open>k\<close>, has no row or at
  least \<open>k\<close>.
\<close>

theorem small_answers_are_withheld:
  assumes "prepare H g sql who None as_of v w = Some (w1, Inr p)" and "pr_suppress_k p = Some k"
    and "\<not> pr_has_aggregate p"
    and "query_as_of H g sql who as_of v w = Some (w', Inr x)" and "\<not> en_cached (qr_envelope x)"
  shows "total_rows (qr_batches x) = 0 \<or> k \<le> total_rows (qr_batches x)"
proof -
  from assms(4,5) obtain w2 p' w3 w4 pl where prep: "prepare H g sql who None as_of v w = Some (w2, Inr p')"
    and pl: "plan_once H p' who w3 = Some (w4, Inr pl)"
    and batches: "collect H (pl_session pl) (pl_plan pl) w4 = Inr (qr_batches x)"
    by (rule fresh_answer_parts)
  from prep assms(1) have "p' = p" by simp
  with plan_once_Inr [OF pl] have "physical H p = Inr (pl_plan pl)" by simp
  from physical_suppressed [OF this assms(2,3)]
  obtain plan where "pl_plan pl = Suppressed (suppress_exec_new (h_partitions H) k plan)" ..
  with batches obtain s where "collect_stream (suppress_execute k s) = Inr (qr_batches x)"
    by (auto simp: collect_def execute_def suppress_exec_new_def and_then_eq_Inr map_sum_def split: sum.splits)
  then have "suppress_execute k s = map Inr (qr_batches x)" by (rule collect_stream_Inr)
  with suppress_none_or_k [of k s] show ?thesis by (simp add: stream_rows_map)
qed

section \<open>What a check tells\<close>

lemma physical_no_refusal: "physical H p = Inl e \<Longrightarrow> \<not> is_refusal e"
  by (auto simp: physical_def Let_def and_then_eq_Inl df_def ensure_gated_def split: sum.splits dest!: walk_error)

lemma charge_all_refusal_budget:
  assumes "charge_all J err d s c chs = (s', Inl e)" and "is_refusal e"
  shows "\<exists>b. e = BudgetExhausted b"
proof (cases "find (over_limit s c) chs")
  case None
  have "\<not> is_refusal e'" if "save_ledger J err d s1 = Inl e'" for s1 e'
    using that by (auto simp: save_ledger_def split: option.splits sum.splits)
  with assms None show ?thesis
    by (auto simp: charge_all_def and_then_eq_Inl split: prod.splits)
next
  case (Some ch)
  with assms show ?thesis by (cases ch) (auto simp: charge_all_refused)
qed

lemma check_parts:
  "check H g sql who v w = (case prepare H g sql who None [] v w of
       None \<Rightarrow> None
     | Some (w1, Inr p) \<Rightarrow> Some (w1, Inr \<lparr>ck_schema = h_plan_schema H (pr_plan p), ck_contracts = pr_resolutions p\<rparr>)
     | Some (w1, Inl e) \<Rightarrow> finally_do (stop e) (\<lambda>out. audit H (h_uuid H) sql who (failure_outcome e) 0 [] []) w1)"
  by (auto simp: check_def finally_do_def then_do_def give_def stop_def split: option.split sum.split prod.split)


text \<open>
  To look is free: a check and an explanation charge no budget of anybody and leave the result cache
  as it was, whatever they answer.
\<close>

theorem looking_is_free:
  assumes "check H g sql who v w = Some (w1, r1)" and "explain H g sql who w = Some (w2, r2)"
  shows "w_budgets w1 = w_budgets w \<and> w_cache w1 = w_cache w \<and> w_budgets w2 = w_budgets w \<and> w_cache w2 = w_cache w
     \<and> w_audit w2 = w_audit w"
proof -
  have "keeps w_budgets (check H g sql who v)" "keeps w_cache (check H g sql who v)"
    unfolding check_def by (intro keeps_intros beside_facts_simps)+
  moreover have "keeps w_budgets (explain H g sql who)" "keeps w_cache (explain H g sql who)" "keeps w_audit (explain H g sql who)"
    unfolding explain_def by (intro keeps_intros beside_facts_simps)+
  ultimately show ?thesis using assms by (auto dest: keepsD)
qed

section \<open>Answers through a file\<close>

text \<open>What the Flight service gives of an answer.\<close>

definition spooled :: "('v, 'w, 'j, 'l) host \<Rightarrow> query_result \<Rightarrow> spool_result" where
  "spooled H x = \<lparr>so_schema = qr_schema x,
     so_batches = (if ipc_bytes (h_ipc H) (qr_batches x) = [] then None else Some (qr_batches x)),
     so_envelope = qr_envelope x, so_signature = qr_signature x\<rparr>"

lemma spool_stream_collect:
  assumes "\<forall>bs. h_spool_write H bs = None" and "\<forall>bs. h_spool_finish H bs = None"
  shows "spool_stream H acc xs = and_then (df (collect_stream xs)) (\<lambda>bs. Inr (acc @ bs))"
proof (induction xs arbitrary: acc)
  case (Cons x xs)
  then show ?case using assms(1) by (cases x; cases "collect_stream xs") auto
qed (use assms(2) in simp)

lemma spool_answer_fresh:
  "spool_answer H sql who i pl bs w = map_sum id (spooled H) (fresh_answer H sql who i pl bs w)"
  by (auto simp: spool_answer_def fresh_answer_def Let_def attestation_of_def ipc_bytes_def spooled_def and_then_def
    split: sum.split list.split)

text \<open>
  The two ways to ask agree: over a disk that takes the file, the answer spooled for a Flight client is
  the one the same query gives where there is no cache, batch for batch, with the same envelope, attestation,
  signature, charges and audit record, and the same errors.
\<close>

theorem spooled_answers_alike:
  assumes "w_cache w = None" and "h_spool_error H = None" and "\<forall>bs. h_spool_write H bs = None"
    and "\<forall>bs. h_spool_finish H bs = None"
  shows "query_spooled H g sql who v w = map_option (map_prod id (map_sum id (spooled H))) (query_as_of H g sql who [] v w)"
proof -
  have no_cache: "w_cache w1 = None" if "prepare H g sql who None [] v w = Some (w1, q)" for w1 q
    using keepsD [OF keeps_prepare that, of w_cache] assms(1) by simp
  have no_cache': "w_cache w2 = None" if "plan_once H p who w1 = Some (w2, q)" "w_cache w1 = None" for p w1 w2 q
  proof -
    have "keeps w_cache (plan_once H p who)" unfolding plan_once_def by (intro keeps_intros)
    from keepsD [OF this that(1)] that(2) show ?thesis by simp
  qed
  have collect: "and_then (df (execute H ss p w1)) (spool_stream H []) = collect H ss p w1" for ss p w1
    by (simp add: collect_def and_then_def spool_stream_collect [OF assms(3,4)] split: sum.split)
  have run: "spool H g sql who i v w = map_option (map_prod id (map_sum id (spooled H))) (run H g sql who i [] v w)" for i
  proof (cases "prepare H g sql who None [] v w")
    case (Some r1)
    obtain w1 q1 where r1: "r1 = (w1, q1)" by (cases r1)
    show ?thesis
    proof (cases q1)
      case (Inr p)
      have look: "cache_look H (pr_key p) w1 = Some (w1, Inr None)"
        using no_cache [OF Some [unfolded r1]] by (simp add: cache_look_def)
      show ?thesis
      proof (cases "plan_once H p who w1")
        case None
        with Some r1 Inr look show ?thesis by (simp add: spool_def run_def then_do_def)
      next
        case (Some r2)
        obtain w2 q2 where r2: "r2 = (w2, q2)" by (cases r2)
        have keep: "cache_keep H k bs w2 = Some (w2, Inr ())" for k bs
          using no_cache' [OF Some [unfolded r2] no_cache [OF \<open>prepare _ _ _ _ _ _ _ _ = _\<close> [unfolded r1]]]
          by (simp add: cache_keep_def)
        show ?thesis using \<open>prepare _ _ _ _ _ _ _ _ = _\<close> r1 Inr look Some r2
          by (cases q2; cases "collect H (pl_session (projr q2)) (pl_plan (projr q2)) w2")
            (simp_all add: spool_def run_def then_do_def lift_def look_res_def assms(2) collect keep spool_answer_fresh)
      qed
    next
      case (Inl e)
      with Some r1 show ?thesis by (simp add: spool_def run_def then_do_def)
    qed
  qed (simp add: spool_def run_def then_do_def)
  show ?thesis
  proof (cases "run H g sql who (h_uuid H) [] v w")
    case (Some r)
    obtain w1 q where "r = (w1, q)" by (cases r)
    with Some run [of "h_uuid H"] show ?thesis
      by (cases q) (auto simp: query_spooled_def query_as_of_def finally_do_def audit_answer_def spooled_def
        split: option.split sum.split)
  qed (simp add: query_spooled_def query_as_of_def finally_do_def run)
qed

section \<open>Whose budget is charged\<close>

text \<open>
  The key a caller's spending is kept under joins tenant and caller with a slash that either may hold:
  caller \<open>b/c\<close> of tenant \<open>a\<close> and caller \<open>c\<close> of tenant \<open>a/b\<close> are charged as one, and either can exhaust
  the other's budget.
\<close>

theorem callers_share_a_ledger:
  "charge H (caller_key (who\<lparr>caller_id := ''b/c'', tenant := ''a''\<rparr>)) cs
     = charge H (caller_key (who'\<lparr>caller_id := ''c'', tenant := ''a/b''\<rparr>)) cs"
  by (simp add: caller_key_def)

section \<open>Reads of a snapshot\<close>

lemma resolve_with_snapshot:
  assumes "resolve_with R g bnd u name who v manifest = Inr (rs, m)"
  shows "manifest = Inr (Some m) \<and> rs_snapshot_id rs = m_snapshot m
     \<and> (\<exists>reg. visible g name who = Inr reg \<and> rs_contract rs = cc_name (contract (r_compilation reg)))"
proof -
  from assms obtain reg where reg: "visible g name who = Inr reg" by (auto simp: resolve_with_def and_then_eq_Inr)
  with assms obtain as shapes stored where "manifest = Inr (Some m)"
    "rs = resolution_of (contract (r_compilation reg)) m as shapes stored"
    unfolding resolve_with_def by (auto simp: and_then_eq_Inr Let_def split: option.splits)
  with reg show ?thesis by (simp add: resolution_of_def)
qed

lemma manifest_as_of_Inr:
  assumes "manifest_as_of H g name s w = Some (w', Inr mo)" and "get_contract g name = Inr reg"
  shows "\<exists>t. engine_facts H t s reg w = Some (w', Inr mo)"
proof -
  from assms obtain b where b: "host_bound H reg = Inr b"
    by (auto simp: manifest_as_of_def then_do_Inr step_sides)
  show ?thesis
  proof (cases "\<exists>k. b = BoundFiles (IcebergAt k)")
    case True
    then obtain k where k: "b = BoundFiles (IcebergAt k)" ..
    with assms b obtain to where to: "w_catalog w k = Inr to"
      by (auto simp: manifest_as_of_def then_do_Inr step_sides)
    with assms b k show ?thesis
      by (cases to; cases "map_of (it_snapshots (the to)) s")
        (simp_all add: manifest_as_of_def then_do_def lift_def look_res_def stop_def, blast)
  next
    case False
    with assms b show ?thesis
      by (auto simp: manifest_as_of_def then_do_def lift_def stop_def split: bound.splits location.splits)
  qed
qed

lemma ensured_as_of_snapshot:
  assumes "ensure_manifest_as_of H g name s w = Some (w', Inr m)"
  shows "m_snapshot m = Some s"
proof -
  from assms obtain w1 mo where mo: "manifest_as_of H g name s w = Some (w1, Inr mo)"
    and rest: "(case mo of Some m \<Rightarrow> give m | None \<Rightarrow> then_do (refresh H g name (h_now H) (Some s)) (\<lambda>(v, m). give m)) w1
      = Some (w', Inr m)"
    unfolding ensure_manifest_as_of_def then_do_Inr by blast
  from mo obtain reg b where reg: "get_contract g name = Inr reg" and b: "host_bound H reg = Inr b"
    by (auto simp: manifest_as_of_def then_do_Inr step_sides)
  show ?thesis
  proof (cases mo)
    case None
    with rest obtain v where "refresh H g name (h_now H) (Some s) w1 = Some (w', Inr (v, m))"
      by (auto simp: then_do_Inr step_runs(1))
    then show ?thesis using reg b by (rule refresh_snapshot)
  next
    case (Some m')
    with rest have "m' = m" by (simp add: step_runs(1))
    with mo Some have "manifest_as_of H g name s w = Some (w1, Inr (Some m))" by simp
    from manifest_as_of_Inr [OF this reg] obtain t where "engine_facts H t s reg w = Some (w1, Inr (Some m))" ..
    then obtain d where "iceberg_facts (h_facts H) (\<lambda>s. h_write_error H (facts_path t s (reg_name reg))) t s reg (w_fs w)
        = Some (d, Inr (Some m))"
      by (auto simp: engine_facts_def)
    then show ?thesis by (intro known_facts_snapshot iceberg_facts_sound)
  qed
qed

definition names_hold :: "contents \<Rightarrow> bool" where
  "names_hold g \<longleftrightarrow> (\<forall>n reg. mem_current g n = Some reg \<longrightarrow> reg_name reg = n)"

lemma stores_names_hold: "contents_ok g \<Longrightarrow> names_hold g"
  by (simp add: names_hold_def mem_current_greatest) (blast dest: mem_version_at)

text \<open>Every contract resolved so far that the read names is resolved as of the snapshot it names.\<close>

definition pinned_so_far :: "(string, int) btmap \<Rightarrow> gathered \<Rightarrow> bool" where
  "pinned_so_far as_of acc \<longleftrightarrow>
     (\<forall>r \<in> set (ga_resolutions acc). \<forall>s. map_of as_of (rs_contract r) = Some s \<longrightarrow> rs_snapshot_id r = Some s)"

lemma one_ref_pinned:
  assumes "names_hold g" and "pinned_so_far as_of acc" and run: "one_ref H g who as_of v t acc w = Some (w', Inr acc')"
  shows "pinned_so_far as_of acc'"
proof (cases "resolved acc (tr_table t) \<or> tr_schema t \<noteq> None")
  case True
  with assms show ?thesis by (auto simp: one_ref_def Let_def step_runs(1,2) split: if_splits)
next
  case False
  let ?n = "tr_table t"
  from run False obtain w1 rs m shapes fp view where
    res: "resolve_ref H g who as_of v ?n w = Some (w1, Inr (rs, m))"
    and acc': "ga_resolutions acc' = ga_resolutions acc @ [rs]"
    by (auto simp: one_ref_def Let_def then_do_Inr step_sides step_runs(1))
  have name: "rs_contract rs = ?n" and snap: "\<And>s. map_of as_of ?n = Some s \<Longrightarrow> rs_snapshot_id rs = Some s"
  proof -
    have resolved: "\<exists>mr. resolve_with (h_runtime H) g (host_bound H) (h_use_stored H) ?n who v mr = Inr (rs, m)
        \<and> (\<forall>s. map_of as_of ?n = Some s \<longrightarrow> (\<exists>w3 pinned. ensure_manifest_as_of H g ?n s w = Some (w3, Inr pinned) \<and> mr = Inr (Some pinned)))"
      using res by (cases "map_of as_of ?n"; cases "map_of (h_frozen H) ?n")
        (auto simp: resolve_ref_def engine_resolve_def then_do_Inr step_sides)
    then obtain mr where mr: "resolve_with (h_runtime H) g (host_bound H) (h_use_stored H) ?n who v mr = Inr (rs, m)"
      and pin: "\<forall>s. map_of as_of ?n = Some s \<longrightarrow> (\<exists>w3 pinned. ensure_manifest_as_of H g ?n s w = Some (w3, Inr pinned) \<and> mr = Inr (Some pinned))"
      by (elim exE conjE) (rule that)
    note parts = resolve_with_snapshot [OF mr]
    then show "rs_contract rs = ?n"
      using assms(1) by (auto simp: names_hold_def visible_Inr reg_name_def)
    show "rs_snapshot_id rs = Some s" if s: "map_of as_of ?n = Some s" for s
      using pin s parts by (auto dest: ensured_as_of_snapshot)
  qed
  with assms(2) acc' show ?thesis by (auto simp: pinned_so_far_def)
qed

lemma gather_pinned:
  assumes "names_hold g"
  shows "pinned_so_far as_of acc \<Longrightarrow> gather H g who as_of v ts acc w = Some (w', Inr acc') \<Longrightarrow> pinned_so_far as_of acc'"
proof (induction ts arbitrary: acc w)
  case (Cons t ts)
  from Cons.prems(2) obtain w1 acc1 where "one_ref H g who as_of v t acc w = Some (w1, Inr acc1)"
    "gather H g who as_of v ts acc1 w1 = Some (w', Inr acc')"
    by (auto simp: then_do_Inr)
  with one_ref_pinned [OF assms Cons.prems(1)] Cons.IH show ?case by blast
qed (simp add: step_runs(1))

lemma prepare_pinned:
  assumes "names_hold g" and "prepare H g sql who n as_of v w = Some (w', Inr p)" and "map_of as_of c = Some s"
  shows "\<exists>r \<in> set (pr_resolutions p). rs_contract r = c \<and> rs_snapshot_id r = Some s"
proof -
  from assms(2) obtain ex se refs acc where
    ga: "gather H g who as_of v refs no_refs w = Some (w', Inr acc)"
    and sq: "shape_query H g sql who n as_of ex se acc = Inr p"
    by (auto simp: prepare_def then_do_Inr step_sides)
  have "pinned_so_far as_of acc"
    by (rule gather_pinned [OF assms(1) _ ga]) (simp add: pinned_so_far_def no_refs_def)
  moreover from sq have "check_as_of as_of acc = Inr ()" "pr_resolutions p = ga_resolutions acc"
    by (auto simp: shape_query_def Let_def and_then_eq_Inr)
  moreover from this(1) map_of_SomeD [OF assms(3)] have "resolved acc c"
    by (auto simp: check_as_of_def find_None_iff split: option.splits)
  ultimately show ?thesis using assms(3) by (auto simp: resolved_def list_ex_iff pinned_so_far_def)
qed

text \<open>
  A read of a snapshot is of that snapshot: whenever a query that names snapshots is answered, each
  contract it names is among those the envelope says were read, at the snapshot named, from the cache or not.
\<close>

theorem named_snapshots_are_read:
  assumes "query_as_of H g sql who as_of v w = Some (w', Inr x)" and "map_of as_of c = Some s"
    and "\<forall>n reg. mem_current g n = Some reg \<longrightarrow> reg_name reg = n"
  shows "\<exists>r \<in> set (en_contracts (qr_envelope x)). rs_contract r = c \<and> rs_snapshot_id r = Some s"
proof -
  from assms(1) obtain w1 where run: "run H g sql who (h_uuid H) as_of v w = Some (w1, Inr x)" by (rule answer_parts)
  obtain w2 p where "prepare H g sql who None as_of v w = Some (w2, Inr p)" "en_contracts (qr_envelope x) = pr_resolutions p"
    using run
  proof (cases rule: run_Inr)
    case (cached w5 p' bs)
    then show ?thesis by (intro that) (auto simp: cached_answer_def Let_def and_then_eq_Inr)
  next
    case (fresh w5 p' w6 w7 pl bs)
    with plan_once_Inr [OF fresh(3)] show ?thesis by (intro that) (auto simp: fresh_answer_def Let_def and_then_eq_Inr)
  qed
  with prepare_pinned [OF assms(3) [folded names_hold_def] _ assms(2)] show ?thesis by metis
qed

end
