(* ===== verification/Query_Example.thy ===== *)
theory Query_Example
  imports Query_Safety
begin

text \<open>
  A concrete engine, world and query, at which the properties of queries are applied: one contract bound to
  a table, suppressed below two rows, each query of it costing an epsilon of six from a budget of ten.
\<close>

section \<open>An engine\<close>

definition ex_rows :: "nat \<Rightarrow> batch" where
  "ex_rows n = \<lparr>batch_schema = [], columns = [], num_rows = n\<rparr>"

definition ex_ref :: table_ref where
  "ex_ref = \<lparr>tr_table = ''t/orders'', tr_schema = None, tr_text = ''t/orders''\<rparr>"

definition ex_scan :: pplan where
  "ex_scan = PGate ''t/orders'' ''k1'' (PScan ''t/orders'' (PNode ''DataSourceExec'' []))"

definition ex_verdict :: "ex_json verdict" where
  "ex_verdict = \<lparr>v_row_count = 5, v_failures = [(''a'', 0), (''b'', 0)], v_valid = True, v_breached = [],
     v_guarantees = [(''g'', True)], v_stats = []\<rparr>"

type_synonym ex_cache = "batch ex_lru"

definition ex_host_at :: "(string \<rightharpoonup> string) \<Rightarrow> location option \<Rightarrow> (unit, unit, ex_json, ex_cache) host" where
  "ex_host_at tables loc = \<lparr>h_facts = ex_facts_env ex_enc, h_runtime = ex_runtime, h_paths = ex_path_api, h_ledger = ex_ledgers,
     h_lru = ex_lru_ops, h_cache_config = ex_config, h_memory_size = num_rows, h_tables = tables,
     h_location = (\<lambda>c. loc), h_use_stored = True, h_frozen = [], h_provider = (\<lambda>b c s n. Inr ()),
     h_validation_plan = (\<lambda>c. LScan ''t/orders''), h_validate = (\<lambda>c p b s w. Inr ex_verdict),
     h_collect_table = (\<lambda>t. Inr []), h_ipc = (\<lambda>s bs. ''stream''), h_snapshot_entries = (\<lambda>t s f. Inr []),
     h_write_error = (\<lambda>p. None), h_now = 9, h_secs = 0, h_elapsed_ms = 1, h_uuid = ''id'', h_debug = (\<lambda>s. s),
     h_sql = ex_sql_api\<lparr>visit_sql := (\<lambda>s. Inr [])\<rparr>, h_conjunctions = ex_conjunctions,
     h_parse_sql = (\<lambda>s. if s = ''explain'' then Some [Explain] else Some [SqlQuery]), h_table_refs = (\<lambda>s. Inr [ex_ref]),
     h_logical_plan = (\<lambda>ss s. Inr (LScan ''t/orders'')), h_verify_plan = (\<lambda>p. True), h_optimize = (\<lambda>ss p. Inr p),
     h_apply_shapes = (\<lambda>p q s. Inr \<lparr>sp_plan = p, sp_charges = [(''b'', Fin 6)], sp_suppress_k = Some 2, sp_has_aggregate = False\<rparr>),
     h_plan_schema = (\<lambda>p. []), h_physical = (\<lambda>ss p. Inr ex_scan), h_partitions = (\<lambda>p. 1),
     h_stream = (\<lambda>ss p w. Inr [Inr (ex_rows 3), Inr (ex_rows 2)]), h_physical_schema = (\<lambda>p. []),
     h_metrics = (\<lambda>ss p w. Ran OtherExec None []), h_display = (\<lambda>p. ''plan''), h_signer = None,
     h_audit_error = (\<lambda>r. None), h_spool_error = None, h_spool_write = (\<lambda>bs. None), h_spool_finish = (\<lambda>bs. None)\<rparr>"

abbreviation ex_host :: "(unit, unit, ex_json, ex_cache) host" where
  "ex_host \<equiv> ex_host_at [''t/orders'' \<mapsto> ''orders''] None"

definition ex_world :: "(ex_json, ex_cache) world" where
  "ex_world = \<lparr>w_fs = Map.empty, w_trees = Map.empty, w_objects = (\<lambda>u. []), w_catalog = (\<lambda>k. Inr None),
     table_manifests = [''t/orders'' \<mapsto> ex_servable], object_manifests = Map.empty, iceberg_manifests = Map.empty,
     w_budgets = in_memory, w_cache = None, w_audit = [], w_others = []\<rparr>"

lemma ex_host_simps:
  "h_runtime (ex_host_at tables loc) = ex_runtime" "h_tables (ex_host_at tables loc) = tables" "h_location (ex_host_at tables loc) = (\<lambda>c. loc)"
  "h_facts (ex_host_at tables loc) = ex_facts_env ex_enc" "h_use_stored (ex_host_at tables loc)" "h_frozen (ex_host_at tables loc) = []"
  "h_provider (ex_host_at tables loc) b c s n = Inr ()" "h_write_error (ex_host_at tables loc) p = None" "h_uuid (ex_host_at tables loc) = ''id''"
  "h_parse_sql (ex_host_at tables loc) ''q'' = Some [SqlQuery]" "h_parse_sql (ex_host_at tables loc) ''explain'' = Some [Explain]"
  "h_table_refs (ex_host_at tables loc) sql = Inr [ex_ref]" "h_logical_plan (ex_host_at tables loc) ss sql = Inr (LScan ''t/orders'')"
  "h_verify_plan (ex_host_at tables loc) lp" "h_optimize (ex_host_at tables loc) ss lp = Inr lp"
  "h_apply_shapes (ex_host_at tables loc) lp q sh = Inr \<lparr>sp_plan = lp, sp_charges = [(''b'', Fin 6)], sp_suppress_k = Some 2, sp_has_aggregate = False\<rparr>"
  "h_physical (ex_host_at tables loc) ss lp = Inr ex_scan" "h_partitions (ex_host_at tables loc) pp = 1" "h_signer (ex_host_at tables loc) = None"
  "h_stream (ex_host_at tables loc) ss pp w = Inr [Inr (ex_rows 3), Inr (ex_rows 2)]" "h_audit_error (ex_host_at tables loc) r = None"
  "h_spool_error (ex_host_at tables loc) = None" "h_spool_write (ex_host_at tables loc) bs = None" "h_spool_finish (ex_host_at tables loc) bs = None"
  "h_sql (ex_host_at tables loc) = ex_sql_api\<lparr>visit_sql := (\<lambda>s. Inr [])\<rparr>" "h_ledger (ex_host_at tables loc) = ex_ledgers"
  "h_validate (ex_host_at tables loc) cmp0 lp b ns wd = Inr ex_verdict" "h_collect_table (ex_host_at tables loc) tname = Inr []"
  by (simp_all add: ex_host_at_def)

lemma ex_get: "get_contract ex_contents ''t/orders'' = Inr ex_registered"
  by (rule get_of_visible [OF ex_visible])

lemma ex_bound: "host_bound ex_host ex_registered = Inr (BoundTable ''orders'')"
  by (simp add: host_bound_def bound_to_def ex_host_simps ex_reg_simps)

lemma ex_known_manifest: "engine_manifest ex_host ex_contents ''t/orders'' ex_world = Inr (Some ex_servable)"
  unfolding engine_manifest_def ex_get and_then_Inr ex_bound by (simp add: ex_world_def)

lemma ex_resolution:
  "\<exists>rs. resolve_with ex_runtime ex_contents (host_bound ex_host) True ''t/orders'' ex_caller RExclude (Inr (Some ex_servable))
     = Inr (rs, ex_servable)"
proof -
  have c: "r_compilation ex_registered = ex_compilation" "contract ex_compilation = ex_contract"
    by (simp_all add: ex_registered_def ex_compilation_def)
  show ?thesis
    unfolding resolve_with_def ex_visible and_then_Inr Let_def c ex_rt_simps rt_simps option.case
      ex_is_servable ex_holds ex_bound
    by blast
qed

lemma ex_view: "\<exists>p. contract_view ex_runtime ex_contents (host_bound ex_host) (open_data ex_host ''t/orders'' w) ''t/orders'' ex_caller rs = Inr p"
proof -
  have opens: "open_data ex_host ''t/orders'' w (BoundTable t) cc st s = Inr ()" for t cc st s
    by (simp add: open_data_def ex_host_simps)
  show ?thesis
    unfolding contract_view_def ex_visible and_then_Inr Let_def ex_bound opens ex_rt_simps if_cancel df_simps rt_simps by blast
qed

section \<open>A query of it\<close>

lemma ex_ensured: "ensure_manifest ex_host ex_contents ''t/orders'' ex_world = Some (ex_world, Inr ())"
  by (simp add: ensure_manifest_def ex_get ex_bound then_do_def lift_def give_def)

lemma ex_one_ref:
  "\<exists>acc. one_ref ex_host ex_contents ex_caller [] RExclude ex_ref no_refs ex_world = Some (ex_world, Inr acc)"
proof -
  from ex_resolution obtain rs where rs: "resolve_with ex_runtime ex_contents (host_bound ex_host) True ''t/orders'' ex_caller
      RExclude (Inr (Some ex_servable)) = Inr (rs, ex_servable)" ..
  from ex_view [of ex_world rs] obtain v where
    v: "contract_view ex_runtime ex_contents (host_bound ex_host) (open_data ex_host ''t/orders'' ex_world) ''t/orders'' ex_caller rs = Inr v" ..
  have re: "resolve_ref ex_host ex_contents ex_caller [] RExclude ''t/orders'' ex_world = Some (ex_world, Inr (rs, ex_servable))"
    by (simp add: resolve_ref_def ex_host_simps then_do_def ex_ensured engine_resolve_def look_res_def ex_known_manifest rs)
  have fields: "tr_table ex_ref = ''t/orders''" "tr_schema ex_ref = None" "\<not> resolved no_refs n" for n
    by (simp_all add: ex_ref_def resolved_def no_refs_def)
  have vi: "engine_view ex_host ex_contents ''t/orders'' ex_caller rs ex_world = Some (ex_world, Inr v)"
    by (simp add: engine_view_def look_res_def ex_host_simps v)
  have pf: "params_fingerprint ex_host cc ex_caller = Inr []" for cc
    by (simp add: params_fingerprint_def ex_host_simps ex_rt_simps)
  show ?thesis
    unfolding one_ref_def Let_def fields
    by (simp add: ex_visible then_do_def lift_def re vi ex_host_simps ex_rt_simps pf give_def ex_get)
qed

lemma ex_expanded: "expand (ex_sql_api\<lparr>visit_sql := (\<lambda>s. Inr [])\<rparr>) sql = Inr (sql, [])"
  by (simp add: expand_def ex_host_simps)

text \<open>Any statement whose one contract is resolved is prepared, and answered.\<close>

definition ex_prepared :: "(string \<rightharpoonup> string) \<Rightarrow> location option \<Rightarrow> nat option \<Rightarrow> gathered \<Rightarrow> prepared" where
  "ex_prepared tables loc n acc = \<lparr>pr_key = cache_key_new (sha256 (ex_host_at tables loc)) ''q'' (ga_fingerprints acc),
    pr_session = (session_for (ex_host_at tables loc) n)\<lparr>ss_tables := ga_tables acc, ss_udfs := []\<rparr>, pr_plan = LScan ''t/orders'',
    pr_resolutions = ga_resolutions acc, pr_charges = [(''b'', Fin 6)], pr_suppress_k = Some 2, pr_has_aggregate = False\<rparr>"

lemma ex_prepares:
  assumes "one_ref (ex_host_at tables loc) ex_contents ex_caller as_of RExclude ex_ref no_refs w = Some (w1, Inr acc)"
    and "check_as_of as_of acc = Inr ()"
  shows "prepare (ex_host_at tables loc) ex_contents ''q'' ex_caller n as_of RExclude w = Some (w1, Inr (ex_prepared tables loc n acc))"
proof -
  have ok: "check_plan (h_verify_plan (ex_host_at tables loc)) (LScan ''t/orders'') = Inr ()"
    by (simp add: check_plan_def ex_host_simps)
  have "shape_query (ex_host_at tables loc) ex_contents ''q'' ex_caller n as_of ''q'' [] acc = Inr (ex_prepared tables loc n acc)"
    unfolding shape_query_def Let_def ex_host_simps df_simps rt_simps and_then_Inr ex_prepared_def ok assms(2)
      map_res.simps shaped.simps ..
  then show ?thesis
    by (simp add: prepare_def check_sql_def ex_host_simps ex_expanded then_do_def lift_def assms(1) give_def)
qed

lemma ex_prepare:
  obtains p where "prepare ex_host ex_contents ''q'' ex_caller n [] RExclude ex_world = Some (ex_world, Inr p)"
    and "pr_charges p = [(''b'', Fin 6)]" and "pr_suppress_k p = Some 2" and "\<not> pr_has_aggregate p"
proof -
  from ex_one_ref obtain acc where acc: "one_ref ex_host ex_contents ex_caller [] RExclude ex_ref no_refs ex_world
      = Some (ex_world, Inr acc)" ..
  show ?thesis
    by (rule that [OF ex_prepares [OF acc]]) (simp_all add: check_as_of_def ex_prepared_def)
qed

lemma ex_charge:
  assumes "w_budgets w = in_memory"
  obtains w' remaining where "charge (ex_host_at tables loc) (caller_key ex_caller) [(''b'', Fin 6)] w = Some (w', Inr remaining)"
    and "w_cache w' = w_cache w"
proof -
  have no: "\<not> over_limit in_memory (caller_key ex_caller) (''b'', Fin 6)"
    by (rule fresh_not_over) (simp_all add: in_memory_def default_store_def DEFAULT_LIMIT_def)
  obtain s remaining where pay: "pay (caller_key ex_caller) (''b'', Fin 6) (in_memory, []) = (s, remaining)"
    by (cases "pay (caller_key ex_caller) (''b'', Fin 6) (in_memory, [])")
  then have "bs_file s = None"
    using pay_simps(3) [of "caller_key ex_caller" "(''b'', Fin 6)" "(in_memory, [])"] by (simp add: in_memory_def default_store_def)
  then have "charge_all ex_ledgers None d in_memory (caller_key ex_caller) [(''b'', Fin 6)] = (s, Inr (d, remaining))" for d
    using no pay by (simp add: charge_all_def save_ledger_def)
  then have "charge (ex_host_at tables loc) (caller_key ex_caller) [(''b'', Fin 6)] w
      = Some (w\<lparr>w_budgets := s, w_fs := w_fs w\<rparr>, Inr remaining)"
    by (simp add: charge_def ex_host_simps assms) (simp add: in_memory_def default_store_def)
  then show ?thesis by (rule that) simp
qed

lemma ex_physical:
  assumes "pr_suppress_k p = Some 2" and "\<not> pr_has_aggregate p"
  shows "physical (ex_host_at tables loc) p = Inr (Suppressed \<lparr>sx_k = 2, sx_input = ex_scan\<rparr>)"
  using assms
  by (simp add: physical_def ex_host_simps suppress_exec_new_def ensure_gated_def ex_scan_def)

lemma ex_collect:
  "collect (ex_host_at tables loc) ss (Suppressed \<lparr>sx_k = 2, sx_input = ex_scan\<rparr>) w = Inr [ex_rows 3, ex_rows 2]"
  by (simp add: collect_def execute_def ex_host_simps suppress_execute_def hold_first_def ex_rows_def)

lemma ex_answer:
  assumes p: "prepare (ex_host_at tables loc) g ''q'' ex_caller None as_of RExclude w = Some (w1, Inr p)"
    "pr_charges p = [(''b'', Fin 6)]" "pr_suppress_k p = Some 2" "\<not> pr_has_aggregate p"
    and w1: "w_budgets w1 = in_memory" "w_cache w1 = None"
  obtains w' x where "query_as_of (ex_host_at tables loc) g ''q'' ex_caller as_of RExclude w = Some (w', Inr x)"
    and "\<not> en_cached (qr_envelope x)" and "qr_batches x = [ex_rows 3, ex_rows 2]"
proof -
  let ?H = "ex_host_at tables loc"
  obtain w2 remaining where ch: "charge ?H (caller_key ex_caller) [(''b'', Fin 6)] w1 = Some (w2, Inr remaining)"
    and w2: "w_cache w2 = w_cache w1" by (rule ex_charge [OF w1(1)])
  have look: "cache_look ?H (pr_key p) w1 = Some (w1, Inr None)"
    "cache_keep ?H (pr_key p) bs w2 = Some (w2, Inr ())" for bs
    by (simp_all add: cache_look_def cache_keep_def w1 w2)
  define pl where "pl = \<lparr>pl_session = pr_session p, pl_plan = Suppressed \<lparr>sx_k = 2, sx_input = ex_scan\<rparr>,
    pl_contracts = pr_resolutions p, pl_suppress_k = pr_suppress_k p, pl_charges = sum_charges (pr_charges p), pl_budgets = remaining\<rparr>"
  have pl: "plan_once ?H p ex_caller w1 = Some (w2, Inr pl)"
    using p(2) ch by (simp add: plan_once_def then_do_def lift_def ex_physical [OF p(3,4)] give_def pl_def)
  have co: "collect ?H (pl_session pl) (pl_plan pl) w2 = Inr [ex_rows 3, ex_rows 2]"
    by (simp add: pl_def ex_collect)
  obtain x where x: "fresh_answer ?H ''q'' ex_caller ''id'' pl [ex_rows 3, ex_rows 2] w2 = Inr x"
    "\<not> en_cached (qr_envelope x)" "qr_batches x = [ex_rows 3, ex_rows 2]"
    by (simp add: fresh_answer_def Let_def engine_sign_def ex_host_simps)
  have run: "run ?H g ''q'' ex_caller ''id'' as_of RExclude w = Some (w2, Inr x)"
    by (simp add: run_def then_do_def p(1) look pl look_res_def co x(1))
  then have "\<exists>w'. query_as_of ?H g ''q'' ex_caller as_of RExclude w = Some (w', Inr x)"
    by (simp add: query_as_of_def finally_do_def ex_host_simps audit_answer_def audit_def Let_def change_def)
  with x(2,3) that show ?thesis by blast
qed

lemma ex_query:
  obtains w' x where "query_as_of ex_host ex_contents ''q'' ex_caller [] RExclude ex_world = Some (w', Inr x)"
    and "\<not> en_cached (qr_envelope x)" and "qr_batches x = [ex_rows 3, ex_rows 2]"
proof -
  obtain p where p: "prepare ex_host ex_contents ''q'' ex_caller None [] RExclude ex_world = Some (ex_world, Inr p)"
    "pr_charges p = [(''b'', Fin 6)]" "pr_suppress_k p = Some 2" "\<not> pr_has_aggregate p" by (rule ex_prepare)
  show ?thesis by (rule ex_answer [OF p]) (auto simp: ex_world_def intro: that)
qed

section \<open>A table with snapshots\<close>

abbreviation ex_lake_host :: "(unit, unit, ex_json, ex_cache) host" where
  "ex_lake_host \<equiv> ex_host_at Map.empty (Some (IcebergAt ''lake''))"

definition ex_lake_world :: "(ex_json, ex_cache) world" where
  "ex_lake_world = ex_world\<lparr>w_fs := ex_lake, w_catalog := (\<lambda>k. Inr (Some ex_table))\<rparr>"

lemma ex_lake_bound: "host_bound ex_lake_host ex_registered = Inr (BoundFiles (IcebergAt ''lake''))"
  by (simp add: host_bound_def bound_to_def ex_host_simps ok_or_def)

lemma ex_lake_facts_found:
  obtains d where "engine_facts ex_lake_host ex_table 1 ex_registered ex_lake_world = Some (ex_lake_world\<lparr>w_fs := d\<rparr>, Inr (Some ex_first))"
proof -
  from ex_facts_run obtain d where
    "iceberg_facts (ex_facts_env ex_enc) (\<lambda>s. None) ex_table 1 ex_registered ex_lake = Some (d, Inr (Some ex_first))" ..
  then have "engine_facts ex_lake_host ex_table 1 ex_registered ex_lake_world = Some (ex_lake_world\<lparr>w_fs := d\<rparr>, Inr (Some ex_first))"
    by (simp add: engine_facts_def ex_host_simps ex_lake_world_def)
  then show ?thesis by (rule that)
qed

lemma ex_lake_resolution:
  "\<exists>rs. resolve_with ex_runtime ex_contents (host_bound ex_lake_host) True ''t/orders'' ex_caller RExclude (Inr (Some ex_first))
     = Inr (rs, ex_first)"
proof -
  have c: "r_compilation ex_registered = ex_compilation" "contract ex_compilation = ex_contract"
    by (simp_all add: ex_registered_def ex_compilation_def)
  have "m_breached ex_first = []" "m_guarantees ex_first = []"
    by (simp_all add: ex_first_def ex_append_def ex_facts_def finished_def Let_def breached_rules_def failed_asserts_def
        ex_contract_simps bt_get_or_def)
  then have s: "servable ex_contract ex_first RExclude = Inr ()"
    "check_guarantees ex_runtime ex_compilation ex_caller ex_first (guarantees ex_contract) [] = Inr []"
    by (simp_all add: servable_Inr guarantee_holds_def ex_contract_simps)
  show ?thesis
    unfolding resolve_with_def ex_visible and_then_Inr Let_def c ex_rt_simps rt_simps option.case s ex_lake_bound
    by blast
qed

lemma ex_lake_one_ref:
  obtains d acc where "one_ref ex_lake_host ex_contents ex_caller [(''t/orders'', 1)] RExclude ex_ref no_refs ex_lake_world
      = Some (ex_lake_world\<lparr>w_fs := d\<rparr>, Inr acc)" and "resolved acc ''t/orders''"
proof -
  obtain d where d: "engine_facts ex_lake_host ex_table 1 ex_registered ex_lake_world = Some (ex_lake_world\<lparr>w_fs := d\<rparr>, Inr (Some ex_first))"
    by (rule ex_lake_facts_found)
  let ?w = "ex_lake_world\<lparr>w_fs := d\<rparr>"
  have cat: "w_catalog ex_lake_world k = Inr (Some ex_table)" "w_catalog ?w k = Inr (Some ex_table)" for k
    by (simp_all add: ex_lake_world_def)
  obtain snp where sn: "map_of (it_snapshots ex_table) 1 = Some snp" by (simp add: ex_table_def)
  have "manifest_as_of ex_lake_host ex_contents ''t/orders'' 1 ex_lake_world = Some (?w, Inr (Some ex_first))"
    using sn by (simp add: manifest_as_of_def ex_get ex_lake_bound then_do_def lift_def look_res_def cat d)
  then have en: "ensure_manifest_as_of ex_lake_host ex_contents ''t/orders'' 1 ex_lake_world = Some (?w, Inr ex_first)"
    by (simp add: ensure_manifest_as_of_def then_do_def give_def)
  from ex_lake_resolution obtain rs where rs: "resolve_with ex_runtime ex_contents (host_bound ex_lake_host) True ''t/orders''
      ex_caller RExclude (Inr (Some ex_first)) = Inr (rs, ex_first)" ..
  have re: "resolve_ref ex_lake_host ex_contents ex_caller [(''t/orders'', 1)] RExclude ''t/orders'' ex_lake_world = Some (?w, Inr (rs, ex_first))"
    by (simp add: resolve_ref_def then_do_def en lift_def ex_host_simps rs)
  from resolve_with_snapshot [OF rs] have named: "rs_contract rs = ''t/orders''" "rs_snapshot_id rs = Some 1"
    using after_write_snapshot [OF ex_first_run] by (auto simp: ex_visible ex_registered_def ex_contract_simps)
  have snap: "iceberg_snapshot k ''t/orders'' (Some 1) ?w = Inr (ex_table, 1)" for k
    using sn by (simp add: iceberg_snapshot_def cat ok_or_def)
  have opens: "open_data ex_lake_host ''t/orders'' ?w (BoundFiles (IcebergAt ''lake'')) cc st (Some 1) = Inr ()" for cc st
    by (simp add: open_data_def snap ex_host_simps)
  have "\<exists>v. contract_view ex_runtime ex_contents (host_bound ex_lake_host) (open_data ex_lake_host ''t/orders'' ?w) ''t/orders'' ex_caller rs = Inr v"
    unfolding contract_view_def ex_visible and_then_Inr Let_def ex_lake_bound named opens ex_rt_simps if_cancel df_simps rt_simps
    by blast
  then obtain v where vi: "engine_view ex_lake_host ex_contents ''t/orders'' ex_caller rs ?w = Some (?w, Inr v)"
    by (auto simp: engine_view_def look_res_def ex_host_simps)
  have fields: "tr_table ex_ref = ''t/orders''" "tr_schema ex_ref = None" "\<not> resolved no_refs n" for n
    by (simp_all add: ex_ref_def resolved_def no_refs_def)
  have pf: "params_fingerprint ex_lake_host cc ex_caller = Inr []" for cc
    by (simp add: params_fingerprint_def ex_host_simps ex_rt_simps)
  show ?thesis
  proof (rule that)
    show "one_ref ex_lake_host ex_contents ex_caller [(''t/orders'', 1)] RExclude ex_ref no_refs ex_lake_world
      = Some (?w, Inr \<lparr>ga_resolutions = ga_resolutions no_refs @ [rs], ga_active = ga_active no_refs @ [],
            ga_fingerprints = ga_fingerprints no_refs @ [(''t/orders'', fingerprint_of ex_lake_host rs [] ex_first)],
            ga_tables = ga_tables no_refs @ [(ex_ref, v)]\<rparr>)"
      unfolding one_ref_def Let_def fields
      by (simp add: ex_visible fields then_do_def lift_def re vi ex_host_simps ex_rt_simps pf give_def ex_get)
  qed (simp add: resolved_def named)
qed

section \<open>The properties at it\<close>

theorem every_query_is_audited_witness:
  "\<exists>w'. length (w_audit w') = 1 \<and> (\<exists>x. query_as_of ex_host ex_contents ''q'' ex_caller [] RExclude ex_world = Some (w', Inr x))"
proof -
  obtain w' x where q: "query_as_of ex_host ex_contents ''q'' ex_caller [] RExclude ex_world = Some (w', Inr x)"
    by (rule ex_query)
  from every_query_is_audited [OF q] have "\<exists>rec. w_audit w' = [rec]" by (auto simp: ex_world_def)
  with q show ?thesis by auto
qed

theorem answers_come_through_gates_witness:
  "\<exists>ss plan w. collect ex_host ss plan w = Inr [ex_rows 3, ex_rows 2]
     \<and> (\<forall>k c. reads None (as_pplan plan) k c \<longrightarrow> k = Some c)"
proof -
  obtain w' x where q: "query_as_of ex_host ex_contents ''q'' ex_caller [] RExclude ex_world = Some (w', Inr x)"
    "\<not> en_cached (qr_envelope x)" "qr_batches x = [ex_rows 3, ex_rows 2]" by (rule ex_query)
  from answers_come_through_gates [OF q(1,2)] q(3) show ?thesis by simp
qed

theorem answers_are_paid_for_witness:
  "\<exists>err d d' w' x. query_as_of ex_host ex_contents ''q'' ex_caller [] RExclude ex_world = Some (w', Inr x)
     \<and> charge_all ex_ledgers err d in_memory ''u/alice'' [(''b'', Fin 6)] = (w_budgets w', Inr (d', en_budgets (qr_envelope x)))"
proof -
  obtain w' x where q: "query_as_of ex_host ex_contents ''q'' ex_caller [] RExclude ex_world = Some (w', Inr x)"
    "\<not> en_cached (qr_envelope x)" by (rule ex_query)
  obtain p where p: "prepare ex_host ex_contents ''q'' ex_caller None [] RExclude ex_world = Some (ex_world, Inr p)"
    "pr_charges p = [(''b'', Fin 6)]" by (rule ex_prepare)
  from answers_are_paid_for [OF q(1)] q(2) p obtain err d d' where
    "charge_all ex_ledgers err d in_memory ''u/alice'' [(''b'', Fin 6)] = (w_budgets w', Inr (d', en_budgets (qr_envelope x)))"
    by (auto simp: ex_host_simps ex_world_def caller_key_def ex_caller_def)
  with q(1) show ?thesis by blast
qed

theorem small_answers_are_withheld_witness:
  "\<exists>w' x. query_as_of ex_host ex_contents ''q'' ex_caller [] RExclude ex_world = Some (w', Inr x)
     \<and> 2 \<le> total_rows (qr_batches x)"
proof -
  obtain w' x where q: "query_as_of ex_host ex_contents ''q'' ex_caller [] RExclude ex_world = Some (w', Inr x)"
    "\<not> en_cached (qr_envelope x)" "qr_batches x = [ex_rows 3, ex_rows 2]" by (rule ex_query)
  obtain p where p: "prepare ex_host ex_contents ''q'' ex_caller None [] RExclude ex_world = Some (ex_world, Inr p)"
    "pr_suppress_k p = Some 2" "\<not> pr_has_aggregate p" by (rule ex_prepare)
  from small_answers_are_withheld [OF p q(1,2)] q show ?thesis by (auto simp: ex_rows_def)
qed

lemma ex_refused: "query_as_of ex_host g ''explain'' who as_of v ex_world
    = audit_step" if "audit_step = finally_do (stop (Refused ''EXPLAIN'')) (audit_answer ex_host ''id'' ''explain'' who) ex_world"
  for audit_step
proof -
  have "prepare ex_host g ''explain'' who None as_of v ex_world = Some (ex_world, Inl (Refused ''EXPLAIN''))"
    by (simp add: prepare_def then_do_def lift_def check_sql_def ex_host_simps)
  then show ?thesis
    by (simp add: that query_as_of_def finally_do_def run_def then_do_run stop_def ex_host_simps)
qed

theorem refused_charges_nothing_witness:
  "\<exists>w'. query_as_of ex_host ex_contents ''explain'' ex_caller [] RExclude ex_world = Some (w', Inl (Refused ''EXPLAIN''))
     \<and> w_budgets w' = in_memory"
proof -
  obtain w' where q: "query_as_of ex_host ex_contents ''explain'' ex_caller [] RExclude ex_world
      = Some (w', Inl (Refused ''EXPLAIN''))"
    by (simp add: ex_refused [OF refl] finally_do_def stop_def audit_answer_def audit_def Let_def ex_host_simps change_def)
  from refused_charges_nothing [OF q] show ?thesis using q by (simp add: ex_host_simps ex_world_def)
qed


theorem looking_is_free_witness:
  "\<exists>w1 c w2 t. check ex_host ex_contents ''q'' ex_caller RExclude ex_world = Some (w1, Inr c)
     \<and> explain ex_host ex_contents ''q'' ex_caller ex_world = Some (w2, Inr t)
     \<and> w_budgets w1 = in_memory \<and> w_budgets w2 = in_memory"
proof -
  obtain p where p: "prepare ex_host ex_contents ''q'' ex_caller None [] RExclude ex_world = Some (ex_world, Inr p)"
    "pr_suppress_k p = Some 2" "\<not> pr_has_aggregate p" by (rule ex_prepare)
  then obtain c where c: "check ex_host ex_contents ''q'' ex_caller RExclude ex_world = Some (ex_world, Inr c)"
    by (simp add: check_parts)
  from p obtain t where t: "explain ex_host ex_contents ''q'' ex_caller ex_world = Some (ex_world, Inr t)"
    by (simp add: explain_def then_do_def lift_def ex_physical give_def)
  from looking_is_free [OF c t] c t show ?thesis by (auto simp: ex_world_def)
qed

theorem spooled_answers_alike_witness:
  "\<exists>w' x. query_spooled ex_host ex_contents ''q'' ex_caller RExclude ex_world = Some (w', Inr (spooled ex_host x))
     \<and> qr_batches x = [ex_rows 3, ex_rows 2]"
proof -
  obtain w' x where q: "query_as_of ex_host ex_contents ''q'' ex_caller [] RExclude ex_world = Some (w', Inr x)"
    "qr_batches x = [ex_rows 3, ex_rows 2]" by (rule ex_query)
  have "query_spooled ex_host ex_contents ''q'' ex_caller RExclude ex_world = Some (w', Inr (spooled ex_host x))"
    by (subst spooled_answers_alike) (simp_all add: ex_host_simps q(1), simp add: ex_world_def)
  with q(2) show ?thesis by blast
qed

text \<open>A contract another tenant owns, and no audience.\<close>

abbreviation ex_secret :: registered where
  "ex_secret \<equiv> ex_registered\<lparr>r_compilation := ex_compilation\<lparr>contract := ex_contract\<lparr>cc_owner := Some ''t''\<rparr>\<rparr>\<rparr>"

theorem hidden_contracts_do_not_matter_witness:
  "query_as_of ex_host (mem_put ex_secret empty_contents) ''q'' ex_caller [] RExclude ex_world
     = query_as_of ex_host empty_contents ''q'' ex_caller [] RExclude ex_world"
proof -
  have "visible (mem_put ex_secret empty_contents) n ex_caller = visible empty_contents n ex_caller" for n
    by (simp add: visible_def mem_current_def mem_put_def newest_def empty_contents_def bt_update_def bt_get_or_def
        reg_name_def ex_contract_simps reg_owner_def ex_caller_def mem_audiences_def)
  then have "\<forall>n. visible (mem_put ex_secret empty_contents) n ex_caller = visible empty_contents n ex_caller" by blast
  from hidden_contracts_do_not_matter [OF this, where H = ex_host] show ?thesis by simp
qed

theorem named_snapshots_are_read_witness:
  "\<exists>w' x. query_as_of ex_lake_host ex_contents ''q'' ex_caller [(''t/orders'', 1)] RExclude ex_lake_world = Some (w', Inr x)
     \<and> (\<exists>r \<in> set (en_contracts (qr_envelope x)). rs_snapshot_id r = Some 1)"
proof -
  obtain d acc where one: "one_ref ex_lake_host ex_contents ex_caller [(''t/orders'', 1)] RExclude ex_ref no_refs ex_lake_world
      = Some (ex_lake_world\<lparr>w_fs := d\<rparr>, Inr acc)" and acc: "resolved acc ''t/orders''"
    by (rule ex_lake_one_ref)
  from acc have "check_as_of [(''t/orders'', 1)] acc = Inr ()" by (simp add: check_as_of_def)
  note prep = ex_prepares [OF one this, of None]
  obtain w' x where q: "query_as_of ex_lake_host ex_contents ''q'' ex_caller [(''t/orders'', 1)] RExclude ex_lake_world = Some (w', Inr x)"
    by (rule ex_answer [OF prep]) (simp_all add: ex_prepared_def ex_lake_world_def ex_world_def)
  have "reg_name reg = n" if "mem_current ex_contents n = Some reg" for n reg
    using that by (auto simp: ex_contents_def mem_current_def mem_put_def newest_def empty_contents_def bt_update_def
      bt_get_or_def ex_reg_simps split: if_splits)
  with named_snapshots_are_read [OF q, of "''t/orders''" 1] q show ?thesis by auto
qed

section \<open>What is known of data\<close>

theorem validated_is_known_witness:
  "\<exists>w' v m. engine_validate ex_host ex_contents ''t/orders'' ex_world = Some (w', Inr v)
     \<and> engine_manifest ex_host ex_contents ''t/orders'' w' = Inr (Some m) \<and> m_row_count m = 5"
proof -
  have "whole ex_host ex_contents ''t/orders'' p None ex_world
      = Some (ex_world, Inr (\<lparr>dv_verdict = ex_verdict, dv_data_hash = [], dv_snapshot = None\<rparr>, []))" for p
    by (simp add: whole_def Let_def ex_get ex_bound then_do_def lift_def validate_in_def ex_host_simps look_res_def give_def
        ipc_bytes_def ex_facts_env_def)
  then obtain w' where val: "engine_validate ex_host ex_contents ''t/orders'' ex_world
      = Some (w', Inr \<lparr>dv_verdict = ex_verdict, dv_data_hash = [], dv_snapshot = None\<rparr>)"
    by (simp add: engine_validate_def Let_def ex_get ex_bound then_do_def lift_def change_def give_def)
  have laws: "codec_laws (fe_facts (h_facts ex_host))" by (simp add: ex_host_simps ex_enc_laws)
  have "cc_name (contract (r_compilation ex_registered)) = ''t/orders''"
    by (simp add: ex_registered_def ex_contract_simps)
  from validated_is_known [OF val laws ex_get this] val show ?thesis by (auto simp: ex_verdict_def)
qed

theorem ensured_data_is_known_witness:
  "list_files (w_trees ex_world ''orders'') = Inr []
   \<and> ensure_manifest (ex_host_at Map.empty (Some (Local ''orders''))) ex_contents ''t/orders'' ex_world = Some (ex_world, Inr ())"
proof -
  let ?H = "ex_host_at Map.empty (Some (Local ''orders''))"
  have b: "host_bound ?H ex_registered = Inr (BoundFiles (Local ''orders''))"
    by (simp add: host_bound_def bound_to_def ex_host_simps ok_or_def)
  have none: "load_manifest J (w_fs ex_world) d n = Inr None" for J :: "(unit, ex_json manifest) facts_codec" and d n
    by (simp add: load_manifest_def ex_world_def)
  have files: "list_files (w_trees ex_world d) = Inr []" for d
    by (simp add: ex_world_def list_files_def)
  have en: "ensure_manifest ?H ex_contents ''t/orders'' ex_world = Some (ex_world, Inr ())"
    by (simp add: ensure_manifest_def ex_get b then_do_def lift_def look_res_def none files give_def)
  have ma: "engine_manifest ?H ex_contents ''t/orders'' ex_world = Inr None"
    unfolding engine_manifest_def ex_get and_then_Inr b by (simp add: none)
  have laws: "codec_laws (fe_facts (h_facts ?H))" by (simp add: ex_host_simps ex_enc_laws)
  have "cc_name (contract (r_compilation ex_registered)) = ''t/orders''"
    by (simp add: ex_registered_def ex_contract_simps)
  from ensured_data_is_known [OF en ma laws ex_get this b] en show ?thesis by simp
qed

theorem object_facts_outlive_data_witness:
  "\<exists>w. obj_list_files (w_objects w ''s3://lake'') \<lparr>store_url = ''s3://lake'', obj_path = [''orders'']\<rparr> = []
     \<and> engine_manifest (ex_host_at Map.empty (Some (ObjectAt \<lparr>store_url = ''s3://lake'', obj_path = [''orders'']\<rparr>)))
         ex_contents ''t/orders'' w = Inr (Some ex_servable)"
proof -
  let ?l = "\<lparr>store_url = ''s3://lake'', obj_path = [''orders'']\<rparr>"
  let ?H = "ex_host_at Map.empty (Some (ObjectAt ?l))" and ?w = "ex_world\<lparr>object_manifests := [''t/orders'' \<mapsto> ex_servable]\<rparr>"
  have b: "host_bound ?H ex_registered = Inr (BoundFiles (ObjectAt ?l))"
    by (simp add: host_bound_def bound_to_def ex_host_simps ok_or_def)
  have "load_object_manifest ?H ?l ''t/orders'' (w_fs ?w) = Inr None"
    by (simp add: load_object_manifest_def ex_world_def)
  moreover have none: "obj_list_files (w_objects ?w (store_url ?l)) ?l = []"
    by (simp add: obj_list_files_def ex_world_def)
  ultimately have "engine_manifest ?H ex_contents ''t/orders'' ?w = Inr (object_manifests ?w ''t/orders'')"
    using object_facts_outlive_data [OF ex_get b] by blast
  with none show ?thesis by (intro exI [of _ ?w]) simp
qed

end
