(* ===== verification/Lake.thy ===== *)
theory Lake
  imports Engine_State Float64
begin

text \<open>
  The table a write to an Iceberg table begins from (\<open>src/iceberg_table.rs\<close>): how its schema is made to
  have the contract's columns while other writers change it, how often a commit is tried again, and what a
  write's data files hold. The catalog and the Iceberg crate are parameters; what other writers do to the
  catalog's tables happens between any two calls of it.
\<close>

section \<open>Column types\<close>

text \<open>Whether two types are the same, ignoring ids.\<close>

fun same_type :: "ice_type \<Rightarrow> ice_type \<Rightarrow> bool"
  and same_fields :: "ice_field list \<Rightarrow> ice_field list \<Rightarrow> bool" where
  "same_type (IPrimitive x) (IPrimitive y) \<longleftrightarrow> x = y"
| "same_type (IList (IceField i n r s)) (IList (IceField j m q t)) \<longleftrightarrow> r = q \<and> same_type s t"
| "same_type (IMap (IceField i n r s) (IceField i' n' r' s')) (IMap (IceField j m q t) (IceField j' m' q' t'))
     \<longleftrightarrow> same_type s t \<and> same_type s' t'"
| "same_type (IStruct xs) (IStruct ys) \<longleftrightarrow> length xs = length ys \<and> same_fields xs ys"
| "same_type _ _ \<longleftrightarrow> False"
| "same_fields (IceField i n r s # xs) (IceField j m q t # ys) \<longleftrightarrow> n = m \<and> same_type s t \<and> same_fields xs ys"
| "same_fields _ _ \<longleftrightarrow> True"

section \<open>Trying a commit again\<close>

text \<open>Durations are nanoseconds, at most what a \<open>Duration\<close> holds.\<close>

definition duration_max :: nat where
  "duration_max = (2 ^ 64 - 1) * 10 ^ 9 + 999999999"

text \<open>\<open>mul_f64\<close>: the seconds as a double, multiplied, rounded back to nanoseconds.\<close>

definition as_secs_f64 :: "nat \<Rightarrow> f64" where
  "as_secs_f64 d = f64_add (f64_of_int (int (d div 10 ^ 9)))
     (f64_div (f64_of_int (int (d mod 10 ^ 9))) (f64_of_int (10 ^ 9)))"

definition duration_mul :: "nat \<Rightarrow> f64 \<Rightarrow> nat" where
  "duration_mul d x = (case f64_mul x (as_secs_f64 d) of Fin y \<Rightarrow> nat (round_even (y * 10 ^ 9)) | _ \<Rightarrow> 0)"

definition clamp_unit :: "f64 \<Rightarrow> f64" where
  "clamp_unit x = (if f64_lt x (Fin 0) then Fin 0 else if f64_lt (Fin 1) x then Fin 1 else x)"

text \<open>The wait before retry \<open>retried + 1\<close>; \<open>u\<close> is the random share.\<close>

definition wait_for :: "commit_retry \<Rightarrow> nat \<Rightarrow> f64 \<Rightarrow> nat" where
  "wait_for p retried u =
     (let base = min (min duration_max (cr_min_wait p * 2 ^ min retried 31)) (cr_max_wait p)
      in min (min duration_max (base + duration_mul base (clamp_unit u))) (cr_max_wait p))"

section \<open>The catalog and the Iceberg crate\<close>

datatype ice_error = CommitConflicts string | OtherIce string

fun ice_text :: "ice_error \<Rightarrow> string" where
  "ice_text (CommitConflicts s) = s"
| "ice_text (OtherIce s) = s"

definition from_ice :: "ice_error \<Rightarrow> peql_error" where
  "from_ice e = IcebergError (ice_text e)"

definition as_ice :: "peql_error \<Rightarrow> ice_error" where
  "as_ice e = OtherIce (case e of IcebergError s \<Rightarrow> s | _ \<Rightarrow> error_text e)"

text \<open>A data file a write adds to a table, and one a manifest lists.\<close>

record new_file =
  nf_path :: string
  nf_spec :: int
  nf_records :: nat
  nf_bytes :: nat

record manifest_entry =
  me_alive :: bool
  me_is_data :: bool
  me_path :: string
  me_records :: nat
  me_bytes :: nat

text \<open>
  What is used of the catalog and the crate: creating a table, a transaction that adds columns to the table
  it was begun over or appends files to it, committed over the table the catalog then has; the conversions
  of types; reading manifests; the clock and the random numbers of retries.
\<close>

record lake_api =
  la_create :: "string \<Rightarrow> (string \<times> bool \<times> ice_type) list \<Rightarrow> ice_error + ice_table"
  la_type :: "data_type \<Rightarrow> ice_error + ice_type"
  la_arrow :: "ice_type \<Rightarrow> ice_error + data_type"
  la_debug :: "data_type \<Rightarrow> string"
  la_add_columns :: "ice_table \<Rightarrow> (string \<times> ice_type) list \<Rightarrow> ice_table option \<Rightarrow> ice_error + ice_table"
  la_append :: "ice_table \<Rightarrow> bool \<Rightarrow> new_file list \<Rightarrow> (string, string) btmap \<Rightarrow> ice_table option \<Rightarrow> ice_error + ice_table"
  la_missing :: "string \<Rightarrow> string"
  la_list_error :: "ice_table \<Rightarrow> int \<Rightarrow> ice_error option"
  la_manifest :: "string \<Rightarrow> ice_error + manifest_entry list"
  la_base_error :: "ice_table \<Rightarrow> peql_error option"
  la_delete_error :: "ice_table \<Rightarrow> ice_error option"
  la_no_field_id :: "data_file \<Rightarrow> string option"
  la_null :: "data_type \<Rightarrow> df_error option"
  la_plan_error :: "lplan \<Rightarrow> df_error option"
  la_random :: "nat \<Rightarrow> nat"
  la_elapsed :: "nat \<Rightarrow> nat"

definition of_ice :: "ice_error + 'a \<Rightarrow> 'a res" where
  "of_ice r = (case r of Inl e \<Rightarrow> Inl (from_ice e) | Inr x \<Rightarrow> Inr x)"

lemma of_ice_simps [simp, res_simps]: "of_ice (Inl e) = Inl (from_ice e)" "of_ice (Inr x) = Inr x"
  "of_ice r = Inr x \<longleftrightarrow> r = Inr x"
  by (auto simp: of_ice_def split: sum.splits)

text \<open>Another writer's turn, and the two calls of the catalog.\<close>

definition others :: "(('j, 'l) world, unit) step" where
  "others = change (\<lambda>w. case w_others w of [] \<Rightarrow> w
     | f # fs \<Rightarrow> w\<lparr>w_catalog := f (w_catalog w), w_others := fs\<rparr>)"

definition load_table :: "string \<Rightarrow> (('j, 'l) world, ice_table option) step" where
  "load_table k = then_do others (\<lambda>_. look_res (\<lambda>w. w_catalog w k))"

definition commit_now ::
  "string \<Rightarrow> (ice_table option \<Rightarrow> ice_error + ice_table) \<Rightarrow> (('j, 'l) world, ice_error + ice_table) step" where
  "commit_now k f = (\<lambda>w. case w_catalog w k of
       Inl e \<Rightarrow> Some (w, Inr (Inl (as_ice e)))
     | Inr to \<Rightarrow> (case f to of
           Inl e \<Rightarrow> Some (w, Inr (Inl e))
         | Inr t \<Rightarrow> Some (w\<lparr>w_catalog := (w_catalog w)(k := Inr (Some t))\<rparr>, Inr (Inr t))))"

definition commit_to ::
  "string \<Rightarrow> (ice_table option \<Rightarrow> ice_error + ice_table) \<Rightarrow> (('j, 'l) world, ice_error + ice_table) step" where
  "commit_to k f = then_do others (\<lambda>_. commit_now k f)"

text \<open>\<open>Retrying::wait\<close>: whether another attempt is due, \<open>retried\<close> having been made.\<close>

definition random_share :: "lake_api \<Rightarrow> nat \<Rightarrow> f64" where
  "random_share A retried = f64_div (f64_of_int (int (la_random A retried))) (f64_of_int (2 ^ 64 - 1))"

definition in_time :: "lake_api \<Rightarrow> commit_retry \<Rightarrow> nat \<Rightarrow> bool" where
  "in_time A p retried \<longleftrightarrow>
     min duration_max (la_elapsed A retried + wait_for p retried (random_share A retried)) \<le> cr_total p"

section \<open>The table's columns\<close>

text \<open>The columns written under a contract.\<close>

definition table_schema :: "compiled_contract \<Rightarrow> schema" where
  "table_schema cc =
     scan_schema cc
     @ map (\<lambda>f. \<lparr>field_name = flag_column f, field_type = TBoolean, nullable = True\<rparr>) (cc_flags cc)
     @ map (\<lambda>d. \<lparr>field_name = derived_column d, field_type = derived_type d, nullable = True\<rparr>) (cc_derived cc)"

definition named_ice :: "string \<Rightarrow> ice_field list \<Rightarrow> ice_field option" where
  "named_ice n fs = find (\<lambda>f. if_name f = n) fs"

definition wanted_types :: "lake_api \<Rightarrow> schema \<Rightarrow> (field \<times> ice_type) list res" where
  "wanted_types A want = map_res (\<lambda>f. and_then (of_ice (la_type A (field_type f))) (\<lambda>t. Inr (f, t))) want"

definition arrow_types :: "lake_api \<Rightarrow> ice_field list \<Rightarrow> (ice_field \<times> data_type) list res" where
  "arrow_types A fs = map_res (\<lambda>f. and_then (of_ice (la_arrow A (if_type f))) (\<lambda>t. Inr (f, t))) fs"

text \<open>The columns to add, in order; a column of another type is refused.\<close>

fun missing_columns ::
  "lake_api \<Rightarrow> string \<Rightarrow> bool \<Rightarrow> (ice_field \<times> data_type) list \<Rightarrow> (field \<times> ice_type) list \<Rightarrow> (string \<times> ice_type) list res" where
  "missing_columns A k raced current [] = Inr []"
| "missing_columns A k raced current ((f, w) # ws) =
     (case find (\<lambda>h. if_name (fst h) = field_name f) current of
        None \<Rightarrow> and_then (missing_columns A k raced current ws) (\<lambda>cs. Inr ((field_name f, w) # cs))
      | Some (h, hv) \<Rightarrow>
          if \<not> same_type (if_type h) w
          then Inl (Invalid (''column `'' @ field_name f @ ''` of '' @ k @ '' is '' @ la_debug A hv
            @ ''; the contract writes '' @ la_debug A (field_type f)
            @ (if raced then '' (another writer changed the table's schema meanwhile)'' else [])))
          else missing_columns A k raced current ws)"

definition schema_change :: "lake_api \<Rightarrow> string \<Rightarrow> ice_table \<Rightarrow> schema \<Rightarrow> bool \<Rightarrow> (string \<times> ice_type) list res" where
  "schema_change A k t want raced =
     and_then (arrow_types A (it_schema t)) (\<lambda>current.
     and_then (wanted_types A want) (\<lambda>wanted.
       missing_columns A k raced current wanted))"

text \<open>
  One turn of \<open>evolve\<close>'s loop over table \<open>t\<close>; \<open>refused\<close> is the last refusal, \<open>again\<close> the next turn when
  there is one.
\<close>

definition evolve_more ::
  "lake_api \<Rightarrow> string \<Rightarrow> schema \<Rightarrow> commit_retry \<Rightarrow> nat \<Rightarrow> (ice_table \<Rightarrow> ice_error option \<Rightarrow> (('j, 'l) world, ice_table) step) option
     \<Rightarrow> ice_table \<Rightarrow> ice_error option \<Rightarrow> (('j, 'l) world, ice_table) step" where
  "evolve_more A k want p retried again t refused =
     (if again \<noteq> None \<and> in_time A p retried
      then then_do (load_table k) (\<lambda>to. case to of
             None \<Rightarrow> stop (Invalid (k @ '' was dropped while its schema was changed''))
           | Some t \<Rightarrow> the again t refused)
      else then_do (lift (schema_change A k t want True)) (\<lambda>cs.
             if cs = [] then give t
             else stop (Conflict (''the schema of '' @ k @ '' changed under each of '' @ show_nat (retried + 1)
               @ '' attempts to make it have the contract's columns; the last refusal: ''
               @ (case refused of None \<Rightarrow> ''none'' | Some e \<Rightarrow> ice_text e)))))"

definition evolve_turn ::
  "lake_api \<Rightarrow> string \<Rightarrow> schema \<Rightarrow> commit_retry \<Rightarrow> nat \<Rightarrow> (ice_table \<Rightarrow> ice_error option \<Rightarrow> (('j, 'l) world, ice_table) step) option
     \<Rightarrow> ice_table \<Rightarrow> ice_error option \<Rightarrow> (('j, 'l) world, ice_table) step" where
  "evolve_turn A k want p retried again t refused =
     then_do (lift (schema_change A k t want (refused \<noteq> None))) (\<lambda>cs.
       if cs = [] then give t
       else then_do (commit_to k (la_add_columns A t cs)) (\<lambda>r. case r of
           Inr t' \<Rightarrow> then_do (lift (schema_change A k t' want (refused \<noteq> None))) (\<lambda>cs.
             if cs = [] then give t' else evolve_more A k want p retried again t' refused)
         | Inl e \<Rightarrow> then_do (load_table k) (\<lambda>to. case to of
               None \<Rightarrow> stop (Invalid (k @ '' was dropped while its schema was changed: '' @ ice_text e))
             | Some now \<Rightarrow>
                 if it_uuid now = it_uuid t \<and> it_schema_id now = it_schema_id t \<and> it_schema now = it_schema t
                 then stop (from_ice e) else evolve_more A k want p retried again now (Some e))))"

text \<open>The loop, \<open>remaining\<close> retries being left.\<close>

primrec evolve_loop ::
  "lake_api \<Rightarrow> string \<Rightarrow> schema \<Rightarrow> commit_retry \<Rightarrow> nat \<Rightarrow> ice_table \<Rightarrow> ice_error option \<Rightarrow> (('j, 'l) world, ice_table) step" where
  "evolve_loop A k want p 0 = evolve_turn A k want p (cr_retries p) None"
| "evolve_loop A k want p (Suc remaining) =
     evolve_turn A k want p (cr_retries p - Suc remaining) (Some (evolve_loop A k want p remaining))"

definition evolve :: "lake_api \<Rightarrow> string \<Rightarrow> ice_table \<Rightarrow> schema \<Rightarrow> (('j, 'l) world, ice_table) step" where
  "evolve A k t want = then_do (lift (it_retry t)) (\<lambda>p. evolve_loop A k want p (cr_retries p) t None)"

section \<open>Beginning a write\<close>

datatype write_kind = KindAppend | KindOverwrite | KindRewrite int

record iceberg_write =
  iw_id :: string
  iw_table :: string
  iw_base :: "int option"
  iw_schema :: "(ice_field \<times> data_type) list"
  iw_prefix :: string
  iw_dir :: string
  iw_staged :: bool
  iw_kind :: write_kind

fun has_scheme :: "string \<Rightarrow> bool" where
  "has_scheme [] \<longleftrightarrow> False"
| "has_scheme (c # s) \<longleftrightarrow> take 3 (c # s) = ''://'' \<or> has_scheme s"

definition local_dir :: "string \<Rightarrow> string option res" where
  "local_dir l =
     (if has_scheme l \<and> strip_prefix ''file://'' l = None then Inr None
      else let p = (case strip_prefix ''file://'' l of Some p \<Rightarrow> p | None \<Rightarrow> l)
           in if \<not> is_absolute p
              then Inl (Invalid (''`'' @ l @ ''` is neither an absolute path nor a store URL''))
              else Inr (Some p))"

text \<open>\<open>create_dir_all\<close>.\<close>

definition create_dir :: "('v, 'w, 'j, 'l) host \<Rightarrow> string \<Rightarrow> (('j, 'l) world, unit) step" where
  "create_dir H dir =
     (case h_write_error H dir of
        Some e \<Rightarrow> stop (Io e)
      | None \<Rightarrow> change (\<lambda>w. w\<lparr>w_trees := (w_trees w)(dir := (case w_trees w dir of None \<Rightarrow> Some (Dir []) | Some t \<Rightarrow> Some t))\<rparr>))"

definition create_table :: "lake_api \<Rightarrow> string \<Rightarrow> schema \<Rightarrow> (('j, 'l) world, ice_table) step" where
  "create_table A k want =
     then_do (lift (wanted_types A want)) (\<lambda>ws.
     then_do (commit_to k (\<lambda>to. if to \<noteq> None then Inl (OtherIce (k @ '' already exists''))
        else la_create A k (map (\<lambda>(f, t). (field_name f, \<not> nullable f, t)) ws))) (\<lambda>r. lift (of_ice r)))"

definition unwritten_required :: "string \<Rightarrow> compiled_contract \<Rightarrow> ice_table \<Rightarrow> unit res" where
  "unwritten_required k cc t =
     (case find (\<lambda>f. if_required f \<and> field_with_name (table_schema cc) (if_name f) = None) (it_schema t) of
        None \<Rightarrow> Inr ()
      | Some f \<Rightarrow> Inl (Invalid (''column `'' @ if_name f @ ''` of '' @ k @ '' is required, and `'' @ cc_name cc
          @ ''` does not write it: a write may not leave a required column without a value'')))"

definition ice_begin_write ::
  "('v, 'w, 'j, 'l) host \<Rightarrow> lake_api \<Rightarrow> string \<Rightarrow> string \<Rightarrow> compiled_contract \<Rightarrow> write_kind \<Rightarrow> string
     \<Rightarrow> (('j, 'l) world, iceberg_write) step" where
  "ice_begin_write H A k uuid cc kind staging =
     then_do (load_table k) (\<lambda>to.
     then_do (case to of Some t \<Rightarrow> evolve A k t (table_schema cc) | None \<Rightarrow> create_table A k (table_schema cc)) (\<lambda>t.
     then_do (case kind of KindRewrite _ \<Rightarrow> give () | _ \<Rightarrow> lift (unwritten_required k cc t)) (\<lambda>_.
     let prefix = trim_slashes (it_location t) @ ''/data/'' @ uuid in
     then_do (lift (local_dir prefix)) (\<lambda>ld.
     let dir = (case ld of Some d \<Rightarrow> d | None \<Rightarrow> path_join staging uuid) in
     then_do (create_dir H dir) (\<lambda>_.
     then_do (lift (arrow_types A (it_schema t))) (\<lambda>cols.
       give \<lparr>iw_id = uuid, iw_table = k, iw_base = it_current t, iw_schema = cols, iw_prefix = prefix,
         iw_dir = dir, iw_staged = (ld = None), iw_kind = kind\<rparr>))))))"

section \<open>What a data file holds\<close>

text \<open>Every column of the table, in its order, with its type and its id.\<close>

definition project_column ::
  "lake_api \<Rightarrow> string \<Rightarrow> string list \<Rightarrow> ice_field \<times> data_type \<Rightarrow> (expr \<times> ice_field) res" where
  "project_column A k cols c =
     (case c of (f, ty) \<Rightarrow>
        if if_name f \<in> set cols then Inr (Cast (Column (if_name f)) ty, f)
        else if \<not> if_required f
        then (case la_null A ty of Some e \<Rightarrow> Inl (DataFusion e) | None \<Rightarrow> Inr (Literal CNull, f))
        else Inl (Invalid (''column `'' @ if_name f @ ''` of '' @ k
          @ '' is required, and the rows written have no value for it'')))"

definition project_columns :: "lake_api \<Rightarrow> iceberg_write \<Rightarrow> string list \<Rightarrow> (expr \<times> ice_field) list res" where
  "project_columns A iw cols = map_res (project_column A (iw_table iw) cols) (iw_schema iw)"

text \<open>A column named by an alias, which carries its id.\<close>

definition projection_of :: "lake_api \<Rightarrow> expr list \<Rightarrow> lplan \<Rightarrow> lplan res" where
  "projection_of A es plan =
     (let p = LOther (KOther ''Projection'') es [plan]
      in case la_plan_error A p of Some e \<Rightarrow> Inl (DataFusion e) | None \<Rightarrow> Inr p)"

definition project :: "lake_api \<Rightarrow> iceberg_write \<Rightarrow> string list \<Rightarrow> lplan \<Rightarrow> lplan res" where
  "project A iw cols plan =
     and_then (project_columns A iw cols) (\<lambda>cs.
       projection_of A (map (\<lambda>(e, f). aliased (if_name f @ '' ('' @ show_int (if_id f) @ '')'') e) cs) plan)"

definition table_relative :: "iceberg_write \<Rightarrow> string \<Rightarrow> string" where
  "table_relative iw path = ''data/'' @ iw_id iw @ ''/'' @ path"

section \<open>Properties\<close>

text \<open>What two types have in common when they are the same: ids go, and so do the names and the nullability
  the comparison does not look at.\<close>

fun erased :: "ice_type \<Rightarrow> ice_type"
  and erased_fields :: "ice_field list \<Rightarrow> ice_field list" where
  "erased (IPrimitive x) = IPrimitive x"
| "erased (IList (IceField i n r t)) = IList (IceField 0 [] r (erased t))"
| "erased (IMap (IceField i n r t) (IceField j m q u)) = IMap (IceField 0 [] False (erased t)) (IceField 0 [] False (erased u))"
| "erased (IStruct fs) = IStruct (erased_fields fs)"
| "erased_fields [] = []"
| "erased_fields (IceField i n r t # fs) = IceField 0 n False (erased t) # erased_fields fs"

lemma erased_length: "length (erased_fields xs) = length xs"
proof (induction xs)
  case (Cons x xs) then show ?case by (cases x) simp
qed simp

lemma erased_parts:
  "erased (IList v) = IList (IceField 0 [] (if_required v) (erased (if_type v)))"
  "erased (IMap v u) = IMap (IceField 0 [] False (erased (if_type v))) (IceField 0 [] False (erased (if_type u)))"
  by (cases v; cases u; simp)+

lemma same_type_erased:
  "same_type a b \<longleftrightarrow> erased a = erased b"
  "length xs = length ys \<Longrightarrow> same_fields xs ys \<longleftrightarrow> erased_fields xs = erased_fields ys"
proof (induction a b and xs ys rule: same_type_same_fields.induct)
  case (4 xs ys)
  then show ?case using erased_length [of xs] erased_length [of ys] by auto
qed (auto simp: erased_parts)

text \<open>
  The comparison of column types is an equivalence: two types are the same exactly when they are alike but
  for ids, the names of the parts of lists and maps, and whether the fields of a struct and the parts of a map are required.
\<close>

theorem same_type_exact:
  "(same_type a b \<longleftrightarrow> erased a = erased b) \<and> same_type a a \<and> (same_type a b \<longleftrightarrow> same_type b a)"
  by (auto simp: same_type_erased)

text \<open>
  A wait between two attempts is never longer than the table's longest, and never shorter than the
  doubled least one, up to that longest.
\<close>

theorem waits_bounded:
  "wait_for p n u \<le> cr_max_wait p
   \<and> min (min duration_max (cr_min_wait p * 2 ^ min n 31)) (cr_max_wait p) \<le> wait_for p n u"
  by (simp add: wait_for_def Let_def)

text \<open>A table has the columns wanted of it.\<close>

definition has_columns :: "ice_table \<Rightarrow> lake_api \<Rightarrow> schema \<Rightarrow> bool" where
  "has_columns t A want \<longleftrightarrow> (\<forall>f \<in> set want. \<exists>h w. named_ice (field_name f) (it_schema t) = Some h
     \<and> la_type A (field_type f) = Inr w \<and> same_type (if_type h) w)"

lemma missing_columns_none:
  "missing_columns A k raced current wanted = Inr [] \<longleftrightarrow>
     (\<forall>(f, w) \<in> set wanted. \<exists>h hv. find (\<lambda>h. if_name (fst h) = field_name f) current = Some (h, hv)
        \<and> same_type (if_type h) w)"
proof (induction wanted)
  case (Cons x wanted)
  obtain f w where x: "x = (f, w)" by (cases x)
  show ?case
  proof (cases "find (\<lambda>h. if_name (fst h) = field_name f) current")
    case (Some c)
    then show ?thesis using Cons.IH by (cases c) (simp add: x)
  qed (simp add: x and_then_eq_Inr)
qed simp

lemma arrow_types_fst: "arrow_types A fs = Inr cols \<Longrightarrow> map fst cols = fs"
  unfolding arrow_types_def by (induction fs arbitrary: cols) (auto simp: and_then_eq_Inr)

lemma wanted_types_set:
  "wanted_types A want = Inr ws \<Longrightarrow> f \<in> set want \<Longrightarrow> \<exists>w. (f, w) \<in> set ws \<and> la_type A (field_type f) = Inr w"
  unfolding wanted_types_def by (induction want arbitrary: ws) (auto simp: and_then_eq_Inr)

lemma find_map: "find P (map g xs) = map_option g (find (\<lambda>x. P (g x)) xs)"
  by (induction xs) auto

lemma schema_change_none:
  assumes "schema_change A k t want raced = Inr []"
  shows "has_columns t A want"
  unfolding has_columns_def
proof
  fix f assume f: "f \<in> set want"
  from assms obtain current wanted where c: "arrow_types A (it_schema t) = Inr current"
    and w: "wanted_types A want = Inr wanted" and m: "missing_columns A k raced current wanted = Inr []"
    unfolding schema_change_def and_then_eq_Inr by blast
  from wanted_types_set [OF w f] obtain u where u: "(f, u) \<in> set wanted" "la_type A (field_type f) = Inr u" by blast
  with m obtain h hv where h: "find (\<lambda>h. if_name (fst h) = field_name f) current = Some (h, hv)" "same_type (if_type h) u"
    unfolding missing_columns_none by blast
  from h(1) have "find (\<lambda>h. if_name h = field_name f) (map fst current) = Some h" by (simp add: find_map)
  then show "\<exists>h w. named_ice (field_name f) (it_schema t) = Some h \<and> la_type A (field_type f) = Inr w \<and> same_type (if_type h) w"
    using u(2) h(2) arrow_types_fst [OF c] by (simp add: named_ice_def)
qed

lemma evolve_more_columns:
  assumes "\<And>f t r. again = Some f \<Longrightarrow> yields (\<lambda>t'. has_columns t' A want) (f t r)"
  shows "yields (\<lambda>t'. has_columns t' A want) (evolve_more A k want p n again t refused)"
  unfolding evolve_more_def
proof (intro yields_intros yields_then_do)
  fix to assume "again \<noteq> None \<and> in_time A p n"
  with assms show "yields (\<lambda>t'. has_columns t' A want) (case to of
      None \<Rightarrow> stop (Invalid (k @ '' was dropped while its schema was changed'')) | Some t \<Rightarrow> the again t refused)"
    by (auto simp: yields_intros split: option.split)
qed (auto intro: schema_change_none)

lemma evolve_turn_columns:
  assumes "\<And>f t r. again = Some f \<Longrightarrow> yields (\<lambda>t'. has_columns t' A want) (f t r)"
  shows "yields (\<lambda>t'. has_columns t' A want) (evolve_turn A k want p n again t refused)"
  unfolding evolve_turn_def
proof (intro yields_intros yields_then_do)
  fix r :: "ice_error + ice_table"
  have more: "yields (\<lambda>t'. has_columns t' A want) (evolve_more A k want p n again t refused)" for t refused
    using assms by (rule evolve_more_columns)
  show "yields (\<lambda>t'. has_columns t' A want) (case r of
      Inr t' \<Rightarrow> then_do (lift (schema_change A k t' want (refused \<noteq> None))) (\<lambda>cs.
        if cs = [] then give t' else evolve_more A k want p n again t' refused)
    | Inl e \<Rightarrow> then_do (load_table k) (\<lambda>to. case to of
          None \<Rightarrow> stop (Invalid (k @ '' was dropped while its schema was changed: '' @ ice_text e))
        | Some now \<Rightarrow>
            if it_uuid now = it_uuid t \<and> it_schema_id now = it_schema_id t \<and> it_schema now = it_schema t
            then stop (from_ice e) else evolve_more A k want p n again now (Some e)))"
  proof (cases r)
    case (Inl e)
    then show ?thesis by (auto intro!: yields_basic yields_then_do more split: option.split)
  next
    case (Inr t')
    then show ?thesis by (auto intro!: yields_then_lift yields_basic more) (erule schema_change_none)
  qed
qed (auto intro: schema_change_none)

lemma evolve_loop_columns: "yields (\<lambda>t'. has_columns t' A want) (evolve_loop A k want p n t r)"
proof (induction n arbitrary: t r)
  case 0
  then show ?case unfolding evolve_loop.simps by (rule evolve_turn_columns) simp
next
  case (Suc n)
  then show ?case unfolding evolve_loop.simps by (intro evolve_turn_columns) simp
qed

text \<open>
  Whatever other writers do to a table's schema between any two calls of the catalog, a table made ready for a
  write has every column the contract writes, by name and of its type; otherwise the write is refused.
\<close>

theorem evolved_has_columns:
  assumes "evolve A k t want w = Some (w', Inr t')"
  shows "has_columns t' A want"
  using assms yieldsD [OF evolve_loop_columns] by (auto simp: evolve_def then_do_Inr step_sides)

lemma project_column_ok:
  "if_name f \<in> set cols \<or> (\<not> if_required f \<and> la_null A ty = None) \<Longrightarrow> \<exists>e. project_column A k cols (f, ty) = Inr (e, f)"
  by (auto simp: project_column_def)

lemma map_res_fields:
  "\<forall>c \<in> set cs. \<exists>e. g c = Inr (e, fst c) \<Longrightarrow> \<exists>ps. map_res g cs = Inr ps \<and> map snd ps = map fst cs"
  by (induction cs) (auto simp: and_then_eq_Inr)

text \<open>
  A write begun on a table never leaves a required column without a value: rows with the contract's columns
  can be written as data files, which hold every column of the table in its order, by the id it has there.
\<close>

theorem begun_write_projects:
  assumes run: "ice_begin_write H A k uuid cc kind staging w = Some (w', Inr iw)"
    and kind: "\<forall>s. kind \<noteq> KindRewrite s"
    and cols: "map field_name (table_schema cc) = cols"
    and nulls: "\<forall>ty. la_null A ty = None"
  shows "\<exists>ps. project_columns A iw cols = Inr ps \<and> map snd ps = map fst (iw_schema iw)"
proof -
  from run kind obtain t where u: "unwritten_required k cc t = Inr ()" and c: "arrow_types A (it_schema t) = Inr (iw_schema iw)"
    unfolding ice_begin_write_def Let_def
    by (cases kind) (auto simp: then_do_Inr step_sides step_runs(1))
  have "\<exists>e. project_column A (iw_table iw) cols c = Inr (e, fst c)" if "c \<in> set (iw_schema iw)" for c
  proof -
    obtain f ty where f: "c = (f, ty)" by (cases c)
    from that arrow_types_fst [OF c] have "f \<in> set (it_schema t)" unfolding f by (metis fst_conv in_set_zip image_eqI list.set_map)
    then have "if_required f \<longrightarrow> field_with_name (table_schema cc) (if_name f) \<noteq> None"
      using u by (auto simp: unwritten_required_def find_None_iff split: option.splits)
    then have "if_name f \<in> set cols \<or> \<not> if_required f"
      using cols by (auto simp: field_with_name_def find_Some_iff in_set_conv_nth)
    then show ?thesis unfolding f using nulls project_column_ok [of f cols A ty "iw_table iw"] by auto
  qed
  then show ?thesis unfolding project_columns_def by (intro map_res_fields) blast
qed

end
