(* ===== verification/Commits.thy ===== *)
theory Commits
  imports Lake "HOL-Library.Multiset"
begin

text \<open>
  How a write becomes one snapshot of an Iceberg table (\<open>IcebergWrite\<close> of \<open>src/iceberg_table.rs\<close>): an
  append, an overwrite that commits only over the snapshot it began from, and a rewrite that carries forward
  what was appended meanwhile. Other writers act before every call of the catalog. A snapshot holds the list
  of its manifests itself; the temporary list an overwrite or a rewrite is produced over is the list the
  copy of the table holds. A manifest's content depends on its path alone: manifests are immutable.
\<close>

section \<open>Summaries\<close>

definition SUMMARY_CONTRACT :: string where
  "SUMMARY_CONTRACT = ''peql.contract''"

definition SUMMARY_CONTRACT_HASH :: string where
  "SUMMARY_CONTRACT_HASH = ''peql.contract-hash''"

definition SUMMARY_COMPILATION_HASH :: string where
  "SUMMARY_COMPILATION_HASH = ''peql.compilation-hash''"

definition SUMMARY_WRITE :: string where
  "SUMMARY_WRITE = ''peql.write''"

definition no_snapshot :: "string \<Rightarrow> int \<Rightarrow> peql_error" where
  "no_snapshot k s = Invalid (k @ '' has no snapshot '' @ show_int s)"

section \<open>The files of a snapshot\<close>

record snapshot_file =
  sf_path :: string
  sf_relative :: string
  sf_bytes :: nat

definition alive_data :: "manifest_entry \<Rightarrow> bool" where
  "alive_data e \<longleftrightarrow> me_alive e \<and> me_is_data e"

definition snapshot_file_of :: "ice_table \<Rightarrow> manifest_entry \<Rightarrow> snapshot_file" where
  "snapshot_file_of t e =
     \<lparr>sf_path = me_path e,
      sf_relative = (case strip_prefix (trim_slashes (it_location t)) (me_path e) of
          None \<Rightarrow> me_path e | Some p \<Rightarrow> dropWhile (\<lambda>c. c = CHR ''/'') p),
      sf_bytes = me_bytes e\<rparr>"

definition manifest_list :: "lake_api \<Rightarrow> string \<Rightarrow> ice_table \<Rightarrow> int \<Rightarrow> manifest_file list res" where
  "manifest_list A k t s =
     (case map_of (it_snapshots t) s of
        None \<Rightarrow> Inl (no_snapshot k s)
      | Some sn \<Rightarrow> (case la_list_error A t s of Some e \<Rightarrow> Inl (from_ice e) | None \<Rightarrow> Inr (sn_manifests sn)))"

definition snapshot_files :: "lake_api \<Rightarrow> string \<Rightarrow> ice_table \<Rightarrow> int \<Rightarrow> snapshot_file list res" where
  "snapshot_files A k t s =
     and_then (manifest_list A k t s) (\<lambda>ms.
     and_then (map_res (\<lambda>m. of_ice (la_manifest A (mf_path m))) ms) (\<lambda>ess.
       Inr (sort_key sf_relative (map (snapshot_file_of t) (filter alive_data (concat ess))))))"

section \<open>The data files of a write\<close>

definition written_path :: "iceberg_write \<Rightarrow> string list \<Rightarrow> string" where
  "written_path iw path = iw_prefix iw @ ''/'' @ relative_path path"

definition data_file_of :: "lake_api \<Rightarrow> iceberg_write \<Rightarrow> ice_table \<Rightarrow> string list \<times> data_file \<Rightarrow> new_file res" where
  "data_file_of A iw t pf =
     (case pf of (path, f) \<Rightarrow>
        let shown = join ''/'' (iw_dir iw # path) in
        case df_footer f of
          Inl e \<Rightarrow> Inl (Invalid (shown @ '': '' @ e))
        | Inr m \<Rightarrow>
            (case la_no_field_id A f of
               Some c \<Rightarrow> Inl (Invalid (shown @ '' was written without field ids (column `'' @ c @ ''`)''))
             | None \<Rightarrow> Inr \<lparr>nf_path = written_path iw path, nf_spec = it_spec t, nf_records = nat (ft_rows m),
                 nf_bytes = length (df_bytes f)\<rparr>))"

definition data_files :: "lake_api \<Rightarrow> iceberg_write \<Rightarrow> ice_table \<Rightarrow> ('j, 'l) world \<Rightarrow> new_file list res" where
  "data_files A iw t w = and_then (list_files (w_trees w (iw_dir iw))) (map_res (data_file_of A iw t))"

fun upload_staged :: "('v, 'w, 'j, 'l) host \<Rightarrow> iceberg_write \<Rightarrow> (string list \<times> data_file) list \<Rightarrow> fs \<Rightarrow> fs \<times> unit res" where
  "upload_staged H iw [] d = (d, Inr ())"
| "upload_staged H iw ((path, f) # fs) d =
     (let p = written_path iw path in
      case h_write_error H p of
        Some e \<Rightarrow> (d, Inl (IcebergError e))
      | None \<Rightarrow> upload_staged H iw fs (d(p \<mapsto> Bytes (df_bytes f))))"

definition save_write_facts ::
  "('v, 'w, 'j, 'l) host \<Rightarrow> ice_table \<Rightarrow> string \<Rightarrow> 'j write_facts \<Rightarrow> fs \<Rightarrow> fs \<times> unit res" where
  "save_write_facts H t write f d =
     (let p = write_facts_path t write (m_contract (wf_facts f)) in
      case encode (fe_writes (h_facts H)) f of
        Inl e \<Rightarrow> (d, Inl (Invalid (''facts of write '' @ write @ '': '' @ e)))
      | Inr b \<Rightarrow> (case h_write_error H p of
            Some e \<Rightarrow> (d, Inl (IcebergError e)) | None \<Rightarrow> (d(p \<mapsto> Bytes b), Inr ())))"

section \<open>The base a snapshot is produced over\<close>

record totals =
  tt_records :: nat
  tt_files :: nat
  tt_bytes :: nat

definition no_totals :: totals where
  "no_totals = \<lparr>tt_records = 0, tt_files = 0, tt_bytes = 0\<rparr>"

definition add_totals :: "totals \<Rightarrow> totals \<Rightarrow> totals" where
  "add_totals a b = \<lparr>tt_records = tt_records a + tt_records b, tt_files = tt_files a + tt_files b,
     tt_bytes = tt_bytes a + tt_bytes b\<rparr>"

definition total_properties :: "totals \<Rightarrow> (string, string) btmap \<Rightarrow> (string, string) btmap" where
  "total_properties tt ps =
     fold (\<lambda>(k, n). bt_insert k (show_nat n))
       [(''total-records'', tt_records tt), (''total-files-size'', tt_bytes tt), (''total-data-files'', tt_files tt),
        (''total-delete-files'', 0), (''total-position-deletes'', 0), (''total-equality-deletes'', 0)]
       (filter (\<lambda>(k, v). strip_prefix ''total-'' k = None) ps)"

text \<open>The table with snapshot \<open>base\<close> listing other manifests.\<close>

definition listing :: "string \<Rightarrow> ice_table \<Rightarrow> int \<Rightarrow> manifest_file list \<Rightarrow> totals \<Rightarrow> ice_table res" where
  "listing k t base ms tt =
     (case map_of (it_snapshots t) base of
        None \<Rightarrow> Inl (no_snapshot k base)
      | Some sn \<Rightarrow> Inr (t\<lparr>it_snapshots := bt_insert base
          (sn\<lparr>sn_manifests := ms, sn_properties := total_properties tt (sn_properties sn)\<rparr>) (it_snapshots t)\<rparr>))"

text \<open>
  The catalog such a snapshot is committed through: loading the table gives the base, and only while the
  table is still at the snapshot the base was made over.
\<close>

definition pinned_load ::
  "lake_api \<Rightarrow> string \<Rightarrow> string \<Rightarrow> int option \<Rightarrow> ice_table \<Rightarrow> ice_table option res \<Rightarrow> ice_error + ice_table" where
  "pinned_load A k write base as_base c =
     (case c of
        Inl e \<Rightarrow> Inl (as_ice e)
      | Inr None \<Rightarrow> Inl (OtherIce (la_missing A k))
      | Inr (Some t) \<Rightarrow>
          if it_current t \<noteq> base
          then Inl (CommitConflicts (k @ '' is at snapshot '' @ show_snapshot (it_current t) @ ''; the '' @ write
            @ '' was made over '' @ show_snapshot base))
          else if it_uuid t \<noteq> it_uuid as_base
          then Inl (CommitConflicts (k @ '' was replaced since the '' @ write @ '' was made''))
          else Inr as_base)"

definition pinned_commit ::
  "lake_api \<Rightarrow> string \<Rightarrow> string \<Rightarrow> int option \<Rightarrow> ice_table \<Rightarrow> bool \<Rightarrow> new_file list \<Rightarrow> (string, string) btmap
     \<Rightarrow> (('j, 'l) world, ice_error + ice_table) step" where
  "pinned_commit A k write base as_base check files summary =
     then_do others (\<lambda>_.
     then_do (look (\<lambda>w. pinned_load A k write base as_base (w_catalog w k))) (\<lambda>r. case r of
         Inl e \<Rightarrow> give (Inl e)
       | Inr t \<Rightarrow> commit_to k (la_append A t check files summary)))"

definition pinned_refused :: "string \<Rightarrow> string \<Rightarrow> int option \<Rightarrow> ice_error \<Rightarrow> peql_error" where
  "pinned_refused k write base e =
     (case e of
        CommitConflicts m \<Rightarrow> Conflict (k @ '': the table moved since the '' @ write @ '' was made over snapshot ''
          @ show_snapshot base @ '': '' @ m)
      | OtherIce m \<Rightarrow> from_ice e)"

text \<open>The copy is removed whatever the commit's result; when it cannot be, that is the result.\<close>

definition then_delete :: "lake_api \<Rightarrow> ice_table \<Rightarrow> (('j, 'l) world, 'a res) step \<Rightarrow> (('j, 'l) world, 'a) step" where
  "then_delete A t m =
     then_do m (\<lambda>result. case la_delete_error A t of Some e \<Rightarrow> stop (from_ice e) | None \<Rightarrow> lift result)"

section \<open>Overwriting\<close>

definition overwrite_conflict :: "iceberg_write \<Rightarrow> int option \<Rightarrow> peql_error" where
  "overwrite_conflict iw now = Conflict (iw_table iw @ '' is at snapshot '' @ show_snapshot now
     @ ''; the overwrite began from '' @ show_snapshot (iw_base iw))"

definition format_error :: "string \<Rightarrow> ice_table \<Rightarrow> string \<Rightarrow> peql_error" where
  "format_error k t does = Invalid (k @ '' is Iceberg format V'' @ show_nat (it_format t) @ ''; peQL '' @ does
     @ '' format 2 tables'')"

definition commit_overwrite ::
  "lake_api \<Rightarrow> iceberg_write \<Rightarrow> ice_table \<Rightarrow> new_file list \<Rightarrow> (string, string) btmap \<Rightarrow> (('j, 'l) world, ice_table) step" where
  "commit_overwrite A iw t files summary =
     (let k = iw_table iw; commit = (\<lambda>base as_base check.
            then_do (pinned_commit A k ''overwrite'' base as_base check files summary) (\<lambda>r.
              give (case r of Inl e \<Rightarrow> Inl (pinned_refused k ''overwrite'' base e) | Inr t \<Rightarrow> Inr t)))
      in if it_current t \<noteq> iw_base iw then stop (overwrite_conflict iw (it_current t))
      else case iw_base iw of
        None \<Rightarrow> then_do (commit None t True) lift
      | Some base \<Rightarrow>
          if it_format t \<noteq> 2 then stop (format_error k t ''overwrites'')
          else case la_base_error A t of
            Some e \<Rightarrow> stop e
          | None \<Rightarrow> then_delete A t (case listing k t base [] no_totals of
                Inl e \<Rightarrow> give (Inl e) | Inr as_base \<Rightarrow> commit (Some base) as_base False))"

section \<open>Rewriting\<close>

record rewritten_files =
  rw_snapshot :: int
  rw_manifests :: "string list"
  rw_scanned :: "(string \<times> totals) list"

definition rewritten_of :: "lake_api \<Rightarrow> string \<Rightarrow> ice_table \<Rightarrow> int \<Rightarrow> rewritten_files res" where
  "rewritten_of A k t s =
     and_then (manifest_list A k t s) (\<lambda>ms.
       Inr \<lparr>rw_snapshot = s, rw_manifests = map mf_path ms, rw_scanned = []\<rparr>)"

text \<open>The snapshots since the rewritten one, newest first; none when it is no ancestor.\<close>

definition snapshot_did :: "snapshot \<Rightarrow> string" where
  "snapshot_did s = (case map_of (sn_properties s) SUMMARY_WRITE of None \<Rightarrow> sn_operation s | Some d \<Rightarrow> d)"

partial_function (option) since_walk :: "ice_table \<Rightarrow> int \<Rightarrow> int option \<Rightarrow> string list \<Rightarrow> string list option option" where
  "since_walk t old here acc =
     (if here = Some old then Some (Some acc)
      else case here of
        None \<Rightarrow> Some None
      | Some s \<Rightarrow>
          (case map_of (it_snapshots t) s of
             None \<Rightarrow> Some None
           | Some sn \<Rightarrow> since_walk t old (sn_parent sn) (acc @ [show_int s @ '' ('' @ snapshot_did sn @ '')''])))"

definition delete_files :: "int \<Rightarrow> string" where
  "delete_files s = ''snapshot '' @ show_int s @ '' added delete files''"

fun entry_totals :: "manifest_file \<Rightarrow> manifest_entry list \<Rightarrow> totals \<Rightarrow> totals res" where
  "entry_totals m [] tt = Inr tt"
| "entry_totals m (e # es) tt =
     (if \<not> me_alive e then entry_totals m es tt
      else if \<not> me_is_data e then Inl (Conflict (delete_files (mf_added_by m)))
      else entry_totals m es (add_totals tt \<lparr>tt_records = me_records e, tt_files = 1, tt_bytes = me_bytes e\<rparr>))"

definition scan_manifest ::
  "lake_api \<Rightarrow> manifest_file \<Rightarrow> (string \<times> totals) list \<Rightarrow> (totals \<times> (string \<times> totals) list) res" where
  "scan_manifest A m seen =
     (case map_of seen (mf_path m) of
        Some tt \<Rightarrow> Inr (tt, seen)
      | None \<Rightarrow>
          and_then (of_ice (la_manifest A (mf_path m))) (\<lambda>es.
          and_then (entry_totals m es no_totals) (\<lambda>tt.
            Inr (tt, (mf_path m, tt) # seen))))"

text \<open>The manifests kept, what they add up to, those only counted, and the manifests read.\<close>

type_synonym carry = "manifest_file list \<times> totals \<times> manifest_file list \<times> (string \<times> totals) list"

definition list_totals :: "manifest_file \<Rightarrow> totals option" where
  "list_totals m =
     (case (mf_added_files m, mf_existing_files m, mf_added_rows m, mf_existing_rows m) of
        (Some af, Some ef, Some ar, Some er) \<Rightarrow> Some \<lparr>tt_records = ar + er, tt_files = af + ef, tt_bytes = 0\<rparr>
      | _ \<Rightarrow> None)"

fun carry_manifests ::
  "lake_api \<Rightarrow> (string \<Rightarrow> peql_error) \<Rightarrow> string list \<Rightarrow> manifest_file list \<Rightarrow> carry \<Rightarrow> carry res" where
  "carry_manifests A refused replaced [] c = Inr c"
| "carry_manifests A refused replaced (m # ms) (kept, tt, counted, seen) =
     (if mf_path m \<in> set replaced then carry_manifests A refused replaced ms (kept, tt, counted, seen)
      else if \<not> mf_is_data m then Inl (refused (delete_files (mf_added_by m)))
      else case map_of seen (mf_path m) of
        Some s \<Rightarrow> carry_manifests A refused replaced ms (kept @ [m], add_totals tt s, counted, seen)
      | None \<Rightarrow> (case list_totals m of
            Some s \<Rightarrow> carry_manifests A refused replaced ms (kept @ [m], add_totals tt s, counted @ [m], seen)
          | None \<Rightarrow> (case scan_manifest A m seen of
                Inl e \<Rightarrow> Inl (case e of Conflict why \<Rightarrow> refused why | _ \<Rightarrow> e)
              | Inr (s, seen') \<Rightarrow>
                  carry_manifests A refused replaced ms (kept @ [m], add_totals tt s, counted, seen'))))"

text \<open>The bytes: the difference of the two snapshots' own counts, or what the manifests add up to.\<close>

definition files_size :: "ice_table \<Rightarrow> int \<Rightarrow> nat option" where
  "files_size t s =
     Option.bind (map_of (it_snapshots t) s) (\<lambda>sn.
     Option.bind (map_of (sn_properties sn) ''total-files-size'') parse_usize)"

fun count_bytes ::
  "lake_api \<Rightarrow> manifest_file list \<Rightarrow> totals \<Rightarrow> (string \<times> totals) list \<Rightarrow> (totals \<times> (string \<times> totals) list) res" where
  "count_bytes A [] tt seen = Inr (tt, seen)"
| "count_bytes A (m # ms) tt seen =
     and_then (scan_manifest A m seen) (\<lambda>(s, seen').
       count_bytes A ms (tt\<lparr>tt_bytes := tt_bytes tt + tt_bytes s\<rparr>) seen')"

definition count_size ::
  "lake_api \<Rightarrow> ice_table \<Rightarrow> int \<Rightarrow> int \<Rightarrow> manifest_file list \<Rightarrow> totals \<Rightarrow> (string \<times> totals) list
     \<Rightarrow> (totals \<times> (string \<times> totals) list) res" where
  "count_size A t now old counted tt seen =
     (case (files_size t now, files_size t old) of
        (Some n, Some q) \<Rightarrow>
          if q \<le> n then Inr (tt\<lparr>tt_bytes := n - q\<rparr>, seen) else count_bytes A counted tt seen
      | _ \<Rightarrow> count_bytes A counted tt seen)"

definition rewrite_refused :: "string \<Rightarrow> int \<Rightarrow> string list \<Rightarrow> string \<Rightarrow> peql_error" where
  "rewrite_refused k old since why = Conflict (k @ '': '' @ why @ '' since snapshot '' @ show_int old
     @ '', whose files were being rewritten (snapshots since: '' @ join '', '' since @ '')'')"

definition carried_list ::
  "lake_api \<Rightarrow> string \<Rightarrow> ice_table \<Rightarrow> rewritten_files \<Rightarrow> int \<Rightarrow> string list
     \<Rightarrow> (rewritten_files \<times> manifest_file list \<times> totals) res" where
  "carried_list A k t rw now since =
     (let refused = rewrite_refused k (rw_snapshot rw) since in
      and_then (manifest_list A k t now) (\<lambda>ms.
      case find (\<lambda>p. p \<notin> set (map mf_path ms)) (rw_manifests rw) of
        Some gone \<Rightarrow> Inl (refused (''its files were replaced or removed (manifest '' @ gone @ '' is no longer listed)''))
      | None \<Rightarrow>
          and_then (carry_manifests A refused (rw_manifests rw) ms ([], no_totals, [], rw_scanned rw))
            (\<lambda>(kept, tt, counted, seen).
          and_then (count_size A t now (rw_snapshot rw) counted tt seen) (\<lambda>(tt, seen).
            Inr (rw\<lparr>rw_scanned := seen\<rparr>, kept, tt)))))"

definition carried ::
  "lake_api \<Rightarrow> string \<Rightarrow> ice_table \<Rightarrow> rewritten_files \<Rightarrow> int
     \<Rightarrow> (rewritten_files \<times> manifest_file list \<times> totals) res option" where
  "carried A k t rw now =
     map_option (\<lambda>r. case r of
         None \<Rightarrow> Inl (Conflict (k @ '': snapshot '' @ show_int (rw_snapshot rw)
           @ '', being rewritten, is no longer an ancestor of the current snapshot '' @ show_int now))
       | Some since \<Rightarrow> carried_list A k t rw now since)
     (since_walk t (rw_snapshot rw) (Some now) [])"

definition reload :: "string \<Rightarrow> int \<Rightarrow> (('j, 'l) world, ice_table) step" where
  "reload k old =
     then_do (load_table k) (\<lambda>to. lift (ok_or
       (Invalid (k @ '' was dropped while snapshot '' @ show_int old @ '' was rewritten'')) to))"

definition current_snapshot :: "string \<Rightarrow> ice_table \<Rightarrow> int \<Rightarrow> int res" where
  "current_snapshot k t old =
     ok_or (Conflict (k @ '' has no current snapshot; snapshot '' @ show_int old @ '' was being rewritten'')) (it_current t)"

text \<open>A result that may never come, as a step.\<close>

definition lift_ends :: "'a res option \<Rightarrow> ('s, 'a) step" where
  "lift_ends r = (\<lambda>s. map_option (Pair s) r)"

definition rewrite_turn ::
  "lake_api \<Rightarrow> string \<Rightarrow> new_file list \<Rightarrow> (string, string) btmap \<Rightarrow> int \<Rightarrow> commit_retry \<Rightarrow> nat
     \<Rightarrow> (rewritten_files \<Rightarrow> (('j, 'l) world, ice_table) step) option \<Rightarrow> rewritten_files \<Rightarrow> (('j, 'l) world, ice_table) step" where
  "rewrite_turn A k files summary old p retried again rw =
     then_do (reload k old) (\<lambda>t.
     then_do (lift (current_snapshot k t old)) (\<lambda>now.
     then_do (lift_ends (carried A k t rw now)) (\<lambda>(rw', kept, tt).
     case la_base_error A t of
       Some e \<Rightarrow> stop e
     | None \<Rightarrow>
         then_do (then_delete A t (case listing k t now kept tt of
             Inl e \<Rightarrow> give (Inl e)
           | Inr as_base \<Rightarrow> then_do (pinned_commit A k ''rewrite'' (Some now) as_base False files summary)
               (\<lambda>r. give (Inr r)))) (\<lambda>r. case r of
             Inr t' \<Rightarrow> give t'
           | Inl (OtherIce e) \<Rightarrow> stop (from_ice (OtherIce e))
           | Inl (CommitConflicts e) \<Rightarrow>
               if again \<noteq> None \<and> in_time A p retried then the again rw'
               else stop (Conflict (k @ '' moved under each of '' @ show_nat (retried + 1)
                 @ '' attempts to commit the rewrite of snapshot '' @ show_int old @ ''; the last refusal: '' @ e))))))"

primrec rewrite_loop ::
  "lake_api \<Rightarrow> string \<Rightarrow> new_file list \<Rightarrow> (string, string) btmap \<Rightarrow> int \<Rightarrow> commit_retry \<Rightarrow> nat \<Rightarrow> rewritten_files
     \<Rightarrow> (('j, 'l) world, ice_table) step" where
  "rewrite_loop A k files summary old p 0 = rewrite_turn A k files summary old p (cr_retries p) None"
| "rewrite_loop A k files summary old p (Suc remaining) =
     rewrite_turn A k files summary old p (cr_retries p - Suc remaining)
       (Some (rewrite_loop A k files summary old p remaining))"

definition commit_rewrite ::
  "lake_api \<Rightarrow> string \<Rightarrow> ice_table \<Rightarrow> new_file list \<Rightarrow> (string, string) btmap \<Rightarrow> int \<Rightarrow> (('j, 'l) world, ice_table) step" where
  "commit_rewrite A k t files summary old =
     (if it_format t \<noteq> 2 then stop (format_error k t ''rewrites'')
      else then_do (lift (rewritten_of A k t old)) (\<lambda>rw.
      then_do (lift (it_retry t)) (\<lambda>p.
      then_do (reload k old) (\<lambda>t.
      then_do (lift (current_snapshot k t old)) (\<lambda>now.
      then_do (lift_ends (carried A k t rw now)) (\<lambda>(rw', kept, tt).
        rewrite_loop A k files summary old p (cr_retries p) rw'))))))"

section \<open>Committing a write\<close>

record snapshot_commit =
  sc_snapshot :: int
  sc_parent :: "int option"

definition write_summary :: "iceberg_write \<Rightarrow> compiled_contract \<Rightarrow> (string, string) btmap" where
  "write_summary iw cc = bt_of
     [(SUMMARY_CONTRACT, cc_name cc), (SUMMARY_CONTRACT_HASH, contract_hash cc),
      (SUMMARY_COMPILATION_HASH, compilation_hash cc), (SUMMARY_WRITE_ID, iw_id iw),
      (SUMMARY_WRITE, case iw_kind iw of KindAppend \<Rightarrow> ''append'' | KindOverwrite \<Rightarrow> ''overwrite'' | KindRewrite _ \<Rightarrow> ''rewrite'')]"

text \<open>The crate appends over the table as the catalog has it, trying again when it moved.\<close>

definition commit_append ::
  "lake_api \<Rightarrow> string \<Rightarrow> new_file list \<Rightarrow> (string, string) btmap \<Rightarrow> (('j, 'l) world, ice_table) step" where
  "commit_append A k files summary =
     then_do (commit_to k (\<lambda>to. case to of
         None \<Rightarrow> Inl (OtherIce (la_missing A k))
       | Some t \<Rightarrow> la_append A t False files summary (Some t))) (\<lambda>r. lift (of_ice r))"

definition commit_kind ::
  "lake_api \<Rightarrow> iceberg_write \<Rightarrow> ice_table \<Rightarrow> new_file list \<Rightarrow> (string, string) btmap \<Rightarrow> (('j, 'l) world, ice_table) step" where
  "commit_kind A iw t files summary =
     (case iw_kind iw of
        KindAppend \<Rightarrow> commit_append A (iw_table iw) files summary
      | KindOverwrite \<Rightarrow> commit_overwrite A iw t files summary
      | KindRewrite old \<Rightarrow> commit_rewrite A (iw_table iw) t files summary old)"

definition committed_snapshot :: "string \<Rightarrow> ice_table \<Rightarrow> snapshot_commit res" where
  "committed_snapshot k t =
     (case Option.bind (it_current t) (\<lambda>s. map_option (Pair s) (map_of (it_snapshots t) s)) of
        None \<Rightarrow> Inl (Invalid (k @ '' committed no snapshot''))
      | Some (s, sn) \<Rightarrow> Inr \<lparr>sc_snapshot = s, sc_parent = sn_parent sn\<rparr>)"

definition ice_commit ::
  "('v, 'w, 'j, 'l) host \<Rightarrow> lake_api \<Rightarrow> iceberg_write \<Rightarrow> compiled_contract \<Rightarrow> 'j write_facts list
     \<Rightarrow> (('j, 'l) world, ice_table \<times> snapshot_commit) step" where
  "ice_commit H A iw cc facts =
     (let k = iw_table iw in
      then_do (load_table k) (\<lambda>to.
      then_do (lift (ok_or (Invalid (k @ '' was dropped'')) to)) (\<lambda>t.
      then_do (do_all (\<lambda>f. on_fs (save_write_facts H t (iw_id iw) f)) facts) (\<lambda>_.
      then_do (look_res (data_files A iw t)) (\<lambda>files.
      then_do (if iw_staged iw
        then then_do (look_res (\<lambda>w. list_files (w_trees w (iw_dir iw)))) (\<lambda>fs. on_fs (upload_staged H iw fs))
        else give ()) (\<lambda>_.
      then_do (commit_kind A iw t files (write_summary iw cc)) (\<lambda>t'.
      then_do (lift (committed_snapshot k t')) (\<lambda>sc.
        give (t', sc)))))))))"

end
