(* ===== verification/Commit_Safety.thy ===== *)
theory Commit_Safety
  imports Commits
begin

text \<open>
  What a commit does to an Iceberg table, however other writers' commits fall between its own steps: the
  data files of the snapshot it makes are those its kind promises, over the snapshot it made it from.
\<close>

section \<open>What is relied upon\<close>

text \<open>The data files manifests list.\<close>

definition live :: "lake_api \<Rightarrow> manifest_file list \<Rightarrow> string multiset" where
  "live A ms = mset (concat (map (\<lambda>m. case la_manifest A (mf_path m) of
       Inl e \<Rightarrow> [] | Inr es \<Rightarrow> map me_path (filter alive_data es)) ms))"

definition current_manifests :: "ice_table \<Rightarrow> manifest_file list" where
  "current_manifests t = (case Option.bind (it_current t) (map_of (it_snapshots t)) of
       None \<Rightarrow> [] | Some sn \<Rightarrow> sn_manifests sn)"

text \<open>
  What the crate documents of an append and the catalog of a commit: over a table at the same snapshot as
  the one the transaction was begun over, the table gains one snapshot, which becomes the current one, whose
  parent is the one before, and which lists the files added and those the transaction's table listed.
\<close>

definition append_law :: "lake_api \<Rightarrow> bool" where
  "append_law A \<longleftrightarrow> (\<forall>base check files summary to t. la_append A base check files summary to = Inr t \<longrightarrow>
     (\<exists>c s sn. to = Some c \<and> it_uuid c = it_uuid base \<and> it_current c = it_current base
        \<and> it_current t = Some s \<and> it_snapshots t = bt_insert s sn (it_snapshots c) \<and> sn_parent sn = it_current c
        \<and> (\<forall>k v. map_of summary k = Some v \<longrightarrow> map_of (sn_properties sn) k = Some v)
        \<and> live A (sn_manifests sn) = mset (map nf_path files) + live A (current_manifests base)))"

text \<open>
  A snapshot is never changed: its id names one snapshot, \<open>content\<close>, for as long as the table has it. A
  manifest is listed once, and a table has its current snapshot.
\<close>

definition sound_table :: "(int \<Rightarrow> snapshot) \<Rightarrow> ice_table \<Rightarrow> bool" where
  "sound_table content t \<longleftrightarrow>
     (\<forall>s sn. map_of (it_snapshots t) s = Some sn \<longrightarrow> sn = content s \<and> distinct (map mf_path (sn_manifests sn)))
     \<and> (\<forall>s. it_current t = Some s \<longrightarrow> map_of (it_snapshots t) s \<noteq> None)"

definition sound :: "(int \<Rightarrow> snapshot) \<Rightarrow> string \<Rightarrow> (string \<Rightarrow> ice_table option res) \<Rightarrow> bool" where
  "sound content k c \<longleftrightarrow> (\<forall>t. c k = Inr (Some t) \<longrightarrow> sound_table content t)"

definition lake_ok :: "(int \<Rightarrow> snapshot) \<Rightarrow> string \<Rightarrow> ('j, 'l) world \<Rightarrow> bool" where
  "lake_ok content k w \<longleftrightarrow> sound content k (w_catalog w)
     \<and> (\<forall>f \<in> set (w_others w). \<forall>c. sound content k c \<longrightarrow> sound content k (f c))"

section \<open>The pieces\<close>

lemma lake_ok_fs: "lake_ok content k (w\<lparr>w_fs := d\<rparr>) \<longleftrightarrow> lake_ok content k w"
  by (simp add: lake_ok_def)

lemma triple_others: "triple (lake_ok content k) others (\<lambda>_. lake_ok content k)"
  unfolding others_def by (intro triple_change) (auto simp: lake_ok_def split: list.split)

lemma triple_load:
  "triple (lake_ok content k) (load_table k)
     (\<lambda>to w. lake_ok content k w \<and> (\<forall>t. to = Some t \<longrightarrow> sound_table content t))"
  unfolding load_table_def
  by (rule triple_then_do [OF triple_others]) (auto intro!: triple_basic simp: lake_ok_def sound_def)

lemma triple_commit:
  "triple (lake_ok content k) (commit_to k f)
     (\<lambda>r w. case r of Inl e \<Rightarrow> lake_ok content k w
        | Inr t \<Rightarrow> \<exists>to. (\<forall>c. to = Some c \<longrightarrow> sound_table content c) \<and> f to = Inr t)"
  unfolding commit_to_def
proof (rule triple_then_do [OF triple_others])
  show "triple (lake_ok content k) (commit_now k f) (\<lambda>r w. case r of Inl e \<Rightarrow> lake_ok content k w
        | Inr t \<Rightarrow> \<exists>to. (\<forall>c. to = Some c \<longrightarrow> sound_table content c) \<and> f to = Inr t)"
    unfolding triple_def
  proof (intro allI impI)
    fix w w' r assume ok: "lake_ok content k w" and run: "commit_now k f w = Some (w', Inr r)"
    show "case r of Inl e \<Rightarrow> lake_ok content k w'
        | Inr t \<Rightarrow> \<exists>to. (\<forall>c. to = Some c \<longrightarrow> sound_table content c) \<and> f to = Inr t"
    proof (cases "w_catalog w k")
      case (Inl e)
      with run ok show ?thesis by (auto simp: commit_now_def)
    next
      case (Inr to)
      with ok have "\<forall>c. to = Some c \<longrightarrow> sound_table content c" by (auto simp: lake_ok_def sound_def)
      show ?thesis
      proof (cases "f to")
        case (Inl e)
        with run \<open>w_catalog w k = Inr to\<close> have "r = Inl e" "w' = w" by (simp_all add: commit_now_def)
        with ok show ?thesis by simp
      next
        case (Inr t)
        with run \<open>w_catalog w k = Inr to\<close> have "r = Inr t" by (simp add: commit_now_def)
        with Inr \<open>\<forall>c. to = Some c \<longrightarrow> sound_table content c\<close> show ?thesis by auto
      qed
    qed
  qed
qed

text \<open>What an append gives over a sound table.\<close>

definition appended_to :: "lake_api \<Rightarrow> ice_table \<Rightarrow> new_file list \<Rightarrow> (string, string) btmap \<Rightarrow> ice_table \<Rightarrow> bool" where
  "appended_to A base files summary t \<longleftrightarrow>
     (\<exists>s sn. it_current t = Some s \<and> map_of (it_snapshots t) s = Some sn \<and> sn_parent sn = it_current base
        \<and> (\<forall>k v. map_of summary k = Some v \<longrightarrow> map_of (sn_properties sn) k = Some v)
        \<and> live A (sn_manifests sn) = mset (map nf_path files) + live A (current_manifests base))"

lemma append_lawD:
  assumes "append_law A" and "la_append A base check files summary to = Inr t"
  shows "appended_to A base files summary t"
  using assms unfolding append_law_def appended_to_def
  by (elim allE impE) (assumption, force)

lemma triple_pinned:
  assumes "append_law A"
  shows "triple (lake_ok content k) (pinned_commit A k write base as_base check files summary)
     (\<lambda>r w. case r of Inl e \<Rightarrow> lake_ok content k w | Inr t \<Rightarrow> appended_to A as_base files summary t)"
  unfolding pinned_commit_def
proof (rule triple_then_do [OF triple_others], rule triple_then_do)
  show "triple (lake_ok content k) (look (\<lambda>w. pinned_load A k write base as_base (w_catalog w k)))
      (\<lambda>r w. lake_ok content k w \<and> (\<forall>t. r = Inr t \<longrightarrow> t = as_base))"
    by (intro triple_basic) (auto simp: pinned_load_def split: sum.splits option.splits if_splits)
next
  fix r :: "ice_error + ice_table"
  let ?Q = "\<lambda>r w. case r of Inl e \<Rightarrow> lake_ok content k w | Inr t \<Rightarrow> appended_to A as_base files summary t"
  show "triple (\<lambda>w. lake_ok content k w \<and> (\<forall>t. r = Inr t \<longrightarrow> t = as_base))
      (case r of Inl e \<Rightarrow> give (Inl e) | Inr t \<Rightarrow> commit_to k (la_append A t check files summary)) ?Q"
  proof (cases r)
    case (Inl e)
    then show ?thesis by (auto intro: triple_basic)
  next
    case (Inr t)
    show ?thesis unfolding Inr sum.case
    proof (rule triple_pre [where b = "t = as_base"])
      assume t: "t = as_base"
      show "triple (\<lambda>w. lake_ok content k w \<and> (\<forall>t'. Inr t = Inr t' \<longrightarrow> t' = as_base))
          (commit_to k (la_append A t check files summary)) ?Q"
        unfolding t by (rule triple_weaken [OF triple_commit]) (auto dest: append_lawD [OF assms] split: sum.splits)
    qed simp
  qed
qed

section \<open>Each kind of commit\<close>

lemma current_manifests_sound:
  assumes "sound_table content t"
  shows "current_manifests t = (case it_current t of None \<Rightarrow> [] | Some s \<Rightarrow> sn_manifests (content s))"
  using assms by (auto simp: current_manifests_def sound_table_def split: option.splits)

lemma append_commits:
  assumes "append_law A"
  shows "triple (lake_ok content k :: ('j, 'l) world \<Rightarrow> bool) (commit_append A k files summary)
     (\<lambda>t _. \<exists>s sn. it_current t = Some s \<and> map_of (it_snapshots t) s = Some sn
        \<and> live A (sn_manifests sn) = mset (map nf_path files)
            + live A (case sn_parent sn of None \<Rightarrow> [] | Some p \<Rightarrow> sn_manifests (content p)))"
    (is "triple _ _ ?Q")
  unfolding commit_append_def
proof (rule triple_then_do [OF triple_commit], intro triple_basic)
  let ?f = "\<lambda>to. case to of None \<Rightarrow> Inl (OtherIce (la_missing A k)) | Some t \<Rightarrow> la_append A t False files summary (Some t)"
  fix r t and w :: "('j, 'l) world"
  assume "case r of Inl e \<Rightarrow> lake_ok content k w
      | Inr t \<Rightarrow> \<exists>to. (\<forall>c. to = Some c \<longrightarrow> sound_table content c) \<and> ?f to = Inr t" and "of_ice r = Inr t"
  then obtain c where c: "sound_table content c" and ap: "la_append A c False files summary (Some c) = Inr t"
    by (auto split: option.splits)
  from append_lawD [OF assms ap] show "?Q t w"
    unfolding appended_to_def current_manifests_sound [OF c] by metis
qed

lemma live_Nil [simp]: "live A [] = {#}"
  by (simp add: live_def)

lemma triple_then_delete:
  assumes "triple P m (\<lambda>r w. case r of Inl e \<Rightarrow> True | Inr x \<Rightarrow> Q x w)"
  shows "triple P (then_delete A t m) Q"
  unfolding then_delete_def
proof (rule triple_then_do [OF assms])
  fix r
  show "triple (\<lambda>w. case r of Inl e \<Rightarrow> True | Inr x \<Rightarrow> Q x w)
      (case la_delete_error A t of None \<Rightarrow> lift r | Some e \<Rightarrow> stop (from_ice e)) Q"
    by (cases "la_delete_error A t") (auto intro: triple_basic)
qed

lemma listing_current:
  assumes "listing k t b ms tt = Inr as_base" and "it_current t = Some b"
  shows "it_current as_base = Some b \<and> current_manifests as_base = ms"
  using assms by (auto simp: listing_def current_manifests_def split: option.splits)

lemma triple_made:
  assumes "append_law A"
  shows "triple (lake_ok content k) (then_do (pinned_commit A k write base as_base check files summary)
       (\<lambda>r. give (case r of Inl e \<Rightarrow> Inl (h e) | Inr t \<Rightarrow> Inr t)))
     (\<lambda>r w. case r of Inl e \<Rightarrow> True | Inr t \<Rightarrow> appended_to A as_base files summary t)"
  by (rule triple_then_do [OF triple_pinned [OF assms]]) (auto intro!: triple_basic split: sum.splits)

lemma overwrite_commits:
  assumes "append_law A"
  shows "triple (lake_ok content (iw_table iw) :: ('j, 'l) world \<Rightarrow> bool) (commit_overwrite A iw t files summary)
     (\<lambda>t' _. \<exists>s sn. it_current t' = Some s \<and> map_of (it_snapshots t') s = Some sn
        \<and> sn_parent sn = iw_base iw \<and> live A (sn_manifests sn) = mset (map nf_path files))"
    (is "triple ?P _ ?Q")
proof (cases "it_current t = iw_base iw")
  case False
  then show ?thesis by (simp add: commit_overwrite_def Let_def triple_basic)
next
  case True
  let ?pinned = "\<lambda>base as_base check. then_do (pinned_commit A (iw_table iw) ''overwrite'' base as_base check files summary)
      (\<lambda>r. give (case r of Inl e \<Rightarrow> Inl (pinned_refused (iw_table iw) ''overwrite'' base e) | Inr t \<Rightarrow> Inr t)) :: (('j, 'l) world, ice_table res) step"
  have commit: "triple ?P (?pinned base as_base check) (\<lambda>r w. case r of Inl e \<Rightarrow> True | Inr t' \<Rightarrow> ?Q t' w)"
    if "it_current as_base = iw_base iw" and "current_manifests as_base = []" for base as_base check
    by (rule triple_weaken [OF triple_made [OF assms]])
      (use that in \<open>auto simp: appended_to_def split: sum.splits\<close>)
  show ?thesis
  proof (cases "iw_base iw")
    case None
    with True have "current_manifests t = []" by (simp add: current_manifests_def)
    with None True have "triple ?P (then_do (?pinned None t True) lift) ?Q"
      by (intro triple_then_do [OF commit]) (auto intro!: triple_basic)
    with None True show ?thesis by (simp add: commit_overwrite_def Let_def)
  next
    case (Some b)
    have over: "triple ?P (case listing (iw_table iw) t b [] no_totals of
          Inl e \<Rightarrow> give (Inl e) | Inr as_base \<Rightarrow> ?pinned (Some b) as_base False)
        (\<lambda>r w. case r of Inl e \<Rightarrow> True | Inr t' \<Rightarrow> ?Q t' w)"
    proof (cases "listing (iw_table iw) t b [] no_totals")
      case (Inl e)
      then show ?thesis by (auto intro: triple_basic)
    next
      case (Inr as_base)
      from listing_current [OF Inr] True Some have "it_current as_base = iw_base iw" "current_manifests as_base = []" by simp_all
      from commit [OF this] show ?thesis unfolding Inr sum.case .
    qed
    have "triple ?P (then_delete A t (case listing (iw_table iw) t b [] no_totals of
          Inl e \<Rightarrow> give (Inl e) | Inr as_base \<Rightarrow> ?pinned (Some b) as_base False)) ?Q"
      by (rule triple_then_delete [OF over])
    then show ?thesis using Some True
      by (cases "la_base_error A t") (auto simp: commit_overwrite_def Let_def intro: triple_basic)
  qed
qed

text \<open>What a rewrite carries forward.\<close>

lemma carry_manifests_kept:
  "carry_manifests A refused replaced ms (kept, tt, counted, seen) = Inr (kept', tt', counted', seen')
     \<Longrightarrow> kept' = kept @ filter (\<lambda>m. mf_path m \<notin> set replaced) ms"
proof (induction ms arbitrary: kept tt counted seen)
  case (Cons m ms)
  show ?case
  proof (cases "mf_path m \<in> set replaced")
    case True
    with Cons show ?thesis by simp
  next
    case False
    with Cons.prems obtain tt1 counted1 seen1
      where "carry_manifests A refused replaced ms (kept @ [m], tt1, counted1, seen1) = Inr (kept', tt', counted', seen')"
      by (auto split: if_splits option.splits sum.splits)
    from Cons.IH [OF this] False show ?thesis by simp
  qed
qed simp

lemma count_size_snapshot:
  "carried_list A k t rw now since = Inr (rw', kept, tt) \<Longrightarrow>
     rw_snapshot rw' = rw_snapshot rw \<and> rw_manifests rw' = rw_manifests rw
     \<and> (\<exists>sn. map_of (it_snapshots t) now = Some sn \<and> set (rw_manifests rw) \<subseteq> set (map mf_path (sn_manifests sn))
          \<and> kept = filter (\<lambda>m. mf_path m \<notin> set (rw_manifests rw)) (sn_manifests sn))"
proof -
  assume run: "carried_list A k t rw now since = Inr (rw', kept, tt)"
  let ?refused = "rewrite_refused k (rw_snapshot rw) since"
  from run obtain ms where ms: "manifest_list A k t now = Inr ms"
    and rest: "(case find (\<lambda>p. p \<notin> set (map mf_path ms)) (rw_manifests rw) of
        Some gone \<Rightarrow> Inl (?refused (''its files were replaced or removed (manifest '' @ gone @ '' is no longer listed)''))
      | None \<Rightarrow> and_then (carry_manifests A ?refused (rw_manifests rw) ms ([], no_totals, [], rw_scanned rw))
            (\<lambda>(kept, tt, counted, seen). and_then (count_size A t now (rw_snapshot rw) counted tt seen)
              (\<lambda>(tt, seen). Inr (rw\<lparr>rw_scanned := seen\<rparr>, kept, tt)))) = Inr (rw', kept, tt)"
    unfolding carried_list_def Let_def and_then_eq_Inr by blast
  have found: "find (\<lambda>p. p \<notin> set (map mf_path ms)) (rw_manifests rw) = None"
    using rest by (cases "find (\<lambda>p. p \<notin> set (map mf_path ms)) (rw_manifests rw)") simp_all
  from rest obtain tt1 counted seen seen'
    where carry: "carry_manifests A ?refused (rw_manifests rw) ms ([], no_totals, [], rw_scanned rw) = Inr (kept, tt1, counted, seen)"
      and rw': "rw' = rw\<lparr>rw_scanned := seen'\<rparr>"
    unfolding found option.case
    by (cases "carry_manifests A ?refused (rw_manifests rw) ms ([], no_totals, [], rw_scanned rw)")
      (auto simp: and_then_eq_Inr)
  from ms obtain sn where sn: "map_of (it_snapshots t) now = Some sn" "ms = sn_manifests sn"
    by (auto simp: manifest_list_def split: option.splits)
  from found have "set (rw_manifests rw) \<subseteq> set (map mf_path (sn_manifests sn))"
    by (auto simp: find_None_iff sn(2))
  with sn rw' carry_manifests_kept [OF carry] show ?thesis by auto
qed

text \<open>The manifests of the snapshot being rewritten.\<close>

definition rewriting :: "(int \<Rightarrow> snapshot) \<Rightarrow> int \<Rightarrow> rewritten_files \<Rightarrow> bool" where
  "rewriting content old rw \<longleftrightarrow> rw_manifests rw = map mf_path (sn_manifests (content old)) \<and> distinct (rw_manifests rw)"

lemma rewritten_of_rewrites:
  "rewritten_of A k t old = Inr rw \<Longrightarrow> sound_table content t \<Longrightarrow> rewriting content old rw"
  by (auto simp: rewritten_of_def manifest_list_def and_then_eq_Inr sound_table_def rewriting_def split: option.splits)

lemma live_paths:
  assumes "mset (map mf_path ms) = mset (map mf_path ms')"
  shows "live A ms = live A ms'"
proof -
  let ?g = "\<lambda>p. mset (case la_manifest A p of Inl e \<Rightarrow> [] | Inr es \<Rightarrow> map me_path (filter alive_data es))"
  have "live A xs = \<Sum>\<^sub># (image_mset ?g (mset (map mf_path xs)))" for xs
    by (induction xs) (simp_all add: live_def)
  with assms show ?thesis by simp
qed

lemma live_partition: "live A ms = live A (filter P ms) + live A (filter (\<lambda>m. \<not> P m) ms)"
  by (induction ms) (simp_all add: live_def)

lemma kept_files:
  assumes "distinct (map mf_path ms)" and "distinct (map mf_path old)" and "set (map mf_path old) \<subseteq> set (map mf_path ms)"
  shows "live A ms = live A (filter (\<lambda>m. mf_path m \<notin> set (map mf_path old)) ms) + live A old"
proof -
  let ?r = "filter (\<lambda>m. mf_path m \<in> set (map mf_path old)) ms"
  have "distinct (map mf_path ?r)" using assms(1) by (rule distinct_map_filter)
  moreover have "set (map mf_path ?r) = set (map mf_path old) \<inter> set (map mf_path ms)"
    by (simp add: set_eq_iff image_iff) metis
  with assms(3) have "set (map mf_path ?r) = set (map mf_path old)" by (simp add: Int_absorb2)
  ultimately have "mset (map mf_path ?r) = mset (map mf_path old)"
    using assms(2) set_eq_iff_mset_eq_distinct by blast
  then have "live A ?r = live A old" by (rule live_paths)
  then show ?thesis by (subst live_partition [where P = "\<lambda>m. mf_path m \<in> set (map mf_path old)"]) simp
qed

lemma carried_kept:
  assumes "carried A k t rw now = Some (Inr (rw', kept, tt))" and "rewriting content old rw" and "sound_table content t"
  shows "rewriting content old rw' \<and> live A (sn_manifests (content now)) = live A kept + live A (sn_manifests (content old))"
proof -
  from assms(1) obtain since where "carried_list A k t rw now since = Inr (rw', kept, tt)"
    by (auto simp: carried_def split: option.splits)
  from count_size_snapshot [OF this] obtain sn where rw': "rw_manifests rw' = rw_manifests rw"
    and sn: "map_of (it_snapshots t) now = Some sn" and sub: "set (rw_manifests rw) \<subseteq> set (map mf_path (sn_manifests sn))"
    and kept: "kept = filter (\<lambda>m. mf_path m \<notin> set (rw_manifests rw)) (sn_manifests sn)" by blast
  from sn assms(3) have c: "sn = content now" "distinct (map mf_path (sn_manifests sn))" by (auto simp: sound_table_def)
  from assms(2) sub c(2) have "live A (sn_manifests sn) = live A kept + live A (sn_manifests (content old))"
    unfolding kept rewriting_def by (metis kept_files)
  with assms(2) c(1) show ?thesis unfolding rewriting_def rw' by blast
qed

definition rewrote :: "lake_api \<Rightarrow> (int \<Rightarrow> snapshot) \<Rightarrow> int \<Rightarrow> new_file list \<Rightarrow> ice_table \<Rightarrow> bool" where
  "rewrote A content old files t \<longleftrightarrow>
     (\<exists>s sn p. it_current t = Some s \<and> map_of (it_snapshots t) s = Some sn \<and> sn_parent sn = Some p
        \<and> live A (sn_manifests (content old)) \<subseteq># live A (sn_manifests (content p))
        \<and> live A (sn_manifests sn) = mset (map nf_path files)
            + (live A (sn_manifests (content p)) - live A (sn_manifests (content old))))"

lemma triple_lift_ends: "(\<And>x s. P s \<Longrightarrow> r = Some (Inr x) \<Longrightarrow> Q x s) \<Longrightarrow> triple P (lift_ends r) Q"
  by (auto simp: triple_def lift_ends_def)

lemma triple_reload:
  "triple (lake_ok content k) (reload k old) (\<lambda>t w. lake_ok content k w \<and> sound_table content t)"
  unfolding reload_def by (rule triple_then_do [OF triple_load]) (auto intro!: triple_basic)

lemma triple_carried:
  assumes "rewriting content old rw"
  shows "triple (\<lambda>w. lake_ok content k w \<and> sound_table content t) (lift_ends (carried A k t rw now))
     (\<lambda>(rw', kept, tt) w. lake_ok content k w \<and> rewriting content old rw'
        \<and> live A (sn_manifests (content now)) = live A kept + live A (sn_manifests (content old)))"
  by (intro triple_lift_ends) (use carried_kept [OF _ assms] in fastforce)

lemma rewrite_attempt:
  assumes "append_law A" and now: "it_current t = Some now"
    and kept: "live A (sn_manifests (content now)) = live A kept + live A (sn_manifests (content old))"
  shows "triple (lake_ok content k :: ('j, 'l) world \<Rightarrow> bool) (then_delete A t (case listing k t now kept tt of
       Inl e \<Rightarrow> give (Inl e)
     | Inr as_base \<Rightarrow> then_do (pinned_commit A k ''rewrite'' (Some now) as_base False files summary) (\<lambda>r. give (Inr r))))
     (\<lambda>r w. case r of Inl e \<Rightarrow> lake_ok content k w | Inr t' \<Rightarrow> rewrote A content old files t')"
    (is "triple ?P (then_delete A t ?m) ?Q")
proof (rule triple_then_delete)
  show "triple ?P ?m (\<lambda>r w. case r of Inl e \<Rightarrow> True | Inr x \<Rightarrow> ?Q x w)"
  proof (cases "listing k t now kept tt")
    case (Inl e)
    then show ?thesis by (auto intro: triple_basic)
  next
    case (Inr as_base)
    from listing_current [OF Inr now] have base: "it_current as_base = Some now" "current_manifests as_base = kept" by simp_all
    have "triple ?P (pinned_commit A k ''rewrite'' (Some now) as_base False files summary) ?Q"
    proof (rule triple_weaken [OF triple_pinned [OF assms(1)]])
      fix r :: "ice_error + ice_table" and w :: "('j, 'l) world"
      assume "case r of Inl e \<Rightarrow> lake_ok content k w | Inr t' \<Rightarrow> appended_to A as_base files summary t'"
      then show "?Q r w"
        using base kept by (cases r) (auto simp: appended_to_def rewrote_def)
    qed
    then show ?thesis unfolding Inr sum.case by (rule triple_then_do) (auto intro: triple_basic)
  qed
qed

lemma rewrite_turn_rewrote:
  assumes law: "append_law A" and rw: "rewriting content old rw"
    and again: "\<And>f rw. again = Some f \<Longrightarrow> rewriting content old rw \<Longrightarrow>
      triple (lake_ok content k) (f rw) (\<lambda>t _. rewrote A content old files t)"
  shows "triple (lake_ok content k :: ('j, 'l) world \<Rightarrow> bool) (rewrite_turn A k files summary old p n again rw)
     (\<lambda>t _. rewrote A content old files t)"
  unfolding rewrite_turn_def
proof (rule triple_then_do [OF triple_reload], rule triple_then_do)
  fix t
  show "triple (\<lambda>w. lake_ok content k w \<and> sound_table content t) (lift (current_snapshot k t old))
      (\<lambda>now w. it_current t = Some now \<and> lake_ok content k w \<and> sound_table content t)"
    by (intro triple_basic) (auto simp: current_snapshot_def)
next
  fix t now
  let ?m = "\<lambda>kept tt. then_delete A t (case listing k t now kept tt of
       Inl e \<Rightarrow> give (Inl e)
     | Inr as_base \<Rightarrow> then_do (pinned_commit A k ''rewrite'' (Some now) as_base False files summary) (\<lambda>r. give (Inr r)))"
  let ?rest = "\<lambda>rw'. \<lambda>r. case r of
        Inr t' \<Rightarrow> give t'
      | Inl (OtherIce e) \<Rightarrow> stop (from_ice (OtherIce e))
      | Inl (CommitConflicts e) \<Rightarrow>
          if again \<noteq> None \<and> in_time A p n then the again rw'
          else stop (Conflict (k @ '' moved under each of '' @ show_nat (n + 1)
            @ '' attempts to commit the rewrite of snapshot '' @ show_int old @ ''; the last refusal: '' @ e))"
  show "triple (\<lambda>w. it_current t = Some now \<and> lake_ok content k w \<and> sound_table content t)
      (then_do (lift_ends (carried A k t rw now)) (\<lambda>(rw', kept, tt).
         case la_base_error A t of Some e \<Rightarrow> stop e | None \<Rightarrow> then_do (?m kept tt) (?rest rw')))
      (\<lambda>t _. rewrote A content old files t)"
  proof (rule triple_pre [where b = "it_current t = Some now"], simp)
    assume now: "it_current t = Some now"
    have one: "triple (lake_ok content k :: ('j, 'l) world \<Rightarrow> bool)
        (case la_base_error A t of Some e \<Rightarrow> stop e | None \<Rightarrow> then_do (?m kept tt) (?rest rw'))
        (\<lambda>t _. rewrote A content old files t)"
      if rw': "rewriting content old rw'"
        and kept: "live A (sn_manifests (content now)) = live A kept + live A (sn_manifests (content old))" for rw' kept tt
    proof (cases "la_base_error A t")
      case (Some e)
      then show ?thesis by (simp add: triple_basic)
    next
      case None
      have "triple (lake_ok content k :: ('j, 'l) world \<Rightarrow> bool) (then_do (?m kept tt) (?rest rw')) (\<lambda>t _. rewrote A content old files t)"
      proof (rule triple_then_do [OF rewrite_attempt [OF law now kept]])
        fix r :: "ice_error + ice_table"
        show "triple (\<lambda>w. case r of Inl e \<Rightarrow> lake_ok content k w | Inr t' \<Rightarrow> rewrote A content old files t') (?rest rw' r)
            (\<lambda>t _. rewrote A content old files t)"
        proof (cases r)
          case (Inr t')
          then show ?thesis by (auto intro: triple_basic)
        next
          case (Inl e)
          then show ?thesis using again [OF _ rw'] by (cases e) (auto intro: triple_basic)
        qed
      qed
      then show ?thesis unfolding None option.case .
    qed
    let ?R = "\<lambda>(rw', kept, tt) w. lake_ok content k w \<and> rewriting content old rw'
            \<and> live A (sn_manifests (content now)) = live A kept + live A (sn_manifests (content old))"
    have carry: "triple (\<lambda>w. it_current t = Some now \<and> lake_ok content k w \<and> sound_table content t)
        (lift_ends (carried A k t rw now)) ?R"
      by (rule triple_weaken [OF triple_carried [OF rw]]) simp_all
    show ?thesis
    proof (rule triple_then_do [OF carry])
      fix x :: "rewritten_files \<times> manifest_file list \<times> totals"
      obtain rw' kept tt where x: "x = (rw', kept, tt)" by (cases x)
      show "triple (case x of (rw', kept, tt) \<Rightarrow> \<lambda>w :: ('j, 'l) world. lake_ok content k w \<and> rewriting content old rw'
            \<and> live A (sn_manifests (content now)) = live A kept + live A (sn_manifests (content old)))
          (case x of (rw', kept, tt) \<Rightarrow>
             case la_base_error A t of Some e \<Rightarrow> stop e | None \<Rightarrow> then_do (?m kept tt) (?rest rw'))
          (\<lambda>t _. rewrote A content old files t)"
        unfolding x prod.case
        by (rule triple_pre [where b = "rewriting content old rw'
              \<and> live A (sn_manifests (content now)) = live A kept + live A (sn_manifests (content old))"], simp)
          (rule triple_weaken [OF one], auto)
    qed
  qed
qed

lemma rewrite_loop_rewrote:
  assumes "append_law A"
  shows "rewriting content old rw \<Longrightarrow>
     triple (lake_ok content k) (rewrite_loop A k files summary old p n rw) (\<lambda>t _. rewrote A content old files t)"
proof (induction n arbitrary: rw)
  case 0
  then show ?case unfolding rewrite_loop.simps by (intro rewrite_turn_rewrote [OF assms]) simp_all
next
  case (Suc n)
  from Suc.prems show ?case unfolding rewrite_loop.simps
    by (rule rewrite_turn_rewrote [OF assms]) (use Suc.IH in simp)
qed

lemma rewrite_commits:
  assumes "append_law A" and "sound_table content t"
  shows "triple (lake_ok content k :: ('j, 'l) world \<Rightarrow> bool) (commit_rewrite A k t files summary old) (\<lambda>t _. rewrote A content old files t)"
proof (cases "rewritten_of A k t old")
  case (Inl e)
  then show ?thesis by (auto simp: commit_rewrite_def triple_def step_simps)
next
  case (Inr rw)
  then have rw: "rewriting content old rw" using rewritten_of_rewrites assms(2) by blast
  have "triple (lake_ok content k :: ('j, 'l) world \<Rightarrow> bool) (commit_rewrite A k t files summary old) (\<lambda>t _. rewrote A content old files t)"
    if "it_retry t = Inr p" "it_format t = 2" for p
  proof -
    have inner: "triple (\<lambda>w :: ('j, 'l) world. lake_ok content k w \<and> sound_table content t') (then_do (lift_ends (carried A k t' rw now)) (\<lambda>(rw', kept, tt).
        rewrite_loop A k files summary old p (cr_retries p) rw')) (\<lambda>t _. rewrote A content old files t)" for t' now
    proof (rule triple_then_do [OF triple_carried [OF rw]])
      fix x :: "rewritten_files \<times> manifest_file list \<times> totals"
      obtain rw' kept tt where x: "x = (rw', kept, tt)" by (cases x)
      show "triple (case x of (rw', kept, tt) \<Rightarrow> \<lambda>w :: ('j, 'l) world. lake_ok content k w \<and> rewriting content old rw'
            \<and> live A (sn_manifests (content now)) = live A kept + live A (sn_manifests (content old)))
          (case x of (rw', kept, tt) \<Rightarrow> rewrite_loop A k files summary old p (cr_retries p) rw')
          (\<lambda>t _. rewrote A content old files t)"
        unfolding x prod.case
        by (rule triple_pre [where b = "rewriting content old rw'"], simp)
          (rule triple_weaken [OF rewrite_loop_rewrote [OF assms(1)]], auto)
    qed
    have "triple (lake_ok content k :: ('j, 'l) world \<Rightarrow> bool) (then_do (reload k old) (\<lambda>t. then_do (lift (current_snapshot k t old)) (\<lambda>now.
        then_do (lift_ends (carried A k t rw now)) (\<lambda>(rw', kept, tt).
          rewrite_loop A k files summary old p (cr_retries p) rw')))) (\<lambda>t _. rewrote A content old files t)"
      by (rule triple_then_do [OF triple_reload], rule triple_then_do [OF _ inner]) (rule triple_basic, simp)
    then show ?thesis using that Inr by (simp add: commit_rewrite_def triple_def then_do_def lift_def)
  qed
  then show ?thesis
    by (cases "it_retry t"; cases "it_format t = 2") (auto simp: commit_rewrite_def triple_def step_simps Inr)
qed

section \<open>The abstract table\<close>

text \<open>
  A table as the files of its snapshots: what a commit may do to it. An append adds its files to those of the
  snapshot it follows; an overwrite leaves only its own, and follows the snapshot it began from; a rewrite
  of a snapshot takes that snapshot's files, all of them, from those of the snapshot it follows.
\<close>

definition files_at :: "lake_api \<Rightarrow> (int \<Rightarrow> snapshot) \<Rightarrow> int option \<Rightarrow> string multiset" where
  "files_at A content s = (case s of None \<Rightarrow> {#} | Some s \<Rightarrow> live A (sn_manifests (content s)))"

definition commit_spec ::
  "(int option \<Rightarrow> string multiset) \<Rightarrow> write_kind \<Rightarrow> int option \<Rightarrow> string multiset \<Rightarrow> int option \<Rightarrow> string multiset \<Rightarrow> bool" where
  "commit_spec at_snapshot kind base written parent after \<longleftrightarrow>
     (case kind of
        KindAppend \<Rightarrow> after = at_snapshot parent + written
      | KindOverwrite \<Rightarrow> parent = base \<and> after = written
      | KindRewrite old \<Rightarrow> parent \<noteq> None \<and> at_snapshot (Some old) \<subseteq># at_snapshot parent
          \<and> after = at_snapshot parent - at_snapshot (Some old) + written)"

definition meets_spec :: "lake_api \<Rightarrow> (int \<Rightarrow> snapshot) \<Rightarrow> iceberg_write \<Rightarrow> string multiset \<Rightarrow> ice_table \<Rightarrow> bool" where
  "meets_spec A content iw written t \<longleftrightarrow>
     (\<exists>s sn. it_current t = Some s \<and> map_of (it_snapshots t) s = Some sn
        \<and> commit_spec (files_at A content) (iw_kind iw) (iw_base iw) written (sn_parent sn) (live A (sn_manifests sn)))"

lemma commit_kind_meets:
  assumes "append_law A" and "sound_table content t"
  shows "triple (lake_ok content (iw_table iw)) (commit_kind A iw t files summary)
     (\<lambda>t' _. meets_spec A content iw (mset (map nf_path files)) t')"
proof (cases "iw_kind iw")
  case KindAppend
  show ?thesis unfolding commit_kind_def KindAppend write_kind.case
    by (rule triple_weaken [OF append_commits [OF assms(1)]])
      (auto simp: meets_spec_def commit_spec_def KindAppend files_at_def add.commute split: option.splits)
next
  case KindOverwrite
  show ?thesis unfolding commit_kind_def KindOverwrite write_kind.case
    by (rule triple_weaken [OF overwrite_commits [OF assms(1)]]) (auto simp: meets_spec_def commit_spec_def KindOverwrite)
next
  case (KindRewrite old)
  show ?thesis unfolding commit_kind_def KindRewrite write_kind.case
    by (rule triple_weaken [OF rewrite_commits [OF assms]])
      (auto simp: meets_spec_def commit_spec_def KindRewrite rewrote_def files_at_def add.commute)
qed

lemma triple_kept: "triple P m Q \<Longrightarrow> keeps f m \<Longrightarrow> triple (\<lambda>s. P s \<and> f s = v) m (\<lambda>x s. Q x s \<and> f s = v)"
  by (auto simp: triple_def keeps_def)

lemma load_keeps_trees: "keeps w_trees (load_table k)"
  unfolding load_table_def others_def by (intro keeps_intros) (auto split: list.split)

lemma data_file_path: "data_file_of A iw t pf = Inr x \<Longrightarrow> nf_path x = written_path iw (fst pf)"
  by (cases pf) (auto simp: data_file_of_def Let_def split: sum.splits option.splits)

lemma data_files_paths:
  assumes "data_files A iw t w = Inr files"
  shows "\<exists>fs. list_files (w_trees w (iw_dir iw)) = Inr fs \<and> map nf_path files = map (written_path iw \<circ> fst) fs"
proof -
  from assms obtain fs where fs: "list_files (w_trees w (iw_dir iw)) = Inr fs" "map_res (data_file_of A iw t) fs = Inr files"
    by (auto simp: data_files_def and_then_eq_Inr)
  from fs(2) have "map nf_path files = map (written_path iw \<circ> fst) fs"
  proof (induction fs arbitrary: files)
    case (Cons pf fs)
    then obtain x xs where "data_file_of A iw t pf = Inr x" "map_res (data_file_of A iw t) fs = Inr xs" "files = x # xs"
      by (auto simp: and_then_eq_Inr)
    with Cons.IH [of xs] data_file_path [of A iw t pf x] show ?case by simp
  qed simp
  with fs(1) show ?thesis by blast
qed

lemma triple_on_fs: "(\<And>w d. P (w\<lparr>w_fs := d\<rparr>) = P w) \<Longrightarrow> triple P (on_fs f) (\<lambda>_. P)"
  by (auto simp: triple_def on_fs_def split: prod.splits)

lemma ice_commit_meets:
  assumes "append_law A"
  shows "triple (\<lambda>w. lake_ok content (iw_table iw) w \<and> w_trees w = T) (ice_commit H A iw cc facts)
     (\<lambda>(t, sc) _. \<exists>fs. list_files (T (iw_dir iw)) = Inr fs
        \<and> meets_spec A content iw (mset (map (written_path iw \<circ> fst) fs)) t
        \<and> committed_snapshot (iw_table iw) t = Inr sc)"
proof -
  let ?ok = "\<lambda>w. lake_ok content (iw_table iw) w \<and> w_trees w = T"
  have fs: "?ok (w\<lparr>w_fs := d\<rparr>) = ?ok w" for w d by (simp add: lake_ok_fs)
  let ?loaded = "\<lambda>to w. (lake_ok content (iw_table iw) w \<and> (\<forall>t. to = Some t \<longrightarrow> sound_table content t)) \<and> w_trees w = T"
  let ?at = "\<lambda>t w. ?ok w \<and> sound_table content t"
  show ?thesis
    unfolding ice_commit_def Let_def
  proof (rule triple_then_do [OF triple_kept [OF triple_load load_keeps_trees]], rule triple_then_do)
    fix to
    show "triple (?loaded to) (lift (ok_or (Invalid (iw_table iw @ '' was dropped'')) to)) ?at"
      by (intro triple_basic) auto
  next
    fix t
    let ?ending = "\<lambda>files. then_do (commit_kind A iw t files (write_summary iw cc)) (\<lambda>t'.
        then_do (lift (committed_snapshot (iw_table iw) t')) (\<lambda>sc. give (t', sc)))"
    let ?Q = "\<lambda>(t, sc) _. \<exists>fs. list_files (T (iw_dir iw)) = Inr fs
        \<and> meets_spec A content iw (mset (map (written_path iw \<circ> fst) fs)) t \<and> committed_snapshot (iw_table iw) t = Inr sc"
    have at_fs: "?at t (w\<lparr>w_fs := d\<rparr>) = ?at t w" for w d by (simp add: lake_ok_fs)
    let ?up = "if iw_staged iw
        then then_do (look_res (\<lambda>w. list_files (w_trees w (iw_dir iw)))) (\<lambda>fs. on_fs (upload_staged H iw fs)) else give ()"
    let ?listed = "\<lambda>files w. ?at t w \<and> (\<exists>fs. list_files (T (iw_dir iw)) = Inr fs
        \<and> map nf_path files = map (written_path iw \<circ> fst) fs)"
    have up: "triple (?listed files) ?up (\<lambda>_. ?listed files)" for files
      by (intro triple_if triple_then_do [where R = "\<lambda>_. ?listed files"] triple_basic triple_on_fs) (auto simp: lake_ok_fs)
    have finish: "triple (?listed files) (?ending files) ?Q" for files
    proof (rule triple_pre [where b = "sound_table content t \<and> (\<exists>fs. list_files (T (iw_dir iw)) = Inr fs
          \<and> map nf_path files = map (written_path iw \<circ> fst) fs)"], simp)
      assume pre: "sound_table content t \<and> (\<exists>fs. list_files (T (iw_dir iw)) = Inr fs
          \<and> map nf_path files = map (written_path iw \<circ> fst) fs)"
      then obtain fs where fs: "list_files (T (iw_dir iw)) = Inr fs"
        and paths: "map nf_path files = map (written_path iw \<circ> fst) fs" by blast
      have "triple (?listed files) (commit_kind A iw t files (write_summary iw cc))
          (\<lambda>t' _. meets_spec A content iw (mset (map (written_path iw \<circ> fst) fs)) t')"
        unfolding paths [symmetric] by (rule triple_weaken [OF commit_kind_meets [OF assms]]) (use pre in auto)
      then show "triple (?listed files) (?ending files) ?Q"
        by (rule triple_then_do) (use fs in \<open>auto simp: triple_def step_simps\<close>)
    qed
    show "triple (?at t) (then_do (do_all (\<lambda>f. on_fs (save_write_facts H t (iw_id iw) f)) facts) (\<lambda>_.
        then_do (look_res (data_files A iw t)) (\<lambda>files. then_do ?up (\<lambda>_. ?ending files)))) ?Q"
    proof (rule triple_then_do [where R = "\<lambda>_. ?at t"], rule triple_do_all, rule triple_on_fs, simp add: lake_ok_fs, rule triple_then_do)
      show "triple (?at t) (look_res (data_files A iw t)) ?listed"
        by (intro triple_basic) (auto dest: data_files_paths)
    next
      fix files
      show "triple (?listed files) (then_do ?up (\<lambda>_. ?ending files)) ?Q"
        by (rule triple_then_do [OF up finish])
    qed
  qed
qed

text \<open>
  C8. A commit refines the abstract table, whatever other writers commit between any two of its steps: the snapshot
  it makes holds the write's files and exactly those its kind keeps. An append loses no file of the snapshot it follows;
  an overwrite replaces only the snapshot it began from, so a commit that landed meanwhile is never overwritten
  unseen; a rewrite keeps every file that was added since the snapshot it rewrote.
\<close>

theorem commit_refines:
  assumes "append_law A" and "lake_ok content (iw_table iw) w"
    and "ice_commit H A iw cc facts w = Some (w', Inr (t, sc))"
  shows "\<exists>fs sn. list_files (w_trees w (iw_dir iw)) = Inr fs
     \<and> it_current t = Some (sc_snapshot sc) \<and> map_of (it_snapshots t) (sc_snapshot sc) = Some sn \<and> sc_parent sc = sn_parent sn
     \<and> commit_spec (files_at A content) (iw_kind iw) (iw_base iw) (mset (map (written_path iw \<circ> fst) fs))
         (sc_parent sc) (live A (sn_manifests sn))"
proof -
  from tripleD [OF ice_commit_meets [OF assms(1)] assms(3), of content "w_trees w"] assms(2)
  obtain fs where "list_files (w_trees w (iw_dir iw)) = Inr fs"
    and "meets_spec A content iw (mset (map (written_path iw \<circ> fst) fs)) t"
    and "committed_snapshot (iw_table iw) t = Inr sc" by auto
  then show ?thesis by (auto simp: meets_spec_def committed_snapshot_def)
qed

end
