(* ===== verification/Commit_Ends.thy ===== *)
theory Commit_Ends
  imports Commits
begin

text \<open>
  When a commit ends, and what it answers: the walk over the snapshots since a rewritten one ends on every
  table whose snapshots follow one another, and finds the rewritten one exactly when it is an ancestor; and the
  removal of the temporary list, which is made after the commit, can make a commit that landed a failure.
\<close>

section \<open>The snapshots since one\<close>

definition follows :: "ice_table \<Rightarrow> int \<Rightarrow> int \<Rightarrow> bool" where
  "follows t s p \<longleftrightarrow> (\<exists>sn. map_of (it_snapshots t) s = Some sn \<and> sn_parent sn = Some p)"

lemma since_walk_steps:
  "since_walk t old (Some old) acc = Some (Some acc)"
  "since_walk t old None acc = Some None"
  "s \<noteq> old \<Longrightarrow> map_of (it_snapshots t) s = None \<Longrightarrow> since_walk t old (Some s) acc = Some None"
  "s \<noteq> old \<Longrightarrow> map_of (it_snapshots t) s = Some sn \<Longrightarrow> since_walk t old (Some s) acc
     = since_walk t old (sn_parent sn) (acc @ [show_int s @ '' ('' @ snapshot_did sn @ '')''])"
  by (simp_all add: since_walk.simps)

text \<open>A table whose snapshots never follow themselves: each snapshot is later, by \<open>age\<close>, than its parent.\<close>

definition aged :: "(int \<Rightarrow> nat) \<Rightarrow> ice_table \<Rightarrow> bool" where
  "aged age t \<longleftrightarrow> (\<forall>(s, sn) \<in> set (it_snapshots t). case sn_parent sn of None \<Rightarrow> True | Some p \<Rightarrow> age p < age s)"

lemma aged_step: "aged age t \<Longrightarrow> map_of (it_snapshots t) s = Some sn \<Longrightarrow> sn_parent sn = Some p \<Longrightarrow> age p < age s"
  by (auto simp: aged_def dest!: map_of_SomeD split: option.splits)

text \<open>
  The walk back from a table's current snapshot to the one being rewritten ends, and its answer is exact: the
  snapshots since are given when the rewritten one is the current one or an ancestor of it, and only then. It is
  what a rewrite decides by: a rewrite of a snapshot that is no longer part of the table's history is refused.
\<close>

theorem since_walk_ends:
  assumes "aged age t"
  shows "\<exists>r. since_walk t old (Some s) acc = Some r \<and> (r \<noteq> None \<longleftrightarrow> (follows t)\<^sup>*\<^sup>* s old)"
proof (induction "age s" arbitrary: s acc rule: less_induct)
  case less
  show ?case
  proof (cases "s = old")
    case True
    then show ?thesis by (simp add: since_walk_steps)
  next
    case False
    then have ancestor: "(follows t)\<^sup>*\<^sup>* s old \<longleftrightarrow> (\<exists>p. follows t s p \<and> (follows t)\<^sup>*\<^sup>* p old)"
      by (metis converse_rtranclpE converse_rtranclp_into_rtranclp)
    show ?thesis
    proof (cases "map_of (it_snapshots t) s")
      case None
      with ancestor show ?thesis by (simp add: since_walk_steps(3) [OF False] follows_def)
    next
      case (Some sn)
      show ?thesis
      proof (cases "sn_parent sn")
        case None
        with ancestor Some show ?thesis by (simp add: since_walk_steps(2) since_walk_steps(4) [OF False Some] follows_def)
      next
        case (Some p)
        note less.hyps [OF aged_step [OF assms \<open>map_of (it_snapshots t) s = Some sn\<close> Some]]
        then show ?thesis using Some ancestor \<open>map_of (it_snapshots t) s = Some sn\<close>
          by (simp add: since_walk_steps(4) [OF False \<open>map_of (it_snapshots t) s = Some sn\<close>] follows_def)
      qed
    qed
  qed
qed

section \<open>A landed commit answered as a failure\<close>

lemma then_delete_run:
  "then_delete A t m w = Some (w', Inr x) \<longleftrightarrow> la_delete_error A t = None \<and> m w = Some (w', Inr (Inr x))"
  by (auto simp: then_delete_def then_do_Inr step_sides step_runs(2) split: option.splits)

lemma then_delete_fails:
  "m w = Some (w', Inr r) \<Longrightarrow> la_delete_error A t = Some e \<Longrightarrow> then_delete A t m w = Some (w', Inl (from_ice e))"
  by (simp add: then_delete_def then_do_def stop_def)

lemma pinned_commit_delete [simp]:
  "pinned_commit (A\<lparr>la_delete_error := f\<rparr>) k what base as_base check files summary
     = pinned_commit A k what base as_base check files summary"
proof -
  have same: "la_append (A\<lparr>la_delete_error := f\<rparr>) = la_append A" "la_missing (A\<lparr>la_delete_error := f\<rparr>) = la_missing A"
    by simp_all
  show ?thesis unfolding pinned_commit_def pinned_load_def same ..
qed

text \<open>
  An overwrite answers with an error although its snapshot is committed, when the temporary list it committed from
  cannot be removed afterwards: the table is left exactly as the overwrite that succeeds leaves it.
\<close>

theorem landed_overwrite_reported_failed:
  assumes "commit_overwrite A iw t files summary w = Some (w', Inr t')" and "iw_base iw = Some base"
  shows "commit_overwrite (A\<lparr>la_delete_error := \<lambda>_. Some e\<rparr>) iw t files summary w = Some (w', Inl (from_ice e))"
proof -
  from assms have same: "it_current t = Some base" "it_format t = 2" "la_base_error A t = None"
    by (auto simp: commit_overwrite_def Let_def step_runs(2) split: if_splits option.splits)
  with assms show ?thesis
    by (auto simp: commit_overwrite_def Let_def then_delete_run cong: option.case_cong intro!: then_delete_fails)
qed

end
