(* ===== verification/Writes.thy ===== *)
theory Writes
  imports Dataset Commits "HOL-Library.AList"
begin

text \<open>
  Writing under a contract (\<open>begin_write\<close>, \<open>write_part\<close>, \<open>finish_write\<close>, \<open>compact\<close> and what they call, of
  \<open>src/engine.rs\<close>): a write lands its parts in a directory of its own, validates the rows it wrote under every
  contract bound to the data, and publishes its files and those contracts' facts. DataFusion's execution of a
  part's plan and parcel's validation are parameters.
\<close>

section \<open>Files of a directory\<close>

text \<open>Moving a file to a path, with the directories on the way, and removing one.\<close>

fun put_file :: "'f tree option \<Rightarrow> string list \<Rightarrow> 'f \<Rightarrow> string + 'f tree" where
  "put_file (Some (Dir es)) [] f = Inl ''is a directory''"
| "put_file (Some (Locked e)) p f = Inl e"
| "put_file (Some (File g)) [] f = Inr (File f)"
| "put_file None [] f = Inr (File f)"
| "put_file (Some (File g)) (n # p) f = Inl ''not a directory''"
| "put_file None (n # p) f = (case put_file None p f of Inl e \<Rightarrow> Inl e | Inr t \<Rightarrow> Inr (Dir [(n, t)]))"
| "put_file (Some (Dir es)) (n # p) f =
     (case put_file (map_of es n) p f of Inl e \<Rightarrow> Inl e | Inr t \<Rightarrow> Inr (Dir (AList.update n t es)))"

fun drop_file :: "string list \<Rightarrow> 'f tree \<Rightarrow> 'f tree" where
  "drop_file [n] (Dir es) = Dir (filter (\<lambda>e. fst e \<noteq> n) es)"
| "drop_file (n # p) (Dir es) = Dir (map (\<lambda>(m, t). (m, if m = n then drop_file p t else t)) es)"
| "drop_file p t = t"

section \<open>A write in progress\<close>

record writing =
  wr_reg :: registered
  wr_location :: location
  wr_written :: written
  wr_on_violation :: on_write_violation
  wr_rows :: nat
  wr_rows_excluded :: nat
  wr_excluded :: "(string, nat) btmap"
  wr_bytes :: nat
  wr_memory :: "nat option"
  wr_staged :: "string option"
  wr_iceberg :: "iceberg_write option"
  wr_removed :: "string list"

definition MIN_WRITE_MEMORY :: nat where
  "MIN_WRITE_MEMORY = push_bit 20 4"

definition with_memory :: "nat \<Rightarrow> writing \<Rightarrow> writing" where
  "with_memory n w = w\<lparr>wr_memory := Some (max n MIN_WRITE_MEMORY)\<rparr>"

definition row_bytes :: "writing \<Rightarrow> nat" where
  "row_bytes w = max (wr_bytes w div max (wr_rows w) 1) 1"

definition write_dir :: "writing \<Rightarrow> string res" where
  "write_dir w =
     (case wr_iceberg w of
        Some iw \<Rightarrow> Inr (iw_dir iw)
      | None \<Rightarrow> ok_or (Invalid (''`'' @ reg_name (wr_reg w) @ ''` was not begun as a write'')) (wr_staged w))"

section \<open>How files are laid out and stamped\<close>

text \<open>The session of a part, bounded when the write is.\<close>

record write_session =
  wss_partitions :: "nat option"
  wss_batch :: "nat option"
  wss_keep_partitions :: bool
  wss_pool :: "nat option"
  wss_writer_buffer :: "nat option"
  wss_sort_spill :: "nat option"
  wss_one_file :: bool

record write_options =
  wo_partition_by :: "string list"
  wo_sort_by :: "string list"
  wo_key_values :: "(string \<times> string) list"
  wo_statistics :: string
  wo_parallel_file :: bool
  wo_row_group_bytes :: "nat option"
  wo_bloom :: "(string, nat option) btmap"

definition write_options_of :: "compilation \<Rightarrow> nat option \<Rightarrow> nat \<Rightarrow> write_options res" where
  "write_options_of c memory rows =
     (if (case memory of Some m \<Rightarrow> m div 8 = 0 | None \<Rightarrow> False) then Inl (Invalid ''a row group of no bytes'')
      else Inr \<lparr>
        wo_partition_by = partition_by (layout c), wo_sort_by = cluster_by (layout c),
        wo_key_values = [(CONTRACT_HASH_KEY, contract_hash (contract c)), (CONTRACT_NAME_KEY, cc_name (contract c))],
        wo_statistics = ''page'', wo_parallel_file = False, wo_row_group_bytes = map_option (\<lambda>m. m div 8) memory,
        wo_bloom = bt_of (map (\<lambda>c. (c, if memory \<noteq> None then Some (max rows 1) else None)) (bloom (layout c)))\<rparr>)"

section \<open>Everything outside the source\<close>

type_synonym table_data = "string \<times> schema \<times> batch list"

record 'j write_api =
  wa_lake :: lake_api
  wa_staging_root :: string
  wa_canonicalize :: "string \<Rightarrow> string + string"
  wa_conform :: "schema \<Rightarrow> batch \<Rightarrow> batch res"
  wa_mem_table :: "schema \<Rightarrow> batch list \<Rightarrow> df_error option"
  wa_session_error :: "write_session \<Rightarrow> df_error option"
  wa_execute :: "write_session \<Rightarrow> table_data \<Rightarrow> lplan \<Rightarrow> df_error + schema \<times> batch list"
  wa_write :: "write_session \<Rightarrow> table_data \<Rightarrow> lplan \<Rightarrow> string \<Rightarrow> write_options \<Rightarrow> (string list \<times> data_file) list \<times> df_error option"
  wa_url_error :: "string \<Rightarrow> string option"
  wa_validate :: "compilation \<Rightarrow> write_session option \<Rightarrow> bool \<Rightarrow> data_file tree option \<Rightarrow> runtime_error + 'j verdict"
  wa_provider_error :: "compiled_contract \<Rightarrow> bool \<Rightarrow> peql_error option"
  wa_remove_error :: "string \<Rightarrow> string option"
  wa_rename_error :: "string \<Rightarrow> string option"
  wa_object_error :: "string list \<Rightarrow> df_error option"
  wa_stored :: "ice_table \<Rightarrow> int \<Rightarrow> df_error + schema \<times> batch list"
  wa_counts :: "(string list \<times> data_file) list \<Rightarrow> batch list"

definition df_fails :: "df_error option \<Rightarrow> unit res" where
  "df_fails e = (case e of Some e \<Rightarrow> Inl (DataFusion e) | None \<Rightarrow> Inr ())"

definition io_fails :: "string option \<Rightarrow> unit res" where
  "io_fails e = (case e of Some e \<Rightarrow> Inl (Io e) | None \<Rightarrow> Inr ())"

definition bounded_session :: "'j write_api \<Rightarrow> nat \<Rightarrow> nat \<Rightarrow> nat option \<Rightarrow> bool \<Rightarrow> write_session res" where
  "bounded_session W memory partitions batch keep =
     (if batch = Some 0 then Inl (Invalid ''a batch of no rows'')
      else let s = \<lparr>wss_partitions = Some (max partitions 1), wss_batch = batch, wss_keep_partitions = keep,
             wss_pool = Some memory, wss_writer_buffer = Some (max (memory div 8) (2 ^ 20)),
             wss_sort_spill = Some (memory div 8), wss_one_file = True\<rparr>
           in and_then (df_fails (wa_session_error W s)) (\<lambda>_. Inr s))"

definition free_session :: "nat option \<Rightarrow> bool \<Rightarrow> bool \<Rightarrow> write_session" where
  "free_session partitions keep one_file =
     \<lparr>wss_partitions = partitions, wss_batch = None, wss_keep_partitions = keep, wss_pool = None,
      wss_writer_buffer = None, wss_sort_spill = None, wss_one_file = one_file\<rparr>"

section \<open>Beginning\<close>

definition is_disk_file :: "('j, 'l) world \<Rightarrow> string \<Rightarrow> bool" where
  "is_disk_file w p \<longleftrightarrow> (case w_trees w p of Some (File f) \<Rightarrow> True | _ \<Rightarrow> False)"

definition remove_dir :: "string \<Rightarrow> (('j, 'l) world, unit) step" where
  "remove_dir dir = change (\<lambda>w. w\<lparr>w_trees := (w_trees w)(dir := None)\<rparr>)"

definition write_mode :: "(int \<times> string list) option \<Rightarrow> bool \<Rightarrow> written" where
  "write_mode rewrite overwrite = (if rewrite \<noteq> None then Rewrite else if overwrite then Overwrite else Append)"

definition staged_dir :: "'j write_api \<Rightarrow> string \<Rightarrow> location \<Rightarrow> string option" where
  "staged_dir W uuid l =
     (case l of
        Local dir \<Rightarrow> Some (path_join (path_join dir ''_peql/staging'') uuid)
      | ObjectAt _ \<Rightarrow> Some (path_join (wa_staging_root W) uuid)
      | IcebergAt _ \<Rightarrow> None)"

definition begin_at ::
  "('v, 'w, 'j, 'l) host \<Rightarrow> 'j write_api \<Rightarrow> string \<Rightarrow> registered \<Rightarrow> location \<Rightarrow> bool \<Rightarrow> (int \<times> string list) option
     \<Rightarrow> on_write_violation \<Rightarrow> (('j, 'l) world, writing) step" where
  "begin_at H W uuid reg l overwrite rewrite ov =
     (let staged = staged_dir W uuid l;
          kind = (case rewrite of Some (s, _) \<Rightarrow> KindRewrite s
            | None \<Rightarrow> if overwrite then KindOverwrite else KindAppend) in
      then_do (case staged of Some dir \<Rightarrow> create_dir H dir | None \<Rightarrow> give ()) (\<lambda>_.
      then_do (case l of
          IcebergAt k \<Rightarrow> then_do (ice_begin_write H (wa_lake W) k uuid (contract (r_compilation reg)) kind (wa_staging_root W))
            (\<lambda>iw. give (Some iw))
        | _ \<Rightarrow> give None) (\<lambda>iw.
      if rewrite \<noteq> None \<and> iw = None
      then then_do (case staged of Some dir \<Rightarrow> remove_dir dir | None \<Rightarrow> give ()) (\<lambda>_.
             stop (Invalid (''`'' @ reg_name reg @ ''` is not bound to an Iceberg table; only an Iceberg table's snapshot ''
               @ ''is rewritten'')))
      else give \<lparr>wr_reg = reg, wr_location = l, wr_written = write_mode rewrite overwrite, wr_on_violation = ov,
        wr_rows = 0, wr_rows_excluded = 0, wr_excluded = [], wr_bytes = 0, wr_memory = None, wr_staged = staged,
        wr_iceberg = iw, wr_removed = (case rewrite of Some (_, files) \<Rightarrow> files | None \<Rightarrow> [])\<rparr>)))"

definition begin_bound ::
  "('v, 'w, 'j, 'l) host \<Rightarrow> 'j write_api \<Rightarrow> string \<Rightarrow> string \<Rightarrow> registered \<Rightarrow> bool \<Rightarrow> (int \<times> string list) option
     \<Rightarrow> on_write_violation \<Rightarrow> bound \<Rightarrow> (('j, 'l) world, writing) step" where
  "begin_bound H W uuid name reg overwrite rewrite ov b =
     (case b of
        BoundTable _ \<Rightarrow> stop (Invalid (''`'' @ name @ ''` is bound to a table; only file bindings are written''))
      | BoundFiles l \<Rightarrow>
          then_do (look (\<lambda>w. is_single_file (is_disk_file w) l)) (\<lambda>single.
            if single then stop (Invalid (''`'' @ name @ ''` binds a single file; bind a directory to write to it''))
            else begin_at H W uuid reg l overwrite rewrite ov))"

definition begin_writing ::
  "('v, 'w, 'j, 'l) host \<Rightarrow> 'j write_api \<Rightarrow> contents \<Rightarrow> string \<Rightarrow> string \<Rightarrow> bool \<Rightarrow> (int \<times> string list) option
     \<Rightarrow> on_write_violation \<Rightarrow> (('j, 'l) world, writing) step" where
  "begin_writing H W g uuid name overwrite rewrite ov =
     (case map_of (h_frozen H) name of
        Some s \<Rightarrow> stop (Invalid (''`'' @ name @ ''` is read as of snapshot '' @ show_int s @ ''; nothing is written under it''))
      | None \<Rightarrow>
          then_do (lift (get_contract g name)) (\<lambda>reg.
          then_do (lift (host_bound H reg)) (begin_bound H W uuid name reg overwrite rewrite ov)))"

definition begin_write ::
  "('v, 'w, 'j, 'l) host \<Rightarrow> 'j write_api \<Rightarrow> contents \<Rightarrow> string \<Rightarrow> string \<Rightarrow> bool \<Rightarrow> on_write_violation
     \<Rightarrow> (('j, 'l) world, writing) step" where
  "begin_write H W g uuid name overwrite ov = begin_writing H W g uuid name overwrite None ov"

section \<open>One part\<close>

text \<open>A step of the world, and a change of the write, beside each other.\<close>

type_synonym ('j, 'l) at_write = "('j, 'l) world \<times> writing"

definition on_world :: "(('j, 'l) world, 'a) step \<Rightarrow> (('j, 'l) at_write, 'a) step" where
  "on_world m = (\<lambda>(w, x). map_option (\<lambda>(w', r). ((w', x), r)) (m w))"

definition on_writing :: "(writing \<Rightarrow> writing) \<Rightarrow> (('j, 'l) at_write, unit) step" where
  "on_writing f = change (\<lambda>(w, x). (w, f x))"

record part =
  pt_rows_written :: nat
  pt_excluded :: "batch option"

definition written_columns :: "compilation \<Rightarrow> expr list" where
  "written_columns c =
     map (\<lambda>f. Column (field_name f)) (scan_schema (contract c))
     @ map (\<lambda>f. aliased (flag_column f) (flag_expr f)) (write_flags c)
     @ map (\<lambda>d. aliased (derived_column d) (derived_expr d)) (write_derived c)"

text \<open>The rows a part goes on to write: the plan, the table it scans, and their number and bytes.\<close>

record to_write =
  tw_plan :: lplan
  tw_table :: table_data
  tw_rows :: nat
  tw_bytes :: nat
  tw_excluded :: "batch option"

text \<open>The passing batches as the plan has them.\<close>

definition as_planned :: "schema \<Rightarrow> batch \<Rightarrow> batch res" where
  "as_planned s b = try_new_batch s (zip (map field_type (batch_schema b)) (columns b))"

definition set_aside_counts :: "split_result \<Rightarrow> nat \<Rightarrow> writing \<Rightarrow> writing" where
  "set_aside_counts sp rows w =
     w\<lparr>wr_excluded := fold (\<lambda>(rule, n). bt_update 0 (\<lambda>m. m + n) rule) (counts sp) (wr_excluded w),
       wr_rows_excluded := wr_rows_excluded w + (rows - passing_rows sp)\<rparr>"

definition exclude_breaking ::
  "('v, 'w, 'j, 'l) host \<Rightarrow> 'j write_api \<Rightarrow> compilation \<Rightarrow> flag list \<Rightarrow> write_session \<Rightarrow> to_write
     \<Rightarrow> (('j, 'l) at_write, to_write) step" where
  "exclude_breaking H W c rules ss tw =
     then_do (lift (df (resolve_plan (h_runtime H) (tw_plan tw)))) (\<lambda>plan.
     then_do (lift (df (wa_execute W ss (tw_table tw) plan))) (\<lambda>(s, flagged).
     then_do (lift (split_rows flagged rules (row_schema (contract c)))) (\<lambda>sp.
     then_do (on_writing (set_aside_counts sp (tw_rows tw))) (\<lambda>_.
     then_do (lift (map_res (as_planned s) (passing sp))) (\<lambda>kept.
     then_do (lift (df_fails (wa_mem_table W s kept))) (\<lambda>_.
       give \<lparr>tw_plan = LScan ''kept'', tw_table = (''kept'', s, kept), tw_rows = passing_rows sp,
         tw_bytes = tw_bytes tw * passing_rows sp div max (tw_rows tw) 1, tw_excluded = breaking sp\<rparr>))))))"

fun put_all :: "(string list \<times> 'f) list \<Rightarrow> 'f tree option \<Rightarrow> 'f tree option" where
  "put_all [] t = t"
| "put_all ((p, f) # fs) t = put_all fs (case put_file t p f of Inl _ \<Rightarrow> t | Inr t' \<Rightarrow> Some t')"

definition land_files :: "string \<Rightarrow> (string list \<times> data_file) list \<Rightarrow> (('j, 'l) world, unit) step" where
  "land_files dir fs = change (\<lambda>w. w\<lparr>w_trees := (w_trees w)(dir := put_all fs (w_trees w dir))\<rparr>)"

definition write_parquet ::
  "('v, 'w, 'j, 'l) host \<Rightarrow> 'j write_api \<Rightarrow> writing \<Rightarrow> write_session \<Rightarrow> table_data \<Rightarrow> lplan \<Rightarrow> nat
     \<Rightarrow> (('j, 'l) world, (string list \<times> data_file) list) step" where
  "write_parquet H W w ss table plan rows =
     then_do (lift (write_options_of (r_compilation (wr_reg w)) (wr_memory w) rows)) (\<lambda>options.
     then_do (lift (write_dir w)) (\<lambda>dir.
     then_do (lift (io_fails (wa_url_error W dir))) (\<lambda>_.
     case wa_write W ss table plan dir options of (files, e) \<Rightarrow>
       then_do (land_files dir files) (\<lambda>_.
       then_do (lift (df_fails e)) (\<lambda>_. give files)))))"

definition part_session :: "'j write_api \<Rightarrow> writing \<Rightarrow> write_session res" where
  "part_session W w =
     (let keep = (wr_iceberg w \<noteq> None) in
      case wr_memory w of
        Some m \<Rightarrow> bounded_session W m 1 None keep
      | None \<Rightarrow> Inr (free_session None keep False))"

text \<open>What is written does not depend on what other parts have written; the write's counts do.\<close>

definition write_rows ::
  "('v, 'w, 'j, 'l) host \<Rightarrow> 'j write_api \<Rightarrow> writing \<Rightarrow> write_session \<Rightarrow> to_write \<Rightarrow> (('j, 'l) at_write, part) step" where
  "write_rows H W w ss tw =
     then_do (lift (case wr_iceberg w of
         Some iw \<Rightarrow> project (wa_lake W) iw (map field_name (h_plan_schema H (tw_plan tw))) (tw_plan tw)
       | None \<Rightarrow> Inr (tw_plan tw))) (\<lambda>plan.
     then_do (lift (df (resolve_plan (h_runtime H) plan))) (\<lambda>plan.
     then_do (on_world (write_parquet H W w ss (tw_table tw) plan (tw_rows tw))) (\<lambda>_.
     then_do (on_writing (\<lambda>w. w\<lparr>wr_rows := wr_rows w + tw_rows tw, wr_bytes := wr_bytes w + tw_bytes tw\<rparr>)) (\<lambda>_.
       give \<lparr>pt_rows_written = tw_rows tw, pt_excluded = tw_excluded tw\<rparr>))))"

definition incoming ::
  "('v, 'w, 'j, 'l) host \<Rightarrow> 'j write_api \<Rightarrow> compilation \<Rightarrow> batch list \<Rightarrow> to_write res" where
  "incoming H W c bs =
     (let cc = contract c in
      and_then (df_fails (wa_mem_table W (row_schema cc) bs)) (\<lambda>_.
      and_then (df (enrich_plan (h_runtime H) (LScan ''incoming'') cc)) (\<lambda>plan.
      and_then (projection_of (wa_lake W) (written_columns c) plan) (\<lambda>plan.
        Inr \<lparr>tw_plan = plan, tw_table = (''incoming'', row_schema cc, bs), tw_rows = sum_list (map num_rows bs),
          tw_bytes = sum_list (map (h_memory_size H) bs), tw_excluded = None\<rparr>))))"

definition write_part ::
  "('v, 'w, 'j, 'l) host \<Rightarrow> 'j write_api \<Rightarrow> batch list \<Rightarrow> (('j, 'l) at_write, part) step" where
  "write_part H W bs =
     then_do (look snd) (\<lambda>w.
     let c = r_compilation (wr_reg w); rules = enforced_flags (write_flags c) in
     then_do (lift (map_res (wa_conform W (row_schema (contract c))) bs)) (\<lambda>bs.
     then_do (lift (part_session W w)) (\<lambda>ss.
     then_do (lift (incoming H W c bs)) (\<lambda>tw.
     then_do (if wr_on_violation w = WExclude \<and> rules \<noteq> [] then exclude_breaking H W c rules ss tw else give tw) (\<lambda>tw.
       write_rows H W w ss tw)))))"

section \<open>The facts of a write\<close>

definition validation_session :: "'j write_api \<Rightarrow> writing \<Rightarrow> write_session option res" where
  "validation_session W w =
     (case wr_memory w of
        Some m \<Rightarrow> and_then (bounded_session W m 1 (Some (min (max (m div 8 div row_bytes w) 64) 8192)) False) (\<lambda>s. Inr (Some s))
      | None \<Rightarrow> Inr None)"

definition written_entries ::
  "('v, 'w, 'j, 'l) host \<Rightarrow> writing \<Rightarrow> string \<Rightarrow> string list \<Rightarrow> ('j, 'l) world \<Rightarrow> file_entry list res" where
  "written_entries H wr dir flags w =
     and_then (list_files (w_trees w dir)) (map_res (\<lambda>pf.
       and_then (file_entry_of (sha256 H) dir flags pf) (\<lambda>e.
         Inr (case wr_iceberg wr of Some iw \<Rightarrow> e\<lparr>f_path := table_relative iw (f_path e)\<rparr> | None \<Rightarrow> e))))"

definition written_manifest :: "('v, 'w, 'j, 'l) host \<Rightarrow> compiled_contract \<Rightarrow> 'j verdict \<Rightarrow> file_entry list \<Rightarrow> int \<Rightarrow> 'j manifest" where
  "written_manifest H cc v files written_at =
     \<lparr>m_contract = cc_name cc, m_contract_hash = contract_hash cc, m_compilation_hash = compilation_hash cc,
      m_written_at = written_at, m_row_count = v_row_count v, m_failures = v_failures v, m_valid = v_valid v,
      m_breached = v_breached v, m_guarantees = [], m_stats = v_stats v, m_data_hash = data_hash (sha256 H) files,
      m_row_schema = row_schema cc, m_files = files, m_snapshot = None\<rparr>"

definition written_facts ::
  "('v, 'w, 'j, 'l) host \<Rightarrow> 'j write_api \<Rightarrow> writing \<Rightarrow> int \<Rightarrow> registered \<Rightarrow> (('j, 'l) world, 'j verdict \<times> 'j write_facts) step" where
  "written_facts H W wr written_at reg =
     (let c = r_compilation reg; cc = contract c in
      then_do (lift (write_dir wr)) (\<lambda>dir.
      then_do (lift (io_fails (wa_url_error W dir))) (\<lambda>_.
      then_do (case wa_provider_error W cc (wr_iceberg wr \<noteq> None) of Some e \<Rightarrow> stop e | None \<Rightarrow> give ()) (\<lambda>_.
      then_do (lift (validation_session W wr)) (\<lambda>ss.
      then_do (look_res (\<lambda>w. rt (wa_validate W c ss (wr_iceberg wr \<noteq> None) (w_trees w dir)))) (\<lambda>raw.
      let v = of_rows c raw in
      then_do (look_res (written_entries H wr dir (flag_columns cc))) (\<lambda>files.
        give (v, \<lparr>wf_written = wr_written wr, wf_facts = written_manifest H cc v files written_at,
          wf_removed = wr_removed wr\<rparr>))))))))"

section \<open>Publishing\<close>

text \<open>What is known of the data before: nothing, the data being empty or replaced; its facts; or not known.\<close>

type_synonym 'j before = "'j manifest option option"

definition after_facts ::
  "('v, 'w, 'j, 'l) host \<Rightarrow> registered \<Rightarrow> 'j before \<Rightarrow> 'j write_facts \<Rightarrow> int \<Rightarrow> 'j manifest option res" where
  "after_facts H reg before f written_at =
     (case before of
        None \<Rightarrow> Inr None
      | Some b \<Rightarrow> after_write (sha256 H) (fe_stats (h_facts H)) (r_compilation reg) b f written_at None)"

definition own_after :: "writing \<Rightarrow> (registered \<times> 'j manifest option) list \<Rightarrow> 'j manifest option" where
  "own_after wr afters = fold (\<lambda>(reg, m) own. if reg_name reg = reg_name (wr_reg wr) then m else own) afters None"

definition local_before ::
  "('v, 'w, 'j, 'l) host \<Rightarrow> written \<Rightarrow> string \<Rightarrow> registered \<Rightarrow> (('j, 'l) world, 'j before) step" where
  "local_before H kind dir reg =
     (if kind = Overwrite then give (Some None)
      else then_do (look_res (\<lambda>w. load_manifest (fe_facts (h_facts H)) (w_fs w) dir (reg_name reg))) (\<lambda>mo. case mo of
          Some m \<Rightarrow> give (Some (Some m))
        | None \<Rightarrow> then_do (look_res (\<lambda>w. list_files (w_trees w dir))) (\<lambda>fs.
            give (if fs = [] then Some None else None))))"

definition remove_file :: "'j write_api \<Rightarrow> string \<Rightarrow> string list \<Rightarrow> (('j, 'l) world, unit) step" where
  "remove_file W dir path =
     then_do (lift (io_fails (wa_remove_error W (join ''/'' (dir # path))))) (\<lambda>_.
       change (\<lambda>w. w\<lparr>w_trees := (w_trees w)(dir := map_option (drop_file path) (w_trees w dir))\<rparr>))"

text \<open>\<open>create_dir_all\<close> and \<open>rename\<close>: from the write's directory to the data's.\<close>

definition move_file :: "'j write_api \<Rightarrow> string \<Rightarrow> string \<Rightarrow> string list \<times> data_file \<Rightarrow> (('j, 'l) world, unit) step" where
  "move_file W dir to pf =
     (case pf of (path, f) \<Rightarrow>
        then_do (lift (io_fails (wa_rename_error W (join ''/'' (to # path))))) (\<lambda>_.
        then_do (look_res (\<lambda>w. case put_file (w_trees w to) path f of Inl e \<Rightarrow> Inl (Io e) | Inr t \<Rightarrow> Inr t)) (\<lambda>t.
          change (\<lambda>w. w\<lparr>w_trees := (w_trees w)(dir := map_option (drop_file path) (w_trees w dir), to := Some t)\<rparr>))))"

definition local_record ::
  "('v, 'w, 'j, 'l) host \<Rightarrow> 'j write_api \<Rightarrow> string \<Rightarrow> int \<Rightarrow> registered \<times> 'j write_facts \<times> 'j before
     \<Rightarrow> (('j, 'l) world, registered \<times> 'j manifest option) step" where
  "local_record H W dir written_at rf =
     (case rf of (reg, f, before) \<Rightarrow>
        then_do (lift (after_facts H reg before f written_at)) (\<lambda>after.
        then_do (case after of
            Some m \<Rightarrow> on_fs (save_local_manifest H dir m)
          | None \<Rightarrow> then_do (lift (io_fails (wa_remove_error W (manifest_path dir (reg_name reg))))) (\<lambda>_.
              on_fs (\<lambda>d. (remove_manifest d dir (reg_name reg), Inr ())))) (\<lambda>_.
          give (reg, after))))"

definition publish_local ::
  "('v, 'w, 'j, 'l) host \<Rightarrow> 'j write_api \<Rightarrow> writing \<Rightarrow> string \<Rightarrow> string \<Rightarrow> (registered \<times> 'j write_facts) list \<Rightarrow> int
     \<Rightarrow> (('j, 'l) world, 'j manifest option) step" where
  "publish_local H W wr from to bound written_at =
     then_do (map_do (\<lambda>(reg, f). then_do (local_before H (wr_written wr) to reg) (\<lambda>b. give (reg, f, b))) bound) (\<lambda>known.
     then_do (if wr_written wr = Overwrite
       then then_do (look_res (\<lambda>w. list_files (w_trees w to))) (do_all (\<lambda>(path, f). remove_file W to path))
       else give ()) (\<lambda>_.
     then_do (look_res (\<lambda>w. list_files (w_trees w from))) (\<lambda>files.
     then_do (do_all (move_file W from to) files) (\<lambda>_.
     then_do (map_do (local_record H W to written_at) known) (\<lambda>afters.
       give (own_after wr afters))))))"

definition object_before ::
  "('v, 'w, 'j, 'l) host \<Rightarrow> written \<Rightarrow> object_location \<Rightarrow> registered \<Rightarrow> (('j, 'l) world, 'j before) step" where
  "object_before H kind l reg =
     (if kind = Overwrite then give (Some None)
      else then_do (look_res (\<lambda>w. load_object_manifest H l (reg_name reg) (w_fs w))) (\<lambda>mo. case mo of
          Some m \<Rightarrow> give (Some (Some m))
        | None \<Rightarrow> then_do (look (\<lambda>w. obj_list_files (w_objects w (store_url l)) l)) (\<lambda>fs.
            give (if fs = [] then Some None else None))))"

definition on_objects :: "string \<Rightarrow> (data_file objects \<Rightarrow> data_file objects \<times> unit res) \<Rightarrow> (('j, 'l) world, unit) step" where
  "on_objects u f = (\<lambda>w. case f (w_objects w u) of (s, r) \<Rightarrow> Some (w\<lparr>w_objects := (w_objects w)(u := s)\<rparr>, r))"

definition remove_object_manifest ::
  "('v, 'w, 'j, 'l) host \<Rightarrow> 'j write_api \<Rightarrow> object_location \<Rightarrow> string \<Rightarrow> fs \<Rightarrow> fs \<times> unit res" where
  "remove_object_manifest H W l c d =
     (case wa_object_error W (obj_manifest_path (h_paths H) l c) of
        Some e \<Rightarrow> (d, Inl (DataFusion e)) | None \<Rightarrow> (d(object_manifest_key H l c := None), Inr ()))"

definition object_record ::
  "('v, 'w, 'j, 'l) host \<Rightarrow> 'j write_api \<Rightarrow> object_location \<Rightarrow> int \<Rightarrow> registered \<times> 'j write_facts \<times> 'j before
     \<Rightarrow> (('j, 'l) world, registered \<times> 'j manifest option) step" where
  "object_record H W l written_at rf =
     (case rf of (reg, f, before) \<Rightarrow>
        then_do (lift (after_facts H reg before f written_at)) (\<lambda>after.
        then_do (case after of
            Some m \<Rightarrow> on_fs (save_object_manifest H l m)
          | None \<Rightarrow> on_fs (remove_object_manifest H W l (reg_name reg))) (\<lambda>_.
        then_do (change (\<lambda>w. w\<lparr>object_manifests := (object_manifests w)(reg_name reg := after)\<rparr>)) (\<lambda>_.
          give (reg, after)))))"

definition publish_object ::
  "('v, 'w, 'j, 'l) host \<Rightarrow> 'j write_api \<Rightarrow> writing \<Rightarrow> string \<Rightarrow> object_location \<Rightarrow> (registered \<times> 'j write_facts) list \<Rightarrow> int
     \<Rightarrow> (('j, 'l) world, 'j manifest option) step" where
  "publish_object H W wr from l bound written_at =
     then_do (map_do (\<lambda>(reg, f). then_do (object_before H (wr_written wr) l reg) (\<lambda>b. give (reg, f, b))) bound) (\<lambda>known.
     then_do (if wr_written wr = Overwrite then on_objects (store_url l) (remove_files (wa_object_error W) l) else give ()) (\<lambda>_.
     then_do (look_res (\<lambda>w. list_files (w_trees w from))) (\<lambda>files.
     then_do (on_objects (store_url l) (upload (h_paths H) (wa_object_error W) l files)) (\<lambda>_.
     then_do (map_do (object_record H W l written_at) known) (\<lambda>afters.
       give (own_after wr afters))))))"

definition iceberg_record ::
  "('v, 'w, 'j, 'l) host \<Rightarrow> ice_table \<Rightarrow> int \<Rightarrow> registered \<Rightarrow> (('j, 'l) world, registered \<times> 'j manifest option) step" where
  "iceberg_record H t s reg =
     then_do (as_value (engine_facts H t s reg)) (\<lambda>r.
     let after = (case r of Inl e \<Rightarrow> None | Inr mo \<Rightarrow> mo) in
     then_do (change (\<lambda>w. case after of
         Some m \<Rightarrow> if it_current t = Some s then w\<lparr>iceberg_manifests := (iceberg_manifests w)(reg_name reg \<mapsto> m)\<rparr> else w
       | None \<Rightarrow> w\<lparr>iceberg_manifests := (iceberg_manifests w)(reg_name reg := None)\<rparr>)) (\<lambda>_.
       give (reg, after)))"

definition publish_iceberg ::
  "('v, 'w, 'j, 'l) host \<Rightarrow> 'j write_api \<Rightarrow> writing \<Rightarrow> string \<Rightarrow> (registered \<times> 'j write_facts) list
     \<Rightarrow> (('j, 'l) world, snapshot_commit \<times> 'j manifest option) step" where
  "publish_iceberg H W wr k bound =
     then_do (lift (ok_or (Invalid (k @ '' was not begun as a write'')) (wr_iceberg wr))) (\<lambda>iw.
     then_do (ice_commit H (wa_lake W) iw (contract (r_compilation (wr_reg wr))) (map snd bound)) (\<lambda>(t, sc).
     then_do (map_do (iceberg_record H t (sc_snapshot sc)) (map fst bound)) (\<lambda>afters.
       give (sc, own_after wr afters))))"

definition publish_write ::
  "('v, 'w, 'j, 'l) host \<Rightarrow> 'j write_api \<Rightarrow> writing \<Rightarrow> (registered \<times> 'j write_facts) list \<Rightarrow> int
     \<Rightarrow> (('j, 'l) world, snapshot_commit option \<times> 'j manifest option) step" where
  "publish_write H W wr bound written_at =
     then_do (lift (write_dir wr)) (\<lambda>dir. case wr_location wr of
         Local root_dir \<Rightarrow> then_do (publish_local H W wr dir root_dir bound written_at) (\<lambda>own. give (None, own))
       | ObjectAt l \<Rightarrow> then_do (publish_object H W wr dir l bound written_at) (\<lambda>own. give (None, own))
       | IcebergAt k \<Rightarrow> then_do (publish_iceberg H W wr k bound) (\<lambda>(sc, own). give (Some sc, own)))"

section \<open>Finishing\<close>

text \<open>The contracts bound to the data a write lands in, the writer's first.\<close>

definition shares_data :: "('v, 'w, 'j, 'l) host \<Rightarrow> 'j write_api \<Rightarrow> string \<Rightarrow> registered \<Rightarrow> bool" where
  "shares_data H W key other =
     (case host_bound H other of
        Inr (BoundFiles l) \<Rightarrow> location_key (wa_canonicalize W) l = Inr key
      | _ \<Rightarrow> False)"

definition bound_to_data :: "('v, 'w, 'j, 'l) host \<Rightarrow> 'j write_api \<Rightarrow> contents \<Rightarrow> writing \<Rightarrow> string \<Rightarrow> registered list" where
  "bound_to_data H W g wr key =
     wr_reg wr # filter (\<lambda>r. reg_name r \<noteq> reg_name (wr_reg wr) \<and> shares_data H W key r) (mem_list g)"

record 'j write_report =
  rp_rows_written :: nat
  rp_on_violation :: on_write_violation
  rp_violations :: "(string, nat) btmap"
  rp_rows_excluded :: nat
  rp_files :: "file_entry list"
  rp_verdict :: "'j data_verdict"
  rp_snapshot :: "snapshot_commit option"
  rp_table :: "table_stats_rec option"

definition discard :: "writing \<Rightarrow> 'j write_api \<Rightarrow> (('j, 'l) world, unit) step" where
  "discard wr W =
     then_do (lift (write_dir wr)) (\<lambda>dir.
     then_do (look (\<lambda>w. w_trees w dir)) (\<lambda>t.
       if t = None then give ()
       else then_do (lift (io_fails (wa_remove_error W dir))) (\<lambda>_. remove_dir dir)))"

definition all_facts ::
  "('v, 'w, 'j, 'l) host \<Rightarrow> 'j write_api \<Rightarrow> writing \<Rightarrow> int \<Rightarrow> registered list
     \<Rightarrow> (('j, 'l) world, 'j verdict \<times> (registered \<times> 'j write_facts) list) step" where
  "all_facts H W wr written_at others_bound =
     then_do (written_facts H W wr written_at (wr_reg wr)) (\<lambda>(v, f).
     let broke = broken (cc_flags (contract (r_compilation (wr_reg wr)))) (v_failures v) in
     if wr_on_violation wr = WRefuse \<and> broke \<noteq> []
     then then_do (discard wr W) (\<lambda>_. stop (Violated (reg_name (wr_reg wr)) broke))
     else then_do (map_do (\<lambda>reg. then_do (written_facts H W wr written_at reg) (\<lambda>(v, f). give (reg, f))) others_bound) (\<lambda>fs.
       give (v, (wr_reg wr, f) # fs)))"

definition write_violations :: "writing \<Rightarrow> 'j verdict \<Rightarrow> (string, nat) btmap" where
  "write_violations wr v =
     (if wr_on_violation wr = WExclude then wr_excluded wr
      else bt_of (broken (cc_flags (contract (r_compilation (wr_reg wr)))) (v_failures v)))"

definition report_of :: "writing \<Rightarrow> 'j verdict \<Rightarrow> 'j manifest \<Rightarrow> snapshot_commit option \<Rightarrow> 'j manifest option \<Rightarrow> 'j write_report" where
  "report_of wr v own sc table =
     \<lparr>rp_rows_written = wr_rows wr, rp_on_violation = wr_on_violation wr, rp_violations = write_violations wr v,
      rp_rows_excluded = wr_rows_excluded wr, rp_files = m_files own,
      rp_verdict = \<lparr>dv_verdict = v, dv_data_hash = m_data_hash own, dv_snapshot = map_option sc_snapshot sc\<rparr>,
      rp_snapshot = sc,
      rp_table = map_option (\<lambda>m. table_stats m (map field_name (row_schema (contract (r_compilation (wr_reg wr)))))) table\<rparr>"

definition finish_inner ::
  "('v, 'w, 'j, 'l) host \<Rightarrow> 'j write_api \<Rightarrow> contents \<Rightarrow> writing \<Rightarrow> (('j, 'l) world, 'j write_report) step" where
  "finish_inner H W g wr =
     then_do (lift (location_key (wa_canonicalize W) (wr_location wr))) (\<lambda>key.
     then_do (all_facts H W wr (h_now H) (tl (bound_to_data H W g wr key))) (\<lambda>(v, bound).
     then_do (publish_write H W wr bound (h_now H)) (\<lambda>(sc, table).
       give (report_of wr v (wf_facts (snd (hd bound))) sc table))))"

text \<open>However it ends, the write's own directory goes, unless it is the table's.\<close>

definition drop_writing :: "writing \<Rightarrow> (('j, 'l) world, unit) step" where
  "drop_writing wr =
     (case wr_iceberg wr of
        Some iw \<Rightarrow> if iw_staged iw then remove_dir (iw_dir iw) else give ()
      | None \<Rightarrow> (case wr_staged wr of Some dir \<Rightarrow> remove_dir dir | None \<Rightarrow> give ()))"

definition finish_write ::
  "('v, 'w, 'j, 'l) host \<Rightarrow> 'j write_api \<Rightarrow> contents \<Rightarrow> writing \<Rightarrow> (('j, 'l) world, 'j write_report) step" where
  "finish_write H W g wr = finally_do (finish_inner H W g wr) (\<lambda>_. drop_writing wr)"

section \<open>A write in one call, and a compaction\<close>

text \<open>A step at a write of its own; when it fails, the write is dropped.\<close>

definition at_new_write ::
  "writing \<Rightarrow> (('j, 'l) at_write, 'a) step \<Rightarrow> (writing \<Rightarrow> 'a \<Rightarrow> (('j, 'l) world, 'b) step) \<Rightarrow> (('j, 'l) world, 'b) step" where
  "at_new_write wr m f = (\<lambda>w. case m (w, wr) of
       None \<Rightarrow> None
     | Some ((w', wr'), Inl e) \<Rightarrow> then_do (drop_writing wr') (\<lambda>_. stop e) w'
     | Some ((w', wr'), Inr x) \<Rightarrow> f wr' x w')"

definition engine_write ::
  "('v, 'w, 'j, 'l) host \<Rightarrow> 'j write_api \<Rightarrow> contents \<Rightarrow> string \<Rightarrow> string \<Rightarrow> batch list \<Rightarrow> bool \<Rightarrow> on_write_violation
     \<Rightarrow> (('j, 'l) world, 'j write_report \<times> batch option) step" where
  "engine_write H W g uuid name bs overwrite ov =
     then_do (begin_write H W g uuid name overwrite ov) (\<lambda>wr.
       at_new_write wr (write_part H W bs) (\<lambda>wr p.
         then_do (finish_write H W g wr) (\<lambda>report. give (report, pt_excluded p))))"

definition written_rows :: "batch list \<Rightarrow> nat res" where
  "written_rows bs =
     and_then (map_res (\<lambda>b. case column_by_name b ''count'' of
         Some (TUInt64, cs) \<Rightarrow> Inr (sum_list (map (\<lambda>c. case c of CInt n \<Rightarrow> nat n | _ \<Rightarrow> 0) cs))
       | _ \<Rightarrow> Inl (Invalid ''a write reported a schema, not a count of the rows it wrote'')) bs) (\<lambda>ns. Inr (sum_list ns))"

definition compact_part ::
  "('v, 'w, 'j, 'l) host \<Rightarrow> 'j write_api \<Rightarrow> string \<Rightarrow> schema \<times> batch list \<Rightarrow> (('j, 'l) at_write, unit) step" where
  "compact_part H W name stored =
     then_do (look snd) (\<lambda>w.
     then_do (lift (ok_or (Invalid (''`'' @ name @ ''`'s compaction was not begun on its table'')) (wr_iceberg w))) (\<lambda>iw.
     then_do (lift (project (wa_lake W) iw (map field_name (fst stored)) (LOther (KOther ''Repartition'') [] [LScan ''stored'']))) (\<lambda>plan.
     then_do (on_world (write_parquet H W (w\<lparr>wr_memory := None\<rparr>) (free_session (Some 1) True True) (''stored'', stored) plan 0)) (\<lambda>files.
     then_do (lift (written_rows (wa_counts W files))) (\<lambda>n.
       on_writing (\<lambda>w. w\<lparr>wr_rows := wr_rows w + n\<rparr>))))))"

definition compact ::
  "('v, 'w, 'j, 'l) host \<Rightarrow> 'j write_api \<Rightarrow> contents \<Rightarrow> string \<Rightarrow> string \<Rightarrow> nat \<Rightarrow> nat
     \<Rightarrow> (('j, 'l) world, 'j write_report option) step" where
  "compact H W g uuid name small_file_bytes min_small_files =
     then_do (lift (get_contract g name)) (\<lambda>reg.
     then_do (lift (host_bound H reg)) (\<lambda>b. case b of
       BoundFiles (IcebergAt k) \<Rightarrow>
         then_do (look_res (iceberg_snapshot k name None)) (\<lambda>(t, s).
         then_do (lift (snapshot_files (wa_lake W) k t s)) (\<lambda>files.
         if length (filter (\<lambda>f. sf_bytes f < small_file_bytes) files) < max min_small_files 2 then give None
         else then_do (lift (df (wa_stored W t s))) (\<lambda>stored.
           then_do (begin_writing H W g uuid name True (Some (s, map sf_relative files)) WWarn) (\<lambda>wr.
             at_new_write wr (compact_part H W name stored) (\<lambda>wr _.
               then_do (finish_write H W g wr) (\<lambda>report. give (Some report)))))))
     | _ \<Rightarrow> stop (Invalid (''`'' @ name @ ''` is not bound to an Iceberg table; only an Iceberg table is compacted''))))"

end
