(* ===== verification/Write_Safety.thy ===== *)
theory Write_Safety
  imports Writes Commit_Safety
begin

text \<open>
  What writes promise: nothing is seen of one before it is finished, one that is refused publishes nothing,
  rows set aside are never written, and what is published is what the contracts' facts say.
\<close>

section \<open>What a write leaves alone\<close>

text \<open>The world without a write's own directory and without the catalog's tables.\<close>

definition seen :: "string \<Rightarrow> ('j, 'l) world \<Rightarrow> ('j, 'l) world" where
  "seen dir w = w\<lparr>w_trees := (w_trees w)(dir := None), w_catalog := (\<lambda>_. Inr None), w_others := []\<rparr>"

lemma seen_updates:
  "seen dir (w\<lparr>w_catalog := c\<rparr>) = seen dir w" "seen dir (w\<lparr>w_others := q\<rparr>) = seen dir w"
  "seen dir (w\<lparr>w_trees := (w_trees w)(dir := t)\<rparr>) = seen dir w"
  "seen dir (w\<lparr>w_catalog := c, w_others := q\<rparr>) = seen dir w"
  by (simp_all add: seen_def)

lemma seen_parts:
  "w_fs (seen dir w) = w_fs w" "w_objects (seen dir w) = w_objects w" "table_manifests (seen dir w) = table_manifests w"
  "object_manifests (seen dir w) = object_manifests w" "iceberg_manifests (seen dir w) = iceberg_manifests w"
  "w_budgets (seen dir w) = w_budgets w" "w_cache (seen dir w) = w_cache w" "w_audit (seen dir w) = w_audit w"
  "d \<noteq> dir \<Longrightarrow> w_trees (seen dir w) d = w_trees w d"
  by (simp_all add: seen_def)

lemma keeps_case_option [keeps_intros]:
  "(x = None \<Longrightarrow> keeps f m) \<Longrightarrow> (\<And>y. x = Some y \<Longrightarrow> keeps f (k y)) \<Longrightarrow> keeps f (case x of None \<Rightarrow> m | Some y \<Rightarrow> k y)"
  by (cases x) simp_all

lemma keeps_case_sum [keeps_intros]:
  "(\<And>y. x = Inl y \<Longrightarrow> keeps f (m y)) \<Longrightarrow> (\<And>y. x = Inr y \<Longrightarrow> keeps f (k y)) \<Longrightarrow> keeps f (case x of Inl y \<Rightarrow> m y | Inr y \<Rightarrow> k y)"
  by (cases x) simp_all

lemma keeps_case_prod [keeps_intros]: "(\<And>a b. x = (a, b) \<Longrightarrow> keeps f (m a b)) \<Longrightarrow> keeps f (case x of (a, b) \<Rightarrow> m a b)"
  by (cases x) simp_all

lemma keeps_case_location [keeps_intros]:
  "(\<And>x. l = Local x \<Longrightarrow> keeps f (g x)) \<Longrightarrow> (\<And>x. l = ObjectAt x \<Longrightarrow> keeps f (h x)) \<Longrightarrow> (\<And>x. l = IcebergAt x \<Longrightarrow> keeps f (i x))
     \<Longrightarrow> keeps f (case l of Local x \<Rightarrow> g x | ObjectAt x \<Rightarrow> h x | IcebergAt x \<Rightarrow> i x)"
  by (cases l) simp_all

lemma keeps_case_kind [keeps_intros]:
  "(kind = KindAppend \<Longrightarrow> keeps f m) \<Longrightarrow> (kind = KindOverwrite \<Longrightarrow> keeps f k) \<Longrightarrow> (\<And>s. kind = KindRewrite s \<Longrightarrow> keeps f (h s))
     \<Longrightarrow> keeps f (case kind of KindAppend \<Rightarrow> m | KindOverwrite \<Rightarrow> k | KindRewrite s \<Rightarrow> h s)"
  by (cases kind) simp_all

text \<open>Calls of the catalog change nothing else.\<close>

definition off_lake :: "('j, 'l) world \<Rightarrow> ('j, 'l) world" where
  "off_lake w = w\<lparr>w_catalog := (\<lambda>_. Inr None), w_others := []\<rparr>"

lemma catalog_keeps [keeps_intros]:
  "keeps off_lake others" "keeps off_lake (load_table k)" "keeps off_lake (commit_to k h)"
proof -
  show others: "keeps off_lake others"
    unfolding others_def by (intro keeps_intros) (simp add: off_lake_def split: list.split)
  then show "keeps off_lake (load_table k)" unfolding load_table_def by (intro keeps_intros)
  have "keeps off_lake (commit_now k h)"
    by (auto simp: keeps_def commit_now_def off_lake_def split: sum.splits)
  with others show "keeps off_lake (commit_to k h)" unfolding commit_to_def by (intro keeps_intros)
qed

lemma evolve_more_keeps:
  "(\<And>f t r. again = Some f \<Longrightarrow> keeps off_lake (f t r)) \<Longrightarrow> keeps off_lake (evolve_more A k want p n again t refused)"
  unfolding evolve_more_def by (intro keeps_intros) auto

lemma evolve_turn_keeps:
  assumes "\<And>f t r. again = Some f \<Longrightarrow> keeps off_lake (f t r)"
  shows "keeps off_lake (evolve_turn A k want p n again t refused)"
  unfolding evolve_turn_def by (intro keeps_intros evolve_more_keeps assms)

lemma evolve_keeps [keeps_intros]: "keeps off_lake (evolve A k t want)"
proof -
  have "keeps off_lake (evolve_loop A k want p n t r)" for p n t r
  proof (induction n arbitrary: t r)
    case 0
    then show ?case unfolding evolve_loop.simps by (intro evolve_turn_keeps) simp
  next
    case (Suc n)
    then show ?case unfolding evolve_loop.simps by (intro evolve_turn_keeps) simp
  qed
  then show ?thesis unfolding evolve_def by (intro keeps_intros)
qed

lemma seen_off_lake: "seen dir (off_lake w) = seen dir w"
  by (simp add: seen_def off_lake_def)

lemma off_lake_seen: "keeps off_lake m \<Longrightarrow> keeps (seen dir) m"
  unfolding keeps_def by (metis seen_off_lake)

lemma create_dir_seen [keeps_intros]: "keeps (seen dir) (create_dir H dir)"
  unfolding create_dir_def by (intro keeps_intros) (simp add: seen_updates)

lemma remove_dir_seen [keeps_intros]: "keeps (seen dir) (remove_dir dir)"
  unfolding remove_dir_def by (intro keeps_intros) (simp add: seen_updates)

lemma land_files_seen [keeps_intros]: "keeps (seen dir) (land_files dir fs)"
  unfolding land_files_def by (intro keeps_intros) (simp add: seen_updates)

text \<open>The directory an Iceberg write is begun in is the one it says.\<close>

lemma ice_begin_write_seen:
  assumes "ice_begin_write H A k uuid cc kind staging w = Some (w', Inr iw)"
  shows "seen (iw_dir iw) w' = seen (iw_dir iw) w"
proof -
  from assms obtain t w1 where t: "then_do (load_table k) (\<lambda>to. case to of Some t \<Rightarrow> evolve A k t (table_schema cc)
        | None \<Rightarrow> create_table A k (table_schema cc)) w = Some (w1, Inr t)"
    and dir: "create_dir H (iw_dir iw) w1 = Some (w', Inr ())"
    unfolding ice_begin_write_def Let_def
    by (cases kind) (auto simp: then_do_Inr step_sides step_runs(1))
  have "keeps off_lake (create_table A k (table_schema cc))" unfolding create_table_def by (intro keeps_intros)
  then have "keeps off_lake (then_do (load_table k) (\<lambda>to. case to of Some t \<Rightarrow> evolve A k t (table_schema cc)
        | None \<Rightarrow> create_table A k (table_schema cc)))" by (intro keeps_intros)
  from keepsD [OF off_lake_seen [OF this] t, of "iw_dir iw"] keepsD [OF create_dir_seen dir] show ?thesis by simp
qed

section \<open>A write in progress is not seen\<close>

lemma keeps_on_world: "keeps f m \<Longrightarrow> keeps (\<lambda>x. f (fst x)) (on_world m)"
  by (auto simp: keeps_def on_world_def)

lemma keeps_on_writing: "keeps (\<lambda>x. f (fst x)) (on_writing h)"
  unfolding on_writing_def by (intro keeps_intros) (simp split: prod.splits)

lemma keeps_dir: "(\<And>x. write_dir (h x) = write_dir x) \<Longrightarrow> keeps (\<lambda>x. write_dir (snd x)) (on_writing h)"
  unfolding on_writing_def by (intro keeps_intros) (auto split: prod.splits)

lemma keeps_dir_world: "keeps (\<lambda>x. write_dir (snd x)) (on_world m)"
  by (auto simp: keeps_def on_world_def)

lemma write_dir_updates [simp]:
  "write_dir (w\<lparr>wr_rows := a\<rparr>) = write_dir w" "write_dir (w\<lparr>wr_bytes := b\<rparr>) = write_dir w"
  "write_dir (w\<lparr>wr_excluded := c\<rparr>) = write_dir w" "write_dir (w\<lparr>wr_rows_excluded := d\<rparr>) = write_dir w"
  "write_dir (w\<lparr>wr_memory := e\<rparr>) = write_dir w"
  by (simp_all add: write_dir_def split: option.split)

lemma keeps_then_lift: "(\<And>x. r = Inr x \<Longrightarrow> keeps f (k x)) \<Longrightarrow> keeps f (then_do (lift r) k)"
  by (cases r) (simp_all add: keeps_def then_do_def lift_def)

lemma write_parquet_keeps:
  assumes "\<And>dir fs. write_dir wr = Inr dir \<Longrightarrow> keeps f (land_files dir fs)"
  shows "keeps f (write_parquet H W wr ss table plan rows)"
  unfolding write_parquet_def
  by (intro keeps_then_lift keeps_then_do keeps_case_prod assms keeps_basic)

definition part_body ::
  "('v, 'w, 'j, 'l) host \<Rightarrow> 'j write_api \<Rightarrow> batch list \<Rightarrow> writing \<Rightarrow> (('j, 'l) at_write, part) step" where
  "part_body H W bs w =
     (let c = r_compilation (wr_reg w); rules = enforced_flags (write_flags c) in
     then_do (lift (map_res (wa_conform W (row_schema (contract c))) bs)) (\<lambda>bs.
     then_do (lift (part_session W w)) (\<lambda>ss.
     then_do (lift (incoming H W c bs)) (\<lambda>tw.
     then_do (if wr_on_violation w = WExclude \<and> rules \<noteq> [] then exclude_breaking H W c rules ss tw else give tw) (\<lambda>tw.
       write_rows H W w ss tw)))))"

lemma write_part_body: "write_part H W bs (w, wr) = part_body H W bs wr (w, wr)"
  unfolding write_part_def part_body_def then_look snd_conv ..

lemma exclude_keeps [keeps_intros]:
  "keeps (\<lambda>x. f (fst x)) (exclude_breaking H W c rules ss tw)" "keeps (\<lambda>x. write_dir (snd x)) (exclude_breaking H W c rules ss tw)"
  unfolding exclude_breaking_def
  by (intro keeps_intros keeps_on_writing keeps_dir, simp add: set_aside_counts_def)+

lemma part_body_keeps:
  assumes "\<And>dir fs. write_dir wr = Inr dir \<Longrightarrow> keeps f (land_files dir fs)"
  shows "keeps (\<lambda>x. f (fst x)) (part_body H W bs wr)"
  unfolding part_body_def Let_def write_rows_def
  by (intro keeps_intros keeps_on_writing keeps_on_world write_parquet_keeps) (rule assms)

lemma part_body_dir: "keeps (\<lambda>x. write_dir (snd x)) (part_body H W bs wr)"
  unfolding part_body_def Let_def write_rows_def
  by (intro keeps_intros keeps_dir keeps_dir_world) simp

lemma write_part_keeps:
  assumes run: "write_part H W bs (w, wr) = Some ((w', wr'), r)" and dir: "write_dir wr = Inr dir"
  shows "seen dir w' = seen dir w \<and> w_catalog w' = w_catalog w \<and> write_dir wr' = Inr dir"
proof -
  from run have body: "part_body H W bs wr (w, wr) = Some ((w', wr'), r)" by (simp add: write_part_body)
  have land: "keeps w_catalog (land_files d fs)" for d fs unfolding land_files_def by (intro keeps_intros) simp
  have "keeps (seen dir) (land_files d fs)" if "write_dir wr = Inr d" for d fs
    using that dir land_files_seen [of dir fs] by simp
  from keepsD [OF part_body_keeps [where f = "seen dir", OF this] body] keepsD [OF part_body_keeps [where f = w_catalog, OF land] body]
    keepsD [OF part_body_dir body] dir show ?thesis by simp
qed

text \<open>A write in progress: begun, then given parts, any of which may fail.\<close>

inductive in_progress ::
  "('v, 'w, 'j, 'l) host \<Rightarrow> 'j write_api \<Rightarrow> ('j, 'l) at_write \<Rightarrow> ('j, 'l) at_write \<Rightarrow> bool"
  for H :: "('v, 'w, 'j, 'l) host" and W :: "'j write_api" and x :: "('j, 'l) at_write" where
  begun: "in_progress H W x x"
| given: "in_progress H W x y \<Longrightarrow> write_part H W bs y = Some (z, r) \<Longrightarrow> in_progress H W x z"
| bounded: "in_progress H W x (w, wr) \<Longrightarrow> in_progress H W x (w, with_memory n wr)"

inductive_cases in_progressE: "in_progress H W x y"

lemma in_progress_unseen:
  assumes "in_progress H W x y" and "write_dir (snd x) = Inr dir"
  shows "seen dir (fst y) = seen dir (fst x) \<and> w_catalog (fst y) = w_catalog (fst x) \<and> write_dir (snd y) = Inr dir"
  using assms
proof (induction rule: in_progress.induct)
  case (given y bs z r)
  then show ?case using write_part_keeps [of H W bs "fst y" "snd y" "fst z" "snd z" r dir] by simp
next
  case (bounded w wr n)
  then show ?case by (simp add: with_memory_def)
qed simp

lemma begin_at_seen:
  assumes "begin_at H W uuid reg l overwrite rewrite ov w = Some (w', Inr wr)"
  shows "\<exists>dir. write_dir wr = Inr dir \<and> seen dir w' = seen dir w \<and> (wr_iceberg wr = None \<longrightarrow> w_catalog w' = w_catalog w)"
proof (cases "\<exists>k. l = IcebergAt k")
  case True
  then obtain k where l: "l = IcebergAt k" ..
  from assms obtain kind iw where "ice_begin_write H (wa_lake W) k uuid (contract (r_compilation reg)) kind (wa_staging_root W) w = Some (w', Inr iw)"
    and wr: "wr_iceberg wr = Some iw"
    unfolding begin_at_def Let_def l staged_dir_def location.case option.case
    by (auto simp: then_do_Inr step_runs(1))
  from ice_begin_write_seen [OF this(1)] wr show ?thesis by (auto simp: write_dir_def)
next
  case False
  then obtain dir where dir: "staged_dir W uuid l = Some dir" by (cases l) (auto simp: staged_dir_def)
  with assms False have run: "create_dir H dir w = Some (w', Inr ())" and wr: "wr_iceberg wr = None" "wr_staged wr = Some dir"
    unfolding begin_at_def Let_def dir option.case
    by (cases l; auto simp: then_do_Inr step_runs(1,2) split: if_splits)+
  have "keeps w_catalog (create_dir H dir)" unfolding create_dir_def by (intro keeps_intros) simp
  from keepsD [OF create_dir_seen run] keepsD [OF this run] wr show ?thesis by (auto simp: write_dir_def)
qed

lemma begin_write_begins:
  assumes "begin_write H W g uuid name overwrite ov w = Some (w1, Inr wr)"
  shows "\<exists>reg l. get_contract g name = Inr reg \<and> host_bound H reg = Inr (BoundFiles l)
     \<and> begin_at H W uuid reg l overwrite None ov w = Some (w1, Inr wr)"
proof -
  from assms have "map_of (h_frozen H) name = None"
    by (auto simp: begin_write_def begin_writing_def step_runs(2) split: option.splits)
  with assms obtain reg b where reg: "get_contract g name = Inr reg" "host_bound H reg = Inr b"
    and rest: "begin_bound H W uuid name reg overwrite None ov b w = Some (w1, Inr wr)"
    unfolding begin_write_def begin_writing_def by (auto simp: then_do_Inr step_sides)
  from rest obtain l where "b = BoundFiles l" "begin_at H W uuid reg l overwrite None ov w = Some (w1, Inr wr)"
    by (cases b) (auto simp: begin_bound_def then_look step_runs(2) split: if_splits)
  with reg show ?thesis by blast
qed


section \<open>Rows that break rules\<close>

text \<open>What a split keeps, and how many rows.\<close>

lemma split_rows_kept:
  assumes "\<forall>b \<in> set bs. batch_ok b" and "split_rows bs fs rs = Inr out"
  shows "passing out = map (passing_of fs) bs" and "passing_rows out = sum_list (map num_rows (map (passing_of fs) bs))"
    and "passing_rows out \<le> sum_list (map num_rows bs)"
proof -
  obtain o1 br where dn:
    "split_done fs rs bs (\<lparr>passing = [], passing_rows = 0, breaking = None, counts = []\<rparr>, []) (o1, br)"
    and out: "out = (if br = [] then o1 else o1\<lparr>breaking := Some (concat_batches (breaking_schema rs) br)\<rparr>)"
    using split_rows_Inr [OF assms] .
  show "passing out = map (passing_of fs) bs" using dn by (simp add: split_done_def out)
  show "passing_rows out = sum_list (map num_rows (map (passing_of fs) bs))" using dn
    by (simp add: split_done_def out passing_of_def passing_count_def [abs_def] count_list_map_upt comp_def)
  show "passing_rows out \<le> sum_list (map num_rows bs)" using dn by (auto simp: split_done_def out)
qed

lemma as_planned_columns:
  assumes "as_planned s b = Inr b'" and "length (columns b) = length (batch_schema b)"
  shows "columns b' = columns b"
  using assms by (auto simp: as_planned_def try_new_batch_def split: if_splits)

lemma passing_of_shape: "batch_ok b \<Longrightarrow> length (columns (passing_of fs b)) = length (batch_schema (passing_of fs b))"
  by (simp add: passing_of_def filter_batch_def batch_ok_def)

lemma planned_columns:
  assumes "\<forall>b \<in> set bs. batch_ok b" and "map_res (as_planned s) (map (passing_of fs) bs) = Inr kept"
  shows "map columns kept = map (columns \<circ> passing_of fs) bs"
  using assms
proof (induction bs arbitrary: kept)
  case (Cons b bs)
  then obtain x xs where "as_planned s (passing_of fs b) = Inr x" "map_res (as_planned s) (map (passing_of fs) bs) = Inr xs" "kept = x # xs"
    by (auto simp: and_then_eq_Inr)
  with Cons as_planned_columns [of s "passing_of fs b" x] passing_of_shape [of b fs] show ?case by simp
qed simp

lemma on_writing_run: "on_writing h (w, x) = Some ((w, h x), Inr ())"
  by (simp add: on_writing_def change_def)

lemma on_world_run: "on_world m (w, x) = Some (y, r) \<longleftrightarrow> (\<exists>w'. m w = Some (w', r) \<and> y = (w', x))"
  by (auto simp: on_world_def)

lemma then_do_writing: "then_do (on_writing h) k (w, x) = k () (w, h x)"
  by (simp add: then_do_def on_writing_run)

lemma then_do_lift_Inr: "then_do (lift r) k s = Some (s', Inr y) \<longleftrightarrow> (\<exists>x. r = Inr x \<and> k x s = Some (s', Inr y))"
  by (auto simp: then_do_Inr step_sides)

text \<open>What DataFusion gives is record batches: as many columns as fields, each of as many cells as rows.\<close>

definition gives_batches :: "'j write_api \<Rightarrow> bool" where
  "gives_batches W \<longleftrightarrow> (\<forall>ss t plan s out. wa_execute W ss t plan = Inr (s, out) \<longrightarrow> (\<forall>b \<in> set out. batch_ok b))"

lemma exclude_run:
  assumes "exclude_breaking H W c rules ss tw (w, wr) = Some ((w', wr'), Inr tw')"
    and shaped: "gives_batches W"
  shows "w' = w \<and> (\<exists>plan s flagged kept. wa_execute W ss (tw_table tw) plan = Inr (s, flagged)
     \<and> map columns kept = map (columns \<circ> passing_of rules) flagged \<and> tw_table tw' = (''kept'', s, kept)
     \<and> tw_rows tw' = sum_list (map num_rows (map (passing_of rules) flagged))
     \<and> tw_rows tw' \<le> sum_list (map num_rows flagged)
     \<and> wr_rows_excluded wr' = wr_rows_excluded wr + (tw_rows tw - tw_rows tw') \<and> wr_rows wr' = wr_rows wr)"
proof -
  from assms(1) obtain plan s flagged sp kept where ex: "wa_execute W ss (tw_table tw) plan = Inr (s, flagged)"
    and sp: "split_rows flagged rules (row_schema (contract c)) = Inr sp"
    and kept: "map_res (as_planned s) (passing sp) = Inr kept"
    and w': "w' = w" "wr' = set_aside_counts sp (tw_rows tw) wr"
    and tw': "tw' = \<lparr>tw_plan = LScan ''kept'', tw_table = (''kept'', s, kept), tw_rows = passing_rows sp,
         tw_bytes = tw_bytes tw * passing_rows sp div max (tw_rows tw) 1, tw_excluded = breaking sp\<rparr>"
    unfolding exclude_breaking_def by (auto simp: then_do_lift_Inr then_do_writing step_runs(1))
  have ok: "\<forall>b \<in> set flagged. batch_ok b" using shaped ex unfolding gives_batches_def by blast
  from kept [unfolded split_rows_kept(1) [OF ok sp]] have "map columns kept = map (columns \<circ> passing_of rules) flagged"
    by (rule planned_columns [OF ok])
  moreover note split_rows_kept(2,3) [OF ok sp]
  ultimately show ?thesis using ex w' by (auto simp: tw' set_aside_counts_def)
qed

lemma write_parquet_run:
  assumes "write_parquet H W wr ss table plan rows w = Some (w', Inr files)"
  shows "\<exists>dir options. write_dir wr = Inr dir \<and> wa_write W ss table plan dir options = (files, None)
     \<and> w' = w\<lparr>w_trees := (w_trees w)(dir := put_all files (w_trees w dir))\<rparr>"
proof -
  from assms obtain options dir where dir: "write_dir wr = Inr dir"
    and body: "(case wa_write W ss table plan dir options of (files, e) \<Rightarrow>
       then_do (land_files dir files) (\<lambda>_. then_do (lift (df_fails e)) (\<lambda>_. give files))) w = Some (w', Inr files)"
    unfolding write_parquet_def then_do_lift_Inr by (elim exE conjE) (rule that)
  obtain fs e where wa: "wa_write W ss table plan dir options = (fs, e)" by (cases "wa_write W ss table plan dir options")
  from body have rest: "then_do (land_files dir files) (\<lambda>_. then_do (lift (df_fails e)) (\<lambda>_. give files)) w = Some (w', Inr files)"
    and "fs = files" unfolding wa by (auto simp: then_do_Inr step_runs(1))
  from rest have "e = None" "w' = w\<lparr>w_trees := (w_trees w)(dir := put_all files (w_trees w dir))\<rparr>"
    by (auto simp: then_do_Inr land_files_def step_sides step_runs(1,6) df_fails_def split: option.splits)
  with dir wa \<open>fs = files\<close> show ?thesis by blast
qed

text \<open>
  C14. Under \<open>exclude\<close>, no row that breaks a row rule is written: the files a part lands are those DataFusion writes of a
  table that holds exactly the rows whose every rule's flag is true, and only the write's own directory gains them. Every
  row given is either counted as written or counted as set aside, as long as the plan that flags rows keeps
  their number.
\<close>

theorem excluded_rows_are_not_written:
  assumes run: "write_part H W bs (w, wr) = Some ((w', wr'), Inr p)"
    and mode: "wr_on_violation wr = WExclude" and rules: "enforced_flags (write_flags (r_compilation (wr_reg wr))) = rules" "rules \<noteq> []"
    and shaped: "gives_batches W"
  shows "\<exists>given ss tw plan s flagged kept plan' dir options files.
     map_res (wa_conform W (row_schema (contract (r_compilation (wr_reg wr))))) bs = Inr given
     \<and> incoming H W (r_compilation (wr_reg wr)) given = Inr tw \<and> wa_execute W ss (tw_table tw) plan = Inr (s, flagged)
     \<and> map columns kept = map (columns \<circ> passing_of rules) flagged
     \<and> wa_write W ss (''kept'', s, kept) plan' dir options = (files, None)
     \<and> w' = w\<lparr>w_trees := (w_trees w)(dir := put_all files (w_trees w dir))\<rparr>
     \<and> pt_rows_written p = sum_list (map num_rows (map (passing_of rules) flagged))
     \<and> wr_rows wr' = wr_rows wr + pt_rows_written p
     \<and> (sum_list (map num_rows flagged) = tw_rows tw \<longrightarrow>
          pt_rows_written p + wr_rows_excluded wr' = wr_rows_excluded wr + tw_rows tw)"
proof -
  let ?c = "r_compilation (wr_reg wr)"
  from run obtain given ss tw tw' w1 wr1 where conformed: "map_res (wa_conform W (row_schema (contract ?c))) bs = Inr given"
    and tw: "incoming H W ?c given = Inr tw"
    and ex: "exclude_breaking H W ?c rules ss tw (w, wr) = Some ((w1, wr1), Inr tw')"
    and rows: "write_rows H W wr ss tw' (w1, wr1) = Some ((w', wr'), Inr p)"
    unfolding write_part_body part_body_def Let_def rules(1) mode then_do_lift_Inr using rules(2)
    by (auto simp: then_do_Inr)
  from exclude_run [OF ex shaped] obtain plan s flagged kept where w1: "w1 = w"
    and flag: "wa_execute W ss (tw_table tw) plan = Inr (s, flagged)" "map columns kept = map (columns \<circ> passing_of rules) flagged"
    and tw': "tw_table tw' = (''kept'', s, kept)" "tw_rows tw' = sum_list (map num_rows (map (passing_of rules) flagged))"
      "tw_rows tw' \<le> sum_list (map num_rows flagged)"
      "wr_rows_excluded wr1 = wr_rows_excluded wr + (tw_rows tw - tw_rows tw')" "wr_rows wr1 = wr_rows wr"
    by (elim exE conjE) (rule that)
  from rows obtain plan' files where wp: "write_parquet H W wr ss (tw_table tw') plan' (tw_rows tw') w1 = Some (w', Inr files)"
    and wr': "wr' = wr1\<lparr>wr_rows := wr_rows wr1 + tw_rows tw', wr_bytes := wr_bytes wr1 + tw_bytes tw'\<rparr>"
    and p: "p = \<lparr>pt_rows_written = tw_rows tw', pt_excluded = tw_excluded tw'\<rparr>"
    unfolding write_rows_def then_do_lift_Inr by (auto simp: then_do_Inr on_world_run on_writing_run step_runs(1))
  from write_parquet_run [OF wp] obtain dir options where "wa_write W ss (tw_table tw') plan' dir options = (files, None)"
    "w' = w\<lparr>w_trees := (w_trees w)(dir := put_all files (w_trees w dir))\<rparr>" unfolding w1 by blast
  with conformed tw flag tw' show ?thesis
    by (intro exI [of _ given] exI [of _ ss] exI [of _ tw] exI [of _ plan] exI [of _ s] exI [of _ flagged] exI [of _ kept] exI [of _ plan']
        exI [of _ dir] exI [of _ options] exI [of _ files]) (auto simp: wr' p)
qed

text \<open>Facts of a write read, and write nothing.\<close>

lemma written_facts_keeps: "keeps (\<lambda>w. w) (written_facts H W wr now reg)"
  unfolding written_facts_def Let_def by (intro keeps_intros)

lemma of_rows_failures: "v_failures (of_rows c v) = v_failures v"
  by (simp add: of_rows_def Let_def)

lemma discard_keeps:
  assumes "\<And>dir. write_dir wr = Inr dir \<Longrightarrow> keeps f (remove_dir dir)"
  shows "keeps f (discard wr W)"
  unfolding discard_def by (intro keeps_then_lift keeps_then_do keeps_if keeps_basic assms)

lemma drop_writing_keeps:
  assumes "\<And>dir. write_dir wr = Inr dir \<Longrightarrow> keeps f (remove_dir dir)"
  shows "keeps f (drop_writing wr)"
  unfolding drop_writing_def
  by (intro keeps_case_option keeps_if keeps_basic assms) (simp_all add: write_dir_def)

lemma written_facts_verdict:
  assumes "write_dir wr = Inr dir" and "validation_session W wr = Inr ss"
    and "wa_validate W (r_compilation reg) ss (wr_iceberg wr \<noteq> None) (w_trees w dir) = Inr raw"
  shows "\<exists>q. written_facts H W wr now reg w = Some (w, q) \<and> (\<forall>v f. q = Inr (v, f) \<longrightarrow> v = of_rows (r_compilation reg) raw)"
proof (cases "io_fails (wa_url_error W dir)")
  case (Inl e)
  then show ?thesis using assms by (simp add: written_facts_def Let_def then_do_def lift_def)
next
  case (Inr u)
  show ?thesis
  proof (cases "wa_provider_error W (contract (r_compilation reg)) (wr_iceberg wr \<noteq> None)")
    case (Some e)
    then show ?thesis using assms Inr by (simp add: written_facts_def Let_def then_do_def lift_def stop_def)
  next
    case None
    then show ?thesis using assms Inr
      by (simp add: written_facts_def Let_def then_do_def lift_def look_res_def give_def split: sum.split)
  qed
qed

lemma discard_ends: "write_dir wr = Inr dir \<Longrightarrow> \<exists>w1 u. discard wr W w = Some (w1, u)"
  by (auto simp: discard_def then_do_def lift_def look_def give_def remove_dir_def change_def io_fails_def split: option.splits)

lemma all_facts_refused:
  assumes f: "\<And>dir. write_dir wr = Inr dir \<Longrightarrow> keeps f (remove_dir dir)" and mode: "wr_on_violation wr = WRefuse"
    and dir: "write_dir wr = Inr dir" and session: "validation_session W wr = Inr ss"
    and verdict: "wa_validate W (r_compilation (wr_reg wr)) ss (wr_iceberg wr \<noteq> None) (w_trees w dir) = Inr raw"
    and broke: "broken (cc_flags (contract (r_compilation (wr_reg wr)))) (v_failures raw) \<noteq> []"
  shows "\<exists>w1 e. all_facts H W wr now rest w = Some (w1, Inl e) \<and> f w1 = f w"
proof -
  from written_facts_verdict [OF dir session verdict] obtain q where q: "written_facts H W wr now (wr_reg wr) w = Some (w, q)"
    and v: "\<forall>v f. q = Inr (v, f) \<longrightarrow> v = of_rows (r_compilation (wr_reg wr)) raw" by blast
  show ?thesis
  proof (cases q)
    case (Inl e)
    with q show ?thesis by (simp add: all_facts_def then_do_def)
  next
    case (Inr vf)
    obtain v fx where vf: "vf = (v, fx)" by (cases vf)
    with v Inr have "v_failures v = v_failures raw" by (simp add: of_rows_failures)
    moreover from discard_ends [OF dir] obtain w1 u where d: "discard wr W w = Some (w1, u)" by blast
    moreover have "f w1 = f w" by (rule keepsD [OF discard_keeps [OF f] d])
    ultimately show ?thesis using q Inr vf mode broke
      by (cases u) (auto simp: all_facts_def then_do_def stop_def)
  qed
qed

lemma finish_refused:
  assumes run: "finish_write H W g wr w = Some (w', r)"
    and f: "\<And>dir. write_dir wr = Inr dir \<Longrightarrow> keeps f (remove_dir dir)"
    and refused: "\<And>now rest. \<exists>w1 e. all_facts H W wr now rest w = Some (w1, Inl e) \<and> f w1 = f w"
  shows "(\<exists>e. r = Inl e) \<and> f w' = f w"
proof -
  have inner: "\<exists>w1 e. finish_inner H W g wr w = Some (w1, Inl e) \<and> f w1 = f w"
  proof (cases "location_key (wa_canonicalize W) (wr_location wr)")
    case (Inl e)
    then show ?thesis by (simp add: finish_inner_def then_do_def lift_def)
  next
    case (Inr key)
    from refused [of "h_now H" "tl (bound_to_data H W g wr key)"] obtain w1 e where
      "all_facts H W wr (h_now H) (tl (bound_to_data H W g wr key)) w = Some (w1, Inl e)" "f w1 = f w" by blast
    with Inr show ?thesis by (simp add: finish_inner_def then_do_def lift_def)
  qed
  from run obtain w1 q u where q: "finish_inner H W g wr w = Some (w1, q)" "drop_writing wr w1 = Some (w', u)"
    and r: "r = (case u of Inl e \<Rightarrow> Inl e | Inr _ \<Rightarrow> q)"
    unfolding finish_write_def by (rule finally_do_Some)
  from inner q(1) obtain e where e: "q = Inl e" "f w1 = f w" by auto
  moreover have "f w' = f w1" by (rule keepsD [OF drop_writing_keeps [OF f] q(2)])
  ultimately show ?thesis using r by (cases u) simp_all
qed

text \<open>
  C11. A refused write publishes nothing: when, under \<open>refuse\<close>, the validation of the rows a write wrote finds one that breaks
  a row rule, finishing the write fails, and then everything is as it was before, but for the write's own directory.
\<close>

theorem refused_writes_publish_nothing:
  assumes run: "finish_write H W g wr w = Some (w', r)" and mode: "wr_on_violation wr = WRefuse"
    and dir: "write_dir wr = Inr dir" and session: "validation_session W wr = Inr ss"
    and verdict: "wa_validate W (r_compilation (wr_reg wr)) ss (wr_iceberg wr \<noteq> None) (w_trees w dir) = Inr raw"
    and broke: "broken (cc_flags (contract (r_compilation (wr_reg wr)))) (v_failures raw) \<noteq> []"
  shows "(\<exists>e. r = Inl e) \<and> seen dir w' = seen dir w \<and> w_catalog w' = w_catalog w"
proof -
  have seen: "keeps (seen dir) (remove_dir d)" if "write_dir wr = Inr d" for d
    using that dir remove_dir_seen [of dir] by simp
  have cat: "keeps w_catalog (remove_dir d)" for d unfolding remove_dir_def by (intro keeps_change) simp
  note refused = all_facts_refused [OF _ mode dir session verdict broke]
  from finish_refused [OF run seen refused [OF seen]] finish_refused [OF run cat refused [OF cat]] show ?thesis by blast
qed

end
