(* ===== verification/Write_Facts.thy ===== *)
theory Write_Facts
  imports Write_Safety
begin

text \<open>
  What the contracts bound to a directory know after a write to it: what they knew before combined with the
  facts of the write's own rows, and what they go on knowing when publishing fails halfway.
\<close>

section \<open>Running lists of steps\<close>

lemma map_do_pure:
  assumes "\<And>x. keeps (\<lambda>w. w) (f x)" and "map_do f xs w = Some (w', Inr ys)"
  shows "w' = w \<and> list_all2 (\<lambda>x y. f x w = Some (w, Inr y)) xs ys"
  using assms(2)
proof (induction xs arbitrary: ys)
  case Nil
  then show ?case by (simp add: step_runs(1))
next
  case (Cons x xs)
  then obtain y w1 ys1 where y: "f x w = Some (w1, Inr y)" and rest: "map_do f xs w1 = Some (w', Inr ys1)" and ys: "ys = y # ys1"
    by (auto simp: then_do_Inr step_runs(1))
  from keepsD [OF assms(1) y] have "w1 = w" .
  with y rest Cons.IH [of ys1] ys show ?case by simp
qed

text \<open>What \<open>all_facts\<close> gives when it gives anything: the facts of the write under each contract.\<close>

lemma all_facts_run:
  assumes "all_facts H W wr now rest w = Some (w', Inr (v, bound))"
  shows "w' = w \<and> (\<exists>f. written_facts H W wr now (wr_reg wr) w = Some (w, Inr (v, f)) \<and> hd bound = (wr_reg wr, f))
     \<and> list_all2 (\<lambda>reg b. fst b = reg \<and> (\<exists>v. written_facts H W wr now reg w = Some (w, Inr (v, snd b)))) (wr_reg wr # rest) bound"
proof -
  let ?each = "\<lambda>reg. then_do (written_facts H W wr now reg) (\<lambda>(v, f). give (reg, f))"
  from assms obtain f w1 where own: "written_facts H W wr now (wr_reg wr) w = Some (w1, Inr (v, f))"
    and fs: "\<exists>fs. map_do ?each rest w1 = Some (w', Inr fs) \<and> bound = (wr_reg wr, f) # fs"
    unfolding all_facts_def by (auto simp: then_do_Inr Let_def step_runs(1,2) split: prod.splits if_splits)
  from keepsD [OF written_facts_keeps own] have w1: "w1 = w" .
  from fs obtain fs where run: "map_do ?each rest w = Some (w', Inr fs)" and bound: "bound = (wr_reg wr, f) # fs"
    unfolding w1 by blast
  have "keeps (\<lambda>w. w) (?each reg)" for reg by (intro keeps_intros written_facts_keeps)
  from map_do_pure [OF this run] have w': "w' = w" and all: "list_all2 (\<lambda>reg b. ?each reg w = Some (w, Inr b)) rest fs" by simp_all
  have "fst b = reg \<and> (\<exists>v. written_facts H W wr now reg w = Some (w, Inr (v, snd b)))"
    if run: "?each reg w = Some (w, Inr b)" for reg b
  proof -
    from run obtain w2 v f where "written_facts H W wr now reg w = Some (w2, Inr (v, f))" "b = (reg, f)"
      by (auto simp: then_do_Inr step_runs(1))
    with keepsD [OF written_facts_keeps this(1)] show ?thesis by auto
  qed
  with all have "list_all2 (\<lambda>reg b. fst b = reg \<and> (\<exists>v. written_facts H W wr now reg w = Some (w, Inr (v, snd b)))) rest fs"
    by (auto elim: list_all2_mono)
  with own w1 w' show ?thesis by (simp add: bound)
qed

lemma finish_success:
  assumes "finish_write H W g wr w = Some (w', Inr report)"
  obtains key v bound sc table w1 where "location_key (wa_canonicalize W) (wr_location wr) = Inr key"
    and "all_facts H W wr (h_now H) (tl (bound_to_data H W g wr key)) w = Some (w, Inr (v, bound))"
    and "publish_write H W wr bound (h_now H) w = Some (w1, Inr (sc, table))"
    and "\<exists>u. drop_writing wr w1 = Some (w', Inr u)"
    and "report = report_of wr v (wf_facts (snd (hd bound))) sc table"
proof -
  from assms obtain w1 q u where inner: "finish_inner H W g wr w = Some (w1, q)" and drop: "drop_writing wr w1 = Some (w', u)"
    and r: "Inr report = (case u of Inl e \<Rightarrow> Inl e | Inr _ \<Rightarrow> q)"
    unfolding finish_write_def by (rule finally_do_Some)
  from r obtain x where u: "u = Inr x" and q: "q = Inr report" by (cases u) simp_all
  from inner [unfolded q] obtain key v bound sc table w0 where k: "location_key (wa_canonicalize W) (wr_location wr) = Inr key"
    and a: "all_facts H W wr (h_now H) (tl (bound_to_data H W g wr key)) w = Some (w0, Inr (v, bound))"
    and p: "publish_write H W wr bound (h_now H) w0 = Some (w1, Inr (sc, table))"
    and rep: "report = report_of wr v (wf_facts (snd (hd bound))) sc table"
    unfolding finish_inner_def then_do_lift_Inr by (auto simp: then_do_Inr step_runs(1) split: prod.splits)
  from all_facts_run [OF a] have "w0 = w" by simp
  with k a p rep drop u show thesis by (intro that) auto
qed

section \<open>What a contract knows after a write\<close>

lemma name_kept: "m_contract (finished K c s m) = m_contract m" "m_contract (appended J c b w now) = m_contract w"
  by (simp_all add: finished_def appended_def Let_def)

lemma after_write_name:
  assumes "after_write K J c b f now s = Inr (Some m)" and "wf_written f \<noteq> Rewrite"
  shows "m_contract m = m_contract (wf_facts f)"
proof -
  from assms(1) obtain k where k: "(case k of Unknown \<Rightarrow> Inr None
        | Nothing \<Rightarrow> Inr (Some (finished K c s ((wf_facts f)\<lparr>m_written_at := now, m_guarantees := []\<rparr>)))
        | Known b \<Rightarrow>
            (if wf_written f = Rewrite
             then and_then (rewritten c b f) (\<lambda>m. Inr (Some (finished K c s m)))
             else Inr (Some (finished K c s (appended J c b (wf_facts f) now))))) = Inr (Some m)"
    by (auto simp: after_write_def Let_def and_then_eq_Inr split: if_splits)
  show ?thesis
  proof (cases k)
    case Nothing
    with k have "finished K c s ((wf_facts f)\<lparr>m_written_at := now, m_guarantees := []\<rparr>) = m" by simp
    then have "m_contract (finished K c s ((wf_facts f)\<lparr>m_written_at := now, m_guarantees := []\<rparr>)) = m_contract m" by simp
    then show ?thesis by (simp add: name_kept)
  next
    case (Known b)
    with k assms(2) have "finished K c s (appended J c b (wf_facts f) now) = m" by simp
    then have "m_contract (finished K c s (appended J c b (wf_facts f) now)) = m_contract m" by simp
    then show ?thesis by (simp add: name_kept)
  qed (use k in simp)
qed

lemma after_facts_name:
  "after_facts H reg b f now = Inr (Some m) \<Longrightarrow> wf_written f \<noteq> Rewrite \<Longrightarrow> m_contract m = m_contract (wf_facts f)"
  by (auto simp: after_facts_def dest: after_write_name split: option.splits)

lemma written_facts_of:
  assumes "written_facts H W wr now reg w = Some (w', Inr (v, f))"
  shows "wf_written f = wr_written wr \<and> m_contract (wf_facts f) = reg_name reg"
  using assms
  by (auto simp: written_facts_def Let_def then_do_Inr step_runs(1) written_manifest_def reg_name_def)

lemma removed_manifest_loads:
  "load_manifest J (remove_manifest d dir n) dir c =
     (if replace_slash c = replace_slash n then Inr None else load_manifest J d dir c)"
  by (auto simp: load_manifest_def remove_manifest_def manifest_path_def Let_def)

text \<open>Recording one contract's facts: they are what it knows from then on; the others know what they knew.\<close>

lemma local_record_run:
  assumes run: "local_record H W dir now (reg, f, b) w = Some (w', Inr ra)"
    and laws: "codec_laws (fe_facts (h_facts H))" and kind: "wf_written f \<noteq> Rewrite" and name: "m_contract (wf_facts f) = reg_name reg"
  shows "fst ra = reg \<and> after_facts H reg b f now = Inr (snd ra)
     \<and> load_manifest (fe_facts (h_facts H)) (w_fs w') dir c =
         (if replace_slash c = replace_slash (reg_name reg) then Inr (snd ra)
          else load_manifest (fe_facts (h_facts H)) (w_fs w) dir c)"
proof -
  from run obtain after where after: "after_facts H reg b f now = Inr after" and ra: "ra = (reg, after)"
    and rec: "(case after of
            Some m \<Rightarrow> on_fs (save_local_manifest H dir m)
          | None \<Rightarrow> then_do (lift (io_fails (wa_remove_error W (manifest_path dir (reg_name reg))))) (\<lambda>_.
              on_fs (\<lambda>d. (remove_manifest d dir (reg_name reg), Inr ())))) w = Some (w', Inr ())"
    unfolding local_record_def prod.case then_do_lift_Inr by (auto simp: then_do_Inr step_runs(1))
  have "load_manifest (fe_facts (h_facts H)) (w_fs w') dir c =
         (if replace_slash c = replace_slash (reg_name reg) then Inr after
          else load_manifest (fe_facts (h_facts H)) (w_fs w) dir c)"
  proof (cases after)
    case None
    with rec have "w_fs w' = remove_manifest (w_fs w) dir (reg_name reg)"
      by (auto simp: then_do_lift_Inr step_sides)
    with None show ?thesis by (simp add: removed_manifest_loads)
  next
    case (Some m)
    with rec obtain d where d: "save_local_manifest H dir m (w_fs w) = (d, Inr ())" and w': "w' = w\<lparr>w_fs := d\<rparr>"
      by (auto simp: step_sides)
    from d have "save_manifest (fe_facts (h_facts H)) (h_write_error H (manifest_path dir (m_contract m))) (w_fs w) dir m = Inr d"
      by (simp add: save_local_manifest_def split: sum.splits)
    from saved_manifest_loads [OF laws this, of c] after_facts_name [OF after [unfolded Some] kind] name w' Some
    show ?thesis by simp
  qed
  with after ra show ?thesis by simp
qed

lemma local_records_run:
  assumes "map_do (local_record H W dir now) known w = Some (w', Inr afters)"
    and "codec_laws (fe_facts (h_facts H))"
    and "\<forall>(reg, f, b) \<in> set known. wf_written f \<noteq> Rewrite \<and> m_contract (wf_facts f) = reg_name reg"
    and "distinct (map (\<lambda>k. replace_slash (reg_name (fst k))) known)"
  shows "(\<forall>(reg, f, b) \<in> set known. after_facts H reg b f now = load_manifest (fe_facts (h_facts H)) (w_fs w') dir (reg_name reg))
     \<and> (\<forall>c. replace_slash c \<notin> (\<lambda>k. replace_slash (reg_name (fst k))) ` set known \<longrightarrow>
          load_manifest (fe_facts (h_facts H)) (w_fs w') dir c = load_manifest (fe_facts (h_facts H)) (w_fs w) dir c)"
  using assms
proof (induction known arbitrary: w afters)
  case Nil
  then show ?case by (simp add: step_runs(1))
next
  case (Cons k known)
  obtain reg f b where k: "k = (reg, f, b)" by (cases k)
  from Cons.prems(1) obtain w1 ra rest where one: "local_record H W dir now (reg, f, b) w = Some (w1, Inr ra)"
    and rest: "map_do (local_record H W dir now) known w1 = Some (w', Inr rest)"
    unfolding map_do.simps then_do_Inr step_runs(1) k by (elim exE conjE) simp
  have kind: "wf_written f \<noteq> Rewrite" "m_contract (wf_facts f) = reg_name reg" using Cons.prems(3) by (auto simp: k)
  note this_one = local_record_run [OF one Cons.prems(2) kind]
  have later: "(\<forall>(reg, f, b) \<in> set known. after_facts H reg b f now = load_manifest (fe_facts (h_facts H)) (w_fs w') dir (reg_name reg))
     \<and> (\<forall>c. replace_slash c \<notin> (\<lambda>k. replace_slash (reg_name (fst k))) ` set known \<longrightarrow>
          load_manifest (fe_facts (h_facts H)) (w_fs w') dir c = load_manifest (fe_facts (h_facts H)) (w_fs w1) dir c)"
    using Cons.prems by (intro Cons.IH [OF rest]) auto
  moreover have "replace_slash (reg_name reg) \<notin> (\<lambda>k. replace_slash (reg_name (fst k))) ` set known"
    using Cons.prems(4) by (auto simp: k)
  ultimately have "load_manifest (fe_facts (h_facts H)) (w_fs w') dir (reg_name reg) = Inr (snd ra)"
    using this_one by simp
  with this_one have "after_facts H reg b f now = load_manifest (fe_facts (h_facts H)) (w_fs w') dir (reg_name reg)" by simp
  with later this_one show ?case by (auto simp: k)
qed

lemma local_before_keeps: "keeps (\<lambda>w. w) (local_before H kind dir reg)"
  unfolding local_before_def by (intro keeps_intros)

lemma move_file_keeps: "keeps w_fs (move_file W from dir pf)"
  unfolding move_file_def by (intro keeps_intros) simp

lemma remove_file_keeps: "keeps w_fs (remove_file W dir path)"
  unfolding remove_file_def by (intro keeps_intros) simp

lemma drop_writing_fs: "keeps w_fs (drop_writing wr)"
  by (rule drop_writing_keeps) (simp add: remove_dir_def keeps_change)

text \<open>What a local publish reads before it moves a file, and what it records after.\<close>

lemma publish_local_run:
  assumes "publish_local H W wr from dir bound now w = Some (w', Inr own)"
  obtains known w1 w2 afters where "map_do (\<lambda>(reg, f). then_do (local_before H (wr_written wr) dir reg) (\<lambda>b. give (reg, f, b))) bound w
      = Some (w, Inr known)"
    and "list_all2 (\<lambda>rf k. fst k = fst rf \<and> fst (snd k) = snd rf \<and> local_before H (wr_written wr) dir (fst rf) w = Some (w, Inr (snd (snd k))))
      bound known"
    and "w_fs w2 = w_fs w" and "map_do (local_record H W dir now) known w2 = Some (w', Inr afters)" and "own = own_after wr afters"
proof -
  let ?know = "\<lambda>(reg, f). then_do (local_before H (wr_written wr) dir reg) (\<lambda>b. give (reg, f, b))"
  from assms obtain known w0 w1 w2 w3 files u afters where kn: "map_do ?know bound w = Some (w0, Inr known)"
    and rm: "(if wr_written wr = Overwrite
       then then_do (look_res (\<lambda>w. list_files (w_trees w dir))) (do_all (\<lambda>(path, f). remove_file W dir path)) else give ()) w0
      = Some (w1, Inr u)"
    and mv: "do_all (move_file W from dir) files w1 = Some (w2, Inr ())"
    and rec: "map_do (local_record H W dir now) known w2 = Some (w', Inr afters)" and own: "own = own_after wr afters"
    unfolding publish_local_def by (auto simp: then_do_Inr step_sides step_runs(1))
  have "keeps (\<lambda>w. w) (?know rf)" for rf by (cases rf) (auto intro!: keeps_intros local_before_keeps)
  from map_do_pure [OF this kn] have w0: "w0 = w" and all: "list_all2 (\<lambda>rf k. ?know rf w = Some (w, Inr k)) bound known" by simp_all
  have "keeps w_fs (if wr_written wr = Overwrite
       then then_do (look_res (\<lambda>w. list_files (w_trees w dir))) (do_all (\<lambda>(path, f). remove_file W dir path)) else give ())"
    by (intro keeps_intros remove_file_keeps)
  from keepsD [OF this rm] keepsD [OF keeps_do_all [OF move_file_keeps] mv] have "w_fs w2 = w_fs w" by (simp add: w0)
  moreover have "fst k = fst rf \<and> fst (snd k) = snd rf \<and> local_before H (wr_written wr) dir (fst rf) w = Some (w, Inr (snd (snd k)))"
    if run: "?know rf w = Some (w, Inr k)" for rf k
  proof (cases rf)
    case (Pair reg f)
    with run obtain x b where "local_before H (wr_written wr) dir reg w = Some (x, Inr b)" "k = (reg, f, b)"
      by (auto simp: then_do_Inr step_runs(1))
    with keepsD [OF local_before_keeps this(1)] Pair show ?thesis by simp
  qed
  then have "list_all2 (\<lambda>rf k. fst k = fst rf \<and> fst (snd k) = snd rf \<and> local_before H (wr_written wr) dir (fst rf) w = Some (w, Inr (snd (snd k))))
      bound known" using all by (rule list_all2_mono [rotated])
  ultimately show thesis using that kn [unfolded w0] rec own by blast
qed

text \<open>
  C12. What contracts know after a write to a directory. Once a write is finished, every contract bound to the same data,
  the writer's and the others, knows exactly what it knew before combined with the facts of the write's own rows
  under that contract: the facts after the write as \<open>facts.rs\<close> gives them, or none where what it knew before does not
  give them. No other contract's facts in the directory change. The contracts' names are to have manifests of their own.
\<close>

theorem published_facts_are_known:
  assumes run: "finish_write H W g wr w = Some (w', Inr report)"
    and place: "wr_location wr = Local dir" and key: "location_key (wa_canonicalize W) (wr_location wr) = Inr key"
    and kind: "wr_written wr \<noteq> Rewrite" and laws: "codec_laws (fe_facts (h_facts H))"
    and names: "distinct (map (\<lambda>reg. replace_slash (reg_name reg)) (bound_to_data H W g wr key))"
  shows "(\<forall>reg \<in> set (bound_to_data H W g wr key).
        \<exists>v f b. written_facts H W wr (h_now H) reg w = Some (w, Inr (v, f))
           \<and> local_before H (wr_written wr) dir reg w = Some (w, Inr b)
           \<and> load_manifest (fe_facts (h_facts H)) (w_fs w') dir (reg_name reg) = after_facts H reg b f (h_now H))
     \<and> (\<forall>c. replace_slash c \<notin> (\<lambda>reg. replace_slash (reg_name reg)) ` set (bound_to_data H W g wr key) \<longrightarrow>
          load_manifest (fe_facts (h_facts H)) (w_fs w') dir c = load_manifest (fe_facts (h_facts H)) (w_fs w) dir c)"
proof -
  let ?J = "fe_facts (h_facts H)"
  let ?regs = "bound_to_data H W g wr key"
  obtain key' v bound sc table w1 where key': "location_key (wa_canonicalize W) (wr_location wr) = Inr key'"
    and facts': "all_facts H W wr (h_now H) (tl (bound_to_data H W g wr key')) w = Some (w, Inr (v, bound))"
    and pub: "publish_write H W wr bound (h_now H) w = Some (w1, Inr (sc, table))" and dropped: "\<exists>u. drop_writing wr w1 = Some (w', Inr u)"
    by (rule finish_success [OF run]) (rule that; assumption)
  from key' key facts' have facts: "all_facts H W wr (h_now H) (tl ?regs) w = Some (w, Inr (v, bound))" by simp
  from dropped obtain u where drop: "drop_writing wr w1 = Some (w', Inr u)" ..
  have regs: "wr_reg wr # tl ?regs = ?regs" by (simp add: bound_to_data_def)
  from all_facts_run [OF facts, unfolded regs] have known_facts:
    "list_all2 (\<lambda>reg b. fst b = reg \<and> (\<exists>v. written_facts H W wr (h_now H) reg w = Some (w, Inr (v, snd b)))) ?regs bound" by simp
  from pub place obtain from_dir own where local: "publish_local H W wr from_dir dir bound (h_now H) w = Some (w1, Inr own)"
    unfolding publish_write_def then_do_lift_Inr by (auto simp: then_do_Inr step_runs(1))
  obtain known w2 afters where
    before: "list_all2 (\<lambda>rf k. fst k = fst rf \<and> fst (snd k) = snd rf \<and> local_before H (wr_written wr) dir (fst rf) w = Some (w, Inr (snd (snd k)))) bound known"
    and w2: "w_fs w2 = w_fs w" and rec: "map_do (local_record H W dir (h_now H)) known w2 = Some (w1, Inr afters)"
    by (rule publish_local_run [OF local]) (rule that; assumption)
  have each: "list_all2 (\<lambda>reg k. fst k = reg \<and> (\<exists>v. written_facts H W wr (h_now H) reg w = Some (w, Inr (v, fst (snd k))))
       \<and> local_before H (wr_written wr) dir reg w = Some (w, Inr (snd (snd k)))) ?regs known"
    by (rule list_all2_trans [OF _ known_facts before]) auto
  have fst_known: "map fst known = ?regs" using each by (induction rule: list_all2_induct) auto
  have "\<forall>(reg, f, b) \<in> set known. wf_written f \<noteq> Rewrite \<and> m_contract (wf_facts f) = reg_name reg"
    using each kind by (induction rule: list_all2_induct) (auto dest: written_facts_of)
  moreover have "distinct (map (\<lambda>k. replace_slash (reg_name (fst k))) known)"
    using names by (simp add: fst_known [symmetric] comp_def)
  ultimately have recorded: "(\<forall>(reg, f, b) \<in> set known. after_facts H reg b f (h_now H) = load_manifest ?J (w_fs w1) dir (reg_name reg))
     \<and> (\<forall>c. replace_slash c \<notin> (\<lambda>k. replace_slash (reg_name (fst k))) ` set known \<longrightarrow>
          load_manifest ?J (w_fs w1) dir c = load_manifest ?J (w_fs w2) dir c)"
    by (rule local_records_run [OF rec laws])
  have w': "w_fs w' = w_fs w1" by (rule keepsD [OF drop_writing_fs drop])
  have "\<exists>k \<in> set known. fst k = reg \<and> (\<exists>v. written_facts H W wr (h_now H) reg w = Some (w, Inr (v, fst (snd k))))
       \<and> local_before H (wr_written wr) dir reg w = Some (w, Inr (snd (snd k)))" if "reg \<in> set ?regs" for reg
    using each that by (induction rule: list_all2_induct) auto
  moreover have "(\<lambda>k. replace_slash (reg_name (fst k))) ` set known = (\<lambda>reg. replace_slash (reg_name reg)) ` set ?regs"
    by (simp add: fst_known [symmetric] image_image)
  ultimately show ?thesis using recorded unfolding w' w2 by fastforce
qed

end
