(* ===== verification/Write_Files.thy ===== *)
theory Write_Files
  imports Write_Facts
begin

text \<open>
  Which files a directory holds after a write to it is finished: every file the write wrote, and of those that
  were there all of them, or, when the write replaces the data, all but the data files.
\<close>

section \<open>Files of a tree\<close>

fun tree_ok :: "'f tree \<Rightarrow> bool" where
  "tree_ok (File f) \<longleftrightarrow> True"
| "tree_ok (Locked e) \<longleftrightarrow> True"
| "tree_ok (Dir es) \<longleftrightarrow> distinct (map fst es) \<and> (\<forall>(n, t) \<in> set es. tree_ok t)"

definition file_in :: "'f tree option \<Rightarrow> string list \<Rightarrow> 'f \<Rightarrow> bool" where
  "file_in to p g \<longleftrightarrow> (case to of None \<Rightarrow> False | Some t \<Rightarrow> Binding.file_at t p g)"

definition tree_in_ok :: "'f tree option \<Rightarrow> bool" where
  "tree_in_ok to \<longleftrightarrow> (case to of None \<Rightarrow> True | Some t \<Rightarrow> tree_ok t)"

lemma file_in_simps [simp]:
  "\<not> file_in None p g" "file_in (Some t) p g \<longleftrightarrow> Binding.file_at t p g" "tree_in_ok None" "tree_in_ok (Some t) \<longleftrightarrow> tree_ok t"
  by (simp_all add: file_in_def tree_in_ok_def)

lemma file_at_Dir:
  assumes "distinct (map fst es)"
  shows "Binding.file_at (Dir es) p g \<longleftrightarrow> (\<exists>n q. p = n # q \<and> file_in (map_of es n) q g)"
proof (cases p)
  case (Cons n q)
  have "Binding.file_at (Dir es) (n # q) g \<longleftrightarrow> (\<exists>t. (n, t) \<in> set es \<and> Binding.file_at t q g)" by auto
  also have "\<dots> \<longleftrightarrow> file_in (map_of es n) q g"
    by (cases "map_of es n") (auto simp: map_of_eq_Some_iff [OF assms, symmetric] simp del: map_of_eq_Some_iff)
  finally show ?thesis by (simp add: Cons)
qed simp

lemma tree_ok_Dir: "tree_ok (Dir es) \<longleftrightarrow> distinct (map fst es) \<and> (\<forall>n. tree_in_ok (map_of es n))"
  by (fastforce simp: tree_in_ok_def split: option.splits dest: map_of_SomeD intro: map_of_is_SomeI)

lemma map_of_dropped: "map_of (map (\<lambda>(m, t). (m, if m = n then f t else t)) es) k
    = (if k = n then map_option f (map_of es k) else map_of es k)"
  by (induction es) auto

lemma map_of_filtered: "map_of (filter (\<lambda>e. fst e \<noteq> n) es) k = (if k = n then None else map_of es k)"
  by (induction es) auto

declare file_at.simps(3) [simp del] tree_ok.simps(3) [simp del]

lemma put_file_at:
  "put_file to p f = Inr t' \<Longrightarrow> tree_in_ok to \<Longrightarrow>
     tree_ok t' \<and> (\<forall>q g. Binding.file_at t' q g \<longleftrightarrow> (if q = p then g = f else file_in to q g))"
proof (induction to p f arbitrary: t' rule: put_file.induct)
  case (6 n p f)
  then obtain t where t: "put_file None p f = Inr t" "t' = Dir [(n, t)]" by (auto split: sum.splits)
  note sub = "6.IH" [OF t(1)]
  have "Binding.file_at t' q g \<longleftrightarrow> (if q = n # p then g = f else False)" for q g
    using sub by (cases q) (auto simp: t(2) file_at_Dir)
  then show ?case using sub by (simp add: t(2) tree_ok_Dir)
next
  case (7 es n p f)
  then obtain t where t: "put_file (map_of es n) p f = Inr t" "t' = Dir (AList.update n t es)" by (auto split: sum.splits)
  from "7.prems"(2) have ok: "distinct (map fst es)" "\<And>k. tree_in_ok (map_of es k)" by (simp_all add: tree_ok_Dir)
  note sub = "7.IH" [OF t(1) ok(2)]
  have d: "distinct (map fst (AList.update n t es))" using ok(1) by (rule AList.distinct_update)
  have "Binding.file_at t' q g \<longleftrightarrow> (if q = n # p then g = f else file_in (Some (Dir es)) q g)" for q g
    using sub unfolding t(2) file_at_Dir [OF d] file_in_simps file_at_Dir [OF ok(1)]
    by (cases q) (auto simp: AList.update_conv')
  moreover have "tree_ok t'" using sub ok d by (simp add: t(2) tree_ok_Dir AList.update_conv')
  ultimately show ?case by blast
qed auto

text \<open>Removing a path below which there is no file removes that file alone.\<close>

definition is_leaf :: "'f tree \<Rightarrow> string list \<Rightarrow> bool" where
  "is_leaf t p \<longleftrightarrow> (\<forall>r g. r \<noteq> [] \<longrightarrow> \<not> Binding.file_at t (p @ r) g)"

lemma drop_file_at: "tree_ok t \<Longrightarrow> p \<noteq> [] \<Longrightarrow> is_leaf t p \<Longrightarrow>
    tree_ok (drop_file p t) \<and> (\<forall>q g. Binding.file_at (drop_file p t) q g \<longleftrightarrow> q \<noteq> p \<and> Binding.file_at t q g)"
proof (induction p t rule: drop_file.induct)
  case (1 n es)
  then have ok: "distinct (map fst es)" "\<And>k. tree_in_ok (map_of es k)" by (simp_all add: tree_ok_Dir)
  have d: "distinct (map fst (filter (\<lambda>e. fst e \<noteq> n) es))" using ok(1) by (simp add: distinct_map_filter)
  have leaf: "\<not> file_in (map_of es n) (a # r) g" for a r g
    using 1(3) [unfolded is_leaf_def, rule_format, of "a # r" g] by (simp add: file_at_Dir [OF ok(1)])
  have "Binding.file_at (drop_file [n] (Dir es)) q g \<longleftrightarrow> q \<noteq> [n] \<and> Binding.file_at (Dir es) q g" for q g
  proof (cases q)
    case (Cons k r)
    then show ?thesis using leaf by (cases r) (auto simp: file_at_Dir [OF ok(1)] file_at_Dir [OF d] map_of_filtered)
  qed (simp add: file_at_Dir [OF ok(1)] file_at_Dir [OF d])
  then show ?case using ok d by (simp add: tree_ok_Dir map_of_filtered)
next
  case (2 n v vs es)
  let ?p = "v # vs"
  let ?ds = "map (\<lambda>(m, t). (m, if m = n then drop_file ?p t else t)) es"
  from 2 have ok: "distinct (map fst es)" "\<And>k. tree_in_ok (map_of es k)" by (simp_all add: tree_ok_Dir)
  have d: "distinct (map fst ?ds)" using ok(1) by (simp add: comp_def case_prod_unfold)
  have sub: "tree_ok (drop_file ?p t) \<and> (\<forall>q g. Binding.file_at (drop_file ?p t) q g \<longleftrightarrow> q \<noteq> ?p \<and> Binding.file_at t q g)" if t: "map_of es n = Some t" for t
  proof -
    have "is_leaf t ?p"
      unfolding is_leaf_def
    proof (intro allI impI)
      fix r g assume "r \<noteq> ([] :: string list)"
      then show "\<not> Binding.file_at t (?p @ r) g"
        using 2(4) [unfolded is_leaf_def, rule_format, of r g] t by (simp add: file_at_Dir [OF ok(1)])
    qed
    moreover have "(n, t) \<in> set es" using t by (rule map_of_SomeD)
    moreover have "tree_ok t" using ok(2) [of n] t by simp
    ultimately show ?thesis using "2.IH" [of "(n, t)" n t] by simp
  qed
  have "Binding.file_at (drop_file (n # ?p) (Dir es)) q g \<longleftrightarrow> q \<noteq> n # ?p \<and> Binding.file_at (Dir es) q g" for q g
  proof (cases q)
    case (Cons k r)
    then show ?thesis using sub
      by (cases "map_of es n") (auto simp: file_at_Dir [OF ok(1)] file_at_Dir [OF d] map_of_dropped)
  qed (simp add: file_at_Dir [OF ok(1)] file_at_Dir [OF d])
  moreover have "tree_ok (Dir ?ds)" using ok d sub
    by (cases "map_of es n") (auto simp: tree_ok_Dir map_of_dropped tree_in_ok_def split: option.splits)
  ultimately show ?case by simp
qed auto

lemma file_leaf: "tree_ok t \<Longrightarrow> Binding.file_at t p f \<Longrightarrow> is_leaf t p"
proof (induction p arbitrary: t)
  case Nil
  then show ?case by (cases t) (auto simp: is_leaf_def file_at_Dir tree_ok_Dir)
next
  case (Cons n p)
  from Cons.prems obtain es where t: "t = Dir es" by (cases t) auto
  with Cons.prems(1) have ok: "distinct (map fst es)" "\<And>k. tree_in_ok (map_of es k)" by (simp_all add: tree_ok_Dir)
  from Cons.prems(2) obtain u where u: "map_of es n = Some u" "Binding.file_at u p f"
    by (auto simp: t file_at_Dir [OF ok(1)] file_in_def split: option.splits)
  moreover have "tree_ok u" using ok(2) [of n] u(1) by simp
  ultimately show ?case using Cons.IH [of u] by (auto simp: is_leaf_def t file_at_Dir [OF ok(1)])
qed

text \<open>The data files listed: those at some paths, the paths alone deciding.\<close>

lemma listed_files:
  assumes "list_files to = Inr fs" and "\<forall>f. to \<noteq> Some (File f)" and "tree_in_ok to"
  shows "(p, f) \<in> set fs \<Longrightarrow> p \<noteq> [] \<and> (\<forall>t. to = Some t \<longrightarrow> is_leaf t p)"
    and "file_in to p g \<Longrightarrow> (p, g) \<in> set fs \<longleftrightarrow> p \<in> fst ` set fs"
proof -
  have listed: "(p, f) \<in> set fs \<longleftrightarrow> file_in to p f \<and> extension (last p) = Some ''parquet'' \<and> ''_peql'' \<notin> set (butlast p)" for p f
  proof (cases to)
    case (Some t)
    with assms(1,2) obtain gs where "walk_tree [] t = Inr gs" "set fs = set gs"
      by (cases t) (auto simp: list_files_def split: sum.splits)
    with walk_tree_files [of "[]" t gs "(p, f)"] Some show ?thesis by (auto simp: found_def)
  qed (use assms(1) in \<open>simp add: list_files_def\<close>)
  show "file_in to p g \<Longrightarrow> (p, g) \<in> set fs \<longleftrightarrow> p \<in> fst ` set fs" using listed by force
  assume "(p, f) \<in> set fs"
  with listed have "file_in to p f" by simp
  then show "p \<noteq> [] \<and> (\<forall>t. to = Some t \<longrightarrow> is_leaf t p)" using assms(2,3)
    by (cases to; cases "the to") (auto simp: file_at_Dir tree_ok_Dir intro: file_leaf)
qed

section \<open>Publishing them\<close>

lemma remove_file_run:
  "remove_file W dir p w = Some (w', Inr ()) \<Longrightarrow> w' = w\<lparr>w_trees := (w_trees w)(dir := map_option (drop_file p) (w_trees w dir))\<rparr>"
  by (auto simp: remove_file_def then_do_Inr step_sides step_runs(6))

lemma remove_files_run:
  assumes "do_all (\<lambda>(p, f). remove_file W dir p) L w = Some (w', Inr ())"
    and "tree_in_ok (w_trees w dir)" and "\<forall>(p, f) \<in> set L. p \<noteq> [] \<and> (\<forall>t. w_trees w dir = Some t \<longrightarrow> is_leaf t p)"
  shows "tree_in_ok (w_trees w' dir) \<and> (\<forall>d. d \<noteq> dir \<longrightarrow> w_trees w' d = w_trees w d)
     \<and> (\<forall>q g. file_in (w_trees w' dir) q g \<longleftrightarrow> file_in (w_trees w dir) q g \<and> q \<notin> fst ` set L)"
  using assms
proof (induction L arbitrary: w)
  case Nil
  then show ?case by (simp add: step_runs(1))
next
  case (Cons pf L)
  obtain p f where pf: "pf = (p, f)" by (cases pf)
  from Cons.prems(1) obtain w1 where "remove_file W dir p w = Some (w1, Inr ())" and rest: "do_all (\<lambda>(p, f). remove_file W dir p) L w1 = Some (w', Inr ())"
    by (auto simp: then_do_Inr pf)
  from remove_file_run [OF this(1)] have w1: "w_trees w1 = (w_trees w)(dir := map_option (drop_file p) (w_trees w dir))" by simp
  have leaf: "p \<noteq> []" "\<And>t. w_trees w dir = Some t \<Longrightarrow> is_leaf t p" using Cons.prems(3) by (auto simp: pf)
  have dropped: "tree_in_ok (w_trees w1 dir) \<and> (\<forall>q g. file_in (w_trees w1 dir) q g \<longleftrightarrow> q \<noteq> p \<and> file_in (w_trees w dir) q g)"
  proof (cases "w_trees w dir")
    case (Some t)
    with drop_file_at [of t p] leaf Cons.prems(2) show ?thesis by (simp add: w1)
  qed (simp add: w1)
  have "\<forall>(p, f) \<in> set L. p \<noteq> [] \<and> (\<forall>t. w_trees w1 dir = Some t \<longrightarrow> is_leaf t p)"
  proof (intro ballI, clarify, intro conjI allI impI)
    fix q h assume q: "(q, h) \<in> set L"
    then show "q \<noteq> []" using Cons.prems(3) by auto
    fix t1 assume t1: "w_trees w1 dir = Some t1"
    then obtain t where t: "w_trees w dir = Some t" by (auto simp: w1)
    with Cons.prems(3) q have "is_leaf t q" by auto
    then show "is_leaf t1 q" using dropped t t1 by (auto simp: is_leaf_def)
  qed
  from Cons.IH [OF rest _ this] dropped w1 show ?case by (auto simp: pf)
qed

lemma move_file_run:
  "move_file W from dir (p, f) w = Some (w', Inr ()) \<Longrightarrow> \<exists>t. put_file (w_trees w dir) p f = Inr t \<and> w_trees w' dir = Some t"
  by (auto simp: move_file_def then_do_Inr step_sides step_runs(6) split: sum.splits)

lemma move_files_run:
  assumes "do_all (move_file W from dir) fs w = Some (w', Inr ())" and "tree_in_ok (w_trees w dir)"
  shows "file_in (w_trees w' dir) q g \<longleftrightarrow> (case map_of (rev fs) q of Some f \<Rightarrow> g = f | None \<Rightarrow> file_in (w_trees w dir) q g)"
  using assms
proof (induction fs arbitrary: w)
  case Nil
  then show ?case by (simp add: step_runs(1))
next
  case (Cons pf fs)
  obtain p f where pf: "pf = (p, f)" by (cases pf)
  from Cons.prems(1) obtain w1 where one: "move_file W from dir (p, f) w = Some (w1, Inr ())" and rest: "do_all (move_file W from dir) fs w1 = Some (w', Inr ())"
    by (auto simp: then_do_Inr pf)
  from move_file_run [OF one] obtain t where t: "put_file (w_trees w dir) p f = Inr t" "w_trees w1 dir = Some t" by blast
  from put_file_at [OF t(1) Cons.prems(2)] Cons.IH [OF rest] t(2) show ?case
    by (auto simp: pf map_add_def split: option.splits)
qed

lemma local_record_trees: "keeps w_trees (local_record H W dir now rf)"
  unfolding local_record_def by (intro keeps_intros) simp_all

text \<open>
  C13. Which files a directory holds once a write to it is finished: each file the write wrote, at its own path, and at
  every other path what was there before, except, when the write replaces the data, the data files.
\<close>

theorem finished_writes_publish_files:
  assumes run: "finish_write H W g wr w = Some (w', Inr report)"
    and place: "wr_location wr = Local dir" and from_dir: "write_dir wr = Inr from_dir" and apart: "from_dir \<noteq> dir"
    and new: "list_files (w_trees w from_dir) = Inr written" and old: "list_files (w_trees w dir) = Inr before"
    and tree: "tree_in_ok (w_trees w dir)" "\<forall>f. w_trees w dir \<noteq> Some (File f)"
  shows "file_in (w_trees w' dir) p f \<longleftrightarrow>
     (case map_of (rev written) p of
        Some f' \<Rightarrow> f = f'
      | None \<Rightarrow> file_in (w_trees w dir) p f \<and> \<not> (wr_written wr = Overwrite \<and> (p, f) \<in> set before))"
proof -
  obtain v bound sc table w1 where pub: "publish_write H W wr bound (h_now H) w = Some (w1, Inr (sc, table))"
    and dropped: "\<exists>u. drop_writing wr w1 = Some (w', Inr u)"
    by (rule finish_success [OF run]) (rule that; assumption)
  from pub obtain own where "publish_local H W wr from_dir dir bound (h_now H) w = Some (w1, Inr own)"
    unfolding publish_write_def then_do_lift_Inr place by (auto simp: then_do_Inr step_runs(1) from_dir)
  then obtain known wk wo files wm u afters where kn: "map_do (\<lambda>(reg, f). then_do (local_before H (wr_written wr) dir reg) (\<lambda>b. give (reg, f, b))) bound w = Some (wk, Inr known)"
    and rm: "(if wr_written wr = Overwrite
       then then_do (look_res (\<lambda>w. list_files (w_trees w dir))) (do_all (\<lambda>(path, f). remove_file W dir path)) else give ()) wk
      = Some (wo, Inr u)"
    and fs: "list_files (w_trees wo from_dir) = Inr files" and mv: "do_all (move_file W from_dir dir) files wo = Some (wm, Inr ())"
    and rec: "map_do (local_record H W dir (h_now H)) known wm = Some (w1, Inr afters)"
    unfolding publish_local_def by (auto simp: then_do_Inr step_sides step_runs(1))
  have "keeps (\<lambda>w. w) (map_do (\<lambda>(reg, f). then_do (local_before H (wr_written wr) dir reg) (\<lambda>b. give (reg, f, b))) bound)"
    by (intro keeps_map_do keeps_case_prod keeps_then_do local_before_keeps keeps_basic)
  from keepsD [OF this kn] have wk: "wk = w" .
  have removed: "tree_in_ok (w_trees wo dir) \<and> (\<forall>d. d \<noteq> dir \<longrightarrow> w_trees wo d = w_trees w d)
     \<and> (\<forall>q g. file_in (w_trees wo dir) q g \<longleftrightarrow> file_in (w_trees w dir) q g \<and> \<not> (wr_written wr = Overwrite \<and> (q, g) \<in> set before))"
  proof (cases "wr_written wr = Overwrite")
    case True
    with rm wk old have "do_all (\<lambda>(path, f). remove_file W dir path) before w = Some (wo, Inr ())"
      by (auto simp: then_do_Inr step_sides)
    note gone = remove_files_run [OF this tree(1)]
    have "\<forall>(p, f) \<in> set before. p \<noteq> [] \<and> (\<forall>t. w_trees w dir = Some t \<longrightarrow> is_leaf t p)"
      using listed_files(1) [OF old tree(2,1)] by blast
    from gone [OF this] listed_files(2) [OF old tree(2,1)] True show ?thesis by auto
  next
    case False
    with rm wk have "wo = w" by (simp add: step_runs(1))
    with tree False show ?thesis by simp
  qed
  with apart fs new have files: "files = written" by simp
  from move_files_run [OF mv, of p f] removed have moved: "file_in (w_trees wm dir) p f \<longleftrightarrow>
     (case map_of (rev written) p of
        Some f' \<Rightarrow> f = f'
      | None \<Rightarrow> file_in (w_trees w dir) p f \<and> \<not> (wr_written wr = Overwrite \<and> (p, f) \<in> set before))"
    by (simp add: files split: option.split)
  from dropped obtain u' where drop: "drop_writing wr w1 = Some (w', Inr u')" ..
  have "w_trees w' dir = w_trees w1 dir"
    by (rule keepsD [OF drop_writing_keeps drop, where f = "\<lambda>w. w_trees w dir"])
      (use apart from_dir in \<open>auto simp: remove_dir_def intro!: keeps_change\<close>)
  also have "\<dots> = w_trees wm dir" using keepsD [OF keeps_map_do [OF local_record_trees] rec] by simp
  finally have "w_trees w' dir = w_trees wm dir" .
  with moved show ?thesis by simp
qed

end
