(* ===== verification/Lake_Example.thy ===== *)
theory Lake_Example
  imports Commit_Safety Commit_Ends Query_Example
begin

text \<open>
  A concrete catalog and Iceberg crate, and a table of one snapshot, at which the properties of schema changes
  and of commits are applied.
\<close>

section \<open>A catalog\<close>

definition ex_new_path :: string where
  "ex_new_path = ''/lake/orders/data/id/a.parquet''"

definition ex_new_manifest :: manifest_file where
  "ex_new_manifest = \<lparr>mf_path = ''m-new'', mf_is_data = True, mf_added_by = 2, mf_added_files = Some 1,
     mf_existing_files = Some 0, mf_added_rows = Some 2, mf_existing_rows = Some 0\<rparr>"

text \<open>This crate appends one file only, in one manifest.\<close>

definition ex_append_files ::
  "ice_table \<Rightarrow> bool \<Rightarrow> new_file list \<Rightarrow> (string, string) btmap \<Rightarrow> ice_table option \<Rightarrow> ice_error + ice_table" where
  "ex_append_files base dup files summary to =
     (case to of
        None \<Rightarrow> Inl (OtherIce ''no table'')
      | Some c \<Rightarrow>
          if it_uuid c = it_uuid base \<and> it_current c = it_current base \<and> map nf_path files = [ex_new_path]
            \<and> (\<forall>m \<in> set (current_manifests base). mf_path m \<noteq> ''m-new'')
          then Inr (c\<lparr>it_current := Some 2, it_snapshots := bt_insert 2 \<lparr>sn_parent = it_current c, sn_time_ms = 10,
            sn_operation = ''append'', sn_properties = summary,
            sn_manifests = ex_new_manifest # current_manifests base\<rparr> (it_snapshots c)\<rparr>)
          else Inl (CommitConflicts ''moved''))"

definition ex_lake_api :: lake_api where
  "ex_lake_api = \<lparr>la_create = (\<lambda>k cols. Inr ex_table), la_type = (\<lambda>t. Inr (IPrimitive (if t = TBoolean then ''boolean'' else ''long''))),
     la_arrow = (\<lambda>t. Inr (if t = IPrimitive ''boolean'' then TBoolean else TInt64)), la_debug = (\<lambda>t. ''type''),
     la_add_columns = (\<lambda>t cs to. case to of None \<Rightarrow> Inl (OtherIce ''no table'')
       | Some c \<Rightarrow> Inr (c\<lparr>it_schema := it_schema c @ map (\<lambda>(n, ty). IceField 1 n False ty) cs\<rparr>)),
     la_append = ex_append_files, la_missing = (\<lambda>k. k), la_list_error = (\<lambda>t s. None),
     la_manifest = (\<lambda>p. Inr (if p = ''m-new''
       then [\<lparr>me_alive = True, me_is_data = True, me_path = ex_new_path, me_records = 2, me_bytes = 3\<rparr>] else [])),
     la_base_error = (\<lambda>t. None), la_delete_error = (\<lambda>t. None), la_no_field_id = (\<lambda>f. None), la_null = (\<lambda>t. None),
     la_plan_error = (\<lambda>p. None), la_random = (\<lambda>n. 0), la_elapsed = (\<lambda>n. 0)\<rparr>"

lemma ex_lake_api_simps:
  "la_type ex_lake_api = (\<lambda>t. Inr (IPrimitive (if t = TBoolean then ''boolean'' else ''long'')))"
  "la_arrow ex_lake_api = (\<lambda>t. Inr (if t = IPrimitive ''boolean'' then TBoolean else TInt64))"
  "la_add_columns ex_lake_api t cs (Some c) = Inr (c\<lparr>it_schema := it_schema c @ map (\<lambda>(n, ty). IceField 1 n False ty) cs\<rparr>)"
  "la_append ex_lake_api = ex_append_files" "la_base_error ex_lake_api t = None" "la_delete_error ex_lake_api t = None"
  "la_no_field_id ex_lake_api f = None" "la_null ex_lake_api ty = None" "la_plan_error ex_lake_api p = None"
  "la_manifest ex_lake_api ''m-new'' = Inr [\<lparr>me_alive = True, me_is_data = True, me_path = ex_new_path, me_records = 2, me_bytes = 3\<rparr>]"
  "q \<noteq> ''m-new'' \<Longrightarrow> la_manifest ex_lake_api q = Inr []"
  by (simp_all add: ex_lake_api_def)

lemma ex_live:
  "live ex_lake_api (ex_new_manifest # ms) = add_mset ex_new_path (live ex_lake_api ms)"
  by (simp add: live_def ex_new_manifest_def ex_lake_api_simps alive_data_def)

lemma ex_append_law: "append_law ex_lake_api"
  unfolding append_law_def ex_lake_api_simps
proof (intro allI impI)
  fix base dup files summary to t assume run: "ex_append_files base dup files summary to = Inr t"
  let ?sn = "\<lambda>c. \<lparr>sn_parent = it_current c, sn_time_ms = 10, sn_operation = ''append'', sn_properties = summary,
            sn_manifests = ex_new_manifest # current_manifests base\<rparr>"
  from run obtain c where c: "to = Some c" "it_uuid c = it_uuid base" "it_current c = it_current base" "map nf_path files = [ex_new_path]"
    and t: "t = c\<lparr>it_current := Some 2, it_snapshots := bt_insert 2 (?sn c) (it_snapshots c)\<rparr>"
    by (auto simp: ex_append_files_def split: option.splits if_splits)
  have "mset (map nf_path files) = {#ex_new_path#}" by (simp add: c(4))
  then have "live ex_lake_api (sn_manifests (?sn c)) = mset (map nf_path files) + live ex_lake_api (current_manifests base)"
    by (simp add: ex_live)
  then show "\<exists>c s sn. to = Some c \<and> it_uuid c = it_uuid base \<and> it_current c = it_current base
        \<and> it_current t = Some s \<and> it_snapshots t = bt_insert s sn (it_snapshots c) \<and> sn_parent sn = it_current c
        \<and> (\<forall>k v. map_of summary k = Some v \<longrightarrow> map_of (sn_properties sn) k = Some v)
        \<and> live ex_lake_api (sn_manifests sn) = mset (map nf_path files) + live ex_lake_api (current_manifests base)"
    using c t by (intro exI [of _ c] exI [of _ 2] exI [of _ "?sn c"]) simp
qed

section \<open>A table\<close>

abbreviation ex_data_file :: data_file where
  "ex_data_file \<equiv> \<lparr>df_footer = Inr \<lparr>ft_rows = 2, ft_key_values = None, ft_columns = [], ft_row_groups = []\<rparr>, df_bytes = ''abc''\<rparr>"

definition ex_busy_world :: "(ex_json, ex_cache) world" where
  "ex_busy_world = ex_lake_world\<lparr>w_trees := [''/lake/orders/data/id'' \<mapsto> Dir [(''a.parquet'', File ex_data_file)]]\<rparr>"

definition ex_iceberg_write :: "write_kind \<Rightarrow> iceberg_write" where
  "ex_iceberg_write kind = \<lparr>iw_id = ''id'', iw_table = ''lake'', iw_base = Some 1, iw_schema = [], iw_prefix = ''/lake/orders/data/id'',
     iw_dir = ''/lake/orders/data/id'', iw_staged = False, iw_kind = kind\<rparr>"

lemma ex_lake_ok: "lake_ok (\<lambda>_. ex_snapshot) ''lake'' ex_busy_world"
  by (simp add: lake_ok_def ex_busy_world_def ex_lake_world_def ex_world_def sound_def sound_table_def ex_table_def ex_snapshot_def)

lemma ex_busy:
  "others ex_busy_world = Some (ex_busy_world, Inr ())" "w_catalog ex_busy_world k = Inr (Some ex_table)"
  "list_files (w_trees ex_busy_world ''/lake/orders/data/id'') = Inr [([''a.parquet''], ex_data_file)]"
  "load_table k ex_busy_world = Some (ex_busy_world, Inr (Some ex_table))"
proof -
  show o: "others ex_busy_world = Some (ex_busy_world, Inr ())" and c: "w_catalog ex_busy_world k = Inr (Some ex_table)"
    by (simp_all add: others_def change_def ex_busy_world_def ex_lake_world_def ex_world_def)
  have "extension ''a.parquet'' = Some ''parquet''" by code_simp
  then show "list_files (w_trees ex_busy_world ''/lake/orders/data/id'') = Inr [([''a.parquet''], ex_data_file)]"
    by (simp add: ex_busy_world_def list_files_def)
  show "load_table k ex_busy_world = Some (ex_busy_world, Inr (Some ex_table))"
    by (simp add: load_table_def then_do_def o look_res_def c)
qed

section \<open>The properties at it\<close>

abbreviation ex_new_files :: "new_file list" where
  "ex_new_files \<equiv> [\<lparr>nf_path = ex_new_path, nf_spec = 0, nf_records = 2, nf_bytes = 3\<rparr>]"

lemma ex_write_simps:
  "iw_table (ex_iceberg_write kind) = ''lake''" "iw_id (ex_iceberg_write kind) = ''id''" "iw_base (ex_iceberg_write kind) = Some 1"
  "iw_dir (ex_iceberg_write kind) = ''/lake/orders/data/id''" "\<not> iw_staged (ex_iceberg_write kind)"
  "iw_kind (ex_iceberg_write kind) = kind" "iw_prefix (ex_iceberg_write kind) = ''/lake/orders/data/id''"
  by (simp_all add: ex_iceberg_write_def)

lemma ex_table_simps:
  "it_current ex_table = Some 1" "it_format ex_table = 2" "it_spec ex_table = 0" "it_uuid ex_table = ''u''"
  "it_snapshots ex_table = [(1, ex_snapshot)]"
  by (simp_all add: ex_table_def)

lemma ex_commit_overwrite:
  obtains t' sn where "commit_overwrite ex_lake_api (ex_iceberg_write KindOverwrite) ex_table ex_new_files sm ex_busy_world
      = Some (ex_busy_world\<lparr>w_catalog := (w_catalog ex_busy_world)(''lake'' := Inr (Some t'))\<rparr>, Inr t')"
    and "it_current t' = Some 2" and "map_of (it_snapshots t') 2 = Some sn" and "sn_parent sn = Some 1"
proof -
  let ?A = ex_lake_api and ?iw = "ex_iceberg_write KindOverwrite"
  obtain base where listed: "listing ''lake'' ex_table 1 [] no_totals = Inr base" and base: "it_uuid base = ''u''" "it_current base = Some 1"
    "current_manifests base = []"
    by (simp add: listing_def ex_table_simps current_manifests_def)
  obtain t' sn where ap: "la_append ?A base False ex_new_files sm (Some ex_table) = Inr t'" and t': "it_current t' = Some 2"
    "map_of (it_snapshots t') 2 = Some sn" "sn_parent sn = Some 1"
    by (simp add: ex_lake_api_simps ex_append_files_def base ex_table_simps)
  let ?w = "ex_busy_world\<lparr>w_catalog := (w_catalog ex_busy_world)(''lake'' := Inr (Some t'))\<rparr>"
  have pin: "pinned_commit ?A ''lake'' ''overwrite'' (Some 1) base False ex_new_files sm ex_busy_world = Some (?w, Inr (Inr t'))"
    by (simp add: pinned_commit_def then_do_def ex_busy(1) look_def pinned_load_def ex_busy(2) ex_table_simps base commit_to_def
        commit_now_def ap)
  have "commit_overwrite ?A ?iw ex_table ex_new_files sm ex_busy_world = Some (?w, Inr t')"
    by (simp add: commit_overwrite_def Let_def ex_write_simps ex_table_simps ex_lake_api_simps listed then_delete_run)
      (simp add: then_do_def pin give_def)
  then show thesis using t' by (rule that)
qed

lemma ex_overwrites:
  obtains w' t sc where "ice_commit ex_lake_host ex_lake_api (ex_iceberg_write KindOverwrite) ex_contract [] ex_busy_world = Some (w', Inr (t, sc))"
    and "sc = \<lparr>sc_snapshot = 2, sc_parent = Some 1\<rparr>"
proof -
  let ?A = ex_lake_api and ?iw = "ex_iceberg_write KindOverwrite"
  have path: "written_path ?iw [''a.parquet''] = ex_new_path"
    by (simp add: written_path_def ex_write_simps relative_path_def ex_new_path_def)
  have df: "data_files ?A ?iw ex_table ex_busy_world = Inr ex_new_files"
    by (simp add: data_files_def ex_write_simps ex_busy(3) data_file_of_def ex_lake_api_simps path ex_table_simps Let_def)
  obtain w' t' sn where ov: "commit_overwrite ?A ?iw ex_table ex_new_files (write_summary ?iw ex_contract) ex_busy_world = Some (w', Inr t')"
    and t': "it_current t' = Some 2" "map_of (it_snapshots t') 2 = Some sn" "sn_parent sn = Some 1"
    by (rule ex_commit_overwrite)
  have "ice_commit ex_lake_host ?A ?iw ex_contract [] ex_busy_world = Some (w', Inr (t', \<lparr>sc_snapshot = 2, sc_parent = Some 1\<rparr>))"
    unfolding ice_commit_def Let_def ex_write_simps
    by (simp add: then_do_def ex_busy(4) lift_def ok_or_def give_def look_res_def df ex_write_simps commit_kind_def ov
        committed_snapshot_def t')
  then show thesis by (rule that) simp
qed

theorem commit_refines_witness:
  "\<exists>w' t sc sn. ice_commit ex_lake_host ex_lake_api (ex_iceberg_write KindOverwrite) ex_contract [] ex_busy_world = Some (w', Inr (t, sc))
     \<and> map_of (it_snapshots t) 2 = Some sn \<and> live ex_lake_api (sn_manifests sn) = {#ex_new_path#}"
proof -
  obtain w' t sc where run: "ice_commit ex_lake_host ex_lake_api (ex_iceberg_write KindOverwrite) ex_contract [] ex_busy_world = Some (w', Inr (t, sc))"
    and sc: "sc = \<lparr>sc_snapshot = 2, sc_parent = Some 1\<rparr>" by (rule ex_overwrites)
  have ok: "lake_ok (\<lambda>_. ex_snapshot) (iw_table (ex_iceberg_write KindOverwrite)) ex_busy_world"
    using ex_lake_ok by (simp add: ex_iceberg_write_def)
  from commit_refines [OF ex_append_law ok run] run sc ex_busy(3) show ?thesis
    by (auto simp: commit_spec_def ex_iceberg_write_def written_path_def relative_path_def ex_new_path_def)
qed

theorem landed_overwrite_reported_failed_witness:
  "\<exists>w' e t. commit_overwrite (ex_lake_api\<lparr>la_delete_error := \<lambda>_. Some (OtherIce ''no'')\<rparr>) (ex_iceberg_write KindOverwrite) ex_table
       ex_new_files [] ex_busy_world = Some (w', Inl e)
     \<and> w_catalog w' ''lake'' = Inr (Some t) \<and> it_current t = Some 2"
proof -
  obtain t' where ov: "commit_overwrite ex_lake_api (ex_iceberg_write KindOverwrite) ex_table ex_new_files [] ex_busy_world
      = Some (ex_busy_world\<lparr>w_catalog := (w_catalog ex_busy_world)(''lake'' := Inr (Some t'))\<rparr>, Inr t')"
    and t': "it_current t' = Some 2" by (rule ex_commit_overwrite)
  from landed_overwrite_reported_failed [OF ov ex_write_simps(3)] t' show ?thesis by fastforce
qed

theorem since_walk_ends_witness: "since_walk ex_table 1 (Some 1) [] = Some (Some [])"
proof -
  have "aged (\<lambda>_. 0) ex_table" by (simp add: aged_def ex_table_def)
  from since_walk_ends [OF this, of 1 1 "[]"] show ?thesis by (simp add: since_walk_steps)
qed

text \<open>The table gains the contract's columns.\<close>

abbreviation ex_ready_table :: ice_table where
  "ex_ready_table \<equiv> ex_table\<lparr>it_schema := [IceField 1 ''x'' False (IPrimitive ''long''),
     IceField 1 ''fa'' False (IPrimitive ''boolean''), IceField 1 ''fb'' False (IPrimitive ''boolean'')]\<rparr>"

lemma ex_columns:
  "table_schema ex_contract = [\<lparr>field_name = ''x'', field_type = TInt64, nullable = True\<rparr>,
     \<lparr>field_name = ''fa'', field_type = TBoolean, nullable = True\<rparr>, \<lparr>field_name = ''fb'', field_type = TBoolean, nullable = True\<rparr>]"
  by (simp add: table_schema_def ex_contract_simps)

lemma ex_change:
  "schema_change ex_lake_api k ex_table (table_schema ex_contract) r
     = Inr [(''x'', IPrimitive ''long''), (''fa'', IPrimitive ''boolean''), (''fb'', IPrimitive ''boolean'')]"
  "schema_change ex_lake_api k ex_ready_table (table_schema ex_contract) r = Inr []"
  by (simp_all add: schema_change_def arrow_types_def wanted_types_def ex_columns ex_lake_api_simps) (simp_all add: ex_table_def)

lemma ex_evolves:
  "evolve ex_lake_api ''lake'' ex_table (table_schema ex_contract) ex_busy_world
     = Some (ex_busy_world\<lparr>w_catalog := (w_catalog ex_busy_world)(''lake'' := Inr (Some ex_ready_table))\<rparr>, Inr ex_ready_table)"
proof -
  have retry: "it_retry ex_table = Inr \<lparr>cr_retries = 4, cr_min_wait = 0, cr_max_wait = 0, cr_total = 0\<rparr>" and schema: "it_schema ex_table = []"
    by (simp_all add: ex_table_def)
  have com: "commit_to ''lake'' (la_add_columns ex_lake_api ex_table
        [(''x'', IPrimitive ''long''), (''fa'', IPrimitive ''boolean''), (''fb'', IPrimitive ''boolean'')]) ex_busy_world
      = Some (ex_busy_world\<lparr>w_catalog := (w_catalog ex_busy_world)(''lake'' := Inr (Some ex_ready_table))\<rparr>, Inr (Inr ex_ready_table))"
    by (simp add: commit_to_def then_do_def ex_busy commit_now_def ex_lake_api_simps schema)
  have "evolve_turn ex_lake_api ''lake'' (table_schema ex_contract) p n again ex_table None ex_busy_world
      = Some (ex_busy_world\<lparr>w_catalog := (w_catalog ex_busy_world)(''lake'' := Inr (Some ex_ready_table))\<rparr>, Inr ex_ready_table)" for p n again
    by (simp add: evolve_turn_def then_do_def lift_def ex_change com give_def)
  then show ?thesis
    by (simp add: evolve_def retry then_do_def lift_def numeral_eq_Suc)
qed

theorem evolved_has_columns_witness: "has_columns ex_ready_table ex_lake_api (table_schema ex_contract)"
  using evolved_has_columns [OF ex_evolves] .

lemma ex_begins:
  obtains w' iw where "ice_begin_write ex_lake_host ex_lake_api ''lake'' ''id'' ex_contract KindAppend ''/tmp'' ex_busy_world = Some (w', Inr iw)"
    and "map (if_name \<circ> fst) (iw_schema iw) = [''x'', ''fa'', ''fb'']"
proof -
  let ?w = "ex_busy_world\<lparr>w_catalog := (w_catalog ex_busy_world)(''lake'' := Inr (Some ex_ready_table))\<rparr>"
  have req: "unwritten_required ''lake'' ex_contract ex_ready_table = Inr ()"
    by (simp add: unwritten_required_def)
  have prefix: "trim_slashes ''/lake/orders/'' @ ''/data/'' @ ''id'' = ''/lake/orders/data/id''"
    "local_dir ''/lake/orders/data/id'' = Inr (Some ''/lake/orders/data/id'')" by code_simp+
  have loc: "it_location ex_ready_table = ''/lake/orders/''" by (simp add: ex_table_def)
  have cols: "arrow_types ex_lake_api (it_schema ex_ready_table) = Inr [(IceField 1 ''x'' False (IPrimitive ''long''), TInt64),
      (IceField 1 ''fa'' False (IPrimitive ''boolean''), TBoolean), (IceField 1 ''fb'' False (IPrimitive ''boolean''), TBoolean)]"
    by (simp add: arrow_types_def ex_lake_api_simps)
  have dir: "\<exists>w'. create_dir ex_lake_host d ?w = Some (w', Inr ())" for d
    by (simp add: create_dir_def ex_host_simps change_def)
  then obtain w' where dir: "create_dir ex_lake_host ''/lake/orders/data/id'' ?w = Some (w', Inr ())" by blast
  have "\<exists>iw. ice_begin_write ex_lake_host ex_lake_api ''lake'' ''id'' ex_contract KindAppend ''/tmp'' ex_busy_world = Some (w', Inr iw)
      \<and> map (if_name \<circ> fst) (iw_schema iw) = [''x'', ''fa'', ''fb'']"
    unfolding ice_begin_write_def Let_def
    by (simp add: then_do_def ex_busy(4) ex_evolves lift_def req loc prefix [simplified] dir cols [simplified] give_def)
  then show thesis by (elim exE conjE) (rule that)
qed

theorem begun_write_projects_witness:
  "\<exists>w' iw ps. ice_begin_write ex_lake_host ex_lake_api ''lake'' ''id'' ex_contract KindAppend ''/tmp'' ex_busy_world = Some (w', Inr iw)
     \<and> project_columns ex_lake_api iw [''x'', ''fa'', ''fb''] = Inr ps \<and> map (if_name \<circ> snd) ps = [''x'', ''fa'', ''fb'']"
proof -
  obtain w' iw where iw: "ice_begin_write ex_lake_host ex_lake_api ''lake'' ''id'' ex_contract KindAppend ''/tmp'' ex_busy_world = Some (w', Inr iw)"
    and names: "map (if_name \<circ> fst) (iw_schema iw) = [''x'', ''fa'', ''fb'']" by (rule ex_begins)
  from begun_write_projects [OF iw, of "[''x'', ''fa'', ''fb'']"] obtain ps where
    ps: "project_columns ex_lake_api iw [''x'', ''fa'', ''fb''] = Inr ps" "map snd ps = map fst (iw_schema iw)"
    by (auto simp: ex_columns ex_lake_api_simps)
  from ps(2) have "map if_name (map snd ps) = map if_name (map fst (iw_schema iw))" by simp
  with names have "map (if_name \<circ> snd) ps = [''x'', ''fa'', ''fb'']" by simp
  with iw ps(1) show ?thesis by (intro exI conjI)
qed

end
