(* ===== verification/Write_Example.thy ===== *)
theory Write_Example
  imports Lake_Example Write_Files
begin

text \<open>
  A concrete write to a directory, under a contract with two row rules, at which the properties of writes are
  applied: one that lands a file of two rows, one that sets rows aside, and one that is refused.
\<close>

section \<open>An engine that writes\<close>

definition ex_counts :: "int \<Rightarrow> ex_json verdict" where
  "ex_counts broke = \<lparr>v_row_count = 2, v_failures = [(''a'', 0), (''b'', broke)], v_valid = True, v_breached = [],
     v_guarantees = [], v_stats = []\<rparr>"

definition ex_write_api :: "int \<Rightarrow> ex_json write_api" where
  "ex_write_api broke = \<lparr>wa_lake = ex_lake_api, wa_staging_root = ''/tmp'', wa_canonicalize = Inr,
     wa_conform = (\<lambda>s b. Inr b), wa_mem_table = (\<lambda>s bs. None), wa_session_error = (\<lambda>s. None),
     wa_execute = (\<lambda>s t p. Inr (batch_schema ex_batch, [ex_batch])), wa_write = (\<lambda>s t p d o1. ([([''a.parquet''], ex_data_file)], None)),
     wa_url_error = (\<lambda>d. None), wa_validate = (\<lambda>c s i t. Inr (ex_counts broke)), wa_provider_error = (\<lambda>c i. None),
     wa_remove_error = (\<lambda>p. None), wa_rename_error = (\<lambda>p. None), wa_object_error = (\<lambda>p. None),
     wa_stored = (\<lambda>t s. Inr ([], [])), wa_counts = (\<lambda>fs. [])\<rparr>"

lemma ex_write_api_simps:
  "wa_lake (ex_write_api broke) = ex_lake_api" "wa_canonicalize (ex_write_api broke) = Inr" "wa_conform (ex_write_api broke) s b = Inr b"
  "wa_mem_table (ex_write_api broke) s bs = None" "wa_execute (ex_write_api broke) ss tb lp = Inr (batch_schema ex_batch, [ex_batch])"
  "wa_write (ex_write_api broke) ss tb lp d op = ([([''a.parquet''], ex_data_file)], None)" "wa_url_error (ex_write_api broke) d = None"
  "wa_validate (ex_write_api broke) c sso i tr = Inr (ex_counts broke)" "wa_provider_error (ex_write_api broke) cc i = None"
  "wa_remove_error (ex_write_api broke) p = None" "wa_rename_error (ex_write_api broke) p = None"
  by (simp_all add: ex_write_api_def)

definition ex_writing :: "on_write_violation \<Rightarrow> writing" where
  "ex_writing mode = \<lparr>wr_reg = ex_registered, wr_location = Local ''orders'', wr_written = Append, wr_on_violation = mode,
     wr_rows = 0, wr_rows_excluded = 0, wr_excluded = [], wr_bytes = 0, wr_memory = None, wr_staged = Some ''/stage'',
     wr_iceberg = None, wr_removed = []\<rparr>"

lemma ex_writing_simps:
  "wr_reg (ex_writing mode) = ex_registered" "wr_location (ex_writing mode) = Local ''orders''" "wr_written (ex_writing mode) = Append"
  "wr_on_violation (ex_writing mode) = mode" "wr_memory (ex_writing mode) = None" "wr_staged (ex_writing mode) = Some ''/stage''"
  "wr_iceberg (ex_writing mode) = None" "wr_removed (ex_writing mode) = []" "write_dir (ex_writing mode) = Inr ''/stage''"
  "validation_session W (ex_writing mode) = Inr None" "part_session W (ex_writing mode) = Inr (free_session None False False)"
  by (simp_all add: ex_writing_def write_dir_def ok_or_def validation_session_def part_session_def)

text \<open>The facts of its file, and what is known of the data after it.\<close>

definition ex_entries :: "file_entry list" where
  "ex_entries = [entry_from_footer ''a.parquet'' 3 \<lparr>ft_rows = 2, ft_key_values = None, ft_columns = [], ft_row_groups = []\<rparr>
     [''fa'', ''fb''] ''abc'']"

definition ex_own :: "ex_json manifest" where
  "ex_own = \<lparr>m_contract = ''t/orders'', m_contract_hash = ''h1'', m_compilation_hash = ''k1'', m_written_at = 9, m_row_count = 2,
     m_failures = [(''a'', 0), (''b'', 0)], m_valid = True, m_breached = [], m_guarantees = [], m_stats = [],
     m_data_hash = data_hash (\<lambda>s. s) ex_entries, m_row_schema = row_schema ex_contract, m_files = ex_entries, m_snapshot = None\<rparr>"

definition ex_written :: "ex_json manifest" where
  "ex_written = finished (\<lambda>s. s) ex_compilation None (ex_own\<lparr>m_written_at := 9, m_guarantees := []\<rparr>)"

definition ex_write_codec :: "(unit, ex_json manifest) facts_codec" where
  "ex_write_codec = \<lparr>to_vec = (\<lambda>n a. if a = ex_written \<and> n = 3 then Inr ''j'' else Inl ''other''), from_slice = (\<lambda>b. Inr ()),
     is_object = (\<lambda>v. True), format_u64 = (\<lambda>v. Some 3), from_value = (\<lambda>v. Inr ex_written)\<rparr>"

definition ex_writer :: "(unit, unit, ex_json, ex_cache) host" where
  "ex_writer = (ex_host_at Map.empty (Some (Local ''orders'')))\<lparr>h_facts := (ex_facts_env ex_enc)\<lparr>fe_facts := ex_write_codec\<rparr>\<rparr>"

lemma ex_writer_simps:
  "fe_facts (h_facts ex_writer) = ex_write_codec" "fe_sha (h_facts ex_writer) = (\<lambda>s. s)" "fe_stats (h_facts ex_writer) = ex_api"
  "h_now ex_writer = 9" "h_write_error ex_writer p = None" "h_runtime ex_writer = ex_runtime" "h_frozen ex_writer = []"
  "h_location ex_writer = (\<lambda>c. Some (Local ''orders''))" "h_tables ex_writer = Map.empty"
  by (simp_all add: ex_writer_def ex_host_at_def ex_facts_env_def)

lemma ex_write_laws: "codec_laws (fe_facts (h_facts ex_writer))"
  by (auto simp: codec_laws_def ex_writer_simps ex_write_codec_def split: if_splits)

definition ex_write_world :: "(ex_json, ex_cache) world" where
  "ex_write_world = ex_world\<lparr>w_trees := [''/stage'' \<mapsto> Dir [(''a.parquet'', File ex_data_file)]]\<rparr>"

lemma ex_write_files:
  "list_files (w_trees ex_write_world ''/stage'') = Inr [([''a.parquet''], ex_data_file)]"
  "w_trees ex_write_world ''orders'' = None" "w_fs ex_write_world = Map.empty"
proof -
  have "extension ''a.parquet'' = Some ''parquet''" by code_simp
  then show "list_files (w_trees ex_write_world ''/stage'') = Inr [([''a.parquet''], ex_data_file)]"
    by (simp add: ex_write_world_def list_files_def)
qed (simp_all add: ex_write_world_def ex_world_def)

section \<open>A write finished\<close>

lemma ex_bound_alone: "bound_to_data ex_writer (ex_write_api broke) ex_contents (ex_writing mode) key = [ex_registered]"
proof -
  have "mem_list ex_contents = [ex_registered]"
    by (simp add: mem_list_def ex_contents_def mem_put_def newest_def empty_contents_def bt_update_def bt_get_or_def
        List.map_filter_simps)
  then show ?thesis by (simp add: bound_to_data_def ex_writing_simps)
qed

lemma ex_written_facts:
  "written_facts ex_writer (ex_write_api 0) (ex_writing mode) 9 ex_registered ex_write_world
     = Some (ex_write_world, Inr (of_rows ex_compilation (ex_counts 0), \<lparr>wf_written = Append, wf_facts = ex_own, wf_removed = []\<rparr>))"
proof -
  have c: "r_compilation ex_registered = ex_compilation" "contract ex_compilation = ex_contract"
    by (simp_all add: ex_registered_def ex_compilation_def)
  have flags: "flag_columns ex_contract = [''fa'', ''fb'']" by (simp add: flag_columns_def ex_contract_simps)
  have entries: "written_entries ex_writer (ex_writing mode) ''/stage'' (flag_columns ex_contract) ex_write_world = Inr ex_entries"
    by (simp add: written_entries_def ex_write_files file_entry_of_def ex_writer_simps ex_writing_simps flags relative_path_def ex_entries_def
        eval_nat_numeral)
  have own: "written_manifest ex_writer ex_contract (of_rows ex_compilation (ex_counts 0)) ex_entries 9 = ex_own"
    by (simp add: written_manifest_def ex_writer_simps of_rows_def Let_def ex_counts_def ex_own_def failed_asserts_def ex_contract_simps
        bt_get_or_def)
  show ?thesis
    unfolding written_facts_def Let_def c
    by (simp add: then_do_def lift_def ex_writing_simps ex_write_api_simps io_fails_def give_def look_res_def rt_simps entries own)
qed

lemma ex_after: "after_facts ex_writer ex_registered (Some None) \<lparr>wf_written = Append, wf_facts = ex_own, wf_removed = []\<rparr> 9 = Inr (Some ex_written)"
  by (simp add: after_facts_def after_write_def known_before_def same_compilation_def ex_own_def ex_writer_simps ex_registered_def
      ex_contract_simps Let_def ex_written_def)

lemma ex_written_name: "m_contract ex_written = ''t/orders''"
  by (simp add: ex_written_def name_kept ex_own_def)

text \<open>The directory gains the file, and the contract's manifest.\<close>

definition ex_published_world :: "(ex_json, ex_cache) world" where
  "ex_published_world = ex_write_world\<lparr>w_fs := [manifest_path ''orders'' ''t/orders'' \<mapsto> Bytes ''j''],
     w_trees := [''orders'' \<mapsto> Dir [(''a.parquet'', File ex_data_file)]]\<rparr>"

lemma ex_finishes:
  obtains report where "finish_write ex_writer (ex_write_api 0) ex_contents (ex_writing WWarn) ex_write_world
      = Some (ex_published_world, Inr report)"
proof -
  let ?H = ex_writer and ?W = "ex_write_api 0" and ?wr = "ex_writing WWarn" and ?f = "\<lparr>wf_written = Append, wf_facts = ex_own, wf_removed = []\<rparr>"
  have facts: "all_facts ?H ?W ?wr 9 [] ex_write_world = Some (ex_write_world, Inr (of_rows ex_compilation (ex_counts 0), [(ex_registered, ?f)]))"
    by (simp add: all_facts_def Let_def then_do_def ex_writing_simps ex_written_facts give_def)
  have before: "local_before ?H Append ''orders'' ex_registered ex_write_world = Some (ex_write_world, Inr (Some None))"
    by (simp add: local_before_def then_do_def look_res_def load_manifest_def Let_def ex_write_files list_files_def give_def)
  let ?moved = "ex_write_world\<lparr>w_trees := (w_trees ex_write_world)(''/stage'' := Some (Dir []), ''orders'' := Some (Dir [(''a.parquet'', File ex_data_file)]))\<rparr>"
  have move: "move_file ?W ''/stage'' ''orders'' ([''a.parquet''], ex_data_file) ex_write_world = Some (?moved, Inr ())"
    by (simp add: move_file_def ex_write_api_simps io_fails_def then_do_def lift_def look_res_def ex_write_files change_def give_def)
      (simp add: ex_write_world_def)
  let ?done = "?moved\<lparr>w_fs := (w_fs ?moved)(manifest_path ''orders'' ''t/orders'' \<mapsto> Bytes ''j'')\<rparr>"
  have saved: "local_record ?H ?W ''orders'' 9 (ex_registered, ?f, Some None) ?moved = Some (?done, Inr (ex_registered, Some ex_written))"
    by (simp add: local_record_def then_do_def lift_def ex_after on_fs_def save_local_manifest_def save_manifest_def ex_writer_simps
        encode_def facts_format_def ex_write_codec_def ex_written_name give_def)
  have pub: "publish_local ?H ?W ?wr ''/stage'' ''orders'' [(ex_registered, ?f)] 9 ex_write_world
      = Some (?done, Inr (own_after ?wr [(ex_registered, Some ex_written)]))"
    by (simp add: publish_local_def then_do_def ex_writing_simps before give_def look_res_def ex_write_files move saved)
  obtain own where "publish_write ?H ?W ?wr [(ex_registered, ?f)] 9 ex_write_world = Some (?done, Inr (None, own))"
    by (simp add: publish_write_def then_do_def lift_def ex_writing_simps pub give_def)
  then obtain report where inner: "finish_inner ?H ?W ex_contents ?wr ex_write_world = Some (?done, Inr report)"
    by (simp add: finish_inner_def then_do_def lift_def ex_writing_simps location_key_def ex_write_api_simps ex_writer_simps
        ex_bound_alone facts give_def)
  have "?done\<lparr>w_trees := (w_trees ?done)(''/stage'' := None)\<rparr> = ex_published_world"
    by (simp add: ex_published_world_def ex_write_world_def ex_world_def fun_eq_iff)
  then have "finish_write ?H ?W ex_contents ?wr ex_write_world = Some (ex_published_world, Inr report)"
    by (simp add: finish_write_def finally_do_def inner drop_writing_def ex_writing_simps remove_dir_def change_def)
  then show thesis by (rule that)
qed

theorem published_facts_are_known_witness:
  "load_manifest ex_write_codec (w_fs ex_published_world) ''orders'' ''t/orders'' = Inr (Some ex_written)"
proof -
  obtain report where run: "finish_write ex_writer (ex_write_api 0) ex_contents (ex_writing WWarn) ex_write_world
      = Some (ex_published_world, Inr report)" by (rule ex_finishes)
  have place: "location_key (wa_canonicalize (ex_write_api 0)) (wr_location (ex_writing WWarn)) = Inr ''orders''"
    by (simp add: location_key_def ex_writing_simps ex_write_api_simps)
  have before: "local_before ex_writer Append ''orders'' ex_registered ex_write_world = Some (ex_write_world, Inr (Some None))"
    by (simp add: local_before_def then_do_def look_res_def load_manifest_def Let_def ex_write_files list_files_def give_def)
  from published_facts_are_known [OF run ex_writing_simps(2) place _ ex_write_laws, unfolded ex_bound_alone]
  obtain v f b where "written_facts ex_writer (ex_write_api 0) (ex_writing WWarn) 9 ex_registered ex_write_world = Some (ex_write_world, Inr (v, f))"
    and "local_before ex_writer Append ''orders'' ex_registered ex_write_world = Some (ex_write_world, Inr b)"
    and "load_manifest ex_write_codec (w_fs ex_published_world) ''orders'' ''t/orders'' = after_facts ex_writer ex_registered b f 9"
    by (auto simp: ex_writing_simps ex_writer_simps ex_reg_simps)
  then show ?thesis by (simp add: ex_written_facts before) (auto simp: ex_after)
qed

theorem finished_writes_publish_files_witness:
  "Binding.file_at (Dir [(''a.parquet'', File ex_data_file)]) [''a.parquet''] ex_data_file \<and> w_trees ex_published_world ''/stage'' = None
   \<and> file_in (w_trees ex_published_world ''orders'') [''a.parquet''] ex_data_file"
proof -
  obtain report where run: "finish_write ex_writer (ex_write_api 0) ex_contents (ex_writing WWarn) ex_write_world
      = Some (ex_published_world, Inr report)" by (rule ex_finishes)
  have none: "list_files (w_trees ex_write_world ''orders'') = Inr []" by (simp add: ex_write_files list_files_def)
  from finished_writes_publish_files [OF run ex_writing_simps(2,9) _ ex_write_files(1) none, of "[''a.parquet'']" ex_data_file]
  have "file_in (w_trees ex_published_world ''orders'') [''a.parquet''] ex_data_file" by (simp add: ex_write_files)
  then show ?thesis by (simp add: ex_published_world_def)
qed

section \<open>Rows set aside, and a write refused\<close>

lemma ex_compiled: "r_compilation ex_registered = ex_compilation" "contract ex_compilation = ex_contract"
  by (simp_all add: ex_registered_def ex_compilation_def)

lemma ex_incoming:
  "incoming ex_writer (ex_write_api broke) ex_compilation bs
     = Inr \<lparr>tw_plan = LOther (KOther ''Projection'') (written_columns ex_compilation) [LScan ''incoming''],
         tw_table = (''incoming'', row_schema ex_contract, bs), tw_rows = sum_list (map num_rows bs),
         tw_bytes = sum_list (map num_rows bs), tw_excluded = None\<rparr>"
  by (simp add: incoming_def Let_def ex_compiled ex_write_api_simps df_fails_def ex_writer_simps ex_rt_simps projection_of_def
      ex_lake_api_simps df_simps) (simp add: ex_writer_def ex_host_at_def)

lemma ex_rules: "enforced_flags (write_flags ex_compilation) = ex_flags"
  by (simp add: enforced_flags_def ex_flags_def ex_contract_simps enforced_def)

lemma ex_writes_part:
  assumes "tw_table tw = tbl" and "write_dir wr = Inr dir" and "wr_iceberg wr = None" and "wr_memory wr = None"
    and "r_compilation (wr_reg wr) = ex_compilation"
  shows "\<exists>w' wr' p. write_rows ex_writer (ex_write_api broke) wr ss tw x = Some ((w', wr'), Inr p)"
proof -
  obtain w y where x: "x = (w, y)" by (cases x)
  have "write_options_of ex_compilation None n = Inr \<lparr>wo_partition_by = [], wo_sort_by = [],
      wo_key_values = [(CONTRACT_HASH_KEY, ''h1''), (CONTRACT_NAME_KEY, ''t/orders'')],
      wo_statistics = ''page'', wo_parallel_file = False, wo_row_group_bytes = None, wo_bloom = []\<rparr>" for n
    by (simp add: write_options_of_def ex_contract_simps bt_of_def)
  then show ?thesis using assms
    by (simp add: write_rows_def then_do_def lift_def ex_writer_simps ex_rt_simps df_simps on_world_def write_parquet_def
        ex_write_api_simps io_fails_def df_fails_def land_files_def change_def give_def on_writing_def x)
qed

lemma ex_excludes:
  obtains w' wr' p where "write_part ex_writer (ex_write_api 0) [ex_batch] (ex_write_world, ex_writing WExclude) = Some ((w', wr'), Inr p)"
proof -
  let ?tw = "\<lparr>tw_plan = LOther (KOther ''Projection'') (written_columns ex_compilation) [LScan ''incoming''],
         tw_table = (''incoming'', row_schema ex_contract, [ex_batch]), tw_rows = num_rows ex_batch,
         tw_bytes = num_rows ex_batch, tw_excluded = None\<rparr>"
  have rs: "row_schema ex_contract = ex_row_schema" by (simp add: ex_contract_simps ex_row_schema_def)
  obtain kept where kept: "map_res (as_planned (batch_schema ex_batch)) (passing ex_split) = Inr kept"
    by (simp add: ex_split_def as_planned_def try_new_batch_def ex_batch_def)
  obtain tw' wr' where ex: "exclude_breaking ex_writer (ex_write_api 0) ex_compilation ex_flags ss ?tw (ex_write_world, ex_writing WExclude)
      = Some ((ex_write_world, wr'), Inr tw')" for ss
    by (simp add: exclude_breaking_def then_do_def lift_def ex_writer_simps ex_rt_simps df_simps ex_write_api_simps ex_compiled rs ex_split_run
        on_writing_def change_def kept df_fails_def give_def)
  have c: "write_dir (ex_writing WExclude) = Inr ''/stage''" "r_compilation (wr_reg (ex_writing WExclude)) = ex_compilation"
    by (simp_all add: ex_writing_simps ex_compiled)
  from ex_writes_part [of tw' _ "ex_writing WExclude", OF refl c(1) ex_writing_simps(7,5) c(2), where x = "(ex_write_world, wr')"
      and broke = 0 and ss = "free_session None False False"]
  obtain w2 wr2 p where "write_rows ex_writer (ex_write_api 0) (ex_writing WExclude) (free_session None False False) tw' (ex_write_world, wr')
      = Some ((w2, wr2), Inr p)" by (elim exE) (rule that)
  then have "write_part ex_writer (ex_write_api 0) [ex_batch] (ex_write_world, ex_writing WExclude) = Some ((w2, wr2), Inr p)"
    by (simp add: write_part_def Let_def then_do_def look_def lift_def ex_writing_simps ex_compiled ex_write_api_simps(3) ex_incoming ex_rules ex)
      (simp add: ex_flags_def)
  then show thesis by (rule that)
qed

theorem excluded_rows_are_not_written_witness:
  "\<exists>w' wr' p. write_part ex_writer (ex_write_api 0) [ex_batch] (ex_write_world, ex_writing WExclude) = Some ((w', wr'), Inr p)
     \<and> pt_rows_written p = 1 \<and> wr_rows_excluded wr' = 2"
proof -
  obtain w' wr' p where run: "write_part ex_writer (ex_write_api 0) [ex_batch] (ex_write_world, ex_writing WExclude) = Some ((w', wr'), Inr p)"
    by (rule ex_excludes)
  have shaped: "gives_batches (ex_write_api 0)"
    using ex_batch_ok by (simp add: gives_batches_def ex_write_api_simps)
  have rules: "enforced_flags (write_flags (r_compilation (wr_reg (ex_writing WExclude)))) = ex_flags" "ex_flags \<noteq> []"
    by (simp_all add: ex_writing_simps ex_compiled ex_rules) (simp add: ex_flags_def)
  have one: "num_rows (passing_of ex_flags ex_batch) = 1" "num_rows ex_batch = 3" by code_simp+
  have zero: "wr_rows_excluded (ex_writing WExclude) = 0" by (simp add: ex_writing_def)
  from excluded_rows_are_not_written [OF run ex_writing_simps(4) rules shaped]
  have "pt_rows_written p = 1 \<and> wr_rows_excluded wr' = 2"
    by (auto simp: ex_write_api_simps ex_writing_simps ex_compiled ex_write_api_simps(3) ex_incoming one zero)
  with run show ?thesis by (intro exI conjI) auto
qed

theorem refused_writes_publish_nothing_witness:
  "\<exists>w' e. finish_write ex_writer (ex_write_api 1) ex_contents (ex_writing WRefuse) ex_write_world = Some (w', Inl e)
     \<and> w_fs w' = Map.empty \<and> w_trees w' ''orders'' = None"
proof -
  have "broken (cc_flags ex_contract) (v_failures (ex_counts 1)) = [(''b'', 1)]"
    by (simp add: broken_def ex_counts_def ex_contract_simps enforced_flags_def enforced_def List.map_filter_simps bt_get_or_def Let_def)
  then have broke: "broken (cc_flags (contract (r_compilation (wr_reg (ex_writing WRefuse))))) (v_failures (ex_counts 1)) \<noteq> []"
    by (simp add: ex_writing_simps ex_compiled)
  have validated: "wa_validate (ex_write_api 1) (r_compilation (wr_reg (ex_writing WRefuse))) None (wr_iceberg (ex_writing WRefuse) \<noteq> None)
      (w_trees ex_write_world ''/stage'') = Inr (ex_counts 1)" by (simp add: ex_write_api_simps)
  have "keeps (\<lambda>_. ()) (remove_dir dir)" for dir by (simp add: keeps_def)
  from all_facts_refused [OF this ex_writing_simps(4,9,10) validated broke]
  obtain w1 e where "all_facts ex_writer (ex_write_api 1) (ex_writing WRefuse) 9 [] ex_write_world = Some (w1, Inl e)" by blast
  then have inner: "finish_inner ex_writer (ex_write_api 1) ex_contents (ex_writing WRefuse) ex_write_world = Some (w1, Inl e)"
    by (simp add: finish_inner_def then_do_def lift_def location_key_def ex_writing_simps ex_write_api_simps ex_bound_alone ex_writer_simps)
  obtain w' where run: "finish_write ex_writer (ex_write_api 1) ex_contents (ex_writing WRefuse) ex_write_world = Some (w', Inl e)"
    by (simp add: finish_write_def finally_do_def inner drop_writing_def ex_writing_simps remove_dir_def change_def)
  from refused_writes_publish_nothing [OF run ex_writing_simps(4,9,10) validated broke]
  have same: "seen ''/stage'' w' = seen ''/stage'' ex_write_world" by blast
  then have "w_fs (seen ''/stage'' w') = w_fs (seen ''/stage'' ex_write_world)"
    "w_trees (seen ''/stage'' w') ''orders'' = w_trees (seen ''/stage'' ex_write_world) ''orders''" by simp_all
  then have "w_fs w' = Map.empty" "w_trees w' ''orders'' = None" by (simp_all add: seen_parts ex_write_files)
  with run show ?thesis by blast
qed

text \<open>Begun, given a part, its memory bounded.\<close>

lemma ex_begins_write:
  obtains w1 wr where "begin_write ex_writer (ex_write_api 0) ex_contents ''id'' ''t/orders'' False WWarn ex_write_world = Some (w1, Inr wr)"
    and "write_dir wr = Inr ''orders/_peql/staging/id''" and "wr_iceberg wr = None" and "wr_memory wr = None"
    and "wr_reg wr = ex_registered" and "wr_on_violation wr = WWarn"
proof -
  have bound: "host_bound ex_writer ex_registered = Inr (BoundFiles (Local ''orders''))"
    by (simp add: host_bound_def bound_to_def ex_writer_simps ok_or_def)
  have single: "\<not> is_single_file (is_disk_file ex_write_world) (Local ''orders'')"
  proof -
    have "extension (last (split_on CHR ''/'' ''orders'')) \<noteq> Some ''parquet''" by code_simp
    then show ?thesis by (simp add: is_single_file_def is_disk_file_def ex_write_files)
  qed
  have dir: "path_join (path_join ''orders'' ''_peql/staging'') ''id'' = ''orders/_peql/staging/id''" by code_simp
  obtain w1 wr where begun: "begin_write ex_writer (ex_write_api 0) ex_contents ''id'' ''t/orders'' False WWarn ex_write_world = Some (w1, Inr wr)"
    and wr: "wr = (ex_writing WWarn)\<lparr>wr_staged := Some ''orders/_peql/staging/id''\<rparr>"
    by (simp add: begin_write_def begin_writing_def ex_writer_simps then_do_def lift_def ex_get bound begin_bound_def look_def single
        begin_at_def Let_def staged_dir_def dir create_dir_def change_def give_def write_mode_def ex_writing_def)
  show thesis by (rule that [OF begun]) (simp_all add: wr write_dir_def ok_or_def ex_writing_def)
qed


end
