(* ===== verification/Functions.thy ===== *)
theory Functions
  imports Binding Store
begin

text \<open>
  The function store (\<open>src/functions.rs\<close>): the WebAssembly functions tenants registered, by name, each of
  one owner; the modules they were loaded from; and the directory \<open><root>/_peql/functions\<close> they are kept
  in, an owner's directory with a module and a record per function. Parcel's registry and its installer,
  JSON and the hexadecimal codec are parameters; the names of owners and of functions are names of files.
\<close>

section \<open>What the store calls\<close>

record fn_entry =
  fe_name :: string
  fe_owner :: string
  fe_hash :: string
  fe_builtin :: bool

record 'r registry_api =
  rg_builtin :: 'r
  rg_get :: "'r \<Rightarrow> string \<Rightarrow> fn_entry option"
  rg_insert :: "fn_entry \<Rightarrow> 'r \<Rightarrow> 'r"
  rg_visible_to :: "'r \<Rightarrow> string option \<Rightarrow> 'r"
  rg_entries :: "'r \<Rightarrow> fn_entry list"

record stored_function =
  sf_owner :: string
  sf_manifest :: fn_manifest
  sf_hash :: string

record fn_codec =
  fn_install :: "string \<Rightarrow> fn_manifest \<Rightarrow> string \<Rightarrow> runtime_error + fn_entry"
  fn_to_json :: "stored_function \<Rightarrow> string + string"
  fn_from_json :: "string \<Rightarrow> string + stored_function"
  fn_utf8 :: "string \<Rightarrow> string + string"
  to_hex :: "string \<Rightarrow> string"
  from_hex :: "string \<Rightarrow> string + string"
  list_error :: "string \<Rightarrow> string option"

text \<open>The registry as its crate documents it, the installer, and the codecs.\<close>

definition registry_laws :: "'r registry_api \<Rightarrow> bool" where
  "registry_laws A \<longleftrightarrow>
     (\<forall>e r n. rg_get A (rg_insert A e r) n = (if n = fe_name e then Some e else rg_get A r n))
   \<and> (\<forall>r o' n. rg_get A (rg_visible_to A r o') n =
        (case rg_get A r n of
           Some e \<Rightarrow> if fe_builtin e \<or> o' = Some (fe_owner e) then Some e else None
         | None \<Rightarrow> None))
   \<and> (\<forall>r. set (rg_entries A r) = {e. \<exists>n. rg_get A r n = Some e})
   \<and> (\<forall>n e. rg_get A (rg_builtin A) n = Some e \<longrightarrow> fe_builtin e \<and> fe_name e = n)"

definition install_laws :: "fn_codec \<Rightarrow> bool" where
  "install_laws C \<longleftrightarrow> (\<forall>m man own e. fn_install C m man own = Inr e \<longrightarrow>
     fe_name e = fm_name man \<and> fe_owner e = own \<and> \<not> fe_builtin e)"

definition fn_codec_laws :: "fn_codec \<Rightarrow> bool" where
  "fn_codec_laws C \<longleftrightarrow> (\<forall>m. from_hex C (to_hex C m) = Inr m)
   \<and> (\<forall>x b. fn_to_json C x = Inr b \<longrightarrow> fn_utf8 C b = Inr b \<and> fn_from_json C b = Inr x)"

lemma registry_lawsD:
  assumes "registry_laws A"
  shows "rg_get A (rg_insert A e r) n = (if n = fe_name e then Some e else rg_get A r n)"
    and "rg_get A (rg_visible_to A r t) n = (case rg_get A r n of
        Some e \<Rightarrow> if fe_builtin e \<or> t = Some (fe_owner e) then Some e else None | None \<Rightarrow> None)"
    and "rg_get A (rg_builtin A) n = Some e \<Longrightarrow> fe_builtin e" "rg_get A (rg_builtin A) n = Some e \<Longrightarrow> fe_name e = n"
    and "e \<in> set (rg_entries A r) \<longleftrightarrow> (\<exists>n. rg_get A r n = Some e)"
  using assms by (auto simp: registry_laws_def)

lemma install_lawsD:
  assumes "install_laws C" and "fn_install C m man own = Inr e"
  shows "fe_name e = fm_name man" "fe_owner e = own" "\<not> fe_builtin e"
  using assms by (auto simp: install_laws_def)

section \<open>The store and its operations\<close>

text \<open>The directory, owners' directories in the order it is listed.\<close>

record 'r fn_store =
  fn_dir :: "store_dir option"
  fn_registry :: 'r
  fn_modules :: "bundled_function list"

definition fn_in_memory :: "'r registry_api \<Rightarrow> 'r fn_store" where
  "fn_in_memory A = \<lparr>fn_dir = None, fn_registry = rg_builtin A, fn_modules = []\<rparr>"

definition taken_text :: "string \<Rightarrow> string \<Rightarrow> string" where
  "taken_text name owner = ''`'' @ name @ ''` is already registered by `'' @ owner @ ''`''"

definition taken_by_other :: "'r registry_api \<Rightarrow> 'r \<Rightarrow> string \<Rightarrow> string \<Rightarrow> string option" where
  "taken_by_other A r name own =
     (case rg_get A r name of Some e \<Rightarrow> if fe_owner e \<noteq> own then Some (fe_owner e) else None | None \<Rightarrow> None)"

definition same_function :: "string \<Rightarrow> string \<Rightarrow> bundled_function \<Rightarrow> bool" where
  "same_function own name m \<longleftrightarrow> bf_owner m = own \<and> fm_name (bf_manifest m) = name"

definition fn_load ::
  "'r registry_api \<Rightarrow> fn_codec \<Rightarrow> string \<Rightarrow> fn_manifest \<Rightarrow> string \<Rightarrow> 'r fn_store \<Rightarrow> 'r fn_store \<times> fn_entry res" where
  "fn_load A C module man own s =
     (case taken_by_other A (fn_registry s) (fm_name man) own of
        Some other \<Rightarrow> (s, Inl (Invalid (taken_text (fm_name man) other)))
      | None \<Rightarrow>
          (case fn_install C module man own of
             Inl e \<Rightarrow> (s, Inl (from_runtime e))
           | Inr entry \<Rightarrow>
               (s\<lparr>fn_registry := rg_insert A entry (fn_registry s),
                  fn_modules := filter (\<lambda>m. \<not> same_function own (fm_name man) m) (fn_modules s)
                    @ [\<lparr>bf_owner = own, bf_manifest = man, bf_module = to_hex C module\<rparr>]\<rparr>, Inr entry)))"

text \<open>\<open>Path::with_extension\<close> of a file's name.\<close>

definition with_extension :: "string \<Rightarrow> string \<Rightarrow> string" where
  "with_extension x f =
     (case after_dot f of
        Some (stem, _) \<Rightarrow> (if stem = [] then f else stem) @ ''.'' @ x
      | None \<Rightarrow> f @ ''.'' @ x)"

definition read_bytes :: "file_state option \<Rightarrow> string res" where
  "read_bytes f = (case f of None \<Rightarrow> Inl (Io ''not found'') | Some (Unreadable e) \<Rightarrow> Inl (Io e) | Some (Bytes b) \<Rightarrow> Inr b)"

definition read_text :: "fn_codec \<Rightarrow> file_state option \<Rightarrow> string res" where
  "read_text C f = and_then (read_bytes f) (\<lambda>b. case fn_utf8 C b of Inl e \<Rightarrow> Inl (Io e) | Inr t \<Rightarrow> Inr t)"

definition if_hash :: "string \<Rightarrow> string \<Rightarrow> 'r fn_store \<times> fn_entry res \<Rightarrow> 'r fn_store res" where
  "if_hash h path p =
     (case p of
        (s, Inl e) \<Rightarrow> Inl e
      | (s, Inr entry) \<Rightarrow>
          if fe_hash entry \<noteq> h then Inl (Invalid (path @ '': the stored module no longer matches its hash''))
          else Inr s)"

text \<open>One file, one owner's directory, all of them, of \<open>open\<close>.\<close>

definition open_function ::
  "'r registry_api \<Rightarrow> fn_codec \<Rightarrow> string \<Rightarrow> (string, file_state) btmap \<Rightarrow> string \<times> file_state \<Rightarrow> 'r fn_store
     \<Rightarrow> 'r fn_store res" where
  "open_function A C dirname files ef s =
     (if extension (fst ef) \<noteq> Some ''json'' then Inr s
      else and_then (read_text C (Some (snd ef))) (\<lambda>t.
        and_then (case fn_from_json C t of
             Inl e \<Rightarrow> Inl (Invalid (contract_path dirname (fst ef) @ '': '' @ e))
           | Inr x \<Rightarrow> Inr x) (\<lambda>x.
        and_then (read_bytes (map_of files (with_extension ''wasm'' (fst ef)))) (\<lambda>module.
        if_hash (sf_hash x) (contract_path dirname (fst ef))
          (fn_load A C module (sf_manifest x) (sf_owner x) s)))))"

fun open_functions ::
  "'r registry_api \<Rightarrow> fn_codec \<Rightarrow> string \<Rightarrow> (string, file_state) btmap \<Rightarrow> (string \<times> file_state) list
     \<Rightarrow> 'r fn_store \<Rightarrow> 'r fn_store res" where
  "open_functions A C dirname files [] s = Inr s"
| "open_functions A C dirname files (e # es) s =
     and_then (open_function A C dirname files e s) (open_functions A C dirname files es)"

fun open_owners :: "'r registry_api \<Rightarrow> fn_codec \<Rightarrow> store_dir \<Rightarrow> 'r fn_store \<Rightarrow> 'r fn_store res" where
  "open_owners A C [] s = Inr s"
| "open_owners A C ((dirname, files) # ds) s =
     (case list_error C dirname of
        Some e \<Rightarrow> Inl (Io e)
      | None \<Rightarrow> and_then (open_functions A C dirname files files s) (open_owners A C ds))"

text \<open>\<open>listable\<close> is whether the directory itself can be listed.\<close>

definition fn_open :: "'r registry_api \<Rightarrow> fn_codec \<Rightarrow> bool \<Rightarrow> store_dir \<Rightarrow> 'r fn_store res" where
  "fn_open A C listable d =
     (let s = (fn_in_memory A)\<lparr>fn_dir := Some d\<rparr>
      in if listable then open_owners A C d s else Inr s)"

text \<open>\<open>mk\<close> is the error of making the owner's directory, \<open>w1\<close> and \<open>w2\<close> what becomes of the two files.\<close>

definition store_function ::
  "fn_codec \<Rightarrow> string option \<Rightarrow> write_outcome \<Rightarrow> write_outcome \<Rightarrow> string \<Rightarrow> fn_manifest \<Rightarrow> string \<Rightarrow> string
     \<Rightarrow> store_dir \<Rightarrow> store_dir \<times> unit res" where
  "store_function C mk w1 w2 module man own hash d =
     (case mk of
        Some e \<Rightarrow> (d, Inl (Io e))
      | None \<Rightarrow>
          (case plain_write w1 own (fm_name man @ ''.wasm'') module (bt_update [] (\<lambda>fs. fs) own d) of
             (d1, Inl e) \<Rightarrow> (d1, Inl e)
           | (d1, Inr _) \<Rightarrow>
               (case fn_to_json C \<lparr>sf_owner = own, sf_manifest = man, sf_hash = hash\<rparr> of
                  Inl e \<Rightarrow> (d1, Inl (Invalid e))
                | Inr b \<Rightarrow> plain_write w2 own (fm_name man @ ''.json'') b d1)))"

definition fn_register ::
  "'r registry_api \<Rightarrow> fn_codec \<Rightarrow> string option \<Rightarrow> write_outcome \<Rightarrow> write_outcome \<Rightarrow> string \<Rightarrow> fn_manifest \<Rightarrow> string
     \<Rightarrow> 'r fn_store \<Rightarrow> 'r fn_store \<times> fn_entry res" where
  "fn_register A C mk w1 w2 module man own s =
     (case fn_load A C module man own s of
        (s1, Inl e) \<Rightarrow> (s1, Inl e)
      | (s1, Inr entry) \<Rightarrow>
          (case fn_dir s1 of
             None \<Rightarrow> (s1, Inr entry)
           | Some d \<Rightarrow>
               (let (d', r) = store_function C mk w1 w2 module man own (fe_hash entry) d
                in (s1\<lparr>fn_dir := Some d'\<rparr>, and_then r (\<lambda>_. Inr entry)))))"

fun fn_adopt ::
  "'r registry_api \<Rightarrow> fn_codec \<Rightarrow> bundled_function list \<Rightarrow> 'r fn_store \<Rightarrow> 'r fn_store \<times> unit res" where
  "fn_adopt A C [] s = (s, Inr ())"
| "fn_adopt A C (f # fs) s =
     (case from_hex C (bf_module f) of
        Inl e \<Rightarrow> (s, Inl (Invalid e))
      | Inr module \<Rightarrow>
          (case fn_load A C module (bf_manifest f) (bf_owner f) s of
             (s1, Inl e) \<Rightarrow> (s1, Inl e)
           | (s1, Inr _) \<Rightarrow> fn_adopt A C fs s1))"

definition registry_for :: "'r registry_api \<Rightarrow> 'r fn_store \<Rightarrow> string option \<Rightarrow> 'r" where
  "registry_for A s own = rg_visible_to A (fn_registry s) own"

definition pinned_entry :: "'r registry_api \<Rightarrow> 'r fn_store \<Rightarrow> function_pin \<Rightarrow> fn_entry option" where
  "pinned_entry A s p =
     (case rg_get A (fn_registry s) (pin_name p) of
        Some e \<Rightarrow> if fe_hash e = pin_hash p \<and> \<not> fe_builtin e then Some e else None
      | None \<Rightarrow> None)"

definition module_for :: "'r registry_api \<Rightarrow> 'r fn_store \<Rightarrow> function_pin \<Rightarrow> bundled_function option" where
  "module_for A s p =
     Option.bind (pinned_entry A s p) (\<lambda>e. find (same_function (fe_owner e) (fe_name e)) (fn_modules s))"

definition modules_for :: "'r registry_api \<Rightarrow> 'r fn_store \<Rightarrow> function_pin list \<Rightarrow> bundled_function list" where
  "modules_for A s pins = List.map_filter (module_for A s) pins"

definition fn_list :: "'r registry_api \<Rightarrow> 'r fn_store \<Rightarrow> fn_entry list" where
  "fn_list A s = filter (\<lambda>e. \<not> fe_builtin e) (rg_entries A (fn_registry s))"

section \<open>What a store always is\<close>

text \<open>The module kept of a function is the one its entry came from; every function a tenant registered has
  one; and a name that parcel itself uses is nobody else's.\<close>

definition installs_to :: "fn_codec \<Rightarrow> bundled_function \<Rightarrow> fn_entry \<Rightarrow> bool" where
  "installs_to C m e \<longleftrightarrow> (\<exists>raw. from_hex C (bf_module m) = Inr raw \<and> fn_install C raw (bf_manifest m) (bf_owner m) = Inr e)"

lemma installs_toD:
  assumes "install_laws C" and "installs_to C m e"
  shows "fe_owner e = bf_owner m" "fe_name e = fm_name (bf_manifest m)" "\<not> fe_builtin e"
  using assms by (auto simp: installs_to_def install_laws_def)

lemma installs_to_fun: "installs_to C m e \<Longrightarrow> installs_to C m e' \<Longrightarrow> e = e'"
  by (auto simp: installs_to_def)

definition fn_ok :: "'r registry_api \<Rightarrow> fn_codec \<Rightarrow> 'r fn_store \<Rightarrow> bool" where
  "fn_ok A C s \<longleftrightarrow>
     (\<forall>m \<in> set (fn_modules s). \<exists>e. rg_get A (fn_registry s) (fm_name (bf_manifest m)) = Some e \<and> installs_to C m e)
   \<and> (\<forall>n e. rg_get A (fn_registry s) n = Some e \<longrightarrow> fe_name e = n
        \<and> (if fe_builtin e then rg_get A (rg_builtin A) n = Some e
           else \<exists>m \<in> set (fn_modules s). fm_name (bf_manifest m) = n))
   \<and> (\<forall>n b. rg_get A (rg_builtin A) n = Some b \<longrightarrow>
        (\<exists>e. rg_get A (fn_registry s) n = Some e \<and> fe_owner e = fe_owner b))
   \<and> distinct (map (\<lambda>m. fm_name (bf_manifest m)) (fn_modules s))"

lemma fn_okD:
  assumes "fn_ok A C s"
  shows "m \<in> set (fn_modules s) \<Longrightarrow>
      \<exists>e. rg_get A (fn_registry s) (fm_name (bf_manifest m)) = Some e \<and> installs_to C m e"
    and "rg_get A (fn_registry s) n = Some e \<Longrightarrow> fe_name e = n"
    and "rg_get A (fn_registry s) n = Some e \<Longrightarrow> fe_builtin e \<Longrightarrow> rg_get A (rg_builtin A) n = Some e"
    and "rg_get A (fn_registry s) n = Some e \<Longrightarrow> \<not> fe_builtin e \<Longrightarrow>
      \<exists>m \<in> set (fn_modules s). fm_name (bf_manifest m) = n"
    and "rg_get A (rg_builtin A) n = Some b \<Longrightarrow>
      \<exists>e. rg_get A (fn_registry s) n = Some e \<and> fe_owner e = fe_owner b"
    and "distinct (map (\<lambda>m. fm_name (bf_manifest m)) (fn_modules s))"
  using assms by (auto simp: fn_ok_def split: if_splits)

lemma fn_ok_in_memory: "registry_laws A \<Longrightarrow> fn_ok A C (fn_in_memory A)"
  by (auto simp: fn_ok_def fn_in_memory_def registry_lawsD)

lemma fn_ok_dir [simp]: "fn_ok A C (s\<lparr>fn_dir := d\<rparr>) = fn_ok A C s"
  by (simp add: fn_ok_def)

text \<open>What loading does, when it does anything.\<close>

lemma fn_load_cases:
  obtains (refused) e where "fn_load A C module man own s = (s, Inl e)"
  | (loaded) entry where "fn_install C module man own = Inr entry"
      and "taken_by_other A (fn_registry s) (fm_name man) own = None"
      and "fn_load A C module man own s =
        (s\<lparr>fn_registry := rg_insert A entry (fn_registry s),
           fn_modules := filter (\<lambda>m. \<not> same_function own (fm_name man) m) (fn_modules s)
             @ [\<lparr>bf_owner = own, bf_manifest = man, bf_module = to_hex C module\<rparr>]\<rparr>, Inr entry)"
  by (cases "taken_by_other A (fn_registry s) (fm_name man) own"; cases "fn_install C module man own")
     (simp_all add: fn_load_def)

lemma not_taken:
  "taken_by_other A r n own = None \<longleftrightarrow> (\<forall>e. rg_get A r n = Some e \<longrightarrow> fe_owner e = own)"
  by (auto simp: taken_by_other_def split: option.splits)

lemma fn_ok_load:
  assumes ok: "fn_ok A C s" and L: "registry_laws A" and I: "install_laws C" and K: "fn_codec_laws C"
  shows "fn_ok A C (fst (fn_load A C module man own s))"
proof (cases rule: fn_load_cases [of A C module man own s])
  case (refused e)
  with ok show ?thesis by simp
next
  case (loaded entry)
  let ?m = "\<lparr>bf_owner = own, bf_manifest = man, bf_module = to_hex C module\<rparr>"
  have entry: "fe_name entry = fm_name man" "fe_owner entry = own" "\<not> fe_builtin entry"
    using install_lawsD [OF I loaded(1)] by auto
  have own: "bf_owner m = own"
    if m: "m \<in> set (fn_modules s)" and n: "fm_name (bf_manifest m) = fm_name man" for m
    using fn_okD(1) [OF ok m] loaded(2) n I
    by (fastforce simp: not_taken installs_to_def dest: install_lawsD)
  have new: "installs_to C ?m entry"
    using loaded(1) K by (simp add: installs_to_def fn_codec_laws_def)
  show ?thesis
    unfolding fn_ok_def loaded(3)
  proof (intro conjI allI ballI impI, goal_cases)
    case (1 m)
    then show ?case
      using entry new own fn_okD(1) [OF ok, of m] by (auto simp: registry_lawsD(1) [OF L] same_function_def)
  next
    case (2 n e)
    then show ?case
      using entry fn_okD(2) [OF ok, of n e] by (auto simp: registry_lawsD(1) [OF L] split: if_splits)
  next
    case (3 n e)
    then show ?case
      using entry fn_okD(3,4) [OF ok, of n e]
      by (auto simp: registry_lawsD(1) [OF L] same_function_def split: if_splits)
  next
    case (4 n b)
    then show ?case
      using entry fn_okD(5) [OF ok, of n b] loaded(2)
      by (auto simp: registry_lawsD(1) [OF L] not_taken)
  next
    case 5
    show ?case
      using own fn_okD(6) [OF ok] by (auto simp: same_function_def distinct_map_filter)
  qed
qed

lemma fn_load_dir: "fn_dir (fst (fn_load A C module man own s)) = fn_dir s"
  by (cases rule: fn_load_cases [of A C module man own s]) simp_all

lemma fn_load_owned:
  assumes "registry_laws A" and "install_laws C"
    and "fn_load A C module man own s = (s', Inr entry)"
  shows "rg_get A (fn_registry s') n = (if n = fm_name man then Some entry else rg_get A (fn_registry s) n)"
    and "\<And>e. rg_get A (fn_registry s) (fm_name man) = Some e \<Longrightarrow> fe_owner e = own"
    and "fn_install C module man own = Inr entry"
  using assms(3)
  by (cases rule: fn_load_cases [of A C module man own s];
      auto simp: registry_lawsD(1) [OF assms(1)] install_lawsD(1) [OF assms(2)] not_taken)+

lemma fn_register_fst:
  "\<exists>d. fst (fn_register A C mk w1 w2 module man own s) = (fst (fn_load A C module man own s))\<lparr>fn_dir := d\<rparr>"
proof (cases "fn_load A C module man own s")
  case (Pair s1 r)
  show ?thesis
  proof (cases r)
    case (Inl e)
    with Pair show ?thesis
      by (intro exI [of _ "fn_dir s1"]) (simp add: fn_register_def)
  next
    case (Inr e)
    with Pair show ?thesis
      by (cases "fn_dir s1")
        (auto simp: fn_register_def Let_def split: prod.splits intro: exI [of _ "fn_dir s1"])
  qed
qed

lemma fn_ok_register:
  assumes "fn_ok A C s" and "registry_laws A" and "install_laws C" and "fn_codec_laws C"
  shows "fn_ok A C (fst (fn_register A C mk w1 w2 module man own s))"
  using fn_register_fst [of A C mk w1 w2 module man own s] fn_ok_load [OF assms, of module man own] by auto

lemma fn_ok_adopt:
  assumes "registry_laws A" and "install_laws C" and "fn_codec_laws C"
  shows "fn_ok A C s \<Longrightarrow> fn_ok A C (fst (fn_adopt A C fs s))"
proof (induction fs arbitrary: s)
  case (Cons f fs)
  show ?case
  proof (cases "from_hex C (bf_module f)")
    case (Inl e)
    with Cons.prems show ?thesis by simp
  next
    case (Inr module)
    with Cons.IH Cons.prems fn_ok_load [OF Cons.prems assms, of module "bf_manifest f" "bf_owner f"]
    show ?thesis by (auto split: prod.split sum.split)
  qed
qed simp

lemma if_hash_Inr: "if_hash h path p = Inr s \<longleftrightarrow> (\<exists>entry. p = (s, Inr entry) \<and> fe_hash entry = h)"
  by (auto simp: if_hash_def split: prod.splits sum.splits)

lemma parsed_Inr: "(case r of Inl y \<Rightarrow> Inl (f y) | Inr x \<Rightarrow> Inr x) = Inr x \<longleftrightarrow> r = Inr x"
  by (cases r) auto

lemma open_function_Inr:
  "open_function A C dirname files e s = Inr s' \<longleftrightarrow>
     (if extension (fst e) \<noteq> Some ''json'' then s' = s
      else \<exists>t x module entry. read_text C (Some (snd e)) = Inr t \<and> fn_from_json C t = Inr x
        \<and> read_bytes (map_of files (with_extension ''wasm'' (fst e))) = Inr module
        \<and> fn_load A C module (sf_manifest x) (sf_owner x) s = (s', Inr entry) \<and> fe_hash entry = sf_hash x)"
  by (cases "extension (fst e) = Some ''json''")
    (auto simp: open_function_def and_then_eq_Inr parsed_Inr if_hash_Inr)

lemma fn_ok_open_function:
  assumes "registry_laws A" and "install_laws C" and "fn_codec_laws C"
    and ok: "fn_ok A C s" and run: "open_function A C dirname files e s = Inr s'"
  shows "fn_ok A C s'"
proof (cases "extension (fst e) = Some ''json''")
  case False
  with run ok show ?thesis by (simp add: open_function_Inr)
next
  case True
  with run obtain module and x :: stored_function and entry where "fn_load A C module (sf_manifest x) (sf_owner x) s = (s', Inr entry)"
    by (auto simp: open_function_Inr)
  with fn_ok_load [OF ok assms(1-3), of module "sf_manifest x" "sf_owner x"] show ?thesis by simp
qed

lemma fn_ok_open_functions:
  assumes "registry_laws A" and "install_laws C" and "fn_codec_laws C"
  shows "fn_ok A C s \<Longrightarrow> open_functions A C dirname files es s = Inr s' \<Longrightarrow> fn_ok A C s'"
  by (induction es arbitrary: s) (auto simp: and_then_eq_Inr dest: fn_ok_open_function [OF assms])

lemma open_owners_Cons:
  "open_owners A C ((dirname, files) # ds) s = Inr s' \<longleftrightarrow>
     list_error C dirname = None \<and> (\<exists>s1. open_functions A C dirname files files s = Inr s1 \<and> open_owners A C ds s1 = Inr s')"
  by (auto simp: and_then_eq_Inr split: option.splits)

lemma fn_ok_open_owners:
  assumes "registry_laws A" and "install_laws C" and "fn_codec_laws C"
  shows "fn_ok A C s \<Longrightarrow> open_owners A C d s = Inr s' \<Longrightarrow> fn_ok A C s'"
proof (induction d arbitrary: s)
  case (Cons e d)
  then obtain s1 where "open_functions A C (fst e) (snd e) (snd e) s = Inr s1" and "open_owners A C d s1 = Inr s'"
    using open_owners_Cons [of A C "fst e" "snd e" d s s'] by auto
  with Cons show ?case using fn_ok_open_functions [OF assms] by blast
qed simp

text \<open>Every store the operations make, whatever becomes of the files they write.\<close>

inductive fn_history :: "'r registry_api \<Rightarrow> fn_codec \<Rightarrow> 'r fn_store \<Rightarrow> bool" for A :: "'r registry_api" and C :: fn_codec where
  in_memory: "fn_history A C (fn_in_memory A)"
| opened: "fn_open A C listable d = Inr s \<Longrightarrow> fn_history A C s"
| register: "fn_history A C s \<Longrightarrow> fn_history A C (fst (fn_register A C mk w1 w2 module man own s))"
| adopt: "fn_history A C s \<Longrightarrow> fn_history A C (fst (fn_adopt A C fs s))"

lemma fn_history_ok:
  assumes "fn_history A C s" and "registry_laws A" and "install_laws C" and "fn_codec_laws C"
  shows "fn_ok A C s"
  using assms(1)
proof induction
  case in_memory
  show ?case using fn_ok_in_memory [OF assms(2)] .
next
  case (opened listable d s)
  then show ?case
    using fn_ok_in_memory [OF assms(2), of C] fn_ok_open_owners [OF assms(2-4), of "(fn_in_memory A)\<lparr>fn_dir := Some d\<rparr>"]
    by (auto simp: fn_open_def Let_def split: if_splits)
next
  case (register s mk w1 w2 module man own)
  then show ?case using fn_ok_register assms(2-4) by blast
next
  case (adopt s fs)
  then show ?case using fn_ok_adopt assms(2-4) by blast
qed

end
