(* ===== verification/Function_Safety.thy ===== *)
theory Function_Safety
  imports Functions
begin

text \<open>
  What the function store promises: the modules a bundle carries are those its contract is pinned to, and
  give another store the same functions; one tenant's functions are nobody else's; and what reopening the
  directory gives, after registrations that were kept and after one whose record was not.
\<close>

section \<open>Pinned modules\<close>

lemma module_for_entry:
  assumes ok: "fn_ok A C s" and I: "install_laws C" and p: "pinned_entry A s p = Some e"
  shows "\<exists>m. module_for A s p = Some m \<and> m \<in> set (fn_modules s) \<and> fm_name (bf_manifest m) = pin_name p
    \<and> installs_to C m e"
proof -
  from p have g: "rg_get A (fn_registry s) (pin_name p) = Some e" and t: "\<not> fe_builtin e"
    by (auto simp: pinned_entry_def split: option.splits if_splits)
  have en: "fe_name e = pin_name p" using fn_okD(2) [OF ok g] .
  have inst: "installs_to C m e" if "m \<in> set (fn_modules s)" "fm_name (bf_manifest m) = pin_name p" for m
    using fn_okD(1) [OF ok that(1)] that(2) g by auto
  obtain m0 where m0: "m0 \<in> set (fn_modules s)" "fm_name (bf_manifest m0) = pin_name p"
    using fn_okD(4) [OF ok g t] by blast
  then have "same_function (fe_owner e) (fe_name e) m0"
    using installs_toD(1) [OF I inst [OF m0]] en by (simp add: same_function_def)
  then obtain m where f: "find (same_function (fe_owner e) (fe_name e)) (fn_modules s) = Some m"
    using m0(1) by (cases "find (same_function (fe_owner e) (fe_name e)) (fn_modules s)") (auto simp: find_None_iff)
  then have "m \<in> set (fn_modules s)" "fm_name (bf_manifest m) = pin_name p"
    using en by (auto simp: find_Some_iff same_function_def)
  with f p inst show ?thesis by (simp add: module_for_def)
qed

lemma module_for_none: "pinned_entry A s p = None \<Longrightarrow> module_for A s p = None"
  by (simp add: module_for_def)

lemma modules_for_all2:
  assumes "fn_ok A C s" and "install_laws C"
  shows "list_all2 (\<lambda>p m. m \<in> set (fn_modules s) \<and> fm_name (bf_manifest m) = pin_name p
      \<and> (\<exists>e. pinned_entry A s p = Some e \<and> installs_to C m e))
    (filter (\<lambda>p. pinned_entry A s p \<noteq> None) pins) (modules_for A s pins)"
proof (induction pins)
  case (Cons p pins)
  show ?case
  proof (cases "pinned_entry A s p")
    case None
    with Cons show ?thesis by (simp add: modules_for_def map_filter_simps module_for_none)
  next
    case (Some e)
    with Cons module_for_entry [OF assms Some] show ?thesis
      by (auto simp: modules_for_def map_filter_simps)
  qed
qed (simp add: modules_for_def map_filter_simps)

lemma adopt_all:
  assumes L: "registry_laws A" and I: "install_laws C"
  shows "\<forall>m \<in> set ms. \<exists>e. installs_to C m e \<Longrightarrow> distinct (map (\<lambda>m. fm_name (bf_manifest m)) ms)
    \<Longrightarrow> \<forall>m \<in> set ms. taken_by_other A (fn_registry t) (fm_name (bf_manifest m)) (bf_owner m) = None
    \<Longrightarrow> \<exists>t'. fn_adopt A C ms t = (t', Inr ())
      \<and> (\<forall>m \<in> set ms. \<forall>e. installs_to C m e \<longrightarrow> rg_get A (fn_registry t') (fm_name (bf_manifest m)) = Some e)
      \<and> (\<forall>n. (\<forall>m \<in> set ms. fm_name (bf_manifest m) \<noteq> n) \<longrightarrow>
            rg_get A (fn_registry t') n = rg_get A (fn_registry t) n)"
proof (induction ms arbitrary: t)
  case (Cons m ms)
  then obtain e raw where raw: "from_hex C (bf_module m) = Inr raw"
      "fn_install C raw (bf_manifest m) (bf_owner m) = Inr e"
    by (auto simp: installs_to_def)
  have "taken_by_other A (fn_registry t) (fm_name (bf_manifest m)) (bf_owner m) = None"
    using Cons.prems(3) by simp
  then obtain t1 where t1: "fn_load A C raw (bf_manifest m) (bf_owner m) t = (t1, Inr e)"
    by (simp add: fn_load_def raw)
  note get = fn_load_owned(1) [OF L I t1]
  have "taken_by_other A (fn_registry t1) (fm_name (bf_manifest m')) (bf_owner m') = None" if m': "m' \<in> set ms" for m'
  proof -
    have "fm_name (bf_manifest m') \<noteq> fm_name (bf_manifest m)" using Cons.prems(2) m' by (auto simp: image_iff)
    with Cons.prems(3) m' show ?thesis by (simp add: taken_by_other_def get)
  qed
  with Cons.IH [of t1] Cons.prems(1,2) obtain t' where t': "fn_adopt A C ms t1 = (t', Inr ())"
      "\<forall>m \<in> set ms. \<forall>e. installs_to C m e \<longrightarrow> rg_get A (fn_registry t') (fm_name (bf_manifest m)) = Some e"
      "\<forall>n. (\<forall>m \<in> set ms. fm_name (bf_manifest m) \<noteq> n) \<longrightarrow> rg_get A (fn_registry t') n = rg_get A (fn_registry t1) n"
    by auto
  have e: "e' = e" if "installs_to C m e'" for e'
    using that raw by (auto simp: installs_to_def)
  have m: "rg_get A (fn_registry t') (fm_name (bf_manifest m)) = Some e"
  proof -
    have "\<forall>m' \<in> set ms. fm_name (bf_manifest m') \<noteq> fm_name (bf_manifest m)"
      using Cons.prems(2) by (auto simp: image_iff)
    with t'(3) have "rg_get A (fn_registry t') (fm_name (bf_manifest m)) = rg_get A (fn_registry t1) (fm_name (bf_manifest m))"
      by blast
    then show ?thesis by (simp add: get)
  qed
  show ?case
    using t' m e get by (intro exI [of _ t']) (auto simp: raw t1)
qed simp

text \<open>A store that has no tenant's function takes the modules carried for a contract's pins.\<close>

lemma pins_adopted:
  assumes ok: "fn_ok A C s" and L: "registry_laws A" and I: "install_laws C" and dist: "distinct pins"
  obtains t where "fn_adopt A C (modules_for A s pins) (fn_in_memory A) = (t, Inr ())"
    and "\<And>p e. p \<in> set pins \<Longrightarrow> pinned_entry A s p = Some e \<Longrightarrow> rg_get A (fn_registry t) (pin_name p) = Some e"
    and "\<And>n. (\<And>p e. p \<in> set pins \<Longrightarrow> pinned_entry A s p = Some e \<Longrightarrow> pin_name p \<noteq> n)
      \<Longrightarrow> rg_get A (fn_registry t) n = rg_get A (rg_builtin A) n"
proof -
  let ?ps = "filter (\<lambda>p. pinned_entry A s p \<noteq> None) pins" and ?ms = "modules_for A s pins"
  note all = modules_for_all2 [OF ok I, of pins]
  have names: "map (\<lambda>m. fm_name (bf_manifest m)) ?ms = map pin_name ?ps"
    using all by (induction rule: list_all2_induct) auto
  have pin: "p = q" if "pinned_entry A s p \<noteq> None" "pinned_entry A s q \<noteq> None" "pin_name p = pin_name q" for p q
    using that by (auto simp: pinned_entry_def split: option.splits if_splits intro: function_pin.equality)
  have "inj_on pin_name (set ?ps)" by (rule inj_onI) (auto intro: pin)
  then have "distinct (map pin_name ?ps)" using dist by (simp add: distinct_map)
  then have d: "distinct (map (\<lambda>m. fm_name (bf_manifest m)) ?ms)" by (simp add: names)
  have each: "\<exists>p \<in> set pins. \<exists>e. pinned_entry A s p = Some e \<and> installs_to C m e \<and> fm_name (bf_manifest m) = pin_name p"
    if m: "m \<in> set ?ms" for m
  proof -
    obtain p where "p \<in> set pins" "module_for A s p = Some m" using m by (auto simp: modules_for_def map_filter_def)
    moreover from this(2) obtain e where "pinned_entry A s p = Some e" by (cases "pinned_entry A s p") (auto simp: module_for_def)
    ultimately show ?thesis using module_for_entry [OF ok I, of p e] by auto
  qed
  have free: "taken_by_other A (fn_registry (fn_in_memory A)) (fm_name (bf_manifest m)) (bf_owner m) = None"
    if m: "m \<in> set ?ms" for m
  proof -
    obtain p e where p: "pinned_entry A s p = Some e" "installs_to C m e" "fm_name (bf_manifest m) = pin_name p"
      using each [OF m] by blast
    then have "rg_get A (fn_registry s) (pin_name p) = Some e" "fe_owner e = bf_owner m"
      using installs_toD(1) [OF I] by (auto simp: pinned_entry_def split: option.splits if_splits)
    with p(3) fn_okD(5) [OF ok, of "pin_name p"] show ?thesis by (force simp: not_taken fn_in_memory_def)
  qed
  obtain t where t: "fn_adopt A C ?ms (fn_in_memory A) = (t, Inr ())"
      "\<forall>m \<in> set ?ms. \<forall>e. installs_to C m e \<longrightarrow> rg_get A (fn_registry t) (fm_name (bf_manifest m)) = Some e"
      "\<forall>n. (\<forall>m \<in> set ?ms. fm_name (bf_manifest m) \<noteq> n) \<longrightarrow> rg_get A (fn_registry t) n = rg_get A (rg_builtin A) n"
    using adopt_all [OF L I _ d, of "fn_in_memory A"] each free by (fastforce simp: fn_in_memory_def)
  show ?thesis
  proof (rule that [OF t(1)])
    fix p e assume p: "p \<in> set pins" "pinned_entry A s p = Some e"
    obtain m where "m \<in> set ?ms" "fm_name (bf_manifest m) = pin_name p" "installs_to C m e"
      using module_for_entry [OF ok I p(2)] p(1)
      by (fastforce simp: modules_for_def map_filter_def image_iff)
    with t(2) show "rg_get A (fn_registry t) (pin_name p) = Some e" by metis
  next
    fix n assume "\<And>p e. p \<in> set pins \<Longrightarrow> pinned_entry A s p = Some e \<Longrightarrow> pin_name p \<noteq> n"
    with each have "\<forall>m \<in> set ?ms. fm_name (bf_manifest m) \<noteq> n" by metis
    with t(3) show "rg_get A (fn_registry t) n = rg_get A (rg_builtin A) n" by blast
  qed
qed

text \<open>
  The modules a bundle carries are exactly those of the pins whose function is registered with the
  pinned hash, in the pins' order, each the module its entry was made from; and a store that has none of a
  tenant's functions takes all of them, after which every such pin means the function it meant.
\<close>

theorem pinned_modules_travel:
  assumes "fn_history A C s" and L: "registry_laws A" and I: "install_laws C" and K: "fn_codec_laws C"
    and dist: "distinct pins"
  shows "list_all2 (\<lambda>p m. \<exists>e. pinned_entry A s p = Some e \<and> installs_to C m e)
      (filter (\<lambda>p. pinned_entry A s p \<noteq> None) pins) (modules_for A s pins)
   \<and> (\<exists>t. fn_adopt A C (modules_for A s pins) (fn_in_memory A) = (t, Inr ())
        \<and> (\<forall>p \<in> set pins. pinned_entry A s p \<noteq> None \<longrightarrow> pinned_entry A t p = pinned_entry A s p))"
proof -
  have ok: "fn_ok A C s" using fn_history_ok assms(1-4) .
  obtain t where t: "fn_adopt A C (modules_for A s pins) (fn_in_memory A) = (t, Inr ())"
      "\<And>p e. p \<in> set pins \<Longrightarrow> pinned_entry A s p = Some e \<Longrightarrow> rg_get A (fn_registry t) (pin_name p) = Some e"
    using pins_adopted [OF ok L I dist] by metis
  have "pinned_entry A t p = pinned_entry A s p" if p: "p \<in> set pins" "pinned_entry A s p = Some e" for p e
    using t(2) [OF p] p(2) by (auto simp: pinned_entry_def split: option.splits if_splits)
  with t(1) modules_for_all2 [OF ok I, of pins] show ?thesis by (auto elim!: list_all2_mono)
qed

section \<open>Tenants\<close>

lemma registry_for_get:
  "registry_laws A \<Longrightarrow> rg_get A (registry_for A s t) n =
     (case rg_get A (fn_registry s) n of
        Some e \<Rightarrow> if fe_builtin e \<or> t = Some (fe_owner e) then Some e else None | None \<Rightarrow> None)"
  by (simp add: registry_for_def registry_lawsD(2))

text \<open>
  What a tenant registers changes what that tenant's contracts may call and nothing that anyone else's
  may: no other tenant's, and no contract's without an owner. A name another tenant has is refused to them.
\<close>

theorem functions_are_the_owners:
  assumes "fn_history A C s" and L: "registry_laws A" and I: "install_laws C" and K: "fn_codec_laws C"
    and own: "\<forall>n b. rg_get A (rg_builtin A) n = Some b \<longrightarrow> fe_owner b \<noteq> own"
    and run: "fn_register A C mk w1 w2 module man own s = (s', r)"
  shows "(\<forall>t n. t \<noteq> Some own \<longrightarrow> rg_get A (registry_for A s' t) n = rg_get A (registry_for A s t) n)
   \<and> (\<forall>entry. r = Inr entry \<longrightarrow> rg_get A (registry_for A s' (Some own)) (fm_name man) = Some entry)
   \<and> (\<forall>e. rg_get A (fn_registry s) (fm_name man) = Some e \<and> fe_owner e \<noteq> own \<longrightarrow>
        s' = s \<and> r = Inl (Invalid (taken_text (fm_name man) (fe_owner e))))"
proof -
  have ok: "fn_ok A C s" using fn_history_ok assms(1-4) .
  have s': "fn_registry s' = fn_registry (fst (fn_load A C module man own s))"
    using fn_register_fst [of A C mk w1 w2 module man own s] run by auto
  show ?thesis
  proof (cases rule: fn_load_cases [of A C module man own s])
    case (refused e)
    then have "s' = s" "r = Inl e" using run by (simp_all add: fn_register_def)
    moreover have "e = Invalid (taken_text (fm_name man) (fe_owner x))"
      if "rg_get A (fn_registry s) (fm_name man) = Some x" "fe_owner x \<noteq> own" for x
      using that refused by (simp add: fn_load_def taken_by_other_def)
    ultimately show ?thesis by simp
  next
    case (loaded entry)
    note e = install_lawsD [OF I loaded(1)]
    have get: "rg_get A (fn_registry s') n = (if n = fm_name man then Some entry else rg_get A (fn_registry s) n)" for n
      by (simp add: s' loaded(3) registry_lawsD(1) [OF L] e)
    have old: "fe_owner x = own \<and> \<not> fe_builtin x" if "rg_get A (fn_registry s) (fm_name man) = Some x" for x
      using loaded(2) that fn_okD(3) [OF ok that] own by (auto simp: not_taken)
    have "r = Inr entry \<or> isl r"
      using run by (auto simp: fn_register_def loaded(3) Let_def and_then_def split: option.splits prod.splits sum.splits)
    moreover have "rg_get A (registry_for A s' t) n = rg_get A (registry_for A s t) n" if "t \<noteq> Some own" for t n
      using e that old by (auto simp: registry_for_get [OF L] get split: option.split)
    moreover have "rg_get A (registry_for A s' (Some own)) (fm_name man) = Some entry"
      using e by (simp add: registry_for_get [OF L] get)
    ultimately show ?thesis using old by auto
  qed
qed

end
