(* ===== verification/Function_Disk.thy ===== *)
theory Function_Disk
  imports Function_Safety
begin

text \<open>
  What the directory of functions keeps: reopening it after registrations that were kept gives the same
  functions, in whatever order it is listed; and after one that stopped between its two files it opens no
  more.
\<close>

section \<open>Names of files\<close>

lemma after_dot_ext: "CHR ''.'' \<notin> set x \<Longrightarrow> after_dot (n @ ''.'' @ x) = Some (n, x)"
proof -
  assume x: "CHR ''.'' \<notin> set x"
  then have "takeWhile (\<lambda>c. c \<noteq> CHR ''.'') (rev x @ CHR ''.'' # rev n) = rev x"
    and "dropWhile (\<lambda>c. c \<noteq> CHR ''.'') (rev x @ CHR ''.'' # rev n) = CHR ''.'' # rev n"
    by (subst takeWhile_append2 dropWhile_append2; auto)+
  then show ?thesis by (simp add: after_dot_def)
qed

lemma extension_json: "n \<noteq> [] \<Longrightarrow> extension (n @ ''.json'') = Some ''json''"
  using after_dot_ext [of "''json''" n] by (simp add: extension_def)

lemma extension_wasm: "extension (n @ ''.wasm'') \<noteq> Some ''json''"
  using after_dot_ext [of "''wasm''" n] by (simp add: extension_def)

lemma with_extension_json: "n \<noteq> [] \<Longrightarrow> with_extension ''wasm'' (n @ ''.json'') = n @ ''.wasm''"
  using after_dot_ext [of "''json''" n] by (simp add: with_extension_def)

lemma wasm_not_json: "n @ ''.wasm'' \<noteq> m @ ''.json''"
  using append_eq_append_conv [of "''.wasm''" "''.json''" n m] by simp

section \<open>What is kept\<close>

text \<open>The same directory, listed in another order.\<close>

definition relists :: "store_dir \<Rightarrow> store_dir \<Rightarrow> bool" where
  "relists d d' \<longleftrightarrow> distinct (map fst d') \<and> (\<forall>e \<in> set d'. distinct (map fst (snd e)))
     \<and> (\<forall>own f. file_at d' own f = file_at d own f)"

lemma relists_entry:
  assumes "relists d d'" and "(own, files) \<in> set d'" and "map_of files file = Some f"
  shows "file_at d own file = Some f"
proof -
  have "map_of d' own = Some files" using assms(1,2) by (simp add: relists_def)
  with assms(1,3) show ?thesis unfolding relists_def file_at_def by (metis bind.bind_lunit)
qed

lemma relists_files:
  assumes "relists d d'" and "(own, files) \<in> set d'"
  shows "map_of files file = file_at d own file"
proof -
  have "map_of d' own = Some files" using assms(1,2) by (simp add: relists_def)
  with assms(1) show ?thesis unfolding relists_def file_at_def by (metis bind.bind_lunit)
qed

lemma relists_has:
  assumes "relists d d'" and "file_at d own file = Some f"
  obtains files where "(own, files) \<in> set d'" and "(file, f) \<in> set files"
proof -
  from assms have "file_at d' own file = Some f" by (simp add: relists_def)
  then obtain files where "map_of d' own = Some files" "map_of files file = Some f"
    by (auto simp: file_at_def bind_eq_Some_conv)
  then show ?thesis by (intro that [of files]) (auto dest: map_of_SomeD)
qed

text \<open>A record's file, with the module beside it, is a function the store has; and every function a tenant
  registered has its record.\<close>

definition kept_file :: "'r registry_api \<Rightarrow> fn_codec \<Rightarrow> 'r fn_store \<Rightarrow> store_dir \<Rightarrow> string \<Rightarrow> string \<Rightarrow> file_state \<Rightarrow> bool" where
  "kept_file A C s d own file f \<longleftrightarrow> (\<exists>man raw e t. file = fm_name man @ ''.json'' \<and> f = Bytes t \<and> fm_name man \<noteq> []
     \<and> fn_to_json C \<lparr>sf_owner = own, sf_manifest = man, sf_hash = fe_hash e\<rparr> = Inr t
     \<and> file_at d own (fm_name man @ ''.wasm'') = Some (Bytes raw) \<and> fn_install C raw man own = Inr e
     \<and> rg_get A (fn_registry s) (fm_name man) = Some e
     \<and> \<lparr>bf_owner = own, bf_manifest = man, bf_module = to_hex C raw\<rparr> \<in> set (fn_modules s))"

definition fn_kept :: "'r registry_api \<Rightarrow> fn_codec \<Rightarrow> 'r fn_store \<Rightarrow> store_dir \<Rightarrow> bool" where
  "fn_kept A C s d \<longleftrightarrow>
     (\<forall>own file f. file_at d own file = Some f \<longrightarrow> extension file = Some ''json'' \<longrightarrow> kept_file A C s d own file f)
   \<and> (\<forall>n e. rg_get A (fn_registry s) n = Some e \<longrightarrow> \<not> fe_builtin e \<longrightarrow>
        n \<noteq> [] \<and> file_at d (fe_owner e) (n @ ''.json'') \<noteq> None)"

inductive fn_disk :: "'r registry_api \<Rightarrow> fn_codec \<Rightarrow> 'r fn_store \<Rightarrow> bool" for A :: "'r registry_api" and C :: fn_codec where
  opened: "fn_disk A C ((fn_in_memory A)\<lparr>fn_dir := Some []\<rparr>)"
| registered: "fn_disk A C s \<Longrightarrow> fm_name man \<noteq> [] \<Longrightarrow>
    fn_register A C None Saved Saved module man own s = (s', Inr entry) \<Longrightarrow> fn_disk A C s'"

lemma fn_disk_history: "fn_disk A C s \<Longrightarrow> fn_history A C s"
proof (induction rule: fn_disk.induct)
  case opened
  have "fn_open A C True [] = Inr ((fn_in_memory A)\<lparr>fn_dir := Some []\<rparr>)" by (simp add: fn_open_def)
  then show ?case by (rule fn_history.opened)
next
  case (registered s man module own s' entry)
  then show ?case using fn_history.register [of A C s None Saved Saved module man own] by simp
qed

lemma register_Inr:
  assumes "fn_register A C None Saved Saved module man own s = (s', Inr entry)" and "fn_dir s = Some d"
  obtains s1 b d' where "fn_load A C module man own s = (s1, Inr entry)"
    and "fn_to_json C \<lparr>sf_owner = own, sf_manifest = man, sf_hash = fe_hash entry\<rparr> = Inr b"
    and "s' = s1\<lparr>fn_dir := Some d'\<rparr>"
    and "\<And>o' f. file_at d' o' f = (if o' = own \<and> f = fm_name man @ ''.json'' then Some (Bytes b)
       else if o' = own \<and> f = fm_name man @ ''.wasm'' then Some (Bytes module) else file_at d o' f)"
proof -
  obtain s1 where s1: "fn_load A C module man own s = (s1, Inr entry)"
    using assms(1) by (auto simp: fn_register_def Let_def and_then_def split: prod.splits sum.splits option.splits)
  have dir: "fn_dir s1 = Some d" using fn_load_dir [of A C module man own s] s1 assms(2) by simp
  let ?j = "fn_to_json C \<lparr>sf_owner = own, sf_manifest = man, sf_hash = fe_hash entry\<rparr>"
  let ?d1 = "write_file own (fm_name man @ ''.wasm'') module (bt_update [] (\<lambda>fs. fs) own d)"
  obtain b where b: "?j = Inr b"
    using assms(1) by (cases ?j) (auto simp: fn_register_def s1 dir Let_def store_function_def plain_write_def)
  have s': "s' = s1\<lparr>fn_dir := Some (write_file own (fm_name man @ ''.json'') b ?d1)\<rparr>"
    using assms(1) by (auto simp: fn_register_def s1 dir Let_def store_function_def plain_write_def b)
  show ?thesis
    by (rule that [OF s1 b s']) (simp add: file_at_write file_at_mkdir)
qed

lemma kept_registered:
  assumes ok: "fn_ok A C s" and L: "registry_laws A" and I: "install_laws C"
    and kept: "fn_kept A C s d" and n: "fm_name man \<noteq> []"
    and load: "fn_load A C module man own s = (s1, Inr entry)"
    and json: "fn_to_json C \<lparr>sf_owner = own, sf_manifest = man, sf_hash = fe_hash entry\<rparr> = Inr b"
    and look: "\<And>o' f. file_at d' o' f = (if o' = own \<and> f = fm_name man @ ''.json'' then Some (Bytes b)
       else if o' = own \<and> f = fm_name man @ ''.wasm'' then Some (Bytes module) else file_at d o' f)"
  shows "fn_kept A C s1 d'"
proof -
  note get = fn_load_owned(1) [OF L I load] and mine = fn_load_owned(2) [OF L I load]
    and inst = fn_load_owned(3) [OF L I load]
  have mods: "fn_modules s1 = filter (\<lambda>m. \<not> same_function own (fm_name man) m) (fn_modules s)
      @ [\<lparr>bf_owner = own, bf_manifest = man, bf_module = to_hex C module\<rparr>]"
    using load by (cases rule: fn_load_cases [of A C module man own s]) auto
  have "kept_file A C s1 d' o' f st" if at: "file_at d' o' f = Some st" and x: "extension f = Some ''json''" for o' f st
  proof (cases "o' = own \<and> f = fm_name man @ ''.json''")
    case True
    with at look have "st = Bytes b" by simp
    with True n json inst get mods show ?thesis
      by (auto simp: kept_file_def look wasm_not_json intro!: exI [of _ man] exI [of _ module] exI [of _ entry])
  next
    case False
    have "f \<noteq> fm_name man @ ''.wasm''" using x extension_wasm by metis
    with at look False have "file_at d o' f = Some st" by simp
    with kept x obtain man' raw e t where k: "f = fm_name man' @ ''.json''" "st = Bytes t" "fm_name man' \<noteq> []"
      "fn_to_json C \<lparr>sf_owner = o', sf_manifest = man', sf_hash = fe_hash e\<rparr> = Inr t"
      "file_at d o' (fm_name man' @ ''.wasm'') = Some (Bytes raw)" "fn_install C raw man' o' = Inr e"
      "rg_get A (fn_registry s) (fm_name man') = Some e"
      "\<lparr>bf_owner = o', bf_manifest = man', bf_module = to_hex C raw\<rparr> \<in> set (fn_modules s)"
      unfolding fn_kept_def kept_file_def by blast
    have "fe_owner e = o'" using install_lawsD(2) [OF I k(6)] .
    with False k(1) mine [of e] k(7) have other: "fm_name man' \<noteq> fm_name man" by auto
    then have "file_at d' o' (fm_name man' @ ''.wasm'') = Some (Bytes raw)"
      using k(5) by (simp add: look wasm_not_json)
    with k other show ?thesis
      unfolding kept_file_def get mods
      by (intro exI [of _ man'] exI [of _ raw] exI [of _ e] exI [of _ t]) (simp add: same_function_def)
  qed
  moreover have "m \<noteq> [] \<and> file_at d' (fe_owner e) (m @ ''.json'') \<noteq> None"
    if "rg_get A (fn_registry s1) m = Some e" and "\<not> fe_builtin e" for m e
  proof (cases "m = fm_name man")
    case True
    with that get n install_lawsD(2) [OF I inst] show ?thesis by (simp add: look)
  next
    case False
    with that kept get show ?thesis by (auto simp: fn_kept_def look)
  qed
  ultimately show ?thesis by (auto simp: fn_kept_def)
qed

lemma fn_disk_kept:
  assumes "fn_disk A C s" and L: "registry_laws A" and I: "install_laws C" and K: "fn_codec_laws C"
  shows "\<exists>d. fn_dir s = Some d \<and> fn_kept A C s d"
  using assms(1)
proof induction
  case opened
  show ?case
    by (auto simp: fn_kept_def file_at_def fn_in_memory_def dest: registry_lawsD(3) [OF L])
next
  case (registered s man module own s' entry)
  then obtain d where d: "fn_dir s = Some d" "fn_kept A C s d" by blast
  have ok: "fn_ok A C s" using fn_history_ok [OF fn_disk_history [OF registered(1)] L I K] .
  obtain s1 b d' where s1: "fn_load A C module man own s = (s1, Inr entry)"
    and b: "fn_to_json C \<lparr>sf_owner = own, sf_manifest = man, sf_hash = fe_hash entry\<rparr> = Inr b"
    and s': "s' = s1\<lparr>fn_dir := Some d'\<rparr>"
    and look: "\<And>o' f. file_at d' o' f = (if o' = own \<and> f = fm_name man @ ''.json'' then Some (Bytes b)
       else if o' = own \<and> f = fm_name man @ ''.wasm'' then Some (Bytes module) else file_at d o' f)"
    by (rule register_Inr [OF registered(3) d(1)]) (rule that; assumption)
  have "fn_kept A C s1 d'" using kept_registered [OF ok L I d(2) registered(2) s1 b look] .
  then show ?case by (simp add: s' fn_kept_def kept_file_def)
qed

section \<open>Reopening\<close>

definition reopening :: "'r registry_api \<Rightarrow> 'r fn_store \<Rightarrow> 'r fn_store \<Rightarrow> string set \<Rightarrow> bool" where
  "reopening A s st N \<longleftrightarrow>
     (\<forall>n. rg_get A (fn_registry st) n = rg_get A (fn_registry s) n
        \<or> rg_get A (fn_registry st) n = rg_get A (rg_builtin A) n)
   \<and> (\<forall>n \<in> N. rg_get A (fn_registry st) n = rg_get A (fn_registry s) n)
   \<and> set (fn_modules st) \<subseteq> set (fn_modules s)"

lemma reopening_start: "reopening A s ((fn_in_memory A)\<lparr>fn_dir := d\<rparr>) {}"
  by (simp add: reopening_def fn_in_memory_def)

lemma reopening_function:
  assumes ok: "fn_ok A C s" and L: "registry_laws A" and I: "install_laws C" and K: "fn_codec_laws C"
    and k: "kept_file A C s d own (fst ef) (snd ef)" and r: "reopening A s st N"
    and files: "\<And>f. map_of files f = file_at d own f"
  shows "\<exists>st' n. open_function A C own files ef st = Inr st' \<and> fst ef = n @ ''.json'' \<and> reopening A s st' (insert n N)"
proof -
  from k obtain man raw e t where k: "fst ef = fm_name man @ ''.json''" "snd ef = Bytes t" "fm_name man \<noteq> []"
      "fn_to_json C \<lparr>sf_owner = own, sf_manifest = man, sf_hash = fe_hash e\<rparr> = Inr t"
      "file_at d own (fm_name man @ ''.wasm'') = Some (Bytes raw)" "fn_install C raw man own = Inr e"
      "rg_get A (fn_registry s) (fm_name man) = Some e"
      "\<lparr>bf_owner = own, bf_manifest = man, bf_module = to_hex C raw\<rparr> \<in> set (fn_modules s)"
    unfolding kept_file_def by blast
  have e: "fe_owner e = own" "fe_name e = fm_name man" using install_lawsD [OF I k(6)] by simp_all
  have "fe_owner x = own" if x: "rg_get A (fn_registry st) (fm_name man) = Some x" for x
  proof (cases "rg_get A (fn_registry st) (fm_name man) = rg_get A (fn_registry s) (fm_name man)")
    case True
    with x k(7) e show ?thesis by simp
  next
    case False
    with r x have "rg_get A (rg_builtin A) (fm_name man) = Some x"
      unfolding reopening_def by metis
    with fn_okD(5) [OF ok] k(7) e show ?thesis by fastforce
  qed
  then have free: "taken_by_other A (fn_registry st) (fm_name man) own = None" by (simp add: not_taken)
  let ?st = "st\<lparr>fn_registry := rg_insert A e (fn_registry st),
     fn_modules := filter (\<lambda>m. \<not> same_function own (fm_name man) m) (fn_modules st)
       @ [\<lparr>bf_owner = own, bf_manifest = man, bf_module = to_hex C raw\<rparr>]\<rparr>"
  have load: "fn_load A C raw man own st = (?st, Inr e)" by (simp add: fn_load_def free k(6))
  have j: "fn_utf8 C t = Inr t" "fn_from_json C t = Inr \<lparr>sf_owner = own, sf_manifest = man, sf_hash = fe_hash e\<rparr>"
    using K k(4) by (auto simp: fn_codec_laws_def)
  have "open_function A C own files ef st = Inr ?st"
    by (simp add: open_function_Inr k(1,2) extension_json [OF k(3)] with_extension_json [OF k(3)] files k(5)
      read_text_def read_bytes_def j load)
  moreover have "reopening A s ?st (insert (fm_name man) N)"
    using r k(7,8) by (auto simp: reopening_def registry_lawsD(1) [OF L] e)
  ultimately show ?thesis using k(1) by blast
qed

lemma reopening_functions:
  assumes ok: "fn_ok A C s" and L: "registry_laws A" and I: "install_laws C" and K: "fn_codec_laws C"
    and kept: "fn_kept A C s d" and files: "\<And>f. map_of files f = file_at d own f"
  shows "reopening A s st N \<Longrightarrow> \<forall>ef \<in> set es. file_at d own (fst ef) = Some (snd ef)
    \<Longrightarrow> \<exists>st'. open_functions A C own files es st = Inr st'
      \<and> reopening A s st' (N \<union> {n. n \<noteq> [] \<and> n @ ''.json'' \<in> fst ` set es})"
proof (induction es arbitrary: st N)
  case (Cons ef es)
  show ?case
  proof (cases "extension (fst ef) = Some ''json''")
    case False
    then have "n @ ''.json'' \<noteq> fst ef" if "n \<noteq> []" for n using extension_json [OF that] by metis
    then have "{n. n \<noteq> [] \<and> n @ ''.json'' \<in> fst ` set (ef # es)} = {n. n \<noteq> [] \<and> n @ ''.json'' \<in> fst ` set es}" by auto
    moreover have "open_function A C own files ef st = Inr st" using False by (simp add: open_function_def)
    ultimately show ?thesis using Cons by simp
  next
    case True
    with Cons.prems(2) kept have k: "kept_file A C s d own (fst ef) (snd ef)" by (auto simp: fn_kept_def)
    from reopening_function [OF ok L I K k Cons.prems(1) files] obtain st1 n where
      st1: "open_function A C own files ef st = Inr st1" "fst ef = n @ ''.json''" "reopening A s st1 (insert n N)" by blast
    from Cons.IH [OF st1(3)] Cons.prems(2) obtain st' where st': "open_functions A C own files es st1 = Inr st'"
      "reopening A s st' (insert n N \<union> {n. n \<noteq> [] \<and> n @ ''.json'' \<in> fst ` set es})" by auto
    have "N \<union> {n. n \<noteq> [] \<and> n @ ''.json'' \<in> fst ` set (ef # es)} \<subseteq> insert n N \<union> {n. n \<noteq> [] \<and> n @ ''.json'' \<in> fst ` set es}"
      using st1(2) by auto
    with st' st1(1) show ?thesis by (auto simp: reopening_def)
  qed
qed simp

lemma reopening_owners:
  assumes ok: "fn_ok A C s" and L: "registry_laws A" and I: "install_laws C" and K: "fn_codec_laws C"
    and kept: "fn_kept A C s d" and lists: "\<And>own. list_error C own = None"
  shows "reopening A s st N \<Longrightarrow> \<forall>e \<in> set ds. distinct (map fst (snd e)) \<and> (\<forall>f. map_of (snd e) f = file_at d (fst e) f)
    \<Longrightarrow> \<exists>st'. open_owners A C ds st = Inr st'
      \<and> reopening A s st' (N \<union> {n. n \<noteq> [] \<and> (\<exists>e \<in> set ds. n @ ''.json'' \<in> fst ` set (snd e))})"
proof (induction ds arbitrary: st N)
  case (Cons e ds)
  obtain own files where e: "e = (own, files)" by (cases e)
  with Cons.prems(2) have files: "map_of files f = file_at d own f" and dist: "distinct (map fst files)" for f by auto
  have "\<forall>ef \<in> set files. file_at d own (fst ef) = Some (snd ef)"
    using dist by (auto simp: files [symmetric])
  from reopening_functions [OF ok L I K kept files Cons.prems(1) this] obtain st1 where
    st1: "open_functions A C own files files st = Inr st1"
      "reopening A s st1 (N \<union> {n. n \<noteq> [] \<and> n @ ''.json'' \<in> fst ` set files})" by blast
  from Cons.IH [OF st1(2)] Cons.prems(2) obtain st' where st': "open_owners A C ds st1 = Inr st'"
    "reopening A s st' (N \<union> {n. n \<noteq> [] \<and> n @ ''.json'' \<in> fst ` set files}
       \<union> {n. n \<noteq> [] \<and> (\<exists>e \<in> set ds. n @ ''.json'' \<in> fst ` set (snd e))})" by auto
  have "N \<union> {n. n \<noteq> [] \<and> n @ ''.json'' \<in> fst ` set files} \<union> {n. n \<noteq> [] \<and> (\<exists>e \<in> set ds. n @ ''.json'' \<in> fst ` set (snd e))}
      = N \<union> {n. n \<noteq> [] \<and> (\<exists>e \<in> set (e # ds). n @ ''.json'' \<in> fst ` set (snd e))}" by (auto simp: e)
  with st' st1(1) show ?case by (simp add: e lists)
qed simp

text \<open>
  C20. After any registrations that were kept, opening the directory again, listed in any order, succeeds and
  gives every name the function it had, and every contract's bundle the modules it had.
\<close>

theorem functions_survive_reopening:
  assumes "fn_disk A C s" and L: "registry_laws A" and I: "install_laws C" and K: "fn_codec_laws C"
    and "\<forall>own. list_error C own = None" and "fn_dir s = Some d" and rel: "relists d d'"
  shows "\<exists>s'. fn_open A C True d' = Inr s'
     \<and> (\<forall>n. rg_get A (fn_registry s') n = rg_get A (fn_registry s) n)
     \<and> (\<forall>pins. modules_for A s' pins = modules_for A s pins)"
proof -
  have ok: "fn_ok A C s" using fn_history_ok [OF fn_disk_history [OF assms(1)] L I K] .
  have kept: "fn_kept A C s d" using fn_disk_kept [OF assms(1) L I K] assms(6) by auto
  have entries: "\<forall>e \<in> set d'. distinct (map fst (snd e)) \<and> (\<forall>f. map_of (snd e) f = file_at d (fst e) f)"
    using rel relists_files [OF rel] by (auto simp: relists_def)
  obtain s' where s': "open_owners A C d' ((fn_in_memory A)\<lparr>fn_dir := Some d'\<rparr>) = Inr s'"
      "reopening A s s' {n. n \<noteq> [] \<and> (\<exists>e \<in> set d'. n @ ''.json'' \<in> fst ` set (snd e))}"
    using reopening_owners [OF ok L I K kept _ reopening_start entries] assms(5) by auto
  then have open_: "fn_open A C True d' = Inr s'" by (simp add: fn_open_def)
  then have ok': "fn_ok A C s'" using fn_history_ok [OF fn_history.opened L I K] by blast
  have get: "rg_get A (fn_registry s') n = rg_get A (fn_registry s) n" for n
  proof (cases "\<exists>e. rg_get A (fn_registry s) n = Some e \<and> \<not> fe_builtin e")
    case True
    then obtain e where e: "rg_get A (fn_registry s) n = Some e" "\<not> fe_builtin e" by blast
    then have "n \<noteq> []" "file_at d (fe_owner e) (n @ ''.json'') \<noteq> None"
      using kept by (auto simp: fn_kept_def)
    then obtain f where "n \<noteq> []" "file_at d (fe_owner e) (n @ ''.json'') = Some f" by auto
    moreover from relists_has [OF rel this(2)] obtain files where
      "(fe_owner e, files) \<in> set d'" "(n @ ''.json'', f) \<in> set files" .
    ultimately have "n \<in> {n. n \<noteq> [] \<and> (\<exists>e \<in> set d'. n @ ''.json'' \<in> fst ` set (snd e))}" by force
    with s'(2) show ?thesis by (simp add: reopening_def)
  next
    case False
    then have "rg_get A (fn_registry s) n = rg_get A (rg_builtin A) n"
      using fn_okD(3) [OF ok, of n] fn_okD(5) [OF ok, of n] by (cases "rg_get A (fn_registry s) n"; cases "rg_get A (rg_builtin A) n") auto
    with s'(2) show ?thesis unfolding reopening_def by metis
  qed
  have "module_for A s' p = module_for A s p" for p
  proof (cases "pinned_entry A s p")
    case None
    with get show ?thesis by (simp add: module_for_def pinned_entry_def)
  next
    case (Some e)
    then have Some': "pinned_entry A s' p = Some e" using get by (simp add: pinned_entry_def)
    from module_for_entry [OF ok I Some] obtain m where m: "module_for A s p = Some m" "m \<in> set (fn_modules s)"
      "fm_name (bf_manifest m) = pin_name p" by blast
    from module_for_entry [OF ok' I Some'] obtain m' where m': "module_for A s' p = Some m'" "m' \<in> set (fn_modules s')"
      "fm_name (bf_manifest m') = pin_name p" by blast
    have "m' \<in> set (fn_modules s)" using s'(2) m'(2) by (auto simp: reopening_def)
    with m m' fn_okD(6) [OF ok] show ?thesis by (auto simp: distinct_map inj_on_def)
  qed
  then have "module_for A s' = module_for A s" ..
  with open_ get show ?thesis by (auto simp: modules_for_def)
qed

section \<open>An update that stopped halfway\<close>

lemma open_functions_checked:
  "open_functions A C own files es st = Inr st' \<Longrightarrow> ef \<in> set es \<Longrightarrow> extension (fst ef) = Some ''json''
    \<Longrightarrow> \<exists>t x module e. read_text C (Some (snd ef)) = Inr t \<and> fn_from_json C t = Inr x
      \<and> read_bytes (map_of files (with_extension ''wasm'' (fst ef))) = Inr module
      \<and> fn_install C module (sf_manifest x) (sf_owner x) = Inr e \<and> fe_hash e = sf_hash x"
proof (induction es arbitrary: st)
  case (Cons a es)
  then obtain st1 where a: "open_function A C own files a st = Inr st1" and es: "open_functions A C own files es st1 = Inr st'"
    by (auto simp: and_then_eq_Inr)
  show ?case
  proof (cases "ef = a")
    case True
    from a Cons.prems(3) obtain t x module e where run: "read_text C (Some (snd ef)) = Inr t" "fn_from_json C t = Inr x"
      "read_bytes (map_of files (with_extension ''wasm'' (fst ef))) = Inr module"
      "fn_load A C module (sf_manifest x) (sf_owner x) st = (st1, Inr e)" "fe_hash e = sf_hash x"
      by (auto simp: open_function_Inr True)
    have "fn_install C module (sf_manifest x) (sf_owner x) = Inr e"
      using run(4) by (cases rule: fn_load_cases [of A C module "sf_manifest x" "sf_owner x" st]) auto
    with run show ?thesis by blast
  next
    case False
    with Cons.IH [OF es] Cons.prems show ?thesis by auto
  qed
qed simp

lemma open_owners_checked:
  "open_owners A C ds st = Inr st' \<Longrightarrow> (own, files) \<in> set ds \<Longrightarrow> \<exists>st1 st2. open_functions A C own files files st1 = Inr st2"
proof (induction ds arbitrary: st)
  case (Cons e ds)
  then obtain st1 where "open_functions A C (fst e) (snd e) (snd e) st = Inr st1" "open_owners A C ds st1 = Inr st'"
    using open_owners_Cons [of A C "fst e" "snd e" ds st st'] by auto
  with Cons show ?case by (cases "e = (own, files)") auto
qed simp

text \<open>The hash an entry records is its module's alone.\<close>

definition hashes_modules :: "fn_codec \<Rightarrow> bool" where
  "hashes_modules C \<longleftrightarrow> (\<forall>m man man' own own' e e'.
     fn_install C m man own = Inr e \<longrightarrow> fn_install C m man' own' = Inr e' \<longrightarrow> fe_hash e = fe_hash e')"

text \<open>An update of a function that writes its module and fails to write its record answers an error, and the
  directory it leaves is not opened.\<close>

lemma halfway_update_locks_functions:
  assumes "fn_disk A C s" and L: "registry_laws A" and I: "install_laws C" and K: "fn_codec_laws C"
    and H: "hashes_modules C" and dir: "fn_dir s = Some d"
    and old: "rg_get A (fn_registry s) (fm_name man) = Some e" "\<not> fe_builtin e" "fe_owner e = own"
    and new: "fn_install C module man own = Inr e'" "fe_hash e' \<noteq> fe_hash e"
    and run: "fn_register A C None Saved (Failed why None) module man own s = (s', r)"
    and after: "fn_dir s' = Some d1" "relists d1 d'"
  shows "isl r \<and> rg_get A (fn_registry s') (fm_name man) = Some e' \<and> isl (fn_open A C True d')"
proof -
  have free: "taken_by_other A (fn_registry s) (fm_name man) own = None" using old by (simp add: not_taken)
  let ?n = "fm_name man"
  let ?d1 = "write_file own (?n @ ''.wasm'') module (bt_update [] (\<lambda>fs. fs) own d)"
  have "isl r \<and> d1 = ?d1 \<and> fn_registry s' = rg_insert A e' (fn_registry s)"
    using run after(1)
    by (cases "fn_to_json C \<lparr>sf_owner = own, sf_manifest = man, sf_hash = fe_hash e'\<rparr>")
      (auto simp: fn_register_def fn_load_def free new(1) dir Let_def store_function_def plain_write_def)
  then have r: "isl r" and d1: "d1 = ?d1" and reg: "fn_registry s' = rg_insert A e' (fn_registry s)" by auto
  have n: "?n \<noteq> []" and "file_at d own (?n @ ''.json'') \<noteq> None"
    using fn_disk_kept [OF assms(1) L I K] dir old by (auto simp: fn_kept_def)
  then obtain f where f: "file_at d own (?n @ ''.json'') = Some f" by auto
  then have "kept_file A C s d own (?n @ ''.json'') f"
    using fn_disk_kept [OF assms(1) L I K] dir extension_json [OF n] by (auto simp: fn_kept_def)
  then obtain man0 t where t: "f = Bytes t" "fn_to_json C \<lparr>sf_owner = own, sf_manifest = man0, sf_hash = fe_hash e\<rparr> = Inr t"
    using old(1) by (auto simp: kept_file_def)
  have j: "fn_utf8 C t = Inr t" "fn_from_json C t = Inr \<lparr>sf_owner = own, sf_manifest = man0, sf_hash = fe_hash e\<rparr>"
    using K t(2) by (auto simp: fn_codec_laws_def)
  have at: "file_at d1 own (?n @ ''.json'') = Some (Bytes t)" "file_at d1 own (?n @ ''.wasm'') = Some (Bytes module)"
    using f t(1) wasm_not_json [of ?n ?n] by (simp_all add: d1 file_at_write file_at_mkdir)
  from relists_has [OF after(2) at(1)] obtain files where files: "(own, files) \<in> set d'" "(?n @ ''.json'', Bytes t) \<in> set files" .
  have "isl (fn_open A C True d')"
  proof (rule ccontr)
    assume "\<not> isl (fn_open A C True d')"
    then obtain s'' where "open_owners A C d' ((fn_in_memory A)\<lparr>fn_dir := Some d'\<rparr>) = Inr s''"
      by (cases "fn_open A C True d'") (auto simp: fn_open_def)
    from open_owners_checked [OF this files(1)] obtain st1 st2 where "open_functions A C own files files st1 = Inr st2" by blast
    from open_functions_checked [OF this files(2)] obtain x :: fn_entry where
      "fn_install C module man0 own = Inr x" "fe_hash x = fe_hash e"
      by (auto simp: extension_json [OF n] with_extension_json [OF n] relists_files [OF after(2) files(1)] at
        read_text_def read_bytes_def j)
    with H new show False unfolding hashes_modules_def by metis
  qed
  with r show ?thesis
    by (simp add: reg registry_lawsD(1) [OF L] install_lawsD(1) [OF I new(1)])
qed

end
