(* ===== verification/Registration.thy ===== *)
theory Registration
  imports Function_Disk Resolve Budget
begin

text \<open>
  How contracts and functions come to an engine (\<open>Engine::open\<close>, \<open>in_memory\<close>, \<open>register_contract\<close>,
  \<open>register_compiled\<close>, \<open>register_function\<close>, \<open>publish\<close>, \<open>unpublish\<close> of \<open>src/engine.rs\<close>), over any contract store.
  Parcel's parser, its resolution of what a document inherits and its compiler are parameters.
\<close>

section \<open>The stores an engine is given\<close>

record 's store_ops =
  so_put :: "registered \<Rightarrow> 's \<Rightarrow> 's \<times> unit res"
  so_current :: "'s \<Rightarrow> string \<Rightarrow> registered option"
  so_version :: "'s \<Rightarrow> string \<Rightarrow> nat \<Rightarrow> registered option"
  so_list :: "'s \<Rightarrow> registered list"
  so_audiences :: "'s \<Rightarrow> string \<Rightarrow> string set"
  so_publish :: "string \<Rightarrow> string \<Rightarrow> 's \<Rightarrow> 's \<times> unit res"
  so_unpublish :: "string \<Rightarrow> string \<Rightarrow> 's \<Rightarrow> 's \<times> unit res"

definition memory_ops :: "contents store_ops" where
  "memory_ops = \<lparr>so_put = memory_put, so_current = mem_current, so_version = mem_version, so_list = mem_list,
     so_audiences = mem_audiences, so_publish = memory_publish, so_unpublish = memory_unpublish\<rparr>"

definition dir_ops :: "store_codec \<Rightarrow> string option \<Rightarrow> write_outcome \<Rightarrow> dir_store store_ops" where
  "dir_ops J w w' = \<lparr>so_put = dir_put J w, so_current = (\<lambda>s. mem_current (ds_memory s)),
     so_version = (\<lambda>s. mem_version (ds_memory s)), so_list = (\<lambda>s. mem_list (ds_memory s)),
     so_audiences = (\<lambda>s. mem_audiences (ds_memory s)), so_publish = dir_publish J w', so_unpublish = dir_unpublish J w'\<rparr>"

text \<open>The contract of the trait, of a record of operations; both stores have it.\<close>

definition sound_store :: "'s store_ops \<Rightarrow> ('s \<Rightarrow> bool) \<Rightarrow> bool" where
  "sound_store S ok \<longleftrightarrow> contract_store (so_put S) (so_current S) (so_version S) (so_list S) (so_audiences S)
     (so_publish S) (so_unpublish S) ok"

lemma memory_sound: "sound_store memory_ops contents_ok"
  unfolding sound_store_def memory_ops_def store_ops.simps by (rule mem.contract_store_axioms)

lemma dir_sound: "sound_store (dir_ops J w w') (\<lambda>s. contents_ok (ds_memory s))"
  unfolding sound_store_def dir_ops_def store_ops.simps by (rule disk.contract_store_axioms)

section \<open>The engine's registers\<close>

record 'r parcel_api =
  pc_parse :: "string \<Rightarrow> string + contract_doc"
  pc_owner :: "contract_doc \<Rightarrow> (string \<Rightarrow> contract_doc option) \<Rightarrow> string list + string option"
  pc_compile :: "contract_doc \<Rightarrow> schema \<Rightarrow> 'r \<Rightarrow> (string \<Rightarrow> contract_doc option) \<Rightarrow> string list + compilation"

record ('s, 'r) registers =
  er_store :: 's
  er_functions :: "'r fn_store"
  er_documents :: "string \<rightharpoonup> contract_doc"

text \<open>\<open>Engine::open\<close>: the workspace's directory, then its contracts, functions and budgets, each opened or
  the engine is not.\<close>

definition engine_open ::
  "string option \<Rightarrow> store_codec \<Rightarrow> store_dir \<Rightarrow> 'r registry_api \<Rightarrow> fn_codec \<Rightarrow> bool \<Rightarrow> store_dir \<Rightarrow> ledger_codec \<Rightarrow> fs \<Rightarrow> string
     \<Rightarrow> ((dir_store, 'r) registers \<times> budget_store) res" where
  "engine_open mk J contracts A C listable functions L d path =
     and_then (case mk of Some e \<Rightarrow> Inl (Io e) | None \<Rightarrow> Inr ()) (\<lambda>_.
     and_then (dir_open J contracts) (\<lambda>s.
     and_then (fn_open A C listable functions) (\<lambda>f.
     and_then (open_store L d path) (\<lambda>b.
       Inr (\<lparr>er_store = s, er_functions = f, er_documents = Map.empty\<rparr>, b)))))"

definition engine_in_memory :: "'r registry_api \<Rightarrow> (contents, 'r) registers \<times> budget_store" where
  "engine_in_memory A =
     (\<lparr>er_store = empty_contents, er_functions = fn_in_memory A, er_documents = Map.empty\<rparr>, in_memory)"

definition add_document :: "contract_doc \<Rightarrow> ('s, 'r) registers \<Rightarrow> ('s, 'r) registers" where
  "add_document doc E = E\<lparr>er_documents := (er_documents E)(doc_contract doc \<mapsto> doc)\<rparr>"

definition document :: "'s store_ops \<Rightarrow> ('s, 'r) registers \<Rightarrow> string \<Rightarrow> contract_doc option" where
  "document S E name =
     (case so_current S (er_store E) name of Some r \<Rightarrow> Some (r_doc r) | None \<Rightarrow> er_documents E name)"

definition compile_errors :: "string list + 'a \<Rightarrow> 'a res" where
  "compile_errors r = (case r of Inl ds \<Rightarrow> Inl (Compile ds) | Inr x \<Rightarrow> Inr x)"

text \<open>What \<open>register_contract\<close> puts into the store, before it does.\<close>

definition compile_for ::
  "'r parcel_api \<Rightarrow> 'r registry_api \<Rightarrow> 's store_ops \<Rightarrow> ('s, 'r) registers \<Rightarrow> string \<Rightarrow> schema \<Rightarrow> registered res" where
  "compile_for P A S E source schema =
     and_then (case pc_parse P source of Inl d \<Rightarrow> Inl (Compile [d]) | Inr doc \<Rightarrow> Inr doc) (\<lambda>doc.
     and_then (compile_errors (pc_owner P doc (document S E))) (\<lambda>own.
     and_then (compile_errors (pc_compile P doc schema (registry_for A (er_functions E) own) (document S E))) (\<lambda>c.
       Inr \<lparr>r_doc = doc, r_schema = schema, r_functions = modules_for A (er_functions E) (cc_functions (contract c)),
         r_compilation = c\<rparr>)))"

definition put_registered ::
  "'s store_ops \<Rightarrow> registered \<Rightarrow> ('s, 'r) registers \<Rightarrow> ('s, 'r) registers \<times> registered res" where
  "put_registered S reg E =
     (let (s, r) = so_put S reg (er_store E) in (E\<lparr>er_store := s\<rparr>, and_then r (\<lambda>_. Inr reg)))"

definition register_contract ::
  "'r parcel_api \<Rightarrow> 'r registry_api \<Rightarrow> 's store_ops \<Rightarrow> string \<Rightarrow> schema \<Rightarrow> ('s, 'r) registers
     \<Rightarrow> ('s, 'r) registers \<times> registered res" where
  "register_contract P A S source schema E =
     (case compile_for P A S E source schema of
        Inl e \<Rightarrow> (E, Inl e)
      | Inr reg \<Rightarrow> put_registered S reg E)"

definition register_compiled ::
  "'r registry_api \<Rightarrow> fn_codec \<Rightarrow> store_codec \<Rightarrow> 's store_ops \<Rightarrow> contract_doc \<Rightarrow> string \<Rightarrow> bundled_function list
     \<Rightarrow> ('s, 'r) registers \<Rightarrow> ('s, 'r) registers \<times> registered res" where
  "register_compiled A C J S doc compiled fns E =
     (case fn_adopt A C fns (er_functions E) of
        (f, Inl e) \<Rightarrow> (E\<lparr>er_functions := f\<rparr>, Inl e)
      | (f, Inr _) \<Rightarrow>
          (case from_compiled J doc compiled fns of
             Inl e \<Rightarrow> (E\<lparr>er_functions := f\<rparr>, Inl e)
           | Inr reg \<Rightarrow> put_registered S reg (E\<lparr>er_functions := f\<rparr>)))"

definition register_function ::
  "'r registry_api \<Rightarrow> fn_codec \<Rightarrow> string option \<Rightarrow> write_outcome \<Rightarrow> write_outcome \<Rightarrow> string \<Rightarrow> fn_manifest \<Rightarrow> string
     \<Rightarrow> ('s, 'r) registers \<Rightarrow> ('s, 'r) registers \<times> fn_entry res" where
  "register_function A C mk w1 w2 raw man own E =
     (let (f, r) = fn_register A C mk w1 w2 raw man own (er_functions E) in (E\<lparr>er_functions := f\<rparr>, r))"

definition engine_publish :: "'s store_ops \<Rightarrow> string \<Rightarrow> string \<Rightarrow> ('s, 'r) registers \<Rightarrow> ('s, 'r) registers \<times> unit res" where
  "engine_publish S name audience E =
     (case so_current S (er_store E) name of
        None \<Rightarrow> (E, Inl (UnknownContract name))
      | Some _ \<Rightarrow> (let (s, r) = so_publish S name audience (er_store E) in (E\<lparr>er_store := s\<rparr>, r)))"

definition engine_unpublish :: "'s store_ops \<Rightarrow> string \<Rightarrow> string \<Rightarrow> ('s, 'r) registers \<Rightarrow> ('s, 'r) registers \<times> unit res" where
  "engine_unpublish S name audience E =
     (let (s, r) = so_unpublish S name audience (er_store E) in (E\<lparr>er_store := s\<rparr>, r))"

definition engine_contracts :: "'s store_ops \<Rightarrow> ('s, 'r) registers \<Rightarrow> registered list" where
  "engine_contracts S E = so_list S (er_store E)"

end
