(* ===== verification/Registration_Safety.thy ===== *)
theory Registration_Safety
  imports Registration
begin

text \<open>
  What registering promises: a contract calls built-ins and its owner's functions only, and carries the
  modules of those; one version of one contract changes, or nothing; what one engine compiled another
  registers as it is; and what keeps an engine from opening.
\<close>

section \<open>What a contract may call\<close>

text \<open>What parcel documents of its compiler: the contract it makes is the document's and the owner's the
  document resolves to, and every function it pins is one of the registry it was given.\<close>

definition compile_laws :: "'r parcel_api \<Rightarrow> 'r registry_api \<Rightarrow> bool" where
  "compile_laws P A \<longleftrightarrow> (\<forall>doc sch r look c. pc_compile P doc sch r look = Inr c \<longrightarrow>
     cc_name (contract c) = doc_contract doc
   \<and> (\<forall>own. pc_owner P doc look = Inr own \<longrightarrow> cc_owner (contract c) = own)
   \<and> distinct (cc_functions (contract c))
   \<and> (\<forall>p \<in> set (cc_functions (contract c)). \<exists>e. rg_get A r (pin_name p) = Some e \<and> fe_hash e = pin_hash p))"

lemma compile_for_Inr:
  assumes "compile_for P A S E source schema = Inr reg"
  obtains doc own where "pc_parse P source = Inr doc" and "pc_owner P doc (document S E) = Inr own"
    and "pc_compile P doc schema (registry_for A (er_functions E) own) (document S E) = Inr (r_compilation reg)"
    and "r_doc reg = doc" and "r_schema reg = schema"
    and "r_functions reg = modules_for A (er_functions E) (cc_functions (contract (r_compilation reg)))"
  using assms
  by (auto simp: compile_for_def and_then_eq_Inr compile_errors_def split: sum.splits)

lemma register_contract_cases:
  obtains (refused) e where "compile_for P A S E source schema = Inl e" and "register_contract P A S source schema E = (E, Inl e)"
  | (stored) reg s r where "compile_for P A S E source schema = Inr reg" and "so_put S reg (er_store E) = (s, r)"
      and "register_contract P A S source schema E = (E\<lparr>er_store := s\<rparr>, and_then r (\<lambda>_. Inr reg))"
proof (cases "compile_for P A S E source schema")
  case (Inl e)
  then show ?thesis using refused by (simp add: register_contract_def)
next
  case (Inr reg)
  then show ?thesis using stored [of reg "fst (so_put S reg (er_store E))" "snd (so_put S reg (er_store E))"]
    by (simp add: register_contract_def put_registered_def Let_def split: prod.split)
qed

lemma register_contract_Inr:
  assumes "register_contract P A S source schema E = (E', Inr reg)"
  shows "compile_for P A S E source schema = Inr reg" and "\<exists>s. so_put S reg (er_store E) = (s, Inr ()) \<and> E' = E\<lparr>er_store := s\<rparr>"
  using assms by (cases rule: register_contract_cases [of P A S E source schema]; auto simp: and_then_eq_Inr)+

text \<open>The functions a compiled contract is pinned to.\<close>

lemma compiled_pins:
  assumes c: "compile_for P A S E source schema = Inr reg" and P: "compile_laws P A" and L: "registry_laws A"
    and I: "install_laws C" and ok: "fn_ok A C (er_functions E)" and p: "p \<in> set (cc_functions (contract (r_compilation reg)))"
  obtains e where "rg_get A (fn_registry (er_functions E)) (pin_name p) = Some e" and "fe_hash e = pin_hash p"
    and "fe_builtin e \<or> (reg_owner reg = Some (fe_owner e) \<and> pinned_entry A (er_functions E) p = Some e
      \<and> (\<exists>m \<in> set (r_functions reg). installs_to C m e))"
proof -
  obtain doc own where run: "pc_owner P doc (document S E) = Inr own"
      "pc_compile P doc schema (registry_for A (er_functions E) own) (document S E) = Inr (r_compilation reg)"
      "r_functions reg = modules_for A (er_functions E) (cc_functions (contract (r_compilation reg)))"
    using c by (rule compile_for_Inr) (rule that; assumption)
  have own: "reg_owner reg = own" using P run(1,2) unfolding compile_laws_def reg_owner_def by blast
  obtain e where "rg_get A (registry_for A (er_functions E) own) (pin_name p) = Some e" and h: "fe_hash e = pin_hash p"
    using P run(2) p unfolding compile_laws_def by blast
  then have e: "rg_get A (fn_registry (er_functions E)) (pin_name p) = Some e" "fe_builtin e \<or> own = Some (fe_owner e)"
    by (auto simp: registry_for_get [OF L] split: option.splits if_splits)
  show ?thesis
  proof (rule that [OF e(1) h], cases "fe_builtin e")
    case False
    with e h have pe: "pinned_entry A (er_functions E) p = Some e" by (simp add: pinned_entry_def)
    from module_for_entry [OF ok I pe] obtain m where "module_for A (er_functions E) p = Some m" "installs_to C m e" by blast
    moreover from this(1) p have "m \<in> set (r_functions reg)" by (force simp: run(3) modules_for_def map_filter_def)
    ultimately show "fe_builtin e \<or> (reg_owner reg = Some (fe_owner e) \<and> pinned_entry A (er_functions E) p = Some e
      \<and> (\<exists>m \<in> set (r_functions reg). installs_to C m e))" using False e(2) own pe by blast
  qed simp
qed

text \<open>
  C17. A contract an engine registered is pinned to built-ins and to functions of its own owner, as they are
  registered now; and the module of each of those is in its bundle.
\<close>

theorem contracts_call_their_owners_functions:
  assumes "fn_history A C (er_functions E)" and L: "registry_laws A" and I: "install_laws C" and K: "fn_codec_laws C"
    and P: "compile_laws P A" and run: "register_contract P A S source schema E = (E', Inr reg)"
    and p: "p \<in> set (cc_functions (contract (r_compilation reg)))"
  shows "\<exists>e. rg_get A (fn_registry (er_functions E')) (pin_name p) = Some e \<and> fe_hash e = pin_hash p
     \<and> (fe_builtin e \<or> (reg_owner reg = Some (fe_owner e) \<and> (\<exists>m \<in> set (r_functions reg). installs_to C m e)))"
proof -
  have ok: "fn_ok A C (er_functions E)" using fn_history_ok assms(1-4) .
  note c = register_contract_Inr [OF run]
  have "er_functions E' = er_functions E" using c(2) by auto
  with compiled_pins [OF c(1) P L I ok p] show ?thesis by metis
qed

section \<open>What registering changes\<close>

lemma put_registered_store:
  assumes "sound_store S ok" and "ok (er_store E)" and "put_registered S reg E = (E', r)"
  shows "ok (er_store E') \<and> er_functions E' = er_functions E \<and> er_documents E' = er_documents E
   \<and> (case r of
        Inr x \<Rightarrow> x = reg \<and> (\<forall>n v. so_version S (er_store E') n v =
            (if n = reg_name reg \<and> v = reg_version reg then Some reg else so_version S (er_store E) n v))
      | Inl _ \<Rightarrow> so_version S (er_store E') = so_version S (er_store E))
   \<and> so_audiences S (er_store E') = so_audiences S (er_store E)"
proof -
  note S = assms(1) [unfolded sound_store_def]
  obtain s q where put: "so_put S reg (er_store E) = (s, q)" by (cases "so_put S reg (er_store E)")
  with assms(3) have E': "E' = E\<lparr>er_store := s\<rparr>" and r: "r = and_then q (\<lambda>_. Inr reg)"
    by (simp_all add: put_registered_def)
  have "ok s" using contract_store.put_ok [OF S assms(2), of reg] put by simp
  moreover have "so_audiences S s = so_audiences S (er_store E)"
    using contract_store.put_audiences [OF S, of reg "er_store E"] put by auto
  moreover have "case r of
        Inr x \<Rightarrow> x = reg \<and> (\<forall>n v. so_version S s n v =
            (if n = reg_name reg \<and> v = reg_version reg then Some reg else so_version S (er_store E) n v))
      | Inl _ \<Rightarrow> so_version S s = so_version S (er_store E)"
  proof (cases q)
    case (Inl e)
    with contract_store.put_failed [OF S, of reg "er_store E" s e] put show ?thesis by (auto simp: r)
  next
    case (Inr u)
    with contract_store.put_version [OF S assms(2), of reg s] put show ?thesis by (auto simp: r)
  qed
  ultimately show ?thesis by (cases r) (simp_all add: E')
qed

text \<open>
  Registering a contract, by compiling it or as another compiled it, changes one version of the contract
  it answers with, or no version of any; it publishes nothing and unpublishes nothing; and compiling one
  changes no function.
\<close>

theorem registering_changes_one_version:
  assumes "sound_store S ok" and "ok (er_store E)"
    and "register_contract P A S source schema E = (E', r) \<or> register_compiled A C J S doc compiled fns E = (E', r)"
  shows "ok (er_store E')
   \<and> (case r of
        Inr reg \<Rightarrow> \<forall>n v. so_version S (er_store E') n v =
            (if n = reg_name reg \<and> v = reg_version reg then Some reg else so_version S (er_store E) n v)
      | Inl _ \<Rightarrow> so_version S (er_store E') = so_version S (er_store E))
   \<and> so_audiences S (er_store E') = so_audiences S (er_store E)
   \<and> (register_contract P A S source schema E = (E', r) \<longrightarrow> er_functions E' = er_functions E)"
proof -
  have compiled: "?thesis" if run: "register_contract P A S source schema E = (E', r)"
  proof (cases "compile_for P A S E source schema")
    case (Inl e)
    with run have "E' = E" "r = Inl e" by (simp_all add: register_contract_def)
    with assms(2) show ?thesis by simp
  next
    case (Inr reg)
    with run have "put_registered S reg E = (E', r)" by (simp add: register_contract_def)
    from put_registered_store [OF assms(1,2) this] show ?thesis by (auto split: sum.splits)
  qed
  have given: "?thesis" if run: "register_compiled A C J S doc compiled fns E = (E', r)"
    and other: "register_contract P A S source schema E \<noteq> (E', r)"
  proof (cases "\<exists>f u reg. fn_adopt A C fns (er_functions E) = (f, Inr u) \<and> from_compiled J doc compiled fns = Inr reg")
    case False
    with run have "er_store E' = er_store E \<and> (\<exists>e. r = Inl e)"
      by (cases "fn_adopt A C fns (er_functions E)"; cases "snd (fn_adopt A C fns (er_functions E))";
          cases "from_compiled J doc compiled fns") (auto simp: register_compiled_def intro: sym)
    with assms(2) other show ?thesis by auto
  next
    case True
    then obtain f u reg where "fn_adopt A C fns (er_functions E) = (f, Inr u)" "from_compiled J doc compiled fns = Inr reg" by blast
    with run have put: "put_registered S reg (E\<lparr>er_functions := f\<rparr>) = (E', r)" by (simp add: register_compiled_def)
    have "ok (er_store (E\<lparr>er_functions := f\<rparr>))" using assms(2) by simp
    from put_registered_store [OF assms(1) this put] other show ?thesis by (auto split: sum.splits)
  qed
  show ?thesis using assms(3) compiled given by blast
qed

section \<open>From one engine to another\<close>

text \<open>
  C16. A contract one engine compiled and hands over as it is, with its document, its compiled form and its
  bundle, registers on an engine that knows nothing: as the same compilation, and with every function it is
  pinned to being the entry it was.
\<close>

theorem compiled_contracts_travel:
  assumes "fn_history A C (er_functions E)" and L: "registry_laws A" and I: "install_laws C" and K: "fn_codec_laws C"
    and P: "compile_laws P A" and run: "register_contract P A S source schema E = (E', Inr reg)"
    and bytes: "comp_from_bytes J compiled = Inr (r_compilation reg)"
  shows "\<exists>B reg'. register_compiled A C J memory_ops (r_doc reg) compiled (r_functions reg) (fst (engine_in_memory A)) = (B, Inr reg')
     \<and> r_compilation reg' = r_compilation reg \<and> r_doc reg' = r_doc reg \<and> r_functions reg' = r_functions reg
     \<and> so_current memory_ops (er_store B) (reg_name reg) = Some reg'
     \<and> (\<forall>p \<in> set (cc_functions (contract (r_compilation reg))).
          rg_get A (fn_registry (er_functions B)) (pin_name p) = rg_get A (fn_registry (er_functions E)) (pin_name p)
        \<and> rg_get A (fn_registry (er_functions B)) (pin_name p) \<noteq> None)"
proof -
  have ok: "fn_ok A C (er_functions E)" using fn_history_ok assms(1-4) .
  note c = register_contract_Inr(1) [OF run]
  let ?pins = "cc_functions (contract (r_compilation reg))"
  obtain doc own where doc: "r_doc reg = doc"
      "pc_compile P doc schema (registry_for A (er_functions E) own) (document S E) = Inr (r_compilation reg)"
      "r_functions reg = modules_for A (er_functions E) ?pins"
    using c by (rule compile_for_Inr) (rule that; assumption)
  have name: "cc_name (contract (r_compilation reg)) = doc_contract doc" and dist: "distinct ?pins"
    using P doc(2) unfolding compile_laws_def by blast+
  obtain t where t: "fn_adopt A C (r_functions reg) (fn_in_memory A) = (t, Inr ())"
      "\<And>p e. p \<in> set ?pins \<Longrightarrow> pinned_entry A (er_functions E) p = Some e \<Longrightarrow> rg_get A (fn_registry t) (pin_name p) = Some e"
      "\<And>n. (\<And>p e. p \<in> set ?pins \<Longrightarrow> pinned_entry A (er_functions E) p = Some e \<Longrightarrow> pin_name p \<noteq> n)
        \<Longrightarrow> rg_get A (fn_registry t) n = rg_get A (rg_builtin A) n"
    unfolding doc(3) using pins_adopted [OF ok L I dist] by metis
  let ?reg = "\<lparr>r_doc = doc, r_schema = row_schema (contract (r_compilation reg)), r_functions = r_functions reg,
     r_compilation = r_compilation reg\<rparr>"
  let ?B = "\<lparr>er_store = mem_put ?reg empty_contents, er_functions = t, er_documents = Map.empty\<rparr>"
  have "register_compiled A C J memory_ops (r_doc reg) compiled (r_functions reg) (fst (engine_in_memory A)) = (?B, Inr ?reg)"
    by (simp add: register_compiled_def engine_in_memory_def t(1) doc(1) from_compiled_def bytes name put_registered_def
      memory_ops_def memory_put_def)
  moreover have "so_current memory_ops (er_store ?B) (reg_name reg) = Some ?reg"
  proof -
    have "contents_ok empty_contents" by (simp add: contents_ok_def empty_contents_def)
    from mem.put_current [OF this, of ?reg "mem_put ?reg empty_contents"]
    show ?thesis by (simp add: memory_ops_def memory_put_def mem_current_def empty_contents_def reg_name_def)
  qed
  moreover have pins: "rg_get A (fn_registry t) (pin_name p) = rg_get A (fn_registry (er_functions E)) (pin_name p)
      \<and> rg_get A (fn_registry t) (pin_name p) \<noteq> None" if p: "p \<in> set ?pins" for p
  proof -
    obtain e where e: "rg_get A (fn_registry (er_functions E)) (pin_name p) = Some e"
        "fe_builtin e \<or> pinned_entry A (er_functions E) p = Some e"
      using compiled_pins [OF c P L I ok p] by metis
    show ?thesis
    proof (cases "fe_builtin e")
      case True
      have "pin_name q \<noteq> pin_name p" if "pinned_entry A (er_functions E) q = Some x" for q x
        using that e(1) True by (auto simp: pinned_entry_def split: option.splits if_splits)
      then have "rg_get A (fn_registry t) (pin_name p) = rg_get A (rg_builtin A) (pin_name p)" using t(3) by blast
      with fn_okD(3) [OF ok e(1) True] e(1) show ?thesis by simp
    next
      case False
      with e(2) t(2) [OF p] e(1) show ?thesis by simp
    qed
  qed
  moreover have "\<forall>p \<in> set ?pins. rg_get A (fn_registry (er_functions ?B)) (pin_name p) = rg_get A (fn_registry (er_functions E)) (pin_name p)
      \<and> rg_get A (fn_registry (er_functions ?B)) (pin_name p) \<noteq> None"
    using pins by (simp only: registers.simps) blast
  moreover have "r_compilation ?reg = r_compilation reg \<and> r_doc ?reg = r_doc reg \<and> r_functions ?reg = r_functions reg"
    using doc(1) by simp
  ultimately show ?thesis by blast
qed

section \<open>An engine that does not open\<close>

text \<open>
  C19. An update of a function that writes its module and then fails to write its record answers an error,
  and from then on no engine opens on the workspace: not the contracts that call the function, nor any other.
\<close>

theorem halfway_update_locks_engine:
  assumes "fn_disk A C (er_functions E)" and "registry_laws A" and "install_laws C" and "fn_codec_laws C"
    and "hashes_modules C" and "fn_dir (er_functions E) = Some d"
    and "rg_get A (fn_registry (er_functions E)) (fm_name man) = Some e" "\<not> fe_builtin e" "fe_owner e = own"
    and "fn_install C raw man own = Inr e'" "fe_hash e' \<noteq> fe_hash e"
    and run: "register_function A C None Saved (Failed why None) raw man own E = (E', r)"
    and "fn_dir (er_functions E') = Some d1" "relists d1 d'"
  shows "isl r \<and> isl (engine_open mk J contracts A C True d' B budgets path)"
proof -
  obtain f where f: "fn_register A C None Saved (Failed why None) raw man own (er_functions E) = (f, r)"
      and E': "E' = E\<lparr>er_functions := f\<rparr>"
    using run by (auto simp: register_function_def split: prod.splits)
  have "fn_dir f = Some d1" using assms(13) E' by simp
  from halfway_update_locks_functions [OF assms(1-11) f this assms(14)]
  have r: "isl r" and locked: "isl (fn_open A C True d')" by simp_all
  then obtain x where "fn_open A C True d' = Inl x" by (cases "fn_open A C True d'") auto
  then have "isl (engine_open mk J contracts A C True d' B budgets path)"
    by (cases mk; cases "dir_open J contracts") (simp_all add: engine_open_def)
  with r show ?thesis by simp
qed

end
