(* ===== verification/Function_Example.thy ===== *)
theory Function_Example
  imports Function_Disk
begin

text \<open>
  One tenant, one function, two modules for it: the properties of the function store where their hypotheses
  hold.
\<close>

definition ex_builtin :: fn_entry where
  "ex_builtin = \<lparr>fe_name = ''b'', fe_owner = ''parcel'', fe_hash = ''h'', fe_builtin = True\<rparr>"

definition ex_lookup :: "fn_entry list \<Rightarrow> string \<Rightarrow> fn_entry option" where
  "ex_lookup r n = find (\<lambda>e. fe_name e = n) r"

definition ex_fn_api :: "fn_entry list registry_api" where
  "ex_fn_api = \<lparr>rg_builtin = [ex_builtin], rg_get = ex_lookup, rg_insert = (#),
     rg_visible_to = (\<lambda>r t. filter (\<lambda>e. (fe_builtin e \<or> t = Some (fe_owner e)) \<and> ex_lookup r (fe_name e) = Some e) r),
     rg_entries = (\<lambda>r. filter (\<lambda>e. ex_lookup r (fe_name e) = Some e) r)\<rparr>"

definition ex_man :: fn_manifest where
  "ex_man = \<lparr>fm_name = ''f'', fm_signature = ''int''\<rparr>"

definition ex_stored :: "string \<Rightarrow> stored_function" where
  "ex_stored h = \<lparr>sf_owner = ''t'', sf_manifest = ex_man, sf_hash = h\<rparr>"

definition ex_fn_codec :: fn_codec where
  "ex_fn_codec = \<lparr>
     fn_install = (\<lambda>m man own. Inr \<lparr>fe_name = fm_name man, fe_owner = own, fe_hash = m, fe_builtin = False\<rparr>),
     fn_to_json = (\<lambda>x. if x = ex_stored ''m1'' then Inr ''1'' else if x = ex_stored ''m2'' then Inr ''2'' else Inl ''e''),
     fn_from_json = (\<lambda>b. if b = ''1'' then Inr (ex_stored ''m1'') else if b = ''2'' then Inr (ex_stored ''m2'') else Inl ''e''),
     fn_utf8 = Inr, to_hex = (\<lambda>m. m), from_hex = Inr, list_error = (\<lambda>x. None)\<rparr>"

lemma ex_lookup_Cons: "ex_lookup (e # r) n = (if fe_name e = n then Some e else ex_lookup r n)"
  by (simp add: ex_lookup_def)

lemma ex_lookup_Some: "ex_lookup r n = Some e \<Longrightarrow> fe_name e = n \<and> e \<in> set r"
  by (auto simp: ex_lookup_def find_Some_iff)

lemma find_name: "find (\<lambda>e. fe_name e = n) (r :: fn_entry list) = Some e \<Longrightarrow> find (\<lambda>x. fe_name x = fe_name e) r = Some e"
  using ex_lookup_Some [of r n e] by (simp add: ex_lookup_def)

lemma ex_lookup_filter:
  "ex_lookup (filter (\<lambda>e. P e \<and> ex_lookup r (fe_name e) = Some e) r) n
     = (case ex_lookup r n of Some e \<Rightarrow> if P e then Some e else None | None \<Rightarrow> None)"
proof -
  have f: "find Q (filter S xs) = (case find Q xs of Some e \<Rightarrow> if S e then Some e else None | None \<Rightarrow> None)"
    if "\<And>x. x \<in> set xs \<Longrightarrow> Q x \<Longrightarrow> S x \<Longrightarrow> find Q xs = Some x" for Q S :: "fn_entry \<Rightarrow> bool" and xs
  proof (cases "find Q xs")
    case None
    then have "find Q (filter S xs) = None" by (auto simp: find_None_iff)
    with None show ?thesis by simp
  next
    case (Some e)
    then have e: "e \<in> set xs" "Q e" by (auto simp: find_Some_iff)
    have only: "x = e" if "x \<in> set xs" "Q x" "S x" for x
      using \<open>\<And>x. x \<in> set xs \<Longrightarrow> Q x \<Longrightarrow> S x \<Longrightarrow> find Q xs = Some x\<close> [OF that] Some by simp
    show ?thesis
    proof (cases "find Q (filter S xs)")
      case None
      with Some e show ?thesis by (auto simp: find_None_iff)
    next
      case (Some x)
      then have "x \<in> set xs" "Q x" "S x" by (auto simp: find_Some_iff dest: nth_mem)
      with Some \<open>find Q xs = Some e\<close> only show ?thesis by simp
    qed
  qed
  show ?thesis
    unfolding ex_lookup_def [of _ n]
    by (subst f) (auto simp: ex_lookup_def find_name split: option.split)
qed

lemma ex_registry_laws: "registry_laws ex_fn_api"
  by (auto simp: registry_laws_def ex_fn_api_def ex_lookup_Cons ex_lookup_filter ex_builtin_def
      dest: ex_lookup_Some split: if_splits)

lemma ex_install_laws: "install_laws ex_fn_codec"
  by (simp add: install_laws_def ex_fn_codec_def)

lemma ex_fn_codec_laws: "fn_codec_laws ex_fn_codec"
  by (simp add: fn_codec_laws_def ex_fn_codec_def)

lemma ex_hashes: "hashes_modules ex_fn_codec"
  by (simp add: hashes_modules_def ex_fn_codec_def)

definition ex_empty :: "fn_entry list fn_store" where
  "ex_empty = (fn_in_memory ex_fn_api)\<lparr>fn_dir := Some []\<rparr>"

definition ex_run :: "fn_entry list fn_store \<times> fn_entry res" where
  "ex_run = fn_register ex_fn_api ex_fn_codec None Saved Saved ''m1'' ex_man ''t'' ex_empty"

definition ex_files :: store_dir where
  "ex_files = [(''t'', [(''f.json'', Bytes ''1''), (''f.wasm'', Bytes ''m1'')])]"

definition ex_fn_entry :: "string \<Rightarrow> fn_entry" where
  "ex_fn_entry h = \<lparr>fe_name = ''f'', fe_owner = ''t'', fe_hash = h, fe_builtin = False\<rparr>"

definition ex_module :: bundled_function where
  "ex_module = \<lparr>bf_owner = ''t'', bf_manifest = ex_man, bf_module = ''m1''\<rparr>"

lemmas ex_fn_defs = ex_run_def ex_empty_def ex_fn_api_def ex_fn_codec_def ex_man_def ex_stored_def ex_files_def
  ex_fn_entry_def ex_module_def ex_builtin_def fn_register_def fn_load_def fn_in_memory_def taken_by_other_def ex_lookup_def
  store_function_def plain_write_def write_file_def bt_update_def bt_get_or_def same_function_def

lemma ex_run_is:
  "ex_run = (\<lparr>fn_dir = Some ex_files, fn_registry = [ex_fn_entry ''m1'', ex_builtin], fn_modules = [ex_module]\<rparr>, Inr (ex_fn_entry ''m1''))"
  by (simp add: ex_fn_defs)

lemma ex_disk: "fn_disk ex_fn_api ex_fn_codec (fst ex_run)"
proof (rule fn_disk.registered [OF fn_disk.opened])
  show "fn_register ex_fn_api ex_fn_codec None Saved Saved ''m1'' ex_man ''t'' ((fn_in_memory ex_fn_api)\<lparr>fn_dir := Some []\<rparr>)
    = (fst ex_run, Inr (ex_fn_entry ''m1''))"
    using ex_run_is by (simp add: ex_run_def ex_empty_def)
qed (simp add: ex_man_def)

lemma ex_history: "fn_history ex_fn_api ex_fn_codec (fst ex_run)"
  by (rule fn_disk_history) (rule ex_disk)

definition ex_pins :: "function_pin list" where
  "ex_pins = [\<lparr>pin_name = ''f'', pin_hash = ''m1''\<rparr>, \<lparr>pin_name = ''f'', pin_hash = ''m2''\<rparr>]"

theorem pinned_modules_travel_witness:
  "modules_for ex_fn_api (fst ex_run) ex_pins = [ex_module]
   \<and> (\<exists>t. fn_adopt ex_fn_api ex_fn_codec [ex_module] (fn_in_memory ex_fn_api) = (t, Inr ())
        \<and> pinned_entry ex_fn_api t (hd ex_pins) = Some (ex_fn_entry ''m1''))"
proof -
  have m: "modules_for ex_fn_api (fst ex_run) ex_pins = [ex_module]"
    unfolding ex_run_is by (simp add: modules_for_def map_filter_simps ex_pins_def module_for_def pinned_entry_def ex_fn_defs)
  have p: "pinned_entry ex_fn_api (fst ex_run) (hd ex_pins) = Some (ex_fn_entry ''m1'')"
    unfolding ex_run_is by (simp add: ex_pins_def pinned_entry_def ex_fn_defs)
  have "distinct ex_pins" "hd ex_pins \<in> set ex_pins" by (simp_all add: ex_pins_def)
  with pinned_modules_travel [OF ex_history ex_registry_laws ex_install_laws ex_fn_codec_laws, of ex_pins] m p
  show ?thesis by auto
qed

theorem functions_are_the_owners_witness:
  "rg_get ex_fn_api (registry_for ex_fn_api (fst ex_run) (Some ''u'')) ''f'' = None
   \<and> rg_get ex_fn_api (registry_for ex_fn_api (fst ex_run) (Some ''t'')) ''f'' = Some (ex_fn_entry ''m1'')"
proof -
  have h: "fn_history ex_fn_api ex_fn_codec ex_empty"
    unfolding ex_empty_def by (rule fn_disk_history) (rule fn_disk.opened)
  have own: "\<forall>n b. rg_get ex_fn_api (rg_builtin ex_fn_api) n = Some b \<longrightarrow> fe_owner b \<noteq> ''t''"
    by (simp add: ex_fn_defs)
  have run: "fn_register ex_fn_api ex_fn_codec None Saved Saved ''m1'' ex_man ''t'' ex_empty = (fst ex_run, Inr (ex_fn_entry ''m1''))"
    using ex_run_is by (simp add: ex_run_def)
  have "rg_get ex_fn_api (registry_for ex_fn_api ex_empty (Some ''u'')) ''f'' = None"
    by (simp add: registry_for_def ex_fn_defs)
  with functions_are_the_owners [OF h ex_registry_laws ex_install_laws ex_fn_codec_laws own run]
  show ?thesis by (auto simp: ex_man_def)
qed

theorem functions_survive_reopening_witness:
  "\<exists>s'. fn_open ex_fn_api ex_fn_codec True [(''t'', [(''f.wasm'', Bytes ''m1''), (''f.json'', Bytes ''1'')])] = Inr s'
     \<and> rg_get ex_fn_api (fn_registry s') ''f'' = Some (ex_fn_entry ''m1'')"
proof -
  have "relists ex_files [(''t'', [(''f.wasm'', Bytes ''m1''), (''f.json'', Bytes ''1'')])]"
    by (simp add: relists_def ex_files_def file_at_def)
  moreover have "fn_dir (fst ex_run) = Some ex_files" "rg_get ex_fn_api (fn_registry (fst ex_run)) ''f'' = Some (ex_fn_entry ''m1'')"
    unfolding ex_run_is by (simp_all add: ex_fn_defs)
  moreover have "\<forall>own. list_error ex_fn_codec own = None" by (simp add: ex_fn_codec_def)
  ultimately show ?thesis
    using functions_survive_reopening [OF ex_disk ex_registry_laws ex_install_laws ex_fn_codec_laws] by metis
qed

end
