(* ===== verification/Registration_Example.thy ===== *)
theory Registration_Example
  imports Function_Example Registration_Safety
begin

text \<open>
  A tenant's contract that calls the tenant's function: the properties of registering where their hypotheses
  hold.
\<close>

definition ex_calling :: compilation where
  "ex_calling = ex_compilation\<lparr>contract := ex_contract\<lparr>cc_owner := Some ''t'',
     cc_functions := [\<lparr>pin_name = ''f'', pin_hash = ''m1''\<rparr>, \<lparr>pin_name = ''b'', pin_hash = ''h''\<rparr>]\<rparr>\<rparr>"

definition ex_parcel :: "fn_entry list parcel_api" where
  "ex_parcel = \<lparr>pc_parse = (\<lambda>s. Inr \<lparr>doc_contract = ''t/orders'', doc_text = s\<rparr>), pc_owner = (\<lambda>d l. Inr (Some ''t'')),
     pc_compile = (\<lambda>d s r l. if ex_lookup r ''f'' = Some (ex_fn_entry ''m1'') \<and> ex_lookup r ''b'' = Some ex_builtin
       \<and> doc_contract d = ''t/orders'' then Inr ex_calling else Inl [''unknown function''])\<rparr>"

definition ex_registers :: "(contents, fn_entry list) registers" where
  "ex_registers = \<lparr>er_store = empty_contents, er_functions = fst ex_run, er_documents = Map.empty\<rparr>"

definition ex_called :: registered where
  "ex_called = \<lparr>r_doc = \<lparr>doc_contract = ''t/orders'', doc_text = ''src''\<rparr>, r_schema = [], r_functions = [ex_module],
     r_compilation = ex_calling\<rparr>"

lemma ex_calling_simps:
  "cc_functions (contract ex_calling) = [\<lparr>pin_name = ''f'', pin_hash = ''m1''\<rparr>, \<lparr>pin_name = ''b'', pin_hash = ''h''\<rparr>]"
  "cc_owner (contract ex_calling) = Some ''t''" "cc_name (contract ex_calling) = ''t/orders''" "cc_version (contract ex_calling) = 1"
  by (simp_all add: ex_calling_def ex_contract_simps)

lemma ex_compile_laws: "compile_laws ex_parcel ex_fn_api"
  by (auto simp: compile_laws_def ex_parcel_def ex_calling_simps ex_fn_api_def ex_fn_entry_def ex_builtin_def split: if_splits)

lemma ex_registers_function: "register_contract ex_parcel ex_fn_api memory_ops ''src'' [] ex_registers
    = (ex_registers\<lparr>er_store := mem_put ex_called empty_contents\<rparr>, Inr ex_called)"
proof -
  have "modules_for ex_fn_api (fst ex_run) (cc_functions (contract ex_calling)) = [ex_module]"
    unfolding ex_run_is
    by (simp add: ex_calling_simps modules_for_def map_filter_simps module_for_def pinned_entry_def ex_fn_defs)
  moreover have "registry_for ex_fn_api (fst ex_run) (Some ''t'') = [ex_fn_entry ''m1'', ex_builtin]"
    unfolding ex_run_is by (simp add: registry_for_def ex_fn_defs)
  moreover have "ex_lookup [ex_fn_entry ''m1'', ex_builtin] ''f'' = Some (ex_fn_entry ''m1'')"
      "ex_lookup [ex_fn_entry ''m1'', ex_builtin] ''b'' = Some ex_builtin"
    by (simp_all add: ex_lookup_def ex_fn_entry_def ex_builtin_def)
  ultimately have "compile_for ex_parcel ex_fn_api memory_ops ex_registers ''src'' [] = Inr ex_called"
    by (simp add: compile_for_def compile_errors_def ex_parcel_def ex_registers_def ex_called_def)
  then show ?thesis
    by (simp add: register_contract_def put_registered_def memory_ops_def memory_put_def ex_registers_def)
qed

lemma ex_registers_history: "fn_history ex_fn_api ex_fn_codec (er_functions ex_registers)"
  using ex_history by (simp add: ex_registers_def)

theorem contracts_call_their_owners_functions_witness:
  "\<exists>m \<in> set (r_functions ex_called). installs_to ex_fn_codec m (ex_fn_entry ''m1'')"
proof -
  have p: "\<lparr>pin_name = ''f'', pin_hash = ''m1''\<rparr> \<in> set (cc_functions (contract (r_compilation ex_called)))"
    by (simp add: ex_called_def ex_calling_simps)
  have e: "rg_get ex_fn_api (fn_registry (er_functions (ex_registers\<lparr>er_store := mem_put ex_called empty_contents\<rparr>))) ''f''
      = Some (ex_fn_entry ''m1'')"
    unfolding ex_registers_def ex_run_is by (simp add: ex_fn_api_def ex_lookup_def ex_fn_entry_def)
  from contracts_call_their_owners_functions [OF ex_registers_history ex_registry_laws ex_install_laws ex_fn_codec_laws
      ex_compile_laws ex_registers_function p] e
  show ?thesis by (auto simp: ex_fn_entry_def)
qed

theorem registering_changes_one_version_witness:
  "so_version memory_ops (mem_put ex_called empty_contents) ''t/orders'' 1 = Some ex_called
   \<and> so_version memory_ops (mem_put ex_called empty_contents) ''t/other'' 1 = None"
proof -
  have "contents_ok (er_store ex_registers)" by (simp add: ex_registers_def contents_ok_def empty_contents_def)
  from registering_changes_one_version [OF memory_sound this disjI1 [OF ex_registers_function]]
  show ?thesis
    by (simp add: reg_name_def reg_version_def ex_called_def ex_calling_simps ex_registers_def memory_ops_def
      mem_version_def empty_contents_def)
qed

theorem compiled_contracts_travel_witness:
  "\<exists>B reg'. register_compiled ex_fn_api ex_fn_codec (ex_store_codec\<lparr>comp_from_bytes := (\<lambda>b. Inr ex_calling)\<rparr>) memory_ops
       (r_doc ex_called) ''c'' [ex_module] (fst (engine_in_memory ex_fn_api)) = (B, Inr reg')
     \<and> so_current memory_ops (er_store B) ''t/orders'' = Some reg'
     \<and> rg_get ex_fn_api (fn_registry (er_functions B)) ''f'' = Some (ex_fn_entry ''m1'')"
proof -
  let ?J = "ex_store_codec\<lparr>comp_from_bytes := (\<lambda>b. Inr ex_calling)\<rparr>"
  have J: "comp_from_bytes ?J ''c'' = Inr (r_compilation ex_called)" by (simp add: ex_called_def)
  have c: "r_functions ex_called = [ex_module]" "reg_name ex_called = ''t/orders''"
    "\<lparr>pin_name = ''f'', pin_hash = ''m1''\<rparr> \<in> set (cc_functions (contract (r_compilation ex_called)))"
    by (simp_all add: ex_called_def ex_calling_simps reg_name_def)
  have e: "rg_get ex_fn_api (fn_registry (er_functions ex_registers)) ''f'' = Some (ex_fn_entry ''m1'')"
    unfolding ex_registers_def ex_run_is by (simp add: ex_fn_api_def ex_lookup_def ex_fn_entry_def)
  obtain B reg' where "register_compiled ex_fn_api ex_fn_codec ?J memory_ops (r_doc ex_called) ''c'' (r_functions ex_called)
        (fst (engine_in_memory ex_fn_api)) = (B, Inr reg')"
      "so_current memory_ops (er_store B) (reg_name ex_called) = Some reg'"
      "\<forall>p \<in> set (cc_functions (contract (r_compilation ex_called))).
          rg_get ex_fn_api (fn_registry (er_functions B)) (pin_name p)
        = rg_get ex_fn_api (fn_registry (er_functions ex_registers)) (pin_name p)"
    using compiled_contracts_travel [where J = ?J and compiled = "''c''", OF ex_registers_history ex_registry_laws
      ex_install_laws ex_fn_codec_laws ex_compile_laws ex_registers_function J] by blast
  with c e show ?thesis by force
qed

theorem halfway_update_locks_engine_witness:
  "isl (engine_open None ex_store_codec [] ex_fn_api ex_fn_codec True
     [(''t'', [(''f.json'', Bytes ''1''), (''f.wasm'', Bytes ''m2'')])] ex_ledgers Map.empty ''budgets.json'')"
proof -
  let ?d = "[(''t'', [(''f.json'', Bytes ''1''), (''f.wasm'', Bytes ''m2'')])]"
  let ?f = "\<lparr>fn_dir = Some ?d, fn_registry = [ex_fn_entry ''m2'', ex_fn_entry ''m1'', ex_builtin],
     fn_modules = [\<lparr>bf_owner = ''t'', bf_manifest = ex_man, bf_module = ''m2''\<rparr>]\<rparr>"
  have E: "er_functions ex_registers = fst ex_run" by (simp add: ex_registers_def)
  have disk: "fn_disk ex_fn_api ex_fn_codec (er_functions ex_registers)" using ex_disk by (simp add: E)
  have dir: "fn_dir (er_functions ex_registers) = Some ex_files"
    and old: "rg_get ex_fn_api (fn_registry (er_functions ex_registers)) (fm_name ex_man) = Some (ex_fn_entry ''m1'')"
    unfolding E ex_run_is by (simp_all add: ex_fn_defs)
  have e: "\<not> fe_builtin (ex_fn_entry ''m1'')" "fe_owner (ex_fn_entry ''m1'') = ''t''" by (simp_all add: ex_fn_entry_def)
  have new: "fn_install ex_fn_codec ''m2'' ex_man ''t'' = Inr (ex_fn_entry ''m2'')" by (simp add: ex_fn_defs)
  have differ: "fe_hash (ex_fn_entry ''m2'') \<noteq> fe_hash (ex_fn_entry ''m1'')" by (simp add: ex_fn_entry_def)
  have run: "register_function ex_fn_api ex_fn_codec None Saved (Failed ''disk full'' None) ''m2'' ex_man ''t'' ex_registers
      = (ex_registers\<lparr>er_functions := ?f\<rparr>, Inl (Io ''disk full''))"
    unfolding register_function_def E ex_run_is by (simp add: ex_fn_defs)
  have d: "fn_dir (er_functions (ex_registers\<lparr>er_functions := ?f\<rparr>)) = Some ?d" "relists ?d ?d" by (simp_all add: relists_def)
  show ?thesis
    using halfway_update_locks_engine [OF disk ex_registry_laws ex_install_laws ex_fn_codec_laws ex_hashes dir old e
      new differ run d] by blast
qed

end
