(* ===== verification/Flight.thy ===== *)
theory Flight
  imports Query Writes
begin

text \<open>
  The Flight SQL service (\<open>src/flight.rs\<close>): whose request it is, what \<open>GetFlightInfo\<close>, \<open>DoGet\<close>, prepared
  statements and \<open>DoPut\<close> ask of the engine, and the status of every error. gRPC, base64, JSON, the Arrow IPC
  format and the message encodings are parameters; a request is its metadata and its decoded message.
\<close>

section \<open>Requests\<close>

type_synonym grpc = "grpc_code \<times> string"

type_synonym metadata = "string \<rightharpoonup> string"

record flight_api =
  fa_to_str :: "string \<Rightarrow> string + string"
  fa_encode64 :: "string \<Rightarrow> string"
  fa_decode64 :: "string \<Rightarrow> string + string"
  fa_caller_json :: "caller \<Rightarrow> string"
  fa_json_caller :: "string \<Rightarrow> string + caller"
  fa_utf8 :: "string \<Rightarrow> string option"
  fa_statement_ticket :: "string \<Rightarrow> string"
  fa_prepared_ticket :: "string \<Rightarrow> string"
  fa_schema_error :: "schema \<Rightarrow> string option"
  fa_ipc_schema :: "schema \<Rightarrow> string + string"
  fa_metadata_json :: "envelope \<Rightarrow> string option \<Rightarrow> string + string"

definition CALLER_HEADER :: string where
  "CALLER_HEADER = ''x-peql-caller''"

definition ON_VIOLATION_HEADER :: string where
  "ON_VIOLATION_HEADER = ''x-peql-on-violation''"

definition ON_VIOLATION_OPTION :: string where
  "ON_VIOLATION_OPTION = ''on_violation''"

text \<open>A step of the service: the world after it and its answer, or the status it ends with.\<close>

type_synonym ('s, 'a) served = "'s \<Rightarrow> ('s \<times> (grpc + 'a)) option"

definition then_serve :: "('s, 'a) served \<Rightarrow> ('a \<Rightarrow> ('s, 'b) served) \<Rightarrow> ('s, 'b) served" where
  "then_serve m f = (\<lambda>s. case m s of
       None \<Rightarrow> None
     | Some (s', Inl e) \<Rightarrow> Some (s', Inl e)
     | Some (s', Inr x) \<Rightarrow> f x s')"

definition serve :: "grpc + 'a \<Rightarrow> ('s, 'a) served" where
  "serve r = (\<lambda>s. Some (s, r))"

text \<open>\<open>map_err(status)\<close>: of a result, and of what the engine does.\<close>

definition statused :: "'a res \<Rightarrow> grpc + 'a" where
  "statused r = (case r of Inl e \<Rightarrow> Inl (status e) | Inr x \<Rightarrow> Inr x)"

definition ask :: "('s, 'a) step \<Rightarrow> ('s, 'a) served" where
  "ask m = (\<lambda>s. map_option (\<lambda>(s', r). (s', statused r)) (m s))"

definition or_status :: "grpc_code \<Rightarrow> (string \<Rightarrow> string) \<Rightarrow> string + 'a \<Rightarrow> grpc + 'a" where
  "or_status c f r = (case r of Inl e \<Rightarrow> Inl (c, f e) | Inr x \<Rightarrow> Inr x)"

definition header_text :: "string \<Rightarrow> string" where
  "header_text h = ''`'' @ h @ ''`''"

definition on_violation :: "flight_api \<Rightarrow> metadata \<Rightarrow> grpc + on_read_violation" where
  "on_violation F md =
     (case md ON_VIOLATION_HEADER of
        None \<Rightarrow> Inr default_read_violation
      | Some v \<Rightarrow>
          and_then (or_status InvalidArgument (\<lambda>e. header_text ON_VIOLATION_HEADER @ '': '' @ e) (fa_to_str F v)) (\<lambda>s.
            statused (parse_read_violation s)))"

definition caller_header :: "flight_api \<Rightarrow> caller \<Rightarrow> string" where
  "caller_header F who = fa_encode64 F (fa_caller_json F who)"

datatype callers = Header | Fixed caller

text \<open>The service: the engine it asks, with the contracts registered, and whose requests it answers.\<close>

record ('v, 'w, 'j, 'l) flight_sql =
  fl_host :: "('v, 'w, 'j, 'l) host"
  fl_write :: "'j write_api"
  fl_contents :: contents
  fl_callers :: callers

definition caller_of :: "flight_api \<Rightarrow> ('v, 'w, 'j, 'l) flight_sql \<Rightarrow> metadata \<Rightarrow> grpc + caller" where
  "caller_of F S md =
     (case fl_callers S of
        Fixed c \<Rightarrow> Inr c
      | Header \<Rightarrow>
          (case md CALLER_HEADER of
             None \<Rightarrow> Inl (Unauthenticated, ''no '' @ header_text CALLER_HEADER @ '' header: every request names its caller'')
           | Some value \<Rightarrow>
               and_then (or_status Unauthenticated (\<lambda>e. header_text CALLER_HEADER @ '' is not base64: '' @ e) (fa_decode64 F value)) (\<lambda>b.
                 or_status Unauthenticated (\<lambda>e. header_text CALLER_HEADER @ '' is not a caller: '' @ e) (fa_json_caller F b))))"

section \<open>Reads\<close>

record flight_info =
  in_schema :: schema
  in_ticket :: string
  in_descriptor :: string
  in_ordered :: bool

definition info ::
  "flight_api \<Rightarrow> ('v, 'w, 'j, 'l) flight_sql \<Rightarrow> string \<Rightarrow> string \<Rightarrow> metadata \<Rightarrow> string
     \<Rightarrow> (('j, 'l) world, flight_info) served" where
  "info F S sql command md descriptor =
     then_serve (serve (caller_of F S md)) (\<lambda>who.
     then_serve (serve (on_violation F md)) (\<lambda>v.
     then_serve (ask (check (fl_host S) (fl_contents S) sql who v)) (\<lambda>checked.
       serve (case fa_schema_error F (ck_schema checked) of
           Some e \<Rightarrow> Inl (Internal, e)
         | None \<Rightarrow> Inr \<lparr>in_schema = ck_schema checked, in_ticket = command, in_descriptor = descriptor, in_ordered = True\<rparr>))))"

text \<open>A stream of the answer: its schema, the metadata of its first message, and its batches.\<close>

record flight_answer =
  fs_schema :: schema
  fs_metadata :: string
  fs_batches :: "batch list"

definition answer_sql ::
  "flight_api \<Rightarrow> ('v, 'w, 'j, 'l) flight_sql \<Rightarrow> string \<Rightarrow> metadata \<Rightarrow> (('j, 'l) world, flight_answer) served" where
  "answer_sql F S sql md =
     then_serve (serve (caller_of F S md)) (\<lambda>who.
     then_serve (serve (case fa_utf8 F sql of None \<Rightarrow> Inl (InvalidArgument, ''the ticket is not UTF-8 SQL'') | Some s \<Rightarrow> Inr s)) (\<lambda>text.
     then_serve (serve (on_violation F md)) (\<lambda>v.
     then_serve (ask (query_spooled (fl_host S) (fl_contents S) text who v)) (\<lambda>res.
     then_serve (serve (or_status Internal (\<lambda>e. e) (fa_metadata_json F (so_envelope res) (so_signature res)))) (\<lambda>m.
       serve (Inr \<lparr>fs_schema = so_schema res, fs_metadata = m,
         fs_batches = (case so_batches res of None \<Rightarrow> [] | Some bs \<Rightarrow> bs)\<rparr>))))))"

definition get_flight_info_statement ::
  "flight_api \<Rightarrow> ('v, 'w, 'j, 'l) flight_sql \<Rightarrow> string \<Rightarrow> metadata \<Rightarrow> string \<Rightarrow> (('j, 'l) world, flight_info) served" where
  "get_flight_info_statement F S sql md descriptor = info F S sql (fa_statement_ticket F sql) md descriptor"

definition get_flight_info_prepared_statement ::
  "flight_api \<Rightarrow> ('v, 'w, 'j, 'l) flight_sql \<Rightarrow> string \<Rightarrow> metadata \<Rightarrow> string \<Rightarrow> (('j, 'l) world, flight_info) served" where
  "get_flight_info_prepared_statement F S handle md descriptor =
     (case fa_utf8 F handle of
        None \<Rightarrow> serve (Inl (InvalidArgument, ''the statement handle is not UTF-8 SQL''))
      | Some sql \<Rightarrow> info F S sql (fa_prepared_ticket F handle) md descriptor)"

definition do_get_statement ::
  "flight_api \<Rightarrow> ('v, 'w, 'j, 'l) flight_sql \<Rightarrow> string \<Rightarrow> metadata \<Rightarrow> (('j, 'l) world, flight_answer) served" where
  "do_get_statement F S handle md = answer_sql F S handle md"

definition do_get_prepared_statement ::
  "flight_api \<Rightarrow> ('v, 'w, 'j, 'l) flight_sql \<Rightarrow> string \<Rightarrow> metadata \<Rightarrow> (('j, 'l) world, flight_answer) served" where
  "do_get_prepared_statement F S handle md = answer_sql F S handle md"

record prepared_statement =
  ps_handle :: string
  ps_dataset_schema :: string
  ps_parameter_schema :: string

definition create_prepared_statement ::
  "flight_api \<Rightarrow> ('v, 'w, 'j, 'l) flight_sql \<Rightarrow> string \<Rightarrow> metadata \<Rightarrow> (('j, 'l) world, prepared_statement) served" where
  "create_prepared_statement F S sql md =
     then_serve (serve (caller_of F S md)) (\<lambda>who.
     then_serve (serve (on_violation F md)) (\<lambda>v.
     then_serve (ask (check (fl_host S) (fl_contents S) sql who v)) (\<lambda>checked.
     then_serve (serve (or_status Internal (\<lambda>e. e) (fa_ipc_schema F (ck_schema checked)))) (\<lambda>dataset.
     then_serve (serve (or_status Internal (\<lambda>e. e) (fa_ipc_schema F []))) (\<lambda>parameters.
       serve (Inr \<lparr>ps_handle = sql, ps_dataset_schema = dataset, ps_parameter_schema = parameters\<rparr>))))))"

definition close_prepared_statement :: "('s, unit) served" where
  "close_prepared_statement = serve (Inr ())"

section \<open>Ingest\<close>

datatype table_exists = ExistsUnspecified | ExistsFail | ExistsAppend | ExistsReplace

record ingest =
  ig_table :: string
  ig_catalog :: "string option"
  ig_schema :: "string option"
  ig_if_exists :: "table_exists option"
  ig_options :: "string \<rightharpoonup> string"

text \<open>\<open>WriteMode::Overwrite\<close> is \<open>True\<close>.\<close>

definition ingest_mode :: "ingest \<Rightarrow> grpc + bool" where
  "ingest_mode c =
     (case (case ig_if_exists c of None \<Rightarrow> ExistsUnspecified | Some x \<Rightarrow> x) of
        ExistsReplace \<Rightarrow> Inr True
      | ExistsAppend \<Rightarrow> Inr False
      | ExistsUnspecified \<Rightarrow> Inr False
      | ExistsFail \<Rightarrow> Inl (AlreadyExists, ''`'' @ ig_table c
            @ ''` is a contract, which exists before its data: ingest with append or replace''))"

definition ingest_violation :: "ingest \<Rightarrow> grpc + on_write_violation" where
  "ingest_violation c =
     and_then (case ig_options c ON_VIOLATION_OPTION of
         None \<Rightarrow> Inr default_write_violation
       | Some v \<Rightarrow> statused (parse_write_violation v)) (\<lambda>v.
       if v = WExclude
       then Inl (InvalidArgument, ''`'' @ ON_VIOLATION_OPTION @ '': exclude` sets rows aside for the writer, and an ingest has ''
              @ ''nowhere to hand them back: ingest with refuse or warn'')
       else Inr v)"

definition only_contracts :: "string \<Rightarrow> string" where
  "only_contracts table = ''only contracts exist: `'' @ table @ ''` takes no catalog or schema''"

text \<open>A \<open>usize\<close> as an \<open>i64\<close>.\<close>

definition cast_i64 :: "nat \<Rightarrow> int" where
  "cast_i64 n = (let m = int n mod 2 ^ 64 in if m < 2 ^ 63 then m else m - 2 ^ 64)"

text \<open>\<open>rows\<close> is the request's stream, decoded.\<close>

definition do_put_statement_ingest ::
  "flight_api \<Rightarrow> ('v, 'w, 'j, 'l) flight_sql \<Rightarrow> string \<Rightarrow> ingest \<Rightarrow> metadata \<Rightarrow> grpc + batch list
     \<Rightarrow> (('j, 'l) world, int) served" where
  "do_put_statement_ingest F S uuid c md rows =
     then_serve (serve (caller_of F S md)) (\<lambda>who.
       if ig_catalog c \<noteq> None \<or> ig_schema c \<noteq> None
       then serve (Inl (NotFound, only_contracts (ig_table c)))
       else
     then_serve (serve (statused (authorize_write (fl_contents S) (ig_table c) who))) (\<lambda>_.
     then_serve (serve (ingest_mode c)) (\<lambda>overwrite.
     then_serve (serve (ingest_violation c)) (\<lambda>v.
     then_serve (serve rows) (\<lambda>bs.
     then_serve (ask (engine_write (fl_host S) (fl_write S) (fl_contents S) uuid (ig_table c) bs overwrite v)) (\<lambda>(report, _).
       serve (Inr (cast_i64 (rp_rows_written report)))))))))"

section \<open>What the service promises\<close>

named_theorems serve_simps \<open>running the service\<close>

lemma then_serve_serve [serve_simps]:
  "then_serve (serve (Inl e)) f = serve (Inl e)" "then_serve (serve (Inr x)) f = f x"
  by (simp_all add: then_serve_def serve_def fun_eq_iff)

lemma serve_Some [serve_simps]: "serve r w = Some (w', q) \<longleftrightarrow> w' = w \<and> q = r"
  by (auto simp: serve_def)

lemma ask_Some: "ask m w = Some (w', r) \<longleftrightarrow> (\<exists>q. m w = Some (w', q) \<and> r = statused q)"
  by (auto simp: ask_def)

lemma statused_simps [serve_simps]: "statused (Inl e) = Inl (status e)" "statused (Inr x) = Inr x"
  "statused r = Inr x \<longleftrightarrow> r = Inr x"
  by (auto simp: statused_def split: sum.splits)

lemma then_serve_run:
  "m w = Some (w1, Inl e) \<Longrightarrow> then_serve m f w = Some (w1, Inl e)"
  "m w = Some (w1, Inr x) \<Longrightarrow> then_serve m f w = f x w1"
  "m w = None \<Longrightarrow> then_serve m f w = None"
  by (simp_all add: then_serve_def)

end
