(* ===== verification/Flight_Safety.thy ===== *)
theory Flight_Safety
  imports Flight Query_Safety
begin

text \<open>
  What the Flight service promises: an ingest is its contract's owner's write; a request names its caller by
  the header or by the service, with the same meaning; and a refusal is known before any scan.
\<close>

section \<open>Ingest\<close>

lemma authorized_owner:
  assumes "authorize_write g name who = Inr ()"
  obtains reg where "mem_current g name = Some reg" and "reg_owner reg = None \<or> reg_owner reg = Some (tenant who)"
proof -
  obtain reg where vis: "visible g name who = Inr reg"
      and o: "(case reg_owner reg of Some owner \<Rightarrow> if owner \<noteq> tenant who then Inl (Denied name ''writes are the owner's'') else Inr ()
        | None \<Rightarrow> Inr ()) = (Inr () :: unit res)"
    using assms by (auto simp: authorize_write_def and_then_eq_Inr)
  from o have "reg_owner reg = None \<or> reg_owner reg = Some (tenant who)"
    by (cases "reg_owner reg") (auto split: if_splits)
  with vis show ?thesis using that by (simp add: visible_Inr)
qed

text \<open>
  C18. An ingest does nothing to the world, or is one write of the engine, under the contract its table
  names, which its caller may write, appending or replacing, whose rows that break a rule are refused or
  written with a warning, never set aside.
\<close>

theorem ingest_is_the_owners_write:
  "(\<exists>e. do_put_statement_ingest F S uuid c md rows w = Some (w, Inl e))
   \<or> (\<exists>who reg bs overwrite v. caller_of F S md = Inr who \<and> ig_catalog c = None \<and> ig_schema c = None
        \<and> mem_current (fl_contents S) (ig_table c) = Some reg \<and> (reg_owner reg = None \<or> reg_owner reg = Some (tenant who))
        \<and> rows = Inr bs \<and> overwrite = (ig_if_exists c = Some ExistsReplace) \<and> ig_if_exists c \<noteq> Some ExistsFail
        \<and> v \<in> {WRefuse, WWarn}
        \<and> do_put_statement_ingest F S uuid c md rows w =
            map_option (map_prod id (map_sum status (\<lambda>(report, _). cast_i64 (rp_rows_written report))))
              (engine_write (fl_host S) (fl_write S) (fl_contents S) uuid (ig_table c) bs overwrite v w))"
proof (cases "caller_of F S md")
  case (Inl e)
  then show ?thesis by (simp add: do_put_statement_ingest_def serve_simps)
next
  case who: (Inr who)
  show ?thesis
  proof (cases "ig_catalog c = None \<and> ig_schema c = None")
    case False
    then have "ig_catalog c \<noteq> None \<or> ig_schema c \<noteq> None" by simp
    with who have "do_put_statement_ingest F S uuid c md rows w = Some (w, Inl (NotFound, only_contracts (ig_table c)))"
      by (simp add: do_put_statement_ingest_def serve_simps)
    then show ?thesis by blast
  next
    case named: True
    show ?thesis
    proof (cases "isl (authorize_write (fl_contents S) (ig_table c) who) \<or> isl (ingest_mode c) \<or> isl (ingest_violation c) \<or> isl rows")
      case True
      with who named have "\<exists>e. do_put_statement_ingest F S uuid c md rows w = Some (w, Inl e)"
        by (cases "authorize_write (fl_contents S) (ig_table c) who"; cases "ingest_mode c"; cases "ingest_violation c"; cases rows)
          (simp_all add: do_put_statement_ingest_def serve_simps)
      then show ?thesis ..
    next
      case False
      then obtain overwrite v bs where ok: "authorize_write (fl_contents S) (ig_table c) who = Inr ()"
          and m: "ingest_mode c = Inr overwrite" and v: "ingest_violation c = Inr v" and bs: "rows = Inr bs"
        by (cases "authorize_write (fl_contents S) (ig_table c) who"; cases "ingest_mode c"; cases "ingest_violation c"; cases rows) auto
      from authorized_owner [OF ok] obtain reg where reg: "mem_current (fl_contents S) (ig_table c) = Some reg"
          "reg_owner reg = None \<or> reg_owner reg = Some (tenant who)" .
      have o: "overwrite = (ig_if_exists c = Some ExistsReplace)" "ig_if_exists c \<noteq> Some ExistsFail"
        using m by (auto simp: ingest_mode_def split: option.splits table_exists.splits)
      have "v \<noteq> WExclude" using v by (auto simp: ingest_violation_def and_then_eq_Inr split: if_splits)
      then have vs: "v \<in> {WRefuse, WWarn}" by (cases v) auto
      let ?wr = "engine_write (fl_host S) (fl_write S) (fl_contents S) uuid (ig_table c) bs overwrite v"
      have "do_put_statement_ingest F S uuid c md rows w
          = then_serve (ask ?wr) (\<lambda>(report, _). serve (Inr (cast_i64 (rp_rows_written report)))) w"
        using who named ok m v bs by (simp add: do_put_statement_ingest_def serve_simps)
      also have "\<dots> = map_option (map_prod id (map_sum status (\<lambda>(report, _). cast_i64 (rp_rows_written report)))) (?wr w)"
        by (cases "?wr w") (auto simp: then_serve_def ask_def serve_def statused_def split: sum.split prod.split)
      finally show ?thesis using who named reg bs o vs by blast
    qed
  qed
qed

section \<open>Whose request it is\<close>

definition flight_laws :: "flight_api \<Rightarrow> bool" where
  "flight_laws F \<longleftrightarrow> (\<forall>b. fa_decode64 F (fa_encode64 F b) = Inr b) \<and> (\<forall>c. fa_json_caller F (fa_caller_json F c) = Inr c)"

text \<open>Everything one service answers to requests with this metadata, another answers to requests with that.\<close>

definition answers_as ::
  "flight_api \<Rightarrow> ('v, 'w, 'j, 'l) flight_sql \<Rightarrow> metadata \<Rightarrow> ('v, 'w, 'j, 'l) flight_sql \<Rightarrow> metadata \<Rightarrow> bool" where
  "answers_as F S md S' md' \<longleftrightarrow>
     (\<forall>sql d. get_flight_info_statement F S sql md d = get_flight_info_statement F S' sql md' d)
   \<and> (\<forall>h d. get_flight_info_prepared_statement F S h md d = get_flight_info_prepared_statement F S' h md' d)
   \<and> (\<forall>h. do_get_statement F S h md = do_get_statement F S' h md')
   \<and> (\<forall>h. do_get_prepared_statement F S h md = do_get_prepared_statement F S' h md')
   \<and> (\<forall>sql. create_prepared_statement F S sql md = create_prepared_statement F S' sql md')
   \<and> (\<forall>u c rows. do_put_statement_ingest F S u c md rows = do_put_statement_ingest F S' u c md' rows)"

lemma answers_as_caller:
  assumes "caller_of F S md = caller_of F S' md'" and "on_violation F md = on_violation F md'"
    and "fl_host S = fl_host S'" "fl_write S = fl_write S'" "fl_contents S = fl_contents S'"
  shows "answers_as F S md S' md'"
proof -
  have i: "info F S sql c md d = info F S' sql c md' d" for sql c d
    by (simp add: info_def assms)
  have a: "answer_sql F S h md = answer_sql F S' h md'" for h
    by (simp add: answer_sql_def assms)
  show ?thesis
    by (simp cong: if_cong option.case_cong add: answers_as_def get_flight_info_statement_def get_flight_info_prepared_statement_def
      do_get_statement_def do_get_prepared_statement_def create_prepared_statement_def do_put_statement_ingest_def i a assms)
qed

lemma on_violation_caller: "on_violation F (md(CALLER_HEADER := x)) = on_violation F md"
  by (simp add: on_violation_def CALLER_HEADER_def ON_VIOLATION_HEADER_def)


section \<open>What is refused before a scan\<close>

lemma check_refused_spool:
  assumes "check H g sql who v w = Some (w', Inl e)"
  shows "query_spooled H g sql who v w = Some (w', Inl e)"
proof -
  from assms obtain w3 e1 u where prep: "prepare H g sql who None [] v w = Some (w3, Inl e1)"
    and au: "audit H (h_uuid H) sql who (failure_outcome e1) 0 [] [] w3 = Some (w', u)"
    and e: "e = (case u of Inl e \<Rightarrow> e | Inr _ \<Rightarrow> e1)"
    unfolding check_parts by (auto split: option.splits sum.splits elim!: finally_do_Some simp: step_runs)
  have "spool H g sql who (h_uuid H) v w = Some (w3, Inl e1)" by (simp add: spool_def then_do_run prep)
  with au e show ?thesis by (cases u) (simp_all add: query_spooled_def finally_do_def)
qed

text \<open>
  C22. What \<open>GetFlightInfo\<close> refuses, \<open>DoGet\<close> of the same SQL would have refused with the same status, leaving
  the same world; and a prepared statement is the same SQL: its information, and its answer, are those of the
  statement itself, the ticket apart.
\<close>

theorem info_foretells_answer:
  assumes "fa_utf8 F sql = Some sql" and "\<forall>s. fa_schema_error F s = None"
  shows "(get_flight_info_statement F S sql md d w = Some (w', Inl e) \<longrightarrow> do_get_statement F S sql md w = Some (w', Inl e))
   \<and> (get_flight_info_prepared_statement F S sql md d w =
        map_option (map_prod id (map_sum id (\<lambda>i. i\<lparr>in_ticket := fa_prepared_ticket F sql\<rparr>)))
          (get_flight_info_statement F S sql md d w))
   \<and> do_get_prepared_statement F S sql md = do_get_statement F S sql md"
proof (intro conjI impI)
  assume run: "get_flight_info_statement F S sql md d w = Some (w', Inl e)"
  show "do_get_statement F S sql md w = Some (w', Inl e)"
  proof (cases "caller_of F S md")
    case (Inl f)
    with run show ?thesis
      by (simp add: get_flight_info_statement_def info_def do_get_statement_def answer_sql_def serve_simps)
  next
    case who: (Inr who)
    show ?thesis
    proof (cases "on_violation F md")
      case (Inl f)
      with who run assms(1) show ?thesis
        by (simp add: get_flight_info_statement_def info_def do_get_statement_def answer_sql_def serve_simps)
    next
      case v: (Inr v)
      let ?check = "check (fl_host S) (fl_contents S) sql who v"
      have "then_serve (ask ?check) (\<lambda>checked. serve (Inr \<lparr>in_schema = ck_schema checked,
          in_ticket = fa_statement_ticket F sql, in_descriptor = d, in_ordered = True\<rparr>)) w = Some (w', Inl e)"
        using run who v assms(2) by (simp add: get_flight_info_statement_def info_def serve_simps)
      then obtain e0 where "?check w = Some (w', Inl e0)" and e: "e = status e0"
        by (cases "?check w") (auto simp: then_serve_def ask_def statused_def serve_def split: sum.splits)
      from check_refused_spool [OF this(1)] have "ask (query_spooled (fl_host S) (fl_contents S) sql who v) w = Some (w', Inl e)"
        by (simp add: ask_def e statused_def)
      with who v assms(1) show ?thesis
        by (simp add: do_get_statement_def answer_sql_def serve_simps then_serve_run)
    qed
  qed
next
  show "get_flight_info_prepared_statement F S sql md d w =
        map_option (map_prod id (map_sum id (\<lambda>i. i\<lparr>in_ticket := fa_prepared_ticket F sql\<rparr>)))
          (get_flight_info_statement F S sql md d w)"
    using assms
    by (auto simp: get_flight_info_prepared_statement_def get_flight_info_statement_def info_def then_serve_def serve_def
      split: sum.split option.split prod.split)
qed (simp add: do_get_prepared_statement_def do_get_statement_def)

end
