(* ===== verification/Flight_Example.thy ===== *)
theory Flight_Example
  imports Flight_Safety Write_Example "HOL-Library.Countable"
begin

text \<open>
  A service over the engine of the other examples, with a codec of callers that can be read: the properties
  of the Flight service where their hypotheses hold.
\<close>

text \<open>A text as itself, each character marked, up to a mark of its end.\<close>

fun ex_quote :: "string \<Rightarrow> string" where
  "ex_quote [] = '';''"
| "ex_quote (c # s) = CHR ''+'' # c # ex_quote s"

fun ex_unquote :: "string \<Rightarrow> (string \<times> string) option" where
  "ex_unquote (m # r) =
     (if m = CHR '';'' then Some ([], r)
      else case r of [] \<Rightarrow> None | c # t \<Rightarrow> map_option (\<lambda>(s, u). (c # s, u)) (ex_unquote t))"
| "ex_unquote [] = None"

lemma ex_unquote_quote: "ex_unquote (ex_quote s @ r) = Some (s, r)"
  by (induction s) simp_all

definition ex_read_caller :: "string \<Rightarrow> string + caller" where
  "ex_read_caller b =
     (case ex_unquote b of
        None \<Rightarrow> Inl ''no id''
      | Some (i, r) \<Rightarrow> (case ex_unquote r of
            None \<Rightarrow> Inl ''no tenant''
          | Some (t, q) \<Rightarrow> (case ex_unquote q of
                None \<Rightarrow> Inl ''no purpose''
              | Some (p, claims) \<Rightarrow>
                  (case from_nat (length claims) of (tier, classification, roles, clearance, now) \<Rightarrow>
                     Inr \<lparr>caller_id = i, tenant = t, purpose = p, caller_tier = tier, caller_classification = classification,
                       caller_roles = roles, caller_clearance = clearance, caller_now = now\<rparr>))))"

definition ex_show_caller :: "caller \<Rightarrow> string" where
  "ex_show_caller c = ex_quote (caller_id c) @ ex_quote (tenant c) @ ex_quote (purpose c)
     @ replicate (to_nat (caller_tier c, caller_classification c, caller_roles c, caller_clearance c, caller_now c)) CHR ''x''"

definition ex_flight_api :: flight_api where
  "ex_flight_api = \<lparr>fa_to_str = Inr, fa_encode64 = ex_quote,
     fa_decode64 = (\<lambda>b. case ex_unquote b of None \<Rightarrow> Inl ''no end'' | Some (s, _) \<Rightarrow> Inr s),
     fa_caller_json = ex_show_caller,
     fa_json_caller = ex_read_caller, fa_utf8 = Some, fa_statement_ticket = (\<lambda>s. ''s'' @ s), fa_prepared_ticket = (\<lambda>s. ''p'' @ s),
     fa_schema_error = (\<lambda>s. None), fa_ipc_schema = (\<lambda>s. Inr ''ipc''), fa_metadata_json = (\<lambda>e s. Inr ''{}'')\<rparr>"

lemma ex_flight_laws: "flight_laws ex_flight_api"
proof -
  have "ex_read_caller (ex_show_caller c) = Inr c" for c :: caller
    by (simp add: ex_read_caller_def ex_show_caller_def ex_unquote_quote)
  moreover have "ex_unquote (ex_quote b) = Some (b, [])" for b
    using ex_unquote_quote [of b "[]"] by simp
  ultimately show ?thesis by (simp add: flight_laws_def ex_flight_api_def)
qed

definition ex_service :: "callers \<Rightarrow> (unit, unit, ex_json, ex_cache) flight_sql" where
  "ex_service who = \<lparr>fl_host = ex_host, fl_write = ex_write_api 0, fl_contents = ex_contents, fl_callers = who\<rparr>"

lemma ex_service_as: "(ex_service a)\<lparr>fl_callers := b\<rparr> = ex_service b"
  by (simp add: ex_service_def)


lemma ex_explain_refused:
  "\<exists>w'. check ex_host ex_contents ''explain'' ex_caller RExclude ex_world = Some (w', Inl (Refused ''EXPLAIN''))"
proof -
  have "prepare ex_host ex_contents ''explain'' ex_caller None [] RExclude ex_world = Some (ex_world, Inl (Refused ''EXPLAIN''))"
    by (simp add: prepare_def then_do_def lift_def check_sql_def ex_host_simps)
  then show ?thesis
    by (simp add: check_parts finally_do_def stop_def audit_def ex_host_simps then_do_def lift_def change_def)
qed

theorem info_foretells_answer_witness:
  "\<exists>w'. get_flight_info_statement ex_flight_api (ex_service (Fixed ex_caller)) ''explain'' Map.empty ''d'' ex_world
       = Some (w', Inl (status (Refused ''EXPLAIN'')))
     \<and> do_get_statement ex_flight_api (ex_service (Fixed ex_caller)) ''explain'' Map.empty ex_world
       = Some (w', Inl (status (Refused ''EXPLAIN'')))"
proof -
  obtain w' where w': "check ex_host ex_contents ''explain'' ex_caller RExclude ex_world = Some (w', Inl (Refused ''EXPLAIN''))"
    using ex_explain_refused ..
  then have info: "get_flight_info_statement ex_flight_api (ex_service (Fixed ex_caller)) ''explain'' Map.empty ''d'' ex_world
       = Some (w', Inl (status (Refused ''EXPLAIN'')))"
    by (simp add: get_flight_info_statement_def info_def caller_of_def ex_service_def on_violation_def default_read_violation_def
      then_serve_def ask_def statused_def serve_def)
  have "fa_utf8 ex_flight_api ''explain'' = Some ''explain''" "\<forall>s. fa_schema_error ex_flight_api s = None"
    by (simp_all add: ex_flight_api_def)
  with info_foretells_answer info show ?thesis by blast
qed

end
