(* ===== verification/Reading.thy ===== *)
theory Reading
  imports Binding Commits
begin

text \<open>
  How a contract's data is opened and its files are read (\<open>src/binding.rs\<close>, \<open>src/object_binding.rs\<close>,
  \<open>src/iceberg_table.rs\<close>): the table each resolver gives for a contract, with the columns it reads; the
  footer of a Parquet file by two ranged reads; and the hash of a file's bytes, read in parts. Parsing a
  listing URL, making a table of it, the footer's format and the stores' answers are parameters.
\<close>

section \<open>Files in parts\<close>

text \<open>A read of the bytes from one place to another. \<open>holds_bytes\<close> is a store that answers with the file's own.\<close>

type_synonym ranged = "nat \<Rightarrow> nat \<Rightarrow> string res"

definition holds_bytes :: "ranged \<Rightarrow> string \<Rightarrow> bool" where
  "holds_bytes rd b \<longleftrightarrow> (\<forall>s e. s \<le> e \<longrightarrow> e \<le> length b \<longrightarrow> rd s e = Inr (take (e - s) (drop s b)))"

definition FOOTER_SIZE :: nat where
  "FOOTER_SIZE = 8"

text \<open>\<open>FooterTail::try_new\<close> with \<open>metadata_length\<close>, and \<open>decode_metadata\<close>.\<close>

record parquet_api =
  pq_tail :: "string \<Rightarrow> string + nat"
  pq_decode :: "string \<Rightarrow> string + footer"

definition bad_file :: "string \<Rightarrow> string \<Rightarrow> peql_error" where
  "bad_file name e = Invalid (name @ '': '' @ e)"

definition or_bad :: "string \<Rightarrow> string + 'a \<Rightarrow> 'a res" where
  "or_bad name r = (case r of Inl e \<Rightarrow> Inl (bad_file name e) | Inr x \<Rightarrow> Inr x)"

text \<open>What both footers do once the file is known to be long enough to have one.\<close>

definition footer_at :: "parquet_api \<Rightarrow> string \<Rightarrow> nat \<Rightarrow> ranged \<Rightarrow> footer res" where
  "footer_at Q name n rd =
     and_then (rd (n - FOOTER_SIZE) n) (\<lambda>tail.
     and_then (if length tail \<noteq> FOOTER_SIZE then Inl (bad_file name ''short read'') else or_bad name (pq_tail Q tail)) (\<lambda>len.
     let fin = n - FOOTER_SIZE in
       if fin < len then Inl (bad_file name ''footer longer than the file'')
       else and_then (rd (fin - len) fin) (\<lambda>buf. or_bad name (pq_decode Q buf))))"

definition object_footer :: "parquet_api \<Rightarrow> string \<Rightarrow> nat \<Rightarrow> ranged \<Rightarrow> footer res" where
  "object_footer Q name n rd =
     (if n < FOOTER_SIZE then Inl (bad_file name ''too short to be Parquet'') else footer_at Q name n rd)"

text \<open>\<open>opened\<close> is the reader the table's \<open>FileIO\<close> gives.\<close>

definition ice_footer :: "parquet_api \<Rightarrow> string \<Rightarrow> nat \<Rightarrow> ranged res \<Rightarrow> footer res" where
  "ice_footer Q path n opened =
     (if n < FOOTER_SIZE then Inl (bad_file path ''too short to be Parquet'')
      else and_then opened (footer_at Q path n))"

text \<open>The bytes hashed: of a local file, read until a read gives nothing; of an object, chunk by chunk as it
  streams; of a snapshot's file, by ranges up to the size its manifest records. The hasher is its input.\<close>

partial_function (option) file_bytes :: "(nat \<Rightarrow> string res) \<Rightarrow> string \<Rightarrow> string res option" where
  "file_bytes rd acc =
     (case rd (length acc) of
        Inl e \<Rightarrow> Some (Inl e)
      | Inr c \<Rightarrow> if c = [] then Some (Inr acc) else file_bytes rd (acc @ c))"

definition file_sha256 :: "(string \<Rightarrow> string) \<Rightarrow> (nat \<Rightarrow> string res) res \<Rightarrow> string res option" where
  "file_sha256 hash opened =
     (case opened of
        Inl e \<Rightarrow> Some (Inl e)
      | Inr rd \<Rightarrow> map_option (\<lambda>r. and_then r (\<lambda>b. Inr (hash b))) (file_bytes rd []))"

fun stream_bytes :: "string res list \<Rightarrow> string \<Rightarrow> string res" where
  "stream_bytes [] acc = Inr acc"
| "stream_bytes (c # cs) acc = and_then c (\<lambda>c. stream_bytes cs (acc @ c))"

definition object_sha256 :: "(string \<Rightarrow> string) \<Rightarrow> string res list res \<Rightarrow> string res" where
  "object_sha256 hash got = and_then got (\<lambda>cs. and_then (stream_bytes cs []) (\<lambda>b. Inr (hash b)))"

definition READ_CHUNK :: nat where
  "READ_CHUNK = 2 ^ 20"

function ranged_bytes :: "ranged \<Rightarrow> nat \<Rightarrow> nat \<Rightarrow> string \<Rightarrow> string res" where
  "ranged_bytes rd n place acc =
     (if place < n
      then let to = min (place + READ_CHUNK) n in
        (case rd place to of Inl e \<Rightarrow> Inl e | Inr c \<Rightarrow> ranged_bytes rd n to (acc @ c))
      else Inr acc)"
  by auto
termination
  by (relation "measure (\<lambda>(rd, n, place, acc). n - place)") (auto simp: READ_CHUNK_def)

declare ranged_bytes.simps [simp del]

definition ice_sha256 :: "(string \<Rightarrow> string) \<Rightarrow> nat \<Rightarrow> ranged res \<Rightarrow> string res" where
  "ice_sha256 hash n opened = and_then opened (\<lambda>rd. and_then (ranged_bytes rd n 0 []) (\<lambda>b. Inr (hash b)))"

text \<open>The entries of a validation's manifest, file by file.\<close>

definition object_file_entries ::
  "parquet_api \<Rightarrow> (string \<Rightarrow> string) \<Rightarrow> object_location \<Rightarrow> (string list \<Rightarrow> ranged) \<Rightarrow> (string list \<Rightarrow> string res list res)
     \<Rightarrow> string list \<Rightarrow> (string list \<times> nat) list \<Rightarrow> file_entry list res" where
  "object_file_entries Q hash l rd got flag_columns files =
     map_res (\<lambda>(p, n).
       and_then (object_footer Q (join ''/'' p) n (rd p)) (\<lambda>m.
       and_then (object_sha256 hash (got p)) (\<lambda>sha.
         Inr (entry_from_footer (obj_relative l p) n m flag_columns sha)))) files"

definition ice_file_entries ::
  "parquet_api \<Rightarrow> (string \<Rightarrow> string) \<Rightarrow> (string \<Rightarrow> ranged res) \<Rightarrow> string list \<Rightarrow> snapshot_file list \<Rightarrow> file_entry list res" where
  "ice_file_entries Q hash opened flag_columns files =
     map_res (\<lambda>f.
       and_then (ice_footer Q (sf_path f) (sf_bytes f) (opened (sf_path f))) (\<lambda>m.
       and_then (ice_sha256 hash (sf_bytes f) (opened (sf_path f))) (\<lambda>sha.
         Inr (entry_from_footer (sf_relative f) (sf_bytes f) m flag_columns sha)))) files"

section \<open>Parquet data as a table\<close>

text \<open>The schema of the files, without partition columns.\<close>

definition file_schema :: "compiled_contract \<Rightarrow> bool \<Rightarrow> schema" where
  "file_schema cc stored =
     (let fields = filter (\<lambda>f. field_name f \<notin> set (partitioned_by cc)) (if stored then scan_schema cc else row_schema cc)
      in if \<not> stored then fields
         else fields
           @ map (\<lambda>f. \<lparr>field_name = flag_column f, field_type = TBoolean, nullable = True\<rparr>) (cc_flags cc)
           @ map (\<lambda>d. \<lparr>field_name = derived_column d, field_type = derived_type d, nullable = True\<rparr>) (cc_derived cc))"

text \<open>A listing table: where it lists, the columns of its files, and those of the directories' names.\<close>

record listing_config =
  lc_url :: string
  lc_schema :: schema
  lc_partitions :: "(string \<times> data_type) list"

record listing_api =
  li_canonicalize :: "string \<Rightarrow> string + string"
  li_is_file :: "string \<Rightarrow> bool"
  li_mkdir_error :: "string \<Rightarrow> string option"
  li_url_error :: "string \<Rightarrow> df_error option"
  li_table_error :: "listing_config \<Rightarrow> df_error option"

definition local_url :: "listing_api \<Rightarrow> string \<Rightarrow> bool \<Rightarrow> string res" where
  "local_url D path dir =
     (case li_canonicalize D path of
        Inl e \<Rightarrow> Inl (Io e)
      | Inr s \<Rightarrow> Inr (if dir \<and> (s = [] \<or> last s \<noteq> CHR ''/'') then s @ ''/'' else s))"

definition new_listing :: "listing_api \<Rightarrow> listing_config \<Rightarrow> listing_config res" where
  "new_listing D c = (case li_table_error D c of Some e \<Rightarrow> Inl (DataFusion e) | None \<Rightarrow> Inr c)"

definition partition_column :: "compiled_contract \<Rightarrow> string \<Rightarrow> (string \<times> data_type) res" where
  "partition_column cc p =
     (case field_with_name (row_schema cc) p of
        None \<Rightarrow> Inl (Invalid (''partition column `'' @ p @ ''` is not in the data''))
      | Some f \<Rightarrow> Inr (p, field_type f))"

definition listing_table_at :: "listing_api \<Rightarrow> compiled_contract \<Rightarrow> string \<Rightarrow> bool \<Rightarrow> bool \<Rightarrow> listing_config res" where
  "listing_table_at D cc url single stored =
     and_then (case li_url_error D url of Some e \<Rightarrow> Inl (DataFusion e) | None \<Rightarrow> Inr ()) (\<lambda>_.
       if single then new_listing D \<lparr>lc_url = url, lc_schema = row_schema cc, lc_partitions = []\<rparr>
       else and_then (map_res (partition_column cc) (partitioned_by cc)) (\<lambda>ps.
         new_listing D \<lparr>lc_url = url, lc_schema = file_schema cc stored, lc_partitions = ps\<rparr>))"

text \<open>A directory that is not there is made: the first of the results is whether.\<close>

definition listing_table :: "listing_api \<Rightarrow> compiled_contract \<Rightarrow> string \<Rightarrow> bool \<Rightarrow> bool \<times> listing_config res" where
  "listing_table D cc dir stored =
     (if li_is_file D dir then (False, and_then (local_url D dir False) (\<lambda>u. listing_table_at D cc u True stored))
      else case li_mkdir_error D dir of
          Some e \<Rightarrow> (False, Inl (Io e))
        | None \<Rightarrow> (True, and_then (local_url D dir True) (\<lambda>u. listing_table_at D cc u False stored)))"

definition local_provider :: "listing_api \<Rightarrow> string \<Rightarrow> compiled_contract \<Rightarrow> bool \<Rightarrow> bool \<times> listing_config res" where
  "local_provider D base cc stored =
     (case local_root base cc of None \<Rightarrow> (False, Inl (unresolved cc)) | Some dir \<Rightarrow> listing_table D cc dir stored)"

definition object_unresolved :: "object_store_parquet \<Rightarrow> compiled_contract \<Rightarrow> peql_error" where
  "object_unresolved s cc =
     (case cc_source cc of
        ParquetSource path \<Rightarrow> Invalid (''`'' @ cc_name cc @ ''` binds `'' @ path @ ''`, which is not in '' @ os_url s)
      | IcebergSource _ _ \<Rightarrow> unresolved cc)"

definition object_provider ::
  "listing_api \<Rightarrow> path_api \<Rightarrow> object_store_parquet \<Rightarrow> compiled_contract \<Rightarrow> bool \<Rightarrow> listing_config res" where
  "object_provider D P s cc stored =
     (case object_location_of P s cc of
        None \<Rightarrow> Inl (object_unresolved s cc)
      | Some l \<Rightarrow> (let single = obj_single_file l in listing_table_at D cc (obj_url l (\<not> single)) single stored))"

text \<open>The files of one write, read back for its validation.\<close>

definition written_files :: "listing_api \<Rightarrow> compiled_contract \<Rightarrow> string \<Rightarrow> listing_config res" where
  "written_files D cc url =
     and_then (case li_url_error D url of Some e \<Rightarrow> Inl (DataFusion e) | None \<Rightarrow> Inr ()) (\<lambda>_.
       new_listing D \<lparr>lc_url = url, lc_schema = row_schema cc, lc_partitions = []\<rparr>)"

section \<open>An Iceberg table as of a snapshot\<close>

text \<open>The table a contract's binding names, as its identifier is written.\<close>

definition ice_table_of :: "compiled_contract \<Rightarrow> string option" where
  "ice_table_of cc =
     (case cc_source cc of IcebergSource ns t \<Rightarrow> Some (join ''.'' (ns @ [t])) | ParquetSource _ \<Rightarrow> None)"

definition ice_location :: "compiled_contract \<Rightarrow> location option" where
  "ice_location cc = map_option IcebergAt (ice_table_of cc)"

text \<open>The columns a snapshot is read with: \<open>have\<close> are those it has.\<close>

definition ice_column :: "compiled_contract \<Rightarrow> string \<Rightarrow> int \<Rightarrow> schema \<Rightarrow> field \<Rightarrow> (string \<times> expr) res" where
  "ice_column cc k s have f =
     (case field_with_name have (field_name f) of
        None \<Rightarrow> Inl (Invalid (''`'' @ cc_name cc @ ''` reads column `'' @ field_name f @ ''`, which snapshot '' @ show_int s
            @ '' of '' @ k @ '' does not have''))
      | Some h \<Rightarrow> Inr (field_name f,
          if field_type h = field_type f then Column (field_name f) else Cast (Column (field_name f)) (field_type f)))"

text \<open>\<open>scan\<close> is the snapshot's own table, with its columns; \<open>project\<close> the error of the plan over it.\<close>

definition ice_snapshot_provider ::
  "(ice_table \<Rightarrow> int \<Rightarrow> ice_error + schema) \<Rightarrow> ((string \<times> expr) list \<Rightarrow> df_error option) \<Rightarrow> string \<Rightarrow> ice_table
     \<Rightarrow> compiled_contract \<Rightarrow> bool \<Rightarrow> int \<Rightarrow> (string \<times> expr) list res" where
  "ice_snapshot_provider scan plan_error k t cc stored s =
     and_then (of_ice (scan t s)) (\<lambda>have.
     and_then (map_res (ice_column cc k s have) (if stored then table_schema cc else row_schema cc)) (\<lambda>sel.
       case plan_error sel of Some e \<Rightarrow> Inl (DataFusion e) | None \<Rightarrow> Inr sel))"

definition ice_provider ::
  "(ice_table \<Rightarrow> int \<Rightarrow> ice_error + schema) \<Rightarrow> ((string \<times> expr) list \<Rightarrow> df_error option) \<Rightarrow> compiled_contract \<Rightarrow> bool
     \<Rightarrow> (('j, 'l) world, (string \<times> expr) list) step" where
  "ice_provider scan plan_error cc stored =
     then_do (lift (ok_or (unresolved cc) (ice_table_of cc))) (\<lambda>k.
     then_do (load_table k) (\<lambda>to.
     then_do (lift (ok_or (NotWritten (cc_name cc)) to)) (\<lambda>t.
     then_do (lift (ok_or (NotWritten (cc_name cc)) (it_current t))) (\<lambda>s.
       lift (ice_snapshot_provider scan plan_error k t cc stored s)))))"

text \<open>A snapshot's columns as they are: what a compaction copies.\<close>

definition ice_whole :: "(ice_table \<Rightarrow> int \<Rightarrow> ice_error + schema) \<Rightarrow> ice_table \<Rightarrow> int \<Rightarrow> schema res" where
  "ice_whole scan t s = of_ice (scan t s)"

section \<open>Properties\<close>

lemma file_bytes_rest:
  assumes "\<And>i. i < length b \<Longrightarrow> \<exists>c. rd i = Inr c \<and> c \<noteq> [] \<and> c = take (length c) (drop i b)"
    and "rd (length b) = Inr []"
  shows "i \<le> length b \<Longrightarrow> file_bytes rd (take i b) = Some (Inr b)"
proof (induction "length b - i" arbitrary: i rule: less_induct)
  case less
  show ?case
  proof (cases "i = length b")
    case True
    then show ?thesis by (subst file_bytes.simps) (simp add: assms(2))
  next
    case False
    with less.prems obtain c where c: "rd i = Inr c" "c \<noteq> []" "c = take (length c) (drop i b)" using assms(1) [of i] by auto
    have "length (take (length c) (drop i b)) = length c" using c(3) by (rule arg_cong [symmetric])
    then have i: "i + length c \<le> length b" using less.prems by simp
    have "take i b @ c = take (i + length c) b" using c(3) by (simp add: take_add)
    moreover have "file_bytes rd (take (i + length c) b) = Some (Inr b)"
    proof (rule less.hyps)
      show "length b - (i + length c) < length b - i" using c(2) i by (cases c) auto
    qed (rule i)
    moreover have "file_bytes rd (take i b) = file_bytes rd (take i b @ c)"
      using less.prems c(1,2) by (subst file_bytes.simps) simp
    ultimately show ?thesis by simp
  qed
qed

lemma stream_bytes_Inr: "stream_bytes (map Inr cs) acc = Inr (acc @ concat cs)"
  by (induction cs arbitrary: acc) simp_all

lemma ranged_bytes_rest:
  assumes "holds_bytes rd b" and "n \<le> length b"
  shows "i \<le> n \<Longrightarrow> ranged_bytes rd n i (take i b) = Inr (take n b)"
proof (induction "n - i" arbitrary: i rule: less_induct)
  case less
  show ?case
  proof (cases "i < n")
    case False
    with less.prems show ?thesis by (subst ranged_bytes.simps) simp
  next
    case True
    let ?to = "min (i + READ_CHUNK) n"
    have to: "i < ?to" "?to \<le> n" using True by (simp_all add: READ_CHUNK_def)
    have read: "rd i ?to = Inr (take (?to - i) (drop i b))"
      using assms to unfolding holds_bytes_def by auto
    have "take i b @ take (?to - i) (drop i b) = take ?to b" using to(1) by (simp add: take_add [symmetric])
    moreover have "ranged_bytes rd n ?to (take ?to b) = Inr (take n b)" using less.hyps [of ?to] to True by simp
    ultimately show ?thesis using True by (subst ranged_bytes.simps) (simp only: Let_def read if_True sum.case)
  qed
qed

text \<open>
  However a file is read, its hash is of its bytes, once each and in order: a local file by reads that
  may be short, and the reading ends; an object by the chunks it streams; a snapshot's file by ranges, as far
  as its manifest says it goes.
\<close>

theorem hashes_are_of_the_bytes:
  assumes "\<And>i. i < length b \<Longrightarrow> \<exists>c. rd i = Inr c \<and> c \<noteq> [] \<and> c = take (length c) (drop i b)"
    and "rd (length b) = Inr []" and "concat cs = b" and "holds_bytes rd' b" and "n \<le> length b"
  shows "file_sha256 hash (Inr rd) = Some (Inr (hash b))
   \<and> object_sha256 hash (Inr (map Inr cs)) = Inr (hash b)
   \<and> ice_sha256 hash n (Inr rd') = Inr (hash (take n b))"
  using file_bytes_rest [OF assms(1,2), of 0] ranged_bytes_rest [OF assms(4,5), of 0] assms(3)
  by (simp add: file_sha256_def object_sha256_def ice_sha256_def stream_bytes_Inr)

lemma or_bad_Inr: "or_bad name r = Inr x \<longleftrightarrow> r = Inr x"
  by (auto simp: or_bad_def split: sum.splits)

lemma footer_at_Inr:
  assumes rd: "holds_bytes rd b" and n: "FOOTER_SIZE \<le> length b"
  shows "footer_at Q name (length b) rd = Inr m \<longleftrightarrow>
     (\<exists>pre meta tail. b = pre @ meta @ tail \<and> length tail = FOOTER_SIZE \<and> pq_tail Q tail = Inr (length meta)
        \<and> pq_decode Q meta = Inr m)" (is "?l = ?r")
proof -
  let ?fin = "length b - FOOTER_SIZE" and ?tail = "drop (length b - FOOTER_SIZE) b"
  have tail: "rd ?fin (length b) = Inr ?tail" "length ?tail = FOOTER_SIZE"
    using rd n unfolding holds_bytes_def by auto
  have buf: "rd (?fin - len) ?fin = Inr (take len (drop (?fin - len) b))" if "len \<le> ?fin" for len
  proof -
    have "?fin - (?fin - len) = len" using that by simp
    moreover have "rd (?fin - len) ?fin = Inr (take (?fin - (?fin - len)) (drop (?fin - len) b))"
      using rd unfolding holds_bytes_def by simp
    ultimately show ?thesis by (simp only:)
  qed
  have "?l \<longleftrightarrow> (\<exists>len. pq_tail Q ?tail = Inr len \<and> len \<le> ?fin \<and> pq_decode Q (take len (drop (?fin - len) b)) = Inr m)"
  proof -
    have "?l \<longleftrightarrow> (\<exists>len. pq_tail Q ?tail = Inr len \<and>
        (if ?fin < len then Inl (bad_file name ''footer longer than the file'')
         else and_then (rd (?fin - len) ?fin) (\<lambda>buf. or_bad name (pq_decode Q buf))) = Inr m)"
      by (simp only: footer_at_def tail Let_def and_then_Inr not_not if_False simp_thms and_then_eq_Inr or_bad_Inr)
    also have "\<dots> \<longleftrightarrow> (\<exists>len. pq_tail Q ?tail = Inr len \<and> len \<le> ?fin \<and> pq_decode Q (take len (drop (?fin - len) b)) = Inr m)"
      by (rule arg_cong [where f = Ex], rule ext, rule conj_cong [OF refl])
        (simp add: buf or_bad_Inr not_less [symmetric] del: diff_diff_left)
    finally show ?thesis .
  qed
  also have "\<dots> \<longleftrightarrow> ?r"
  proof
    assume "\<exists>len. pq_tail Q ?tail = Inr len \<and> len \<le> ?fin \<and> pq_decode Q (take len (drop (?fin - len) b)) = Inr m"
    then obtain len where len: "pq_tail Q ?tail = Inr len" "len \<le> ?fin"
        "pq_decode Q (take len (drop (?fin - len) b)) = Inr m" by blast
    have "b = take (?fin - len) b @ take len (drop (?fin - len) b) @ drop len (drop (?fin - len) b)"
      by (simp only: append_take_drop_id)
    moreover have "drop len (drop (?fin - len) b) = ?tail" using len(2) by (simp del: diff_diff_left)
    moreover have "length (take len (drop (?fin - len) b)) = len" using len(2) by simp
    ultimately show ?r using len tail(2) by metis
  next
    assume ?r
    then obtain pre meta tl where b: "b = pre @ meta @ tl" "length tl = FOOTER_SIZE" "pq_tail Q tl = Inr (length meta)"
        "pq_decode Q meta = Inr m" by blast
    have fin: "?fin = length pre + length meta" using b(1,2) by simp
    then have "?tail = tl" "length meta \<le> ?fin" "take (length meta) (drop (?fin - length meta) b) = meta"
      using b(1) by simp_all
    with b show "\<exists>len. pq_tail Q ?tail = Inr len \<and> len \<le> ?fin \<and> pq_decode Q (take len (drop (?fin - len) b)) = Inr m"
      by metis
  qed
  finally show ?thesis .
qed

text \<open>
  The footer read of a file is the one its bytes end with, and one is read exactly when they do: the
  metadata, then the eight bytes that say how long it is. No read leaves the file, whatever those bytes say;
  an object's and a snapshot's file are read alike.
\<close>

theorem footers_are_the_files:
  assumes "holds_bytes rd b"
  shows "(object_footer Q name (length b) rd = Inr m \<longleftrightarrow>
       (\<exists>pre meta tail. b = pre @ meta @ tail \<and> length tail = FOOTER_SIZE \<and> pq_tail Q tail = Inr (length meta)
          \<and> pq_decode Q meta = Inr m))
   \<and> ((\<forall>s e. s \<le> e \<longrightarrow> e \<le> length b \<longrightarrow> rd' s e = rd s e) \<longrightarrow>
        object_footer Q name (length b) rd' = object_footer Q name (length b) rd)
   \<and> ice_footer Q name (length b) (Inr rd) = object_footer Q name (length b) rd"
proof (intro conjI impI)
  show "object_footer Q name (length b) rd = Inr m \<longleftrightarrow>
       (\<exists>pre meta tail. b = pre @ meta @ tail \<and> length tail = FOOTER_SIZE \<and> pq_tail Q tail = Inr (length meta)
          \<and> pq_decode Q meta = Inr m)"
    using footer_at_Inr [OF assms] by (cases "length b < FOOTER_SIZE") (auto simp: object_footer_def)
next
  assume same: "\<forall>s e. s \<le> e \<longrightarrow> e \<le> length b \<longrightarrow> rd' s e = rd s e"
  have "footer_at Q name (length b) rd' = footer_at Q name (length b) rd"
    by (simp add: footer_at_def Let_def same not_less cong: if_cong)
  then show "object_footer Q name (length b) rd' = object_footer Q name (length b) rd" by (simp add: object_footer_def)
qed (simp add: object_footer_def ice_footer_def)

section \<open>The columns a contract reads\<close>

text \<open>The type of a column a snapshot is read with.\<close>

fun column_type :: "schema \<Rightarrow> expr \<Rightarrow> data_type option" where
  "column_type have (Column n) = map_option field_type (field_with_name have n)"
| "column_type have (Cast e t) = (if column_type have e = None then None else Some t)"
| "column_type have e = None"

lemma ice_column_Inr:
  "ice_column cc k s have f = Inr c \<Longrightarrow> fst c = field_name f \<and> column_type have (snd c) = Some (field_type f)"
  by (auto simp: ice_column_def split: option.splits if_splits)

lemma partition_column_Inr: "partition_column cc p = Inr c \<Longrightarrow>
    \<exists>f \<in> set (row_schema cc). c = (field_name f, field_type f) \<and> field_name f = p"
  by (auto simp: partition_column_def field_with_name_def find_Some_iff split: option.splits)

lemma mset_parts:
  assumes "distinct (map field_name (fs :: schema))" and "distinct ps" and "set ps \<subseteq> set (map field_name fs)"
    and "list_all2 (\<lambda>p c. \<exists>f \<in> set fs. c = (field_name f, field_type f) \<and> field_name f = p) ps cs"
  shows "mset (map (\<lambda>f. (field_name f, field_type f)) (filter (\<lambda>f. field_name f \<notin> set ps) fs) @ cs)
     = mset (map (\<lambda>f. (field_name f, field_type f)) fs)"
proof -
  let ?c = "\<lambda>f :: field. (field_name f, field_type f)"
  have names: "map fst cs = ps" using assms(4) by (induction rule: list_all2_induct) auto
  have inj: "inj_on field_name (set fs)" using assms(1) by (simp add: distinct_map)
  have dist: "distinct (map ?c fs)"
    using assms(1) by (auto simp: distinct_map inj_on_def)
  have cs: "set cs = ?c ` {f \<in> set fs. field_name f \<in> set ps}"
  proof (intro equalityI subsetI)
    fix c assume "c \<in> set cs"
    with assms(4) obtain p where "p \<in> set ps" "\<exists>f \<in> set fs. c = ?c f \<and> field_name f = p"
      unfolding list_all2_conv_all_nth in_set_conv_nth by metis
    then show "c \<in> ?c ` {f \<in> set fs. field_name f \<in> set ps}" by auto
  next
    fix c assume "c \<in> ?c ` {f \<in> set fs. field_name f \<in> set ps}"
    then obtain f where f: "f \<in> set fs" "field_name f \<in> set ps" "c = ?c f" by blast
    then obtain c' where "c' \<in> set cs" "fst c' = field_name f" using names by (metis (no_types, lifting) in_set_conv_nth length_map nth_map)
    moreover from this(1) assms(4) obtain f' where "f' \<in> set fs" "c' = ?c f'"
      by (auto simp: list_all2_conv_all_nth in_set_conv_nth)
    ultimately have "f' = f" using inj f(1) by (auto dest: inj_onD)
    with \<open>c' = ?c f'\<close> \<open>c' \<in> set cs\<close> f(3) show "c \<in> set cs" by simp
  qed
  have "distinct cs" using names assms(2) by (metis distinct_map)
  then have "distinct (map ?c (filter (\<lambda>f. field_name f \<notin> set ps) fs) @ cs)"
    using dist by (auto simp: cs distinct_map inj_on_def)
  moreover have "set (map ?c (filter (\<lambda>f. field_name f \<notin> set ps) fs) @ cs) = set (map ?c fs)" by (auto simp: cs)
  ultimately show ?thesis using dist by (simp only: set_eq_iff_mset_eq_distinct)
qed

lemma new_listing_Inr: "new_listing D c = Inr l \<longleftrightarrow> li_table_error D c = None \<and> l = c"
  by (auto simp: new_listing_def split: option.splits)

lemma listing_columns:
  assumes "listing_table_at D cc url False False = Inr l"
    and wf: "distinct (map field_name (row_schema cc))" "distinct (partitioned_by cc)"
  shows "mset (map (\<lambda>f. (field_name f, field_type f)) (lc_schema l) @ lc_partitions l)
     = mset (map (\<lambda>f. (field_name f, field_type f)) (row_schema cc))"
proof -
  from assms(1) obtain ps where ps: "map_res (partition_column cc) (partitioned_by cc) = Inr ps"
      and l: "l = \<lparr>lc_url = url, lc_schema = file_schema cc False, lc_partitions = ps\<rparr>"
    by (auto simp: listing_table_at_def and_then_eq_Inr new_listing_Inr split: option.splits)
  have parts: "list_all2 (\<lambda>p c. \<exists>f \<in> set (row_schema cc). c = (field_name f, field_type f) \<and> field_name f = p) (partitioned_by cc) ps"
    using ps unfolding map_res_Inr_iff by (rule list_all2_mono) (rule partition_column_Inr)
  then have "set (partitioned_by cc) \<subseteq> set (map field_name (row_schema cc))"
    unfolding list_all2_conv_all_nth by (metis (no_types, lifting) image_eqI in_set_conv_nth set_map subsetI)
  from mset_parts [OF wf this parts]
  show ?thesis
    by (simp add: l file_schema_def)
qed

text \<open>
  C37. A contract's data is opened with the contract's columns. An Iceberg snapshot is read with exactly the
  columns the contract names, in their order and of their types, or not at all; Parquet files in directories
  give, from the files and from the directories' names, every raw column once, of its type.
\<close>

theorem opened_with_the_contracts_columns:
  assumes "scan t s = Inr have"
    and "distinct (map field_name (row_schema cc))" and "distinct (partitioned_by cc)"
  shows "(ice_snapshot_provider scan err k t cc stored s = Inr sel \<longrightarrow>
       list_all2 (\<lambda>f c. fst c = field_name f \<and> column_type have (snd c) = Some (field_type f))
         (if stored then table_schema cc else row_schema cc) sel)
   \<and> ((\<exists>f \<in> set (if stored then table_schema cc else row_schema cc). field_with_name have (field_name f) = None) \<longrightarrow>
        isl (ice_snapshot_provider scan err k t cc stored s))
   \<and> (listing_table_at D cc url False False = Inr l \<longrightarrow>
        mset (map (\<lambda>f. (field_name f, field_type f)) (lc_schema l) @ lc_partitions l)
          = mset (map (\<lambda>f. (field_name f, field_type f)) (row_schema cc)))"
proof (intro conjI impI)
  let ?want = "if stored then table_schema cc else row_schema cc"
  assume "ice_snapshot_provider scan err k t cc stored s = Inr sel"
  then have "map_res (ice_column cc k s have) ?want = Inr sel"
    by (auto simp: ice_snapshot_provider_def assms(1) and_then_eq_Inr split: option.splits)
  then show "list_all2 (\<lambda>f c. fst c = field_name f \<and> column_type have (snd c) = Some (field_type f)) ?want sel"
    unfolding map_res_Inr_iff by (rule list_all2_mono) (rule ice_column_Inr)
next
  let ?want = "if stored then table_schema cc else row_schema cc"
  assume "\<exists>f \<in> set ?want. field_with_name have (field_name f) = None"
  then obtain f where f: "f \<in> set ?want" "\<And>c. ice_column cc k s have f \<noteq> Inr c" by (auto simp: ice_column_def)
  have "map_res (ice_column cc k s have) ?want \<noteq> Inr cs" for cs
    unfolding map_res_Inr_iff list_all2_conv_all_nth using f by (metis in_set_conv_nth)
  then obtain e where "map_res (ice_column cc k s have) ?want = Inl e" by (cases "map_res (ice_column cc k s have) ?want") auto
  then show "isl (ice_snapshot_provider scan err k t cc stored s)" by (simp add: ice_snapshot_provider_def assms(1))
qed (rule listing_columns [OF _ assms(2,3)])

end
