(* ===== verification/Resolvers.thy ===== *)
theory Resolvers
  imports Reading
begin

text \<open>
  The interface between the engine and where the data is (\<open>BindingResolver\<close> of \<open>src/binding.rs\<close>): what every
  resolver keeps to, what follows from it for the engine, and that the three resolvers do.
\<close>

section \<open>The interface\<close>

text \<open>
  \<open>opens cc stored t\<close>: asked for the contract's table, the resolver may give \<open>t\<close>; \<open>names\<close> are the columns of a table.
\<close>

locale binding_resolver =
  fixes opens :: "compiled_contract \<Rightarrow> bool \<Rightarrow> 't \<Rightarrow> bool"
    and location :: "compiled_contract \<Rightarrow> location option"
    and names :: "'t \<Rightarrow> string list"
  assumes reached: "opens cc stored t \<Longrightarrow> location cc \<noteq> None"
    and by_binding: "cc_source cc = cc_source cc' \<Longrightarrow> location cc = location cc'"
    and raw_names: "opens cc False t \<Longrightarrow> distinct (map field_name (row_schema cc)) \<Longrightarrow> distinct (partitioned_by cc) \<Longrightarrow>
      mset (names t) = mset (map field_name (row_schema cc))"

context binding_resolver begin

lemma unreached: "location cc = None \<Longrightarrow> \<not> opens cc stored t"
  using reached by blast

lemma versions_share: "cc_source cc = cc_source cc' \<Longrightarrow> opens cc stored t \<Longrightarrow> location cc' \<noteq> None"
  using reached by_binding by metis

lemma columns_once:
  assumes "opens cc False t" and "distinct (map field_name (row_schema cc))" and "distinct (partitioned_by cc)"
  shows "distinct (names t)" and "set (names t) = field_name ` set (row_schema cc)"
proof -
  note m = raw_names [OF assms]
  show "distinct (names t)" using m assms(2) by (rule mset_eq_imp_distinct_iff [THEN iffD2])
  show "set (names t) = field_name ` set (row_schema cc)" using mset_eq_setD [OF m] by simp
qed

end

section \<open>The three resolvers\<close>

definition listing_names :: "listing_config \<Rightarrow> string list" where
  "listing_names l = map field_name (lc_schema l) @ map fst (lc_partitions l)"

lemma listing_raw_names:
  assumes "listing_table_at D cc url single False = Inr l"
    and "distinct (map field_name (row_schema cc))" and "distinct (partitioned_by cc)"
  shows "mset (listing_names l) = mset (map field_name (row_schema cc))"
proof (cases single)
  case True
  with assms(1) show ?thesis
    by (auto simp: listing_table_at_def and_then_eq_Inr new_listing_Inr listing_names_def split: option.splits)
next
  case False
  with assms(1) have "listing_table_at D cc url False False = Inr l" by simp
  note m = listing_columns [OF this assms(2,3)]
  have "mset (map fst (map (\<lambda>f. (field_name f, field_type f)) (lc_schema l) @ lc_partitions l))
      = mset (map fst (map (\<lambda>f. (field_name f, field_type f)) (row_schema cc)))"
    using arg_cong [OF m, of "image_mset fst"] by (simp only: mset_map)
  then show ?thesis by (simp add: listing_names_def comp_def)
qed

interpretation local: binding_resolver
  "\<lambda>cc stored l. snd (local_provider D base cc stored) = Inr l" "local_location base" listing_names
proof (unfold_locales, goal_cases)
  case (1 cc stored t)
  then show ?case by (auto simp: local_provider_def local_location_def split: option.splits)
next
  case (2 cc cc')
  then show ?case by (simp add: local_location_def local_root_def)
next
  case (3 cc t)
  then obtain url single where "listing_table_at D cc url single False = Inr t"
    by (auto simp: local_provider_def listing_table_def and_then_eq_Inr split: option.splits if_splits)
  from this 3(2,3) show ?case by (rule listing_raw_names)
qed

interpretation object: binding_resolver
  "\<lambda>cc stored l. object_provider D P s cc stored = Inr l" "\<lambda>cc. map_option ObjectAt (object_location_of P s cc)" listing_names
proof (unfold_locales, goal_cases)
  case (1 cc stored t)
  then show ?case by (auto simp: object_provider_def split: option.splits)
next
  case (2 cc cc')
  then show ?case by (simp add: object_location_of_def)
next
  case (3 cc t)
  then obtain url single where "listing_table_at D cc url single False = Inr t"
    by (auto simp: object_provider_def Let_def split: option.splits)
  from this 3(2,3) show ?case by (rule listing_raw_names)
qed

definition ice_opens ::
  "(ice_table \<Rightarrow> int \<Rightarrow> ice_error + schema) \<Rightarrow> ((string \<times> expr) list \<Rightarrow> df_error option) \<Rightarrow> ('j, 'l) world
     \<Rightarrow> compiled_contract \<Rightarrow> bool \<Rightarrow> (string \<times> expr) list \<Rightarrow> bool" where
  "ice_opens scan err w cc stored sel \<longleftrightarrow> (\<exists>w'. ice_provider scan err cc stored w = Some (w', Inr sel))"

lemma ice_snapshot_names:
  assumes "ice_snapshot_provider scan err k t cc stored s = Inr sel"
  shows "map fst sel = map field_name (if stored then table_schema cc else row_schema cc)"
proof -
  from assms obtain have' where "map_res (ice_column cc k s have') (if stored then table_schema cc else row_schema cc) = Inr sel"
    by (auto simp: ice_snapshot_provider_def and_then_eq_Inr split: option.splits)
  then have "list_all2 (\<lambda>f c. fst c = field_name f) (if stored then table_schema cc else row_schema cc) sel"
    unfolding map_res_Inr_iff by (rule list_all2_mono) (simp add: ice_column_Inr)
  then show ?thesis by (induction rule: list_all2_induct) simp_all
qed

interpretation iceberg: binding_resolver "ice_opens scan err w" ice_location "map fst"
proof (unfold_locales, goal_cases)
  case (1 cc stored t)
  then show ?case
    by (auto simp: ice_opens_def ice_provider_def ice_location_def lift_def ok_or_def step_simps split: option.splits)
next
  case (2 cc cc')
  then show ?case by (simp add: ice_location_def ice_table_of_def)
next
  case (3 cc t)
  then obtain k tb sn where "ice_snapshot_provider scan err k tb cc False sn = Inr t"
    by (auto simp: ice_opens_def ice_provider_def step_simps lift_def)
  then show ?case using ice_snapshot_names by fastforce
qed

text \<open>
  Whatever a contract is bound to, the resolver opens only what it has a location for, which its binding
  alone decides; and the table it opens for validation and writing has each raw column of the contract once,
  and no other.
\<close>

theorem resolvers_open_raw_columns:
  assumes "distinct (map field_name (row_schema cc))" and "distinct (partitioned_by cc)"
  shows "(snd (local_provider D base cc False) = Inr l \<longrightarrow>
       local_location base cc \<noteq> None \<and> distinct (listing_names l) \<and> set (listing_names l) = field_name ` set (row_schema cc))
   \<and> (object_provider D P s cc False = Inr l \<longrightarrow>
       object_location_of P s cc \<noteq> None \<and> distinct (listing_names l) \<and> set (listing_names l) = field_name ` set (row_schema cc))
   \<and> (ice_provider scan err cc False w = Some (w', Inr sel) \<longrightarrow>
       ice_location cc \<noteq> None \<and> distinct (map fst sel) \<and> set (map fst sel) = field_name ` set (row_schema cc))"
proof (intro conjI impI)
  assume "snd (local_provider D base cc False) = Inr l"
  note o = this
  show "local_location base cc \<noteq> None" using o by (rule local.reached)
  show "distinct (listing_names l)" "set (listing_names l) = field_name ` set (row_schema cc)"
    using o assms by (rule local.columns_once)+
next
  assume "object_provider D P s cc False = Inr l"
  note o = this
  show "object_location_of P s cc \<noteq> None" using object.reached [OF o] by simp
  show "distinct (listing_names l)" "set (listing_names l) = field_name ` set (row_schema cc)"
    using o assms by (rule object.columns_once)+
next
  assume "ice_provider scan err cc False w = Some (w', Inr sel)"
  then have o: "ice_opens scan err w cc False sel" by (auto simp: ice_opens_def)
  show "ice_location cc \<noteq> None" using o by (rule iceberg.reached)
  show "distinct (map fst sel)" "set (map fst sel) = field_name ` set (row_schema cc)"
    using o assms by (rule iceberg.columns_once)+
qed

end
