(* ===== verification/Reading_Example.thy ===== *)
theory Reading_Example
  imports Resolvers Lake_Example
begin

text \<open>Small files, and a contract partitioned by one column, at which the properties of reading are applied.\<close>

section \<open>A file of four bytes\<close>

definition ex_reader :: "nat \<Rightarrow> string res" where
  "ex_reader i = Inr (take 3 (drop i ''abcd''))"

definition ex_ranged :: "string \<Rightarrow> ranged" where
  "ex_ranged b s e = Inr (take (e - s) (drop s b))"

lemma ex_ranged_holds: "holds_bytes (ex_ranged b) b"
  by (simp add: holds_bytes_def ex_ranged_def)

theorem hashes_are_of_the_bytes_witness:
  "file_sha256 rev (Inr ex_reader) = Some (Inr ''dcba'')
   \<and> object_sha256 rev (Inr [Inr ''a'', Inr ''bcd'']) = Inr ''dcba''
   \<and> ice_sha256 rev 2 (Inr (ex_ranged ''abcd'')) = Inr ''ba''"
proof -
  have "\<exists>c. ex_reader i = Inr c \<and> c \<noteq> [] \<and> c = take (length c) (drop i ''abcd'')" if "i < length ''abcd''" for i
    using that by (auto simp: ex_reader_def eval_nat_numeral less_Suc_eq)
  moreover have "ex_reader (length ''abcd'') = Inr []" by (simp add: ex_reader_def)
  ultimately have "file_sha256 rev (Inr ex_reader) = Some (Inr (rev ''abcd''))
   \<and> object_sha256 rev (Inr (map Inr [''a'', ''bcd''])) = Inr (rev ''abcd'')
   \<and> ice_sha256 rev 2 (Inr (ex_ranged ''abcd'')) = Inr (rev (take 2 ''abcd''))"
    by (rule hashes_are_of_the_bytes) (simp_all add: ex_ranged_holds)
  then show ?thesis by simp
qed

section \<open>A footer\<close>

definition ex_footer :: footer where
  "ex_footer = \<lparr>ft_rows = 2, ft_key_values = None, ft_columns = [], ft_row_groups = []\<rparr>"

definition ex_parquet :: parquet_api where
  "ex_parquet = \<lparr>pq_tail = (\<lambda>t. if t = ''4000PAR1'' then Inr 4 else Inl ''no magic''),
     pq_decode = (\<lambda>m. if m = ''meta'' then Inr ex_footer else Inl ''not a footer'')\<rparr>"

theorem footers_are_the_files_witness:
  "object_footer ex_parquet ''f'' 16 (ex_ranged ''rowsmeta4000PAR1'') = Inr ex_footer
   \<and> ice_footer ex_parquet ''f'' 16 (Inr (ex_ranged ''rowsmeta4000PAR1'')) = Inr ex_footer"
proof -
  let ?b = "''rowsmeta4000PAR1''"
  have *: "\<exists>pre meta tail. ?b = pre @ meta @ tail \<and> length tail = FOOTER_SIZE \<and> pq_tail ex_parquet tail = Inr (length meta)
      \<and> pq_decode ex_parquet meta = Inr ex_footer"
    by (rule exI [of _ "''rows''"], rule exI [of _ "''meta''"], rule exI [of _ "''4000PAR1''"])
      (simp add: FOOTER_SIZE_def ex_parquet_def)
  from footers_are_the_files [OF ex_ranged_holds [of ?b], of ex_parquet "''f''" ex_footer "ex_ranged ?b"]
  have "object_footer ex_parquet ''f'' (length ?b) (ex_ranged ?b) = Inr ex_footer"
    and "ice_footer ex_parquet ''f'' (length ?b) (Inr (ex_ranged ?b)) = object_footer ex_parquet ''f'' (length ?b) (ex_ranged ?b)"
    using * by blast+
  moreover have "length ?b = 16" by simp
  ultimately show ?thesis by metis
qed

section \<open>A contract over days\<close>

definition ex_daily :: compiled_contract where
  "ex_daily = ex_contract\<lparr>row_schema := [\<lparr>field_name = ''x'', field_type = TInt64, nullable = True\<rparr>,
     \<lparr>field_name = ''day'', field_type = TUtf8, nullable = False\<rparr>], partitioned_by := [''day'']\<rparr>"

definition ex_three_columns :: schema where
  "ex_three_columns = [\<lparr>field_name = ''day'', field_type = TUtf8, nullable = True\<rparr>,
     \<lparr>field_name = ''x'', field_type = TFloat64, nullable = True\<rparr>, \<lparr>field_name = ''y'', field_type = TInt64, nullable = True\<rparr>]"

definition ex_listing :: listing_api where
  "ex_listing = \<lparr>li_canonicalize = Inr, li_is_file = (\<lambda>p. False), li_mkdir_error = (\<lambda>p. None), li_url_error = (\<lambda>u. None),
     li_table_error = (\<lambda>c. None)\<rparr>"

theorem opened_with_the_contracts_columns_witness:
  "ice_snapshot_provider (\<lambda>t s. Inr ex_three_columns) (\<lambda>sel. None) ''t'' ex_table ex_daily False 7
     = Inr [(''x'', Cast (Column ''x'') TInt64), (''day'', Column ''day'')]
   \<and> isl (ice_snapshot_provider (\<lambda>t s. Inr (tl ex_three_columns)) (\<lambda>sel. None) ''t'' ex_table ex_daily False 7)
   \<and> lc_partitions (projr (listing_table_at ex_listing ex_daily ''/d/'' False False)) = [(''day'', TUtf8)]
   \<and> mset (map (\<lambda>f. (field_name f, field_type f)) (lc_schema (projr (listing_table_at ex_listing ex_daily ''/d/'' False False)))
        @ [(''day'', TUtf8)]) = {#(''x'', TInt64), (''day'', TUtf8)#}"
proof -
  let ?l = "\<lparr>lc_url = ''/d/'', lc_schema = [\<lparr>field_name = ''x'', field_type = TInt64, nullable = True\<rparr>],
     lc_partitions = [(''day'', TUtf8)]\<rparr>"
  have sel: "ice_snapshot_provider (\<lambda>t s. Inr ex_three_columns) (\<lambda>sel. None) ''t'' ex_table ex_daily False 7
     = Inr [(''x'', Cast (Column ''x'') TInt64), (''day'', Column ''day'')]"
    by (simp add: ice_snapshot_provider_def of_ice_def ex_daily_def ex_three_columns_def ice_column_def field_with_name_def)
  have l: "listing_table_at ex_listing ex_daily ''/d/'' False False = Inr ?l"
    by (simp add: listing_table_at_def ex_listing_def ex_daily_def partition_column_def field_with_name_def new_listing_def
        file_schema_def)
  have wf: "distinct (map field_name (row_schema ex_daily))" "distinct (partitioned_by ex_daily)" by (simp_all add: ex_daily_def)
  have scan: "(\<lambda>t s. Inr (tl ex_three_columns)) ex_table (7 :: int) = Inr (tl ex_three_columns)" by simp
  note all = opened_with_the_contracts_columns [where scan = "\<lambda>t s. Inr (tl ex_three_columns)" and t = ex_table and s = 7, OF scan wf,
      where err = "\<lambda>sel. None" and k = "''t''" and stored = False and D = ex_listing and url = "''/d/''" and l = ?l]
  have "\<exists>f \<in> set (if False then table_schema ex_daily else row_schema ex_daily). field_with_name (tl ex_three_columns) (field_name f) = None"
    by (simp add: ex_daily_def ex_three_columns_def field_with_name_def)
  with all have "isl (ice_snapshot_provider (\<lambda>t s. Inr (tl ex_three_columns)) (\<lambda>sel. None) ''t'' ex_table ex_daily False 7)" by blast
  moreover have "mset (map (\<lambda>f. (field_name f, field_type f)) (lc_schema ?l) @ lc_partitions ?l)
      = mset (map (\<lambda>f. (field_name f, field_type f)) (row_schema ex_daily))" using all l by blast
  ultimately show ?thesis using sel l by (simp add: ex_daily_def)
qed

theorem resolvers_open_raw_columns_witness:
  "snd (local_provider ex_listing ''/b'' ex_daily False)
     = Inr \<lparr>lc_url = ''/b/orders/'', lc_schema = [\<lparr>field_name = ''x'', field_type = TInt64, nullable = True\<rparr>],
         lc_partitions = [(''day'', TUtf8)]\<rparr>
   \<and> local_location ''/b'' ex_daily \<noteq> None \<and> {''x'', ''day''} = field_name ` set (row_schema ex_daily)"
proof -
  let ?l = "\<lparr>lc_url = ''/b/orders/'', lc_schema = [\<lparr>field_name = ''x'', field_type = TInt64, nullable = True\<rparr>],
     lc_partitions = [(''day'', TUtf8)]\<rparr>"
  have l: "snd (local_provider ex_listing ''/b'' ex_daily False) = Inr ?l"
  proof -
    have "local_root ''/b'' ex_daily = Some ''/b/orders''"
      by (simp add: local_root_def ex_daily_def ex_contract_def is_absolute_def path_join_def Let_def
          trim_file.simps [of "''orders''"])
    then show ?thesis
      by (simp add: local_provider_def listing_table_def local_url_def listing_table_at_def ex_listing_def
          ex_daily_def partition_column_def field_with_name_def new_listing_def file_schema_def)
  qed
  have wf: "distinct (map field_name (row_schema ex_daily))" "distinct (partitioned_by ex_daily)" by (simp_all add: ex_daily_def)
  from resolvers_open_raw_columns [OF wf, of ex_listing "''/b''" ?l] l
  have "local_location ''/b'' ex_daily \<noteq> None \<and> set (listing_names ?l) = field_name ` set (row_schema ex_daily)" by blast
  moreover have "set (listing_names ?l) = {''x'', ''day''}" by (simp add: listing_names_def)
  ultimately show ?thesis using l by simp
qed

end
