(* ===== verification/Serving.thy ===== *)
theory Serving
  imports Dataset_Facts Query_Safety
begin

text \<open>
  How an engine is made to serve (the builders, \<open>bind_table\<close> and \<open>bind_batches\<close> of \<open>src/engine.rs\<close>): what the
  builders set, and tables bound in place of a contract's files.
\<close>

section \<open>Which snapshots are read\<close>

text \<open>\<open>AsOf\<close>: the snapshot each contract a read names is read at.\<close>

definition as_of_current :: "(string, int) btmap" where
  "as_of_current = []"

definition as_of_with :: "string \<Rightarrow> int \<Rightarrow> (string, int) btmap \<Rightarrow> (string, int) btmap" where
  "as_of_with c s as_of = bt_insert c s as_of"

definition as_of_get :: "(string, int) btmap \<Rightarrow> string \<Rightarrow> int option" where
  "as_of_get as_of c = map_of as_of c"

text \<open>
  Naming a contract decides the snapshot it is resolved at, whatever was named before, and no other contract's.
\<close>

theorem named_snapshot_is_asked:
  "as_of_get (as_of_with c s as_of) d = (if d = c then Some s else as_of_get as_of d)
   \<and> resolve_ref H g who (as_of_with c s as_of) v d w
     = (if d = c then resolve_ref H g who (as_of_with c s as_of_current) v c w else resolve_ref H g who as_of v d w)"
  by (simp add: as_of_get_def as_of_with_def as_of_current_def resolve_ref_def)

section \<open>Builders\<close>

definition with_as_of :: "('v, 'w, 'j, 'l) host \<Rightarrow> (string, int) btmap \<Rightarrow> ('v, 'w, 'j, 'l) host" where
  "with_as_of H as_of = H\<lparr>h_frozen := as_of\<rparr>"

definition as_of_of :: "('v, 'w, 'j, 'l) host \<Rightarrow> (string, int) btmap" where
  "as_of_of H = h_frozen H"

text \<open>A resolver is the location and the provider of every contract.\<close>

definition with_bindings ::
  "('v, 'w, 'j, 'l) host \<Rightarrow> (compiled_contract \<Rightarrow> location option)
     \<Rightarrow> (bound \<Rightarrow> compiled_contract \<Rightarrow> bool \<Rightarrow> int option \<Rightarrow> unit res) \<Rightarrow> ('v, 'w, 'j, 'l) host" where
  "with_bindings H loc prov = H\<lparr>h_location := loc, h_provider := prov\<rparr>"

definition with_budgets :: "('j, 'l) world \<Rightarrow> budget_store \<Rightarrow> ('j, 'l) world" where
  "with_budgets w b = w\<lparr>w_budgets := b\<rparr>"

definition with_signer :: "('v, 'w, 'j, 'l) host \<Rightarrow> (envelope \<Rightarrow> string + string) \<Rightarrow> ('v, 'w, 'j, 'l) host" where
  "with_signer H sg = H\<lparr>h_signer := Some sg\<rparr>"

definition with_cache :: "('j, 'l) world \<Rightarrow> 'l cache \<Rightarrow> ('j, 'l) world" where
  "with_cache w c = w\<lparr>w_cache := Some c\<rparr>"

definition set_use_stored :: "('v, 'w, 'j, 'l) host \<Rightarrow> bool \<Rightarrow> ('v, 'w, 'j, 'l) host" where
  "set_use_stored H on = H\<lparr>h_use_stored := on\<rparr>"

section \<open>Tables in place of files\<close>

text \<open>The engine afterwards, and the verdict. The table is bound before it is validated.\<close>

definition bind_table ::
  "('v, 'w, 'j, 'l) host \<Rightarrow> contents \<Rightarrow> string \<Rightarrow> string \<Rightarrow> ('j, 'l) world
     \<Rightarrow> ('v, 'w, 'j, 'l) host \<times> (('j, 'l) world \<times> 'j data_verdict res) option" where
  "bind_table H g name t w =
     (case get_contract g name of
        Inl e \<Rightarrow> (H, Some (w, Inl e))
      | Inr _ \<Rightarrow> (let H' = H\<lparr>h_tables := (h_tables H)(name \<mapsto> t)\<rparr> in (H', engine_validate H' g name w)))"

text \<open>\<open>conform\<close> and \<open>mem_table\<close> are Arrow's and DataFusion's: a batch as the schema has it, a table of batches.\<close>

definition bind_batches ::
  "('v, 'w, 'j, 'l) host \<Rightarrow> (schema \<Rightarrow> batch \<Rightarrow> batch res) \<Rightarrow> (schema \<Rightarrow> batch list \<Rightarrow> df_error + string) \<Rightarrow> contents \<Rightarrow> string
     \<Rightarrow> batch list \<Rightarrow> ('j, 'l) world \<Rightarrow> ('v, 'w, 'j, 'l) host \<times> (('j, 'l) world \<times> 'j data_verdict res) option" where
  "bind_batches H conform mem_table g name bs w =
     (case and_then (get_contract g name) (\<lambda>reg.
         let s = row_schema (contract (r_compilation reg)) in
         and_then (map_res (conform s) bs) (\<lambda>bs. df (mem_table s bs))) of
        Inl e \<Rightarrow> (H, Some (w, Inl e))
      | Inr t \<Rightarrow> bind_table H g name t w)"

section \<open>Properties\<close>

lemma bound_now: "host_bound (H\<lparr>h_tables := (h_tables H)(reg_name reg \<mapsto> t)\<rparr>) reg = Inr (BoundTable t)"
  by (simp add: host_bound_def bound_to_def)

lemma bound_else: "reg_name reg \<noteq> name \<Longrightarrow> host_bound (H\<lparr>h_tables := (h_tables H)(name \<mapsto> t)\<rparr>) reg = host_bound H reg"
  by (simp add: host_bound_def bound_to_def)

lemma validate_table_world:
  assumes "engine_validate H g name w = Some (w', r)" and "get_contract g name = Inr reg"
    and "host_bound H reg = Inr (BoundTable t)"
  shows "(\<exists>m. w' = w\<lparr>table_manifests := (table_manifests w)(name \<mapsto> m)\<rparr> \<and> \<not> isl r) \<or> w' = w \<and> isl r"
proof (cases r)
  case (Inl e)
  with assms show ?thesis
    by (auto simp: engine_validate_def whole_def validate_in_def Let_def then_do_Inl then_do_Inr step_sides step_runs
        split: sum.splits)
next
  case (Inr v)
  with assms obtain es w1 where
      who: "whole H g name (h_validation_plan H (r_compilation reg)) None w = Some (w1, Inr (v, es))"
      and w': "w' = w1\<lparr>table_manifests := (table_manifests w1)
        (name \<mapsto> validated_manifest (contract (r_compilation reg)) v [] (h_now H) (h_now H) None)\<rparr>"
    by (auto simp: engine_validate_def Let_def then_do_Inr step_sides step_runs)
  from whole_Inr [OF who assms(2,3)] w' Inr show ?thesis by auto
qed

text \<open>
  Binding a table to a contract makes its data known: the contract is then read from the table, under the
  verdict it was just given, and what every other contract is read from and known by is as it was.
\<close>

theorem bound_tables_are_known:
  assumes "bind_table H g name t w = (H', Some (w', Inr v))" and "get_contract g name = Inr reg" and "reg_name reg = name"
    and "get_contract g other = Inr reg'" and "reg_name reg' = other" and "other \<noteq> name"
  shows "host_bound H' reg = Inr (BoundTable t)
   \<and> (\<exists>m. engine_manifest H' g name w' = Inr (Some m) \<and> m_row_count m = v_row_count (dv_verdict v)
        \<and> m_failures m = v_failures (dv_verdict v) \<and> m_data_hash m = dv_data_hash v)
   \<and> host_bound H' reg' = host_bound H reg' \<and> engine_manifest H' g other w' = engine_manifest H g other w"
proof -
  let ?H = "H\<lparr>h_tables := (h_tables H)(name \<mapsto> t)\<rparr>"
  from assms(1,2) have H': "H' = ?H" and val: "engine_validate ?H g name w = Some (w', Inr v)"
    by (auto simp: bind_table_def Let_def)
  have b: "host_bound ?H reg = Inr (BoundTable t)" using bound_now [of H reg t] assms(3) by simp
  from val assms(2) b obtain es w1 where
      who: "whole ?H g name (h_validation_plan ?H (r_compilation reg)) None w = Some (w1, Inr (v, es))"
      and w': "w' = w1\<lparr>table_manifests := (table_manifests w1)
        (name \<mapsto> validated_manifest (contract (r_compilation reg)) v [] (h_now ?H) (h_now ?H) None)\<rparr>"
    by (auto simp: engine_validate_def Let_def then_do_Inr step_sides step_runs)
  have w1: "w1 = w" using whole_Inr [OF who assms(2) b] by simp
  have b': "host_bound ?H reg' = host_bound H reg'" using bound_else assms(5,6) by blast
  have "engine_manifest ?H g name w' = Inr (Some (validated_manifest (contract (r_compilation reg)) v [] (h_now ?H) (h_now ?H) None))"
    by (simp add: engine_manifest_def assms(2) b w')
  moreover have "engine_manifest ?H g other w' = engine_manifest H g other w"
    by (cases "host_bound H reg'") (simp_all add: engine_manifest_def assms(4) b' w' w1 assms(6) split: bound.split location.split)
  ultimately show ?thesis using H' b b' by (simp add: validated_manifest_def)
qed

text \<open>
  A table that cannot be validated is served all the same: when \<open>bind_table\<close> fails on a contract that
  exists, the contract is from then on read from the new table, under whatever was known of the one before.
\<close>

theorem failed_binding_is_served:
  assumes "bind_table H g name t w = (H', Some (w', Inl e))" and "get_contract g name = Inr reg" and "reg_name reg = name"
  shows "host_bound H' reg = Inr (BoundTable t) \<and> w' = w
   \<and> engine_manifest H' g name w' = Inr (table_manifests w name)
   \<and> engine_resolve H' g name who v w'
      = Some (w', resolve_with (h_runtime H) g (host_bound H') (h_use_stored H) name who v (Inr (table_manifests w name)))"
proof -
  let ?H = "H\<lparr>h_tables := (h_tables H)(name \<mapsto> t)\<rparr>"
  from assms(1,2) have H': "H' = ?H" and val: "engine_validate ?H g name w = Some (w', Inl e)"
    by (auto simp: bind_table_def Let_def)
  have b: "host_bound ?H reg = Inr (BoundTable t)" using bound_now [of H reg t] assms(3) by simp
  have w': "w' = w" using validate_table_world [OF val assms(2) b] by auto
  have m: "engine_manifest ?H g name w = Inr (table_manifests w name)" by (simp add: engine_manifest_def assms(2) b)
  have "engine_resolve ?H g name who v w
      = Some (w, resolve_with (h_runtime H) g (host_bound ?H) (h_use_stored H) name who v (Inr (table_manifests w name)))"
    using m by (simp add: engine_resolve_def look_res_def)
  with H' w' b m show ?thesis by simp
qed

end
