(* ===== verification/Serving_Example.thy ===== *)
theory Serving_Example
  imports Serving Query_Example
begin

text \<open>
  The engine of the concrete queries bound to another table: once validated, once not. Its contract is beside
  another, \<open>t/other\<close>.
\<close>

definition ex_other :: registered where
  "ex_other = ex_registered\<lparr>r_compilation := ex_compilation\<lparr>contract := ex_contract\<lparr>cc_name := ''t/other''\<rparr>\<rparr>\<rparr>"

definition ex_both :: contents where
  "ex_both = mem_put ex_other ex_contents"

lemma ex_both_get: "get_contract ex_both ''t/orders'' = Inr ex_registered" "get_contract ex_both ''t/other'' = Inr ex_other"
  "reg_name ex_other = ''t/other''" "reg_name ex_registered = ''t/orders''"
  by (simp_all add: get_contract_def ex_both_def ex_contents_def mem_current_def mem_put_def newest_def empty_contents_def bt_update_def
      bt_get_or_def reg_name_def ex_contract_simps ex_other_def ex_registered_def ok_or_def)

theorem bound_tables_are_known_witness:
  "\<exists>H' w' v m. bind_table ex_host ex_both ''t/orders'' ''orders2'' ex_world = (H', Some (w', Inr v))
     \<and> host_bound H' ex_registered = Inr (BoundTable ''orders2'')
     \<and> engine_manifest H' ex_both ''t/orders'' w' = Inr (Some m) \<and> m_row_count m = v_row_count (dv_verdict v)"
proof -
  let ?H = "ex_host\<lparr>h_tables := (h_tables ex_host)(''t/orders'' \<mapsto> ''orders2'')\<rparr>"
  have "host_bound ?H ex_registered = Inr (BoundTable ''orders2'')"
    using bound_now [of ex_host ex_registered "''orders2''"] ex_both_get(4) by simp
  then obtain w' v where run: "bind_table ex_host ex_both ''t/orders'' ''orders2'' ex_world = (?H, Some (w', Inr v))"
    by (simp add: bind_table_def Let_def engine_validate_def ex_both_get then_do_def lift_def whole_def validate_in_def ex_host_simps
        look_res_def change_def give_def rt_simps df_simps)
  from bound_tables_are_known [OF run ex_both_get(1,4,2,3)] run show ?thesis by auto
qed

text \<open>A table no plan runs over.\<close>

definition ex_refusing :: "(unit, unit, ex_json, ex_cache) host" where
  "ex_refusing = ex_host\<lparr>h_validate := (\<lambda>c p b s w. Inl (RtDataFusion (DfOther ''no such column'')))\<rparr>"

theorem failed_binding_is_served_witness:
  "\<exists>H' e. bind_table ex_refusing ex_both ''t/orders'' ''orders2'' ex_world = (H', Some (ex_world, Inl e))
     \<and> host_bound H' ex_registered = Inr (BoundTable ''orders2'')
     \<and> engine_manifest H' ex_both ''t/orders'' ex_world = Inr (Some ex_servable)"
proof -
  let ?H = "ex_refusing\<lparr>h_tables := (h_tables ex_refusing)(''t/orders'' \<mapsto> ''orders2'')\<rparr>"
  have "host_bound ?H ex_registered = Inr (BoundTable ''orders2'')"
    using bound_now [of ex_refusing ex_registered "''orders2''"] ex_both_get(4) by simp
  then obtain e where run: "bind_table ex_refusing ex_both ''t/orders'' ''orders2'' ex_world = (?H, Some (ex_world, Inl e))"
    by (auto simp: bind_table_def Let_def engine_validate_def ex_both_get then_do_def lift_def whole_def validate_in_def
        look_res_def ex_refusing_def ex_host_simps rt_def)
  from failed_binding_is_served [OF run ex_both_get(1,4)] run show ?thesis by (auto simp: ex_world_def)
qed

end
