(* ===== verification/Lance.thy ===== *)
theory Lance
  imports Gate
begin

text \<open>
  Lance datasets as contract data (\<open>src/lance_table.rs\<close>): which filters are handed to Lance and as what text,
  what a scan asks for, and the stream it yields, each batch crossing from Lance's Arrow to the engine's by
  Arrow IPC. Lance, the IPC writer and reader and the unparser of expressions are parameters.
\<close>

section \<open>The table\<close>

datatype lance_error = LanceError string | Bridge string

record 'd lance_api =
  la_open :: "string \<Rightarrow> string + 'd"
  la_schema :: "'d \<Rightarrow> schema"
  la_write_schema :: "schema \<Rightarrow> string + string"
  la_read_schema :: "string \<Rightarrow> string + schema"
  la_write :: "batch \<Rightarrow> string + string"
  la_read :: "string \<Rightarrow> string + (string + batch) list"
  la_unparse :: "expr \<Rightarrow> string option"
  la_project_error :: "'d \<Rightarrow> string list \<Rightarrow> string option"
  la_filter_error :: "'d \<Rightarrow> string \<Rightarrow> string option"
  la_limit_error :: "'d \<Rightarrow> int \<Rightarrow> string option"
  la_stream :: "'d \<Rightarrow> string list \<Rightarrow> string option \<Rightarrow> int option \<Rightarrow> string + (string + batch) list"

definition bridge :: "string + 'a \<Rightarrow> lance_error + 'a" where
  "bridge r = (case r of Inl e \<Rightarrow> Inl (Bridge e) | Inr x \<Rightarrow> Inr x)"

definition to_peql :: "'d lance_api \<Rightarrow> batch \<Rightarrow> lance_error + batch" where
  "to_peql A b =
     and_then (bridge (la_write A b)) (\<lambda>buf.
     and_then (bridge (la_read A buf)) (\<lambda>bs.
       case bs of [] \<Rightarrow> Inl (Bridge ''empty IPC stream'') | b # _ \<Rightarrow> bridge b))"

definition schema_to_peql :: "'d lance_api \<Rightarrow> schema \<Rightarrow> lance_error + schema" where
  "schema_to_peql A s = and_then (bridge (la_write_schema A s)) (\<lambda>buf. bridge (la_read_schema A buf))"

record 'd lance_table =
  lt_dataset :: 'd
  lt_schema :: schema

definition from_dataset :: "'d lance_api \<Rightarrow> 'd \<Rightarrow> lance_error + 'd lance_table" where
  "from_dataset A d = and_then (schema_to_peql A (la_schema A d)) (\<lambda>s. Inr \<lparr>lt_dataset = d, lt_schema = s\<rparr>)"

definition open_uri :: "'d lance_api \<Rightarrow> string \<Rightarrow> lance_error + 'd lance_table" where
  "open_uri A uri = (case la_open A uri of Inl e \<Rightarrow> Inl (LanceError e) | Inr d \<Rightarrow> from_dataset A d)"

text \<open>A filter as SQL Lance can evaluate, when it cannot fail and so means the same in both engines.\<close>

definition filter_sql :: "'d lance_api \<Rightarrow> expr \<Rightarrow> string option" where
  "filter_sql A e = (if \<not> cannot_fail e then None else la_unparse A e)"

datatype push_down = Inexact | Unsupported

definition supports_filters_pushdown :: "'d lance_api \<Rightarrow> expr list \<Rightarrow> push_down list" where
  "supports_filters_pushdown A = map (\<lambda>f. if filter_sql A f \<noteq> None then Inexact else Unsupported)"

section \<open>A scan\<close>

record 'd lance_scan =
  ls_dataset :: 'd
  ls_schema :: schema
  ls_columns :: "string list"
  ls_filter :: "string option"
  ls_limit :: "nat option"

definition project_schema :: "schema \<Rightarrow> nat list \<Rightarrow> df_error + schema" where
  "project_schema s p =
     (if list_all (\<lambda>i. i < length s) p then Inr (map (\<lambda>i. s ! i) p)
      else Inl (DfOther ''project index out of bounds''))"

definition pushed_filter :: "'d lance_api \<Rightarrow> expr list \<Rightarrow> string option" where
  "pushed_filter A fs =
     (let text = join '' AND '' (map (\<lambda>f. ''('' @ f @ '')'') (List.map_filter (filter_sql A) fs))
      in if text = [] then None else Some text)"

definition lance_scan_of ::
  "'d lance_api \<Rightarrow> 'd lance_table \<Rightarrow> nat list option \<Rightarrow> expr list \<Rightarrow> nat option \<Rightarrow> df_error + 'd lance_scan" where
  "lance_scan_of A t proj filters limit =
     and_then (case proj of Some p \<Rightarrow> project_schema (lt_schema t) p | None \<Rightarrow> Inr (lt_schema t)) (\<lambda>s.
       Inr \<lparr>ls_dataset = lt_dataset t, ls_schema = s, ls_columns = map field_name s,
            ls_filter = pushed_filter A filters, ls_limit = limit\<rparr>)"

text \<open>\<open>n as i64\<close>.\<close>

definition limit_i64 :: "nat \<Rightarrow> int" where
  "limit_i64 n = (let m = int n mod 2 ^ 64 in if m < 2 ^ 63 then m else m - 2 ^ 64)"

definition external :: "string \<Rightarrow> df_error" where
  "external e = DfOther e"

fun lance_text :: "lance_error \<Rightarrow> string" where
  "lance_text (LanceError e) = ''lance: '' @ e"
| "lance_text (Bridge e) = ''arrow bridge: '' @ e"

definition none_or :: "string option \<Rightarrow> df_error + unit" where
  "none_or e = (case e of Some e \<Rightarrow> Inl (external e) | None \<Rightarrow> Inr ())"

definition lance_opened :: "'d lance_api \<Rightarrow> 'd lance_scan \<Rightarrow> df_error + (string + batch) list" where
  "lance_opened A s =
     and_then (none_or (la_project_error A (ls_dataset s) (ls_columns s))) (\<lambda>_.
     and_then (none_or (Option.bind (ls_filter s) (la_filter_error A (ls_dataset s)))) (\<lambda>_.
     and_then (none_or (Option.bind (ls_limit s) (\<lambda>n. la_limit_error A (ls_dataset s) (limit_i64 n)))) (\<lambda>_.
       case la_stream A (ls_dataset s) (ls_columns s) (ls_filter s) (map_option limit_i64 (ls_limit s)) of
         Inl e \<Rightarrow> Inl (external e) | Inr bs \<Rightarrow> Inr bs)))"

definition lance_item :: "'d lance_api \<Rightarrow> string + batch \<Rightarrow> df_error + batch" where
  "lance_item A b =
     (case b of
        Inl e \<Rightarrow> Inl (external e)
      | Inr b \<Rightarrow> (case to_peql A b of Inl e \<Rightarrow> Inl (external (lance_text e)) | Inr b \<Rightarrow> Inr b))"

definition lance_execute :: "'d lance_api \<Rightarrow> 'd lance_scan \<Rightarrow> stream" where
  "lance_execute A s = (case lance_opened A s of Inl e \<Rightarrow> [Inl e] | Inr bs \<Rightarrow> map (lance_item A) bs)"

section \<open>Properties\<close>

text \<open>
  What Lance, its SQL and Arrow IPC are documented to do. The rows of a dataset are \<open>R\<close>, those of a batch
  \<open>rows b\<close>; the text of a filter holds of a row, \<open>means t x\<close>, exactly when the filter is true of it, a text in
  brackets as without them, and texts joined by \<open>AND\<close> when all are. A scan of every column yields the rows of
  the dataset its filter's text holds of, up to its limit; and a batch written as a stream is read back.
\<close>

definition lance_laws ::
  "'d lance_api \<Rightarrow> 'r df_engine \<Rightarrow> (string \<Rightarrow> 'r \<Rightarrow> bool) \<Rightarrow> (batch \<Rightarrow> 'r list) \<Rightarrow> ('d \<Rightarrow> 'r list) \<Rightarrow> bool" where
  "lance_laws A E means rows R \<longleftrightarrow>
     (\<forall>e t x. cannot_fail e \<and> la_unparse A e = Some t \<longrightarrow> (means t x \<longleftrightarrow> ev E e [] x = Inr (Some True)))
   \<and> (\<forall>ts x. ts \<noteq> [] \<longrightarrow> (means (join '' AND '' (map (\<lambda>t. ''('' @ t @ '')'') ts)) x \<longleftrightarrow> (\<forall>t \<in> set ts. means t x)))
   \<and> (\<forall>d cols flt lim bs. cols = map field_name (la_schema A d) \<and> la_stream A d cols flt lim = Inr bs \<and> (\<forall>b \<in> set bs. \<not> isl b) \<longrightarrow>
        concat (map (rows \<circ> projr) bs)
          = (case lim of None \<Rightarrow> id | Some l \<Rightarrow> take (nat l)) (filter (\<lambda>x. \<forall>t. flt = Some t \<longrightarrow> means t x) (R d)))
   \<and> (\<forall>s buf. la_write_schema A s = Inr buf \<longrightarrow> la_read_schema A buf = Inr s)
   \<and> (\<forall>b buf. la_write A b = Inr buf \<longrightarrow> la_read A buf = Inr [Inr b])"

lemma lance_items:
  assumes "lance_laws A E means rows R" and "\<forall>i \<in> set (map (lance_item A) bs). \<not> isl i"
  shows "(\<forall>b \<in> set bs. \<not> isl b) \<and> map (lance_item A) bs = map (Inr \<circ> projr) bs"
proof -
  have rt: "to_peql A b = Inr b' \<Longrightarrow> b' = b" for b b'
    using assms(1) unfolding lance_laws_def to_peql_def by (auto simp: and_then_eq_Inr bridge_def split: sum.splits)
  have "\<not> isl b \<and> lance_item A b = Inr (projr b)" if "b \<in> set bs" for b
    using assms(2) that rt by (cases b) (auto simp: lance_item_def split: sum.splits)
  then show ?thesis by simp
qed

lemma pushed_means:
  assumes "lance_laws A E means rows R"
  shows "(\<forall>t. pushed_filter A fs = Some t \<longrightarrow> means t x)
     \<longleftrightarrow> (\<forall>f \<in> set fs. filter_sql A f \<noteq> None \<longrightarrow> ev E f [] x = Inr (Some True))"
proof -
  let ?ts = "List.map_filter (filter_sql A) fs"
  have sql: "means t x \<longleftrightarrow> ev E f [] x = Inr (Some True)" if "filter_sql A f = Some t" for f t
    using assms that unfolding lance_laws_def filter_sql_def by (metis option.distinct(1))
  have ts: "(\<forall>t \<in> set ?ts. means t x) \<longleftrightarrow> (\<forall>f \<in> set fs. filter_sql A f \<noteq> None \<longrightarrow> ev E f [] x = Inr (Some True))"
    using sql by (fastforce simp: map_filter_def)
  show ?thesis
  proof (cases "?ts = []")
    case True
    then show ?thesis using ts by (simp add: pushed_filter_def)
  next
    case False
    then have "join '' AND '' (map (\<lambda>f. ''('' @ f @ '')'') ?ts) \<noteq> []" by (cases ?ts; cases "tl ?ts") auto
    moreover have "means (join '' AND '' (map (\<lambda>t. ''('' @ t @ '')'') ?ts)) x \<longleftrightarrow> (\<forall>t \<in> set ?ts. means t x)"
      using assms False unfolding lance_laws_def by blast
    ultimately show ?thesis using ts by (simp add: pushed_filter_def Let_def)
  qed
qed

lemma lance_rows:
  assumes laws: "lance_laws A E means rows R" and "from_dataset A d = Inr t" and "lance_scan_of A t None fs lim = Inr s"
    and "\<forall>i \<in> set (lance_execute A s). \<not> isl i"
  shows "concat (map (rows \<circ> projr) (lance_execute A s))
     = (case lim of None \<Rightarrow> id | Some l \<Rightarrow> take (nat (limit_i64 l)))
         (filter (\<lambda>x. \<forall>f \<in> set fs. filter_sql A f \<noteq> None \<longrightarrow> ev E f [] x = Inr (Some True)) (R d))"
proof -
  have t: "t = \<lparr>lt_dataset = d, lt_schema = la_schema A d\<rparr>"
    using assms(2) laws unfolding from_dataset_def schema_to_peql_def lance_laws_def
    by (auto simp: and_then_eq_Inr bridge_def split: sum.splits)
  with assms(3) have s: "s = \<lparr>ls_dataset = d, ls_schema = la_schema A d, ls_columns = map field_name (la_schema A d),
      ls_filter = pushed_filter A fs, ls_limit = lim\<rparr>" by (simp add: lance_scan_of_def)
  from assms(4) obtain bs where op: "lance_opened A s = Inr bs" by (cases "lance_opened A s") (auto simp: lance_execute_def)
  then have st: "la_stream A d (map field_name (la_schema A d)) (pushed_filter A fs) (map_option limit_i64 lim) = Inr bs"
    by (auto simp: lance_opened_def and_then_eq_Inr s split: sum.splits)
  have ex: "lance_execute A s = map (lance_item A) bs" by (simp add: lance_execute_def op)
  note items = lance_items [OF laws assms(4) [unfolded ex]]
  have "concat (map (rows \<circ> projr) (lance_execute A s)) = concat (map (rows \<circ> projr) bs)"
    by (simp only: ex items) (simp add: comp_def)
  also have "\<dots> = (case map_option limit_i64 lim of None \<Rightarrow> id | Some l \<Rightarrow> take (nat l))
      (filter (\<lambda>x. \<forall>t. pushed_filter A fs = Some t \<longrightarrow> means t x) (R d))"
    using laws st items unfolding lance_laws_def by blast
  finally show ?thesis by (cases lim) (simp_all add: pushed_means [OF laws])
qed


section \<open>A concrete dataset\<close>

text \<open>Three rows of one column, which Lance compares with ten.\<close>

definition ex_lance_schema :: schema where
  "ex_lance_schema = [\<lparr>field_name = ''x'', field_type = TInt64, nullable = False\<rparr>]"

definition ex_lance_batch :: "nat list \<Rightarrow> batch" where
  "ex_lance_batch xs = \<lparr>batch_schema = ex_lance_schema, columns = [map (\<lambda>n. CInt (int n)) xs], num_rows = length xs\<rparr>"

fun ex_cell :: "cell \<Rightarrow> nat" where
  "ex_cell (CInt i) = nat i"
| "ex_cell _ = 0"

definition ex_lance_rows :: "batch \<Rightarrow> nat list" where
  "ex_lance_rows b = map ex_cell (hd (columns b))"

definition ex_means :: "string \<Rightarrow> nat \<Rightarrow> bool" where
  "ex_means t x \<longleftrightarrow> (CHR ''x'' \<in> set t \<longrightarrow> 10 < x)"

definition ex_lance :: "unit lance_api" where
  "ex_lance = \<lparr>la_open = (\<lambda>u. Inr ()), la_schema = (\<lambda>d. ex_lance_schema),
     la_write_schema = (\<lambda>s. if s = ex_lance_schema then Inr ''s'' else Inl ''no''), la_read_schema = (\<lambda>b. Inr ex_lance_schema),
     la_write = (\<lambda>b. if b = ex_lance_batch [11, 12] then Inr ''b'' else Inl ''no''),
     la_read = (\<lambda>b. Inr [Inr (ex_lance_batch [11, 12])]), la_unparse = (\<lambda>e. if e = Column ''x'' then Some ''x > 10'' else None),
     la_project_error = (\<lambda>d c. None), la_filter_error = (\<lambda>d f. None), la_limit_error = (\<lambda>d n. None),
     la_stream = (\<lambda>d c f l. Inr [Inr (ex_lance_batch ((case l of None \<Rightarrow> id | Some n \<Rightarrow> take (nat n))
        (filter (\<lambda>x. \<forall>t. f = Some t \<longrightarrow> ex_means t x) [7, 11, 12])))])\<rparr>"

lemma set_join: "set (join sep ts) = \<Union> (set ` set ts) \<union> (if 1 < length ts then set sep else {})"
  by (induction sep ts rule: join.induct) auto

lemma ex_lance_laws: "lance_laws ex_lance ex_engine ex_means ex_lance_rows (\<lambda>d. [7, 11, 12])"
proof -
  have rows: "ex_lance_rows (ex_lance_batch xs) = xs" for xs
    by (induction xs) (simp_all add: ex_lance_rows_def ex_lance_batch_def)
  have texts: "\<forall>e t x. cannot_fail e \<and> la_unparse ex_lance e = Some t \<longrightarrow> (ex_means t x \<longleftrightarrow> ev ex_engine e [] x = Inr (Some True))"
    by (simp add: ex_lance_def ex_engine_def ex_means_def)
  have joined: "\<forall>ts x. ts \<noteq> [] \<longrightarrow>
      (ex_means (join '' AND '' (map (\<lambda>t. ''('' @ t @ '')'') ts)) x \<longleftrightarrow> (\<forall>t \<in> set ts. ex_means t x))"
    by (auto simp: ex_means_def set_join split: if_splits)
  have scan: "\<forall>d cols flt lim bs. cols = map field_name (la_schema ex_lance d) \<and> la_stream ex_lance d cols flt lim = Inr bs
      \<and> (\<forall>b \<in> set bs. \<not> isl b) \<longrightarrow> concat (map (ex_lance_rows \<circ> projr) bs)
          = (case lim of None \<Rightarrow> id | Some l \<Rightarrow> take (nat l)) (filter (\<lambda>x. \<forall>t. flt = Some t \<longrightarrow> ex_means t x) [7, 11, 12])"
  proof (intro allI impI, elim conjE)
    fix d cols flt lim bs
    assume "la_stream ex_lance d cols flt lim = Inr bs"
    then have "bs = [Inr (ex_lance_batch ((case lim of None \<Rightarrow> id | Some n \<Rightarrow> take (nat n))
        (filter (\<lambda>x. \<forall>t. flt = Some t \<longrightarrow> ex_means t x) [7, 11, 12])))]"
      unfolding ex_lance_def lance_api.simps by (rule sym [OF Inr_inject])
    then show "concat (map (ex_lance_rows \<circ> projr) bs)
          = (case lim of None \<Rightarrow> id | Some l \<Rightarrow> take (nat l)) (filter (\<lambda>x. \<forall>t. flt = Some t \<longrightarrow> ex_means t x) [7, 11, 12])"
      by (simp only: list.map concat.simps comp_apply sum.sel rows append_Nil2)
  qed
  have schemas: "\<forall>s buf. la_write_schema ex_lance s = Inr buf \<longrightarrow> la_read_schema ex_lance buf = Inr s"
    unfolding ex_lance_def lance_api.simps by (simp split: if_split)
  have batches: "\<forall>b buf. la_write ex_lance b = Inr buf \<longrightarrow> la_read ex_lance buf = Inr [Inr b]"
    unfolding ex_lance_def lance_api.simps by (simp split: if_split)
  show ?thesis unfolding lance_laws_def by (rule conjI [OF texts conjI [OF joined conjI [OF scan conjI [OF schemas batches]]]])
qed


end
