(* ===== verification/Format.thy ===== *)
theory Format
  imports Plans
begin

text \<open>
  Results on the wire (\<open>src/format.rs\<close>): Arrow IPC, Parquet, or one JSON object per row. The three writers are
  Arrow's and Parquet's; what is modelled is how they are driven.
\<close>

section \<open>Formats\<close>

datatype formatter_error = ArrowIpcError string | ParquetError string | JsonError string

fun formatter_text :: "formatter_error \<Rightarrow> string" where
  "formatter_text (ArrowIpcError e) = ''Arrow IPC serialization failed: '' @ e"
| "formatter_text (ParquetError e) = ''Parquet serialization failed: '' @ e"
| "formatter_text (JsonError e) = ''JSON serialization failed: '' @ e"

datatype result_format = FormatArrow | FormatParquet | FormatJson

definition default_format :: result_format where
  "default_format = FormatArrow"

definition from_proto_i32 :: "int \<Rightarrow> result_format" where
  "from_proto_i32 v = (if v = 1 then FormatParquet else if v = 2 then FormatJson else FormatArrow)"

text \<open>A writer of one format: begun with a schema, given batches, and finished into bytes.\<close>

record 'w file_writer =
  wr_new :: "schema \<Rightarrow> string + 'w"
  wr_batch :: "'w \<Rightarrow> batch \<Rightarrow> string + 'w"
  wr_finish :: "'w \<Rightarrow> string + string"

text \<open>The JSON writer takes all the batches at once, and no schema.\<close>

record 'w line_writer =
  lw_new :: 'w
  lw_batches :: "'w \<Rightarrow> batch list \<Rightarrow> string + 'w"
  lw_finish :: "'w \<Rightarrow> string + string"

record ('a, 'p, 'j) format_api =
  fm_arrow :: "'a file_writer"
  fm_parquet :: "'p file_writer"
  fm_json :: "'j line_writer"

fun write_each :: "'w file_writer \<Rightarrow> batch list \<Rightarrow> 'w \<Rightarrow> string + 'w" where
  "write_each W [] w = Inr w"
| "write_each W (b # bs) w = and_then (wr_batch W w b) (write_each W bs)"

definition file_bytes_of :: "'w file_writer \<Rightarrow> schema \<Rightarrow> batch list \<Rightarrow> string + string" where
  "file_bytes_of W s bs = and_then (wr_new W s) (\<lambda>w. and_then (write_each W bs w) (wr_finish W))"

definition or_format :: "(string \<Rightarrow> formatter_error) \<Rightarrow> string + 'a \<Rightarrow> formatter_error + 'a" where
  "or_format f r = (case r of Inl e \<Rightarrow> Inl (f e) | Inr x \<Rightarrow> Inr x)"

definition format_results :: "('a, 'p, 'j) format_api \<Rightarrow> batch list \<Rightarrow> result_format \<Rightarrow> formatter_error + string" where
  "format_results F bs fmt =
     (case bs of
        [] \<Rightarrow> Inr []
      | b # _ \<Rightarrow>
          (case fmt of
             FormatArrow \<Rightarrow> or_format ArrowIpcError (file_bytes_of (fm_arrow F) (batch_schema b) bs)
           | FormatParquet \<Rightarrow> or_format ParquetError (file_bytes_of (fm_parquet F) (batch_schema b) bs)
           | FormatJson \<Rightarrow> or_format JsonError
               (and_then (lw_batches (fm_json F) (lw_new (fm_json F)) bs) (lw_finish (fm_json F)))))"

section \<open>Properties\<close>

text \<open>
  A writer as its crate documents it, with a reader of its bytes: what it holds is the schema it was begun
  with and the batches it was given, each of which has that schema, and its bytes are read back as these.
\<close>

definition writer_laws :: "'w file_writer \<Rightarrow> ('w \<Rightarrow> schema \<times> batch list) \<Rightarrow> (string \<Rightarrow> schema \<times> batch list) \<Rightarrow> bool" where
  "writer_laws W holds rd \<longleftrightarrow>
     (\<forall>s w. wr_new W s = Inr w \<longrightarrow> holds w = (s, []))
   \<and> (\<forall>w b w'. wr_batch W w b = Inr w' \<longrightarrow> batch_schema b = fst (holds w) \<and> holds w' = (fst (holds w), snd (holds w) @ [b]))
   \<and> (\<forall>w bytes. wr_finish W w = Inr bytes \<longrightarrow> bytes \<noteq> [] \<and> rd bytes = holds w)"

lemma write_each_holds:
  assumes "writer_laws W holds rd" and "write_each W bs w = Inr w'"
  shows "holds w' = (fst (holds w), snd (holds w) @ bs) \<and> (\<forall>b \<in> set bs. batch_schema b = fst (holds w))"
  using assms(2)
proof (induction bs arbitrary: w)
  case (Cons b bs)
  then obtain w1 where w1: "wr_batch W w b = Inr w1" and rest: "write_each W bs w1 = Inr w'" by (auto simp: and_then_eq_Inr)
  from assms(1) w1 have "batch_schema b = fst (holds w)" "holds w1 = (fst (holds w), snd (holds w) @ [b])"
    unfolding writer_laws_def by blast+
  with Cons.IH [OF rest] show ?case by simp
qed simp

lemma file_bytes_of_holds:
  assumes "writer_laws W holds rd" and "file_bytes_of W s bs = Inr bytes"
  shows "bytes \<noteq> [] \<and> rd bytes = (s, bs) \<and> (\<forall>b \<in> set bs. batch_schema b = s)"
proof -
  from assms(2) obtain w w' where w: "wr_new W s = Inr w" "write_each W bs w = Inr w'" "wr_finish W w' = Inr bytes"
    by (auto simp: file_bytes_of_def and_then_eq_Inr)
  with assms(1) have "holds w = (s, [])" "bytes \<noteq> []" "rd bytes = holds w'" unfolding writer_laws_def by blast+
  with write_each_holds [OF assms(1) w(2)] show ?thesis by simp
qed

text \<open>
  The bytes of an answer are read back as its batches, under the schema all of them have, in Arrow IPC and
  in Parquet; and an answer without batches is no bytes, which no reader of a file takes.
\<close>

theorem formatted_reads_back:
  assumes "format_results F bs fmt = Inr bytes" and "fmt \<noteq> FormatJson"
    and "writer_laws (fm_arrow F) ha ra" and "writer_laws (fm_parquet F) hp rp"
  shows "(bytes = [] \<longleftrightarrow> bs = [])
     \<and> (bs \<noteq> [] \<longrightarrow> (if fmt = FormatArrow then ra else rp) bytes = (batch_schema (hd bs), bs)
          \<and> (\<forall>b \<in> set bs. batch_schema b = batch_schema (hd bs)))"
proof (cases bs)
  case Nil
  with assms(1) show ?thesis by (simp add: format_results_def)
next
  case (Cons b rest)
  then consider "fmt = FormatArrow" "file_bytes_of (fm_arrow F) (batch_schema b) bs = Inr bytes"
    | "fmt = FormatParquet" "file_bytes_of (fm_parquet F) (batch_schema b) bs = Inr bytes"
    using assms(1,2) by (cases fmt) (auto simp: format_results_def or_format_def split: sum.splits)
  then show ?thesis
  proof cases
    case 1
    from file_bytes_of_holds [OF assms(3) 1(2)] 1(1) Cons show ?thesis by simp
  next
    case 2
    from file_bytes_of_holds [OF assms(4) 2(2)] 2(1) Cons show ?thesis by simp
  qed
qed

text \<open>Writers that keep one batch of two rows, and refuse every other.\<close>

definition ex_two :: batch where
  "ex_two = \<lparr>batch_schema = [\<lparr>field_name = ''x'', field_type = TInt64, nullable = False\<rparr>], columns = [[CInt 1, CInt 2]], num_rows = 2\<rparr>"

definition ex_keep :: "batch list file_writer" where
  "ex_keep = \<lparr>wr_new = (\<lambda>s. if s = batch_schema ex_two then Inr [] else Inl ''no''),
     wr_batch = (\<lambda>w b. if b = ex_two \<and> w = [] then Inr [b] else Inl ''no''),
     wr_finish = (\<lambda>w. if w = [ex_two] then Inr ''bytes'' else Inl ''no'')\<rparr>"

definition ex_format :: "(batch list, batch list, batch list) format_api" where
  "ex_format = \<lparr>fm_arrow = ex_keep, fm_parquet = ex_keep,
     fm_json = \<lparr>lw_new = [], lw_batches = (\<lambda>w bs. Inr (w @ bs)), lw_finish = (\<lambda>w. Inr ''json'')\<rparr>\<rparr>"

theorem formatted_reads_back_witness:
  "format_results ex_format [ex_two] FormatArrow = Inr ''bytes''
   \<and> (\<lambda>b. (batch_schema ex_two, [ex_two])) ''bytes'' = (batch_schema (hd [ex_two]), [ex_two])
   \<and> format_results ex_format [] FormatArrow = Inr []"
proof -
  let ?h = "\<lambda>w. (batch_schema ex_two, w)" and ?r = "\<lambda>b. (batch_schema ex_two, [ex_two])"
  have laws: "writer_laws ex_keep ?h ?r"
    unfolding writer_laws_def by (auto simp: ex_keep_def split: if_splits)
  have run: "format_results ex_format [ex_two] FormatArrow = Inr ''bytes''"
    by (simp add: format_results_def ex_format_def ex_keep_def file_bytes_of_def or_format_def)
  from formatted_reads_back [OF run, of ?h ?r ?h ?r] laws run show ?thesis
    by (simp add: ex_format_def format_results_def)
qed

end
