(* ===== verification/View_Hash.thy ===== *)
theory View_Hash
  imports Resolve
begin

text \<open>
  The hash of a contract's view (\<open>src/view_hash.rs\<close>): the compilation, the columns of the table and the plan the
  engine stands in for the contract before any caller's parameters. Parcel's and DataFusion's part of the plan,
  its display, JSON and sha256 are parameters.
\<close>

section \<open>The view and its hash\<close>

record view_api =
  vh_scan_error :: "string \<Rightarrow> schema \<Rightarrow> df_error option"
  vh_filter_error :: "expr \<Rightarrow> lplan \<Rightarrow> df_error option"
  vh_project_error :: "expr list \<Rightarrow> lplan \<Rightarrow> df_error option"
  vh_display :: "schema \<Rightarrow> lplan \<Rightarrow> string"
  vh_type :: "data_type \<Rightarrow> string"
  vh_json :: "string \<times> (string \<times> string \<times> bool) list \<times> string \<Rightarrow> string + string"
  vh_sha :: "string \<Rightarrow> string"
  vh_from_bytes :: "string \<Rightarrow> string + compilation"

definition view_scan_name :: "compiled_contract \<Rightarrow> string" where
  "view_scan_name cc = ''__peql_'' @ map (\<lambda>c. if c = CHR ''/'' then CHR ''_'' else c) (cc_name cc)"

definition fails :: "df_error option \<Rightarrow> unit res" where
  "fails e = (case e of Some e \<Rightarrow> Inl (DataFusion e) | None \<Rightarrow> Inr ())"

definition unbound_plan :: "view_api \<Rightarrow> 'j runtime \<Rightarrow> compilation \<Rightarrow> lplan res" where
  "unbound_plan V R c =
     (let cc = contract c in
      and_then (fails (vh_scan_error V (view_scan_name cc) (row_schema cc))) (\<lambda>_.
      and_then (df (enrich_plan R (LScan (view_scan_name cc)) cc)) (\<lambda>scan.
      and_then (case filter_of (view_filters cc False) of Some f \<Rightarrow> fails (vh_filter_error V f scan) | None \<Rightarrow> Inr ()) (\<lambda>_.
      let filtered = view_filtered cc False scan in
      and_then (fails (vh_project_error V (view_projection cc False) filtered)) (\<lambda>_.
        df (resolve_plan R (LOther (KOther ''Projection'') (view_projection cc False) [filtered])))))))"

definition unbound_view :: "view_api \<Rightarrow> 'j runtime \<Rightarrow> compilation \<Rightarrow> string res" where
  "unbound_view V R c = and_then (unbound_plan V R c) (\<lambda>plan. Inr (vh_display V (row_schema (contract c)) plan))"

definition hashed_column :: "view_api \<Rightarrow> field \<Rightarrow> string \<times> string \<times> bool" where
  "hashed_column V f = (field_name f, vh_type V (field_type f), nullable f)"

definition compiled_view_hash :: "view_api \<Rightarrow> 'j runtime \<Rightarrow> compilation \<Rightarrow> schema \<Rightarrow> string res" where
  "compiled_view_hash V R c table =
     and_then (unbound_view V R c) (\<lambda>view.
       case vh_json V (compilation_hash (contract c), map (hashed_column V) table, view) of
         Inl e \<Rightarrow> Inl (Invalid (''the view's definition: '' @ e))
       | Inr canonical \<Rightarrow> Inr (''sha256:'' @ vh_sha V canonical))"

definition view_hash :: "view_api \<Rightarrow> 'j runtime \<Rightarrow> string \<Rightarrow> schema \<Rightarrow> string res" where
  "view_hash V R compiled table =
     (case vh_from_bytes V compiled of Inl e \<Rightarrow> Inl (Invalid e) | Inr c \<Rightarrow> compiled_view_hash V R c table)"

section \<open>What the hash covers\<close>

lemma compiled_view_hash_Inr:
  assumes "compiled_view_hash V R c t = Inr h"
  obtains v b where "unbound_view V R c = Inr v"
    and "vh_json V (compilation_hash (contract c), map (hashed_column V) t, v) = Inr b" and "h = ''sha256:'' @ vh_sha V b"
proof -
  from assms obtain v where v: "unbound_view V R c = Inr v"
    by (cases "unbound_view V R c") (simp_all add: compiled_view_hash_def)
  with assms obtain b where b: "vh_json V (compilation_hash (contract c), map (hashed_column V) t, v) = Inr b"
    by (cases "vh_json V (compilation_hash (contract c), map (hashed_column V) t, v)") (simp_all add: compiled_view_hash_def)
  show thesis by (rule that [OF v b]) (use assms v b in \<open>simp add: compiled_view_hash_def\<close>)
qed

text \<open>
  Two views hash alike exactly when their compilations have the same hash, the tables the same columns in
  the same order, each of the same name, written type and nullability, and the plans the same text, as far as
  JSON tells two definitions apart and sha256 does not map these two to one.
\<close>

theorem view_hash_identifies:
  assumes "compiled_view_hash V R c s = Inr h" and "compiled_view_hash V R c' s' = Inr h'"
    and "\<And>x y b. vh_json V x = Inr b \<Longrightarrow> vh_json V y = Inr b \<Longrightarrow> x = y"
    and "\<And>x y. vh_sha V x = vh_sha V y \<Longrightarrow> x = y"
  shows "h = h' \<longleftrightarrow> compilation_hash (contract c) = compilation_hash (contract c')
     \<and> map (hashed_column V) s = map (hashed_column V) s' \<and> unbound_view V R c = unbound_view V R c'"
proof -
  from assms(1) obtain v b where v: "unbound_view V R c = Inr v"
      "vh_json V (compilation_hash (contract c), map (hashed_column V) s, v) = Inr b" "h = ''sha256:'' @ vh_sha V b"
    by (rule compiled_view_hash_Inr)
  from assms(2) obtain v' b' where v': "unbound_view V R c' = Inr v'"
      "vh_json V (compilation_hash (contract c'), map (hashed_column V) s', v') = Inr b'" "h' = ''sha256:'' @ vh_sha V b'"
    by (rule compiled_view_hash_Inr)
  have "h = h' \<longleftrightarrow> b = b'" using v(3) v'(3) assms(4) by auto
  also have "\<dots> \<longleftrightarrow> (compilation_hash (contract c), map (hashed_column V) s, v)
      = (compilation_hash (contract c'), map (hashed_column V) s', v')"
    using assms(3) v(2) v'(2) by (metis sum.inject(2))
  finally show ?thesis using v(1) v'(1) by auto
qed

section \<open>The view that is served\<close>

text \<open>A plan with the scans of one name under another.\<close>

fun rename_scan :: "string \<Rightarrow> string \<Rightarrow> lplan \<Rightarrow> lplan" where
  "rename_scan a b (LScan c) = LScan (if c = a then b else c)"
| "rename_scan a b (LGate c h p) = LGate c h (rename_scan a b p)"
| "rename_scan a b (LFilter e qs p) = LFilter e (map (rename_scan a b) qs) (rename_scan a b p)"
| "rename_scan a b (LOther k es ps) = LOther k es (map (rename_scan a b) ps)"

text \<open>Enrichment and resolution do not look at the name of the scan.\<close>

definition name_blind :: "'j runtime \<Rightarrow> compiled_contract \<Rightarrow> string \<Rightarrow> string \<Rightarrow> bool" where
  "name_blind R cc a b \<longleftrightarrow>
     (\<forall>p. enrich_plan R (LScan a) cc = Inr p \<longrightarrow> enrich_plan R (LScan b) cc = Inr (rename_scan a b p))
   \<and> (\<forall>p q. resolve_plan R p = Inr q \<longrightarrow> resolve_plan R (rename_scan a b p) = Inr (rename_scan a b q))"

text \<open>
  What is hashed is what is served: whoever asks, with every rule evaluated live, the plan under the
  contract's gate is the plan whose text was hashed, over the contract's data, with the caller's parameters.
\<close>

theorem hashed_view_is_served:
  assumes "unbound_plan V R c = Inr plan" and "visible g name who = Inr reg" and "r_compilation reg = c"
    and "\<not> rs_flags_materialised rs" and "contract_view R g bnd prov name who rs = Inr served"
    and "name_blind R (contract c) (view_scan_name (contract c)) (cc_name (contract c))"
  shows "\<exists>ps bound. param_values R (contract c) who = Inr ps
     \<and> with_params R (rename_scan (view_scan_name (contract c)) (cc_name (contract c)) plan) ps = Inr bound
     \<and> served = LGate (cc_name (contract c)) (compilation_hash (contract c)) bound"
proof -
  let ?cc = "contract c"
  let ?rn = "rename_scan (view_scan_name ?cc) (cc_name ?cc)"
  from assms(1) obtain scan where scan: "enrich_plan R (LScan (view_scan_name ?cc)) ?cc = Inr scan"
    and plan: "resolve_plan R (LOther (KOther ''Projection'') (view_projection ?cc False) [view_filtered ?cc False scan]) = Inr plan"
    by (auto simp: unbound_plan_def Let_def and_then_eq_Inr df_def split: sum.splits)
  have enr: "enrich_plan R (LScan (cc_name ?cc)) ?cc = Inr (?rn scan)" using assms(6) scan unfolding name_blind_def by blast
  have "?rn (LOther (KOther ''Projection'') (view_projection ?cc False) [view_filtered ?cc False scan])
      = LOther (KOther ''Projection'') (view_projection ?cc False) [view_filtered ?cc False (?rn scan)]"
    by (simp add: view_filtered_def split: option.split)
  with plan assms(6) have res: "resolve_plan R (LOther (KOther ''Projection'') (view_projection ?cc False)
      [view_filtered ?cc False (?rn scan)]) = Inr (?rn plan)" unfolding name_blind_def by metis
  from assms(5) obtain ps bound where ps: "rt (param_values R ?cc who) = Inr ps" "df (with_params R (?rn plan) ps) = Inr bound"
      "served = LGate (cc_name ?cc) (compilation_hash ?cc) bound"
    unfolding contract_view_def assms(2) and_then_Inr Let_def assms(3)
    by (auto simp: and_then_eq_Inr assms(4) enr res df_def rt_def split: sum.splits)
  then show ?thesis by (auto simp: df_def rt_def split: sum.splits)
qed

end
