(* ===== verification/View_Hash_Example.thy ===== *)
theory View_Hash_Example
  imports View_Hash Query_Example "HOL-Library.Countable"
begin

text \<open>The contract of the other examples, its view hashed over two tables and served to one caller.\<close>

definition ex_view_api :: view_api where
  "ex_view_api = \<lparr>vh_scan_error = (\<lambda>n s. None), vh_filter_error = (\<lambda>e p. None), vh_project_error = (\<lambda>es p. None),
     vh_display = (\<lambda>s p. ''plan''), vh_type = (\<lambda>t. if t = TInt64 then ''Int64'' else ''other''),
     vh_json = (\<lambda>x. Inr (replicate (to_nat x) CHR ''x'')), vh_sha = (\<lambda>s. s), vh_from_bytes = (\<lambda>b. Inr ex_compilation)\<rparr>"

definition ex_hashed :: "bool \<Rightarrow> schema" where
  "ex_hashed n = [\<lparr>field_name = ''x'', field_type = TInt64, nullable = n\<rparr>]"

lemma ex_view_simps:
  "fails (vh_scan_error ex_view_api n sc) = Inr ()" "fails (vh_filter_error ex_view_api e p) = Inr ()"
  "fails (vh_project_error ex_view_api es p) = Inr ()" "vh_display ex_view_api sc p = ''plan''" "vh_sha ex_view_api t = t"
  "vh_json ex_view_api x = Inr (replicate (to_nat x) CHR ''x'')"
  by (simp_all add: ex_view_api_def fails_def)

lemma ex_unbound: "\<exists>plan. unbound_plan ex_view_api ex_runtime ex_compilation = Inr plan"
proof -
  have filters: "(case x of None \<Rightarrow> Inr () | Some f \<Rightarrow> fails (vh_filter_error ex_view_api f p)) = Inr ()" for x p
    by (cases x) (simp_all only: ex_view_simps option.case)
  show ?thesis unfolding unbound_plan_def Let_def ex_view_simps(1,3) ex_rt_simps df_simps and_then_Inr filters by blast
qed

lemma ex_unbound_view: "unbound_view ex_view_api ex_runtime ex_compilation = Inr ''plan''"
  using ex_unbound by (auto simp: unbound_view_def ex_view_simps)

theorem view_hash_identifies_witness:
  "\<exists>h h'. compiled_view_hash ex_view_api ex_runtime ex_compilation (ex_hashed True) = Inr h
     \<and> compiled_view_hash ex_view_api ex_runtime ex_compilation (ex_hashed False) = Inr h' \<and> h \<noteq> h'"
proof -
  obtain h where h: "compiled_view_hash ex_view_api ex_runtime ex_compilation (ex_hashed True) = Inr h"
    by (simp add: compiled_view_hash_def ex_unbound_view ex_view_simps)
  obtain h' where h': "compiled_view_hash ex_view_api ex_runtime ex_compilation (ex_hashed False) = Inr h'"
    by (simp add: compiled_view_hash_def ex_unbound_view ex_view_simps)
  have "vh_json ex_view_api x = Inr b \<Longrightarrow> vh_json ex_view_api y = Inr b \<Longrightarrow> x = y" for x y b
    by (auto simp: ex_view_simps dest: arg_cong [of _ _ length])
  moreover have "vh_sha ex_view_api x = vh_sha ex_view_api y \<Longrightarrow> x = y" for x y by (simp add: ex_view_simps)
  ultimately have "h = h' \<longleftrightarrow> compilation_hash (contract ex_compilation) = compilation_hash (contract ex_compilation)
     \<and> map (hashed_column ex_view_api) (ex_hashed True) = map (hashed_column ex_view_api) (ex_hashed False)
     \<and> unbound_view ex_view_api ex_runtime ex_compilation = unbound_view ex_view_api ex_runtime ex_compilation"
    by (rule view_hash_identifies [OF h h'])
  then have "h \<noteq> h'" by (simp add: hashed_column_def ex_hashed_def)
  with h h' show ?thesis by blast
qed

theorem hashed_view_is_served_witness:
  "\<exists>plan rs served bound. unbound_plan ex_view_api ex_runtime ex_compilation = Inr plan
     \<and> contract_view ex_runtime ex_contents (host_bound ex_host) (open_data ex_host ''t/orders'' ex_world) ''t/orders'' ex_caller rs = Inr served
     \<and> served = LGate ''t/orders'' ''k1'' bound"
proof -
  obtain plan where plan: "unbound_plan ex_view_api ex_runtime ex_compilation = Inr plan" using ex_unbound ..
  obtain rs :: resolution where rs: "\<not> rs_flags_materialised rs" by (rule that [of "undefined\<lparr>rs_flags_materialised := False\<rparr>"]) simp
  obtain served where served: "contract_view ex_runtime ex_contents (host_bound ex_host) (open_data ex_host ''t/orders'' ex_world)
      ''t/orders'' ex_caller rs = Inr served" using ex_view by blast
  have c: "r_compilation ex_registered = ex_compilation" "cc_name (contract ex_compilation) = ''t/orders''"
      "compilation_hash (contract ex_compilation) = ''k1''"
    by (simp_all add: ex_registered_def ex_contract_simps)
  have "name_blind ex_runtime (contract ex_compilation) a b" for a b by (simp add: name_blind_def ex_rt_simps)
  from hashed_view_is_served [OF plan ex_visible c(1) rs served this] obtain bound where "served = LGate ''t/orders'' ''k1'' bound"
    unfolding c by blast
  with plan served show ?thesis by blast
qed

end
