(* ===== verification/Command_Line.thy ===== *)
theory Command_Line
  imports Registration Writes Query Format Guard
begin

text \<open>
  The command line (\<open>src/bin/peql.rs\<close>): each command as what it asks of an engine opened on a workspace, what it
  prints, the files it writes and the status it exits with. The argument parser, YAML, the readers of CSV and
  Parquet files, the writers of results and the texts of dates and numbers are parameters.
\<close>

section \<open>A command's run\<close>

text \<open>A process: the engine's registers and world, the files it wrote, and the two outputs.\<close>

record ('r, 'j, 'l) shell =
  sh_registers :: "(dir_store, 'r) registers"
  sh_world :: "('j, 'l) world"
  sh_files :: "string \<rightharpoonup> string"
  sh_out :: "string list"
  sh_err :: "string list"

text \<open>An error is a message, or a panic, which a slice out of bounds is.\<close>

datatype stopped = Message string | Panic

type_synonym ('s, 'a) act = "'s \<Rightarrow> ('s \<times> (stopped + 'a)) option"

definition then_act :: "('s, 'a) act \<Rightarrow> ('a \<Rightarrow> ('s, 'b) act) \<Rightarrow> ('s, 'b) act" where
  "then_act m f = (\<lambda>s. case m s of
       None \<Rightarrow> None
     | Some (s', Inl e) \<Rightarrow> Some (s', Inl e)
     | Some (s', Inr x) \<Rightarrow> f x s')"

definition act :: "stopped + 'a \<Rightarrow> ('s, 'a) act" where
  "act r = (\<lambda>s. Some (s, r))"

fun each_act :: "('a \<Rightarrow> ('s, unit) act) \<Rightarrow> 'a list \<Rightarrow> ('s, unit) act" where
  "each_act f [] = act (Inr ())"
| "each_act f (x # xs) = then_act (f x) (\<lambda>_. each_act f xs)"

text \<open>\<open>map_err\<close> of a text, with the path it is of, and of the engine's errors.\<close>

definition said :: "string + 'a \<Rightarrow> stopped + 'a" where
  "said r = (case r of Inl e \<Rightarrow> Inl (Message e) | Inr x \<Rightarrow> Inr x)"

definition said_of :: "string \<Rightarrow> string + 'a \<Rightarrow> stopped + 'a" where
  "said_of path r = (case r of Inl e \<Rightarrow> Inl (Message (path @ '': '' @ e)) | Inr x \<Rightarrow> Inr x)"

definition told :: "'a res \<Rightarrow> stopped + 'a" where
  "told r = (case r of Inl e \<Rightarrow> Inl (Message (error_text e)) | Inr x \<Rightarrow> Inr x)"

definition print_line :: "string \<Rightarrow> (('r, 'j, 'l) shell, unit) act" where
  "print_line t = (\<lambda>s. Some (s\<lparr>sh_out := sh_out s @ [t]\<rparr>, Inr ()))"

definition note_line :: "string \<Rightarrow> (('r, 'j, 'l) shell, unit) act" where
  "note_line t = (\<lambda>s. Some (s\<lparr>sh_err := sh_err s @ [t]\<rparr>, Inr ()))"

text \<open>What the engine does, with its result as it is; and what its registers do.\<close>

definition engine :: "(contents \<Rightarrow> (('j, 'l) world, 'a) step) \<Rightarrow> (('r, 'j, 'l) shell, 'a res) act" where
  "engine m = (\<lambda>s. map_option (\<lambda>(w, r). (s\<lparr>sh_world := w\<rparr>, Inr r)) (m (ds_memory (er_store (sh_registers s))) (sh_world s)))"

definition ask_engine :: "(contents \<Rightarrow> (('j, 'l) world, 'a) step) \<Rightarrow> (('r, 'j, 'l) shell, 'a) act" where
  "ask_engine m = then_act (engine m) (\<lambda>r. act (told r))"

definition on_registers ::
  "((dir_store, 'r) registers \<Rightarrow> (dir_store, 'r) registers \<times> 'a res) \<Rightarrow> (('r, 'j, 'l) shell, 'a) act" where
  "on_registers f = (\<lambda>s. let (E, r) = f (sh_registers s) in Some (s\<lparr>sh_registers := E\<rparr>, told r))"

text \<open>\<open>&hash[..16]\<close>.\<close>

definition first_16 :: "string \<Rightarrow> ('s, string) act" where
  "first_16 h = act (if length h < 16 then Inl Panic else Inr (take 16 h))"

text \<open>\<open>{:<n}\<close>.\<close>

definition padded :: "nat \<Rightarrow> string \<Rightarrow> string" where
  "padded n s = s @ replicate (n - length s) CHR '' ''"

section \<open>Commands\<close>

datatype out_format = OutTable | OutJson | OutArrow | OutParquet

record caller_args =
  ca_file :: "string option"
  ca_tenant :: "string option"
  ca_purpose :: "string option"
  ca_id :: "string option"
  ca_roles :: "string list"
  ca_clearance :: "int option"
  ca_tier :: "string option"
  ca_classification :: "string option"
  ca_now :: "int option"

datatype command =
    CmdRegister string "string option" "string option" "string list"
  | CmdWrite string string bool on_write_violation "string option" "string list"
  | CmdValidate string
  | CmdQuery string caller_args out_format "string option" bool bool on_read_violation
  | CmdDescribe string caller_args
  | CmdList
  | CmdPublish string string bool
  | CmdBudget string f64
  | CmdFunctionRegister string string string
  | CmdFunctionList

text \<open>What the argument parser lets through: \<open>conflicts_with\<close>, \<open>required_unless_present\<close>, \<open>required_if_eq\<close>.\<close>

fun parsed_command :: "command \<Rightarrow> bool" where
  "parsed_command (CmdRegister c schema compiled types) \<longleftrightarrow> (schema = None) \<noteq> (compiled = None)"
| "parsed_command (CmdWrite c input app v excluded types) \<longleftrightarrow> (v = WExclude \<longrightarrow> excluded \<noteq> None)"
| "parsed_command c \<longleftrightarrow> True"

text \<open>What is outside: files, parsers, readers, writers and texts; and how the engine's own writes end.\<close>

record ('r, 'v, 'w, 'j, 'l, 'f) cli =
  cl_host :: "('v, 'w, 'j, 'l) host"
  cl_write :: "'j write_api"
  cl_uuid :: string
  cl_parcel :: "'r parcel_api"
  cl_registry :: "'r registry_api"
  cl_codec :: fn_codec
  cl_store :: store_codec
  cl_put_error :: "string option"
  cl_index :: write_outcome
  cl_mkdir_error :: "string option"
  cl_module :: write_outcome
  cl_record :: write_outcome
  cl_is_file :: "string \<Rightarrow> bool"
  cl_text :: "string \<Rightarrow> string + string"
  cl_bytes :: "string \<Rightarrow> string + string"
  cl_yaml_caller :: "string \<Rightarrow> string + caller"
  cl_yaml_manifest :: "string \<Rightarrow> string + fn_manifest"
  cl_type_name :: "string \<Rightarrow> string + data_type"
  cl_infer_csv :: "string \<Rightarrow> string + schema"
  cl_csv :: "string \<Rightarrow> schema \<Rightarrow> string + (schema \<times> (string + batch list))"
  cl_parquet :: "string \<Rightarrow> string + (schema \<times> (string + batch list))"
  cl_format :: "('f, 'f, 'f) format_api"
  cl_table :: "batch list \<Rightarrow> string + string"
  cl_write_error :: "string \<Rightarrow> string option"
  cl_stdout_error :: "string option"
  cl_verdict_json :: "'j data_verdict \<Rightarrow> string + string"
  cl_envelope_json :: "envelope \<Rightarrow> string + string"
  cl_type_text :: "data_type \<Rightarrow> string"
  cl_time_text :: "int \<Rightarrow> string"
  cl_f64_text :: "f64 \<Rightarrow> string"
  cl_fn_version :: "fn_entry \<Rightarrow> nat"
  cl_fn_signature :: "fn_entry \<Rightarrow> string option"

definition cli_store :: "('r, 'v, 'w, 'j, 'l, 'f) cli \<Rightarrow> dir_store store_ops" where
  "cli_store A = dir_ops (cl_store A) (cl_put_error A) (cl_index A)"

section \<open>Inputs\<close>

definition default_caller :: "('r, 'v, 'w, 'j, 'l, 'f) cli \<Rightarrow> caller" where
  "default_caller A = \<lparr>caller_id = ''cli'', tenant = [], purpose = [], caller_tier = [], caller_classification = [],
     caller_roles = [], caller_clearance = 0, caller_now = h_now (cl_host A)\<rparr>"

definition given :: "'a option \<Rightarrow> 'a \<Rightarrow> 'a" where
  "given o1 x = (case o1 of Some v \<Rightarrow> v | None \<Rightarrow> x)"

definition resolve_caller :: "('r, 'v, 'w, 'j, 'l, 'f) cli \<Rightarrow> caller_args \<Rightarrow> stopped + caller" where
  "resolve_caller A a =
     and_then (case ca_file a of
         Some p \<Rightarrow> and_then (said_of p (cl_text A p)) (\<lambda>text. said_of p (cl_yaml_caller A text))
       | None \<Rightarrow> Inr (default_caller A)) (\<lambda>c.
       Inr (c\<lparr>tenant := given (ca_tenant a) (tenant c), purpose := given (ca_purpose a) (purpose c),
         caller_id := given (ca_id a) (caller_id c),
         caller_roles := (if ca_roles a \<noteq> [] then ca_roles a else caller_roles c),
         caller_clearance := given (ca_clearance a) (caller_clearance c), caller_tier := given (ca_tier a) (caller_tier c),
         caller_classification := given (ca_classification a) (caller_classification c),
         caller_now := given (ca_now a) (caller_now c)\<rparr>))"

text \<open>\<open>split_once\<close>, \<open>trim\<close>, and the extension of a path.\<close>

definition split_once :: "char \<Rightarrow> string \<Rightarrow> (string \<times> string) option" where
  "split_once c s =
     (if c \<in> set s then Some (takeWhile (\<lambda>x. x \<noteq> c) s, tl (dropWhile (\<lambda>x. x \<noteq> c) s)) else None)"

definition trimmed_end :: "string \<Rightarrow> string" where
  "trimmed_end s = (case find (\<lambda>n. trim_start (drop n s) = []) [0..<length s] of Some n \<Rightarrow> take n s | None \<Rightarrow> s)"

definition path_extension :: "string \<Rightarrow> string option" where
  "path_extension p = extension (rev (takeWhile (\<lambda>c. c \<noteq> CHR ''/'') (rev p)))"

definition type_hint :: "('r, 'v, 'w, 'j, 'l, 'f) cli \<Rightarrow> string \<Rightarrow> string + string \<times> data_type" where
  "type_hint A t =
     (case split_once CHR ''='' t of
        None \<Rightarrow> Inl (''--type expects COLUMN=TYPE, got `'' @ t @ ''`'')
      | Some (c, ty) \<Rightarrow> and_then (cl_type_name A ty) (\<lambda>ty. Inr (trimmed_end (trim_start c), ty)))"

definition hinted :: "(string \<times> data_type) list \<Rightarrow> field \<Rightarrow> field" where
  "hinted hints f = (case map_of hints (field_name f) of Some t \<Rightarrow> f\<lparr>field_type := t\<rparr> | None \<Rightarrow> f)"

definition read_data ::
  "('r, 'v, 'w, 'j, 'l, 'f) cli \<Rightarrow> string \<Rightarrow> string list \<Rightarrow> stopped + schema \<times> batch list" where
  "read_data A path types =
     and_then (said (map_res (type_hint A) types)) (\<lambda>hints.
     and_then (if path_extension path = Some ''csv''
         then and_then (said_of path (cl_infer_csv A path)) (\<lambda>s. said_of path (cl_csv A path (map (hinted hints) s)))
         else said_of path (cl_parquet A path)) (\<lambda>(s, bs).
       and_then (said bs) (\<lambda>bs. Inr (s, bs))))"

section \<open>Outputs\<close>

definition write_out :: "('r, 'v, 'w, 'j, 'l, 'f) cli \<Rightarrow> string \<Rightarrow> string \<Rightarrow> (('r, 'j, 'l) shell, unit) act" where
  "write_out A p raw = (\<lambda>s. case cl_write_error A p of
       Some e \<Rightarrow> Some (s, Inl (Message e)) | None \<Rightarrow> Some (s\<lparr>sh_files := (sh_files s)(p \<mapsto> raw)\<rparr>, Inr ()))"

fun format_of :: "out_format \<Rightarrow> result_format option" where
  "format_of OutTable = None"
| "format_of OutJson = Some FormatJson"
| "format_of OutArrow = Some FormatArrow"
| "format_of OutParquet = Some FormatParquet"

definition emit ::
  "('r, 'v, 'w, 'j, 'l, 'f) cli \<Rightarrow> batch list \<Rightarrow> out_format \<Rightarrow> string option \<Rightarrow> (('r, 'j, 'l) shell, unit) act" where
  "emit A bs fmt out =
     (case format_of fmt of
        None \<Rightarrow>
          then_act (act (said (cl_table A bs))) (\<lambda>text.
            case out of Some p \<Rightarrow> write_out A p text | None \<Rightarrow> print_line text)
      | Some f \<Rightarrow>
          then_act (act (said (map_sum formatter_text id (format_results (cl_format A) bs f)))) (\<lambda>raw.
            case out of
              Some p \<Rightarrow> write_out A p raw
            | None \<Rightarrow> (case cl_stdout_error A of Some e \<Rightarrow> act (Inl (Message e)) | None \<Rightarrow> print_line raw)))"

section \<open>Registering\<close>

definition cli_register ::
  "('r, 'v, 'w, 'j, 'l, 'f) cli \<Rightarrow> string \<Rightarrow> string option \<Rightarrow> string list \<Rightarrow> (('r, 'j, 'l) shell, registered) act" where
  "cli_register A path schema types =
     then_act (act (said_of path (cl_text A path))) (\<lambda>text.
     then_act (act (case schema of
         None \<Rightarrow> Inl (Message ''a contract document needs --schema (a Parquet or CSV sample)'')
       | Some from \<Rightarrow> read_data A from types)) (\<lambda>(s, bs).
       on_registers (register_contract (cl_parcel A) (cl_registry A) (cli_store A) text s)))"

definition cli_register_compiled ::
  "('r, 'v, 'w, 'j, 'l, 'f) cli \<Rightarrow> string \<Rightarrow> string \<Rightarrow> (('r, 'j, 'l) shell, registered) act" where
  "cli_register_compiled A path compiled =
     then_act (act (said_of path (cl_text A path))) (\<lambda>text.
     then_act (act (said_of path (pc_parse (cl_parcel A) text))) (\<lambda>doc.
     then_act (act (said_of compiled (cl_bytes A compiled))) (\<lambda>raw.
     then_act (act (said_of compiled (comp_from_bytes (cl_store A) raw))) (\<lambda>c.
       on_registers (\<lambda>E. register_compiled (cl_registry A) (cl_codec A) (cl_store A) (cli_store A) doc raw
         (modules_for (cl_registry A) (er_functions E) (cc_functions (contract c))) E)))))"

definition run_register ::
  "('r, 'v, 'w, 'j, 'l, 'f) cli \<Rightarrow> string \<Rightarrow> string option \<Rightarrow> string option \<Rightarrow> string list \<Rightarrow> (('r, 'j, 'l) shell, nat) act" where
  "run_register A path schema compiled types =
     then_act (case compiled of
         Some c \<Rightarrow> cli_register_compiled A path c | None \<Rightarrow> cli_register A path schema types) (\<lambda>reg.
     let cc = contract (r_compilation reg) in
     then_act (first_16 (compilation_hash cc)) (\<lambda>h.
     then_act (print_line (''registered '' @ cc_name cc @ '' v'' @ show_nat (cc_version cc) @ '' ('' @ h @ '')'')) (\<lambda>_.
       act (Inr 0))))"

section \<open>Writing and validating\<close>

definition write_name ::
  "('r, 'v, 'w, 'j, 'l, 'f) cli \<Rightarrow> string \<Rightarrow> schema \<Rightarrow> (('r, 'j, 'l) shell, string) act" where
  "write_name A c s =
     (if cl_is_file A c
      then then_act (act (said (cl_text A c))) (\<lambda>text.
           then_act (on_registers (register_contract (cl_parcel A) (cl_registry A) (cli_store A) text s)) (\<lambda>reg.
             act (Inr (reg_name reg))))
      else act (Inr c))"

definition verdict_code :: "'j data_verdict \<Rightarrow> nat" where
  "verdict_code v = (if v_valid (dv_verdict v) then 0 else 1)"

definition report_write ::
  "('r, 'v, 'w, 'j, 'l, 'f) cli \<Rightarrow> string \<Rightarrow> on_write_violation \<Rightarrow> string option \<Rightarrow> 'j write_report \<times> batch option
     \<Rightarrow> (('r, 'j, 'l) shell, nat) act" where
  "report_write A name v excluded outcome =
     (let report = fst outcome; what = (if v = WExclude then ''set aside'' else ''committed'') in
      then_act (print_line (''wrote '' @ show_nat (rp_rows_written report) @ '' rows to '' @ name @ '' (''
        @ show_nat (length (rp_files report)) @ '' files)'')) (\<lambda>_.
      then_act (each_act (\<lambda>(rule, n). print_line (''  '' @ rule @ '': '' @ show_nat n @ '' rows break it ('' @ what @ '')''))
        (rp_violations report)) (\<lambda>_.
      then_act (case (snd outcome, excluded) of
          (Some rows, Some path) \<Rightarrow>
            then_act (emit A [rows] OutParquet (Some path)) (\<lambda>_.
              print_line (''  '' @ show_nat (rp_rows_excluded report) @ '' rows set aside in '' @ path))
        | _ \<Rightarrow> act (Inr ())) (\<lambda>_.
        act (Inr (verdict_code (rp_verdict report)))))))"

definition run_write ::
  "('r, 'v, 'w, 'j, 'l, 'f) cli \<Rightarrow> string \<Rightarrow> string \<Rightarrow> bool \<Rightarrow> on_write_violation \<Rightarrow> string option \<Rightarrow> string list
     \<Rightarrow> (('r, 'j, 'l) shell, nat) act" where
  "run_write A c input app v excluded types =
     then_act (act (read_data A input types)) (\<lambda>(s, bs).
     then_act (write_name A c s) (\<lambda>name.
     then_act (engine (\<lambda>g. engine_write (cl_host A) (cl_write A) g (cl_uuid A) name bs (\<not> app) v)) (\<lambda>r.
       case r of
         Inr outcome \<Rightarrow> report_write A name v excluded outcome
       | Inl (Violated ct vs) \<Rightarrow>
           then_act (note_line (''refused: '' @ error_text (Violated ct vs))) (\<lambda>_. act (Inr 1))
       | Inl e \<Rightarrow> act (Inl (Message (error_text e))))))"

definition run_validate :: "('r, 'v, 'w, 'j, 'l, 'f) cli \<Rightarrow> string \<Rightarrow> (('r, 'j, 'l) shell, nat) act" where
  "run_validate A name =
     then_act (ask_engine (\<lambda>g. engine_validate (cl_host A) g name)) (\<lambda>v.
     then_act (act (said (cl_verdict_json A v))) (\<lambda>j.
     then_act (print_line j) (\<lambda>_. act (Inr (verdict_code v)))))"

section \<open>Asking\<close>

definition run_query ::
  "('r, 'v, 'w, 'j, 'l, 'f) cli \<Rightarrow> string \<Rightarrow> caller_args \<Rightarrow> out_format \<Rightarrow> string option \<Rightarrow> bool \<Rightarrow> bool
     \<Rightarrow> on_read_violation \<Rightarrow> (('r, 'j, 'l) shell, nat) act" where
  "run_query A sql a fmt out with_envelope explained v =
     then_act (act (resolve_caller A a)) (\<lambda>who.
       if explained
       then then_act (ask_engine (\<lambda>g. explain (cl_host A) g sql who)) (\<lambda>t. then_act (print_line t) (\<lambda>_. act (Inr 0)))
       else
     then_act (engine (\<lambda>g. query_as_of (cl_host A) g sql who [] v)) (\<lambda>r.
       case r of
         Inl e \<Rightarrow>
           if is_refusal e then then_act (note_line (''refused: '' @ error_text e)) (\<lambda>_. act (Inr 1))
           else act (Inl (Message (error_text e)))
       | Inr res \<Rightarrow>
           then_act (emit A (qr_batches res) fmt out) (\<lambda>_.
           then_act (if with_envelope
               then then_act (act (said (cl_envelope_json A (qr_envelope res)))) note_line
               else each_act (\<lambda>c.
                 then_act (each_act (\<lambda>(rule, n). note_line (''note: `'' @ rs_contract c @ ''` left out '' @ show_nat n
                     @ '' rows that break '' @ rule)) (rs_excluded c)) (\<lambda>_.
                   if rs_annotations c \<noteq> []
                   then note_line (''note: `'' @ rs_contract c @ ''` guarantees not met: '' @ join '', '' (rs_annotations c))
                   else act (Inr ()))) (en_contracts (qr_envelope res))) (\<lambda>_.
             act (Inr 0)))))"

definition run_describe :: "('r, 'v, 'w, 'j, 'l, 'f) cli \<Rightarrow> string \<Rightarrow> caller_args \<Rightarrow> (('r, 'j, 'l) shell, nat) act" where
  "run_describe A name a =
     then_act (act (resolve_caller A a)) (\<lambda>who.
     then_act (engine (\<lambda>g. lift (describe (h_runtime (cl_host A)) g name who))) (\<lambda>r.
       case r of
         Inr s \<Rightarrow> then_act (each_act (\<lambda>f. print_line (padded 24 (field_name f) @ '' '' @ cl_type_text A (field_type f))) s)
           (\<lambda>_. act (Inr 0))
       | Inl (Denied c rule) \<Rightarrow> then_act (note_line (''refused: '' @ error_text (Denied c rule))) (\<lambda>_. act (Inr 1))
       | Inl (UnknownContract n) \<Rightarrow> then_act (note_line (''refused: '' @ error_text (UnknownContract n))) (\<lambda>_. act (Inr 1))
       | Inl e \<Rightarrow> act (Inl (Message (error_text e)))))"

definition data_state :: "('r, 'v, 'w, 'j, 'l, 'f) cli \<Rightarrow> 'j manifest option \<Rightarrow> string" where
  "data_state A mo =
     (case mo of
        None \<Rightarrow> ''no data''
      | Some m \<Rightarrow>
          if m_valid m then show_int (m_row_count m) @ '' rows, valid, written '' @ cl_time_text A (m_written_at m)
          else show_int (m_row_count m) @ '' rows, breaks '' @ join '', '' (m_breached m))"

text \<open>A contract's audiences in order, as the \<open>BTreeSet\<close> they are in gives them.\<close>

definition list_line :: "('r, 'v, 'w, 'j, 'l, 'f) cli \<Rightarrow> contents \<Rightarrow> registered \<Rightarrow> 'j manifest option \<Rightarrow> string" where
  "list_line A g reg mo =
     (let cc = contract (r_compilation reg); audiences = sorted_list_of_set (mem_audiences g (cc_name cc));
          shared = (if audiences = [] then [] else ''  shared with '' @ join '', '' audiences)
      in padded 28 (cc_name cc) @ '' v'' @ padded 4 (show_nat (cc_version cc)) @ '' owner ''
         @ padded 10 (given (cc_owner cc) ''-'') @ '' '' @ data_state A mo @ shared)"

definition run_list :: "('r, 'v, 'w, 'j, 'l, 'f) cli \<Rightarrow> (('r, 'j, 'l) shell, nat) act" where
  "run_list A = (\<lambda>s.
     then_act (each_act (\<lambda>reg.
       let name = cc_name (contract (r_compilation reg)) in
       then_act (ask_engine (\<lambda>g. ensure_manifest (cl_host A) g name)) (\<lambda>_.
       then_act (ask_engine (\<lambda>g. look_res (engine_manifest (cl_host A) g name))) (\<lambda>mo.
       then_act (ask_engine (\<lambda>g. give (list_line A g reg mo))) print_line)))
       (engine_contracts (cli_store A) (sh_registers s))) (\<lambda>_. act (Inr 0)) s)"

section \<open>Publishing, budgets and functions\<close>

definition run_publish :: "('r, 'v, 'w, 'j, 'l, 'f) cli \<Rightarrow> string \<Rightarrow> string \<Rightarrow> bool \<Rightarrow> (('r, 'j, 'l) shell, nat) act" where
  "run_publish A name audience revoke =
     (if revoke
      then then_act (on_registers (engine_unpublish (cli_store A) name audience)) (\<lambda>_.
           then_act (print_line (name @ '' is no longer shared with '' @ audience)) (\<lambda>_. act (Inr 0)))
      else then_act (on_registers (engine_publish (cli_store A) name audience)) (\<lambda>_.
           then_act (print_line (name @ '' is shared with '' @ audience)) (\<lambda>_. act (Inr 0))))"

definition limit_step :: "('v, 'w, 'j, 'l) host \<Rightarrow> string \<Rightarrow> f64 \<Rightarrow> (('j, 'l) world, unit) step" where
  "limit_step H name limit =
     (\<lambda>w. case set_limit (h_ledger H) (Option.bind (bs_file (w_budgets w)) (h_write_error H)) (w_fs w) (w_budgets w) name limit of
        (b, Inl e) \<Rightarrow> Some (w\<lparr>w_budgets := b\<rparr>, Inl e)
      | (b, Inr d) \<Rightarrow> Some (w\<lparr>w_budgets := b, w_fs := d\<rparr>, Inr ()))"

definition run_budget :: "('r, 'v, 'w, 'j, 'l, 'f) cli \<Rightarrow> string \<Rightarrow> f64 \<Rightarrow> (('r, 'j, 'l) shell, nat) act" where
  "run_budget A name limit =
     then_act (ask_engine (\<lambda>g. limit_step (cl_host A) name limit)) (\<lambda>_.
     then_act (print_line (''budget '' @ name @ '': '' @ cl_f64_text A limit @ '' epsilon per caller'')) (\<lambda>_. act (Inr 0)))"

definition run_function_register ::
  "('r, 'v, 'w, 'j, 'l, 'f) cli \<Rightarrow> string \<Rightarrow> string \<Rightarrow> string \<Rightarrow> (('r, 'j, 'l) shell, nat) act" where
  "run_function_register A module_file man own =
     then_act (act (said_of module_file (cl_bytes A module_file))) (\<lambda>raw.
     then_act (act (said_of man (cl_text A man))) (\<lambda>text.
     then_act (act (said_of man (cl_yaml_manifest A text))) (\<lambda>m.
     then_act (on_registers (register_function (cl_registry A) (cl_codec A) (cl_mkdir_error A) (cl_module A) (cl_record A) raw m own))
       (\<lambda>e.
     then_act (first_16 (fe_hash e)) (\<lambda>h.
     then_act (print_line (''registered '' @ fe_name e @ '' v'' @ show_nat (cl_fn_version A e) @ '' for '' @ own @ '' ('' @ h @ '')''))
       (\<lambda>_. act (Inr 0)))))))"

definition run_function_list :: "('r, 'v, 'w, 'j, 'l, 'f) cli \<Rightarrow> (('r, 'j, 'l) shell, nat) act" where
  "run_function_list A = (\<lambda>s.
     then_act (each_act (\<lambda>e.
       then_act (first_16 (fe_hash e)) (\<lambda>h.
         print_line (padded 20 (fe_name e) @ '' v'' @ padded 3 (show_nat (cl_fn_version A e)) @ '' ''
           @ padded 32 (given (cl_fn_signature A e) []) @ '' owner '' @ padded 12 (fe_owner e) @ '' '' @ h)))
       (fn_list (cl_registry A) (er_functions (sh_registers s)))) (\<lambda>_. act (Inr 0)) s)"

section \<open>The process\<close>

fun run_command :: "('r, 'v, 'w, 'j, 'l, 'f) cli \<Rightarrow> command \<Rightarrow> (('r, 'j, 'l) shell, nat) act" where
  "run_command A (CmdRegister c schema compiled types) = run_register A c schema compiled types"
| "run_command A (CmdWrite c input app v excluded types) = run_write A c input app v excluded types"
| "run_command A (CmdValidate name) = run_validate A name"
| "run_command A (CmdQuery sql a fmt out with_envelope explained v) = run_query A sql a fmt out with_envelope explained v"
| "run_command A (CmdDescribe name a) = run_describe A name a"
| "run_command A CmdList = run_list A"
| "run_command A (CmdPublish name audience revoke) = run_publish A name audience revoke"
| "run_command A (CmdBudget name limit) = run_budget A name limit"
| "run_command A (CmdFunctionRegister m man own) = run_function_register A m man own"
| "run_command A CmdFunctionList = run_function_list A"

text \<open>\<open>opened\<close> is what \<open>Engine::open\<close> gave; the status of a panic is 101.\<close>

definition exit_status :: "(('r, 'j, 'l) shell, nat) act \<Rightarrow> ('r, 'j, 'l) shell \<Rightarrow> (('r, 'j, 'l) shell \<times> nat) option" where
  "exit_status m s =
     (case m s of
        None \<Rightarrow> None
      | Some (s', Inr code) \<Rightarrow> Some (s', code)
      | Some (s', Inl (Message e)) \<Rightarrow> Some (s'\<lparr>sh_err := sh_err s' @ [''error: '' @ e]\<rparr>, 2)
      | Some (s', Inl Panic) \<Rightarrow> Some (s', 101))"

definition peql_main ::
  "('r, 'v, 'w, 'j, 'l, 'f) cli \<Rightarrow> ((dir_store, 'r) registers \<times> budget_store) res \<Rightarrow> command \<Rightarrow> ('r, 'j, 'l) shell
     \<Rightarrow> (('r, 'j, 'l) shell \<times> nat) option" where
  "peql_main A opened c s =
     exit_status (then_act (act (told opened)) (\<lambda>(E, b) s.
       run_command A c (s\<lparr>sh_registers := E, sh_world := (sh_world s)\<lparr>w_budgets := b\<rparr>\<rparr>))) s"

end
