(* ===== verification/Command_Safety.thy ===== *)
theory Command_Safety
  imports Command_Line
begin

text \<open>
  What the command line promises: its status says what became of the command, a refused query prints and writes
  nothing, and what a write under \<open>exclude\<close> may lose.
\<close>

section \<open>Running a command\<close>

named_theorems act_simps \<open>running the acts of a command\<close>

lemma then_act_act [act_simps]: "then_act (act (Inl e)) f = act (Inl e)" "then_act (act (Inr x)) f = f x"
  by (simp_all add: then_act_def act_def fun_eq_iff)

lemma act_run [act_simps]: "act r s = Some (s, r)"
  by (simp add: act_def)

lemma then_act_run [act_simps]:
  "m s = Some (s', Inr x) \<Longrightarrow> then_act m f s = f x s'" "m s = Some (s', Inl e) \<Longrightarrow> then_act m f s = Some (s', Inl e)"
  by (simp_all add: then_act_def)

lemma then_act_Some:
  "then_act m f s = Some (s', r) \<longleftrightarrow>
     (\<exists>s1 x. m s = Some (s1, Inr x) \<and> f x s1 = Some (s', r)) \<or> (\<exists>e. m s = Some (s', Inl e) \<and> r = Inl e)"
  by (auto simp: then_act_def split: option.splits sum.splits prod.splits)

lemma line_run [act_simps]:
  "print_line t s = Some (s\<lparr>sh_out := sh_out s @ [t]\<rparr>, Inr ())" "note_line t s = Some (s\<lparr>sh_err := sh_err s @ [t]\<rparr>, Inr ())"
  by (simp_all add: print_line_def note_line_def)

lemma engine_run [act_simps]:
  "m (ds_memory (er_store (sh_registers s))) (sh_world s) = Some (w, r) \<Longrightarrow> engine m s = Some (s\<lparr>sh_world := w\<rparr>, Inr r)"
  by (simp add: engine_def)

lemma said_not_panic: "said r \<noteq> Inl Panic" "told r' \<noteq> Inl Panic" "said_of p r \<noteq> Inl Panic"
  by (simp_all add: said_def told_def said_of_def split: sum.split)

text \<open>What a relation between what was and what is keeps, an act and those after it keep.\<close>

definition quiet :: "('s \<Rightarrow> 's \<Rightarrow> bool) \<Rightarrow> ('s, 'a) act \<Rightarrow> bool" where
  "quiet Q m \<longleftrightarrow> (\<forall>s s' r. m s = Some (s', r) \<longrightarrow> Q s s' \<and> r \<noteq> Inl Panic)"

lemma quietD: "quiet Q m \<Longrightarrow> m s = Some (s', r) \<Longrightarrow> Q s s' \<and> r \<noteq> Inl Panic"
  by (auto simp: quiet_def)

lemma quiet_then:
  assumes "transp Q" and "quiet Q m" and "\<And>x. quiet Q (f x)"
  shows "quiet Q (then_act m f)"
  unfolding quiet_def
proof (intro allI impI)
  fix s s' r
  assume "then_act m f s = Some (s', r)"
  then consider s1 x where "m s = Some (s1, Inr x)" "f x s1 = Some (s', r)" | e where "m s = Some (s', Inl e)" "r = Inl e"
    unfolding then_act_Some by blast
  then show "Q s s' \<and> r \<noteq> Inl Panic"
  proof cases
    case 1
    from quietD [OF assms(2) 1(1)] quietD [OF assms(3) 1(2)] assms(1) show ?thesis by (auto dest: transpD)
  next
    case 2
    from quietD [OF assms(2) 2(1)] 2(2) show ?thesis by simp
  qed
qed

lemma quiet_act: "reflp Q \<Longrightarrow> r \<noteq> Inl Panic \<Longrightarrow> quiet Q (act r)"
  by (auto simp: quiet_def act_def dest: reflpD)

lemma quiet_each: "reflp Q \<Longrightarrow> transp Q \<Longrightarrow> (\<And>x. quiet Q (f x)) \<Longrightarrow> quiet Q (each_act f xs)"
  by (induction xs) (simp_all add: quiet_act quiet_then)

text \<open>The same engine and world; and the same outputs besides.\<close>

definition same_engine :: "('r, 'j, 'l) shell \<Rightarrow> ('r, 'j, 'l) shell \<Rightarrow> bool" where
  "same_engine s s' \<longleftrightarrow> sh_registers s' = sh_registers s \<and> sh_world s' = sh_world s"

definition same_data :: "('r, 'j, 'l) shell \<Rightarrow> ('r, 'j, 'l) shell \<Rightarrow> bool" where
  "same_data s s' \<longleftrightarrow> same_engine s s' \<and> sh_files s' = sh_files s \<and> sh_out s' = sh_out s"

lemma same_rel: "reflp same_engine" "transp same_engine" "reflp same_data" "transp same_data"
  by (auto simp: same_engine_def same_data_def intro!: reflpI transpI)

lemma quiet_lines: "quiet same_engine (print_line t)" "quiet same_engine (note_line t)" "quiet same_data (note_line t)"
  by (auto simp: quiet_def line_run same_engine_def same_data_def)

lemma quiet_emit: "quiet same_engine (emit A bs fmt out)"
proof -
  have "quiet same_engine (write_out A p raw)" for p raw
    by (auto simp: quiet_def write_out_def same_engine_def split: option.splits)
  then show ?thesis unfolding emit_def
    by (auto split: option.split intro!: quiet_then quiet_act same_rel said_not_panic quiet_lines)
qed

lemma exit_status_Some:
  "exit_status m s = Some (s', code) \<longleftrightarrow>
     (\<exists>s1. m s = Some (s1, Inr code) \<and> s' = s1)
   \<or> (\<exists>s1 e. m s = Some (s1, Inl (Message e)) \<and> s' = s1\<lparr>sh_err := sh_err s1 @ [''error: '' @ e]\<rparr> \<and> code = 2)
   \<or> (m s = Some (s', Inl Panic) \<and> code = 101)"
  by (auto simp: exit_status_def split: option.splits sum.splits stopped.splits)

section \<open>Queries\<close>

lemma answer_succeeds:
  "then_act m (\<lambda>_. then_act n (\<lambda>_. act (Inr (0 :: nat)))) s = Some (s', Inr code) \<Longrightarrow> code = 0 \<and> (\<exists>s1. m s = Some (s1, Inr ()))"
  for m n :: "('s, unit) act"
  by (auto simp: then_act_Some act_def)

lemma query_outcome:
  assumes "resolve_caller A a = Inr who"
    and "query_as_of (cl_host A) (ds_memory (er_store (sh_registers s))) sql who [] v (sh_world s) = Some (w', r)"
    and "exit_status (run_query A sql a fmt out env False v) s = Some (s', code)"
  shows "sh_world s' = w' \<and> (code = 1 \<longleftrightarrow> (\<exists>e. r = Inl e \<and> is_refusal e)) \<and> code \<in> {0, 1, 2}
   \<and> (isl r \<longrightarrow> sh_out s' = sh_out s \<and> sh_files s' = sh_files s)
   \<and> (code = 0 \<longrightarrow> (\<exists>res s1. r = Inr res \<and> emit A (qr_batches res) fmt out (s\<lparr>sh_world := w'\<rparr>) = Some (s1, Inr ())))"
proof -
  have eng: "engine (\<lambda>g. query_as_of (cl_host A) g sql who [] v) s = Some (s\<lparr>sh_world := w'\<rparr>, Inr r)"
    using assms(2) by (rule engine_run)
  show ?thesis
  proof (cases r)
    case (Inl e)
    with assms(3) eng show ?thesis
      by (cases "is_refusal e") (auto simp: run_query_def assms(1) act_simps exit_status_def)
  next
    case (Inr res)
    let ?rest = "then_act (emit A (qr_batches res) fmt out) (\<lambda>_.
           then_act (if env
               then then_act (act (said (cl_envelope_json A (qr_envelope res)))) note_line
               else each_act (\<lambda>c.
                 then_act (each_act (\<lambda>(rule, n). note_line (''note: `'' @ rs_contract c @ ''` left out '' @ show_nat n
                     @ '' rows that break '' @ rule)) (rs_excluded c)) (\<lambda>_.
                   if rs_annotations c \<noteq> []
                   then note_line (''note: `'' @ rs_contract c @ ''` guarantees not met: '' @ join '', '' (rs_annotations c))
                   else act (Inr ()))) (en_contracts (qr_envelope res))) (\<lambda>_.
             act (Inr 0)))"
    have run: "run_query A sql a fmt out env False v s = ?rest (s\<lparr>sh_world := w'\<rparr>)"
      unfolding run_query_def assms(1) then_act_act if_False
        then_act_run(1) [where m = "engine (\<lambda>g. query_as_of (cl_host A) g sql who [] v)" and s = s, OF eng] Inr sum.case ..
    have q: "quiet same_engine ?rest"
      by (auto intro!: quiet_then quiet_emit quiet_act quiet_each quiet_lines same_rel said_not_panic split: prod.split)
    from assms(3) [unfolded exit_status_Some run] show ?thesis
    proof (elim disjE exE conjE)
      fix s1 assume ok: "?rest (s\<lparr>sh_world := w'\<rparr>) = Some (s1, Inr code)" and s': "s' = s1"
      from quietD [OF q ok] have "sh_world s1 = w'" by (simp add: same_engine_def)
      moreover note answer_succeeds [OF ok]
      ultimately show ?thesis using Inr s' by auto
    next
      fix s1 e assume err: "?rest (s\<lparr>sh_world := w'\<rparr>) = Some (s1, Inl (Message e))"
        and s': "s' = s1\<lparr>sh_err := sh_err s1 @ [''error: '' @ e]\<rparr>" "code = 2"
      from quietD [OF q err] have "sh_world s1 = w'" by (simp add: same_engine_def)
      with Inr s' show ?thesis by simp
    next
      assume "?rest (s\<lparr>sh_world := w'\<rparr>) = Some (s', Inl Panic)"
      from quietD [OF q this] show ?thesis by simp
    qed
  qed
qed


text \<open>
  A plan that is asked for and refused is an error, with the status of every other error, where a refused
  query has its own.
\<close>

theorem refused_explain_is_an_error:
  assumes "resolve_caller A a = Inr who" and "is_refusal e"
    and "explain (cl_host A) (ds_memory (er_store (sh_registers s))) sql who (sh_world s) = Some (w', Inl e)"
  shows "exit_status (run_query A sql a fmt out env True v) s
     = Some (s\<lparr>sh_world := w', sh_err := sh_err s @ [''error: '' @ error_text e]\<rparr>, 2)"
proof -
  have "engine (\<lambda>g. explain (cl_host A) g sql who) s = Some (s\<lparr>sh_world := w'\<rparr>, Inr (Inl e))" using assms(3) by (rule engine_run)
  then show ?thesis by (simp add: run_query_def assms(1) act_simps ask_engine_def told_def exit_status_def)
qed

section \<open>Writes\<close>

lemma each_lines:
  assumes "\<And>x. \<exists>t. f x = print_line t"
  shows "\<exists>s2. each_act f xs s1 = Some (s2, Inr ()) \<and> same_engine s1 s2 \<and> sh_files s2 = sh_files s1"
proof (induction xs arbitrary: s1)
  case (Cons x xs)
  obtain t where t: "f x = print_line t" using assms by blast
  obtain s2 where s2: "each_act f xs (s1\<lparr>sh_out := sh_out s1 @ [t]\<rparr>) = Some (s2, Inr ())"
      "same_engine (s1\<lparr>sh_out := sh_out s1 @ [t]\<rparr>) s2" "sh_files s2 = sh_files s1" using Cons by fastforce
  have "each_act f (x # xs) s1 = Some (s2, Inr ())"
    unfolding each_act.simps t then_act_run(1) [OF line_run(1)] by (rule s2(1))
  with s2(2,3) show ?case by (auto simp: same_engine_def)
qed (simp add: act_def same_engine_def)


section \<open>Descriptions and verdicts\<close>

lemma describe_refusals:
  "describe R g name who = Inl e \<Longrightarrow> is_refusal e \<longleftrightarrow> (\<exists>c r. e = Denied c r) \<or> (\<exists>n. e = UnknownContract n)"
proof (cases "visible g name who")
  case (Inl e')
  moreover assume "describe R g name who = Inl e"
  ultimately show ?thesis by (auto simp: describe_def dest: visible_Inl)
next
  case (Inr reg)
  moreover assume "describe R g name who = Inl e"
  moreover have "\<not> is_refusal (from_runtime x)" "from_runtime x \<noteq> Denied c r" "from_runtime x \<noteq> UnknownContract n" for x c r n
    by (cases x; simp)+
  ultimately show ?thesis
    by (cases "refusal R (contract (r_compilation reg)) who") (auto simp: describe_def Let_def rt_def split: option.splits)
qed

lemma quiet_report: "quiet same_engine (report_write A name v excluded outcome)"
  unfolding report_write_def Let_def
  by (auto intro!: quiet_then quiet_each quiet_lines quiet_emit quiet_act same_rel split: prod.split option.split)

text \<open>
  Statuses tell outcomes: a description ends with 1 exactly when the engine refuses it; a write with 1 only
  when its rows were refused or were committed under a verdict that is not valid, with 0 only when they were
  committed under a valid one, and otherwise with 2.
\<close>

theorem statuses_tell_outcomes:
  assumes "resolve_caller A a = Inr who" and "read_data A input types = Inr (sc, bs)" and "\<not> cl_is_file A c"
    and "engine_write (cl_host A) (cl_write A) (ds_memory (er_store (sh_registers s))) (cl_uuid A) c bs (\<not> app) v (sh_world s)
       = Some (w', r)"
    and "exit_status (run_write A c input app v excluded types) s = Some (s1, code1)"
    and "exit_status (run_describe A name a) s = Some (s2, code2)"
  shows "(code2 = 1 \<longleftrightarrow> (\<exists>e. describe (h_runtime (cl_host A)) (ds_memory (er_store (sh_registers s))) name who = Inl e \<and> is_refusal e))
   \<and> (code1 = 1 \<longrightarrow> (\<exists>ct vs. r = Inl (Violated ct vs)) \<or> (\<exists>rep x. r = Inr (rep, x) \<and> \<not> v_valid (dv_verdict (rp_verdict rep))))
   \<and> (code1 = 0 \<longrightarrow> (\<exists>rep x. r = Inr (rep, x) \<and> v_valid (dv_verdict (rp_verdict rep))))
   \<and> code1 \<in> {0, 1, 2} \<and> code2 \<in> {0, 1, 2} \<and> sh_world s1 = w' \<and> sh_world s2 = sh_world s"
proof -
  let ?g = "ds_memory (er_store (sh_registers s))"
  let ?d = "describe (h_runtime (cl_host A)) ?g name who"
  have eng: "engine (\<lambda>g. lift (describe (h_runtime (cl_host A)) g name who)) s = Some (s, Inr ?d)"
    by (simp add: engine_def lift_def)
  have descr: "(code2 = 1 \<longleftrightarrow> (\<exists>e. ?d = Inl e \<and> is_refusal e)) \<and> code2 \<in> {0, 1, 2} \<and> sh_world s2 = sh_world s"
  proof (cases ?d)
    case (Inl e)
    note ref = describe_refusals [OF Inl]
    show ?thesis
    proof (cases "is_refusal e")
      case True
      with ref assms(6) eng Inl show ?thesis by (auto simp: run_describe_def assms(1) act_simps exit_status_def)
    next
      case False
      with ref have "run_describe A name a s = Some (s, Inl (Message (error_text e)))"
        using eng Inl by (cases e) (auto simp: run_describe_def assms(1) act_simps)
      with assms(6) False Inl show ?thesis by (auto simp: exit_status_def)
    qed
  next
    case (Inr fs)
    define rest :: "(('a, 'd, 'e) shell, nat) act"
      where "rest = then_act (each_act (\<lambda>f. print_line (padded 24 (field_name f) @ '' '' @ cl_type_text A (field_type f))) fs)
        (\<lambda>_. act (Inr 0))"
    have "run_describe A name a s = rest s"
      unfolding run_describe_def assms(1) then_act_act rest_def
        then_act_run(1) [where m = "engine (\<lambda>g. lift (describe (h_runtime (cl_host A)) g name who))" and s = s, OF eng] Inr sum.case ..
    with assms(6) have ex: "exit_status rest s = Some (s2, code2)" by (simp add: exit_status_def)
    have q: "quiet same_engine rest" unfolding rest_def by (intro quiet_then quiet_each quiet_lines quiet_act same_rel) simp
    have ok: "rest s = Some (s', Inr k) \<Longrightarrow> k = 0" for s' k by (auto simp: rest_def then_act_Some act_def)
    have fin: "rest s = Some (s', x) \<Longrightarrow> sh_world s' = sh_world s \<and> x \<noteq> Inl Panic \<and> (\<forall>k. x = Inr k \<longrightarrow> k = 0)" for s' x
      using quietD [OF q] ok by (auto simp: same_engine_def)
    from ex [unfolded exit_status_Some] Inr show ?thesis by (elim disjE exE conjE) (auto dest!: fin)
  qed
  have wr: "run_write A c input app v excluded types s =
      (case r of Inr outcome \<Rightarrow> report_write A c v excluded outcome (s\<lparr>sh_world := w'\<rparr>)
       | Inl (Violated ct vs) \<Rightarrow> then_act (note_line (''refused: '' @ error_text (Violated ct vs))) (\<lambda>_. act (Inr 1)) (s\<lparr>sh_world := w'\<rparr>)
       | Inl e \<Rightarrow> Some (s\<lparr>sh_world := w'\<rparr>, Inl (Message (error_text e))))"
    using engine_run [where m = "\<lambda>g. engine_write (cl_host A) (cl_write A) g (cl_uuid A) c bs (\<not> app) v", OF assms(4)]
    by (simp add: run_write_def assms(2,3) write_name_def act_simps split: sum.split peql_error.split)
  have report: "report_write A c v excluded outcome s' = Some (s'', Inr k) \<Longrightarrow> k = verdict_code (rp_verdict (fst outcome))"
    for s' s'' k outcome by (auto simp: report_write_def Let_def then_act_Some act_def)
  have wrote: "(code1 = 1 \<longrightarrow> (\<exists>ct vs. r = Inl (Violated ct vs)) \<or> (\<exists>rep x. r = Inr (rep, x) \<and> \<not> v_valid (dv_verdict (rp_verdict rep))))
   \<and> (code1 = 0 \<longrightarrow> (\<exists>rep x. r = Inr (rep, x) \<and> v_valid (dv_verdict (rp_verdict rep)))) \<and> code1 \<in> {0, 1, 2} \<and> sh_world s1 = w'"
  proof (cases r)
    case (Inl e)
    with assms(5) wr show ?thesis by (cases e) (auto simp: exit_status_def act_simps)
  next
    case (Inr outcome)
    obtain rep x where o': "outcome = (rep, x)" by (cases outcome)
    have fin: "sh_world s'' = sh_world s' \<and> y \<noteq> Inl Panic \<and> (\<forall>k. y = Inr k \<longrightarrow> k = verdict_code (rp_verdict rep))"
      if h: "report_write A c v excluded (rep, x) s' = Some (s'', y)" for s' s'' y
    proof -
      have "k = verdict_code (rp_verdict rep)" if "y = Inr k" for k using report [OF h [unfolded that]] by simp
      with quietD [OF quiet_report h] show ?thesis by (simp add: same_engine_def)
    qed
    from assms(5) [unfolded exit_status_Some wr Inr sum.case o'] Inr [unfolded o'] show ?thesis
      by (elim disjE exE conjE) (drule fin, force simp: verdict_code_def split: if_splits)+
  qed
  from descr wrote show ?thesis by blast
qed

end
