(* ===== verification/Command_Example.thy ===== *)
theory Command_Example
  imports Command_Safety Registration_Example Write_Example
begin

text \<open>A command line over the engine of the other examples: the properties of commands where their hypotheses hold.\<close>

definition ex_cli :: "(fn_entry list, unit, unit, ex_json, ex_cache, batch list) cli" where
  "ex_cli = \<lparr>cl_host = ex_host, cl_write = ex_write_api 0, cl_uuid = ''id'', cl_parcel = ex_parcel, cl_registry = ex_fn_api,
     cl_codec = ex_fn_codec, cl_store = ex_store_codec, cl_put_error = None, cl_index = Saved, cl_mkdir_error = None,
     cl_module = Saved, cl_record = Saved, cl_is_file = (\<lambda>p. False), cl_text = (\<lambda>p. Inr p), cl_bytes = (\<lambda>p. Inr p),
     cl_yaml_caller = (\<lambda>t. Inl ''no caller''), cl_yaml_manifest = (\<lambda>t. Inl ''no manifest''), cl_type_name = (\<lambda>t. Inr TUtf8),
     cl_infer_csv = (\<lambda>p. Inl ''no csv''), cl_csv = (\<lambda>p s. Inl ''no csv''), cl_parquet = (\<lambda>p. Inr (batch_schema ex_two, Inr [ex_two])),
     cl_format = ex_format, cl_table = (\<lambda>bs. Inr ''table''), cl_write_error = (\<lambda>p. if p = ''full'' then Some ''disk full'' else None),
     cl_stdout_error = None, cl_verdict_json = (\<lambda>v. Inr ''verdict''), cl_envelope_json = (\<lambda>e. Inr ''envelope''),
     cl_type_text = (\<lambda>t. ''type''), cl_time_text = (\<lambda>t. ''now''), cl_f64_text = (\<lambda>x. ''1''), cl_fn_version = (\<lambda>e. 1),
     cl_fn_signature = (\<lambda>e. None)\<rparr>"

lemma ex_cli_simps:
  "cl_host ex_cli = ex_host" "cl_write ex_cli = ex_write_api 0" "cl_uuid ex_cli = ''id''" "\<not> cl_is_file ex_cli p"
  "cl_format ex_cli = ex_format" "cl_write_error ex_cli ''full'' = Some ''disk full''"
  "cl_parquet ex_cli p = Inr (batch_schema ex_two, Inr [ex_two])"
  unfolding ex_cli_def cli.simps by (simp_all only: refl HOL.simp_thms if_True)

definition ex_shell :: "(fn_entry list, ex_json, ex_cache) shell" where
  "ex_shell = \<lparr>sh_registers = \<lparr>er_store = \<lparr>ds_dir = [], ds_memory = ex_contents, ds_stale = []\<rparr>, er_functions = fst ex_run,
       er_documents = Map.empty\<rparr>, sh_world = ex_world, sh_files = Map.empty, sh_out = [], sh_err = []\<rparr>"

lemma ex_shell_simps: "ds_memory (er_store (sh_registers ex_shell)) = ex_contents" "sh_world ex_shell = ex_world" "sh_out ex_shell = []"
  by (simp_all add: ex_shell_def)

definition ex_as :: caller_args where
  "ex_as = \<lparr>ca_file = None, ca_tenant = Some ''u'', ca_purpose = Some ''research'', ca_id = Some ''alice'', ca_roles = [],
     ca_clearance = None, ca_tier = None, ca_classification = None, ca_now = Some 0\<rparr>"

lemma ex_as_caller: "resolve_caller ex_cli ex_as = Inr ex_caller"
  by (simp add: resolve_caller_def ex_as_def default_caller_def given_def ex_caller_def)


theorem refused_explain_is_an_error_witness:
  "\<exists>s'. exit_status (run_query ex_cli ''explain'' ex_as OutTable None False True RExclude) ex_shell = Some (s', 2)"
proof -
  have "explain ex_host ex_contents ''explain'' ex_caller ex_world = Some (ex_world, Inl (Refused ''EXPLAIN''))"
    by (simp add: explain_def prepare_def then_do_def lift_def check_sql_def ex_host_simps)
  then have "explain (cl_host ex_cli) (ds_memory (er_store (sh_registers ex_shell))) ''explain'' ex_caller (sh_world ex_shell)
      = Some (ex_world, Inl (Refused ''EXPLAIN''))" by (simp only: ex_cli_simps ex_shell_simps)
  from refused_explain_is_an_error [OF ex_as_caller _ this] show ?thesis by fastforce
qed


theorem statuses_tell_outcomes_witness:
  "\<exists>s1 s2. exit_status (run_write ex_cli ''t/none'' ''in.parquet'' False WWarn None []) ex_shell = Some (s1, 2)
     \<and> exit_status (run_describe ex_cli ''t/none'' ex_as) ex_shell = Some (s2, 1)"
proof -
  have none: "mem_current ex_contents ''t/none'' = None"
    by (simp add: mem_current_def ex_contents_def mem_put_def empty_contents_def bt_update_def bt_get_or_def reg_name_def
        ex_contract_simps ex_registered_def)
  have rd: "read_data ex_cli ''in.parquet'' [] = Inr (batch_schema ex_two, [ex_two])"
  proof -
    have "path_extension ''in.parquet'' \<noteq> Some ''csv''" by code_simp
    then show ?thesis by (simp add: read_data_def ex_cli_simps said_def said_of_def)
  qed
  have wr: "engine_write (cl_host ex_cli) (cl_write ex_cli) (ds_memory (er_store (sh_registers ex_shell))) (cl_uuid ex_cli) ''t/none''
      [ex_two] (\<not> False) WWarn (sh_world ex_shell) = Some (ex_world, Inl (UnknownContract ''t/none''))"
    by (simp add: engine_write_def begin_write_def begin_writing_def ex_cli_simps ex_shell_simps ex_host_simps get_contract_def none
        ok_or_def then_do_def lift_def)
  have de: "describe (h_runtime (cl_host ex_cli)) (ds_memory (er_store (sh_registers ex_shell))) ''t/none'' ex_caller
      = Inl (UnknownContract ''t/none'')"
    by (simp add: describe_def visible_def ex_shell_simps none)
  obtain s1 c1 where w: "exit_status (run_write ex_cli ''t/none'' ''in.parquet'' False WWarn None []) ex_shell = Some (s1, c1)"
    using engine_run [where m = "\<lambda>g. engine_write (cl_host ex_cli) (cl_write ex_cli) g (cl_uuid ex_cli) ''t/none'' [ex_two] (\<not> False) WWarn"
        and s = ex_shell, OF wr]
    by (simp add: run_write_def rd write_name_def ex_cli_simps(4) act_simps exit_status_def)
  obtain s2 c2 where d: "exit_status (run_describe ex_cli ''t/none'' ex_as) ex_shell = Some (s2, c2)"
    using engine_run [where m = "\<lambda>g. lift (describe (h_runtime (cl_host ex_cli)) g ''t/none'' ex_caller)" and s = ex_shell]
    by (simp add: run_describe_def ex_as_caller act_simps exit_status_def lift_def de)
  from statuses_tell_outcomes [OF ex_as_caller rd ex_cli_simps(4) wr w d] de have "c1 = 2" "c2 = 1" by auto
  with w d show ?thesis by blast
qed

end
