(* ===== verification/Catalogs.thy ===== *)
theory Catalogs
  imports Commits
begin

text \<open>
  The catalog an overwrite or a rewrite commits through (\<open>Pinned\<close> of \<open>src/iceberg_table.rs\<close>), as a catalog: it is
  the caller's in every call but loading its table, which gives the base, and committing, whose refusal it makes
  final. The caller's catalog, of any state, is a parameter.
\<close>

section \<open>A catalog\<close>

datatype 'm catalog_call =
    ListNamespaces "string option"
  | CreateNamespace string "(string \<times> string) list"
  | GetNamespace string
  | NamespaceExists string
  | UpdateNamespace string "(string \<times> string) list"
  | DropNamespace string
  | ListTables string
  | CreateTable string string
  | LoadTable string
  | DropTable string
  | PurgeTable string
  | TableExists string
  | RenameTable string string
  | RegisterTable string string
  | UpdateTable string 'm

datatype 'x catalog_reply = TableReply ice_table | OtherReply 'x

text \<open>The crate's error, and whether the crate may try again after it.\<close>

record catalog_error =
  ce_error :: ice_error
  ce_retryable :: bool

type_synonym ('c, 'm, 'x) catalog = "'m catalog_call \<Rightarrow> 'c \<Rightarrow> 'c \<times> (catalog_error + 'x catalog_reply)"

definition raised :: "ice_error \<Rightarrow> catalog_error" where
  "raised e = \<lparr>ce_error = e, ce_retryable = False\<rparr>"

fun is_conflict :: "ice_error \<Rightarrow> bool" where
  "is_conflict (CommitConflicts m) = True"
| "is_conflict (OtherIce m) = False"

section \<open>The pinned catalog\<close>

record pinned =
  pd_table :: string
  pd_base :: "int option"
  pd_as_base :: ice_table
  pd_write :: string

definition pinned_load_table :: "lake_api \<Rightarrow> pinned \<Rightarrow> ('c, 'm, 'x) catalog \<Rightarrow> string \<Rightarrow> 'c \<Rightarrow> 'c \<times> (catalog_error + 'x catalog_reply)" where
  "pinned_load_table A P inner k c =
     (case inner (LoadTable k) c of
        (c', Inr (TableReply t)) \<Rightarrow>
          (c', if k \<noteq> pd_table P then Inr (TableReply t)
               else case pinned_load A k (pd_write P) (pd_base P) (pd_as_base P) (Inr (Some t)) of
                   Inl e \<Rightarrow> Inl (raised e) | Inr b \<Rightarrow> Inr (TableReply b))
      | r \<Rightarrow> r)"

definition pinned_update_table :: "('c, 'm, 'x) catalog \<Rightarrow> string \<Rightarrow> 'm \<Rightarrow> 'c \<Rightarrow> 'c \<times> (catalog_error + 'x catalog_reply)" where
  "pinned_update_table inner k m c =
     (case inner (UpdateTable k m) c of
        (c', Inl e) \<Rightarrow> (c', Inl (if is_conflict (ce_error e) then e\<lparr>ce_retryable := False\<rparr> else e))
      | r \<Rightarrow> r)"

definition pinned_catalog :: "lake_api \<Rightarrow> pinned \<Rightarrow> ('c, 'm, 'x) catalog \<Rightarrow> ('c, 'm, 'x) catalog" where
  "pinned_catalog A P inner call =
     (case call of
        LoadTable k \<Rightarrow> pinned_load_table A P inner k
      | UpdateTable k m \<Rightarrow> pinned_update_table inner k m
      | _ \<Rightarrow> inner call)"

text \<open>A sequence of calls, whatever each gave.\<close>

fun calls :: "('c, 'm, 'x) catalog \<Rightarrow> 'm catalog_call list \<Rightarrow> 'c \<Rightarrow> 'c" where
  "calls cat [] c = c"
| "calls cat (call # rest) c = calls cat rest (fst (cat call c))"

section \<open>Properties\<close>

lemma pinned_state: "fst (pinned_catalog A P inner call c) = fst (inner call c)"
  by (cases call)
    (auto simp: pinned_catalog_def pinned_load_table_def pinned_update_table_def split: prod.split sum.split catalog_reply.split)

lemma pinned_load_Inr:
  "pinned_load A k write base as_base (Inr (Some t)) = Inr b \<longleftrightarrow> b = as_base \<and> it_current t = base \<and> it_uuid t = it_uuid as_base"
  by (auto simp: pinned_load_def)

text \<open>
  Through the pinned catalog, whatever is called in whatever order, the caller's catalog comes to what it
  would without it. Its table is only ever loaded as the base, and only while the catalog has the table the base
  was made of at the snapshot it was made over; and no refused commit is one the crate may try again by itself.
\<close>

theorem pinned_catalog_is_the_callers:
  "calls (pinned_catalog A P inner) rest c = calls inner rest c
   \<and> (pinned_catalog A P inner (LoadTable (pd_table P)) c = (c1, Inr (TableReply b)) \<longrightarrow>
        b = pd_as_base P \<and> (\<exists>t. inner (LoadTable (pd_table P)) c = (c1, Inr (TableReply t))
          \<and> it_current t = pd_base P \<and> it_uuid t = it_uuid (pd_as_base P)))
   \<and> (pinned_catalog A P inner (UpdateTable k m) c = (c2, Inl e) \<longrightarrow> is_conflict (ce_error e) \<longrightarrow> \<not> ce_retryable e)"
proof (intro conjI impI)
  show "calls (pinned_catalog A P inner) rest c = calls inner rest c"
    by (induction rest arbitrary: c) (simp_all add: pinned_state)
next
  assume "pinned_catalog A P inner (LoadTable (pd_table P)) c = (c1, Inr (TableReply b))"
  then show "b = pd_as_base P" and "\<exists>t. inner (LoadTable (pd_table P)) c = (c1, Inr (TableReply t))
      \<and> it_current t = pd_base P \<and> it_uuid t = it_uuid (pd_as_base P)"
    by (auto simp: pinned_catalog_def pinned_load_table_def pinned_load_Inr split: prod.splits sum.splits catalog_reply.splits)
next
  assume "pinned_catalog A P inner (UpdateTable k m) c = (c2, Inl e)" and "is_conflict (ce_error e)"
  then show "\<not> ce_retryable e"
    by (auto simp: pinned_catalog_def pinned_update_table_def split: prod.splits sum.splits if_splits)
qed

end
