(* ===== verification/Gate_Nodes.thy ===== *)
theory Gate_Nodes
  imports Gate
begin

text \<open>
  The gate as a node of DataFusion's plans (\<open>src/gate.rs\<close>): the logical node's equality, order and hash, what the
  optimiser may do with it, the physical operators' properties, and which physical filters cross them. DataFusion's
  own operators, what they make of the filters above them and their properties are parameters.
\<close>

section \<open>The logical node\<close>

record gate_node =
  gn_contract :: string
  gn_hash :: string
  gn_input :: lplan

text \<open>\<open>Gate::plan\<close>.\<close>

definition gate_plan :: "string \<Rightarrow> string \<Rightarrow> lplan \<Rightarrow> lplan" where
  "gate_plan c h i = LGate c h i"

definition gate_eq :: "gate_node \<Rightarrow> gate_node \<Rightarrow> bool" where
  "gate_eq a b \<longleftrightarrow> gn_contract a = gn_contract b \<and> gn_hash a = gn_hash b \<and> gn_input a = gn_input b"

text \<open>A hasher is fed the three fields in turn.\<close>

definition gate_hashed :: "(string \<Rightarrow> 's \<Rightarrow> 's) \<Rightarrow> (lplan \<Rightarrow> 's \<Rightarrow> 's) \<Rightarrow> gate_node \<Rightarrow> 's \<Rightarrow> 's" where
  "gate_hashed text plan a = plan (gn_input a) \<circ> text (gn_hash a) \<circ> text (gn_contract a)"

datatype gate_ordering = Less | Equal | Greater

fun compare_text :: "string \<Rightarrow> string \<Rightarrow> gate_ordering" where
  "compare_text [] [] = Equal"
| "compare_text [] (_ # _) = Less"
| "compare_text (_ # _) [] = Greater"
| "compare_text (a # as) (b # bs) =
     (if (of_char a :: nat) < of_char b then Less else if (of_char b :: nat) < of_char a then Greater else compare_text as bs)"

definition gate_partial_cmp :: "'z gate_node_scheme \<Rightarrow> 'z gate_node_scheme \<Rightarrow> gate_ordering option" where
  "gate_partial_cmp a b =
     Some (case compare_text (gn_contract a) (gn_contract b) of
         Equal \<Rightarrow> compare_text (gn_hash a) (gn_hash b)
       | x \<Rightarrow> x)"

text \<open>\<open>with_exprs_and_inputs\<close>: \<open>None\<close> is the panic of \<open>swap_remove\<close> when there is no input.\<close>

definition with_exprs_and_inputs :: "gate_node \<Rightarrow> expr list \<Rightarrow> lplan list \<Rightarrow> gate_node option" where
  "with_exprs_and_inputs a es inputs = (case inputs of [] \<Rightarrow> None | i # _ \<Rightarrow> Some (a\<lparr>gn_input := i\<rparr>))"

definition necessary_children_exprs :: "gate_node \<Rightarrow> nat list \<Rightarrow> nat list list option" where
  "necessary_children_exprs a output_columns = Some [output_columns]"

definition gate_inputs :: "gate_node \<Rightarrow> lplan list" where
  "gate_inputs a = [gn_input a]"

definition gate_expressions :: "gate_node \<Rightarrow> expr list" where
  "gate_expressions a = []"

definition gate_explained :: "gate_node \<Rightarrow> string" where
  "gate_explained a = ''Gate: contract='' @ gn_contract a"

section \<open>The physical operators' properties\<close>

text \<open>What DataFusion's own operators are: their properties over their inputs', and their two flags.\<close>

record 'p plan_operators =
  op_properties :: "string \<Rightarrow> 'p list \<Rightarrow> 'p"
  op_maintains :: "string \<Rightarrow> bool list"
  op_benefits :: "string \<Rightarrow> bool list"

fun plan_children :: "pplan \<Rightarrow> pplan list" where
  "plan_children (PGate c h i) = [i]"
| "plan_children (PScan c i) = [i]"
| "plan_children (PNode l ps) = ps"

text \<open>\<open>GateExec::new\<close> and \<open>ScanExec::new\<close> take their input's properties.\<close>

fun plan_properties :: "'p plan_operators \<Rightarrow> pplan \<Rightarrow> 'p" where
  "plan_properties O1 (PGate c h i) = plan_properties O1 i"
| "plan_properties O1 (PScan c i) = plan_properties O1 i"
| "plan_properties O1 (PNode l ps) = op_properties O1 l (map (plan_properties O1) ps)"

fun maintains_input_order :: "'p plan_operators \<Rightarrow> pplan \<Rightarrow> bool list" where
  "maintains_input_order O1 (PGate c h i) = [True]"
| "maintains_input_order O1 (PScan c i) = [True]"
| "maintains_input_order O1 (PNode l ps) = op_maintains O1 l"

fun benefits_from_input_partitioning :: "'p plan_operators \<Rightarrow> pplan \<Rightarrow> bool list" where
  "benefits_from_input_partitioning O1 (PGate c h i) = [False]"
| "benefits_from_input_partitioning O1 (PScan c i) = [False]"
| "benefits_from_input_partitioning O1 (PNode l ps) = op_benefits O1 l"

text \<open>\<open>fmt_as\<close> of the two.\<close>

fun plan_text :: "(string \<Rightarrow> string) \<Rightarrow> pplan \<Rightarrow> string" where
  "plan_text t (PGate c h i) = ''GateExec: contract='' @ c"
| "plan_text t (PScan c i) = ''ScanExec: contract='' @ c"
| "plan_text t (PNode l ps) = t l"

section \<open>Physical filters\<close>

text \<open>
  The filters an operator is offered from above, and those each of its inputs is offered in turn. A gate leaves the
  trait's default in place, which offers its input none; \<open>ScanExec\<close> offers those whose columns its input has
  (\<open>FilterDescription::from_children\<close>); every other operator is DataFusion's, and may add filters of its own.
\<close>

record 'f pushdown =
  pd_fits :: "pplan \<Rightarrow> 'f \<Rightarrow> bool"
  pd_gather :: "string \<Rightarrow> pplan list \<Rightarrow> 'f list \<Rightarrow> 'f list list"

fun gather_filters :: "'f pushdown \<Rightarrow> pplan \<Rightarrow> 'f list \<Rightarrow> 'f list list" where
  "gather_filters P (PGate c h i) fs = [[]]"
| "gather_filters P (PScan c i) fs = [filter (pd_fits P i) fs]"
| "gather_filters P (PNode l ps) fs = pd_gather P l ps fs"

text \<open>\<open>FilterPushdownPropagation::if_all\<close>: a filter is taken over when every input took it.\<close>

definition handled_filters :: "bool list list \<Rightarrow> bool list" where
  "handled_filters results = map (list_all id) results"

text \<open>The filters that reach each scan of contract data.\<close>

function reaching :: "'f pushdown \<Rightarrow> 'f list \<Rightarrow> pplan \<Rightarrow> (string \<times> 'f list) list" where
  "reaching P fs (PGate c h i) = reaching P (hd (gather_filters P (PGate c h i) fs)) i"
| "reaching P fs (PScan c i) =
     (c, hd (gather_filters P (PScan c i) fs)) # reaching P (hd (gather_filters P (PScan c i) fs)) i"
| "reaching P fs (PNode l ps) =
     concat (map (\<lambda>(k, p). reaching P k p) (zip (gather_filters P (PNode l ps) fs) ps))"
  by pat_completeness auto
termination
  by (relation "measure (\<lambda>(P, fs, p). size p)") (auto dest!: set_zip_rightD simp: less_Suc_eq_le intro: size_list_estimation')

text \<open>One list of filters for each input.\<close>

definition gather_law :: "'f pushdown \<Rightarrow> bool" where
  "gather_law P \<longleftrightarrow> (\<forall>l ps fs. length (pd_gather P l ps fs) = length ps)"

section \<open>What the optimiser does\<close>

text \<open>A rule at every operator, inputs first, as DataFusion's physical optimiser applies one.\<close>

fun rewritten_plan :: "(pplan \<Rightarrow> pplan) \<Rightarrow> pplan \<Rightarrow> pplan" where
  "rewritten_plan f (PGate c h i) = f (with_new_children (PGate c h i) [rewritten_plan f i])"
| "rewritten_plan f (PScan c i) = f (with_new_children (PScan c i) [rewritten_plan f i])"
| "rewritten_plan f (PNode l ps) = f (with_new_children (PNode l ps) (map (rewritten_plan f) ps))"

text \<open>The plan without peQL's operators, and the inputs of its outermost gates.\<close>

fun plain :: "pplan \<Rightarrow> pplan" where
  "plain (PGate c h i) = plain i"
| "plain (PScan c i) = plain i"
| "plain (PNode l ps) = PNode l (map plain ps)"

fun gated_inputs :: "pplan \<Rightarrow> pplan list" where
  "gated_inputs (PGate c h i) = [i]"
| "gated_inputs (PScan c i) = gated_inputs i"
| "gated_inputs (PNode l ps) = concat (map gated_inputs ps)"

section \<open>Lemmas\<close>

lemma compare_text_Equal: "compare_text a b = Equal \<longleftrightarrow> a = b"
  by (induction a b rule: compare_text.induct) (auto simp: not_less_iff_gr_or_eq)

lemma compare_text_order: "compare_text a b = Less \<longleftrightarrow> a < b" "compare_text a b = Greater \<longleftrightarrow> b < a"
  by (induction a b rule: compare_text.induct) (auto simp: less_char_def of_char_eq_iff)

lemma partial_cmp_Equal: "gate_partial_cmp a b = Some Equal \<longleftrightarrow> gn_contract a = gn_contract b \<and> gn_hash a = gn_hash b"
  by (simp add: gate_partial_cmp_def compare_text_Equal [symmetric] split: gate_ordering.split)

text \<open>
  Compared so, gates are preordered: by contract and then by hash, in every pair. They are not ordered, since
  gates over different inputs are each below the other.
\<close>

lemma partial_cmp_order:
  "gate_partial_cmp a b = Some Less \<longleftrightarrow> gn_contract a < gn_contract b \<or> gn_contract a = gn_contract b \<and> gn_hash a < gn_hash b"
  "gate_partial_cmp a b = Some Greater \<longleftrightarrow> gn_contract b < gn_contract a \<or> gn_contract a = gn_contract b \<and> gn_hash b < gn_hash a"
  using compare_text_order [of "gn_contract a" "gn_contract b"] compare_text_order [of "gn_hash a" "gn_hash b"]
    compare_text_Equal [of "gn_contract a" "gn_contract b"]
  by (auto simp: gate_partial_cmp_def split: gate_ordering.split)

instantiation gate_node_ext :: (type) preorder
begin

definition less_gate_node_ext :: "'a gate_node_scheme \<Rightarrow> 'a gate_node_scheme \<Rightarrow> bool" where
  "less_gate_node_ext a b \<longleftrightarrow> gate_partial_cmp a b = Some Less"

definition less_eq_gate_node_ext :: "'a gate_node_scheme \<Rightarrow> 'a gate_node_scheme \<Rightarrow> bool" where
  "less_eq_gate_node_ext a b \<longleftrightarrow> gate_partial_cmp a b \<noteq> Some Greater"

instance
  by standard (auto simp: less_gate_node_ext_def less_eq_gate_node_ext_def partial_cmp_order)

end

lemma concat_zip:
  assumes "length ks = length ps" and "\<And>k p. p \<in> set ps \<Longrightarrow> f k p = g p"
  shows "concat (map (\<lambda>(k, p). f k p) (zip ks ps)) = concat (map g ps)"
  using assms
proof (induction ks ps rule: list_induct2)
  case (Cons k ks p ps)
  have "f k p = g p" using Cons.prems by simp
  moreover have "concat (map (\<lambda>(k, p). f k p) (zip ks ps)) = concat (map g ps)" using Cons by simp
  ultimately show ?case by simp
qed simp

lemma gated_flat: "concat (map (\<lambda>q. concat (map f (g q))) ps) = concat (map f (concat (map g ps)))"
  by (induction ps) simp_all

section \<open>Properties\<close>

text \<open>
  C3. No filter from above a gate reaches contract data in the physical plan: in a plan that passes the proof, the
  filters that reach the scans are those of each outermost gate's input with nothing offered from above it,
  whatever the caller's plan offers and adds there.
\<close>

theorem gates_stop_physical_filters:
  assumes "gather_law P" and "ensure_gated p = Inr ()"
  shows "reaching P fs p = concat (map (reaching P []) (gated_inputs p))"
  using assms(2) unfolding ensure_gated_def
proof (induction p arbitrary: fs)
  case (PNode l ps)
  have "\<forall>q \<in> set ps. walk None q = Inr ()" using PNode.prems unfolding walk_node .
  with PNode.IH have each: "q \<in> set ps \<Longrightarrow> reaching P k q = concat (map (reaching P []) (gated_inputs q))" for k q by simp
  have "reaching P fs (PNode l ps) = concat (map (\<lambda>q. concat (map (reaching P []) (gated_inputs q))) ps)"
    using assms(1) each by (simp add: gather_law_def concat_zip)
  then show ?case by (simp add: gated_flat)
qed simp_all

text \<open>
  A physical rule that never moves a scan out of its gate leaves a plan that passes the proof one that passes
  it, applied at every operator: rebuilding a gate or a marked scan over new inputs keeps its contract.
\<close>

theorem rewrites_keep_the_proof:
  assumes "\<And>g n. walk g n = Inr () \<Longrightarrow> walk g (f n) = Inr ()" and "ensure_gated p = Inr ()"
  shows "ensure_gated (rewritten_plan f p) = Inr () \<and> (\<forall>k c. reads None (rewritten_plan f p) k c \<longrightarrow> k = Some c)"
proof -
  have "walk g p = Inr () \<Longrightarrow> walk g (rewritten_plan f p) = Inr ()" for g
  proof (induction p arbitrary: g)
    case (PGate c h i)
    then have "walk g (PGate c h (rewritten_plan f i)) = Inr ()" by simp
    then show ?case by (simp add: assms(1))
  next
    case (PScan c i)
    then have "walk g (PScan c (rewritten_plan f i)) = Inr ()" by (simp split: if_splits)
    then show ?case using assms(1) [of g "PScan c (rewritten_plan f i)"] by simp
  next
    case (PNode l ps)
    then have "walk g (PNode l (map (rewritten_plan f) ps)) = Inr ()" unfolding walk_node by auto
    then show ?case using assms(1) [of g "PNode l (map (rewritten_plan f) ps)"] by simp
  qed
  from this [of None] assms(2) have "walk None (rewritten_plan f p) = Inr ()" by (simp add: ensure_gated_def)
  then show ?thesis by (simp add: ensure_gated_def walk_iff)
qed

text \<open>
  Gates and marked scans change nothing the planner decides by: a plan has the properties of the plan
  without them.
\<close>

theorem own_operators_are_transparent: "plan_properties O1 p = plan_properties O1 (plain p)"
proof (induction p)
  case (PNode l ps)
  then show ?case by (simp cong: map_cong)
qed simp_all

text \<open>
  The order of gates is not that of their equality: gates compare as equal exactly when their contract and
  hash are, and two that differ in their input only compare as equal and are not.
\<close>

theorem gate_order_disagrees:
  "(gate_partial_cmp a b = Some Equal \<longleftrightarrow> gn_contract a = gn_contract b \<and> gn_hash a = gn_hash b)
   \<and> (gate_eq a b \<longrightarrow> gate_partial_cmp a b = Some Equal \<and> gate_hashed t q a = gate_hashed t q b)
   \<and> (i \<noteq> gn_input a \<longrightarrow> a \<le> a\<lparr>gn_input := i\<rparr> \<and> a\<lparr>gn_input := i\<rparr> \<le> a \<and> \<not> gate_eq a (a\<lparr>gn_input := i\<rparr>))"
  by (auto simp: partial_cmp_Equal gate_eq_def gate_hashed_def less_eq_gate_node_ext_def partial_cmp_order)

section \<open>A concrete plan\<close>

text \<open>Every operator hands all it is offered to each input; filters are texts.\<close>

definition ex_pushdown :: "string pushdown" where
  "ex_pushdown = \<lparr>pd_fits = (\<lambda>p f. True), pd_gather = (\<lambda>l ps fs. map (\<lambda>_. l # fs) ps)\<rparr>"

definition ex_gated_physical :: pplan where
  "ex_gated_physical = PNode ''Join'' [PGate ''t/c'' ''k1'' (PNode ''Filter'' [PScan ''t/c'' (PNode ''Parquet'' [])]),
     PGate ''t/d'' ''k2'' (PScan ''t/d'' (PNode ''Parquet'' []))]"

lemma ex_gated_physical_ok: "ensure_gated ex_gated_physical = Inr ()"
  unfolding ensure_gated_def ex_gated_physical_def walk_node by (simp add: walk_node del: walk.simps(3))

theorem gates_stop_physical_filters_witness:
  "reaching ex_pushdown [''caller''] ex_gated_physical = [(''t/c'', [''Filter'']), (''t/d'', [])]"
proof -
  have law: "gather_law ex_pushdown" by (simp add: gather_law_def ex_pushdown_def)
  note ok = ex_gated_physical_ok
  have "gated_inputs ex_gated_physical = [PNode ''Filter'' [PScan ''t/c'' (PNode ''Parquet'' [])], PScan ''t/d'' (PNode ''Parquet'' [])]"
    by (simp add: ex_gated_physical_def)
  then show ?thesis unfolding gates_stop_physical_filters [OF law ok] by (simp add: ex_pushdown_def)
qed

text \<open>A rule that puts a batching operator over every operator that is not a gate.\<close>

fun ex_rule :: "pplan \<Rightarrow> pplan" where
  "ex_rule (PGate c h i) = PGate c h i"
| "ex_rule p = PNode ''Coalesce'' [p]"

theorem rewrites_keep_the_proof_witness: "ensure_gated (rewritten_plan ex_rule ex_gated_physical) = Inr ()"
proof -
  have "walk g (ex_rule n) = Inr ()" if "walk g n = Inr ()" for g n
  proof (cases n)
    case (PGate c h i)
    with that show ?thesis by simp
  next
    case (PScan c i)
    then have "walk g (PNode ''Coalesce'' [n]) = Inr ()" using that unfolding walk_node by simp
    with PScan show ?thesis by simp
  next
    case (PNode l ps)
    then have "walk g (PNode ''Coalesce'' [n]) = Inr ()" using that unfolding walk_node [of g "''Coalesce''"] by simp
    with PNode show ?thesis by simp
  qed
  then show ?thesis using rewrites_keep_the_proof [of ex_rule, OF _ ex_gated_physical_ok] by blast
qed

theorem gate_order_disagrees_witness:
  "\<exists>a b. a \<le> b \<and> b \<le> a \<and> \<not> gate_eq a b"
proof -
  define a :: gate_node where "a = \<lparr>gn_contract = ''t/c'', gn_hash = ''k1'', gn_input = LScan ''t/c''\<rparr>"
  have "LOther (KOther ''Empty'') [] [] \<noteq> gn_input a" by (simp add: a_def)
  with gate_order_disagrees [of a a undefined undefined "LOther (KOther ''Empty'') [] []"] show ?thesis by blast
qed

end
