(* ===== verification/Gate_Planning.thy ===== *)
theory Gate_Planning
  imports Gate_Nodes
begin

text \<open>
  From the logical to the physical plan (\<open>src/gate.rs\<close>): the table every view scans, the planner of peQL's sessions,
  and why a plan whose views end in their gates passes the proof, also after the barrier. DataFusion's own planner
  and the tables' own scans are parameters.
\<close>

section \<open>The bound table\<close>

record bound_table =
  bd_contract :: string
  bd_schema :: schema
  bd_supports :: "expr list \<Rightarrow> df_error + bool list"
  bd_scan :: "nat list option \<Rightarrow> expr list \<Rightarrow> nat option \<Rightarrow> df_error + pplan"

definition bound_schema :: "bound_table \<Rightarrow> schema" where
  "bound_schema T = bd_schema T"

definition bound_supports_filters :: "bound_table \<Rightarrow> expr list \<Rightarrow> df_error + bool list" where
  "bound_supports_filters T fs = bd_supports T fs"

definition bound_scan :: "bound_table \<Rightarrow> nat list option \<Rightarrow> expr list \<Rightarrow> nat option \<Rightarrow> df_error + pplan" where
  "bound_scan T wanted fs limit =
     and_then (bd_scan T wanted fs limit) (\<lambda>inner. Inr (bound_table_scan (bd_contract T) inner))"

section \<open>The planner\<close>

text \<open>
  DataFusion's planner: the table behind a scan and what it asks of it, and the operator for every other node over
  the plans of the node's subqueries and inputs.
\<close>

record planner =
  pn_table :: "string \<Rightarrow> bound_table"
  pn_asks :: "string \<Rightarrow> nat list option \<times> expr list \<times> nat option"
  pn_node :: "lplan \<Rightarrow> pplan list \<Rightarrow> df_error + pplan"

fun create_physical_plan :: "planner \<Rightarrow> lplan \<Rightarrow> df_error + pplan" where
  "create_physical_plan D (LScan c) = (case pn_asks D c of (wanted, fs, limit) \<Rightarrow> bound_scan (pn_table D c) wanted fs limit)"
| "create_physical_plan D (LGate c h i) =
     and_then (create_physical_plan D i) (\<lambda>p.
       case plan_extension (LGate c h i) [p] of Some q \<Rightarrow> Inr q | None \<Rightarrow> Inl (DfOther ''no planner for the node''))"
| "create_physical_plan D (LFilter e subs i) =
     and_then (map_res (create_physical_plan D) subs) (\<lambda>qs.
     and_then (create_physical_plan D i) (\<lambda>p. pn_node D (LFilter e subs i) (qs @ [p])))"
| "create_physical_plan D (LOther k es ps) =
     and_then (map_res (create_physical_plan D) ps) (\<lambda>qs. pn_node D (LOther k es ps) qs)"

section \<open>What is relied on\<close>

text \<open>
  A scan asks the table of its contract, whose own operators scan no other contract's data, and an operator of
  DataFusion's brings no scan beside those of its inputs.
\<close>

definition planner_laws :: "planner \<Rightarrow> bool" where
  "planner_laws D \<longleftrightarrow>
     (\<forall>c. bd_contract (pn_table D c) = c)
   \<and> (\<forall>c a fs n inner. bd_scan (pn_table D c) a fs n = Inr inner \<longrightarrow> (\<forall>k d. \<not> reads (Some c) inner k d))
   \<and> (\<forall>n ps p g k c. pn_node D n ps = Inr p \<longrightarrow> reads g p k c \<longrightarrow> (\<exists>q \<in> set ps. reads g q k c))"

text \<open>Every scan of a logical plan stands under its own contract's gate, with no other gate between.\<close>

fun logically_gated :: "string option \<Rightarrow> lplan \<Rightarrow> bool" where
  "logically_gated g (LScan c) \<longleftrightarrow> g = Some c"
| "logically_gated g (LGate c h i) \<longleftrightarrow> logically_gated (Some c) i"
| "logically_gated g (LFilter e subs i) \<longleftrightarrow> (\<forall>s \<in> set subs. logically_gated g s) \<and> logically_gated g i"
| "logically_gated g (LOther k es ps) \<longleftrightarrow> (\<forall>p \<in> set ps. logically_gated g p)"

section \<open>Lemmas\<close>

lemma barrier_node_gated: "logically_gated g n \<Longrightarrow> logically_gated g (barrier_node C n)"
proof (cases "\<exists>p subs c h i. n = LFilter p subs (LGate c h i)")
  case True
  then obtain p subs c h i where n: "n = LFilter p subs (LGate c h i)" by blast
  moreover assume "logically_gated g n"
  ultimately show ?thesis
    by (auto simp: barrier_node_def Let_def split: option.split prod.split)
next
  case False
  then have "barrier_node C n = n" by (auto simp: barrier_node_def split: lplan.splits)
  moreover assume "logically_gated g n"
  ultimately show ?thesis by simp
qed

lemma barrier_gated: "logically_gated g p \<Longrightarrow> logically_gated g (barrier C p)"
  by (induction p arbitrary: g) (auto intro!: barrier_node_gated)

lemma map_res_each: "map_res f xs = Inr ys \<Longrightarrow> y \<in> set ys \<Longrightarrow> \<exists>x \<in> set xs. f x = Inr y"
  by (induction xs arbitrary: ys) (auto simp: and_then_eq_Inr)

lemma planned_reads:
  assumes "planner_laws D"
  shows "create_physical_plan D lp = Inr p \<Longrightarrow> logically_gated g lp \<Longrightarrow> reads g p k c \<Longrightarrow> k = Some c"
proof (induction lp arbitrary: p g)
  case (LScan d)
  obtain a fs n where ask: "pn_asks D d = (a, fs, n)" by (cases "pn_asks D d")
  with LScan.prems(1) assms obtain inner where inner: "bd_scan (pn_table D d) a fs n = Inr inner" "p = PScan d inner"
    by (auto simp: bound_scan_def bound_table_scan_def and_then_eq_Inr planner_laws_def)
  with assms have "\<not> reads (Some d) inner k c" by (auto simp: planner_laws_def)
  with LScan.prems(2,3) inner(2) show ?case by (auto simp: reads_simps)
next
  case (LGate d h i)
  from LGate.prems(1) obtain q where q: "create_physical_plan D i = Inr q" "p = PGate d h q"
    by (auto simp: and_then_eq_Inr plan_extension_def)
  with LGate.IH [OF q(1)] LGate.prems(2,3) show ?case by (simp add: reads_simps)
next
  case (LFilter e subs i)
  from LFilter.prems(1) obtain qs q where qs: "map_res (create_physical_plan D) subs = Inr qs"
    and q: "create_physical_plan D i = Inr q" and p: "pn_node D (LFilter e subs i) (qs @ [q]) = Inr p"
    by (auto simp: and_then_eq_Inr)
  from assms p LFilter.prems(3) obtain r where r: "r \<in> set (qs @ [q])" "reads g r k c" unfolding planner_laws_def by blast
  show ?case
  proof (cases "r = q")
    case True
    with LFilter.IH(2) [OF q _ r(2) [unfolded True]] LFilter.prems(2) show ?thesis by simp
  next
    case False
    with r(1) map_res_each [OF qs] obtain s where s: "s \<in> set subs" "create_physical_plan D s = Inr r" by auto
    from LFilter.IH(1) [OF s _ r(2)] LFilter.prems(2) s(1) show ?thesis by simp
  qed
next
  case (LOther kd es ps)
  from LOther.prems(1) obtain qs where qs: "map_res (create_physical_plan D) ps = Inr qs"
    and p: "pn_node D (LOther kd es ps) qs = Inr p" by (auto simp: and_then_eq_Inr)
  from assms p LOther.prems(3) obtain r where r: "r \<in> set qs" "reads g r k c" unfolding planner_laws_def by blast
  with map_res_each [OF qs] obtain s where s: "s \<in> set ps" "create_physical_plan D s = Inr r" by blast
  from LOther.IH [OF s _ r(2)] LOther.prems(2) s(1) show ?case by simp
qed

section \<open>Properties\<close>


section \<open>A concrete planner\<close>

definition ex_planner :: planner where
  "ex_planner = \<lparr>pn_table = (\<lambda>c. \<lparr>bd_contract = c, bd_schema = [], bd_supports = (\<lambda>fs. Inr (map (\<lambda>_. True) fs)),
       bd_scan = (\<lambda>a fs n. Inr (PNode ''Parquet'' []))\<rparr>),
     pn_asks = (\<lambda>c. (None, [], None)), pn_node = (\<lambda>n ps. Inr (PNode ''Operator'' ps))\<rparr>"


end
