(* ===== verification/Python_Api.thy ===== *)
theory Python_Api
  imports Registration Writes Query Format
begin

text \<open>
  The Python bindings' native module (\<open>bindings/python/src/lib.rs\<close>): each method as what it makes of its arguments,
  what it asks of the engine, and the exception or value Python gets. Arrow's stream reader, the writers of results
  and of JSON, and the texts of types are parameters.
\<close>

section \<open>Exceptions\<close>

datatype py_error = PyPermissionError string | PyRuntimeError string

definition to_py :: "peql_error \<Rightarrow> py_error" where
  "to_py e = (if is_refusal e then PyPermissionError (error_text e) else PyRuntimeError (error_text e))"

text \<open>\<open>map_err(to_py)\<close> and \<open>map_err(err)\<close>.\<close>

definition or_raise :: "'a res \<Rightarrow> py_error + 'a" where
  "or_raise r = (case r of Inl e \<Rightarrow> Inl (to_py e) | Inr x \<Rightarrow> Inr x)"

definition or_runtime :: "string + 'a \<Rightarrow> py_error + 'a" where
  "or_runtime r = (case r of Inl e \<Rightarrow> Inl (PyRuntimeError e) | Inr x \<Rightarrow> Inr x)"

section \<open>Callers\<close>

definition or_empty :: "string option \<Rightarrow> string" where
  "or_empty o1 = (case o1 of Some s \<Rightarrow> s | None \<Rightarrow> [])"

text \<open>\<open>Caller::new\<close>; \<open>clock\<close> is the time it is called at, which parcel's \<open>Caller::new\<close> takes for the caller's.\<close>

definition py_caller ::
  "int \<Rightarrow> string \<Rightarrow> string \<Rightarrow> string \<Rightarrow> string option \<Rightarrow> string option \<Rightarrow> string list option \<Rightarrow> int option \<Rightarrow> caller" where
  "py_caller clock id1 purp ten tier classification roles clearance =
     \<lparr>caller_id = id1, tenant = ten, purpose = purp, caller_tier = or_empty tier,
      caller_classification = or_empty classification,
      caller_roles = (case roles of Some r \<Rightarrow> r | None \<Rightarrow> []),
      caller_clearance = (case clearance of Some n \<Rightarrow> n | None \<Rightarrow> 0), caller_now = clock\<rparr>"

definition py_quoted :: "string \<Rightarrow> string" where
  "py_quoted s = CHR 0x27 # s @ [CHR 0x27]"

definition py_caller_repr :: "caller \<Rightarrow> string" where
  "py_caller_repr c = ''Caller(id='' @ py_quoted (caller_id c) @ '', purpose='' @ py_quoted (purpose c) @ '', tenant='' @ py_quoted (tenant c) @ '')''"

section \<open>The engine\<close>

record ('s, 'r, 'j, 'l) py_engine =
  pe_registers :: "('s, 'r) registers"
  pe_world :: "('j, 'l) world"

record ('s, 'r, 'v, 'w, 'j, 'l, 'f) py_api =
  py_host :: "('v, 'w, 'j, 'l) host"
  py_writes :: "'j write_api"
  py_uuid :: string
  py_parcel :: "'r parcel_api"
  py_registry :: "'r registry_api"
  py_codec :: fn_codec
  py_compiled :: store_codec
  py_store :: "'s store_ops"
  py_contents :: "'s \<Rightarrow> contents"
  py_stream :: "string \<Rightarrow> string + schema \<times> (string + batch) list"
  py_format :: "('f, 'f, 'f) format_api"
  py_report_json :: "'j write_report \<Rightarrow> string + string"
  py_verdict_json :: "'j data_verdict \<Rightarrow> string + string"
  py_envelope_json :: "envelope \<Rightarrow> string + string"
  py_type_text :: "data_type \<Rightarrow> string"

type_synonym ('e, 'a) py = "'e \<Rightarrow> ('e \<times> (py_error + 'a)) option"

definition py_give :: "py_error + 'a \<Rightarrow> ('e, 'a) py" where
  "py_give r = (\<lambda>e. Some (e, r))"

definition then_py :: "('e, 'a) py \<Rightarrow> ('a \<Rightarrow> ('e, 'b) py) \<Rightarrow> ('e, 'b) py" where
  "then_py m f = (\<lambda>e. case m e of
       None \<Rightarrow> None
     | Some (e', Inl x) \<Rightarrow> Some (e', Inl x)
     | Some (e', Inr x) \<Rightarrow> f x e')"

text \<open>The runtime's \<open>block_on\<close> of an engine's call, and a call on its registers; both with \<open>map_err(to_py)\<close>.\<close>

definition py_ask ::
  "('s, 'r, 'v, 'w, 'j, 'l, 'f) py_api \<Rightarrow> (contents \<Rightarrow> (('j, 'l) world, 'a) step) \<Rightarrow> (('s, 'r, 'j, 'l) py_engine, 'a) py" where
  "py_ask A m = (\<lambda>e. map_option (\<lambda>(w, r). (e\<lparr>pe_world := w\<rparr>, or_raise r)) (m (py_contents A (er_store (pe_registers e))) (pe_world e)))"

definition py_registers ::
  "(('s, 'r) registers \<Rightarrow> ('s, 'r) registers \<times> 'a res) \<Rightarrow> (('s, 'r, 'j, 'l) py_engine, 'a) py" where
  "py_registers f = (\<lambda>e. let (E, r) = f (pe_registers e) in Some (e\<lparr>pe_registers := E\<rparr>, or_raise r))"

text \<open>An engine opened or made, then the runtime.\<close>

definition py_open :: "'a res \<Rightarrow> string + unit \<Rightarrow> py_error + 'a" where
  "py_open opened tokio = and_then (or_raise opened) (\<lambda>x. and_then (or_runtime tokio) (\<lambda>_. Inr x))"

definition py_in_memory :: "'a \<Rightarrow> string + unit \<Rightarrow> py_error + 'a" where
  "py_in_memory x tokio = and_then (or_runtime tokio) (\<lambda>_. Inr x)"

definition read_ipc :: "('s, 'r, 'v, 'w, 'j, 'l, 'f) py_api \<Rightarrow> string \<Rightarrow> py_error + schema \<times> batch list" where
  "read_ipc A raw =
     and_then (or_runtime (py_stream A raw)) (\<lambda>(s, items).
     and_then (or_runtime (map_res id items)) (\<lambda>bs. Inr (s, bs)))"

section \<open>Methods\<close>

definition py_register ::
  "('s, 'r, 'v, 'w, 'j, 'l, 'f) py_api \<Rightarrow> string \<Rightarrow> string \<Rightarrow> (('s, 'r, 'j, 'l) py_engine, string) py" where
  "py_register A source ipc =
     then_py (py_give (read_ipc A ipc)) (\<lambda>(s, _).
     then_py (py_registers (register_contract (py_parcel A) (py_registry A) (py_store A) source s)) (\<lambda>reg.
       py_give (Inr (reg_name reg))))"

definition py_register_compiled ::
  "('s, 'r, 'v, 'w, 'j, 'l, 'f) py_api \<Rightarrow> string \<Rightarrow> string \<Rightarrow> (('s, 'r, 'j, 'l) py_engine, string) py" where
  "py_register_compiled A source compiled =
     then_py (py_give (or_runtime (pc_parse (py_parcel A) source))) (\<lambda>doc.
     then_py (py_registers (register_compiled (py_registry A) (py_codec A) (py_compiled A) (py_store A) doc compiled [])) (\<lambda>reg.
       py_give (Inr (reg_name reg))))"

text \<open>The rows set aside, as Arrow IPC file bytes.\<close>

definition py_excluded ::
  "('s, 'r, 'v, 'w, 'j, 'l, 'f) py_api \<Rightarrow> batch option \<Rightarrow> py_error + string option" where
  "py_excluded A rows =
     (case rows of
        Some b \<Rightarrow> and_then (or_runtime (map_sum formatter_text id (format_results (py_format A) [b] FormatArrow))) (\<lambda>raw. Inr (Some raw))
      | None \<Rightarrow> Inr None)"

definition py_write ::
  "('s, 'r, 'v, 'w, 'j, 'l, 'f) py_api \<Rightarrow> string \<Rightarrow> string \<Rightarrow> bool \<Rightarrow> string
     \<Rightarrow> (('s, 'r, 'j, 'l) py_engine, string \<times> string option) py" where
  "py_write A name ipc app on_violation =
     then_py (py_give (read_ipc A ipc)) (\<lambda>(_, bs).
     then_py (py_give (or_raise (parse_write_violation on_violation))) (\<lambda>v.
     then_py (py_ask A (\<lambda>g. engine_write (py_host A) (py_writes A) g (py_uuid A) name bs (\<not> app) v)) (\<lambda>(report, rows).
     then_py (py_give (py_excluded A rows)) (\<lambda>excluded.
     then_py (py_give (or_runtime (py_report_json A report))) (\<lambda>j. py_give (Inr (j, excluded)))))))"

definition py_validate ::
  "('s, 'r, 'v, 'w, 'j, 'l, 'f) py_api \<Rightarrow> string \<Rightarrow> (('s, 'r, 'j, 'l) py_engine, string) py" where
  "py_validate A name =
     then_py (py_ask A (\<lambda>g. engine_validate (py_host A) g name)) (\<lambda>v. py_give (or_runtime (py_verdict_json A v)))"

definition py_query ::
  "('s, 'r, 'v, 'w, 'j, 'l, 'f) py_api \<Rightarrow> string \<Rightarrow> caller \<Rightarrow> string \<Rightarrow> (('s, 'r, 'j, 'l) py_engine, string \<times> string) py" where
  "py_query A sql who on_violation =
     then_py (py_give (or_raise (parse_read_violation on_violation))) (\<lambda>v.
     then_py (py_ask A (\<lambda>g. query_as_of (py_host A) g sql who [] v)) (\<lambda>res.
     then_py (py_give (or_runtime (map_sum formatter_text id (format_results (py_format A) (qr_batches res) FormatArrow)))) (\<lambda>ipc.
     then_py (py_give (or_runtime (py_envelope_json A (qr_envelope res)))) (\<lambda>env. py_give (Inr (ipc, env))))))"

definition py_describe ::
  "('s, 'r, 'v, 'w, 'j, 'l, 'f) py_api \<Rightarrow> string \<Rightarrow> caller \<Rightarrow> (('s, 'r, 'j, 'l) py_engine, (string \<times> string) list) py" where
  "py_describe A name who =
     then_py (py_ask A (\<lambda>g. lift (describe (h_runtime (py_host A)) g name who))) (\<lambda>s.
       py_give (Inr (map (\<lambda>f. (field_name f, py_type_text A (field_type f))) s)))"

definition py_publish :: "('s, 'r, 'v, 'w, 'j, 'l, 'f) py_api \<Rightarrow> string \<Rightarrow> string \<Rightarrow> (('s, 'r, 'j, 'l) py_engine, unit) py" where
  "py_publish A name audience = py_registers (engine_publish (py_store A) name audience)"

definition py_unpublish :: "('s, 'r, 'v, 'w, 'j, 'l, 'f) py_api \<Rightarrow> string \<Rightarrow> string \<Rightarrow> (('s, 'r, 'j, 'l) py_engine, unit) py" where
  "py_unpublish A name audience = py_registers (engine_unpublish (py_store A) name audience)"

definition py_contracts :: "('s, 'r, 'v, 'w, 'j, 'l, 'f) py_api \<Rightarrow> ('s, 'r, 'j, 'l) py_engine \<Rightarrow> string list" where
  "py_contracts A e = map reg_name (engine_contracts (py_store A) (pe_registers e))"

section \<open>Lemmas\<close>

named_theorems py_simps \<open>running the methods\<close>

lemma or_raise_simps [py_simps]: "or_raise (Inl e) = Inl (to_py e)" "or_raise (Inr x) = Inr x"
  by (simp_all add: or_raise_def)

lemma or_runtime_simps [py_simps]: "or_runtime (Inl t) = Inl (PyRuntimeError t)" "or_runtime (Inr x) = Inr x"
  by (simp_all add: or_runtime_def)

lemma then_give [py_simps]: "then_py (py_give (Inl x)) f = py_give (Inl x)" "then_py (py_give (Inr y)) f = f y"
  by (simp_all add: then_py_def py_give_def fun_eq_iff)

lemma then_py_run [py_simps]:
  "m e = Some (e', Inr x) \<Longrightarrow> then_py m f e = f x e'" "m e = Some (e', Inl y) \<Longrightarrow> then_py m f e = Some (e', Inl y)"
  by (simp_all add: then_py_def)

lemma py_ask_run:
  "m (py_contents A (er_store (pe_registers e))) (pe_world e) = Some (w, r) \<Longrightarrow> py_ask A m e = Some (e\<lparr>pe_world := w\<rparr>, or_raise r)"
  by (simp add: py_ask_def)

text \<open>What comes after an act that changes nothing fails with a \<open>RuntimeError\<close> or goes on.\<close>

lemma then_runtime:
  "then_py (py_give (or_runtime r)) f e = (case r of Inl t \<Rightarrow> Some (e, Inl (PyRuntimeError t)) | Inr x \<Rightarrow> f x e)"
  by (simp add: then_py_def py_give_def or_runtime_def split: sum.split)

lemma refused_is_permission: "(\<exists>t. to_py e = PyPermissionError t) \<longleftrightarrow> is_refusal e"
  by (simp add: to_py_def)

end
