(* ===== verification/Python_Safety.thy ===== *)
theory Python_Safety
  imports Python_Api Command_Safety
begin

text \<open>What the Python bindings promise, also beside the command line.\<close>

section \<open>Queries\<close>

lemma py_query_run:
  assumes "parse_read_violation ov = Inr v"
    and "query_as_of (py_host A) (py_contents A (er_store (pe_registers e))) sql who [] v (pe_world e) = Some (w', r)"
  shows "py_query A sql who ov e = Some (e\<lparr>pe_world := w'\<rparr>,
     and_then (or_raise r) (\<lambda>res.
     and_then (or_runtime (map_sum formatter_text id (format_results (py_format A) (qr_batches res) FormatArrow))) (\<lambda>ipc.
     and_then (or_runtime (py_envelope_json A (qr_envelope res))) (\<lambda>env. Inr (ipc, env)))))"
proof -
  have ask: "py_ask A (\<lambda>g. query_as_of (py_host A) g sql who [] v) e = Some (e\<lparr>pe_world := w'\<rparr>, or_raise r)"
    using assms(2) by (rule py_ask_run)
  show ?thesis
  proof (cases r)
    case (Inl x)
    with ask show ?thesis by (simp add: py_query_def assms(1) py_simps)
  next
    case (Inr res)
    with ask have ask: "py_ask A (\<lambda>g. query_as_of (py_host A) g sql who [] v) e = Some (e\<lparr>pe_world := w'\<rparr>, Inr res)"
      by (simp add: py_simps)
    show ?thesis
      unfolding py_query_def assms(1) or_raise_simps then_give then_py_run(1) [where m = "py_ask A (\<lambda>g. query_as_of (py_host A) g sql who [] v)" and e = e, OF ask] Inr and_then_Inr
      by (cases "format_results (py_format A) (qr_batches res) FormatArrow"; cases "py_envelope_json A (qr_envelope res)")
        (simp_all add: py_simps py_give_def)
  qed
qed

lemma py_query_outcome:
  assumes "parse_read_violation ov = Inr v"
    and "query_as_of (py_host A) (py_contents A (er_store (pe_registers e))) sql who [] v (pe_world e) = Some (w', r)"
  shows "\<exists>out. py_query A sql who ov e = Some (e\<lparr>pe_world := w'\<rparr>, out)
     \<and> ((\<exists>t. out = Inl (PyPermissionError t)) \<longleftrightarrow> (\<exists>x. r = Inl x \<and> is_refusal x))
     \<and> (\<forall>x. r = Inl x \<longrightarrow> out = Inl (to_py x))"
  unfolding py_query_run [OF assms]
  by (cases r) (auto simp: to_py_def or_raise_simps or_runtime_def and_then_def split: sum.splits)

text \<open>
  Python sees a \<open>PermissionError\<close> exactly when the engine refused the query, whichever of the two its
  error is, and its text is the engine's; every other failure is a \<open>RuntimeError\<close>, no failed query gives a value,
  and the engine is left as the query leaves it.
\<close>

theorem python_raises_refusals:
  assumes "parse_read_violation ov = Inr v"
    and "query_as_of (py_host A) (py_contents A (er_store (pe_registers e))) sql who [] v (pe_world e) = Some (w', r)"
  shows "\<exists>out. py_query A sql who ov e = Some (e\<lparr>pe_world := w'\<rparr>, out)
     \<and> ((\<exists>t. out = Inl (PyPermissionError t)) \<longleftrightarrow> (\<exists>x. r = Inl x \<and> is_refusal x))
     \<and> (\<forall>x. r = Inl x \<longrightarrow> out = Inl (to_py x))"
  by (rule py_query_outcome [OF assms])

text \<open>
  An answer without batches reaches Python as no bytes, whatever columns the answer has: its schema is
  lost, and only then.
\<close>

theorem empty_answer_loses_its_columns:
  assumes "parse_read_violation ov = Inr v"
    and "query_as_of (py_host A) (py_contents A (er_store (pe_registers e))) sql who [] v (pe_world e) = Some (w', Inr res)"
    and "\<And>w raw. wr_finish (fm_arrow (py_format A)) w = Inr raw \<Longrightarrow> raw \<noteq> []"
    and "py_query A sql who ov e = Some (e', Inr (ipc, env))"
  shows "ipc = [] \<longleftrightarrow> qr_batches res = []"
proof -
  from assms(4) have "format_results (py_format A) (qr_batches res) FormatArrow = Inr ipc"
    unfolding py_query_run [OF assms(1,2)]
    by (auto simp: or_raise_simps or_runtime_def and_then_def split: sum.splits)
      (auto simp: map_sum_def split: sum.splits)
  then show ?thesis
    by (cases "qr_batches res")
      (auto simp: format_results_def or_format_def file_bytes_of_def and_then_eq_Inr dest!: assms(3) split: sum.splits)
qed

text \<open>
  C24. The command line and the Python bindings refuse alike: asked the same of the same engine, the one ends
  with status 1 exactly when the other raises a \<open>PermissionError\<close>, and both leave the engine's world alike.
\<close>

theorem front_ends_refuse_alike:
  assumes "parse_read_violation ov = Inr v" and "py_host A = cl_host C" and "resolve_caller C a = Inr who"
    and "py_contents A (er_store (pe_registers e)) = ds_memory (er_store (sh_registers s))" and "pe_world e = sh_world s"
    and "py_query A sql who ov e = Some (e', out)"
    and "exit_status (run_query C sql a fmt path env False v) s = Some (s', code)"
  shows "(code = 1 \<longleftrightarrow> (\<exists>t. out = Inl (PyPermissionError t))) \<and> pe_world e' = sh_world s'"
proof -
  obtain w' r where q: "query_as_of (cl_host C) (ds_memory (er_store (sh_registers s))) sql who [] v (sh_world s) = Some (w', r)"
  proof (cases "query_as_of (cl_host C) (ds_memory (er_store (sh_registers s))) sql who [] v (sh_world s)")
    case None
    then have "py_query A sql who ov e = None"
      by (simp add: py_query_def assms(1,2,4,5) py_simps then_py_def py_ask_def py_give_def)
    with assms(6) show ?thesis by simp
  next
    case (Some x)
    then show ?thesis by (cases x) (simp add: that)
  qed
  then have q': "query_as_of (py_host A) (py_contents A (er_store (pe_registers e))) sql who [] v (pe_world e) = Some (w', r)"
    by (simp add: assms(2,4,5))
  from assms(6) have "pe_world e' = w'" "(\<exists>t. out = Inl (PyPermissionError t)) \<longleftrightarrow> (\<exists>x. r = Inl x \<and> is_refusal x)"
    using py_query_outcome [OF assms(1) q'] by auto
  with query_outcome [OF assms(3) q assms(7)] show ?thesis by blast
qed

section \<open>Publishing and writing\<close>

text \<open>
  Publishing a contract that is not registered raises a \<open>PermissionError\<close> and changes nothing.
\<close>

theorem unknown_publish_is_refused:
  assumes "so_current (py_store A) (er_store (pe_registers e)) name = None"
  shows "py_publish A name audience e = Some (e, Inl (PyPermissionError (''no contract named `'' @ name @ ''`'')))"
  using assms by (simp add: py_publish_def py_registers_def engine_publish_def or_raise_simps to_py_def)

text \<open>
  C99. A write that was committed without the rows set aside raises a \<open>RuntimeError\<close> when these cannot be made
  into bytes: the data stays committed, and Python gets neither the rows nor the report.
\<close>

theorem committed_write_can_raise:
  assumes "read_ipc A ipc = Inr (sc, bs)" and "parse_write_violation ov = Inr v"
    and "engine_write (py_host A) (py_writes A) (py_contents A (er_store (pe_registers e))) (py_uuid A) name bs (\<not> app) v (pe_world e)
       = Some (w', Inr (report, Some rows))"
    and "format_results (py_format A) [rows] FormatArrow = Inl f"
  shows "py_write A name ipc app ov e = Some (e\<lparr>pe_world := w'\<rparr>, Inl (PyRuntimeError (formatter_text f)))"
proof -
  have ask: "py_ask A (\<lambda>g. engine_write (py_host A) (py_writes A) g (py_uuid A) name bs (\<not> app) v) e
      = Some (e\<lparr>pe_world := w'\<rparr>, Inr (report, Some rows))"
    using py_ask_run [where m = "\<lambda>g. engine_write (py_host A) (py_writes A) g (py_uuid A) name bs (\<not> app) v", OF assms(3)]
    by (simp add: py_simps)
  show ?thesis
    by (simp add: py_write_def assms(1,2,4) py_simps py_excluded_def py_give_def
      then_py_run(1) [where m = "py_ask A (\<lambda>g. engine_write (py_host A) (py_writes A) g (py_uuid A) name bs (\<not> app) v)" and e = e, OF ask])
qed

end
