(* ===== verification/Python_Example.thy ===== *)
theory Python_Example
  imports Python_Safety Command_Example
begin

text \<open>The bindings over the engine of the other examples: their properties where their hypotheses hold.\<close>

definition ex_py :: "(dir_store, fn_entry list, unit, unit, ex_json, ex_cache, schema \<times> batch list) py_api" where
  "ex_py = \<lparr>py_host = ex_host, py_writes = ex_write_api 0, py_uuid = ''id'', py_parcel = ex_parcel, py_registry = ex_fn_api,
     py_codec = ex_fn_codec, py_compiled = ex_store_codec, py_store = dir_ops ex_store_codec None Saved, py_contents = ds_memory,
     py_stream = (\<lambda>raw. Inr (batch_schema ex_two, [Inr ex_two])),
     py_format = \<lparr>fm_arrow = \<lparr>wr_new = (\<lambda>s. Inr (s, [])), wr_batch = (\<lambda>w b. Inr (fst w, snd w @ [b])), wr_finish = (\<lambda>w. Inr ''arrow'')\<rparr>,
       fm_parquet = \<lparr>wr_new = (\<lambda>s. Inl ''no''), wr_batch = (\<lambda>w b. Inl ''no''), wr_finish = (\<lambda>w. Inl ''no'')\<rparr>,
       fm_json = \<lparr>lw_new = ([], []), lw_batches = (\<lambda>w bs. Inl ''no''), lw_finish = (\<lambda>w. Inl ''no'')\<rparr>\<rparr>,
     py_report_json = (\<lambda>r. Inr ''report''), py_verdict_json = (\<lambda>v. Inr ''verdict''), py_envelope_json = (\<lambda>e. Inr ''envelope''),
     py_type_text = (\<lambda>t. ''type'')\<rparr>"

lemma ex_py_simps:
  "py_host ex_py = ex_host" "py_contents ex_py = ds_memory" "py_store ex_py = dir_ops ex_store_codec None Saved"
  "py_envelope_json ex_py = (\<lambda>e. Inr ''envelope'')"
  unfolding ex_py_def py_api.simps by (rule refl)+

lemma ex_py_arrow:
  "wr_new (fm_arrow (py_format ex_py)) s = Inr (s, [])"
  "wr_batch (fm_arrow (py_format ex_py)) w b = Inr (fst w, snd w @ [b])"
  "wr_finish (fm_arrow (py_format ex_py)) w = Inr ''arrow''"
  unfolding ex_py_def py_api.simps by simp_all

definition ex_py_engine :: "(dir_store, fn_entry list, ex_json, ex_cache) py_engine" where
  "ex_py_engine = \<lparr>pe_registers = sh_registers ex_shell, pe_world = ex_world\<rparr>"

lemma ex_py_engine_simps:
  "ds_memory (er_store (pe_registers ex_py_engine)) = ex_contents" "pe_world ex_py_engine = ex_world"
  by (simp_all add: ex_py_engine_def ex_shell_simps)

lemma ex_py_refused:
  obtains w' where "query_as_of ex_host ex_contents ''explain'' ex_caller [] RExclude ex_world = Some (w', Inl (Refused ''EXPLAIN''))"
  by (simp add: ex_refused [OF refl] finally_do_def stop_def audit_answer_def audit_def Let_def ex_host_simps change_def)

lemma ex_mode: "parse_read_violation ''exclude'' = Inr RExclude"
  by (simp add: parse_read_violation_def)

theorem python_raises_refusals_witness:
  "\<exists>e' t. py_query ex_py ''explain'' ex_caller ''exclude'' ex_py_engine = Some (e', Inl (PyPermissionError t))"
proof -
  obtain w' where "query_as_of ex_host ex_contents ''explain'' ex_caller [] RExclude ex_world = Some (w', Inl (Refused ''EXPLAIN''))"
    by (rule ex_py_refused)
  then have "query_as_of (py_host ex_py) (py_contents ex_py (er_store (pe_registers ex_py_engine))) ''explain'' ex_caller [] RExclude
      (pe_world ex_py_engine) = Some (w', Inl (Refused ''EXPLAIN''))"
    by (simp only: ex_py_simps ex_py_engine_simps)
  from python_raises_refusals [OF ex_mode this] show ?thesis by (auto simp: to_py_def)
qed

theorem empty_answer_loses_its_columns_witness:
  "\<exists>e' ipc env. py_query ex_py ''q'' ex_caller ''exclude'' ex_py_engine = Some (e', Inr (ipc, env)) \<and> ipc \<noteq> []"
proof -
  obtain w' x where "query_as_of ex_host ex_contents ''q'' ex_caller [] RExclude ex_world = Some (w', Inr x)"
    and b: "qr_batches x = [ex_rows 3, ex_rows 2]" by (rule ex_query)
  then have q: "query_as_of (py_host ex_py) (py_contents ex_py (er_store (pe_registers ex_py_engine))) ''q'' ex_caller [] RExclude
      (pe_world ex_py_engine) = Some (w', Inr x)"
    by (simp only: ex_py_simps ex_py_engine_simps)
  have run: "py_query ex_py ''q'' ex_caller ''exclude'' ex_py_engine = Some (ex_py_engine\<lparr>pe_world := w'\<rparr>, Inr (''arrow'', ''envelope''))"
    unfolding py_query_run [OF ex_mode q]
    by (simp add: or_raise_simps b format_results_def file_bytes_of_def or_format_def ex_py_arrow ex_py_simps or_runtime_simps)
  have "wr_finish (fm_arrow (py_format ex_py)) w = Inr raw \<Longrightarrow> raw \<noteq> []" for w raw by (auto simp: ex_py_arrow)
  from empty_answer_loses_its_columns [OF ex_mode q this run] b have "''arrow'' \<noteq> []" by simp
  with run show ?thesis by blast
qed

theorem front_ends_refuse_alike_witness:
  "\<exists>e' t s'. py_query ex_py ''explain'' ex_caller ''exclude'' ex_py_engine = Some (e', Inl (PyPermissionError t))
     \<and> exit_status (run_query ex_cli ''explain'' ex_as OutTable None False False RExclude) ex_shell = Some (s', 1)
     \<and> pe_world e' = sh_world s'"
proof -
  obtain w' where w: "query_as_of ex_host ex_contents ''explain'' ex_caller [] RExclude ex_world = Some (w', Inl (Refused ''EXPLAIN''))"
    by (rule ex_py_refused)
  then have q: "query_as_of (py_host ex_py) (py_contents ex_py (er_store (pe_registers ex_py_engine))) ''explain'' ex_caller [] RExclude
      (pe_world ex_py_engine) = Some (w', Inl (Refused ''EXPLAIN''))"
    by (simp only: ex_py_simps ex_py_engine_simps)
  from py_query_outcome [OF ex_mode q] obtain t where py: "py_query ex_py ''explain'' ex_caller ''exclude'' ex_py_engine
      = Some (ex_py_engine\<lparr>pe_world := w'\<rparr>, Inl (PyPermissionError t))" by (auto simp: to_py_def)
  from w have q': "query_as_of (cl_host ex_cli) (ds_memory (er_store (sh_registers ex_shell))) ''explain'' ex_caller [] RExclude
      (sh_world ex_shell) = Some (w', Inl (Refused ''EXPLAIN''))" by (simp only: ex_cli_simps ex_shell_simps)
  obtain s' code where run: "exit_status (run_query ex_cli ''explain'' ex_as OutTable None False False RExclude) ex_shell = Some (s', code)"
    using engine_run [where m = "\<lambda>g. query_as_of (cl_host ex_cli) g ''explain'' ex_caller [] RExclude" and s = ex_shell, OF q']
    by (simp add: run_query_def ex_as_caller act_simps exit_status_def)
  have same: "py_host ex_py = cl_host ex_cli"
      "py_contents ex_py (er_store (pe_registers ex_py_engine)) = ds_memory (er_store (sh_registers ex_shell))"
      "pe_world ex_py_engine = sh_world ex_shell"
    by (simp_all only: ex_py_simps ex_cli_simps ex_py_engine_simps ex_shell_simps)
  from front_ends_refuse_alike [OF ex_mode same(1) ex_as_caller same(2,3) py run] run py show ?thesis by auto
qed

theorem unknown_publish_is_refused_witness:
  "\<exists>t. py_publish ex_py ''t/none'' ''public'' ex_py_engine = Some (ex_py_engine, Inl (PyPermissionError t))"
proof -
  have "mem_current ex_contents ''t/none'' = None"
    by (simp add: mem_current_def ex_contents_def mem_put_def empty_contents_def bt_update_def bt_get_or_def reg_name_def
        ex_contract_simps ex_registered_def)
  then have "so_current (py_store ex_py) (er_store (pe_registers ex_py_engine)) ''t/none'' = None"
    by (simp add: ex_py_simps dir_ops_def ex_py_engine_simps)
  from unknown_publish_is_refused [OF this] show ?thesis by blast
qed

end
