(* ===== verification/Spec2Isabelle.thy ===== *)
theory Spec2Isabelle
  imports Violation Manifest Facts Budget Cache Guard Gate Shape Store Query_Audit Atomic Envelope Binding Resolve
    Snapshots Vector Engine_State Dataset Query Dataset_Facts Query_Safety Query_Example
    Lake Commits Commit_Safety Commit_Ends Writes Write_Safety Write_Facts Write_Files Lake_Example Write_Example
    Functions Function_Safety Function_Disk Registration Registration_Safety Registration_Example Flight Flight_Safety
    Flight_Example Reading Resolvers Reading_Example
    Serving Serving_Example Lance Format View_Hash View_Hash_Example Command_Line Command_Safety Command_Example
    Catalogs Gate_Nodes Gate_Planning Python_Api Python_Safety Python_Example
begin

text \<open>
  peQL is a query engine in which every table is a data contract. A contract, compiled by parcel, says which rows
  and columns which caller gets; peQL stores compiled contracts, writes data under them and answers SQL through
  them. This development models the Rust implementation (\<open>src/src\<close>, the command line \<open>src/src/bin/peql.rs\<close> and the
  Python bindings \<open>src/bindings/python/src/lib.rs\<close>) and proves what keeps the promise: nothing reaches a caller
  except through a contract's view, nothing is answered that is not paid for and no refusal charges, what is refused
  leaves no trace in the data, and what is known of data is what was written of it. Where the code does not keep it,
  that is a theorem too. Paths below are under \<open>src/\<close> of the repository's root.

  \<^bold>\<open>How the program is put together.\<close> An \<open>Engine\<close> (\<open>src/engine.rs\<close>) holds a contract store, a function store, a
  budget ledger, a cache, an audit log and what resolves a contract's binding to its data. A query is checked to be
  one statement (\<open>guard.rs\<close>), every contract it names is resolved for its caller, each becomes a view that ends in a
  gate (\<open>gate.rs\<close>), the plan is optimised, planned, refused unless every scan is under its own gate, charged, run,
  and given with an envelope. A write (\<open>violation.rs\<close>, \<open>facts.rs\<close>) flags rows, lays files out, and publishes them to
  a directory, an object store or an Iceberg table as one snapshot, with the facts of what it wrote. The Flight
  service, the command line and the Python bindings are three front ends over one engine.

  \<^bold>\<open>The theories\<close>, in the order in which they build on each other:

  \<^item> \<open>Peql_Prelude\<close>: results (the \<open>?\<close> operator is \<open>and_then\<close>), ordered maps (\<open>BTreeMap\<close>), strings, the collections
    of rewrite rules. \<open>Float64\<close>: Rust's \<open>f64\<close> with not-a-number, infinities and rounding to nearest even, since a
    ledger's sums and a rule's rates depend on them. \<open>Parcel_Types\<close>, \<open>Plans\<close>: schemas, batches, compiled contracts,
    logical and physical plans, as far as the source looks into them. \<open>Peql_Error\<close>: \<open>error.rs\<close>.
  \<^item> \<open>Manifest\<close>, \<open>Violation\<close>, \<open>Facts\<close>, \<open>Dataset_Facts\<close>, \<open>Snapshots\<close>: what is known of data (\<open>manifest.rs\<close>), rows that
    break rules and how a batch is split by them (\<open>violation.rs\<close>), how the facts of a write combine with those
    before it (\<open>facts.rs\<close>), and where facts of Iceberg snapshots are found by walking back over appends.
  \<^item> \<open>Budget\<close> (\<open>budget.rs\<close>), \<open>Cache\<close> (\<open>cache.rs\<close>), \<open>Store\<close> (\<open>store.rs\<close>), \<open>Query_Audit\<close> (\<open>audit.rs\<close>), \<open>Atomic\<close>
    (\<open>atomic.rs\<close>, as a step relation of many writers over one disk), \<open>Envelope\<close> (\<open>envelope.rs\<close>, \<open>signer.rs\<close>).
  \<^item> \<open>Gate\<close>, \<open>Gate_Nodes\<close>, \<open>Gate_Planning\<close> (\<open>gate.rs\<close>), \<open>Shape\<close> (\<open>shape.rs\<close>), \<open>Guard\<close> (\<open>guard.rs\<close>), \<open>Vector\<close>
    (\<open>vector.rs\<close>).
  \<^item> \<open>Binding\<close>, \<open>Reading\<close>, \<open>Resolvers\<close> (\<open>binding.rs\<close>, \<open>object_binding.rs\<close>, the opening half of \<open>iceberg_table.rs\<close>),
    \<open>Lance\<close> (\<open>lance_table.rs\<close>).
  \<^item> \<open>Engine_State\<close>, \<open>Resolve\<close>, \<open>Dataset\<close>, \<open>Query\<close>, \<open>Query_Safety\<close>, \<open>Serving\<close>: the engine's state and steps,
    visibility and resolution, validation, and queries (\<open>engine.rs\<close>). \<open>View_Hash\<close> (\<open>view_hash.rs\<close>).
  \<^item> \<open>Lake\<close>, \<open>Catalogs\<close>, \<open>Commits\<close>, \<open>Commit_Safety\<close>, \<open>Commit_Ends\<close>: the writing half of \<open>iceberg_table.rs\<close>. \<open>Writes\<close>,
    \<open>Write_Safety\<close>, \<open>Write_Facts\<close>, \<open>Write_Files\<close>: \<open>begin_write\<close> to \<open>finish_write\<close> and \<open>compact\<close> of \<open>engine.rs\<close>.
  \<^item> \<open>Functions\<close>, \<open>Function_Safety\<close>, \<open>Function_Disk\<close> (\<open>functions.rs\<close>); \<open>Registration\<close>, \<open>Registration_Safety\<close>.
  \<^item> \<open>Format\<close> (\<open>format.rs\<close>); \<open>Flight\<close>, \<open>Flight_Safety\<close> (\<open>flight.rs\<close>); \<open>Command_Line\<close>, \<open>Command_Safety\<close>
    (\<open>bin/peql.rs\<close>); \<open>Python_Api\<close>, \<open>Python_Safety\<close>.
  \<^item> The theories named \<open>..._Example\<close> hold concrete hosts, worlds and tables at which the properties are applied.

  \<^bold>\<open>How code becomes definitions.\<close> A function that can fail gives \<open>Inl\<close> of the error or \<open>Inr\<close> of the value, every
  early return and \<open>?\<close> a branch. One that changes what an engine reaches is a step from a world (files, object
  stores, catalogs, manifests, budgets, cache and audit log) to a world and a result; a step is \<open>None\<close> only where a
  loop of the source does not end. Code outside the repository (DataFusion, Arrow, Parquet, the Iceberg crate, Lance,
  parcel, serde, sha256, the clock) is a field of a record that the definitions take: \<open>host\<close>, \<open>write_api\<close>,
  \<open>lake_api\<close>, \<open>runtime\<close>, \<open>df_engine\<close>, \<open>format_api\<close>, \<open>flight_api\<close>, \<open>parcel_api\<close> and others. What is relied on of it
  is a named predicate, a hypothesis of the theorems that need it: \<open>conjunction_laws\<close>, \<open>engine_laws\<close>, \<open>gather_law\<close>
  and \<open>planner_laws\<close> of DataFusion's plans, \<open>codec_laws\<close>, \<open>ledger_laws\<close>, \<open>store_laws\<close>, \<open>line_laws\<close> and
  \<open>fn_codec_laws\<close> of what is written and read back, \<open>stat_laws\<close> of the order of statistics, \<open>lru_laws\<close> of the cache's
  list, \<open>append_law\<close> of a fast append, \<open>compile_laws\<close>, \<open>registry_laws\<close> and \<open>install_laws\<close> of parcel's compiler and
  function registry, \<open>flight_laws\<close>, \<open>lance_laws\<close>, \<open>writer_laws\<close>, \<open>gives_batches\<close> and \<open>name_blind\<close>. Every property that
  takes one has a witness whose instance is concrete.

  \<^bold>\<open>Interfaces\<close> are locales: \<open>contract_store\<close> (what \<open>put\<close>, \<open>publish\<close> and the lookups promise each other), interpreted
  on the memory store and on the directory store; \<open>audit_log\<close>, on the log in memory and the JSON lines of a file;
  \<open>binding_resolver\<close>, on local files, object stores and Iceberg tables. Registration is proved over any record of
  operations that is a \<open>contract_store\<close> (\<open>sound_store\<close>).

  \<^bold>\<open>What the groups of lemmas show.\<close> Gates: the proof over the physical plan is exact, the barrier changes no
  result, no physical filter crosses a gate, and a plan whose views end in their gates always passes. Queries:
  answers are read through gates only, do not depend on contracts the caller cannot see, are audited whatever
  becomes of them, are charged all or nothing and only when they run, and come with no fewer rows than the suppress
  rule says. Writes: nothing is seen before a write is finished, a refused one publishes nothing, rows set aside are
  not written, and the facts published are of the rows published. Iceberg: a commit refines the abstract append,
  overwrite or rewrite of a table, however other writers' commits fall between its steps (\<open>w_others\<close> is what they do,
  one for each time the source reads the table again). Stores: reopening a directory gives back what was kept, and
  where it does not, which half-finished update it is that keeps it from opening. Front ends: whose request it is,
  what status or exception a refusal becomes, and that the command line and the bindings refuse alike.

  \<^bold>\<open>What does not hold\<close> is proved of the same definitions: two charges of one budget in one query overspend it, an
  infinite limit locks a ledger out, and a ledger that cannot be saved leaves its caller charged (\<open>Budget\<close>); names with
  two underscores share a directory, and a half-written list of audiences closes the whole store (\<open>Store\<close>); an update
  of a function that stops between its files keeps an engine from opening (\<open>Registration_Safety\<close>); a commit that landed
  can answer an error (\<open>Commit_Ends\<close>), and so can a write that is published (\<open>Write_Facts\<close>); rows set aside can be lost
  (\<open>Command_Safety\<close>); a table whose binding fails is served (\<open>Serving\<close>); gates are preordered where the trait asks for
  an order (\<open>Gate_Nodes\<close>); an answer without batches reaches Python without columns (\<open>Python_Safety\<close>).

  \<^bold>\<open>Loops.\<close> Retries of a commit and of a conditional write are recursions over the retries left, which the source
  bounds too. Walks over snapshots (\<open>walk_back\<close>, \<open>since_walk\<close>), making room in the cache (\<open>make_room\<close>) and reading a
  source in chunks (\<open>file_bytes\<close>) are partial functions, and that they end is proved: \<open>iceberg_facts_ends\<close>,
  \<open>since_walk_ends\<close>, \<open>cache_always_bounded\<close>, \<open>hashes_are_of_the_bytes\<close>. No fuel is used.

  \<^bold>\<open>Numbers.\<close> Counts of rows, bytes and files are naturals: that a \<open>usize\<close> or \<open>u64\<close> sum of them overflows would take
  more data than a machine holds. Where the source saturates or converts, the model writes it out (waits between
  retries, the limit handed to Lance).

  \<^bold>\<open>Not modelled\<close>, and why. Concurrency within one process: locks are held over each operation the source holds them
  over, and an operation is one step; other processes are modelled where the source meets them (files renamed into
  place, catalog commits, object stores). Debug and display texts that no caller sees, getters of one field, derived
  traits, cargo features and the declaration of modules (\<open>lib.rs\<close>). The transport of the Flight service (tonic's
  serving loops) and of the signer's socket below its frames. The operations of a catalog other than those a commit
  uses go to the catalog unchanged (\<open>Catalogs\<close>). Metrics beyond rows and bytes read. The Python wrapper above the
  native module, which is not Rust. What Arrow's kernels compute is what they are documented to.
\<close>

end
